(* ===== verification/Magellan_Prelude.thy ===== *)
theory Magellan_Prelude
  imports Main "HOL-Library.Word" "HOL-Library.Sublist"
begin

text \<open>
  The vocabulary every component shares: Go's machine integers, byte strings, times and
  errors; the string functions of Go's standard library that the sources call; and the
  effect type in which every operation that talks to the database is written.

  A Go \<^verbatim>\<open>error\<close> is its message (the sources only ever look at \<^verbatim>\<open>err.Error()\<close>);
  a Go function that returns \<^verbatim>\<open>(T, error)\<close> is a value of type \<open>('d, 'a) go\<close>: it
  takes the world, and returns \<open>Inl e\<close> or \<open>Inr x\<close> together with the world it leaves.
  The world holds the database (\<open>store\<close>, of the type of the component that uses it),
  what the database driver answers to the n-th statement when that is an error of its own
  (\<open>faults\<close>: a lost connection, a deadlock, a time-out), and the wall clock that
  \<^verbatim>\<open>time.Now()\<close> reads (\<open>clock\<close>, a reading for every call).  \<open>stmts\<close> and
  \<open>ticks\<close> count the statements and the clock readings so far.
\<close>

section \<open>Types\<close>

type_synonym u8 = "8 word"
type_synonym u16 = "16 word"
type_synonym i16 = "16 word"
type_synonym u32 = "32 word"
type_synonym u64 = "64 word"
type_synonym bytes = string
type_synonym gotime = int  \<comment> \<open>nanoseconds since the Unix epoch\<close>
type_synonym goerr = string

named_theorems steps_intros \<open>one rule per combinator: how a relation between worlds composes\<close>
named_theorems go_simps \<open>unfolding of the effect combinators\<close>
named_theorems succeeds_intros \<open>total-correctness rules of the combinators\<close>

section \<open>Go's strings package\<close>

definition HasPrefix :: "string \<Rightarrow> string \<Rightarrow> bool" where
  "HasPrefix s p \<longleftrightarrow> take (length p) s = p"

fun Contains :: "string \<Rightarrow> string \<Rightarrow> bool" where
  "Contains [] p = (p = [])"
| "Contains (c # s) p = (HasPrefix (c # s) p \<or> Contains s p)"

definition TrimPrefix :: "string \<Rightarrow> string \<Rightarrow> string" where
  "TrimPrefix s p = (if HasPrefix s p then drop (length p) s else s)"

fun Join :: "string list \<Rightarrow> string \<Rightarrow> string" where
  "Join [] sep = []"
| "Join [s] sep = s"
| "Join (s # t # ss) sep = s @ sep @ Join (t # ss) sep"

text \<open>Decimal printing, as \<^verbatim>\<open>%d\<close> does for an unsigned integer.\<close>

fun digits_rev :: "nat \<Rightarrow> string" where
  "digits_rev n = (if n < 10 then [char_of (48 + n)]
                   else char_of (48 + n mod 10) # digits_rev (n div 10))"

declare digits_rev.simps [simp del]

definition dec_nat :: "nat \<Rightarrow> string" where
  "dec_nat n = rev (digits_rev n)"

definition dec_int :: "int \<Rightarrow> string" where
  "dec_int i = (if i < 0 then ''-'' @ dec_nat (nat (- i)) else dec_nat (nat i))"

lemma HasPrefix_append [simp]: "HasPrefix (p @ s) p"
  by (simp add: HasPrefix_def)

lemma HasPrefix_iff_prefix: "HasPrefix s p \<longleftrightarrow> prefix p s"
  by (metis HasPrefix_def append_eq_conv_conj append_take_drop_id prefix_def)

lemma HasPrefix_appendI: "HasPrefix s p \<Longrightarrow> HasPrefix (s @ t) p"
  by (simp add: HasPrefix_iff_prefix)

lemma Contains_iff_sublist: "Contains s p \<longleftrightarrow> sublist p s"
  by (induction s) (auto simp: HasPrefix_iff_prefix sublist_Cons_right)

lemma Contains_appendI: "Contains s p \<Longrightarrow> Contains (s @ t) p"
  unfolding Contains_iff_sublist sublist_def by (metis append.assoc)

lemma digits_rev_digit: "c \<in> set (digits_rev n) \<Longrightarrow> (48::nat) \<le> of_char c \<and> of_char c < (58::nat)"
proof (induction n rule: digits_rev.induct)
  case (1 n)
  show ?case
  proof (cases "n < 10")
    case True
    with "1.prems" have "c = char_of (48 + n)" by (simp add: digits_rev.simps [of n])
    with True show ?thesis by simp
  next
    case False
    with "1.prems" have "c = char_of (48 + n mod 10) \<or> c \<in> set (digits_rev (n div 10))"
      by (simp add: digits_rev.simps [of n])
    then show ?thesis
    proof
      assume "c = char_of (48 + n mod 10)"
      moreover have "n mod 10 < 10" by simp
      ultimately show ?thesis by simp
    next
      assume "c \<in> set (digits_rev (n div 10))"
      with False "1.IH" show ?thesis by blast
    qed
  qed
qed

lemma dec_nat_digit: "c \<in> set (dec_nat n) \<Longrightarrow> (48::nat) \<le> of_char c \<and> of_char c < (58::nat)"
  by (auto simp: dec_nat_def dest: digits_rev_digit)

text \<open>Reading the digits back gives the number, so printing is injective.\<close>

fun val_rev :: "string \<Rightarrow> nat" where
  "val_rev [] = 0"
| "val_rev (c # s) = (of_char c - 48) + 10 * val_rev s"

lemma val_rev_digits_rev [simp]: "val_rev (digits_rev n) = n"
proof (induction n rule: digits_rev.induct)
  case (1 n)
  show ?case
  proof (cases "n < 10")
    case True
    then show ?thesis by (simp add: digits_rev.simps [of n])
  next
    case False
    have "n mod 10 < 10" by simp
    then have "n mod 10 < 208" by linarith
    with False "1.IH" show ?thesis by (simp add: digits_rev.simps [of n])
  qed
qed

lemma dec_nat_inject [simp]: "dec_nat m = dec_nat n \<longleftrightarrow> m = n"
  by (metis dec_nat_def rev_rev_ident val_rev_digits_rev)

section \<open>The world and the effect type\<close>

record 'd world =
  store :: 'd
  faults :: "nat \<Rightarrow> goerr option"
  stmts :: nat
  clock :: "nat \<Rightarrow> gotime"
  ticks :: nat

type_synonym ('d, 'a) go = "'d world \<Rightarrow> (goerr + 'a) \<times> 'd world"

definition ret :: "'a \<Rightarrow> ('d, 'a) go" where
  "ret x w = (Inr x, w)"

definition fail :: "goerr \<Rightarrow> ('d, 'a) go" where
  "fail e w = (Inl e, w)"

definition bind :: "('d, 'a) go \<Rightarrow> ('a \<Rightarrow> ('d, 'b) go) \<Rightarrow> ('d, 'b) go" where
  "bind m f w = (case m w of (Inl e, w1) \<Rightarrow> (Inl e, w1) | (Inr x, w1) \<Rightarrow> f x w1)"

definition andThen :: "('d, unit) go \<Rightarrow> ('d, 'b) go \<Rightarrow> ('d, 'b) go" where
  "andThen m k = bind m (\<lambda>_. k)"

text \<open>The result of a call that does not touch the world.\<close>

definition lift_err :: "goerr + 'a \<Rightarrow> ('d, 'a) go" where
  "lift_err r = (case r of Inl e \<Rightarrow> fail e | Inr x \<Rightarrow> ret x)"

text \<open>A \<^verbatim>\<open>for range\<close> loop whose body returns on the first error, and the same loop
  with variables that the body assigns.\<close>

primrec each :: "('x \<Rightarrow> ('d, unit) go) \<Rightarrow> 'x list \<Rightarrow> ('d, unit) go" where
  "each f [] = ret ()"
| "each f (x # xs) = andThen (f x) (each f xs)"

primrec loop :: "('x \<Rightarrow> 's \<Rightarrow> ('d, 's) go) \<Rightarrow> 'x list \<Rightarrow> 's \<Rightarrow> ('d, 's) go" where
  "loop f [] s = ret s"
| "loop f (x # xs) s = bind (f x s) (loop f xs)"

text \<open>\<^verbatim>\<open>time.Now()\<close>.\<close>

definition time_now :: "('d, gotime) go" where
  "time_now w = (Inr (clock w (ticks w)), w\<lparr>ticks := Suc (ticks w)\<rparr>)"

text \<open>One statement sent to the database: the driver's own error wins; otherwise the
  statement either fails on the data and changes nothing, or changes the store.\<close>

definition exec :: "('d \<Rightarrow> goerr option \<times> 'd) \<Rightarrow> ('d, unit) go" where
  "exec body w =
     (let w1 = w\<lparr>stmts := Suc (stmts w)\<rparr> in
      case faults w (stmts w) of
        Some e \<Rightarrow> (Inl e, w1)
      | None \<Rightarrow> (case body (store w) of
                  (Some e, _) \<Rightarrow> (Inl e, w1)
                | (None, d) \<Rightarrow> (Inr (), w1\<lparr>store := d\<rparr>)))"

definition query :: "('d \<Rightarrow> goerr + 'a) \<Rightarrow> ('d, 'a) go" where
  "query body w =
     (let w1 = w\<lparr>stmts := Suc (stmts w)\<rparr> in
      case faults w (stmts w) of
        Some e \<Rightarrow> (Inl e, w1)
      | None \<Rightarrow> (body (store w), w1))"

text \<open>A database transaction: \<^verbatim>\<open>Begin\<close>, the body, \<^verbatim>\<open>Commit\<close>, and the deferred
  \<^verbatim>\<open>RollbackUnlessCommitted\<close> that restores the store on every error return.\<close>

definition with_tx :: "('d, 'a) go \<Rightarrow> ('d, 'a) go" where
  "with_tx m w =
     (case exec (\<lambda>d. (None, d)) w of
        (Inl e, w0) \<Rightarrow> (Inl e, w0)
      | (Inr _, w0) \<Rightarrow>
          (case bind m (\<lambda>x. andThen (exec (\<lambda>d. (None, d))) (ret x)) w0 of
             (Inl e, w1) \<Rightarrow> (Inl e, w1\<lparr>store := store w0\<rparr>)
           | (Inr x, w1) \<Rightarrow> (Inr x, w1)))"

text \<open>A transaction whose body may return early without an error and without \<^verbatim>\<open>Commit\<close>:
  the deferred rollback then restores the store too.\<close>

definition with_tx_if :: "('d, bool) go \<Rightarrow> ('d, unit) go" where
  "with_tx_if m w =
     (case exec (\<lambda>d. (None, d)) w of
        (Inl e, w0) \<Rightarrow> (Inl e, w0)
      | (Inr _, w0) \<Rightarrow>
          (case m w0 of
             (Inl e, w1) \<Rightarrow> (Inl e, w1\<lparr>store := store w0\<rparr>)
           | (Inr False, w1) \<Rightarrow> (Inr (), w1\<lparr>store := store w0\<rparr>)
           | (Inr True, w1) \<Rightarrow>
               (case exec (\<lambda>d. (None, d)) w1 of
                  (Inl e, w2) \<Rightarrow> (Inl e, w2\<lparr>store := store w0\<rparr>)
                | (Inr _, w2) \<Rightarrow> (Inr (), w2))))"

lemmas [go_simps] = ret_def fail_def bind_def andThen_def time_now_def exec_def query_def

lemma bind_ret [simp]: "bind (ret x) f = f x"
  by (rule ext) (simp add: go_simps)

lemma bind_fail [simp]: "bind (fail e) f = fail e"
  by (rule ext) (simp add: go_simps)

lemma bind_assoc: "bind (bind m f) g = bind m (\<lambda>x. bind (f x) g)"
  by (rule ext) (simp add: go_simps split: prod.splits sum.splits)

lemma andThen_ret [simp]: "andThen (ret ()) k = k"
  by (simp add: andThen_def)

lemma andThen_unit [simp]: "andThen m (ret ()) = m"
  by (rule ext) (simp add: go_simps split: prod.splits sum.splits)

lemma each_append: "each f (xs @ ys) = andThen (each f xs) (each f ys)"
  by (induction xs) (simp_all add: andThen_def bind_assoc)

lemma loop_append: "loop f (xs @ ys) s = bind (loop f xs s) (loop f ys)"
proof (induction xs arbitrary: s)
  case (Cons x xs)
  then have "loop f (xs @ ys) = (\<lambda>s. bind (loop f xs s) (loop f ys))" by (simp add: fun_eq_iff)
  then show ?case by (simp add: bind_assoc)
qed simp

section \<open>Relations between the world before and after\<close>

text \<open>\<open>steps R m\<close>: whatever \<open>m\<close> does, successful or not, the world it leaves is
  \<open>R\<close>-related to the one it found.  The locale collects what such a relation must
  satisfy to pass through every combinator.\<close>

definition steps :: "('d world \<Rightarrow> 'd world \<Rightarrow> bool) \<Rightarrow> ('d, 'a) go \<Rightarrow> bool" where
  "steps R m \<longleftrightarrow> (\<forall>w. R w (snd (m w)))"

lemma stepsI: "(\<And>w. R w (snd (m w))) \<Longrightarrow> steps R m"
  by (simp add: steps_def)

lemma stepsD: "steps R m \<Longrightarrow> R w (snd (m w))"
  by (simp add: steps_def)

locale world_rel =
  fixes R :: "'d world \<Rightarrow> 'd world \<Rightarrow> bool"
  assumes R_refl: "R w w"
    and R_trans: "R w w1 \<Longrightarrow> R w1 w2 \<Longrightarrow> R w w2"
    and R_ticks: "R w (w\<lparr>ticks := n\<rparr>)"
    and R_stmts: "R w (w\<lparr>stmts := n\<rparr>)"
    and R_rollback: "R w w1 \<Longrightarrow> R w (w1\<lparr>store := store w\<rparr>)"
begin

lemma steps_ret [steps_intros]: "steps R (ret x)"
  by (simp add: steps_def ret_def R_refl)

lemma steps_fail [steps_intros]: "steps R (fail e)"
  by (simp add: steps_def fail_def R_refl)

lemma steps_lift_err [steps_intros]: "steps R (lift_err r)"
  by (simp add: lift_err_def steps_ret steps_fail split: sum.split)

lemma steps_bind [steps_intros]:
  assumes "steps R m" and "\<And>x. steps R (f x)"
  shows "steps R (bind m f)"
proof (rule stepsI)
  fix w
  have "R w (snd (m w))" by (rule stepsD [OF assms(1)])
  moreover have "R (snd (m w)) (snd (f x (snd (m w))))" for x
    by (rule stepsD [OF assms(2)])
  ultimately show "R w (snd (bind m f w))"
    by (auto simp: bind_def split: prod.splits sum.splits intro: R_trans)
qed

lemma steps_andThen [steps_intros]: "steps R m \<Longrightarrow> steps R k \<Longrightarrow> steps R (andThen m k)"
  by (simp add: andThen_def steps_bind)

lemma steps_each [steps_intros]: "(\<And>x. x \<in> set xs \<Longrightarrow> steps R (f x)) \<Longrightarrow> steps R (each f xs)"
  by (induction xs) (auto intro: steps_ret steps_andThen)

lemma steps_loop [steps_intros]:
  "(\<And>x s. x \<in> set xs \<Longrightarrow> steps R (f x s)) \<Longrightarrow> steps R (loop f xs s)"
  by (induction xs arbitrary: s) (auto intro: steps_ret steps_bind)

lemma steps_time_now [steps_intros]: "steps R time_now"
  by (simp add: steps_def time_now_def R_ticks)

lemma steps_exec:
  assumes "\<And>w d. body (store w) = (None, d) \<Longrightarrow> R w (w\<lparr>store := d\<rparr>)"
  shows "steps R (exec body)"
proof (rule stepsI)
  fix w :: "'d world"
  have upd: "(w\<lparr>stmts := n\<rparr>)\<lparr>store := d\<rparr> = (w\<lparr>store := d\<rparr>)\<lparr>stmts := n\<rparr>" for n d
    by simp
  show "R w (snd (exec body w))"
    using R_stmts [of w "Suc (stmts w)"] R_trans [OF assms R_stmts]
    by (auto simp: exec_def Let_def upd split: option.splits prod.splits)
qed

lemma steps_query [steps_intros]: "steps R (query body)"
  by (auto simp: steps_def query_def Let_def R_stmts split: option.splits)

lemma steps_if [steps_intros]: "steps R m \<Longrightarrow> steps R k \<Longrightarrow> steps R (if b then m else k)"
  by simp

lemma steps_case_option [steps_intros]:
  "steps R m \<Longrightarrow> (\<And>x. steps R (f x)) \<Longrightarrow> steps R (case v of None \<Rightarrow> m | Some x \<Rightarrow> f x)"
  by (cases v) simp_all

lemma steps_case_prod [steps_intros]:
  "(\<And>x y. steps R (f x y)) \<Longrightarrow> steps R (case v of (x, y) \<Rightarrow> f x y)"
  by (cases v) simp

lemma steps_case_sum [steps_intros]:
  "(\<And>x. steps R (f x)) \<Longrightarrow> (\<And>y. steps R (g y)) \<Longrightarrow> steps R (case v of Inl x \<Rightarrow> f x | Inr y \<Rightarrow> g y)"
  by (cases v) simp_all

lemma steps_noop_exec [steps_intros]: "steps R (exec (\<lambda>d. (None, d)))"
  by (rule steps_exec) (simp add: R_refl)

lemma steps_with_tx [steps_intros]:
  assumes "steps R m"
  shows "steps R (with_tx m)"
proof (rule stepsI)
  fix w
  let ?b = "exec (\<lambda>d. (None, d)) :: ('d, unit) go"
  let ?k = "bind m (\<lambda>x. andThen ?b (ret x))"
  have b: "R w (snd (?b w))" by (rule stepsD) (rule steps_noop_exec)
  have "steps R ?k"
    by (intro steps_bind steps_andThen steps_ret assms) (rule steps_noop_exec)
  then have k: "R w0 (snd (?k w0))" for w0 by (rule stepsD)
  show "R w (snd (with_tx m w))"
    using b R_trans [OF b k] R_trans [OF b R_rollback [OF k]]
    by (auto simp: with_tx_def split: prod.splits sum.splits)
qed

end

text \<open>The environment: nothing in the program changes what the driver or the clock will
  answer.\<close>

definition same_env :: "'d world \<Rightarrow> 'd world \<Rightarrow> bool" where
  "same_env w w' \<longleftrightarrow> faults w' = faults w \<and> clock w' = clock w"

interpretation env: world_rel same_env
  by unfold_locales (auto simp: same_env_def)

lemma steps_env_exec [steps_intros]: "steps same_env (exec body)"
  by (rule env.steps_exec) (simp add: same_env_def)

text \<open>A world whose driver never fails.\<close>

definition calm :: "'d world \<Rightarrow> bool" where
  "calm w \<longleftrightarrow> (\<forall>n. faults w n = None)"

lemma calm_steps: "steps same_env m \<Longrightarrow> calm w \<Longrightarrow> calm (snd (m w))"
  by (auto simp: steps_def same_env_def calm_def)

section \<open>Total correctness\<close>

text \<open>\<open>succeeds P m Q\<close>: from every world that satisfies \<open>P\<close>, \<open>m\<close> returns no error,
  and \<open>Q\<close> holds of what it returns and the world it leaves.\<close>

definition succeeds :: "('d world \<Rightarrow> bool) \<Rightarrow> ('d, 'a) go \<Rightarrow> ('a \<Rightarrow> 'd world \<Rightarrow> bool) \<Rightarrow> bool" where
  "succeeds P m Q \<longleftrightarrow> (\<forall>w. P w \<longrightarrow> (\<exists>x w'. m w = (Inr x, w') \<and> Q x w'))"

lemma succeedsD: "succeeds P m Q \<Longrightarrow> P w \<Longrightarrow> \<exists>x w'. m w = (Inr x, w') \<and> Q x w'"
  by (simp add: succeeds_def)

lemma succeeds_conseq:
  "succeeds P m Q \<Longrightarrow> (\<And>w. P' w \<Longrightarrow> P w) \<Longrightarrow> (\<And>x w. Q x w \<Longrightarrow> Q' x w) \<Longrightarrow> succeeds P' m Q'"
  unfolding succeeds_def by meson

lemma succeeds_ret [succeeds_intros]: "(\<And>w. P w \<Longrightarrow> Q x w) \<Longrightarrow> succeeds P (ret x) Q"
  by (simp add: succeeds_def ret_def)

lemma succeeds_bind [succeeds_intros]:
  "succeeds P m M \<Longrightarrow> (\<And>x. succeeds (M x) (f x) Q) \<Longrightarrow> succeeds P (bind m f) Q"
  unfolding succeeds_def bind_def by fastforce

lemma succeeds_andThen [succeeds_intros]:
  "succeeds P m (\<lambda>_. M) \<Longrightarrow> succeeds M k Q \<Longrightarrow> succeeds P (andThen m k) Q"
  by (simp add: andThen_def succeeds_bind)

lemma succeeds_each:
  "(\<And>x. x \<in> set xs \<Longrightarrow> succeeds P (f x) (\<lambda>_. P)) \<Longrightarrow> succeeds P (each f xs) (\<lambda>_. P)"
  by (induction xs) (auto intro: succeeds_ret succeeds_andThen)

lemma succeeds_time_now [succeeds_intros]:
  "(\<And>w t n. P w \<Longrightarrow> Q t (w\<lparr>ticks := n\<rparr>)) \<Longrightarrow> succeeds P time_now Q"
  by (simp add: succeeds_def time_now_def)

section \<open>Partial correctness\<close>

text \<open>\<open>valid P m Q\<close>: whenever \<open>m\<close> returns without an error from a world that satisfies
  \<open>P\<close>, then \<open>Q\<close> holds of what it returns and the world it leaves.  Used together with
  \<open>succeeds\<close>, which says when it does return.\<close>

named_theorems valid_intros \<open>partial-correctness rules of the combinators\<close>

definition valid :: "('d world \<Rightarrow> bool) \<Rightarrow> ('d, 'a) go \<Rightarrow> ('a \<Rightarrow> 'd world \<Rightarrow> bool) \<Rightarrow> bool" where
  "valid P m Q \<longleftrightarrow> (\<forall>w x w'. P w \<longrightarrow> m w = (Inr x, w') \<longrightarrow> Q x w')"

lemma validD: "valid P m Q \<Longrightarrow> m w = (Inr x, w') \<Longrightarrow> P w \<Longrightarrow> Q x w'"
  by (simp add: valid_def)

lemma valid_conseq:
  "valid P m Q \<Longrightarrow> (\<And>w. P' w \<Longrightarrow> P w) \<Longrightarrow> (\<And>x w. Q x w \<Longrightarrow> Q' x w) \<Longrightarrow> valid P' m Q'"
  unfolding valid_def by blast

lemma valid_conj:
  "valid P m Q \<Longrightarrow> valid P' m Q' \<Longrightarrow> valid (\<lambda>w. P w \<and> P' w) m (\<lambda>x w. Q x w \<and> Q' x w)"
  unfolding valid_def by blast

lemma valid_ret [valid_intros]: "(\<And>w. P w \<Longrightarrow> Q x w) \<Longrightarrow> valid P (ret x) Q"
  by (simp add: valid_def ret_def)

lemma valid_fail [valid_intros]: "valid P (fail e) Q"
  by (simp add: valid_def fail_def)

lemma valid_bind [valid_intros]:
  "valid P m M \<Longrightarrow> (\<And>x. valid (M x) (f x) Q) \<Longrightarrow> valid P (bind m f) Q"
  unfolding valid_def bind_def by (fastforce split: prod.splits sum.splits)

lemma valid_andThen [valid_intros]:
  "valid P m (\<lambda>_. M) \<Longrightarrow> valid M k Q \<Longrightarrow> valid P (andThen m k) Q"
  by (simp add: andThen_def valid_bind)

lemma valid_if [valid_intros]:
  "(b \<Longrightarrow> valid P m Q) \<Longrightarrow> (\<not> b \<Longrightarrow> valid P k Q) \<Longrightarrow> valid P (if b then m else k) Q"
  by simp

lemma valid_case_option [valid_intros]:
  "(v = None \<Longrightarrow> valid P m Q) \<Longrightarrow> (\<And>x. v = Some x \<Longrightarrow> valid P (f x) Q) \<Longrightarrow>
   valid P (case v of None \<Rightarrow> m | Some x \<Rightarrow> f x) Q"
  by (cases v) simp_all

lemma valid_case_sum [valid_intros]:
  "(\<And>x. v = Inl x \<Longrightarrow> valid P (f x) Q) \<Longrightarrow> (\<And>y. v = Inr y \<Longrightarrow> valid P (g y) Q) \<Longrightarrow>
   valid P (case v of Inl x \<Rightarrow> f x | Inr y \<Rightarrow> g y) Q"
  by (cases v) simp_all

lemma valid_each_keeps:
  "(\<And>x. x \<in> set xs \<Longrightarrow> valid A (f x) (\<lambda>_. A)) \<Longrightarrow> valid A (each f xs) (\<lambda>_. A)"
  by (induction xs) (auto intro: valid_ret valid_andThen)

lemma valid_loop:
  "(\<And>x s. x \<in> set xs \<Longrightarrow> valid (I s) (f x s) I) \<Longrightarrow> valid (I s) (loop f xs s) I"
  by (induction xs arbitrary: s) (auto intro: valid_ret valid_bind)

text \<open>A loop establishes what each of its rounds establishes, when other rounds keep it.\<close>

lemma valid_each:
  assumes "\<And>x. x \<in> set xs \<Longrightarrow> valid P (f x) (\<lambda>_ w. P w \<and> A x w)"
    and "\<And>x y. x \<in> set xs \<Longrightarrow> valid (A y) (f x) (\<lambda>_. A y)"
  shows "valid P (each f xs) (\<lambda>_ w. P w \<and> (\<forall>x \<in> set xs. A x w))"
  using assms
proof (induction xs)
  case Nil
  then show ?case by (simp add: valid_ret)
next
  case (Cons x xs)
  have "valid P (each f xs) (\<lambda>_ w. P w \<and> (\<forall>x \<in> set xs. A x w))"
    using Cons.prems by (intro Cons.IH) auto
  moreover have "valid (A x) (each f xs) (\<lambda>_. A x)"
    using Cons.prems(2) by (intro valid_each_keeps) auto
  ultimately have "valid (\<lambda>w. P w \<and> A x w) (each f xs)
      (\<lambda>_ w. (P w \<and> (\<forall>x \<in> set xs. A x w)) \<and> A x w)"
    by (rule valid_conj)
  then have "valid P (each f (x # xs)) (\<lambda>_ w. (P w \<and> (\<forall>x \<in> set xs. A x w)) \<and> A x w)"
    using Cons.prems(1) [of x] by (auto intro: valid_andThen)
  then show ?case by (rule valid_conseq) auto
qed

lemma valid_loop_each:
  assumes "\<And>x s. x \<in> set xs \<Longrightarrow> valid P (f x s) (\<lambda>_ w. P w \<and> A x w)"
    and "\<And>x y s. x \<in> set xs \<Longrightarrow> valid (A y) (f x s) (\<lambda>_. A y)"
  shows "valid P (loop f xs s) (\<lambda>_ w. P w \<and> (\<forall>x \<in> set xs. A x w))"
  using assms
proof (induction xs arbitrary: s)
  case Nil
  then show ?case by (simp add: valid_ret)
next
  case (Cons x xs)
  have "valid (\<lambda>w. P w \<and> A x w) (loop f xs s')
      (\<lambda>_ w. (P w \<and> (\<forall>x \<in> set xs. A x w)) \<and> A x w)" for s'
  proof (rule valid_conj)
    show "valid P (loop f xs s') (\<lambda>_ w. P w \<and> (\<forall>x \<in> set xs. A x w))"
      using Cons.prems by (intro Cons.IH) auto
    show "valid (A x) (loop f xs s') (\<lambda>_. A x)"
      using Cons.prems(2) by (intro valid_loop [where I = "\<lambda>_. A x"]) auto
  qed
  then have "valid P (loop f (x # xs) s) (\<lambda>_ w. (P w \<and> (\<forall>x \<in> set xs. A x w)) \<and> A x w)"
    using Cons.prems(1) [of x s] by (auto intro: valid_bind)
  then show ?case by (rule valid_conseq) auto
qed

text \<open>What a relation between the worlds preserves, an operation that keeps to it preserves.\<close>

lemma valid_steps:
  assumes "steps R m" and "\<And>w w'. A w \<Longrightarrow> R w w' \<Longrightarrow> A w'"
  shows "valid A m (\<lambda>_. A)"
  using assms unfolding valid_def steps_def by (metis snd_conv)

text \<open>What an operation returns, whatever it did to the world.\<close>

definition yields :: "('d, 'a) go \<Rightarrow> ('a \<Rightarrow> bool) \<Rightarrow> bool" where
  "yields m Q \<longleftrightarrow> (\<forall>w x w'. m w = (Inr x, w') \<longrightarrow> Q x)"

lemma yieldsD: "yields m Q \<Longrightarrow> m w = (Inr x, w') \<Longrightarrow> Q x"
  unfolding yields_def by blast

lemma yields_ret: "Q x \<Longrightarrow> yields (ret x) Q"
  by (simp add: yields_def ret_def)

lemma yields_bind: "yields m M \<Longrightarrow> (\<And>x. M x \<Longrightarrow> yields (f x) Q) \<Longrightarrow> yields (bind m f) Q"
  unfolding yields_def bind_def by (fastforce split: prod.splits sum.splits)

lemma yields_lift_err: "(\<And>x. r = Inr x \<Longrightarrow> Q x) \<Longrightarrow> yields (lift_err r) Q"
  by (auto simp: yields_def lift_err_def fail_def ret_def split: sum.splits)

lemma yields_if:
  "(b \<Longrightarrow> yields m Q) \<Longrightarrow> (\<not> b \<Longrightarrow> yields k Q) \<Longrightarrow> yields (if b then m else k) Q"
  by simp

lemma yields_fail: "yields (fail e) Q"
  by (simp add: yields_def fail_def)

lemma yields_andThen: "yields k Q \<Longrightarrow> yields (andThen m k) Q"
  unfolding andThen_def by (rule yields_bind [where M = "\<lambda>_. True"]) (simp_all add: yields_def)

lemma yields_loop:
  "I 0 s \<Longrightarrow> (\<And>i s. i < length xs \<Longrightarrow> I i s \<Longrightarrow> yields (f (xs ! i) s) (I (Suc i))) \<Longrightarrow>
   yields (loop f xs s) (I (length xs))"
proof (induction xs arbitrary: s I)
  case Nil
  then show ?case by (simp add: yields_ret)
next
  case (Cons x xs)
  have "yields (f x s) (I (Suc 0))" using Cons.prems(2) [of 0 s] Cons.prems(1) by simp
  moreover have "yields (loop f xs s') (I (length (x # xs)))" if "I (Suc 0) s'" for s'
    using Cons.IH [of "\<lambda>i. I (Suc i)" s'] that Cons.prems(2) by fastforce
  ultimately show ?case by (simp add: yields_bind)
qed

text \<open>A driver that never reports a duplicate of its own accord: error 1062 comes from the
  tables only.\<close>

definition honest :: "'d world \<Rightarrow> bool" where
  "honest w \<longleftrightarrow> (\<forall>n e. faults w n = Some e \<longrightarrow> \<not> HasPrefix e ''Error 1062: Duplicate entry'')"

lemma calm_honest: "calm w \<Longrightarrow> honest w"
  by (simp add: calm_def honest_def)

lemma honest_same_env: "honest w \<Longrightarrow> same_env w w' \<Longrightarrow> honest w'"
  by (simp add: honest_def same_env_def)

section \<open>Database transactions\<close>

text \<open>An error inside a transaction leaves the store as it was found; a success leaves what the
  body left.\<close>

lemma with_tx_rollback: "with_tx m w = (Inl e, w') \<Longrightarrow> store w' = store w"
  by (auto simp: with_tx_def exec_def Let_def split: prod.splits sum.splits option.splits)

lemma with_tx_commit:
  assumes "with_tx m w = (Inr x, w')"
  shows "\<exists>w1. m (w\<lparr>stmts := Suc (stmts w)\<rparr>) = (Inr x, w1) \<and> w' = w1\<lparr>stmts := Suc (stmts w1)\<rparr>"
  using assms
  by (auto simp: with_tx_def exec_def bind_def andThen_def ret_def Let_def
      split: prod.splits sum.splits option.splits)

lemma valid_with_tx:
  assumes "valid P m Q" and "\<And>w n. P w \<Longrightarrow> P (w\<lparr>stmts := n\<rparr>)"
    and "\<And>x w n. Q x w \<Longrightarrow> Q x (w\<lparr>stmts := n\<rparr>)"
  shows "valid P (with_tx m) Q"
  unfolding valid_def
proof (intro allI impI)
  fix w x w'
  assume w: "P w" and run: "with_tx m w = (Inr x, w')"
  from with_tx_commit [OF run] obtain w1
    where "m (w\<lparr>stmts := Suc (stmts w)\<rparr>) = (Inr x, w1)" and w': "w' = w1\<lparr>stmts := Suc (stmts w1)\<rparr>"
    by blast
  then have "Q x w1" using validD [OF assms(1) _ assms(2) [OF w]] by blast
  then show "Q x w'" unfolding w' by (rule assms(3))
qed

lemma succeeds_with_tx:
  assumes "succeeds P m Q" and "\<And>w n. P w \<Longrightarrow> P (w\<lparr>stmts := n\<rparr>)"
    and "\<And>x w n. Q x w \<Longrightarrow> Q x (w\<lparr>stmts := n\<rparr>)"
    and "\<And>w. P w \<Longrightarrow> calm w" and "\<And>x w. Q x w \<Longrightarrow> calm w"
  shows "succeeds P (with_tx m) Q"
  unfolding succeeds_def
proof (intro allI impI)
  fix w
  assume w: "P w"
  from succeedsD [OF assms(1) assms(2) [OF w]] obtain x w1
    where run: "m (w\<lparr>stmts := Suc (stmts w)\<rparr>) = (Inr x, w1)" and q: "Q x w1" by blast
  from assms(4) [OF w] assms(5) [OF q]
  have "with_tx m w = (Inr x, w1\<lparr>stmts := Suc (stmts w1)\<rparr>)"
    by (simp add: with_tx_def exec_def bind_def andThen_def ret_def calm_def run)
  with assms(3) [OF q] show "\<exists>x w'. with_tx m w = (Inr x, w') \<and> Q x w'" by blast
qed

lemma honest_stmts [simp]: "honest (w\<lparr>stmts := n\<rparr>) = honest w"
  by (simp add: honest_def)

lemma calm_stmts [simp]: "calm (w\<lparr>stmts := n\<rparr>) = calm w"
  by (simp add: calm_def)

end
