(* ===== verification/Sql_Engine.thy ===== *)
theory Sql_Engine
  imports Magellan_Prelude
begin

text \<open>
  The SQL that the sources embed, and the error discipline of \<^verbatim>\<open>src/utils/dbutils.go\<close>.

  A table is a list of rows in insertion order.  A statement addresses its table through
  the reader \<open>rd\<close> and the updater \<open>md\<close> of the field of the database that holds it.
  \<open>clash r x\<close> says that two rows agree on the primary key or on a unique index of the
  table (\<^verbatim>\<open>src/services/db/migrations\<close>); an \<^verbatim>\<open>INSERT\<close> of a row that clashes with
  a stored one is refused with MySQL's error 1062 and changes nothing, an \<^verbatim>\<open>UPDATE\<close>
  that would make two rows clash likewise.

  The locale \<open>sql_table\<close> is the interface between the operations and a table: what
  reading gives after writing, and that \<open>clash\<close> compares keys.  Its lemmas say what the
  statements do to any such table; \<open>Db_Schema\<close> interprets it for every table of the
  schema.  The locale \<open>store_rel\<close> specialises \<open>world_rel\<close> to relations between the
  database before and after.
\<close>

section \<open>Errors: utils/dbutils.go\<close>

definition DeadlockDBErrorMessage :: string where
  "DeadlockDBErrorMessage = ''Deadlock found when trying to get lock; try restarting transaction''"

definition TimeoutDBErrorMessage :: string where
  "TimeoutDBErrorMessage = ''Lock wait timeout exceeded; try restarting transaction''"

definition ErrIsDuplicateEntryError :: "goerr option \<Rightarrow> bool" where
  "ErrIsDuplicateEntryError err =
     (case err of None \<Rightarrow> False | Some e \<Rightarrow> HasPrefix e ''Error 1062: Duplicate entry'')"

definition ErrIsLockError :: "goerr option \<Rightarrow> bool" where
  "ErrIsLockError err =
     (case err of None \<Rightarrow> False
      | Some e \<Rightarrow> Contains e DeadlockDBErrorMessage \<or> Contains e TimeoutDBErrorMessage)"

definition EventErr :: "string \<Rightarrow> bool \<Rightarrow> goerr \<Rightarrow> goerr" where
  "EventErr t upd err =
     (let updmsg = (if upd then '' upd'' else '''')
      in err @ '' ('' @ t @ updmsg @ '')'')"

text \<open>Wrapping keeps the two classifications on which the retry loops depend.\<close>

lemma EventErr_lock:
  "ErrIsLockError (Some e) \<Longrightarrow> ErrIsLockError (Some (EventErr t upd e))"
  by (auto simp: ErrIsLockError_def EventErr_def Let_def intro: Contains_appendI)

lemma EventErr_duplicate:
  "ErrIsDuplicateEntryError (Some e) \<Longrightarrow> ErrIsDuplicateEntryError (Some (EventErr t upd e))"
  by (simp add: ErrIsDuplicateEntryError_def EventErr_def Let_def HasPrefix_appendI)

section \<open>Statements\<close>

definition sql_dup :: goerr where
  "sql_dup = ''Error 1062: Duplicate entry''"

lemma sql_dup_is_duplicate [simp]: "ErrIsDuplicateEntryError (Some sql_dup)"
  by (simp add: ErrIsDuplicateEntryError_def sql_dup_def HasPrefix_def)

definition ErrNotFound :: goerr where
  "ErrNotFound = ''dbr: not found''"

text \<open>No two rows of the table clash.\<close>

definition uniq :: "('r \<Rightarrow> 'r \<Rightarrow> bool) \<Rightarrow> 'r list \<Rightarrow> bool" where
  "uniq clash t = sorted_wrt (\<lambda>x y. \<not> clash x y) t"

definition sql_insert ::
  "('d \<Rightarrow> 'r list) \<Rightarrow> (('r list \<Rightarrow> 'r list) \<Rightarrow> 'd \<Rightarrow> 'd) \<Rightarrow> ('r \<Rightarrow> 'r \<Rightarrow> bool) \<Rightarrow> 'r \<Rightarrow> ('d, unit) go" where
  "sql_insert rd md clash r =
     exec (\<lambda>d. if list_ex (clash r) (rd d) then (Some sql_dup, d) else (None, md (\<lambda>t. t @ [r]) d))"

definition upd_rows :: "('r \<Rightarrow> bool) \<Rightarrow> ('r \<Rightarrow> 'r) \<Rightarrow> 'r list \<Rightarrow> 'r list" where
  "upd_rows wh f t = map (\<lambda>r. if wh r then f r else r) t"

definition sql_update ::
  "('d \<Rightarrow> 'r list) \<Rightarrow> (('r list \<Rightarrow> 'r list) \<Rightarrow> 'd \<Rightarrow> 'd) \<Rightarrow> ('r \<Rightarrow> 'r \<Rightarrow> bool)
     \<Rightarrow> ('r \<Rightarrow> bool) \<Rightarrow> ('r \<Rightarrow> 'r) \<Rightarrow> ('d, unit) go" where
  "sql_update rd md clash wh f =
     exec (\<lambda>d. if uniq clash (upd_rows wh f (rd d)) then (None, md (upd_rows wh f) d)
               else (Some sql_dup, d))"

definition sql_delete :: "(('r list \<Rightarrow> 'r list) \<Rightarrow> 'd \<Rightarrow> 'd) \<Rightarrow> ('r \<Rightarrow> bool) \<Rightarrow> ('d, unit) go" where
  "sql_delete md wh = exec (\<lambda>d. (None, md (filter (\<lambda>r. \<not> wh r)) d))"

text \<open>\<^verbatim>\<open>LoadOneContext\<close> takes the first row or reports that there is none;
  \<^verbatim>\<open>LoadContext\<close> takes them all.\<close>

definition sql_load_one :: "('d \<Rightarrow> 'r list) \<Rightarrow> ('r \<Rightarrow> bool) \<Rightarrow> ('r \<Rightarrow> 'v) \<Rightarrow> ('d, 'v) go" where
  "sql_load_one rd wh sel =
     query (\<lambda>d. case filter wh (rd d) of [] \<Rightarrow> Inl ErrNotFound | r # _ \<Rightarrow> Inr (sel r))"

definition sql_load :: "('d \<Rightarrow> 'r list) \<Rightarrow> ('r \<Rightarrow> bool) \<Rightarrow> ('r \<Rightarrow> 'v) \<Rightarrow> ('d, 'v list) go" where
  "sql_load rd wh sel = query (\<lambda>d. Inr (map sel (filter wh (rd d))))"

text \<open>The two checks that follow a statement in \<^verbatim>\<open>src/db/dbmodel.go\<close>:
  \<^verbatim>\<open>if err != nil && !utils.ErrIsDuplicateEntryError(err) { return EventErr(t, false, err) }\<close>
  and \<^verbatim>\<open>if err != nil { return EventErr(t, upd, err) }\<close>.\<close>

definition ignore_dup :: "string \<Rightarrow> ('d, unit) go \<Rightarrow> ('d, unit) go" where
  "ignore_dup t m w =
     (case m w of
        (Inl e, w1) \<Rightarrow> (if \<not> ErrIsDuplicateEntryError (Some e) then (Inl (EventErr t False e), w1)
                        else (Inr (), w1))
      | (Inr _, w1) \<Rightarrow> (Inr (), w1))"

definition wrap_err :: "string \<Rightarrow> bool \<Rightarrow> ('d, unit) go \<Rightarrow> ('d, unit) go" where
  "wrap_err t upd m w =
     (case m w of (Inl e, w1) \<Rightarrow> (Inl (EventErr t upd e), w1) | (Inr _, w1) \<Rightarrow> (Inr (), w1))"

text \<open>The shape of almost every \<^verbatim>\<open>Insert...\<close>: insert, ignore a duplicate, and overwrite
  the stored row when updates are on.\<close>

definition upsert ::
  "string \<Rightarrow> ('d, unit) go \<Rightarrow> bool \<Rightarrow> string \<Rightarrow> ('d, unit) go \<Rightarrow> ('d, unit) go" where
  "upsert t ins upd tu updt =
     andThen (ignore_dup t ins) (if upd then wrap_err tu True updt else ret ())"

context world_rel
begin

lemma steps_ignore_dup [steps_intros]: "steps R m \<Longrightarrow> steps R (ignore_dup t m)"
  unfolding steps_def ignore_dup_def
  by (auto split: prod.splits sum.splits) (metis snd_conv)+

lemma steps_wrap_err [steps_intros]: "steps R m \<Longrightarrow> steps R (wrap_err t upd m)"
  unfolding steps_def wrap_err_def
  by (auto split: prod.splits sum.splits) (metis snd_conv)+

lemma steps_upsert [steps_intros]:
  "steps R ins \<Longrightarrow> (upd \<Longrightarrow> steps R updt) \<Longrightarrow> steps R (upsert t ins upd tu updt)"
  by (auto simp: upsert_def intro!: steps_andThen steps_ignore_dup steps_wrap_err steps_ret)

lemma steps_sql_load_one [steps_intros]: "steps R (sql_load_one rd wh sel)"
  by (simp add: sql_load_one_def steps_query)

lemma steps_sql_load [steps_intros]: "steps R (sql_load rd wh sel)"
  by (simp add: sql_load_def steps_query)

end

lemma steps_env_sql [steps_intros]:
  "steps same_env (sql_insert rd md clash r)"
  "steps same_env (sql_update rd md clash wh f)"
  "steps same_env (sql_delete md wh)"
  by (simp_all add: sql_insert_def sql_update_def sql_delete_def steps_env_exec)

section \<open>Relations between databases\<close>

definition on_store :: "('d \<Rightarrow> 'd \<Rightarrow> bool) \<Rightarrow> 'd world \<Rightarrow> 'd world \<Rightarrow> bool" where
  "on_store S w w' = S (store w) (store w')"

locale store_rel =
  fixes S :: "'d \<Rightarrow> 'd \<Rightarrow> bool"
  assumes S_refl: "S d d"
    and S_trans: "S d d1 \<Longrightarrow> S d1 d2 \<Longrightarrow> S d d2"

sublocale store_rel \<subseteq> world_rel "on_store S"
  by unfold_locales (auto simp: on_store_def intro: S_refl S_trans)

context store_rel
begin

lemma steps_store_exec:
  "(\<And>d d'. body d = (None, d') \<Longrightarrow> S d d') \<Longrightarrow> steps (on_store S) (exec body)"
  by (rule steps_exec) (simp add: on_store_def)

lemma steps_sql_insert:
  "(\<And>d. \<not> list_ex (clash r) (rd d) \<Longrightarrow> S d (md (\<lambda>t. t @ [r]) d)) \<Longrightarrow>
   steps (on_store S) (sql_insert rd md clash r)"
  unfolding sql_insert_def by (rule steps_store_exec) (auto split: if_splits)

lemma steps_sql_update:
  "(\<And>d. uniq clash (upd_rows wh f (rd d)) \<Longrightarrow> S d (md (upd_rows wh f) d)) \<Longrightarrow>
   steps (on_store S) (sql_update rd md clash wh f)"
  unfolding sql_update_def by (rule steps_store_exec) (auto split: if_splits)

lemma steps_sql_delete:
  "(\<And>d. S d (md (filter (\<lambda>r. \<not> wh r)) d)) \<Longrightarrow> steps (on_store S) (sql_delete md wh)"
  unfolding sql_delete_def by (rule steps_store_exec) auto

end

lemma store_rel_is_world_rel: "store_rel S \<Longrightarrow> world_rel (on_store S)"
  unfolding store_rel_def world_rel_def on_store_def by fastforce

lemma store_rel_trans:
  "store_rel S \<Longrightarrow> on_store S w w1 \<Longrightarrow> on_store S w1 w2 \<Longrightarrow> on_store S w w2"
  unfolding store_rel_def on_store_def by blast

section \<open>One table\<close>

text \<open>What \<^verbatim>\<open>INSERT\<close> with duplicates ignored does to the rows: the abstract
  specification that the insert operations refine.\<close>

definition ins_row :: "('r \<Rightarrow> 'r \<Rightarrow> bool) \<Rightarrow> 'r \<Rightarrow> 'r list \<Rightarrow> 'r list" where
  "ins_row clash r t = (if list_ex (clash r) t then t else t @ [r])"

lemma ins_row_prefix: "prefix t (ins_row clash r t)"
  by (simp add: ins_row_def)

lemma ins_row_idem [simp]:
  "(\<And>r. clash r r) \<Longrightarrow> ins_row clash r (ins_row clash r t) = ins_row clash r t"
  by (auto simp: ins_row_def)

lemma map_upd_rows: "(\<And>r. g (f r) = g r) \<Longrightarrow> map g (upd_rows wh f t) = map g t"
  by (simp add: upd_rows_def)

lemma uniq_Nil [simp]: "uniq clash []"
  by (simp add: uniq_def)

lemma uniq_snoc: "uniq clash (t @ [r]) \<longleftrightarrow> uniq clash t \<and> (\<forall>x\<in>set t. \<not> clash x r)"
  by (simp add: uniq_def sorted_wrt_append)

lemma uniq_filter: "uniq clash t \<Longrightarrow> uniq clash (filter P t)"
  by (simp add: uniq_def sorted_wrt_filter)

lemma uniq_same:
  assumes "uniq clash t" and "x \<in> set t" and "y \<in> set t" and "clash x y"
    and "\<And>r s. clash r s \<Longrightarrow> clash s r"
  shows "x = y"
proof (rule ccontr)
  assume "x \<noteq> y"
  obtain i j where "i < length t" "t ! i = x" "j < length t" "t ! j = y"
    using assms(2,3) by (auto simp: in_set_conv_nth)
  with \<open>x \<noteq> y\<close> assms(1,4,5) show False
    by (metis linorder_neqE_nat sorted_wrt_nth_less uniq_def)
qed

locale sql_table =
  fixes rd :: "'d \<Rightarrow> 'r list"
    and md :: "('r list \<Rightarrow> 'r list) \<Rightarrow> 'd \<Rightarrow> 'd"
    and clash :: "'r \<Rightarrow> 'r \<Rightarrow> bool"
  assumes rd_md: "rd (md f d) = f (rd d)"
    and md_same: "f (rd d) = g (rd d) \<Longrightarrow> md f d = md g d"
    and md_id: "md (\<lambda>t. t) d = d"
    and clash_refl: "clash r r"
    and clash_sym: "clash r s \<Longrightarrow> clash s r"
begin

lemma md_ins_row:
  "md (ins_row clash r) d = (if list_ex (clash r) (rd d) then d else md (\<lambda>t. t @ [r]) d)"
proof (cases "list_ex (clash r) (rd d)")
  case True
  then have "md (ins_row clash r) d = md (\<lambda>t. t) d"
    by (intro md_same) (simp add: ins_row_def)
  with True show ?thesis by (simp add: md_id)
next
  case False
  then have "md (ins_row clash r) d = md (\<lambda>t. t @ [r]) d"
    by (intro md_same) (simp add: ins_row_def)
  with False show ?thesis by simp
qed

text \<open>The insert operation refines \<open>ins_row\<close> whenever the driver answers.\<close>

lemma insert_calm:
  assumes "calm w"
  shows "ignore_dup t (sql_insert rd md clash r) w =
     (Inr (), w\<lparr>stmts := Suc (stmts w), store := md (ins_row clash r) (store w)\<rparr>)"
  using assms
  by (simp add: ignore_dup_def sql_insert_def exec_def calm_def md_ins_row Let_def)

lemma snoc_uniq: "uniq clash t \<Longrightarrow> \<not> list_ex (clash r) t \<Longrightarrow> uniq clash (t @ [r])"
  by (auto simp: uniq_snoc list_ex_iff dest: clash_sym)

lemma insert_uniq: "uniq clash (rd d) \<Longrightarrow> uniq clash (rd (md (ins_row clash r) d))"
  by (auto simp: rd_md ins_row_def uniq_snoc list_ex_iff dest: clash_sym)

lemma insert_covers: "list_ex (clash r) (rd (md (ins_row clash r) d))"
  by (simp add: rd_md ins_row_def clash_refl)

lemma insert_again: "md (ins_row clash r) (md (ins_row clash r) d) = md (ins_row clash r) d"
  using insert_covers [of r d] by (simp add: md_ins_row [of r "md (ins_row clash r) d"])

lemma covered_skip: "list_ex (clash r) (rd d) \<Longrightarrow> md (ins_row clash r) d = d"
  by (simp add: md_ins_row)

text \<open>An insert that changed nothing found its key taken, and stays without effect in every
  database that holds at least the same rows.\<close>

lemma skip_covered:
  assumes "md (ins_row clash r) d = d"
  shows "list_ex (clash r) (rd d)"
proof (rule ccontr)
  assume "\<not> list_ex (clash r) (rd d)"
  then have "rd (md (ins_row clash r) d) = rd d @ [r]" by (simp add: rd_md ins_row_def)
  with assms show False by simp
qed

lemma skip_later:
  assumes "md (ins_row clash r) d = d" and "prefix (rd d) (rd d')"
  shows "md (ins_row clash r) d' = d'"
proof (rule covered_skip)
  show "list_ex (clash r) (rd d')"
    using skip_covered [OF assms(1)] assms(2) by (auto simp: prefix_def)
qed

lemma delete_uniq: "uniq clash (rd d) \<Longrightarrow> uniq clash (rd (md (filter P) d))"
  by (simp add: rd_md uniq_filter)

text \<open>With an honest driver, an insert that reports no error leaves the key present.\<close>

lemma insert_valid:
  "valid honest (ignore_dup t (sql_insert rd md clash r)) (\<lambda>_ w. list_ex (clash r) (rd (store w)))"
  unfolding valid_def ignore_dup_def sql_insert_def exec_def honest_def Let_def
    ErrIsDuplicateEntryError_def
  by (auto simp: rd_md clash_refl split: option.splits if_splits)

text \<open>Looking a row up by its key.\<close>

lemma key_lookup:
  assumes "uniq clash (rd d)" and "r \<in> set (rd d)"
    and "wh r" and "\<And>x. wh x \<Longrightarrow> clash x r"
  shows "filter wh (rd d) = [r]"
proof -
  have only: "x = r" if "x \<in> set (filter wh (rd d))" for x
  proof -
    from that have "x \<in> set (rd d)" and "clash x r" using assms(4) by auto
    then show ?thesis using uniq_same [OF assms(1)] assms(2) clash_sym by blast
  qed
  have "uniq clash (filter wh (rd d))" using assms(1) by (rule uniq_filter)
  moreover have "r \<in> set (filter wh (rd d))" using assms(2,3) by simp
  ultimately show ?thesis
  proof (cases "filter wh (rd d)")
    case (Cons a u)
    then have a: "a = r" using only [of a] by simp
    have "u = []"
    proof (cases u)
      case (Cons b v)
      then have "b = r" using only [of b] \<open>filter wh (rd d) = a # u\<close> by simp
      with \<open>uniq clash (filter wh (rd d))\<close> a Cons \<open>filter wh (rd d) = a # u\<close>
      show ?thesis by (simp add: uniq_def clash_refl)
    qed
    with a Cons show ?thesis by simp
  qed auto
qed

lemma load_one_key:
  assumes "calm w" and "uniq clash (rd (store w))" and "r \<in> set (rd (store w))"
    and "wh r" and "\<And>x. wh x \<Longrightarrow> clash x r"
  shows "fst (sql_load_one rd wh sel w) = Inr (sel r)"
  using assms(1) key_lookup [of "store w" r wh, OF assms(2,3,4,5)]
  by (simp add: sql_load_one_def query_def calm_def Let_def)

text \<open>Round trip: a row whose key was not stored is found again by a query on that key.\<close>

lemma insert_load:
  assumes "calm w" and "uniq clash (rd (store w))" and "\<not> list_ex (clash r) (rd (store w))"
    and "wh r" and "\<And>x. wh x \<Longrightarrow> clash x r"
  shows "fst (andThen (ignore_dup t (sql_insert rd md clash r)) (sql_load_one rd wh sel) w)
           = Inr (sel r)"
proof -
  let ?w = "w\<lparr>stmts := Suc (stmts w), store := md (ins_row clash r) (store w)\<rparr>"
  have "calm ?w" using assms(1) by (simp add: calm_def)
  moreover have "uniq clash (rd (store ?w))"
    using insert_uniq [OF assms(2), of r] by simp
  moreover have "r \<in> set (rd (store ?w))"
    using assms(3) by (simp add: rd_md ins_row_def)
  ultimately have "fst (sql_load_one rd wh sel ?w) = Inr (sel r)"
    using assms(4,5) by (rule load_one_key)
  then show ?thesis by (simp add: andThen_def bind_def insert_calm [OF assms(1)])
qed

text \<open>An update that keeps the keys is carried out; the row it finds is the stored one, or the
  one that the insert before it has just added.\<close>

lemma upd_rows_uniq:
  assumes "uniq clash t" and "\<And>x y. wh x \<Longrightarrow> clash (f x) y = clash x y"
  shows "uniq clash (upd_rows wh f t)"
proof -
  have "clash (if wh x then f x else x) (if wh y then f y else y) = clash x y" for x y
    using assms(2) [of x] assms(2) [of y] clash_sym by metis
  then show ?thesis using assms(1) by (simp add: uniq_def upd_rows_def sorted_wrt_map)
qed

lemma update_calm:
  assumes "calm w" and "uniq clash (rd (store w))"
    and "\<And>x y. wh x \<Longrightarrow> clash (f x) y = clash x y"
  shows "sql_update rd md clash wh f w =
     (Inr (), w\<lparr>stmts := Suc (stmts w), store := md (upd_rows wh f) (store w)\<rparr>)"
  using assms(1) upd_rows_uniq [OF assms(2), of wh f] assms(3)
  by (simp add: sql_update_def exec_def calm_def Let_def)

lemma filter_upd_rows:
  "(\<And>x. wh x \<Longrightarrow> wh (f x)) \<Longrightarrow> filter wh (upd_rows wh f t) = map f (filter wh t)"
  by (induction t) (auto simp: upd_rows_def)

lemma filter_ins_row:
  assumes "\<And>x. wh x \<longleftrightarrow> clash x r"
  shows "filter wh (ins_row clash r t) = (if filter wh t = [] then [r] else filter wh t)"
proof (cases "list_ex (clash r) t")
  case True
  then have "filter wh t \<noteq> []"
    using assms clash_sym by (auto simp: list_ex_iff filter_empty_conv)
  with True show ?thesis by (simp add: ins_row_def)
next
  case False
  then have "filter wh t = []"
    using assms clash_sym by (auto simp: list_ex_iff filter_empty_conv)
  with False assms clash_refl show ?thesis by (simp add: ins_row_def)
qed

lemma upsert_load:
  assumes "calm w" and "uniq clash (rd (store w))"
    and "\<And>x. wh x \<longleftrightarrow> clash x r" and "\<And>x. wh x \<Longrightarrow> wh (f x)"
    and "\<And>x y. wh x \<Longrightarrow> clash (f x) y = clash x y"
  shows "fst (andThen (upsert t (sql_insert rd md clash r) True tu (sql_update rd md clash wh f))
                (sql_load_one rd wh sel) w)
         = Inr (sel (f (case filter wh (rd (store w)) of [] \<Rightarrow> r | x # _ \<Rightarrow> x)))"
proof -
  let ?w1 = "w\<lparr>stmts := Suc (stmts w), store := md (ins_row clash r) (store w)\<rparr>"
  have calm1: "calm ?w1" using assms(1) by (simp add: calm_def)
  have uniq1: "uniq clash (rd (store ?w1))" using insert_uniq [OF assms(2), of r] by simp
  let ?w2 = "?w1\<lparr>stmts := Suc (stmts ?w1), store := md (upd_rows wh f) (store ?w1)\<rparr>"
  have run: "upsert t (sql_insert rd md clash r) True tu (sql_update rd md clash wh f) w
      = (Inr (), ?w2)"
    using update_calm [OF calm1 uniq1, of wh f] assms(5)
    by (simp add: upsert_def andThen_def bind_def insert_calm [OF assms(1)] wrap_err_def)
  have "filter wh (rd (store ?w2))
      = map f (if filter wh (rd (store w)) = [] then [r] else filter wh (rd (store w)))"
    using filter_upd_rows [of wh f] assms(4) filter_ins_row [of wh r] assms(3) by (simp add: rd_md)
  moreover have "calm ?w2" using assms(1) by (simp add: calm_def)
  ultimately show ?thesis
    by (simp add: andThen_def bind_def run sql_load_one_def query_def calm_def Let_def
        split: list.split)
qed

end

end
