(* ===== verification/Db_Schema.thy ===== *)
theory Db_Schema
  imports Sql_Engine
begin

text \<open>
  The tables of \<^verbatim>\<open>src/db/dbmodel.go\<close>: one record per Go struct, with the struct's
  fields (under a short prefix, since Isabelle's field names share one name space), one
  \<open>clash\<close> relation per table for its primary key and unique indexes as
  \<^verbatim>\<open>src/services/db/migrations\<close> leaves them, and the database itself, a record with
  one field per table under the table's SQL name.

  Columns that the driver hands over as strings but that hold \<^verbatim>\<open>decimal(65)\<close> numbers
  (\<^verbatim>\<open>total_amount\<close>, \<^verbatim>\<open>utxo_count\<close>, \<^verbatim>\<open>transaction_count\<close>) are natural
  numbers; a byte slice for which the sources distinguish \<^verbatim>\<open>nil\<close> is an option.
  Timestamps are kept to the nanosecond.

  Every table with a key interprets the interface \<open>sql_table\<close>; \<open>db_ok\<close> says that no
  table holds two rows with the same key, and \<open>grows\<close> that the tables that record the
  ledger (everything but the work queues, the running balances, the cursors and the
  redeeming signatures) keep the rows they have, in order, and only gain new ones.
\<close>

section \<open>Rows\<close>

record Transactions =
  tx_ID :: string
  tx_ChainID :: string
  tx_Type :: string
  tx_Memo :: "bytes option"
  tx_CanonicalSerialization :: bytes
  tx_Txfee :: u64
  tx_NetworkID :: u32
  tx_Genesis :: bool
  tx_Status :: u8
  tx_CreatedAt :: gotime

record OutputsRedeeming =
  red_ID :: string
  red_RedeemedAt :: gotime
  red_RedeemingTransactionID :: string
  red_Amount :: u64
  red_OutputIndex :: u32
  red_Intx :: string
  red_AssetID :: string
  red_ChainID :: string
  red_CreatedAt :: gotime

record Outputs =
  out_ID :: string
  out_ChainID :: string
  out_TransactionID :: string
  out_OutputIndex :: u32
  out_OutputType :: u32
  out_AssetID :: string
  out_Amount :: u64
  out_Locktime :: u64
  out_Threshold :: u32
  out_GroupID :: u32
  out_Payload :: "bytes option"
  out_StakeLocktime :: u64
  out_Stake :: bool
  out_Frozen :: bool
  out_Stakeableout :: bool
  out_Genesisutxo :: bool
  out_CreatedAt :: gotime

record Assets =
  ast_ID :: string
  ast_ChainID :: string
  ast_Name :: string
  ast_Symbol :: string
  ast_Denomination :: u8
  ast_Alias :: string
  ast_CurrentSupply :: u64
  ast_CreatedAt :: gotime

record Addresses =
  adr_Address :: string
  adr_PublicKey :: bytes
  adr_CreatedAt :: gotime
  adr_UpdatedAt :: gotime

record AddressChain =
  adc_Address :: string
  adc_ChainID :: string
  adc_CreatedAt :: gotime
  adc_UpdatedAt :: gotime

record OutputAddresses =
  oad_OutputID :: string
  oad_Address :: string
  oad_RedeemingSignature :: "bytes option"
  oad_CreatedAt :: gotime
  oad_UpdatedAt :: gotime

record TransactionsEpoch =
  ep_ID :: string
  ep_Epoch :: u32
  ep_VertexID :: string
  ep_CreatedAt :: gotime

record CvmBlocks =
  cb_Block :: string
  cb_Hash :: string
  cb_ChainID :: string
  cb_EvmTx :: i16
  cb_AtomicTx :: i16
  cb_Serialization :: bytes
  cb_CreatedAt :: gotime
  cb_Proposer :: string
  cb_ProposerTime :: "gotime option"

record CamLastBlockCache =
  lbc_CurrentBlock :: string
  lbc_ChainID :: string

record CountLastBlockCache =
  clb_Cnt :: u64

record CvmAddresses =
  cad_ID :: string
  cad_Type :: u16
  cad_Idx :: u64
  cad_TransactionID :: string
  cad_Address :: string
  cad_AssetID :: string
  cad_Amount :: u64
  cad_Nonce :: u64
  cad_CreatedAt :: gotime

record CvmTransactionsAtomic =
  cat_TransactionID :: string
  cat_Block :: string
  cat_ChainID :: string
  cat_Type :: u16
  cat_CreatedAt :: gotime

record CvmTransactionsTxdata =
  ctd_Hash :: string
  ctd_Block :: string
  ctd_Idx :: u64
  ctd_FromAddr :: string
  ctd_ToAddr :: string
  ctd_Nonce :: u64
  ctd_Amount :: u64
  ctd_Status :: u16
  ctd_GasUsed :: u64
  ctd_GasPrice :: u64
  ctd_Serialization :: bytes
  ctd_Receipt :: bytes
  ctd_CreatedAt :: gotime

text \<open>The stored row refers to the two accounts by their row number (migration 047).\<close>

record CvmTxdataRow =
  ctr_Hash :: string
  ctr_Block :: string
  ctr_Idx :: u64
  ctr_IdFromAddr :: u64
  ctr_IdToAddr :: u64
  ctr_Nonce :: u64
  ctr_Amount :: u64
  ctr_Status :: u16
  ctr_GasUsed :: u64
  ctr_GasPrice :: u64
  ctr_Serialization :: bytes
  ctr_Receipt :: bytes
  ctr_CreatedAt :: gotime

record CvmAccount =
  cac_ID :: u64
  cac_Address :: string
  cac_TxCount :: u64
  cac_CreationTx :: "string option"

record PvmBlocks =
  pb_ID :: string
  pb_ChainID :: string
  pb_Type :: u16
  pb_ParentID :: string
  pb_Serialization :: bytes
  pb_CreatedAt :: gotime
  pb_Height :: u64
  pb_Proposer :: string
  pb_ProposerTime :: "gotime option"

record Rewards =
  rw_ID :: string
  rw_BlockID :: string
  rw_Txid :: string
  rw_Shouldprefercommit :: bool
  rw_CreatedAt :: gotime
  rw_Processed :: int

record TransactionsValidator =
  tv_ID :: string
  tv_NodeID :: string
  tv_Start :: u64
  tv_End :: u64
  tv_CreatedAt :: gotime

record TransactionsBlock =
  tb_ID :: string
  tb_TxBlockID :: string
  tb_CreatedAt :: gotime

record AddressBech32 =
  ab_Address :: string
  ab_Bech32Address :: string
  ab_UpdatedAt :: gotime

record OutputAddressAccumulate =
  oaa_ID :: string
  oaa_OutputID :: string
  oaa_Address :: string
  oaa_Processed :: int
  oaa_OutputProcessed :: int
  oaa_TransactionID :: string
  oaa_OutputIndex :: u32
  oaa_CreatedAt :: gotime

record OutputTxsAccumulate =
  ota_ID :: string
  ota_ChainID :: string
  ota_AssetID :: string
  ota_Address :: string
  ota_TransactionID :: string
  ota_Processed :: int
  ota_CreatedAt :: gotime

record AccumulateBalancesAmount =
  aba_ID :: string
  aba_ChainID :: string
  aba_AssetID :: string
  aba_Address :: string
  aba_TotalAmount :: nat
  aba_UtxoCount :: nat
  aba_UpdatedAt :: gotime

record AccumulateBalancesTransactions =
  abt_ID :: string
  abt_ChainID :: string
  abt_AssetID :: string
  abt_Address :: string
  abt_TransactionCount :: nat
  abt_UpdatedAt :: gotime

record TransactionsRewardsOwnersAddress =
  roa_ID :: string
  roa_Address :: string
  roa_OutputIndex :: u32
  roa_UpdatedAt :: gotime

record TransactionsRewardsOwnersOutputs =
  roo_ID :: string
  roo_TransactionID :: string
  roo_OutputIndex :: u32
  roo_CreatedAt :: gotime

record TransactionsRewardsOwners =
  ro_ID :: string
  ro_ChainID :: string
  ro_Threshold :: u32
  ro_Locktime :: u64
  ro_CreatedAt :: gotime

record TxPool =
  tp_ID :: string
  tp_NetworkID :: u32
  tp_ChainID :: string
  tp_MsgKey :: string
  tp_Serialization :: bytes
  tp_Topic :: string
  tp_CreatedAt :: gotime

record KeyValueStore =
  kv_K :: string
  kv_V :: string

record NodeIndex =
  ni_Instance :: string
  ni_Topic :: string
  ni_Idx :: u64

record CvmLogs =
  cl_ID :: string
  cl_BlockHash :: string
  cl_TxHash :: string
  cl_LogIndex :: u64
  cl_FirstTopic :: string
  cl_Block :: string
  cl_Removed :: bool
  cl_CreatedAt :: gotime
  cl_Serialization :: bytes

section \<open>Keys\<close>

text \<open>Two rows clash when they agree on the primary key or on a unique index.  The unique
  generated column \<^verbatim>\<open>block_idx\<close> of \<^verbatim>\<open>cvm_transactions_txdata\<close> stands for the
  pair of block and index.  \<^verbatim>\<open>cam_last_block_cache\<close> has no key.\<close>

definition Transactions_clash :: "Transactions \<Rightarrow> Transactions \<Rightarrow> bool" where
  "Transactions_clash a b \<longleftrightarrow> tx_ID a = tx_ID b"

definition OutputsRedeeming_clash :: "OutputsRedeeming \<Rightarrow> OutputsRedeeming \<Rightarrow> bool" where
  "OutputsRedeeming_clash a b \<longleftrightarrow> red_ID a = red_ID b"

definition Outputs_clash :: "Outputs \<Rightarrow> Outputs \<Rightarrow> bool" where
  "Outputs_clash a b \<longleftrightarrow> (out_ID a = out_ID b) \<or> (out_TransactionID a = out_TransactionID b \<and> out_OutputIndex a = out_OutputIndex b)"

definition Assets_clash :: "Assets \<Rightarrow> Assets \<Rightarrow> bool" where
  "Assets_clash a b \<longleftrightarrow> ast_ID a = ast_ID b"

definition Addresses_clash :: "Addresses \<Rightarrow> Addresses \<Rightarrow> bool" where
  "Addresses_clash a b \<longleftrightarrow> adr_Address a = adr_Address b"

definition AddressChain_clash :: "AddressChain \<Rightarrow> AddressChain \<Rightarrow> bool" where
  "AddressChain_clash a b \<longleftrightarrow> adc_Address a = adc_Address b \<and> adc_ChainID a = adc_ChainID b"

definition OutputAddresses_clash :: "OutputAddresses \<Rightarrow> OutputAddresses \<Rightarrow> bool" where
  "OutputAddresses_clash a b \<longleftrightarrow> oad_OutputID a = oad_OutputID b \<and> oad_Address a = oad_Address b"

definition TransactionsEpoch_clash :: "TransactionsEpoch \<Rightarrow> TransactionsEpoch \<Rightarrow> bool" where
  "TransactionsEpoch_clash a b \<longleftrightarrow> ep_ID a = ep_ID b"

definition CvmAddresses_clash :: "CvmAddresses \<Rightarrow> CvmAddresses \<Rightarrow> bool" where
  "CvmAddresses_clash a b \<longleftrightarrow> cad_ID a = cad_ID b"

definition CvmBlocks_clash :: "CvmBlocks \<Rightarrow> CvmBlocks \<Rightarrow> bool" where
  "CvmBlocks_clash a b \<longleftrightarrow> cb_Block a = cb_Block b"

definition CvmTransactionsAtomic_clash :: "CvmTransactionsAtomic \<Rightarrow> CvmTransactionsAtomic \<Rightarrow> bool" where
  "CvmTransactionsAtomic_clash a b \<longleftrightarrow> cat_TransactionID a = cat_TransactionID b"

definition CvmTxdataRow_clash :: "CvmTxdataRow \<Rightarrow> CvmTxdataRow \<Rightarrow> bool" where
  "CvmTxdataRow_clash a b \<longleftrightarrow> (ctr_Hash a = ctr_Hash b) \<or> (ctr_Block a = ctr_Block b \<and> ctr_Idx a = ctr_Idx b)"

definition CvmAccount_clash :: "CvmAccount \<Rightarrow> CvmAccount \<Rightarrow> bool" where
  "CvmAccount_clash a b \<longleftrightarrow> (cac_ID a = cac_ID b) \<or> (cac_Address a = cac_Address b)"

definition PvmBlocks_clash :: "PvmBlocks \<Rightarrow> PvmBlocks \<Rightarrow> bool" where
  "PvmBlocks_clash a b \<longleftrightarrow> pb_ID a = pb_ID b"

definition Rewards_clash :: "Rewards \<Rightarrow> Rewards \<Rightarrow> bool" where
  "Rewards_clash a b \<longleftrightarrow> rw_ID a = rw_ID b"

definition TransactionsValidator_clash :: "TransactionsValidator \<Rightarrow> TransactionsValidator \<Rightarrow> bool" where
  "TransactionsValidator_clash a b \<longleftrightarrow> tv_ID a = tv_ID b"

definition TransactionsBlock_clash :: "TransactionsBlock \<Rightarrow> TransactionsBlock \<Rightarrow> bool" where
  "TransactionsBlock_clash a b \<longleftrightarrow> tb_ID a = tb_ID b"

definition AddressBech32_clash :: "AddressBech32 \<Rightarrow> AddressBech32 \<Rightarrow> bool" where
  "AddressBech32_clash a b \<longleftrightarrow> ab_Address a = ab_Address b"

definition OutputAddressAccumulate_clash :: "OutputAddressAccumulate \<Rightarrow> OutputAddressAccumulate \<Rightarrow> bool" where
  "OutputAddressAccumulate_clash a b \<longleftrightarrow> oaa_ID a = oaa_ID b"

definition OutputTxsAccumulate_clash :: "OutputTxsAccumulate \<Rightarrow> OutputTxsAccumulate \<Rightarrow> bool" where
  "OutputTxsAccumulate_clash a b \<longleftrightarrow> ota_ID a = ota_ID b"

definition AccumulateBalancesAmount_clash :: "AccumulateBalancesAmount \<Rightarrow> AccumulateBalancesAmount \<Rightarrow> bool" where
  "AccumulateBalancesAmount_clash a b \<longleftrightarrow> aba_ID a = aba_ID b"

definition AccumulateBalancesTransactions_clash :: "AccumulateBalancesTransactions \<Rightarrow> AccumulateBalancesTransactions \<Rightarrow> bool" where
  "AccumulateBalancesTransactions_clash a b \<longleftrightarrow> abt_ID a = abt_ID b"

definition TransactionsRewardsOwners_clash :: "TransactionsRewardsOwners \<Rightarrow> TransactionsRewardsOwners \<Rightarrow> bool" where
  "TransactionsRewardsOwners_clash a b \<longleftrightarrow> ro_ID a = ro_ID b"

definition TransactionsRewardsOwnersAddress_clash :: "TransactionsRewardsOwnersAddress \<Rightarrow> TransactionsRewardsOwnersAddress \<Rightarrow> bool" where
  "TransactionsRewardsOwnersAddress_clash a b \<longleftrightarrow> roa_ID a = roa_ID b \<and> roa_Address a = roa_Address b"

definition TransactionsRewardsOwnersOutputs_clash :: "TransactionsRewardsOwnersOutputs \<Rightarrow> TransactionsRewardsOwnersOutputs \<Rightarrow> bool" where
  "TransactionsRewardsOwnersOutputs_clash a b \<longleftrightarrow> roo_ID a = roo_ID b"

definition TxPool_clash :: "TxPool \<Rightarrow> TxPool \<Rightarrow> bool" where
  "TxPool_clash a b \<longleftrightarrow> tp_ID a = tp_ID b"

definition KeyValueStore_clash :: "KeyValueStore \<Rightarrow> KeyValueStore \<Rightarrow> bool" where
  "KeyValueStore_clash a b \<longleftrightarrow> kv_K a = kv_K b"

definition NodeIndex_clash :: "NodeIndex \<Rightarrow> NodeIndex \<Rightarrow> bool" where
  "NodeIndex_clash a b \<longleftrightarrow> ni_Instance a = ni_Instance b \<and> ni_Topic a = ni_Topic b"

lemmas clash_defs =
  Transactions_clash_def
  OutputsRedeeming_clash_def
  Outputs_clash_def
  Assets_clash_def
  Addresses_clash_def
  AddressChain_clash_def
  OutputAddresses_clash_def
  TransactionsEpoch_clash_def
  CvmAddresses_clash_def
  CvmBlocks_clash_def
  CvmTransactionsAtomic_clash_def
  CvmTxdataRow_clash_def
  CvmAccount_clash_def
  PvmBlocks_clash_def
  Rewards_clash_def
  TransactionsValidator_clash_def
  TransactionsBlock_clash_def
  AddressBech32_clash_def
  OutputAddressAccumulate_clash_def
  OutputTxsAccumulate_clash_def
  AccumulateBalancesAmount_clash_def
  AccumulateBalancesTransactions_clash_def
  TransactionsRewardsOwners_clash_def
  TransactionsRewardsOwnersAddress_clash_def
  TransactionsRewardsOwnersOutputs_clash_def
  TxPool_clash_def
  KeyValueStore_clash_def
  NodeIndex_clash_def

section \<open>The database\<close>

record database =
  avm_transactions :: "Transactions list"
  avm_outputs_redeeming :: "OutputsRedeeming list"
  avm_outputs :: "Outputs list"
  avm_assets :: "Assets list"
  addresses :: "Addresses list"
  address_chain :: "AddressChain list"
  avm_output_addresses :: "OutputAddresses list"
  transactions_epoch :: "TransactionsEpoch list"
  cvm_addresses :: "CvmAddresses list"
  cvm_blocks :: "CvmBlocks list"
  cvm_transactions_atomic :: "CvmTransactionsAtomic list"
  cvm_transactions_txdata :: "CvmTxdataRow list"
  cvm_accounts :: "CvmAccount list"
  pvm_blocks :: "PvmBlocks list"
  rewards :: "Rewards list"
  transactions_validator :: "TransactionsValidator list"
  transactions_block :: "TransactionsBlock list"
  addresses_bech32 :: "AddressBech32 list"
  output_addresses_accumulate_out :: "OutputAddressAccumulate list"
  output_addresses_accumulate_in :: "OutputAddressAccumulate list"
  output_txs_accumulate :: "OutputTxsAccumulate list"
  accumulate_balances_received :: "AccumulateBalancesAmount list"
  accumulate_balances_sent :: "AccumulateBalancesAmount list"
  accumulate_balances_transactions :: "AccumulateBalancesTransactions list"
  transactions_rewards_owners :: "TransactionsRewardsOwners list"
  transactions_rewards_owners_address :: "TransactionsRewardsOwnersAddress list"
  transactions_rewards_owners_outputs :: "TransactionsRewardsOwnersOutputs list"
  tx_pool :: "TxPool list"
  key_value_store :: "KeyValueStore list"
  node_index :: "NodeIndex list"
  cam_last_block_cache :: "CamLastBlockCache list"

definition empty_db :: database where
  "empty_db = \<lparr>
     avm_transactions = [],
     avm_outputs_redeeming = [],
     avm_outputs = [],
     avm_assets = [],
     addresses = [],
     address_chain = [],
     avm_output_addresses = [],
     transactions_epoch = [],
     cvm_addresses = [],
     cvm_blocks = [],
     cvm_transactions_atomic = [],
     cvm_transactions_txdata = [],
     cvm_accounts = [],
     pvm_blocks = [],
     rewards = [],
     transactions_validator = [],
     transactions_block = [],
     addresses_bech32 = [],
     output_addresses_accumulate_out = [],
     output_addresses_accumulate_in = [],
     output_txs_accumulate = [],
     accumulate_balances_received = [],
     accumulate_balances_sent = [],
     accumulate_balances_transactions = [],
     transactions_rewards_owners = [],
     transactions_rewards_owners_address = [],
     transactions_rewards_owners_outputs = [],
     tx_pool = [],
     key_value_store = [],
     node_index = [],
     cam_last_block_cache = []\<rparr>"

interpretation avm_transactions_tbl: sql_table avm_transactions avm_transactions_update Transactions_clash
  by unfold_locales (auto simp: Transactions_clash_def intro: database.fold_congs)

interpretation avm_outputs_redeeming_tbl: sql_table avm_outputs_redeeming avm_outputs_redeeming_update OutputsRedeeming_clash
  by unfold_locales (auto simp: OutputsRedeeming_clash_def intro: database.fold_congs)

interpretation avm_outputs_tbl: sql_table avm_outputs avm_outputs_update Outputs_clash
  by unfold_locales (auto simp: Outputs_clash_def intro: database.fold_congs)

interpretation avm_assets_tbl: sql_table avm_assets avm_assets_update Assets_clash
  by unfold_locales (auto simp: Assets_clash_def intro: database.fold_congs)

interpretation addresses_tbl: sql_table addresses addresses_update Addresses_clash
  by unfold_locales (auto simp: Addresses_clash_def intro: database.fold_congs)

interpretation address_chain_tbl: sql_table address_chain address_chain_update AddressChain_clash
  by unfold_locales (auto simp: AddressChain_clash_def intro: database.fold_congs)

interpretation avm_output_addresses_tbl: sql_table avm_output_addresses avm_output_addresses_update OutputAddresses_clash
  by unfold_locales (auto simp: OutputAddresses_clash_def intro: database.fold_congs)

interpretation transactions_epoch_tbl: sql_table transactions_epoch transactions_epoch_update TransactionsEpoch_clash
  by unfold_locales (auto simp: TransactionsEpoch_clash_def intro: database.fold_congs)

interpretation cvm_addresses_tbl: sql_table cvm_addresses cvm_addresses_update CvmAddresses_clash
  by unfold_locales (auto simp: CvmAddresses_clash_def intro: database.fold_congs)

interpretation cvm_blocks_tbl: sql_table cvm_blocks cvm_blocks_update CvmBlocks_clash
  by unfold_locales (auto simp: CvmBlocks_clash_def intro: database.fold_congs)

interpretation cvm_transactions_atomic_tbl: sql_table cvm_transactions_atomic cvm_transactions_atomic_update CvmTransactionsAtomic_clash
  by unfold_locales (auto simp: CvmTransactionsAtomic_clash_def intro: database.fold_congs)

interpretation cvm_transactions_txdata_tbl: sql_table cvm_transactions_txdata cvm_transactions_txdata_update CvmTxdataRow_clash
  by unfold_locales (auto simp: CvmTxdataRow_clash_def intro: database.fold_congs)

interpretation cvm_accounts_tbl: sql_table cvm_accounts cvm_accounts_update CvmAccount_clash
  by unfold_locales (auto simp: CvmAccount_clash_def intro: database.fold_congs)

interpretation pvm_blocks_tbl: sql_table pvm_blocks pvm_blocks_update PvmBlocks_clash
  by unfold_locales (auto simp: PvmBlocks_clash_def intro: database.fold_congs)

interpretation rewards_tbl: sql_table rewards rewards_update Rewards_clash
  by unfold_locales (auto simp: Rewards_clash_def intro: database.fold_congs)

interpretation transactions_validator_tbl: sql_table transactions_validator transactions_validator_update TransactionsValidator_clash
  by unfold_locales (auto simp: TransactionsValidator_clash_def intro: database.fold_congs)

interpretation transactions_block_tbl: sql_table transactions_block transactions_block_update TransactionsBlock_clash
  by unfold_locales (auto simp: TransactionsBlock_clash_def intro: database.fold_congs)

interpretation addresses_bech32_tbl: sql_table addresses_bech32 addresses_bech32_update AddressBech32_clash
  by unfold_locales (auto simp: AddressBech32_clash_def intro: database.fold_congs)

interpretation output_addresses_accumulate_out_tbl: sql_table output_addresses_accumulate_out output_addresses_accumulate_out_update OutputAddressAccumulate_clash
  by unfold_locales (auto simp: OutputAddressAccumulate_clash_def intro: database.fold_congs)

interpretation output_addresses_accumulate_in_tbl: sql_table output_addresses_accumulate_in output_addresses_accumulate_in_update OutputAddressAccumulate_clash
  by unfold_locales (auto simp: OutputAddressAccumulate_clash_def intro: database.fold_congs)

interpretation output_txs_accumulate_tbl: sql_table output_txs_accumulate output_txs_accumulate_update OutputTxsAccumulate_clash
  by unfold_locales (auto simp: OutputTxsAccumulate_clash_def intro: database.fold_congs)

interpretation accumulate_balances_received_tbl: sql_table accumulate_balances_received accumulate_balances_received_update AccumulateBalancesAmount_clash
  by unfold_locales (auto simp: AccumulateBalancesAmount_clash_def intro: database.fold_congs)

interpretation accumulate_balances_sent_tbl: sql_table accumulate_balances_sent accumulate_balances_sent_update AccumulateBalancesAmount_clash
  by unfold_locales (auto simp: AccumulateBalancesAmount_clash_def intro: database.fold_congs)

interpretation accumulate_balances_transactions_tbl: sql_table accumulate_balances_transactions accumulate_balances_transactions_update AccumulateBalancesTransactions_clash
  by unfold_locales (auto simp: AccumulateBalancesTransactions_clash_def intro: database.fold_congs)

interpretation transactions_rewards_owners_tbl: sql_table transactions_rewards_owners transactions_rewards_owners_update TransactionsRewardsOwners_clash
  by unfold_locales (auto simp: TransactionsRewardsOwners_clash_def intro: database.fold_congs)

interpretation transactions_rewards_owners_address_tbl: sql_table transactions_rewards_owners_address transactions_rewards_owners_address_update TransactionsRewardsOwnersAddress_clash
  by unfold_locales (auto simp: TransactionsRewardsOwnersAddress_clash_def intro: database.fold_congs)

interpretation transactions_rewards_owners_outputs_tbl: sql_table transactions_rewards_owners_outputs transactions_rewards_owners_outputs_update TransactionsRewardsOwnersOutputs_clash
  by unfold_locales (auto simp: TransactionsRewardsOwnersOutputs_clash_def intro: database.fold_congs)

interpretation tx_pool_tbl: sql_table tx_pool tx_pool_update TxPool_clash
  by unfold_locales (auto simp: TxPool_clash_def intro: database.fold_congs)

interpretation key_value_store_tbl: sql_table key_value_store key_value_store_update KeyValueStore_clash
  by unfold_locales (auto simp: KeyValueStore_clash_def intro: database.fold_congs)

interpretation node_index_tbl: sql_table node_index node_index_update NodeIndex_clash
  by unfold_locales (auto simp: NodeIndex_clash_def intro: database.fold_congs)

section \<open>Well-formed databases, growing databases\<close>

definition db_ok :: "database \<Rightarrow> bool" where
  "db_ok d \<longleftrightarrow>
     uniq Transactions_clash (avm_transactions d) \<and>
     uniq OutputsRedeeming_clash (avm_outputs_redeeming d) \<and>
     uniq Outputs_clash (avm_outputs d) \<and>
     uniq Assets_clash (avm_assets d) \<and>
     uniq Addresses_clash (addresses d) \<and>
     uniq AddressChain_clash (address_chain d) \<and>
     uniq OutputAddresses_clash (avm_output_addresses d) \<and>
     uniq TransactionsEpoch_clash (transactions_epoch d) \<and>
     uniq CvmAddresses_clash (cvm_addresses d) \<and>
     uniq CvmBlocks_clash (cvm_blocks d) \<and>
     uniq CvmTransactionsAtomic_clash (cvm_transactions_atomic d) \<and>
     uniq CvmTxdataRow_clash (cvm_transactions_txdata d) \<and>
     uniq CvmAccount_clash (cvm_accounts d) \<and>
     uniq PvmBlocks_clash (pvm_blocks d) \<and>
     uniq Rewards_clash (rewards d) \<and>
     uniq TransactionsValidator_clash (transactions_validator d) \<and>
     uniq TransactionsBlock_clash (transactions_block d) \<and>
     uniq AddressBech32_clash (addresses_bech32 d) \<and>
     uniq OutputAddressAccumulate_clash (output_addresses_accumulate_out d) \<and>
     uniq OutputAddressAccumulate_clash (output_addresses_accumulate_in d) \<and>
     uniq OutputTxsAccumulate_clash (output_txs_accumulate d) \<and>
     uniq AccumulateBalancesAmount_clash (accumulate_balances_received d) \<and>
     uniq AccumulateBalancesAmount_clash (accumulate_balances_sent d) \<and>
     uniq AccumulateBalancesTransactions_clash (accumulate_balances_transactions d) \<and>
     uniq TransactionsRewardsOwners_clash (transactions_rewards_owners d) \<and>
     uniq TransactionsRewardsOwnersAddress_clash (transactions_rewards_owners_address d) \<and>
     uniq TransactionsRewardsOwnersOutputs_clash (transactions_rewards_owners_outputs d) \<and>
     uniq TxPool_clash (tx_pool d) \<and>
     uniq KeyValueStore_clash (key_value_store d) \<and>
     uniq NodeIndex_clash (node_index d)"

lemma empty_db_ok: "db_ok empty_db"
  by (simp add: db_ok_def empty_db_def)

definition keeps_ok :: "database \<Rightarrow> database \<Rightarrow> bool" where
  "keeps_ok d d' \<longleftrightarrow> (db_ok d \<longrightarrow> db_ok d')"

interpretation ok: store_rel keeps_ok
  by unfold_locales (auto simp: keeps_ok_def)

definition grows :: "database \<Rightarrow> database \<Rightarrow> bool" where
  "grows d d' \<longleftrightarrow>
     prefix (avm_transactions d) (avm_transactions d') \<and>
     prefix (avm_outputs_redeeming d) (avm_outputs_redeeming d') \<and>
     prefix (avm_outputs d) (avm_outputs d') \<and>
     prefix (avm_assets d) (avm_assets d') \<and>
     prefix (addresses d) (addresses d') \<and>
     prefix (address_chain d) (address_chain d') \<and>
     prefix (transactions_epoch d) (transactions_epoch d') \<and>
     prefix (cvm_addresses d) (cvm_addresses d') \<and>
     prefix (cvm_blocks d) (cvm_blocks d') \<and>
     prefix (cvm_transactions_atomic d) (cvm_transactions_atomic d') \<and>
     prefix (cvm_transactions_txdata d) (cvm_transactions_txdata d') \<and>
     prefix (pvm_blocks d) (pvm_blocks d') \<and>
     prefix (transactions_validator d) (transactions_validator d') \<and>
     prefix (transactions_block d) (transactions_block d') \<and>
     prefix (addresses_bech32 d) (addresses_bech32 d') \<and>
     prefix (transactions_rewards_owners d) (transactions_rewards_owners d') \<and>
     prefix (transactions_rewards_owners_address d) (transactions_rewards_owners_address d') \<and>
     prefix (transactions_rewards_owners_outputs d) (transactions_rewards_owners_outputs d') \<and>
     prefix (key_value_store d) (key_value_store d') \<and>
     prefix (map rw_ID (rewards d)) (map rw_ID (rewards d'))"

interpretation grow: store_rel grows
  by unfold_locales (auto simp: grows_def intro: prefix_order.trans)

end
