(* ===== verification/Db_Persist.thy ===== *)
theory Db_Persist
  imports Db_Schema
begin

text \<open>
  The operations of \<^verbatim>\<open>src/db/dbmodel.go\<close>: every method of \<^verbatim>\<open>persist\<close> as one
  definition under its own name, from its columns, its \<^verbatim>\<open>WHERE\<close> clause and its error
  handling.  A query returns the columns it selects and leaves the others at Go's zero
  value; an insert fills the columns it names and leaves the others at the schema's
  default.

  The second half states what all of them have in common: \<open>persist_call\<close> lists the
  operations that write, \<open>run_call\<close> executes one, every one keeps \<open>db_ok\<close>, and without
  updates every one only grows the ledger.
\<close>

section \<open>What the sources use of the node's library\<close>

text \<open>An \<^verbatim>\<open>ids.ID\<close>, an \<^verbatim>\<open>ids.ShortID\<close> and a public key are byte strings.  The
  functions on them, and the checked addition \<^verbatim>\<open>math.Add64\<close>, belong to the node's
  library, \<^verbatim>\<open>stacktrace.Propagate\<close> to a third-party package; they are parameters of
  the model.\<close>

record nodelib =
  ComputeHash256Array :: "bytes \<Rightarrow> bytes"
  ID_String :: "bytes \<Rightarrow> string"
  ID_Prefix :: "bytes \<Rightarrow> u64 \<Rightarrow> bytes"
  ShortID_String :: "bytes \<Rightarrow> string"
  RecoverPublicKey :: "bytes \<Rightarrow> bytes \<Rightarrow> goerr + bytes"
  PublicKey_Address :: "bytes \<Rightarrow> bytes"
  PublicKey_Bytes :: "bytes \<Rightarrow> bytes"
  FormatBech32 :: "string \<Rightarrow> bytes \<Rightarrow> goerr + string"
  Add64 :: "u64 \<Rightarrow> u64 \<Rightarrow> goerr + u64"
  Propagate :: "goerr \<Rightarrow> string \<Rightarrow> goerr"

section \<open>Table names\<close>

definition TableTransactions :: string where
  "TableTransactions = ''avm_transactions''"

definition TableOutputsRedeeming :: string where
  "TableOutputsRedeeming = ''avm_outputs_redeeming''"

definition TableOutputs :: string where
  "TableOutputs = ''avm_outputs''"

definition TableAssets :: string where
  "TableAssets = ''avm_assets''"

definition TableAddresses :: string where
  "TableAddresses = ''addresses''"

definition TableAddressChain :: string where
  "TableAddressChain = ''address_chain''"

definition TableOutputAddresses :: string where
  "TableOutputAddresses = ''avm_output_addresses''"

definition TableTransactionsEpochs :: string where
  "TableTransactionsEpochs = ''transactions_epoch''"

definition TableCvmAddresses :: string where
  "TableCvmAddresses = ''cvm_addresses''"

definition TableCvmBlocks :: string where
  "TableCvmBlocks = ''cvm_blocks''"

definition TableCvmTransactionsAtomic :: string where
  "TableCvmTransactionsAtomic = ''cvm_transactions_atomic''"

definition TableCvmTransactionsTxdata :: string where
  "TableCvmTransactionsTxdata = ''cvm_transactions_txdata''"

definition TableCvmAccounts :: string where
  "TableCvmAccounts = ''cvm_accounts''"

definition TablePvmBlocks :: string where
  "TablePvmBlocks = ''pvm_blocks''"

definition TableRewards :: string where
  "TableRewards = ''rewards''"

definition TableTransactionsValidator :: string where
  "TableTransactionsValidator = ''transactions_validator''"

definition TableTransactionsBlock :: string where
  "TableTransactionsBlock = ''transactions_block''"

definition TableAddressBech32 :: string where
  "TableAddressBech32 = ''addresses_bech32''"

definition TableOutputAddressAccumulateOut :: string where
  "TableOutputAddressAccumulateOut = ''output_addresses_accumulate_out''"

definition TableOutputAddressAccumulateIn :: string where
  "TableOutputAddressAccumulateIn = ''output_addresses_accumulate_in''"

definition TableOutputTxsAccumulate :: string where
  "TableOutputTxsAccumulate = ''output_txs_accumulate''"

definition TableAccumulateBalancesReceived :: string where
  "TableAccumulateBalancesReceived = ''accumulate_balances_received''"

definition TableAccumulateBalancesSent :: string where
  "TableAccumulateBalancesSent = ''accumulate_balances_sent''"

definition TableAccumulateBalancesTransactions :: string where
  "TableAccumulateBalancesTransactions = ''accumulate_balances_transactions''"

definition TableTransactionsRewardsOwners :: string where
  "TableTransactionsRewardsOwners = ''transactions_rewards_owners''"

definition TableTransactionsRewardsOwnersAddress :: string where
  "TableTransactionsRewardsOwnersAddress = ''transactions_rewards_owners_address''"

definition TableTransactionsRewardsOwnersOutputs :: string where
  "TableTransactionsRewardsOwnersOutputs = ''transactions_rewards_owners_outputs''"

definition TableTxPool :: string where
  "TableTxPool = ''tx_pool''"

definition TableKeyValueStore :: string where
  "TableKeyValueStore = ''key_value_store''"

definition TableNodeIndex :: string where
  "TableNodeIndex = ''node_index''"

definition TableCamLastBlockCache :: string where
  "TableCamLastBlockCache = ''cam_last_block_cache''"

section \<open>Operations\<close>

definition QueryTransactions :: "Transactions \<Rightarrow> (database, Transactions) go" where
  "QueryTransactions q =
     sql_load_one avm_transactions (\<lambda>r. tx_ID r = tx_ID q)
       (\<lambda>r. \<lparr>tx_ID = tx_ID r, tx_ChainID = tx_ChainID r, tx_Type = tx_Type r,
             tx_Memo = tx_Memo r,
             tx_CanonicalSerialization = tx_CanonicalSerialization r,
             tx_Txfee = tx_Txfee r, tx_NetworkID = tx_NetworkID r,
             tx_Genesis = tx_Genesis r, tx_Status = tx_Status r,
             tx_CreatedAt = tx_CreatedAt r\<rparr>)"

definition InsertTransactions :: "Transactions \<Rightarrow> bool \<Rightarrow> (database, unit) go" where
  "InsertTransactions v upd =
     upsert TableTransactions
       (sql_insert avm_transactions avm_transactions_update Transactions_clash
          \<lparr>tx_ID = tx_ID v, tx_ChainID = tx_ChainID v, tx_Type = tx_Type v,
           tx_Memo = tx_Memo v, tx_CanonicalSerialization = tx_CanonicalSerialization v,
           tx_Txfee = tx_Txfee v, tx_NetworkID = tx_NetworkID v,
           tx_Genesis = tx_Genesis v, tx_Status = tx_Status v,
           tx_CreatedAt = tx_CreatedAt v\<rparr>)
       upd TableTransactions
       (sql_update avm_transactions avm_transactions_update Transactions_clash
          (\<lambda>r. tx_ID r = tx_ID v)
          (\<lambda>r. r\<lparr>tx_ChainID := tx_ChainID v, tx_Type := tx_Type v, tx_Memo := tx_Memo v,
                 tx_CanonicalSerialization := tx_CanonicalSerialization v,
                 tx_Txfee := tx_Txfee v, tx_Genesis := tx_Genesis v,
                 tx_NetworkID := tx_NetworkID v, tx_CreatedAt := tx_CreatedAt v,
                 tx_Status := tx_Status v\<rparr>))"

definition QueryOutputsRedeeming :: "OutputsRedeeming \<Rightarrow> (database, OutputsRedeeming) go" where
  "QueryOutputsRedeeming q =
     sql_load_one avm_outputs_redeeming (\<lambda>r. red_ID r = red_ID q)
       (\<lambda>r. \<lparr>red_ID = red_ID r, red_RedeemedAt = red_RedeemedAt r,
             red_RedeemingTransactionID = red_RedeemingTransactionID r,
             red_Amount = red_Amount r, red_OutputIndex = red_OutputIndex r,
             red_Intx = red_Intx r, red_AssetID = red_AssetID r,
             red_ChainID = red_ChainID r, red_CreatedAt = red_CreatedAt r\<rparr>)"

definition InsertOutputsRedeeming :: "OutputsRedeeming \<Rightarrow> bool \<Rightarrow> (database, unit) go" where
  "InsertOutputsRedeeming v upd =
     upsert TableOutputsRedeeming
       (sql_insert avm_outputs_redeeming avm_outputs_redeeming_update OutputsRedeeming_clash
          \<lparr>red_ID = red_ID v, red_RedeemedAt = red_RedeemedAt v,
           red_RedeemingTransactionID = red_RedeemingTransactionID v,
           red_Amount = red_Amount v, red_OutputIndex = red_OutputIndex v,
           red_Intx = red_Intx v, red_AssetID = red_AssetID v,
           red_ChainID = red_ChainID v, red_CreatedAt = red_CreatedAt v\<rparr>)
       upd TableOutputsRedeeming
       (sql_update avm_outputs_redeeming avm_outputs_redeeming_update OutputsRedeeming_clash
          (\<lambda>r. red_ID r = red_ID v)
          (\<lambda>r. r\<lparr>red_RedeemingTransactionID := red_RedeemingTransactionID v,
                 red_Amount := red_Amount v, red_OutputIndex := red_OutputIndex v,
                 red_Intx := red_Intx v, red_AssetID := red_AssetID v,
                 red_ChainID := red_ChainID v, red_CreatedAt := red_CreatedAt v\<rparr>))"

definition QueryOutputs :: "Outputs \<Rightarrow> (database, Outputs) go" where
  "QueryOutputs q =
     sql_load_one avm_outputs (\<lambda>r. out_ID r = out_ID q)
       (\<lambda>r. \<lparr>out_ID = out_ID r, out_ChainID = out_ChainID r,
             out_TransactionID = out_TransactionID r,
             out_OutputIndex = out_OutputIndex r, out_OutputType = out_OutputType r,
             out_AssetID = out_AssetID r, out_Amount = out_Amount r,
             out_Locktime = out_Locktime r, out_Threshold = out_Threshold r,
             out_GroupID = out_GroupID r, out_Payload = out_Payload r,
             out_StakeLocktime = out_StakeLocktime r, out_Stake = out_Stake r,
             out_Frozen = out_Frozen r, out_Stakeableout = out_Stakeableout r,
             out_Genesisutxo = out_Genesisutxo r, out_CreatedAt = out_CreatedAt r\<rparr>)"

definition InsertOutputs :: "Outputs \<Rightarrow> bool \<Rightarrow> (database, unit) go" where
  "InsertOutputs v upd =
     upsert TableOutputs
       (sql_insert avm_outputs avm_outputs_update Outputs_clash
          \<lparr>out_ID = out_ID v, out_ChainID = out_ChainID v,
           out_TransactionID = out_TransactionID v, out_OutputIndex = out_OutputIndex v,
           out_OutputType = out_OutputType v, out_AssetID = out_AssetID v,
           out_Amount = out_Amount v, out_Locktime = out_Locktime v,
           out_Threshold = out_Threshold v, out_GroupID = out_GroupID v,
           out_Payload = out_Payload v, out_StakeLocktime = out_StakeLocktime v,
           out_Stake = out_Stake v, out_Frozen = out_Frozen v,
           out_Stakeableout = out_Stakeableout v, out_Genesisutxo = out_Genesisutxo v,
           out_CreatedAt = out_CreatedAt v\<rparr>)
       upd TableOutputs
       (sql_update avm_outputs avm_outputs_update Outputs_clash
          (\<lambda>r. out_ID r = out_ID v)
          (\<lambda>r. r\<lparr>out_ChainID := out_ChainID v, out_TransactionID := out_TransactionID v,
                 out_OutputIndex := out_OutputIndex v, out_AssetID := out_AssetID v,
                 out_OutputType := out_OutputType v, out_Amount := out_Amount v,
                 out_Locktime := out_Locktime v, out_Threshold := out_Threshold v,
                 out_GroupID := out_GroupID v, out_Payload := out_Payload v,
                 out_StakeLocktime := out_StakeLocktime v, out_Stake := out_Stake v,
                 out_Frozen := out_Frozen v, out_Stakeableout := out_Stakeableout v,
                 out_Genesisutxo := out_Genesisutxo v, out_CreatedAt := out_CreatedAt v\<rparr>))"

definition QueryAssets :: "Assets \<Rightarrow> (database, Assets) go" where
  "QueryAssets q =
     sql_load_one avm_assets (\<lambda>r. ast_ID r = ast_ID q)
       (\<lambda>r. \<lparr>ast_ID = ast_ID r, ast_ChainID = ast_ChainID r, ast_Name = ast_Name r,
             ast_Symbol = ast_Symbol r, ast_Denomination = ast_Denomination r,
             ast_Alias = ast_Alias r, ast_CurrentSupply = ast_CurrentSupply r,
             ast_CreatedAt = ast_CreatedAt r\<rparr>)"

definition InsertAssets :: "Assets \<Rightarrow> bool \<Rightarrow> (database, unit) go" where
  "InsertAssets v upd =
     upsert TableAssets
       (sql_insert avm_assets avm_assets_update Assets_clash
          \<lparr>ast_ID = ast_ID v, ast_ChainID = ast_ChainID v, ast_Name = ast_Name v,
           ast_Symbol = ast_Symbol v, ast_Denomination = ast_Denomination v,
           ast_Alias = ast_Alias v, ast_CurrentSupply = ast_CurrentSupply v,
           ast_CreatedAt = ast_CreatedAt v\<rparr>)
       upd TableAssets
       (sql_update avm_assets avm_assets_update Assets_clash
          (\<lambda>r. ast_ID r = ast_ID v)
          (\<lambda>r. r\<lparr>ast_ChainID := ast_ChainID v, ast_Name := ast_Name v,
                 ast_Symbol := ast_Symbol v, ast_Denomination := ast_Denomination v,
                 ast_Alias := ast_Alias v, ast_CurrentSupply := ast_CurrentSupply v,
                 ast_CreatedAt := ast_CreatedAt v\<rparr>))"

definition QueryAddresses :: "Addresses \<Rightarrow> (database, Addresses) go" where
  "QueryAddresses q =
     sql_load_one addresses (\<lambda>r. adr_Address r = adr_Address q)
       (\<lambda>r. \<lparr>adr_Address = adr_Address r, adr_PublicKey = adr_PublicKey r,
             adr_CreatedAt = adr_CreatedAt r, adr_UpdatedAt = adr_UpdatedAt r\<rparr>)"

definition InsertAddresses :: "Addresses \<Rightarrow> bool \<Rightarrow> (database, unit) go" where
  "InsertAddresses v upd =
     upsert TableAddresses
       (sql_insert addresses addresses_update Addresses_clash
          \<lparr>adr_Address = adr_Address v, adr_PublicKey = adr_PublicKey v,
           adr_CreatedAt = adr_CreatedAt v, adr_UpdatedAt = adr_UpdatedAt v\<rparr>)
       upd TableAddresses
       (sql_update addresses addresses_update Addresses_clash
          (\<lambda>r. adr_Address r = adr_Address v)
          (\<lambda>r. r\<lparr>adr_PublicKey := adr_PublicKey v, adr_UpdatedAt := adr_UpdatedAt v,
                 adr_CreatedAt := adr_CreatedAt v\<rparr>))"

definition QueryAddressChain :: "AddressChain \<Rightarrow> (database, AddressChain) go" where
  "QueryAddressChain q =
     sql_load_one address_chain (\<lambda>r. adc_Address r = adc_Address q \<and> adc_ChainID r = adc_ChainID q)
       (\<lambda>r. \<lparr>adc_Address = adc_Address r, adc_ChainID = adc_ChainID r,
             adc_CreatedAt = adc_CreatedAt r, adc_UpdatedAt = adc_UpdatedAt r\<rparr>)"

definition InsertAddressChain :: "AddressChain \<Rightarrow> bool \<Rightarrow> (database, unit) go" where
  "InsertAddressChain v upd =
     upsert TableAddressChain
       (sql_insert address_chain address_chain_update AddressChain_clash
          \<lparr>adc_Address = adc_Address v, adc_ChainID = adc_ChainID v,
           adc_CreatedAt = adc_CreatedAt v, adc_UpdatedAt = adc_UpdatedAt v\<rparr>)
       upd TableAddressChain
       (sql_update address_chain address_chain_update AddressChain_clash
          (\<lambda>r. adc_Address r = adc_Address v \<and> adc_ChainID r = adc_ChainID v)
          (\<lambda>r. r\<lparr>adc_UpdatedAt := adc_UpdatedAt v, adc_CreatedAt := adc_CreatedAt v\<rparr>))"

definition QueryOutputAddresses :: "OutputAddresses \<Rightarrow> (database, OutputAddresses) go" where
  "QueryOutputAddresses q =
     sql_load_one avm_output_addresses (\<lambda>r. oad_OutputID r = oad_OutputID q \<and> oad_Address r = oad_Address q)
       (\<lambda>r. \<lparr>oad_OutputID = oad_OutputID r, oad_Address = oad_Address r,
             oad_RedeemingSignature = oad_RedeemingSignature r,
             oad_CreatedAt = oad_CreatedAt r, oad_UpdatedAt = oad_UpdatedAt r\<rparr>)"

definition InsertOutputAddresses :: "OutputAddresses \<Rightarrow> bool \<Rightarrow> (database, unit) go" where
  "InsertOutputAddresses v upd =
     upsert TableOutputAddresses
       (sql_insert avm_output_addresses avm_output_addresses_update OutputAddresses_clash
          \<lparr>oad_OutputID = oad_OutputID v, oad_Address = oad_Address v,
           oad_RedeemingSignature =
             (case oad_RedeemingSignature v of None \<Rightarrow> None | Some sig \<Rightarrow> Some sig),
           oad_CreatedAt = oad_CreatedAt v, oad_UpdatedAt = oad_UpdatedAt v\<rparr>)
       upd TableOutputAddresses
       (sql_update avm_output_addresses avm_output_addresses_update OutputAddresses_clash
          (\<lambda>r. oad_OutputID r = oad_OutputID v \<and> oad_Address r = oad_Address v)
          (\<lambda>r. (case oad_RedeemingSignature v of
                    None \<Rightarrow> r | Some sig \<Rightarrow> r\<lparr>oad_RedeemingSignature := Some sig\<rparr>)
                 \<lparr>oad_UpdatedAt := oad_UpdatedAt v, oad_CreatedAt := oad_CreatedAt v\<rparr>))"

definition UpdateOutputAddresses :: "OutputAddresses \<Rightarrow> (database, unit) go" where
  "UpdateOutputAddresses v =
     wrap_err TableOutputAddresses True
       (sql_update avm_output_addresses avm_output_addresses_update OutputAddresses_clash
          (\<lambda>r. oad_OutputID r = oad_OutputID v \<and> oad_Address r = oad_Address v)
          (\<lambda>r. r\<lparr>oad_RedeemingSignature := oad_RedeemingSignature v,
                 oad_UpdatedAt := oad_UpdatedAt v\<rparr>))"

definition QueryTransactionsEpoch :: "TransactionsEpoch \<Rightarrow> (database, TransactionsEpoch) go" where
  "QueryTransactionsEpoch q =
     sql_load_one transactions_epoch (\<lambda>r. ep_ID r = ep_ID q)
       (\<lambda>r. \<lparr>ep_ID = ep_ID r, ep_Epoch = ep_Epoch r, ep_VertexID = ep_VertexID r,
             ep_CreatedAt = ep_CreatedAt r\<rparr>)"

definition InsertTransactionsEpoch :: "TransactionsEpoch \<Rightarrow> bool \<Rightarrow> (database, unit) go" where
  "InsertTransactionsEpoch v upd =
     upsert TableTransactionsEpochs
       (sql_insert transactions_epoch transactions_epoch_update TransactionsEpoch_clash
          \<lparr>ep_ID = ep_ID v, ep_Epoch = ep_Epoch v, ep_VertexID = ep_VertexID v,
           ep_CreatedAt = ep_CreatedAt v\<rparr>)
       upd TableTransactionsEpochs
       (sql_update transactions_epoch transactions_epoch_update TransactionsEpoch_clash
          (\<lambda>r. ep_ID r = ep_ID v)
          (\<lambda>r. r\<lparr>ep_Epoch := ep_Epoch v, ep_VertexID := ep_VertexID v,
                 ep_CreatedAt := ep_CreatedAt v\<rparr>))"

text \<open>Block numbers are written into the statement as the decimal numeral that
  \<^verbatim>\<open>big.Int.String\<close> prints, so two of them are equal as numbers exactly when they are
  equal as strings.\<close>

definition QueryCvmBlock :: "CvmBlocks \<Rightarrow> (database, CvmBlocks) go" where
  "QueryCvmBlock q =
     sql_load_one cvm_blocks (\<lambda>r. cb_Block r = cb_Block q)
       (\<lambda>r. \<lparr>cb_Block = cb_Block r, cb_Hash = cb_Hash r, cb_ChainID = cb_ChainID r,
             cb_EvmTx = cb_EvmTx r, cb_AtomicTx = cb_AtomicTx r,
             cb_Serialization = cb_Serialization r, cb_CreatedAt = cb_CreatedAt r,
             cb_Proposer = cb_Proposer r, cb_ProposerTime = cb_ProposerTime r\<rparr>)"

definition InsertCvmBlocks :: "CvmBlocks \<Rightarrow> (database, unit) go" where
  "InsertCvmBlocks v =
     ignore_dup TableCvmBlocks
       (sql_insert cvm_blocks cvm_blocks_update CvmBlocks_clash
          \<lparr>cb_Block = cb_Block v, cb_Hash = cb_Hash v, cb_ChainID = cb_ChainID v,
           cb_EvmTx = cb_EvmTx v, cb_AtomicTx = cb_AtomicTx v,
           cb_Serialization = cb_Serialization v, cb_CreatedAt = cb_CreatedAt v,
           cb_Proposer = cb_Proposer v, cb_ProposerTime = cb_ProposerTime v\<rparr>)"

definition QueryCountLastBlockCache :: "CamLastBlockCache \<Rightarrow> (database, CountLastBlockCache) go" where
  "QueryCountLastBlockCache q =
     query (\<lambda>d. Inr \<lparr>clb_Cnt = of_nat (length (filter (\<lambda>r. lbc_ChainID r = lbc_ChainID q)
                                              (cam_last_block_cache d)))\<rparr>)"

definition QueryCamLastBlockCache :: "CamLastBlockCache \<Rightarrow> (database, CamLastBlockCache) go" where
  "QueryCamLastBlockCache q =
     sql_load_one cam_last_block_cache (\<lambda>r. lbc_ChainID r = lbc_ChainID q)
       (\<lambda>r. \<lparr>lbc_CurrentBlock = lbc_CurrentBlock r, lbc_ChainID = lbc_ChainID r\<rparr>)"

definition InsertCamLastBlockCache :: "CamLastBlockCache \<Rightarrow> bool \<Rightarrow> (database, unit) go" where
  "InsertCamLastBlockCache v upd =
     (if upd then
        wrap_err TableCamLastBlockCache True
          (sql_update cam_last_block_cache cam_last_block_cache_update (\<lambda>_ _. False)
             (\<lambda>r. lbc_ChainID r = lbc_ChainID v)
             (\<lambda>r. r\<lparr>lbc_CurrentBlock := lbc_CurrentBlock v\<rparr>))
      else
        ignore_dup TableCamLastBlockCache
          (sql_insert cam_last_block_cache cam_last_block_cache_update (\<lambda>_ _. False)
             \<lparr>lbc_CurrentBlock = lbc_CurrentBlock v, lbc_ChainID = lbc_ChainID v\<rparr>))"

definition QueryCvmAddresses :: "CvmAddresses \<Rightarrow> (database, CvmAddresses) go" where
  "QueryCvmAddresses q =
     sql_load_one cvm_addresses (\<lambda>r. cad_ID r = cad_ID q)
       (\<lambda>r. \<lparr>cad_ID = cad_ID r, cad_Type = cad_Type r, cad_Idx = cad_Idx r,
             cad_TransactionID = cad_TransactionID r, cad_Address = cad_Address r,
             cad_AssetID = cad_AssetID r, cad_Amount = cad_Amount r,
             cad_Nonce = cad_Nonce r, cad_CreatedAt = cad_CreatedAt r\<rparr>)"

definition InsertCvmAddresses :: "CvmAddresses \<Rightarrow> bool \<Rightarrow> (database, unit) go" where
  "InsertCvmAddresses v upd =
     upsert TableCvmAddresses
       (sql_insert cvm_addresses cvm_addresses_update CvmAddresses_clash
          \<lparr>cad_ID = cad_ID v, cad_Type = cad_Type v, cad_Idx = cad_Idx v,
           cad_TransactionID = cad_TransactionID v, cad_Address = cad_Address v,
           cad_AssetID = cad_AssetID v, cad_Amount = cad_Amount v,
           cad_Nonce = cad_Nonce v, cad_CreatedAt = cad_CreatedAt v\<rparr>)
       upd TableCvmAddresses
       (sql_update cvm_addresses cvm_addresses_update CvmAddresses_clash
          (\<lambda>r. cad_ID r = cad_ID v)
          (\<lambda>r. r\<lparr>cad_Type := cad_Type v, cad_Idx := cad_Idx v,
                 cad_TransactionID := cad_TransactionID v, cad_Address := cad_Address v,
                 cad_AssetID := cad_AssetID v, cad_Amount := cad_Amount v,
                 cad_Nonce := cad_Nonce v, cad_CreatedAt := cad_CreatedAt v\<rparr>))"

definition QueryCvmTransactionsAtomic :: "CvmTransactionsAtomic \<Rightarrow> (database, CvmTransactionsAtomic) go" where
  "QueryCvmTransactionsAtomic q =
     sql_load_one cvm_transactions_atomic (\<lambda>r. cat_TransactionID r = cat_TransactionID q)
       (\<lambda>r. \<lparr>cat_TransactionID = cat_TransactionID r, cat_Block = cat_Block r,
             cat_ChainID = cat_ChainID r, cat_Type = cat_Type r,
             cat_CreatedAt = cat_CreatedAt r\<rparr>)"

definition InsertCvmTransactionsAtomic :: "CvmTransactionsAtomic \<Rightarrow> bool \<Rightarrow> (database, unit) go" where
  "InsertCvmTransactionsAtomic v upd =
     upsert TableCvmTransactionsAtomic
       (sql_insert cvm_transactions_atomic cvm_transactions_atomic_update CvmTransactionsAtomic_clash
          \<lparr>cat_TransactionID = cat_TransactionID v, cat_Block = cat_Block v,
           cat_ChainID = cat_ChainID v, cat_Type = cat_Type v, cat_CreatedAt = cat_CreatedAt v\<rparr>)
       upd TableCvmTransactionsAtomic
       (sql_update cvm_transactions_atomic cvm_transactions_atomic_update CvmTransactionsAtomic_clash
          (\<lambda>r. cat_TransactionID r = cat_TransactionID v)
          (\<lambda>r. r\<lparr>cat_Block := cat_Block v, cat_ChainID := cat_ChainID v, cat_Type := cat_Type v,
                 cat_CreatedAt := cat_CreatedAt v\<rparr>))"

text \<open>\<^verbatim>\<open>(select id from cvm_accounts where address = ?)\<close>: a missing account makes the
  value NULL, which the column refuses.\<close>

definition account_id :: "database \<Rightarrow> string \<Rightarrow> u64 option" where
  "account_id d addr =
     (case filter (\<lambda>a. cac_Address a = addr) (cvm_accounts d) of
        [] \<Rightarrow> None | a # _ \<Rightarrow> Some (cac_ID a))"

definition sql_null :: goerr where
  "sql_null = ''Error 1048: Column cannot be null''"

definition QueryCvmTransactionsTxdata ::
  "CvmTransactionsTxdata \<Rightarrow> (database, CvmTransactionsTxdata) go" where
  "QueryCvmTransactionsTxdata q =
     query (\<lambda>d.
       case [\<lparr>ctd_Hash = ctr_Hash r, ctd_Block = ctr_Block r, ctd_Idx = ctr_Idx r,
              ctd_FromAddr = cac_Address f, ctd_ToAddr = cac_Address t, ctd_Nonce = ctr_Nonce r,
              ctd_Amount = ctr_Amount r, ctd_Status = ctr_Status r, ctd_GasUsed = ctr_GasUsed r,
              ctd_GasPrice = ctr_GasPrice r, ctd_Serialization = ctr_Serialization r,
              ctd_Receipt = ctr_Receipt r, ctd_CreatedAt = ctr_CreatedAt r\<rparr>.
             r \<leftarrow> cvm_transactions_txdata d, ctr_Hash r = ctd_Hash q,
             f \<leftarrow> cvm_accounts d, cac_ID f = ctr_IdFromAddr r,
             t \<leftarrow> cvm_accounts d, cac_ID t = ctr_IdToAddr r]
       of [] \<Rightarrow> Inl ErrNotFound | v # _ \<Rightarrow> Inr v)"

definition InsertCvmTransactionsTxdata :: "CvmTransactionsTxdata \<Rightarrow> bool \<Rightarrow> (database, unit) go" where
  "InsertCvmTransactionsTxdata v upd =
     upsert TableCvmTransactionsTxdata
       (exec (\<lambda>d.
          case (account_id d (ctd_FromAddr v), account_id d (ctd_ToAddr v)) of
            (Some f, Some t) \<Rightarrow>
              (let r = \<lparr>ctr_Hash = ctd_Hash v, ctr_Block = ctd_Block v, ctr_Idx = ctd_Idx v,
                        ctr_IdFromAddr = f, ctr_IdToAddr = t, ctr_Nonce = ctd_Nonce v,
                        ctr_Amount = ctd_Amount v, ctr_Status = ctd_Status v,
                        ctr_GasUsed = ctd_GasUsed v, ctr_GasPrice = ctd_GasPrice v,
                        ctr_Serialization = ctd_Serialization v, ctr_Receipt = ctd_Receipt v,
                        ctr_CreatedAt = ctd_CreatedAt v\<rparr>
               in if list_ex (CvmTxdataRow_clash r) (cvm_transactions_txdata d)
                  then (Some sql_dup, d)
                  else (None, cvm_transactions_txdata_update (\<lambda>t. t @ [r]) d))
          | _ \<Rightarrow> (Some sql_null, d)))
       upd TableCvmTransactionsTxdata
       (exec (\<lambda>d.
          case (account_id d (ctd_FromAddr v), account_id d (ctd_ToAddr v)) of
            (Some f, Some t) \<Rightarrow>
              (let g = upd_rows (\<lambda>r. ctr_Hash r = ctd_Hash v)
                        (\<lambda>r. r\<lparr>ctr_Block := ctd_Block v, ctr_Idx := ctd_Idx v,
                               ctr_IdFromAddr := f, ctr_IdToAddr := t, ctr_Nonce := ctd_Nonce v,
                               ctr_Amount := ctd_Amount v, ctr_Status := ctd_Status v,
                               ctr_GasUsed := ctd_GasUsed v, ctr_GasPrice := ctd_GasPrice v,
                               ctr_Serialization := ctd_Serialization v,
                               ctr_Receipt := ctd_Receipt v, ctr_CreatedAt := ctd_CreatedAt v\<rparr>)
               in if uniq CvmTxdataRow_clash (g (cvm_transactions_txdata d))
                  then (None, cvm_transactions_txdata_update g d) else (Some sql_dup, d))
          | _ \<Rightarrow> (Some sql_null, d)))"

definition QueryCvmAccount :: "CvmAccount \<Rightarrow> (database, CvmAccount) go" where
  "QueryCvmAccount q =
     sql_load_one cvm_accounts (\<lambda>r. cac_Address r = cac_Address q)
       (\<lambda>r. \<lparr>cac_ID = cac_ID r, cac_Address = '''', cac_TxCount = cac_TxCount r,
             cac_CreationTx = cac_CreationTx r\<rparr>)"

text \<open>The key of a new account is the table's \<^verbatim>\<open>AUTO_INCREMENT\<close>: one more than the
  largest in use.\<close>

definition next_account_id :: "CvmAccount list \<Rightarrow> u64" where
  "next_account_id t = fold max (map cac_ID t) 0 + 1"

definition InsertCvmAccount :: "CvmAccount \<Rightarrow> bool \<Rightarrow> (database, unit) go" where
  "InsertCvmAccount v upd w =
     (case exec (\<lambda>d.
             let r = \<lparr>cac_ID = next_account_id (cvm_accounts d), cac_Address = cac_Address v,
                      cac_TxCount = cac_TxCount v, cac_CreationTx = cac_CreationTx v\<rparr>
             in if list_ex (CvmAccount_clash r) (cvm_accounts d) then (Some sql_dup, d)
                else (None, cvm_accounts_update (\<lambda>t. t @ [r]) d)) w of
        (Inr _, w1) \<Rightarrow> (Inr (), w1)
      | (Inl e, w1) \<Rightarrow>
          (if \<not> upd \<or> \<not> ErrIsDuplicateEntryError (Some e)
           then (Inl (EventErr TableCvmAccounts False e), w1)
           else wrap_err TableCvmAccounts True
                  (sql_update cvm_accounts cvm_accounts_update CvmAccount_clash
                     (\<lambda>r. cac_Address r = cac_Address v)
                     (\<lambda>r. r\<lparr>cac_TxCount := cac_TxCount r + cac_TxCount v\<rparr>)) w1))"

definition QueryPvmBlocks :: "PvmBlocks \<Rightarrow> (database, PvmBlocks) go" where
  "QueryPvmBlocks q =
     sql_load_one pvm_blocks (\<lambda>r. pb_ID r = pb_ID q)
       (\<lambda>r. \<lparr>pb_ID = pb_ID r, pb_ChainID = pb_ChainID r, pb_Type = pb_Type r,
             pb_ParentID = pb_ParentID r, pb_Serialization = pb_Serialization r,
             pb_CreatedAt = pb_CreatedAt r, pb_Height = pb_Height r,
             pb_Proposer = pb_Proposer r, pb_ProposerTime = pb_ProposerTime r\<rparr>)"

definition InsertPvmBlocks :: "PvmBlocks \<Rightarrow> bool \<Rightarrow> (database, unit) go" where
  "InsertPvmBlocks v upd =
     upsert TablePvmBlocks
       (sql_insert pvm_blocks pvm_blocks_update PvmBlocks_clash
          \<lparr>pb_ID = pb_ID v, pb_ChainID = pb_ChainID v, pb_Type = pb_Type v,
           pb_ParentID = pb_ParentID v, pb_Serialization = pb_Serialization v,
           pb_CreatedAt = pb_CreatedAt v, pb_Height = pb_Height v,
           pb_Proposer = pb_Proposer v, pb_ProposerTime = pb_ProposerTime v\<rparr>)
       upd TablePvmBlocks
       (sql_update pvm_blocks pvm_blocks_update PvmBlocks_clash
          (\<lambda>r. pb_ID r = pb_ID v)
          (\<lambda>r. r\<lparr>pb_ChainID := pb_ChainID v, pb_Type := pb_Type v,
                 pb_ParentID := pb_ParentID v, pb_Serialization := pb_Serialization v,
                 pb_Height := pb_Height v, pb_CreatedAt := pb_CreatedAt v,
                 pb_Proposer := pb_Proposer v, pb_ProposerTime := pb_ProposerTime v\<rparr>))"

definition QueryRewards :: "Rewards \<Rightarrow> (database, Rewards) go" where
  "QueryRewards q =
     sql_load_one rewards (\<lambda>r. rw_ID r = rw_ID q)
       (\<lambda>r. \<lparr>rw_ID = rw_ID r, rw_BlockID = rw_BlockID r, rw_Txid = rw_Txid r,
             rw_Shouldprefercommit = rw_Shouldprefercommit r,
             rw_CreatedAt = rw_CreatedAt r, rw_Processed = rw_Processed r\<rparr>)"

definition InsertRewards :: "Rewards \<Rightarrow> bool \<Rightarrow> (database, unit) go" where
  "InsertRewards v upd =
     upsert TableRewards
       (sql_insert rewards rewards_update Rewards_clash
          \<lparr>rw_ID = rw_ID v, rw_BlockID = rw_BlockID v, rw_Txid = rw_Txid v,
           rw_Shouldprefercommit = rw_Shouldprefercommit v,
           rw_CreatedAt = rw_CreatedAt v, rw_Processed = rw_Processed v\<rparr>)
       upd TableRewards
       (sql_update rewards rewards_update Rewards_clash
          (\<lambda>r. rw_ID r = rw_ID v)
          (\<lambda>r. r\<lparr>rw_BlockID := rw_BlockID v, rw_Txid := rw_Txid v,
                 rw_Shouldprefercommit := rw_Shouldprefercommit v,
                 rw_CreatedAt := rw_CreatedAt v\<rparr>))"

definition UpdateRewardsProcessed :: "Rewards \<Rightarrow> (database, unit) go" where
  "UpdateRewardsProcessed v =
     ignore_dup TableRewards
       (sql_update rewards rewards_update Rewards_clash
          (\<lambda>r. rw_ID r = rw_ID v) (\<lambda>r. r\<lparr>rw_Processed := rw_Processed v\<rparr>))"

definition QueryTransactionsValidator :: "TransactionsValidator \<Rightarrow> (database, TransactionsValidator) go" where
  "QueryTransactionsValidator q =
     sql_load_one transactions_validator (\<lambda>r. tv_ID r = tv_ID q)
       (\<lambda>r. \<lparr>tv_ID = tv_ID r, tv_NodeID = tv_NodeID r, tv_Start = tv_Start r,
             tv_End = tv_End r, tv_CreatedAt = tv_CreatedAt r\<rparr>)"

definition InsertTransactionsValidator :: "TransactionsValidator \<Rightarrow> bool \<Rightarrow> (database, unit) go" where
  "InsertTransactionsValidator v upd =
     upsert TableTransactionsValidator
       (sql_insert transactions_validator transactions_validator_update TransactionsValidator_clash
          \<lparr>tv_ID = tv_ID v, tv_NodeID = tv_NodeID v, tv_Start = tv_Start v,
           tv_End = tv_End v, tv_CreatedAt = tv_CreatedAt v\<rparr>)
       upd TableTransactionsValidator
       (sql_update transactions_validator transactions_validator_update TransactionsValidator_clash
          (\<lambda>r. tv_ID r = tv_ID v)
          (\<lambda>r. r\<lparr>tv_NodeID := tv_NodeID v, tv_Start := tv_Start v, tv_End := tv_End v,
                 tv_CreatedAt := tv_CreatedAt v\<rparr>))"

definition QueryTransactionsBlock :: "TransactionsBlock \<Rightarrow> (database, TransactionsBlock) go" where
  "QueryTransactionsBlock q =
     sql_load_one transactions_block (\<lambda>r. tb_ID r = tb_ID q)
       (\<lambda>r. \<lparr>tb_ID = tb_ID r, tb_TxBlockID = tb_TxBlockID r,
             tb_CreatedAt = tb_CreatedAt r\<rparr>)"

definition InsertTransactionsBlock :: "TransactionsBlock \<Rightarrow> bool \<Rightarrow> (database, unit) go" where
  "InsertTransactionsBlock v upd =
     upsert TableTransactionsBlock
       (sql_insert transactions_block transactions_block_update TransactionsBlock_clash
          \<lparr>tb_ID = tb_ID v, tb_TxBlockID = tb_TxBlockID v, tb_CreatedAt = tb_CreatedAt v\<rparr>)
       upd TableTransactionsBlock
       (sql_update transactions_block transactions_block_update TransactionsBlock_clash
          (\<lambda>r. tb_ID r = tb_ID v)
          (\<lambda>r. r\<lparr>tb_TxBlockID := tb_TxBlockID v, tb_CreatedAt := tb_CreatedAt v\<rparr>))"

definition QueryAddressBech32 :: "AddressBech32 \<Rightarrow> (database, AddressBech32) go" where
  "QueryAddressBech32 q =
     sql_load_one addresses_bech32 (\<lambda>r. ab_Address r = ab_Address q)
       (\<lambda>r. \<lparr>ab_Address = ab_Address r, ab_Bech32Address = ab_Bech32Address r,
             ab_UpdatedAt = ab_UpdatedAt r\<rparr>)"

definition InsertAddressBech32 :: "AddressBech32 \<Rightarrow> bool \<Rightarrow> (database, unit) go" where
  "InsertAddressBech32 v upd =
     upsert TableAddressBech32
       (sql_insert addresses_bech32 addresses_bech32_update AddressBech32_clash
          \<lparr>ab_Address = ab_Address v, ab_Bech32Address = ab_Bech32Address v,
           ab_UpdatedAt = ab_UpdatedAt v\<rparr>)
       upd TableAddressBech32
       (sql_update addresses_bech32 addresses_bech32_update AddressBech32_clash
          (\<lambda>r. ab_Address r = ab_Address v)
          (\<lambda>r. r\<lparr>ab_Bech32Address := ab_Bech32Address v, ab_UpdatedAt := ab_UpdatedAt v\<rparr>))"

definition OutputAddressAccumulate_ComputeID :: "nodelib \<Rightarrow> OutputAddressAccumulate \<Rightarrow> OutputAddressAccumulate" where
  "OutputAddressAccumulate_ComputeID L b =
     (let idsv = oaa_OutputID b @ '':'' @ oaa_Address b
      in b\<lparr>oaa_ID := ID_String L (ComputeHash256Array L idsv)\<rparr>)"

definition QueryOutputAddressAccumulateOut :: "OutputAddressAccumulate \<Rightarrow> (database, OutputAddressAccumulate) go" where
  "QueryOutputAddressAccumulateOut q =
     sql_load_one output_addresses_accumulate_out (\<lambda>r. oaa_ID r = oaa_ID q)
       (\<lambda>r. \<lparr>oaa_ID = oaa_ID r, oaa_OutputID = oaa_OutputID r,
             oaa_Address = oaa_Address r, oaa_Processed = oaa_Processed r,
             oaa_OutputProcessed = 0, oaa_TransactionID = oaa_TransactionID r,
             oaa_OutputIndex = oaa_OutputIndex r, oaa_CreatedAt = oaa_CreatedAt r\<rparr>)"

definition InsertOutputAddressAccumulateOut :: "OutputAddressAccumulate \<Rightarrow> bool \<Rightarrow> (database, unit) go" where
  "InsertOutputAddressAccumulateOut v upd =
     upsert TableOutputAddressAccumulateOut
       (sql_insert output_addresses_accumulate_out output_addresses_accumulate_out_update OutputAddressAccumulate_clash
          \<lparr>oaa_ID = oaa_ID v, oaa_OutputID = oaa_OutputID v,
           oaa_Address = oaa_Address v, oaa_Processed = 0, oaa_OutputProcessed = 0,
           oaa_TransactionID = oaa_TransactionID v, oaa_OutputIndex = oaa_OutputIndex v,
           oaa_CreatedAt = oaa_CreatedAt v\<rparr>)
       upd TableAddressBech32
       (sql_update output_addresses_accumulate_out output_addresses_accumulate_out_update OutputAddressAccumulate_clash
          (\<lambda>r. oaa_ID r = oaa_ID v)
          (\<lambda>r. r\<lparr>oaa_OutputID := oaa_OutputID v, oaa_Address := oaa_Address v,
                 oaa_TransactionID := oaa_TransactionID v,
                 oaa_OutputIndex := oaa_OutputIndex v, oaa_CreatedAt := oaa_CreatedAt v\<rparr>))"

definition QueryOutputAddressAccumulateIn :: "OutputAddressAccumulate \<Rightarrow> (database, OutputAddressAccumulate) go" where
  "QueryOutputAddressAccumulateIn q =
     sql_load_one output_addresses_accumulate_in (\<lambda>r. oaa_ID r = oaa_ID q)
       (\<lambda>r. \<lparr>oaa_ID = oaa_ID r, oaa_OutputID = oaa_OutputID r,
             oaa_Address = oaa_Address r, oaa_Processed = oaa_Processed r,
             oaa_OutputProcessed = 0, oaa_TransactionID = oaa_TransactionID r,
             oaa_OutputIndex = oaa_OutputIndex r, oaa_CreatedAt = oaa_CreatedAt r\<rparr>)"

definition InsertOutputAddressAccumulateIn :: "OutputAddressAccumulate \<Rightarrow> bool \<Rightarrow> (database, unit) go" where
  "InsertOutputAddressAccumulateIn v upd =
     upsert TableOutputAddressAccumulateIn
       (sql_insert output_addresses_accumulate_in output_addresses_accumulate_in_update OutputAddressAccumulate_clash
          \<lparr>oaa_ID = oaa_ID v, oaa_OutputID = oaa_OutputID v,
           oaa_Address = oaa_Address v, oaa_Processed = 0, oaa_OutputProcessed = 0,
           oaa_TransactionID = oaa_TransactionID v, oaa_OutputIndex = oaa_OutputIndex v,
           oaa_CreatedAt = oaa_CreatedAt v\<rparr>)
       upd TableAddressBech32
       (sql_update output_addresses_accumulate_in output_addresses_accumulate_in_update OutputAddressAccumulate_clash
          (\<lambda>r. oaa_ID r = oaa_ID v)
          (\<lambda>r. r\<lparr>oaa_OutputID := oaa_OutputID v, oaa_Address := oaa_Address v,
                 oaa_TransactionID := oaa_TransactionID v,
                 oaa_OutputIndex := oaa_OutputIndex v, oaa_CreatedAt := oaa_CreatedAt v\<rparr>))"

definition UpdateOutputAddressAccumulateInOutputsProcessed :: "string \<Rightarrow> (database, unit) go" where
  "UpdateOutputAddressAccumulateInOutputsProcessed oid =
     ignore_dup TableOutputAddressAccumulateIn
       (sql_update output_addresses_accumulate_in output_addresses_accumulate_in_update
          OutputAddressAccumulate_clash
          (\<lambda>r. oaa_OutputID r = oid \<and> oaa_OutputProcessed r \<noteq> 1)
          (\<lambda>r. r\<lparr>oaa_OutputProcessed := 1\<rparr>))"

definition OutputTxsAccumulate_ComputeID :: "nodelib \<Rightarrow> OutputTxsAccumulate \<Rightarrow> OutputTxsAccumulate" where
  "OutputTxsAccumulate_ComputeID L b =
     (let idsv = ota_ChainID b @ '':'' @ ota_AssetID b @ '':'' @ ota_Address b @ '':'' @ ota_TransactionID b
      in b\<lparr>ota_ID := ID_String L (ComputeHash256Array L idsv)\<rparr>)"

definition QueryOutputTxsAccumulate :: "OutputTxsAccumulate \<Rightarrow> (database, OutputTxsAccumulate) go" where
  "QueryOutputTxsAccumulate q =
     sql_load_one output_txs_accumulate (\<lambda>r. ota_ID r = ota_ID q)
       (\<lambda>r. \<lparr>ota_ID = ota_ID r, ota_ChainID = ota_ChainID r,
             ota_AssetID = ota_AssetID r, ota_Address = ota_Address r,
             ota_TransactionID = ota_TransactionID r, ota_Processed = ota_Processed r,
             ota_CreatedAt = ota_CreatedAt r\<rparr>)"

definition InsertOutputTxsAccumulate :: "OutputTxsAccumulate \<Rightarrow> (database, unit) go" where
  "InsertOutputTxsAccumulate v =
     ignore_dup TableOutputTxsAccumulate
       (sql_insert output_txs_accumulate output_txs_accumulate_update OutputTxsAccumulate_clash
          \<lparr>ota_ID = ota_ID v, ota_ChainID = ota_ChainID v, ota_AssetID = ota_AssetID v,
           ota_Address = ota_Address v, ota_TransactionID = ota_TransactionID v,
           ota_Processed = 0, ota_CreatedAt = ota_CreatedAt v\<rparr>)"

definition AccumulateBalancesAmount_ComputeID :: "nodelib \<Rightarrow> AccumulateBalancesAmount \<Rightarrow> AccumulateBalancesAmount" where
  "AccumulateBalancesAmount_ComputeID L b =
     (let idsv = aba_ChainID b @ '':'' @ aba_AssetID b @ '':'' @ aba_Address b
      in b\<lparr>aba_ID := ID_String L (ComputeHash256Array L idsv)\<rparr>)"

definition QueryAccumulateBalancesReceived :: "AccumulateBalancesAmount \<Rightarrow> (database, AccumulateBalancesAmount) go" where
  "QueryAccumulateBalancesReceived q =
     sql_load_one accumulate_balances_received (\<lambda>r. aba_ID r = aba_ID q)
       (\<lambda>r. \<lparr>aba_ID = aba_ID r, aba_ChainID = aba_ChainID r,
             aba_AssetID = aba_AssetID r, aba_Address = aba_Address r,
             aba_TotalAmount = aba_TotalAmount r, aba_UtxoCount = aba_UtxoCount r,
             aba_UpdatedAt = aba_UpdatedAt r\<rparr>)"

definition InsertAccumulateBalancesReceived :: "AccumulateBalancesAmount \<Rightarrow> (database, unit) go" where
  "InsertAccumulateBalancesReceived v =
     ignore_dup TableAccumulateBalancesReceived
       (sql_insert accumulate_balances_received accumulate_balances_received_update AccumulateBalancesAmount_clash
          \<lparr>aba_ID = aba_ID v, aba_ChainID = aba_ChainID v, aba_AssetID = aba_AssetID v,
           aba_Address = aba_Address v, aba_TotalAmount = 0, aba_UtxoCount = 0,
           aba_UpdatedAt = aba_UpdatedAt v\<rparr>)"

definition QueryAccumulateBalancesSent :: "AccumulateBalancesAmount \<Rightarrow> (database, AccumulateBalancesAmount) go" where
  "QueryAccumulateBalancesSent q =
     sql_load_one accumulate_balances_sent (\<lambda>r. aba_ID r = aba_ID q)
       (\<lambda>r. \<lparr>aba_ID = aba_ID r, aba_ChainID = aba_ChainID r,
             aba_AssetID = aba_AssetID r, aba_Address = aba_Address r,
             aba_TotalAmount = aba_TotalAmount r, aba_UtxoCount = aba_UtxoCount r,
             aba_UpdatedAt = aba_UpdatedAt r\<rparr>)"

definition InsertAccumulateBalancesSent :: "AccumulateBalancesAmount \<Rightarrow> (database, unit) go" where
  "InsertAccumulateBalancesSent v =
     ignore_dup TableAccumulateBalancesSent
       (sql_insert accumulate_balances_sent accumulate_balances_sent_update AccumulateBalancesAmount_clash
          \<lparr>aba_ID = aba_ID v, aba_ChainID = aba_ChainID v, aba_AssetID = aba_AssetID v,
           aba_Address = aba_Address v, aba_TotalAmount = 0, aba_UtxoCount = 0,
           aba_UpdatedAt = aba_UpdatedAt v\<rparr>)"

definition AccumulateBalancesTransactions_ComputeID :: "nodelib \<Rightarrow> AccumulateBalancesTransactions \<Rightarrow> AccumulateBalancesTransactions" where
  "AccumulateBalancesTransactions_ComputeID L b =
     (let idsv = abt_ChainID b @ '':'' @ abt_AssetID b @ '':'' @ abt_Address b
      in b\<lparr>abt_ID := ID_String L (ComputeHash256Array L idsv)\<rparr>)"

definition QueryAccumulateBalancesTransactions :: "AccumulateBalancesTransactions \<Rightarrow> (database, AccumulateBalancesTransactions) go" where
  "QueryAccumulateBalancesTransactions q =
     sql_load_one accumulate_balances_transactions (\<lambda>r. abt_ID r = abt_ID q)
       (\<lambda>r. \<lparr>abt_ID = abt_ID r, abt_ChainID = abt_ChainID r,
             abt_AssetID = abt_AssetID r, abt_Address = abt_Address r,
             abt_TransactionCount = abt_TransactionCount r,
             abt_UpdatedAt = abt_UpdatedAt r\<rparr>)"

definition InsertAccumulateBalancesTransactions :: "AccumulateBalancesTransactions \<Rightarrow> (database, unit) go" where
  "InsertAccumulateBalancesTransactions v =
     ignore_dup TableAccumulateBalancesTransactions
       (sql_insert accumulate_balances_transactions accumulate_balances_transactions_update AccumulateBalancesTransactions_clash
          \<lparr>abt_ID = abt_ID v, abt_ChainID = abt_ChainID v, abt_AssetID = abt_AssetID v,
           abt_Address = abt_Address v, abt_TransactionCount = 0,
           abt_UpdatedAt = abt_UpdatedAt v\<rparr>)"

definition QueryTransactionsRewardsOwnersAddress :: "TransactionsRewardsOwnersAddress \<Rightarrow> (database, TransactionsRewardsOwnersAddress) go" where
  "QueryTransactionsRewardsOwnersAddress q =
     sql_load_one transactions_rewards_owners_address (\<lambda>r. roa_ID r = roa_ID q \<and> roa_Address r = roa_Address q)
       (\<lambda>r. \<lparr>roa_ID = roa_ID r, roa_Address = roa_Address r,
             roa_OutputIndex = roa_OutputIndex r, roa_UpdatedAt = roa_UpdatedAt r\<rparr>)"

definition InsertTransactionsRewardsOwnersAddress :: "TransactionsRewardsOwnersAddress \<Rightarrow> bool \<Rightarrow> (database, unit) go" where
  "InsertTransactionsRewardsOwnersAddress v upd =
     upsert TableTransactionsRewardsOwnersAddress
       (sql_insert transactions_rewards_owners_address transactions_rewards_owners_address_update TransactionsRewardsOwnersAddress_clash
          \<lparr>roa_ID = roa_ID v, roa_Address = roa_Address v,
           roa_OutputIndex = roa_OutputIndex v, roa_UpdatedAt = roa_UpdatedAt v\<rparr>)
       upd TableTransactionsRewardsOwnersAddress
       (sql_update transactions_rewards_owners_address transactions_rewards_owners_address_update TransactionsRewardsOwnersAddress_clash
          (\<lambda>r. roa_ID r = roa_ID v \<and> roa_Address r = roa_Address v)
          (\<lambda>r. r\<lparr>roa_OutputIndex := roa_OutputIndex v, roa_UpdatedAt := roa_UpdatedAt v\<rparr>))"

definition QueryTransactionsRewardsOwnersOutputs :: "TransactionsRewardsOwnersOutputs \<Rightarrow> (database, TransactionsRewardsOwnersOutputs) go" where
  "QueryTransactionsRewardsOwnersOutputs q =
     sql_load_one transactions_rewards_owners_outputs (\<lambda>r. roo_ID r = roo_ID q)
       (\<lambda>r. \<lparr>roo_ID = roo_ID r, roo_TransactionID = roo_TransactionID r,
             roo_OutputIndex = roo_OutputIndex r, roo_CreatedAt = roo_CreatedAt r\<rparr>)"

definition InsertTransactionsRewardsOwnersOutputs :: "TransactionsRewardsOwnersOutputs \<Rightarrow> bool \<Rightarrow> (database, unit) go" where
  "InsertTransactionsRewardsOwnersOutputs v upd =
     upsert TableTransactionsRewardsOwnersOutputs
       (sql_insert transactions_rewards_owners_outputs transactions_rewards_owners_outputs_update TransactionsRewardsOwnersOutputs_clash
          \<lparr>roo_ID = roo_ID v, roo_TransactionID = roo_TransactionID v,
           roo_OutputIndex = roo_OutputIndex v, roo_CreatedAt = roo_CreatedAt v\<rparr>)
       upd TableTransactionsRewardsOwnersOutputs
       (sql_update transactions_rewards_owners_outputs transactions_rewards_owners_outputs_update TransactionsRewardsOwnersOutputs_clash
          (\<lambda>r. roo_ID r = roo_ID v)
          (\<lambda>r. r\<lparr>roo_TransactionID := roo_TransactionID v,
                 roo_OutputIndex := roo_OutputIndex v, roo_CreatedAt := roo_CreatedAt v\<rparr>))"

definition QueryTransactionsRewardsOwners :: "TransactionsRewardsOwners \<Rightarrow> (database, TransactionsRewardsOwners) go" where
  "QueryTransactionsRewardsOwners q =
     sql_load_one transactions_rewards_owners (\<lambda>r. ro_ID r = ro_ID q)
       (\<lambda>r. \<lparr>ro_ID = ro_ID r, ro_ChainID = ro_ChainID r, ro_Threshold = ro_Threshold r,
             ro_Locktime = ro_Locktime r, ro_CreatedAt = ro_CreatedAt r\<rparr>)"

definition InsertTransactionsRewardsOwners :: "TransactionsRewardsOwners \<Rightarrow> bool \<Rightarrow> (database, unit) go" where
  "InsertTransactionsRewardsOwners v upd =
     upsert TableTransactionsRewardsOwners
       (sql_insert transactions_rewards_owners transactions_rewards_owners_update TransactionsRewardsOwners_clash
          \<lparr>ro_ID = ro_ID v, ro_ChainID = ro_ChainID v, ro_Threshold = ro_Threshold v,
           ro_Locktime = ro_Locktime v, ro_CreatedAt = ro_CreatedAt v\<rparr>)
       upd TableTransactionsRewardsOwners
       (sql_update transactions_rewards_owners transactions_rewards_owners_update TransactionsRewardsOwners_clash
          (\<lambda>r. ro_ID r = ro_ID v)
          (\<lambda>r. r\<lparr>ro_ChainID := ro_ChainID v, ro_Locktime := ro_Locktime v,
                 ro_Threshold := ro_Threshold v, ro_CreatedAt := ro_CreatedAt v\<rparr>))"

definition TxPool_ComputeID :: "nodelib \<Rightarrow> TxPool \<Rightarrow> TxPool" where
  "TxPool_ComputeID L b =
     (let idsv = tp_MsgKey b @ '':'' @ tp_Topic b
      in b\<lparr>tp_ID := ID_String L (ComputeHash256Array L idsv)\<rparr>)"

definition QueryTxPool :: "TxPool \<Rightarrow> (database, TxPool) go" where
  "QueryTxPool q =
     sql_load_one tx_pool (\<lambda>r. tp_ID r = tp_ID q)
       (\<lambda>r. \<lparr>tp_ID = tp_ID r, tp_NetworkID = tp_NetworkID r, tp_ChainID = tp_ChainID r,
             tp_MsgKey = tp_MsgKey r, tp_Serialization = tp_Serialization r,
             tp_Topic = tp_Topic r, tp_CreatedAt = tp_CreatedAt r\<rparr>)"

definition InsertTxPool :: "TxPool \<Rightarrow> (database, unit) go" where
  "InsertTxPool v =
     ignore_dup TableTxPool
       (sql_insert tx_pool tx_pool_update TxPool_clash
          \<lparr>tp_ID = tp_ID v, tp_NetworkID = tp_NetworkID v, tp_ChainID = tp_ChainID v,
           tp_MsgKey = tp_MsgKey v, tp_Serialization = tp_Serialization v,
           tp_Topic = tp_Topic v, tp_CreatedAt = tp_CreatedAt v\<rparr>)"

definition RemoveTxPool :: "TxPool \<Rightarrow> (database, unit) go" where
  "RemoveTxPool v =
     ignore_dup TableTxPool (sql_delete tx_pool_update (\<lambda>r. tp_ID r = tp_ID v))"

definition QueryKeyValueStore :: "KeyValueStore \<Rightarrow> (database, KeyValueStore) go" where
  "QueryKeyValueStore q =
     sql_load_one key_value_store (\<lambda>r. kv_K r = kv_K q)
       (\<lambda>r. \<lparr>kv_K = kv_K r, kv_V = kv_V r\<rparr>)"

definition InsertKeyValueStore :: "KeyValueStore \<Rightarrow> (database, unit) go" where
  "InsertKeyValueStore v =
     ignore_dup TableKeyValueStore
       (sql_insert key_value_store key_value_store_update KeyValueStore_clash
          \<lparr>kv_K = kv_K v, kv_V = kv_V v\<rparr>)"

definition QueryNodeIndex :: "NodeIndex \<Rightarrow> (database, NodeIndex) go" where
  "QueryNodeIndex q =
     sql_load_one node_index (\<lambda>r. ni_Instance r = ni_Instance q \<and> ni_Topic r = ni_Topic q)
       (\<lambda>r. \<lparr>ni_Instance = ni_Instance r, ni_Topic = ni_Topic r, ni_Idx = ni_Idx r\<rparr>)"

definition InsertNodeIndex :: "NodeIndex \<Rightarrow> bool \<Rightarrow> (database, unit) go" where
  "InsertNodeIndex v upd =
     upsert TableNodeIndex
       (sql_insert node_index node_index_update NodeIndex_clash
          \<lparr>ni_Instance = ni_Instance v, ni_Topic = ni_Topic v, ni_Idx = ni_Idx v\<rparr>)
       upd TableNodeIndex
       (sql_update node_index node_index_update NodeIndex_clash
          (\<lambda>r. ni_Instance r = ni_Instance v \<and> ni_Topic r = ni_Topic v)
          (\<lambda>r. r\<lparr>ni_Idx := ni_Idx v\<rparr>))"

definition UpdateNodeIndex :: "NodeIndex \<Rightarrow> (database, unit) go" where
  "UpdateNodeIndex v =
     wrap_err TableNodeIndex True
       (sql_update node_index node_index_update NodeIndex_clash
          (\<lambda>r. ni_Instance r = ni_Instance v \<and> ni_Topic r = ni_Topic v)
          (\<lambda>r. r\<lparr>ni_Idx := ni_Idx v\<rparr>))"

definition CvmLogs_ComputeID :: "nodelib \<Rightarrow> CvmLogs \<Rightarrow> CvmLogs" where
  "CvmLogs_ComputeID L b =
     (let idsv = cl_BlockHash b @ '':'' @ cl_TxHash b @ '':'' @ dec_nat (unat (cl_LogIndex b))
      in b\<lparr>cl_ID := ID_String L (ComputeHash256Array L idsv)\<rparr>)"

section \<open>All writing operations at once\<close>

datatype persist_call =
  CallInsertTransactions Transactions bool
| CallInsertOutputsRedeeming OutputsRedeeming bool
| CallInsertOutputs Outputs bool
| CallInsertAssets Assets bool
| CallInsertAddresses Addresses bool
| CallInsertAddressChain AddressChain bool
| CallInsertOutputAddresses OutputAddresses bool
| CallUpdateOutputAddresses OutputAddresses
| CallInsertTransactionsEpoch TransactionsEpoch bool
| CallInsertCvmBlocks CvmBlocks
| CallInsertCamLastBlockCache CamLastBlockCache bool
| CallInsertCvmAddresses CvmAddresses bool
| CallInsertCvmTransactionsAtomic CvmTransactionsAtomic bool
| CallInsertCvmTransactionsTxdata CvmTransactionsTxdata bool
| CallInsertCvmAccount CvmAccount bool
| CallInsertPvmBlocks PvmBlocks bool
| CallInsertRewards Rewards bool
| CallUpdateRewardsProcessed Rewards
| CallInsertTransactionsValidator TransactionsValidator bool
| CallInsertTransactionsBlock TransactionsBlock bool
| CallInsertAddressBech32 AddressBech32 bool
| CallInsertOutputAddressAccumulateOut OutputAddressAccumulate bool
| CallInsertOutputAddressAccumulateIn OutputAddressAccumulate bool
| CallUpdateOutputAddressAccumulateInOutputsProcessed string
| CallInsertOutputTxsAccumulate OutputTxsAccumulate
| CallInsertAccumulateBalancesReceived AccumulateBalancesAmount
| CallInsertAccumulateBalancesSent AccumulateBalancesAmount
| CallInsertAccumulateBalancesTransactions AccumulateBalancesTransactions
| CallInsertTransactionsRewardsOwnersAddress TransactionsRewardsOwnersAddress bool
| CallInsertTransactionsRewardsOwnersOutputs TransactionsRewardsOwnersOutputs bool
| CallInsertTransactionsRewardsOwners TransactionsRewardsOwners bool
| CallInsertTxPool TxPool
| CallRemoveTxPool TxPool
| CallInsertKeyValueStore KeyValueStore
| CallInsertNodeIndex NodeIndex bool
| CallUpdateNodeIndex NodeIndex

primrec run_call :: "persist_call \<Rightarrow> (database, unit) go" where
  "run_call (CallInsertTransactions v upd) = InsertTransactions v upd"
| "run_call (CallInsertOutputsRedeeming v upd) = InsertOutputsRedeeming v upd"
| "run_call (CallInsertOutputs v upd) = InsertOutputs v upd"
| "run_call (CallInsertAssets v upd) = InsertAssets v upd"
| "run_call (CallInsertAddresses v upd) = InsertAddresses v upd"
| "run_call (CallInsertAddressChain v upd) = InsertAddressChain v upd"
| "run_call (CallInsertOutputAddresses v upd) = InsertOutputAddresses v upd"
| "run_call (CallUpdateOutputAddresses v) = UpdateOutputAddresses v"
| "run_call (CallInsertTransactionsEpoch v upd) = InsertTransactionsEpoch v upd"
| "run_call (CallInsertCvmBlocks v) = InsertCvmBlocks v"
| "run_call (CallInsertCamLastBlockCache v upd) = InsertCamLastBlockCache v upd"
| "run_call (CallInsertCvmAddresses v upd) = InsertCvmAddresses v upd"
| "run_call (CallInsertCvmTransactionsAtomic v upd) = InsertCvmTransactionsAtomic v upd"
| "run_call (CallInsertCvmTransactionsTxdata v upd) = InsertCvmTransactionsTxdata v upd"
| "run_call (CallInsertCvmAccount v upd) = InsertCvmAccount v upd"
| "run_call (CallInsertPvmBlocks v upd) = InsertPvmBlocks v upd"
| "run_call (CallInsertRewards v upd) = InsertRewards v upd"
| "run_call (CallUpdateRewardsProcessed v) = UpdateRewardsProcessed v"
| "run_call (CallInsertTransactionsValidator v upd) = InsertTransactionsValidator v upd"
| "run_call (CallInsertTransactionsBlock v upd) = InsertTransactionsBlock v upd"
| "run_call (CallInsertAddressBech32 v upd) = InsertAddressBech32 v upd"
| "run_call (CallInsertOutputAddressAccumulateOut v upd) = InsertOutputAddressAccumulateOut v upd"
| "run_call (CallInsertOutputAddressAccumulateIn v upd) = InsertOutputAddressAccumulateIn v upd"
| "run_call (CallUpdateOutputAddressAccumulateInOutputsProcessed v) = UpdateOutputAddressAccumulateInOutputsProcessed v"
| "run_call (CallInsertOutputTxsAccumulate v) = InsertOutputTxsAccumulate v"
| "run_call (CallInsertAccumulateBalancesReceived v) = InsertAccumulateBalancesReceived v"
| "run_call (CallInsertAccumulateBalancesSent v) = InsertAccumulateBalancesSent v"
| "run_call (CallInsertAccumulateBalancesTransactions v) = InsertAccumulateBalancesTransactions v"
| "run_call (CallInsertTransactionsRewardsOwnersAddress v upd) = InsertTransactionsRewardsOwnersAddress v upd"
| "run_call (CallInsertTransactionsRewardsOwnersOutputs v upd) = InsertTransactionsRewardsOwnersOutputs v upd"
| "run_call (CallInsertTransactionsRewardsOwners v upd) = InsertTransactionsRewardsOwners v upd"
| "run_call (CallInsertTxPool v) = InsertTxPool v"
| "run_call (CallRemoveTxPool v) = RemoveTxPool v"
| "run_call (CallInsertKeyValueStore v) = InsertKeyValueStore v"
| "run_call (CallInsertNodeIndex v upd) = InsertNodeIndex v upd"
| "run_call (CallUpdateNodeIndex v) = UpdateNodeIndex v"

text \<open>Whether a call may overwrite a row of the ledger.\<close>

fun rewrites_ledger :: "persist_call \<Rightarrow> bool" where
  "rewrites_ledger (CallInsertTransactions v upd) = upd"
| "rewrites_ledger (CallInsertOutputsRedeeming v upd) = upd"
| "rewrites_ledger (CallInsertOutputs v upd) = upd"
| "rewrites_ledger (CallInsertAssets v upd) = upd"
| "rewrites_ledger (CallInsertAddresses v upd) = upd"
| "rewrites_ledger (CallInsertAddressChain v upd) = upd"
| "rewrites_ledger (CallInsertTransactionsEpoch v upd) = upd"
| "rewrites_ledger (CallInsertCvmAddresses v upd) = upd"
| "rewrites_ledger (CallInsertCvmTransactionsAtomic v upd) = upd"
| "rewrites_ledger (CallInsertCvmTransactionsTxdata v upd) = upd"
| "rewrites_ledger (CallInsertPvmBlocks v upd) = upd"
| "rewrites_ledger (CallInsertTransactionsValidator v upd) = upd"
| "rewrites_ledger (CallInsertTransactionsBlock v upd) = upd"
| "rewrites_ledger (CallInsertAddressBech32 v upd) = upd"
| "rewrites_ledger (CallInsertTransactionsRewardsOwnersAddress v upd) = upd"
| "rewrites_ledger (CallInsertTransactionsRewardsOwnersOutputs v upd) = upd"
| "rewrites_ledger (CallInsertTransactionsRewardsOwners v upd) = upd"
| "rewrites_ledger _ = False"

text \<open>Rows are only ever added under fresh keys, and an update that would break a key is
  refused.\<close>

lemma InsertTransactions_ok [steps_intros]: "steps (on_store keeps_ok) (InsertTransactions v upd)"
  unfolding InsertTransactions_def
  by (intro ok.steps_upsert ok.steps_ignore_dup ok.steps_wrap_err ok.steps_if
        ok.steps_sql_insert ok.steps_sql_update ok.steps_sql_delete)
     (simp_all add: keeps_ok_def db_ok_def uniq_filter avm_transactions_tbl.snoc_uniq)

lemma InsertOutputsRedeeming_ok [steps_intros]: "steps (on_store keeps_ok) (InsertOutputsRedeeming v upd)"
  unfolding InsertOutputsRedeeming_def
  by (intro ok.steps_upsert ok.steps_ignore_dup ok.steps_wrap_err ok.steps_if
        ok.steps_sql_insert ok.steps_sql_update ok.steps_sql_delete)
     (simp_all add: keeps_ok_def db_ok_def uniq_filter avm_outputs_redeeming_tbl.snoc_uniq)

lemma InsertOutputs_ok [steps_intros]: "steps (on_store keeps_ok) (InsertOutputs v upd)"
  unfolding InsertOutputs_def
  by (intro ok.steps_upsert ok.steps_ignore_dup ok.steps_wrap_err ok.steps_if
        ok.steps_sql_insert ok.steps_sql_update ok.steps_sql_delete)
     (simp_all add: keeps_ok_def db_ok_def uniq_filter avm_outputs_tbl.snoc_uniq)

lemma InsertAssets_ok [steps_intros]: "steps (on_store keeps_ok) (InsertAssets v upd)"
  unfolding InsertAssets_def
  by (intro ok.steps_upsert ok.steps_ignore_dup ok.steps_wrap_err ok.steps_if
        ok.steps_sql_insert ok.steps_sql_update ok.steps_sql_delete)
     (simp_all add: keeps_ok_def db_ok_def uniq_filter avm_assets_tbl.snoc_uniq)

lemma InsertAddresses_ok [steps_intros]: "steps (on_store keeps_ok) (InsertAddresses v upd)"
  unfolding InsertAddresses_def
  by (intro ok.steps_upsert ok.steps_ignore_dup ok.steps_wrap_err ok.steps_if
        ok.steps_sql_insert ok.steps_sql_update ok.steps_sql_delete)
     (simp_all add: keeps_ok_def db_ok_def uniq_filter addresses_tbl.snoc_uniq)

lemma InsertAddressChain_ok [steps_intros]: "steps (on_store keeps_ok) (InsertAddressChain v upd)"
  unfolding InsertAddressChain_def
  by (intro ok.steps_upsert ok.steps_ignore_dup ok.steps_wrap_err ok.steps_if
        ok.steps_sql_insert ok.steps_sql_update ok.steps_sql_delete)
     (simp_all add: keeps_ok_def db_ok_def uniq_filter address_chain_tbl.snoc_uniq)

lemma InsertOutputAddresses_ok [steps_intros]: "steps (on_store keeps_ok) (InsertOutputAddresses v upd)"
  unfolding InsertOutputAddresses_def
  by (intro ok.steps_upsert ok.steps_ignore_dup ok.steps_wrap_err ok.steps_if
        ok.steps_sql_insert ok.steps_sql_update ok.steps_sql_delete)
     (simp_all add: keeps_ok_def db_ok_def uniq_filter avm_output_addresses_tbl.snoc_uniq)

lemma UpdateOutputAddresses_ok [steps_intros]: "steps (on_store keeps_ok) (UpdateOutputAddresses v)"
  unfolding UpdateOutputAddresses_def
  by (intro ok.steps_upsert ok.steps_ignore_dup ok.steps_wrap_err ok.steps_if
        ok.steps_sql_insert ok.steps_sql_update ok.steps_sql_delete)
     (simp_all add: keeps_ok_def db_ok_def uniq_filter avm_output_addresses_tbl.snoc_uniq)

lemma InsertTransactionsEpoch_ok [steps_intros]: "steps (on_store keeps_ok) (InsertTransactionsEpoch v upd)"
  unfolding InsertTransactionsEpoch_def
  by (intro ok.steps_upsert ok.steps_ignore_dup ok.steps_wrap_err ok.steps_if
        ok.steps_sql_insert ok.steps_sql_update ok.steps_sql_delete)
     (simp_all add: keeps_ok_def db_ok_def uniq_filter transactions_epoch_tbl.snoc_uniq)

lemma InsertCvmBlocks_ok [steps_intros]: "steps (on_store keeps_ok) (InsertCvmBlocks v)"
  unfolding InsertCvmBlocks_def
  by (intro ok.steps_upsert ok.steps_ignore_dup ok.steps_wrap_err ok.steps_if
        ok.steps_sql_insert ok.steps_sql_update ok.steps_sql_delete)
     (simp_all add: keeps_ok_def db_ok_def uniq_filter cvm_blocks_tbl.snoc_uniq)

lemma InsertCamLastBlockCache_ok [steps_intros]: "steps (on_store keeps_ok) (InsertCamLastBlockCache v upd)"
  unfolding InsertCamLastBlockCache_def
  by (intro ok.steps_upsert ok.steps_ignore_dup ok.steps_wrap_err ok.steps_if
        ok.steps_sql_insert ok.steps_sql_update ok.steps_sql_delete)
     (simp_all add: keeps_ok_def db_ok_def uniq_filter)

lemma InsertCvmAddresses_ok [steps_intros]: "steps (on_store keeps_ok) (InsertCvmAddresses v upd)"
  unfolding InsertCvmAddresses_def
  by (intro ok.steps_upsert ok.steps_ignore_dup ok.steps_wrap_err ok.steps_if
        ok.steps_sql_insert ok.steps_sql_update ok.steps_sql_delete)
     (simp_all add: keeps_ok_def db_ok_def uniq_filter cvm_addresses_tbl.snoc_uniq)

lemma InsertCvmTransactionsAtomic_ok [steps_intros]: "steps (on_store keeps_ok) (InsertCvmTransactionsAtomic v upd)"
  unfolding InsertCvmTransactionsAtomic_def
  by (intro ok.steps_upsert ok.steps_ignore_dup ok.steps_wrap_err ok.steps_if
        ok.steps_sql_insert ok.steps_sql_update ok.steps_sql_delete)
     (simp_all add: keeps_ok_def db_ok_def uniq_filter cvm_transactions_atomic_tbl.snoc_uniq)

lemma InsertPvmBlocks_ok [steps_intros]: "steps (on_store keeps_ok) (InsertPvmBlocks v upd)"
  unfolding InsertPvmBlocks_def
  by (intro ok.steps_upsert ok.steps_ignore_dup ok.steps_wrap_err ok.steps_if
        ok.steps_sql_insert ok.steps_sql_update ok.steps_sql_delete)
     (simp_all add: keeps_ok_def db_ok_def uniq_filter pvm_blocks_tbl.snoc_uniq)

lemma InsertRewards_ok [steps_intros]: "steps (on_store keeps_ok) (InsertRewards v upd)"
  unfolding InsertRewards_def
  by (intro ok.steps_upsert ok.steps_ignore_dup ok.steps_wrap_err ok.steps_if
        ok.steps_sql_insert ok.steps_sql_update ok.steps_sql_delete)
     (simp_all add: keeps_ok_def db_ok_def uniq_filter rewards_tbl.snoc_uniq)

lemma UpdateRewardsProcessed_ok [steps_intros]: "steps (on_store keeps_ok) (UpdateRewardsProcessed v)"
  unfolding UpdateRewardsProcessed_def
  by (intro ok.steps_upsert ok.steps_ignore_dup ok.steps_wrap_err ok.steps_if
        ok.steps_sql_insert ok.steps_sql_update ok.steps_sql_delete)
     (simp_all add: keeps_ok_def db_ok_def uniq_filter rewards_tbl.snoc_uniq)

lemma InsertTransactionsValidator_ok [steps_intros]: "steps (on_store keeps_ok) (InsertTransactionsValidator v upd)"
  unfolding InsertTransactionsValidator_def
  by (intro ok.steps_upsert ok.steps_ignore_dup ok.steps_wrap_err ok.steps_if
        ok.steps_sql_insert ok.steps_sql_update ok.steps_sql_delete)
     (simp_all add: keeps_ok_def db_ok_def uniq_filter transactions_validator_tbl.snoc_uniq)

lemma InsertTransactionsBlock_ok [steps_intros]: "steps (on_store keeps_ok) (InsertTransactionsBlock v upd)"
  unfolding InsertTransactionsBlock_def
  by (intro ok.steps_upsert ok.steps_ignore_dup ok.steps_wrap_err ok.steps_if
        ok.steps_sql_insert ok.steps_sql_update ok.steps_sql_delete)
     (simp_all add: keeps_ok_def db_ok_def uniq_filter transactions_block_tbl.snoc_uniq)

lemma InsertAddressBech32_ok [steps_intros]: "steps (on_store keeps_ok) (InsertAddressBech32 v upd)"
  unfolding InsertAddressBech32_def
  by (intro ok.steps_upsert ok.steps_ignore_dup ok.steps_wrap_err ok.steps_if
        ok.steps_sql_insert ok.steps_sql_update ok.steps_sql_delete)
     (simp_all add: keeps_ok_def db_ok_def uniq_filter addresses_bech32_tbl.snoc_uniq)

lemma InsertOutputAddressAccumulateOut_ok [steps_intros]: "steps (on_store keeps_ok) (InsertOutputAddressAccumulateOut v upd)"
  unfolding InsertOutputAddressAccumulateOut_def
  by (intro ok.steps_upsert ok.steps_ignore_dup ok.steps_wrap_err ok.steps_if
        ok.steps_sql_insert ok.steps_sql_update ok.steps_sql_delete)
     (simp_all add: keeps_ok_def db_ok_def uniq_filter output_addresses_accumulate_out_tbl.snoc_uniq)

lemma InsertOutputAddressAccumulateIn_ok [steps_intros]: "steps (on_store keeps_ok) (InsertOutputAddressAccumulateIn v upd)"
  unfolding InsertOutputAddressAccumulateIn_def
  by (intro ok.steps_upsert ok.steps_ignore_dup ok.steps_wrap_err ok.steps_if
        ok.steps_sql_insert ok.steps_sql_update ok.steps_sql_delete)
     (simp_all add: keeps_ok_def db_ok_def uniq_filter output_addresses_accumulate_in_tbl.snoc_uniq)

lemma UpdateOutputAddressAccumulateInOutputsProcessed_ok [steps_intros]: "steps (on_store keeps_ok) (UpdateOutputAddressAccumulateInOutputsProcessed v)"
  unfolding UpdateOutputAddressAccumulateInOutputsProcessed_def
  by (intro ok.steps_upsert ok.steps_ignore_dup ok.steps_wrap_err ok.steps_if
        ok.steps_sql_insert ok.steps_sql_update ok.steps_sql_delete)
     (simp_all add: keeps_ok_def db_ok_def uniq_filter output_addresses_accumulate_in_tbl.snoc_uniq)

lemma InsertOutputTxsAccumulate_ok [steps_intros]: "steps (on_store keeps_ok) (InsertOutputTxsAccumulate v)"
  unfolding InsertOutputTxsAccumulate_def
  by (intro ok.steps_upsert ok.steps_ignore_dup ok.steps_wrap_err ok.steps_if
        ok.steps_sql_insert ok.steps_sql_update ok.steps_sql_delete)
     (simp_all add: keeps_ok_def db_ok_def uniq_filter output_txs_accumulate_tbl.snoc_uniq)

lemma InsertAccumulateBalancesReceived_ok [steps_intros]: "steps (on_store keeps_ok) (InsertAccumulateBalancesReceived v)"
  unfolding InsertAccumulateBalancesReceived_def
  by (intro ok.steps_upsert ok.steps_ignore_dup ok.steps_wrap_err ok.steps_if
        ok.steps_sql_insert ok.steps_sql_update ok.steps_sql_delete)
     (simp_all add: keeps_ok_def db_ok_def uniq_filter accumulate_balances_received_tbl.snoc_uniq)

lemma InsertAccumulateBalancesSent_ok [steps_intros]: "steps (on_store keeps_ok) (InsertAccumulateBalancesSent v)"
  unfolding InsertAccumulateBalancesSent_def
  by (intro ok.steps_upsert ok.steps_ignore_dup ok.steps_wrap_err ok.steps_if
        ok.steps_sql_insert ok.steps_sql_update ok.steps_sql_delete)
     (simp_all add: keeps_ok_def db_ok_def uniq_filter accumulate_balances_sent_tbl.snoc_uniq)

lemma InsertAccumulateBalancesTransactions_ok [steps_intros]: "steps (on_store keeps_ok) (InsertAccumulateBalancesTransactions v)"
  unfolding InsertAccumulateBalancesTransactions_def
  by (intro ok.steps_upsert ok.steps_ignore_dup ok.steps_wrap_err ok.steps_if
        ok.steps_sql_insert ok.steps_sql_update ok.steps_sql_delete)
     (simp_all add: keeps_ok_def db_ok_def uniq_filter accumulate_balances_transactions_tbl.snoc_uniq)

lemma InsertTransactionsRewardsOwnersAddress_ok [steps_intros]: "steps (on_store keeps_ok) (InsertTransactionsRewardsOwnersAddress v upd)"
  unfolding InsertTransactionsRewardsOwnersAddress_def
  by (intro ok.steps_upsert ok.steps_ignore_dup ok.steps_wrap_err ok.steps_if
        ok.steps_sql_insert ok.steps_sql_update ok.steps_sql_delete)
     (simp_all add: keeps_ok_def db_ok_def uniq_filter transactions_rewards_owners_address_tbl.snoc_uniq)

lemma InsertTransactionsRewardsOwnersOutputs_ok [steps_intros]: "steps (on_store keeps_ok) (InsertTransactionsRewardsOwnersOutputs v upd)"
  unfolding InsertTransactionsRewardsOwnersOutputs_def
  by (intro ok.steps_upsert ok.steps_ignore_dup ok.steps_wrap_err ok.steps_if
        ok.steps_sql_insert ok.steps_sql_update ok.steps_sql_delete)
     (simp_all add: keeps_ok_def db_ok_def uniq_filter transactions_rewards_owners_outputs_tbl.snoc_uniq)

lemma InsertTransactionsRewardsOwners_ok [steps_intros]: "steps (on_store keeps_ok) (InsertTransactionsRewardsOwners v upd)"
  unfolding InsertTransactionsRewardsOwners_def
  by (intro ok.steps_upsert ok.steps_ignore_dup ok.steps_wrap_err ok.steps_if
        ok.steps_sql_insert ok.steps_sql_update ok.steps_sql_delete)
     (simp_all add: keeps_ok_def db_ok_def uniq_filter transactions_rewards_owners_tbl.snoc_uniq)

lemma InsertTxPool_ok [steps_intros]: "steps (on_store keeps_ok) (InsertTxPool v)"
  unfolding InsertTxPool_def
  by (intro ok.steps_upsert ok.steps_ignore_dup ok.steps_wrap_err ok.steps_if
        ok.steps_sql_insert ok.steps_sql_update ok.steps_sql_delete)
     (simp_all add: keeps_ok_def db_ok_def uniq_filter tx_pool_tbl.snoc_uniq)

lemma RemoveTxPool_ok [steps_intros]: "steps (on_store keeps_ok) (RemoveTxPool v)"
  unfolding RemoveTxPool_def
  by (intro ok.steps_upsert ok.steps_ignore_dup ok.steps_wrap_err ok.steps_if
        ok.steps_sql_insert ok.steps_sql_update ok.steps_sql_delete)
     (simp_all add: keeps_ok_def db_ok_def uniq_filter tx_pool_tbl.snoc_uniq)

lemma InsertKeyValueStore_ok [steps_intros]: "steps (on_store keeps_ok) (InsertKeyValueStore v)"
  unfolding InsertKeyValueStore_def
  by (intro ok.steps_upsert ok.steps_ignore_dup ok.steps_wrap_err ok.steps_if
        ok.steps_sql_insert ok.steps_sql_update ok.steps_sql_delete)
     (simp_all add: keeps_ok_def db_ok_def uniq_filter key_value_store_tbl.snoc_uniq)

lemma InsertNodeIndex_ok [steps_intros]: "steps (on_store keeps_ok) (InsertNodeIndex v upd)"
  unfolding InsertNodeIndex_def
  by (intro ok.steps_upsert ok.steps_ignore_dup ok.steps_wrap_err ok.steps_if
        ok.steps_sql_insert ok.steps_sql_update ok.steps_sql_delete)
     (simp_all add: keeps_ok_def db_ok_def uniq_filter node_index_tbl.snoc_uniq)

lemma UpdateNodeIndex_ok [steps_intros]: "steps (on_store keeps_ok) (UpdateNodeIndex v)"
  unfolding UpdateNodeIndex_def
  by (intro ok.steps_upsert ok.steps_ignore_dup ok.steps_wrap_err ok.steps_if
        ok.steps_sql_insert ok.steps_sql_update ok.steps_sql_delete)
     (simp_all add: keeps_ok_def db_ok_def uniq_filter node_index_tbl.snoc_uniq)

lemma InsertTransactions_grows [steps_intros]: "steps (on_store grows) (InsertTransactions v False)"
  unfolding InsertTransactions_def
  by (intro grow.steps_upsert grow.steps_ignore_dup grow.steps_wrap_err grow.steps_if
        grow.steps_sql_insert grow.steps_sql_update grow.steps_sql_delete)
     (simp_all add: grows_def map_upd_rows)

lemma InsertOutputsRedeeming_grows [steps_intros]: "steps (on_store grows) (InsertOutputsRedeeming v False)"
  unfolding InsertOutputsRedeeming_def
  by (intro grow.steps_upsert grow.steps_ignore_dup grow.steps_wrap_err grow.steps_if
        grow.steps_sql_insert grow.steps_sql_update grow.steps_sql_delete)
     (simp_all add: grows_def map_upd_rows)

lemma InsertOutputs_grows [steps_intros]: "steps (on_store grows) (InsertOutputs v False)"
  unfolding InsertOutputs_def
  by (intro grow.steps_upsert grow.steps_ignore_dup grow.steps_wrap_err grow.steps_if
        grow.steps_sql_insert grow.steps_sql_update grow.steps_sql_delete)
     (simp_all add: grows_def map_upd_rows)

lemma InsertAssets_grows [steps_intros]: "steps (on_store grows) (InsertAssets v False)"
  unfolding InsertAssets_def
  by (intro grow.steps_upsert grow.steps_ignore_dup grow.steps_wrap_err grow.steps_if
        grow.steps_sql_insert grow.steps_sql_update grow.steps_sql_delete)
     (simp_all add: grows_def map_upd_rows)

lemma InsertAddresses_grows [steps_intros]: "steps (on_store grows) (InsertAddresses v False)"
  unfolding InsertAddresses_def
  by (intro grow.steps_upsert grow.steps_ignore_dup grow.steps_wrap_err grow.steps_if
        grow.steps_sql_insert grow.steps_sql_update grow.steps_sql_delete)
     (simp_all add: grows_def map_upd_rows)

lemma InsertAddressChain_grows [steps_intros]: "steps (on_store grows) (InsertAddressChain v False)"
  unfolding InsertAddressChain_def
  by (intro grow.steps_upsert grow.steps_ignore_dup grow.steps_wrap_err grow.steps_if
        grow.steps_sql_insert grow.steps_sql_update grow.steps_sql_delete)
     (simp_all add: grows_def map_upd_rows)

lemma InsertOutputAddresses_grows [steps_intros]: "steps (on_store grows) (InsertOutputAddresses v upd)"
  unfolding InsertOutputAddresses_def
  by (intro grow.steps_upsert grow.steps_ignore_dup grow.steps_wrap_err grow.steps_if
        grow.steps_sql_insert grow.steps_sql_update grow.steps_sql_delete)
     (simp_all add: grows_def map_upd_rows)

lemma UpdateOutputAddresses_grows [steps_intros]: "steps (on_store grows) (UpdateOutputAddresses v)"
  unfolding UpdateOutputAddresses_def
  by (intro grow.steps_upsert grow.steps_ignore_dup grow.steps_wrap_err grow.steps_if
        grow.steps_sql_insert grow.steps_sql_update grow.steps_sql_delete)
     (simp_all add: grows_def map_upd_rows)

lemma InsertTransactionsEpoch_grows [steps_intros]: "steps (on_store grows) (InsertTransactionsEpoch v False)"
  unfolding InsertTransactionsEpoch_def
  by (intro grow.steps_upsert grow.steps_ignore_dup grow.steps_wrap_err grow.steps_if
        grow.steps_sql_insert grow.steps_sql_update grow.steps_sql_delete)
     (simp_all add: grows_def map_upd_rows)

lemma InsertCvmBlocks_grows [steps_intros]: "steps (on_store grows) (InsertCvmBlocks v)"
  unfolding InsertCvmBlocks_def
  by (intro grow.steps_upsert grow.steps_ignore_dup grow.steps_wrap_err grow.steps_if
        grow.steps_sql_insert grow.steps_sql_update grow.steps_sql_delete)
     (simp_all add: grows_def map_upd_rows)

lemma InsertCamLastBlockCache_grows [steps_intros]: "steps (on_store grows) (InsertCamLastBlockCache v upd)"
  unfolding InsertCamLastBlockCache_def
  by (intro grow.steps_upsert grow.steps_ignore_dup grow.steps_wrap_err grow.steps_if
        grow.steps_sql_insert grow.steps_sql_update grow.steps_sql_delete)
     (simp_all add: grows_def map_upd_rows)

lemma InsertCvmAddresses_grows [steps_intros]: "steps (on_store grows) (InsertCvmAddresses v False)"
  unfolding InsertCvmAddresses_def
  by (intro grow.steps_upsert grow.steps_ignore_dup grow.steps_wrap_err grow.steps_if
        grow.steps_sql_insert grow.steps_sql_update grow.steps_sql_delete)
     (simp_all add: grows_def map_upd_rows)

lemma InsertCvmTransactionsAtomic_grows [steps_intros]: "steps (on_store grows) (InsertCvmTransactionsAtomic v False)"
  unfolding InsertCvmTransactionsAtomic_def
  by (intro grow.steps_upsert grow.steps_ignore_dup grow.steps_wrap_err grow.steps_if
        grow.steps_sql_insert grow.steps_sql_update grow.steps_sql_delete)
     (simp_all add: grows_def map_upd_rows)

lemma InsertPvmBlocks_grows [steps_intros]: "steps (on_store grows) (InsertPvmBlocks v False)"
  unfolding InsertPvmBlocks_def
  by (intro grow.steps_upsert grow.steps_ignore_dup grow.steps_wrap_err grow.steps_if
        grow.steps_sql_insert grow.steps_sql_update grow.steps_sql_delete)
     (simp_all add: grows_def map_upd_rows)

lemma InsertRewards_grows [steps_intros]: "steps (on_store grows) (InsertRewards v upd)"
  unfolding InsertRewards_def
  by (intro grow.steps_upsert grow.steps_ignore_dup grow.steps_wrap_err grow.steps_if
        grow.steps_sql_insert grow.steps_sql_update grow.steps_sql_delete)
     (simp_all add: grows_def map_upd_rows)

lemma UpdateRewardsProcessed_grows [steps_intros]: "steps (on_store grows) (UpdateRewardsProcessed v)"
  unfolding UpdateRewardsProcessed_def
  by (intro grow.steps_upsert grow.steps_ignore_dup grow.steps_wrap_err grow.steps_if
        grow.steps_sql_insert grow.steps_sql_update grow.steps_sql_delete)
     (simp_all add: grows_def map_upd_rows)

lemma InsertTransactionsValidator_grows [steps_intros]: "steps (on_store grows) (InsertTransactionsValidator v False)"
  unfolding InsertTransactionsValidator_def
  by (intro grow.steps_upsert grow.steps_ignore_dup grow.steps_wrap_err grow.steps_if
        grow.steps_sql_insert grow.steps_sql_update grow.steps_sql_delete)
     (simp_all add: grows_def map_upd_rows)

lemma InsertTransactionsBlock_grows [steps_intros]: "steps (on_store grows) (InsertTransactionsBlock v False)"
  unfolding InsertTransactionsBlock_def
  by (intro grow.steps_upsert grow.steps_ignore_dup grow.steps_wrap_err grow.steps_if
        grow.steps_sql_insert grow.steps_sql_update grow.steps_sql_delete)
     (simp_all add: grows_def map_upd_rows)

lemma InsertAddressBech32_grows [steps_intros]: "steps (on_store grows) (InsertAddressBech32 v False)"
  unfolding InsertAddressBech32_def
  by (intro grow.steps_upsert grow.steps_ignore_dup grow.steps_wrap_err grow.steps_if
        grow.steps_sql_insert grow.steps_sql_update grow.steps_sql_delete)
     (simp_all add: grows_def map_upd_rows)

lemma InsertOutputAddressAccumulateOut_grows [steps_intros]: "steps (on_store grows) (InsertOutputAddressAccumulateOut v upd)"
  unfolding InsertOutputAddressAccumulateOut_def
  by (intro grow.steps_upsert grow.steps_ignore_dup grow.steps_wrap_err grow.steps_if
        grow.steps_sql_insert grow.steps_sql_update grow.steps_sql_delete)
     (simp_all add: grows_def map_upd_rows)

lemma InsertOutputAddressAccumulateIn_grows [steps_intros]: "steps (on_store grows) (InsertOutputAddressAccumulateIn v upd)"
  unfolding InsertOutputAddressAccumulateIn_def
  by (intro grow.steps_upsert grow.steps_ignore_dup grow.steps_wrap_err grow.steps_if
        grow.steps_sql_insert grow.steps_sql_update grow.steps_sql_delete)
     (simp_all add: grows_def map_upd_rows)

lemma UpdateOutputAddressAccumulateInOutputsProcessed_grows [steps_intros]: "steps (on_store grows) (UpdateOutputAddressAccumulateInOutputsProcessed v)"
  unfolding UpdateOutputAddressAccumulateInOutputsProcessed_def
  by (intro grow.steps_upsert grow.steps_ignore_dup grow.steps_wrap_err grow.steps_if
        grow.steps_sql_insert grow.steps_sql_update grow.steps_sql_delete)
     (simp_all add: grows_def map_upd_rows)

lemma InsertOutputTxsAccumulate_grows [steps_intros]: "steps (on_store grows) (InsertOutputTxsAccumulate v)"
  unfolding InsertOutputTxsAccumulate_def
  by (intro grow.steps_upsert grow.steps_ignore_dup grow.steps_wrap_err grow.steps_if
        grow.steps_sql_insert grow.steps_sql_update grow.steps_sql_delete)
     (simp_all add: grows_def map_upd_rows)

lemma InsertAccumulateBalancesReceived_grows [steps_intros]: "steps (on_store grows) (InsertAccumulateBalancesReceived v)"
  unfolding InsertAccumulateBalancesReceived_def
  by (intro grow.steps_upsert grow.steps_ignore_dup grow.steps_wrap_err grow.steps_if
        grow.steps_sql_insert grow.steps_sql_update grow.steps_sql_delete)
     (simp_all add: grows_def map_upd_rows)

lemma InsertAccumulateBalancesSent_grows [steps_intros]: "steps (on_store grows) (InsertAccumulateBalancesSent v)"
  unfolding InsertAccumulateBalancesSent_def
  by (intro grow.steps_upsert grow.steps_ignore_dup grow.steps_wrap_err grow.steps_if
        grow.steps_sql_insert grow.steps_sql_update grow.steps_sql_delete)
     (simp_all add: grows_def map_upd_rows)

lemma InsertAccumulateBalancesTransactions_grows [steps_intros]: "steps (on_store grows) (InsertAccumulateBalancesTransactions v)"
  unfolding InsertAccumulateBalancesTransactions_def
  by (intro grow.steps_upsert grow.steps_ignore_dup grow.steps_wrap_err grow.steps_if
        grow.steps_sql_insert grow.steps_sql_update grow.steps_sql_delete)
     (simp_all add: grows_def map_upd_rows)

lemma InsertTransactionsRewardsOwnersAddress_grows [steps_intros]: "steps (on_store grows) (InsertTransactionsRewardsOwnersAddress v False)"
  unfolding InsertTransactionsRewardsOwnersAddress_def
  by (intro grow.steps_upsert grow.steps_ignore_dup grow.steps_wrap_err grow.steps_if
        grow.steps_sql_insert grow.steps_sql_update grow.steps_sql_delete)
     (simp_all add: grows_def map_upd_rows)

lemma InsertTransactionsRewardsOwnersOutputs_grows [steps_intros]: "steps (on_store grows) (InsertTransactionsRewardsOwnersOutputs v False)"
  unfolding InsertTransactionsRewardsOwnersOutputs_def
  by (intro grow.steps_upsert grow.steps_ignore_dup grow.steps_wrap_err grow.steps_if
        grow.steps_sql_insert grow.steps_sql_update grow.steps_sql_delete)
     (simp_all add: grows_def map_upd_rows)

lemma InsertTransactionsRewardsOwners_grows [steps_intros]: "steps (on_store grows) (InsertTransactionsRewardsOwners v False)"
  unfolding InsertTransactionsRewardsOwners_def
  by (intro grow.steps_upsert grow.steps_ignore_dup grow.steps_wrap_err grow.steps_if
        grow.steps_sql_insert grow.steps_sql_update grow.steps_sql_delete)
     (simp_all add: grows_def map_upd_rows)

lemma InsertTxPool_grows [steps_intros]: "steps (on_store grows) (InsertTxPool v)"
  unfolding InsertTxPool_def
  by (intro grow.steps_upsert grow.steps_ignore_dup grow.steps_wrap_err grow.steps_if
        grow.steps_sql_insert grow.steps_sql_update grow.steps_sql_delete)
     (simp_all add: grows_def map_upd_rows)

lemma RemoveTxPool_grows [steps_intros]: "steps (on_store grows) (RemoveTxPool v)"
  unfolding RemoveTxPool_def
  by (intro grow.steps_upsert grow.steps_ignore_dup grow.steps_wrap_err grow.steps_if
        grow.steps_sql_insert grow.steps_sql_update grow.steps_sql_delete)
     (simp_all add: grows_def map_upd_rows)

lemma InsertKeyValueStore_grows [steps_intros]: "steps (on_store grows) (InsertKeyValueStore v)"
  unfolding InsertKeyValueStore_def
  by (intro grow.steps_upsert grow.steps_ignore_dup grow.steps_wrap_err grow.steps_if
        grow.steps_sql_insert grow.steps_sql_update grow.steps_sql_delete)
     (simp_all add: grows_def map_upd_rows)

lemma InsertNodeIndex_grows [steps_intros]: "steps (on_store grows) (InsertNodeIndex v upd)"
  unfolding InsertNodeIndex_def
  by (intro grow.steps_upsert grow.steps_ignore_dup grow.steps_wrap_err grow.steps_if
        grow.steps_sql_insert grow.steps_sql_update grow.steps_sql_delete)
     (simp_all add: grows_def map_upd_rows)

lemma UpdateNodeIndex_grows [steps_intros]: "steps (on_store grows) (UpdateNodeIndex v)"
  unfolding UpdateNodeIndex_def
  by (intro grow.steps_upsert grow.steps_ignore_dup grow.steps_wrap_err grow.steps_if
        grow.steps_sql_insert grow.steps_sql_update grow.steps_sql_delete)
     (simp_all add: grows_def map_upd_rows)

lemma InsertCvmTransactionsTxdata_ok [steps_intros]:
  "steps (on_store keeps_ok) (InsertCvmTransactionsTxdata v upd)"
  unfolding InsertCvmTransactionsTxdata_def
  by (intro ok.steps_upsert ok.steps_store_exec)
     (auto simp: keeps_ok_def db_ok_def Let_def cvm_transactions_txdata_tbl.snoc_uniq
        split: option.splits if_splits)

lemma InsertCvmTransactionsTxdata_grows [steps_intros]:
  "steps (on_store grows) (InsertCvmTransactionsTxdata v False)"
  unfolding InsertCvmTransactionsTxdata_def
  by (intro grow.steps_upsert grow.steps_store_exec)
     (auto simp: grows_def Let_def split: option.splits if_splits)

text \<open>\<^verbatim>\<open>InsertCvmAccount\<close> is not of the common shape: it returns at once when the insert
  succeeds, so its relation is put together by hand from its two statements.\<close>

lemma steps_InsertCvmAccount:
  assumes "store_rel S"
    and "\<And>d r. \<not> list_ex (CvmAccount_clash r) (cvm_accounts d) \<Longrightarrow>
           S d (cvm_accounts_update (\<lambda>t. t @ [r]) d)"
    and "\<And>d wh f. uniq CvmAccount_clash (upd_rows wh f (cvm_accounts d)) \<Longrightarrow>
           S d (cvm_accounts_update (upd_rows wh f) d)"
  shows "steps (on_store S) (InsertCvmAccount v upd)"
proof (rule stepsI)
  fix w
  let ?ins = "exec (\<lambda>d.
             let r = \<lparr>cac_ID = next_account_id (cvm_accounts d), cac_Address = cac_Address v,
                      cac_TxCount = cac_TxCount v, cac_CreationTx = cac_CreationTx v\<rparr>
             in if list_ex (CvmAccount_clash r) (cvm_accounts d) then (Some sql_dup, d)
                else (None, cvm_accounts_update (\<lambda>t. t @ [r]) d))"
  let ?u = "wrap_err TableCvmAccounts True
                  (sql_update cvm_accounts cvm_accounts_update CvmAccount_clash
                     (\<lambda>r. cac_Address r = cac_Address v)
                     (\<lambda>r. r\<lparr>cac_TxCount := cac_TxCount r + cac_TxCount v\<rparr>))"
  have ins: "steps (on_store S) ?ins"
    by (rule store_rel.steps_store_exec [OF assms(1)])
       (auto simp: Let_def assms(2) split: if_splits)
  have upd: "steps (on_store S) ?u"
    by (intro world_rel.steps_wrap_err store_rel.steps_sql_update assms(1,3)
          store_rel_is_world_rel)
  show "on_store S w (snd (InsertCvmAccount v upd w))"
    using stepsD [OF ins, of w] store_rel_trans [OF assms(1) stepsD [OF ins, of w] stepsD [OF upd]]
    by (auto simp: InsertCvmAccount_def split: prod.splits sum.splits)
qed

lemma InsertCvmAccount_ok [steps_intros]: "steps (on_store keeps_ok) (InsertCvmAccount v upd)"
  by (rule steps_InsertCvmAccount [OF ok.store_rel_axioms])
     (simp_all add: keeps_ok_def db_ok_def cvm_accounts_tbl.snoc_uniq)

lemma InsertCvmAccount_grows [steps_intros]: "steps (on_store grows) (InsertCvmAccount v upd)"
  by (rule steps_InsertCvmAccount [OF grow.store_rel_axioms]) (simp_all add: grows_def)

lemma run_call_keeps_ok: "steps (on_store keeps_ok) (run_call c)"
  by (cases c) (simp_all add: steps_intros)

lemma run_call_grows: "\<not> rewrites_ledger c \<Longrightarrow> steps (on_store grows) (run_call c)"
  by (cases c) (simp_all add: steps_intros)

section \<open>Tame operations\<close>

text \<open>What the components that only call these operations inherit from them, in one relation:
  the environment is left alone, keys stay unique, and when updates are off (\<open>u\<close> is false)
  the ledger only grows.\<close>

definition tame :: "bool \<Rightarrow> database world \<Rightarrow> database world \<Rightarrow> bool" where
  "tame u w w' \<longleftrightarrow> same_env w w' \<and> keeps_ok (store w) (store w')
     \<and> (\<not> u \<longrightarrow> grows (store w) (store w'))"

interpretation tame: world_rel "tame u" for u
  by unfold_locales
     (auto simp: tame_def same_env_def keeps_ok_def grow.S_refl intro: grow.S_trans)

lemma tameI:
  assumes "steps same_env m" and "steps (on_store keeps_ok) m"
    and "\<not> u \<Longrightarrow> steps (on_store grows) m"
  shows "steps (tame u) m"
  using assms by (auto simp: steps_def tame_def on_store_def)

lemma valid_tame:
  assumes "steps (tame u) m" and "\<And>d d'. A d \<Longrightarrow> grows d d' \<Longrightarrow> A d'" and "\<not> u"
  shows "valid (\<lambda>w. honest w \<and> A (store w)) m (\<lambda>_ w. honest w \<and> A (store w))"
  using assms(1) by (rule valid_steps) (use assms(2,3) in \<open>auto simp: tame_def intro: honest_same_env\<close>)

lemma tame_honest: "honest w \<Longrightarrow> tame u w w' \<Longrightarrow> honest w'"
  by (auto simp: tame_def intro: honest_same_env)

lemma InsertCvmAccount_env: "steps same_env (InsertCvmAccount v upd)"
  unfolding steps_def InsertCvmAccount_def wrap_err_def sql_update_def exec_def same_env_def Let_def
  by (auto split: option.splits prod.splits sum.splits if_splits)

lemma run_call_env: "steps same_env (run_call c)"
  by (cases c)
     (auto simp: InsertCvmAccount_env InsertTransactions_def InsertOutputsRedeeming_def InsertOutputs_def InsertAssets_def InsertAddresses_def InsertAddressChain_def InsertOutputAddresses_def UpdateOutputAddresses_def InsertTransactionsEpoch_def InsertCvmBlocks_def InsertCamLastBlockCache_def InsertCvmAddresses_def InsertCvmTransactionsAtomic_def InsertCvmTransactionsTxdata_def InsertPvmBlocks_def InsertRewards_def UpdateRewardsProcessed_def InsertTransactionsValidator_def InsertTransactionsBlock_def InsertAddressBech32_def InsertOutputAddressAccumulateOut_def InsertOutputAddressAccumulateIn_def UpdateOutputAddressAccumulateInOutputsProcessed_def InsertOutputTxsAccumulate_def InsertAccumulateBalancesReceived_def InsertAccumulateBalancesSent_def InsertAccumulateBalancesTransactions_def InsertTransactionsRewardsOwnersAddress_def InsertTransactionsRewardsOwnersOutputs_def InsertTransactionsRewardsOwners_def InsertTxPool_def RemoveTxPool_def InsertKeyValueStore_def InsertNodeIndex_def UpdateNodeIndex_def
      intro!: steps_intros)

lemma run_call_tame: "(rewrites_ledger c \<Longrightarrow> u) \<Longrightarrow> steps (tame u) (run_call c)"
  by (rule tameI) (auto intro: run_call_env run_call_keeps_ok run_call_grows)

lemma InsertTransactions_tame [steps_intros]: "steps (tame u) (InsertTransactions v u)"
  using run_call_tame [of "CallInsertTransactions v u" u] by simp

lemma InsertOutputsRedeeming_tame [steps_intros]: "steps (tame u) (InsertOutputsRedeeming v u)"
  using run_call_tame [of "CallInsertOutputsRedeeming v u" u] by simp

lemma InsertOutputs_tame [steps_intros]: "steps (tame u) (InsertOutputs v u)"
  using run_call_tame [of "CallInsertOutputs v u" u] by simp

lemma InsertAssets_tame [steps_intros]: "steps (tame u) (InsertAssets v u)"
  using run_call_tame [of "CallInsertAssets v u" u] by simp

lemma InsertAddresses_tame [steps_intros]: "steps (tame u) (InsertAddresses v u)"
  using run_call_tame [of "CallInsertAddresses v u" u] by simp

lemma InsertAddressChain_tame [steps_intros]: "steps (tame u) (InsertAddressChain v u)"
  using run_call_tame [of "CallInsertAddressChain v u" u] by simp

lemma InsertOutputAddresses_tame [steps_intros]: "steps (tame u) (InsertOutputAddresses v upd)"
  using run_call_tame [of "CallInsertOutputAddresses v upd" u] by simp

lemma UpdateOutputAddresses_tame [steps_intros]: "steps (tame u) (UpdateOutputAddresses v)"
  using run_call_tame [of "CallUpdateOutputAddresses v" u] by simp

lemma InsertTransactionsEpoch_tame [steps_intros]: "steps (tame u) (InsertTransactionsEpoch v u)"
  using run_call_tame [of "CallInsertTransactionsEpoch v u" u] by simp

lemma InsertCvmBlocks_tame [steps_intros]: "steps (tame u) (InsertCvmBlocks v)"
  using run_call_tame [of "CallInsertCvmBlocks v" u] by simp

lemma InsertCamLastBlockCache_tame [steps_intros]: "steps (tame u) (InsertCamLastBlockCache v upd)"
  using run_call_tame [of "CallInsertCamLastBlockCache v upd" u] by simp

lemma InsertCvmAddresses_tame [steps_intros]: "steps (tame u) (InsertCvmAddresses v u)"
  using run_call_tame [of "CallInsertCvmAddresses v u" u] by simp

lemma InsertCvmTransactionsAtomic_tame [steps_intros]: "steps (tame u) (InsertCvmTransactionsAtomic v u)"
  using run_call_tame [of "CallInsertCvmTransactionsAtomic v u" u] by simp

lemma InsertCvmTransactionsTxdata_tame [steps_intros]: "steps (tame u) (InsertCvmTransactionsTxdata v u)"
  using run_call_tame [of "CallInsertCvmTransactionsTxdata v u" u] by simp

lemma InsertCvmAccount_tame [steps_intros]: "steps (tame u) (InsertCvmAccount v upd)"
  using run_call_tame [of "CallInsertCvmAccount v upd" u] by simp

lemma InsertPvmBlocks_tame [steps_intros]: "steps (tame u) (InsertPvmBlocks v u)"
  using run_call_tame [of "CallInsertPvmBlocks v u" u] by simp

lemma InsertRewards_tame [steps_intros]: "steps (tame u) (InsertRewards v upd)"
  using run_call_tame [of "CallInsertRewards v upd" u] by simp

lemma UpdateRewardsProcessed_tame [steps_intros]: "steps (tame u) (UpdateRewardsProcessed v)"
  using run_call_tame [of "CallUpdateRewardsProcessed v" u] by simp

lemma InsertTransactionsValidator_tame [steps_intros]: "steps (tame u) (InsertTransactionsValidator v u)"
  using run_call_tame [of "CallInsertTransactionsValidator v u" u] by simp

lemma InsertTransactionsBlock_tame [steps_intros]: "steps (tame u) (InsertTransactionsBlock v u)"
  using run_call_tame [of "CallInsertTransactionsBlock v u" u] by simp

lemma InsertAddressBech32_tame [steps_intros]: "steps (tame u) (InsertAddressBech32 v u)"
  using run_call_tame [of "CallInsertAddressBech32 v u" u] by simp

lemma InsertOutputAddressAccumulateOut_tame [steps_intros]: "steps (tame u) (InsertOutputAddressAccumulateOut v upd)"
  using run_call_tame [of "CallInsertOutputAddressAccumulateOut v upd" u] by simp

lemma InsertOutputAddressAccumulateIn_tame [steps_intros]: "steps (tame u) (InsertOutputAddressAccumulateIn v upd)"
  using run_call_tame [of "CallInsertOutputAddressAccumulateIn v upd" u] by simp

lemma UpdateOutputAddressAccumulateInOutputsProcessed_tame [steps_intros]: "steps (tame u) (UpdateOutputAddressAccumulateInOutputsProcessed v)"
  using run_call_tame [of "CallUpdateOutputAddressAccumulateInOutputsProcessed v" u] by simp

lemma InsertOutputTxsAccumulate_tame [steps_intros]: "steps (tame u) (InsertOutputTxsAccumulate v)"
  using run_call_tame [of "CallInsertOutputTxsAccumulate v" u] by simp

lemma InsertAccumulateBalancesReceived_tame [steps_intros]: "steps (tame u) (InsertAccumulateBalancesReceived v)"
  using run_call_tame [of "CallInsertAccumulateBalancesReceived v" u] by simp

lemma InsertAccumulateBalancesSent_tame [steps_intros]: "steps (tame u) (InsertAccumulateBalancesSent v)"
  using run_call_tame [of "CallInsertAccumulateBalancesSent v" u] by simp

lemma InsertAccumulateBalancesTransactions_tame [steps_intros]: "steps (tame u) (InsertAccumulateBalancesTransactions v)"
  using run_call_tame [of "CallInsertAccumulateBalancesTransactions v" u] by simp

lemma InsertTransactionsRewardsOwnersAddress_tame [steps_intros]: "steps (tame u) (InsertTransactionsRewardsOwnersAddress v u)"
  using run_call_tame [of "CallInsertTransactionsRewardsOwnersAddress v u" u] by simp

lemma InsertTransactionsRewardsOwnersOutputs_tame [steps_intros]: "steps (tame u) (InsertTransactionsRewardsOwnersOutputs v u)"
  using run_call_tame [of "CallInsertTransactionsRewardsOwnersOutputs v u" u] by simp

lemma InsertTransactionsRewardsOwners_tame [steps_intros]: "steps (tame u) (InsertTransactionsRewardsOwners v u)"
  using run_call_tame [of "CallInsertTransactionsRewardsOwners v u" u] by simp

lemma InsertTxPool_tame [steps_intros]: "steps (tame u) (InsertTxPool v)"
  using run_call_tame [of "CallInsertTxPool v" u] by simp

lemma RemoveTxPool_tame [steps_intros]: "steps (tame u) (RemoveTxPool v)"
  using run_call_tame [of "CallRemoveTxPool v" u] by simp

lemma InsertKeyValueStore_tame [steps_intros]: "steps (tame u) (InsertKeyValueStore v)"
  using run_call_tame [of "CallInsertKeyValueStore v" u] by simp

lemma InsertNodeIndex_tame [steps_intros]: "steps (tame u) (InsertNodeIndex v upd)"
  using run_call_tame [of "CallInsertNodeIndex v upd" u] by simp

lemma UpdateNodeIndex_tame [steps_intros]: "steps (tame u) (UpdateNodeIndex v)"
  using run_call_tame [of "CallUpdateNodeIndex v" u] by simp

end
