(* ===== verification/Db_Replay.thy ===== *)
theory Db_Replay
  imports Db_Persist
begin

text \<open>
  The indexer delivers at least once: a message whose processing was interrupted is
  consumed again from the start.  This theory is about the operations it uses when updates
  are off (\<^verbatim>\<open>cfg.PerformUpdates\<close> is false): each of them refines an abstract insert,
  and running any sequence of them a second time changes nothing.
\<close>

section \<open>Inserts without updates\<close>

text \<open>The abstract effect of an insert that may not update: the row is appended to its table
  unless its key is taken.  Every such operation refines it in a world whose driver
  answers.\<close>

fun ins_spec :: "persist_call \<Rightarrow> database \<Rightarrow> database" where
  "ins_spec (CallInsertTransactions v _) d =
     avm_transactions_update (ins_row Transactions_clash v) d"
| "ins_spec (CallInsertOutputsRedeeming v _) d =
     avm_outputs_redeeming_update (ins_row OutputsRedeeming_clash v) d"
| "ins_spec (CallInsertOutputs v _) d =
     avm_outputs_update (ins_row Outputs_clash v) d"
| "ins_spec (CallInsertAssets v _) d =
     avm_assets_update (ins_row Assets_clash v) d"
| "ins_spec (CallInsertAddresses v _) d =
     addresses_update (ins_row Addresses_clash v) d"
| "ins_spec (CallInsertAddressChain v _) d =
     address_chain_update (ins_row AddressChain_clash v) d"
| "ins_spec (CallInsertOutputAddresses v _) d =
     avm_output_addresses_update (ins_row OutputAddresses_clash v) d"
| "ins_spec (CallInsertTransactionsEpoch v _) d =
     transactions_epoch_update (ins_row TransactionsEpoch_clash v) d"
| "ins_spec (CallInsertCvmBlocks v) d =
     cvm_blocks_update (ins_row CvmBlocks_clash v) d"
| "ins_spec (CallInsertCvmAddresses v _) d =
     cvm_addresses_update (ins_row CvmAddresses_clash v) d"
| "ins_spec (CallInsertCvmTransactionsAtomic v _) d =
     cvm_transactions_atomic_update (ins_row CvmTransactionsAtomic_clash v) d"
| "ins_spec (CallInsertPvmBlocks v _) d =
     pvm_blocks_update (ins_row PvmBlocks_clash v) d"
| "ins_spec (CallInsertRewards v _) d =
     rewards_update (ins_row Rewards_clash v) d"
| "ins_spec (CallInsertTransactionsValidator v _) d =
     transactions_validator_update (ins_row TransactionsValidator_clash v) d"
| "ins_spec (CallInsertTransactionsBlock v _) d =
     transactions_block_update (ins_row TransactionsBlock_clash v) d"
| "ins_spec (CallInsertAddressBech32 v _) d =
     addresses_bech32_update (ins_row AddressBech32_clash v) d"
| "ins_spec (CallInsertOutputAddressAccumulateOut v _) d =
     output_addresses_accumulate_out_update (ins_row OutputAddressAccumulate_clash (v\<lparr>oaa_Processed := 0, oaa_OutputProcessed := 0\<rparr>)) d"
| "ins_spec (CallInsertOutputAddressAccumulateIn v _) d =
     output_addresses_accumulate_in_update (ins_row OutputAddressAccumulate_clash (v\<lparr>oaa_Processed := 0, oaa_OutputProcessed := 0\<rparr>)) d"
| "ins_spec (CallInsertOutputTxsAccumulate v) d =
     output_txs_accumulate_update (ins_row OutputTxsAccumulate_clash (v\<lparr>ota_Processed := 0\<rparr>)) d"
| "ins_spec (CallInsertAccumulateBalancesReceived v) d =
     accumulate_balances_received_update (ins_row AccumulateBalancesAmount_clash (v\<lparr>aba_TotalAmount := 0, aba_UtxoCount := 0\<rparr>)) d"
| "ins_spec (CallInsertAccumulateBalancesSent v) d =
     accumulate_balances_sent_update (ins_row AccumulateBalancesAmount_clash (v\<lparr>aba_TotalAmount := 0, aba_UtxoCount := 0\<rparr>)) d"
| "ins_spec (CallInsertAccumulateBalancesTransactions v) d =
     accumulate_balances_transactions_update (ins_row AccumulateBalancesTransactions_clash (v\<lparr>abt_TransactionCount := 0\<rparr>)) d"
| "ins_spec (CallInsertTransactionsRewardsOwnersAddress v _) d =
     transactions_rewards_owners_address_update (ins_row TransactionsRewardsOwnersAddress_clash v) d"
| "ins_spec (CallInsertTransactionsRewardsOwnersOutputs v _) d =
     transactions_rewards_owners_outputs_update (ins_row TransactionsRewardsOwnersOutputs_clash v) d"
| "ins_spec (CallInsertTransactionsRewardsOwners v _) d =
     transactions_rewards_owners_update (ins_row TransactionsRewardsOwners_clash v) d"
| "ins_spec (CallInsertTxPool v) d =
     tx_pool_update (ins_row TxPool_clash v) d"
| "ins_spec (CallInsertKeyValueStore v) d =
     key_value_store_update (ins_row KeyValueStore_clash v) d"
| "ins_spec (CallInsertNodeIndex v _) d =
     node_index_update (ins_row NodeIndex_clash v) d"
| "ins_spec _ d = d"

fun insert_only :: "persist_call \<Rightarrow> bool" where
  "insert_only (CallInsertTransactions v upd) = (\<not> upd)"
| "insert_only (CallInsertOutputsRedeeming v upd) = (\<not> upd)"
| "insert_only (CallInsertOutputs v upd) = (\<not> upd)"
| "insert_only (CallInsertAssets v upd) = (\<not> upd)"
| "insert_only (CallInsertAddresses v upd) = (\<not> upd)"
| "insert_only (CallInsertAddressChain v upd) = (\<not> upd)"
| "insert_only (CallInsertOutputAddresses v upd) = (\<not> upd)"
| "insert_only (CallInsertTransactionsEpoch v upd) = (\<not> upd)"
| "insert_only (CallInsertCvmBlocks v) = True"
| "insert_only (CallInsertCvmAddresses v upd) = (\<not> upd)"
| "insert_only (CallInsertCvmTransactionsAtomic v upd) = (\<not> upd)"
| "insert_only (CallInsertPvmBlocks v upd) = (\<not> upd)"
| "insert_only (CallInsertRewards v upd) = (\<not> upd)"
| "insert_only (CallInsertTransactionsValidator v upd) = (\<not> upd)"
| "insert_only (CallInsertTransactionsBlock v upd) = (\<not> upd)"
| "insert_only (CallInsertAddressBech32 v upd) = (\<not> upd)"
| "insert_only (CallInsertOutputAddressAccumulateOut v upd) = (\<not> upd)"
| "insert_only (CallInsertOutputAddressAccumulateIn v upd) = (\<not> upd)"
| "insert_only (CallInsertOutputTxsAccumulate v) = True"
| "insert_only (CallInsertAccumulateBalancesReceived v) = True"
| "insert_only (CallInsertAccumulateBalancesSent v) = True"
| "insert_only (CallInsertAccumulateBalancesTransactions v) = True"
| "insert_only (CallInsertTransactionsRewardsOwnersAddress v upd) = (\<not> upd)"
| "insert_only (CallInsertTransactionsRewardsOwnersOutputs v upd) = (\<not> upd)"
| "insert_only (CallInsertTransactionsRewardsOwners v upd) = (\<not> upd)"
| "insert_only (CallInsertTxPool v) = True"
| "insert_only (CallInsertKeyValueStore v) = True"
| "insert_only (CallInsertNodeIndex v upd) = (\<not> upd)"
| "insert_only _ = False"

lemma InsertTransactions_calm:
  "calm w \<Longrightarrow> InsertTransactions v False w =
     (Inr (), w\<lparr>stmts := Suc (stmts w), store := avm_transactions_update (ins_row Transactions_clash v) (store w)\<rparr>)"
  by (cases v) (simp add: InsertTransactions_def upsert_def andThen_def bind_def ret_def avm_transactions_tbl.insert_calm)

lemma InsertOutputsRedeeming_calm:
  "calm w \<Longrightarrow> InsertOutputsRedeeming v False w =
     (Inr (), w\<lparr>stmts := Suc (stmts w), store := avm_outputs_redeeming_update (ins_row OutputsRedeeming_clash v) (store w)\<rparr>)"
  by (cases v) (simp add: InsertOutputsRedeeming_def upsert_def andThen_def bind_def ret_def avm_outputs_redeeming_tbl.insert_calm)

lemma InsertOutputs_calm:
  "calm w \<Longrightarrow> InsertOutputs v False w =
     (Inr (), w\<lparr>stmts := Suc (stmts w), store := avm_outputs_update (ins_row Outputs_clash v) (store w)\<rparr>)"
  by (cases v) (simp add: InsertOutputs_def upsert_def andThen_def bind_def ret_def avm_outputs_tbl.insert_calm)

lemma InsertAssets_calm:
  "calm w \<Longrightarrow> InsertAssets v False w =
     (Inr (), w\<lparr>stmts := Suc (stmts w), store := avm_assets_update (ins_row Assets_clash v) (store w)\<rparr>)"
  by (cases v) (simp add: InsertAssets_def upsert_def andThen_def bind_def ret_def avm_assets_tbl.insert_calm)

lemma InsertAddresses_calm:
  "calm w \<Longrightarrow> InsertAddresses v False w =
     (Inr (), w\<lparr>stmts := Suc (stmts w), store := addresses_update (ins_row Addresses_clash v) (store w)\<rparr>)"
  by (cases v) (simp add: InsertAddresses_def upsert_def andThen_def bind_def ret_def addresses_tbl.insert_calm)

lemma InsertAddressChain_calm:
  "calm w \<Longrightarrow> InsertAddressChain v False w =
     (Inr (), w\<lparr>stmts := Suc (stmts w), store := address_chain_update (ins_row AddressChain_clash v) (store w)\<rparr>)"
  by (cases v) (simp add: InsertAddressChain_def upsert_def andThen_def bind_def ret_def address_chain_tbl.insert_calm)

lemma InsertOutputAddresses_calm:
  "calm w \<Longrightarrow> InsertOutputAddresses v False w =
     (Inr (), w\<lparr>stmts := Suc (stmts w), store := avm_output_addresses_update (ins_row OutputAddresses_clash v) (store w)\<rparr>)"
  by (cases v) (simp add: InsertOutputAddresses_def upsert_def andThen_def bind_def ret_def avm_output_addresses_tbl.insert_calm option.case_eq_if)

lemma InsertTransactionsEpoch_calm:
  "calm w \<Longrightarrow> InsertTransactionsEpoch v False w =
     (Inr (), w\<lparr>stmts := Suc (stmts w), store := transactions_epoch_update (ins_row TransactionsEpoch_clash v) (store w)\<rparr>)"
  by (cases v) (simp add: InsertTransactionsEpoch_def upsert_def andThen_def bind_def ret_def transactions_epoch_tbl.insert_calm)

lemma InsertCvmBlocks_calm:
  "calm w \<Longrightarrow> InsertCvmBlocks v w =
     (Inr (), w\<lparr>stmts := Suc (stmts w), store := cvm_blocks_update (ins_row CvmBlocks_clash v) (store w)\<rparr>)"
  by (cases v) (simp add: InsertCvmBlocks_def upsert_def andThen_def bind_def ret_def cvm_blocks_tbl.insert_calm)

lemma InsertCvmAddresses_calm:
  "calm w \<Longrightarrow> InsertCvmAddresses v False w =
     (Inr (), w\<lparr>stmts := Suc (stmts w), store := cvm_addresses_update (ins_row CvmAddresses_clash v) (store w)\<rparr>)"
  by (cases v) (simp add: InsertCvmAddresses_def upsert_def andThen_def bind_def ret_def cvm_addresses_tbl.insert_calm)

lemma InsertCvmTransactionsAtomic_calm:
  "calm w \<Longrightarrow> InsertCvmTransactionsAtomic v False w =
     (Inr (), w\<lparr>stmts := Suc (stmts w), store := cvm_transactions_atomic_update (ins_row CvmTransactionsAtomic_clash v) (store w)\<rparr>)"
  by (cases v) (simp add: InsertCvmTransactionsAtomic_def upsert_def andThen_def bind_def ret_def cvm_transactions_atomic_tbl.insert_calm)

lemma InsertPvmBlocks_calm:
  "calm w \<Longrightarrow> InsertPvmBlocks v False w =
     (Inr (), w\<lparr>stmts := Suc (stmts w), store := pvm_blocks_update (ins_row PvmBlocks_clash v) (store w)\<rparr>)"
  by (cases v) (simp add: InsertPvmBlocks_def upsert_def andThen_def bind_def ret_def pvm_blocks_tbl.insert_calm)

lemma InsertRewards_calm:
  "calm w \<Longrightarrow> InsertRewards v False w =
     (Inr (), w\<lparr>stmts := Suc (stmts w), store := rewards_update (ins_row Rewards_clash v) (store w)\<rparr>)"
  by (cases v) (simp add: InsertRewards_def upsert_def andThen_def bind_def ret_def rewards_tbl.insert_calm)

lemma InsertTransactionsValidator_calm:
  "calm w \<Longrightarrow> InsertTransactionsValidator v False w =
     (Inr (), w\<lparr>stmts := Suc (stmts w), store := transactions_validator_update (ins_row TransactionsValidator_clash v) (store w)\<rparr>)"
  by (cases v) (simp add: InsertTransactionsValidator_def upsert_def andThen_def bind_def ret_def transactions_validator_tbl.insert_calm)

lemma InsertTransactionsBlock_calm:
  "calm w \<Longrightarrow> InsertTransactionsBlock v False w =
     (Inr (), w\<lparr>stmts := Suc (stmts w), store := transactions_block_update (ins_row TransactionsBlock_clash v) (store w)\<rparr>)"
  by (cases v) (simp add: InsertTransactionsBlock_def upsert_def andThen_def bind_def ret_def transactions_block_tbl.insert_calm)

lemma InsertAddressBech32_calm:
  "calm w \<Longrightarrow> InsertAddressBech32 v False w =
     (Inr (), w\<lparr>stmts := Suc (stmts w), store := addresses_bech32_update (ins_row AddressBech32_clash v) (store w)\<rparr>)"
  by (cases v) (simp add: InsertAddressBech32_def upsert_def andThen_def bind_def ret_def addresses_bech32_tbl.insert_calm)

lemma InsertOutputAddressAccumulateOut_calm:
  "calm w \<Longrightarrow> InsertOutputAddressAccumulateOut v False w =
     (Inr (), w\<lparr>stmts := Suc (stmts w), store := output_addresses_accumulate_out_update (ins_row OutputAddressAccumulate_clash (v\<lparr>oaa_Processed := 0, oaa_OutputProcessed := 0\<rparr>)) (store w)\<rparr>)"
  by (cases v) (simp add: InsertOutputAddressAccumulateOut_def upsert_def andThen_def bind_def ret_def output_addresses_accumulate_out_tbl.insert_calm)

lemma InsertOutputAddressAccumulateIn_calm:
  "calm w \<Longrightarrow> InsertOutputAddressAccumulateIn v False w =
     (Inr (), w\<lparr>stmts := Suc (stmts w), store := output_addresses_accumulate_in_update (ins_row OutputAddressAccumulate_clash (v\<lparr>oaa_Processed := 0, oaa_OutputProcessed := 0\<rparr>)) (store w)\<rparr>)"
  by (cases v) (simp add: InsertOutputAddressAccumulateIn_def upsert_def andThen_def bind_def ret_def output_addresses_accumulate_in_tbl.insert_calm)

lemma InsertOutputTxsAccumulate_calm:
  "calm w \<Longrightarrow> InsertOutputTxsAccumulate v w =
     (Inr (), w\<lparr>stmts := Suc (stmts w), store := output_txs_accumulate_update (ins_row OutputTxsAccumulate_clash (v\<lparr>ota_Processed := 0\<rparr>)) (store w)\<rparr>)"
  by (cases v) (simp add: InsertOutputTxsAccumulate_def upsert_def andThen_def bind_def ret_def output_txs_accumulate_tbl.insert_calm)

lemma InsertAccumulateBalancesReceived_calm:
  "calm w \<Longrightarrow> InsertAccumulateBalancesReceived v w =
     (Inr (), w\<lparr>stmts := Suc (stmts w), store := accumulate_balances_received_update (ins_row AccumulateBalancesAmount_clash (v\<lparr>aba_TotalAmount := 0, aba_UtxoCount := 0\<rparr>)) (store w)\<rparr>)"
  by (cases v) (simp add: InsertAccumulateBalancesReceived_def upsert_def andThen_def bind_def ret_def accumulate_balances_received_tbl.insert_calm)

lemma InsertAccumulateBalancesSent_calm:
  "calm w \<Longrightarrow> InsertAccumulateBalancesSent v w =
     (Inr (), w\<lparr>stmts := Suc (stmts w), store := accumulate_balances_sent_update (ins_row AccumulateBalancesAmount_clash (v\<lparr>aba_TotalAmount := 0, aba_UtxoCount := 0\<rparr>)) (store w)\<rparr>)"
  by (cases v) (simp add: InsertAccumulateBalancesSent_def upsert_def andThen_def bind_def ret_def accumulate_balances_sent_tbl.insert_calm)

lemma InsertAccumulateBalancesTransactions_calm:
  "calm w \<Longrightarrow> InsertAccumulateBalancesTransactions v w =
     (Inr (), w\<lparr>stmts := Suc (stmts w), store := accumulate_balances_transactions_update (ins_row AccumulateBalancesTransactions_clash (v\<lparr>abt_TransactionCount := 0\<rparr>)) (store w)\<rparr>)"
  by (cases v) (simp add: InsertAccumulateBalancesTransactions_def upsert_def andThen_def bind_def ret_def accumulate_balances_transactions_tbl.insert_calm)

lemma InsertTransactionsRewardsOwnersAddress_calm:
  "calm w \<Longrightarrow> InsertTransactionsRewardsOwnersAddress v False w =
     (Inr (), w\<lparr>stmts := Suc (stmts w), store := transactions_rewards_owners_address_update (ins_row TransactionsRewardsOwnersAddress_clash v) (store w)\<rparr>)"
  by (cases v) (simp add: InsertTransactionsRewardsOwnersAddress_def upsert_def andThen_def bind_def ret_def transactions_rewards_owners_address_tbl.insert_calm)

lemma InsertTransactionsRewardsOwnersOutputs_calm:
  "calm w \<Longrightarrow> InsertTransactionsRewardsOwnersOutputs v False w =
     (Inr (), w\<lparr>stmts := Suc (stmts w), store := transactions_rewards_owners_outputs_update (ins_row TransactionsRewardsOwnersOutputs_clash v) (store w)\<rparr>)"
  by (cases v) (simp add: InsertTransactionsRewardsOwnersOutputs_def upsert_def andThen_def bind_def ret_def transactions_rewards_owners_outputs_tbl.insert_calm)

lemma InsertTransactionsRewardsOwners_calm:
  "calm w \<Longrightarrow> InsertTransactionsRewardsOwners v False w =
     (Inr (), w\<lparr>stmts := Suc (stmts w), store := transactions_rewards_owners_update (ins_row TransactionsRewardsOwners_clash v) (store w)\<rparr>)"
  by (cases v) (simp add: InsertTransactionsRewardsOwners_def upsert_def andThen_def bind_def ret_def transactions_rewards_owners_tbl.insert_calm)

lemma InsertTxPool_calm:
  "calm w \<Longrightarrow> InsertTxPool v w =
     (Inr (), w\<lparr>stmts := Suc (stmts w), store := tx_pool_update (ins_row TxPool_clash v) (store w)\<rparr>)"
  by (cases v) (simp add: InsertTxPool_def upsert_def andThen_def bind_def ret_def tx_pool_tbl.insert_calm)

lemma InsertKeyValueStore_calm:
  "calm w \<Longrightarrow> InsertKeyValueStore v w =
     (Inr (), w\<lparr>stmts := Suc (stmts w), store := key_value_store_update (ins_row KeyValueStore_clash v) (store w)\<rparr>)"
  by (cases v) (simp add: InsertKeyValueStore_def upsert_def andThen_def bind_def ret_def key_value_store_tbl.insert_calm)

lemma InsertNodeIndex_calm:
  "calm w \<Longrightarrow> InsertNodeIndex v False w =
     (Inr (), w\<lparr>stmts := Suc (stmts w), store := node_index_update (ins_row NodeIndex_clash v) (store w)\<rparr>)"
  by (cases v) (simp add: InsertNodeIndex_def upsert_def andThen_def bind_def ret_def node_index_tbl.insert_calm)

lemmas calm_inserts =
  InsertTransactions_calm
  InsertOutputsRedeeming_calm
  InsertOutputs_calm
  InsertAssets_calm
  InsertAddresses_calm
  InsertAddressChain_calm
  InsertOutputAddresses_calm
  InsertTransactionsEpoch_calm
  InsertCvmBlocks_calm
  InsertCvmAddresses_calm
  InsertCvmTransactionsAtomic_calm
  InsertPvmBlocks_calm
  InsertRewards_calm
  InsertTransactionsValidator_calm
  InsertTransactionsBlock_calm
  InsertAddressBech32_calm
  InsertOutputAddressAccumulateOut_calm
  InsertOutputAddressAccumulateIn_calm
  InsertOutputTxsAccumulate_calm
  InsertAccumulateBalancesReceived_calm
  InsertAccumulateBalancesSent_calm
  InsertAccumulateBalancesTransactions_calm
  InsertTransactionsRewardsOwnersAddress_calm
  InsertTransactionsRewardsOwnersOutputs_calm
  InsertTransactionsRewardsOwners_calm
  InsertTxPool_calm
  InsertKeyValueStore_calm
  InsertNodeIndex_calm

lemma run_call_calm:
  "insert_only c \<Longrightarrow> calm w \<Longrightarrow>
   run_call c w = (Inr (), w\<lparr>stmts := Suc (stmts w), store := ins_spec c (store w)\<rparr>)"
  by (cases c) (simp_all add: calm_inserts)

definition extends :: "database \<Rightarrow> database \<Rightarrow> bool" where
  "extends d d' \<longleftrightarrow>
     prefix (avm_transactions d) (avm_transactions d') \<and>
     prefix (avm_outputs_redeeming d) (avm_outputs_redeeming d') \<and>
     prefix (avm_outputs d) (avm_outputs d') \<and>
     prefix (avm_assets d) (avm_assets d') \<and>
     prefix (addresses d) (addresses d') \<and>
     prefix (address_chain d) (address_chain d') \<and>
     prefix (avm_output_addresses d) (avm_output_addresses d') \<and>
     prefix (transactions_epoch d) (transactions_epoch d') \<and>
     prefix (cvm_addresses d) (cvm_addresses d') \<and>
     prefix (cvm_blocks d) (cvm_blocks d') \<and>
     prefix (cvm_transactions_atomic d) (cvm_transactions_atomic d') \<and>
     prefix (cvm_transactions_txdata d) (cvm_transactions_txdata d') \<and>
     prefix (cvm_accounts d) (cvm_accounts d') \<and>
     prefix (pvm_blocks d) (pvm_blocks d') \<and>
     prefix (rewards d) (rewards d') \<and>
     prefix (transactions_validator d) (transactions_validator d') \<and>
     prefix (transactions_block d) (transactions_block d') \<and>
     prefix (addresses_bech32 d) (addresses_bech32 d') \<and>
     prefix (output_addresses_accumulate_out d) (output_addresses_accumulate_out d') \<and>
     prefix (output_addresses_accumulate_in d) (output_addresses_accumulate_in d') \<and>
     prefix (output_txs_accumulate d) (output_txs_accumulate d') \<and>
     prefix (accumulate_balances_received d) (accumulate_balances_received d') \<and>
     prefix (accumulate_balances_sent d) (accumulate_balances_sent d') \<and>
     prefix (accumulate_balances_transactions d) (accumulate_balances_transactions d') \<and>
     prefix (transactions_rewards_owners d) (transactions_rewards_owners d') \<and>
     prefix (transactions_rewards_owners_address d) (transactions_rewards_owners_address d') \<and>
     prefix (transactions_rewards_owners_outputs d) (transactions_rewards_owners_outputs d') \<and>
     prefix (tx_pool d) (tx_pool d') \<and>
     prefix (key_value_store d) (key_value_store d') \<and>
     prefix (node_index d) (node_index d')"

lemmas skip_later_all =
  avm_transactions_tbl.skip_later
  avm_outputs_redeeming_tbl.skip_later
  avm_outputs_tbl.skip_later
  avm_assets_tbl.skip_later
  addresses_tbl.skip_later
  address_chain_tbl.skip_later
  avm_output_addresses_tbl.skip_later
  transactions_epoch_tbl.skip_later
  cvm_addresses_tbl.skip_later
  cvm_blocks_tbl.skip_later
  cvm_transactions_atomic_tbl.skip_later
  cvm_transactions_txdata_tbl.skip_later
  cvm_accounts_tbl.skip_later
  pvm_blocks_tbl.skip_later
  rewards_tbl.skip_later
  transactions_validator_tbl.skip_later
  transactions_block_tbl.skip_later
  addresses_bech32_tbl.skip_later
  output_addresses_accumulate_out_tbl.skip_later
  output_addresses_accumulate_in_tbl.skip_later
  output_txs_accumulate_tbl.skip_later
  accumulate_balances_received_tbl.skip_later
  accumulate_balances_sent_tbl.skip_later
  accumulate_balances_transactions_tbl.skip_later
  transactions_rewards_owners_tbl.skip_later
  transactions_rewards_owners_address_tbl.skip_later
  transactions_rewards_owners_outputs_tbl.skip_later
  tx_pool_tbl.skip_later
  key_value_store_tbl.skip_later
  node_index_tbl.skip_later

lemmas insert_again_all =
  avm_transactions_tbl.insert_again
  avm_outputs_redeeming_tbl.insert_again
  avm_outputs_tbl.insert_again
  avm_assets_tbl.insert_again
  addresses_tbl.insert_again
  address_chain_tbl.insert_again
  avm_output_addresses_tbl.insert_again
  transactions_epoch_tbl.insert_again
  cvm_addresses_tbl.insert_again
  cvm_blocks_tbl.insert_again
  cvm_transactions_atomic_tbl.insert_again
  cvm_transactions_txdata_tbl.insert_again
  cvm_accounts_tbl.insert_again
  pvm_blocks_tbl.insert_again
  rewards_tbl.insert_again
  transactions_validator_tbl.insert_again
  transactions_block_tbl.insert_again
  addresses_bech32_tbl.insert_again
  output_addresses_accumulate_out_tbl.insert_again
  output_addresses_accumulate_in_tbl.insert_again
  output_txs_accumulate_tbl.insert_again
  accumulate_balances_received_tbl.insert_again
  accumulate_balances_sent_tbl.insert_again
  accumulate_balances_transactions_tbl.insert_again
  transactions_rewards_owners_tbl.insert_again
  transactions_rewards_owners_address_tbl.insert_again
  transactions_rewards_owners_outputs_tbl.insert_again
  tx_pool_tbl.insert_again
  key_value_store_tbl.insert_again
  node_index_tbl.insert_again

lemma extends_refl [simp]: "extends d d"
  by (simp add: extends_def)

lemma extends_trans: "extends d d1 \<Longrightarrow> extends d1 d2 \<Longrightarrow> extends d d2"
  by (auto simp: extends_def intro: prefix_order.trans)

lemma ins_spec_extends: "extends d (ins_spec c d)"
  by (cases c) (simp_all add: extends_def ins_row_prefix)

lemma ins_spec_again: "ins_spec c (ins_spec c d) = ins_spec c d"
  by (cases c) (simp_all add: insert_again_all)

lemma ins_spec_settled:
  assumes "ins_spec c d = d" and "extends d d'"
  shows "ins_spec c d' = d'"
  using assms unfolding extends_def by (cases c) (auto intro: skip_later_all)

lemma fold_extends: "extends d (fold ins_spec cs d)"
proof (induction cs arbitrary: d)
  case (Cons c cs)
  show ?case using extends_trans [OF ins_spec_extends Cons.IH] by simp
qed simp

lemma fold_settled: "c \<in> set cs \<Longrightarrow> ins_spec c (fold ins_spec cs d) = fold ins_spec cs d"
proof (induction cs arbitrary: d)
  case (Cons b cs)
  show ?case
  proof (cases "c \<in> set cs")
    case True
    then show ?thesis using Cons.IH by simp
  next
    case False
    with Cons.prems have "b = c" by simp
    have "ins_spec c (fold ins_spec cs (ins_spec c d)) = fold ins_spec cs (ins_spec c d)"
      by (rule ins_spec_settled [OF ins_spec_again fold_extends])
    with \<open>b = c\<close> show ?thesis by simp
  qed
qed simp

lemma fold_noop: "(\<And>c. c \<in> set cs \<Longrightarrow> ins_spec c d = d) \<Longrightarrow> fold ins_spec cs d = d"
  by (induction cs) simp_all

lemma fold_replay: "fold ins_spec cs (fold ins_spec cs d) = fold ins_spec cs d"
  by (rule fold_noop) (rule fold_settled)

lemma each_run_call_calm:
  assumes "list_all insert_only cs" and "calm w"
  shows "each run_call cs w =
     (Inr (), w\<lparr>stmts := stmts w + length cs, store := fold ins_spec cs (store w)\<rparr>)"
  using assms
proof (induction cs arbitrary: w)
  case Nil
  then show ?case by (simp add: ret_def)
next
  case (Cons c cs)
  let ?w = "w\<lparr>stmts := Suc (stmts w), store := ins_spec c (store w)\<rparr>"
  have "calm ?w" using Cons.prems(2) by (simp add: calm_def)
  with Cons.IH [of ?w] Cons.prems show ?case
    by (simp add: andThen_def bind_def run_call_calm)
qed

section \<open>Properties\<close>

text \<open>The databases that the operations can produce, in whatever order they run and whatever
  the driver answers.\<close>

inductive db_reach :: "database \<Rightarrow> bool" where
  start: "db_reach empty_db"
| call: "db_reach (store w) \<Longrightarrow> db_reach (store (snd (run_call c w)))"



text \<open>C8: as long as no call is made with updates switched on, the ledger is append-only: every
  row of every ledger table is kept unchanged and in place, whatever fails in between.\<close>

theorem ledger_append_only:
  assumes "list_all (\<lambda>c. \<not> rewrites_ledger c) cs"
  shows "grows (store w) (store (snd (each run_call cs w)))"
proof -
  have "steps (on_store grows) (each run_call cs)"
    using assms by (intro grow.steps_each run_call_grows) (auto simp: list_all_iff)
  then show ?thesis by (auto simp: steps_def on_store_def)
qed

theorem ledger_append_only_witness:
  "let w = \<lparr>store = empty_db, faults = (\<lambda>_. None), stmts = 0, clock = (\<lambda>_. 0), ticks = 0\<rparr>;
       cs = [CallRemoveTxPool \<lparr>tp_ID = ''p'', tp_NetworkID = 1, tp_ChainID = ''c'', tp_MsgKey = ''k'',
               tp_Serialization = [], tp_Topic = ''t'', tp_CreatedAt = 0\<rparr>]
   in list_all (\<lambda>c. \<not> rewrites_ledger c) cs \<and> grows (store w) (store (snd (each run_call cs w)))"
  unfolding Let_def by (intro conjI ledger_append_only) simp_all




end
