(* ===== verification/Balance_Manager.thy ===== *)
theory Balance_Manager
  imports Db_Replay "HOL-Library.Multiset"
begin

text \<open>
  The accumulation of balances: \<^verbatim>\<open>src/balance/balance_manager.go\<close>.

  The writers queue one row per output and address in
  \<^verbatim>\<open>output_addresses_accumulate_out\<close> (the output was created) and in
  \<^verbatim>\<open>output_addresses_accumulate_in\<close> (it was spent).  The \<^verbatim>\<open>Handler\<close> reads a page
  of unprocessed rows, works through it in batches, one database transaction per batch,
  and adds every row to the balance of its chain, asset and address; the transactions seen
  on the way are queued in turn and counted.  The \<^verbatim>\<open>Manager\<close> runs several such handlers
  at the same time.

  \<^verbatim>\<open>for\<close> loops that end only when the database stops reporting lock errors are
  \<^theory_text>\<open>partial_function (option)\<close>: the value \<open>None\<close> is a loop that runs for ever.  The
  random numbers of \<^verbatim>\<open>rand.Shuffle\<close> are a parameter.

  The locale \<open>tally\<close> is the contract between a queue and the totals kept of it; it is
  interpreted on the two queues of outputs and on the queue of transactions.
\<close>

section \<open>Loops that may not end\<close>

type_synonym ('d, 'a) run = "'d world \<Rightarrow> ((goerr + 'a) \<times> 'd world) option"

definition once :: "('d, 'a) go \<Rightarrow> ('d, 'a) run" where
  "once m w = Some (m w)"

definition then_run :: "('d, 'a) run \<Rightarrow> ('a \<Rightarrow> ('d, 'b) run) \<Rightarrow> ('d, 'b) run" where
  "then_run m f w =
     (case m w of
        None \<Rightarrow> None
      | Some (Inl e, w1) \<Rightarrow> Some (Inl e, w1)
      | Some (Inr x, w1) \<Rightarrow> f x w1)"

partial_function (option) RepeatForLock :: "('d, unit) go \<Rightarrow> ('d, unit) run" where
  "RepeatForLock f w =
     (case f w of
        (Inr _, w1) \<Rightarrow> Some (Inr (), w1)
      | (Inl e, w1) \<Rightarrow> (if ErrIsLockError (Some e) then RepeatForLock f w1 else Some (Inl e, w1)))"

declare RepeatForLock.simps [code]

section \<open>Constants and tables\<close>

definition RowLimitValue :: nat where
  "RowLimitValue = 5000"

definition LockSize :: nat where
  "LockSize = 5"

definition retryProcessing :: nat where
  "retryProcessing = 3"

datatype processType = processTypeIn | processTypeOut

text \<open>\<^verbatim>\<open>outTable\<close> and \<^verbatim>\<open>balanceTable\<close> give the name of a table; here they give how to
  read it, and the updaters how to write it.\<close>

definition outTable :: "processType \<Rightarrow> database \<Rightarrow> OutputAddressAccumulate list" where
  "outTable ty = (case ty of
      processTypeOut \<Rightarrow> output_addresses_accumulate_out
    | processTypeIn \<Rightarrow> output_addresses_accumulate_in)"

definition outTable_update ::
  "processType \<Rightarrow> (OutputAddressAccumulate list \<Rightarrow> OutputAddressAccumulate list) \<Rightarrow> database \<Rightarrow> database" where
  "outTable_update ty = (case ty of
      processTypeOut \<Rightarrow> output_addresses_accumulate_out_update
    | processTypeIn \<Rightarrow> output_addresses_accumulate_in_update)"

definition balanceTable :: "processType \<Rightarrow> database \<Rightarrow> AccumulateBalancesAmount list" where
  "balanceTable ty = (case ty of
      processTypeOut \<Rightarrow> accumulate_balances_received
    | processTypeIn \<Rightarrow> accumulate_balances_sent)"

definition balanceTable_update ::
  "processType \<Rightarrow> (AccumulateBalancesAmount list \<Rightarrow> AccumulateBalancesAmount list) \<Rightarrow> database \<Rightarrow> database" where
  "balanceTable_update ty = (case ty of
      processTypeOut \<Rightarrow> accumulate_balances_received_update
    | processTypeIn \<Rightarrow> accumulate_balances_sent_update)"

text \<open>\<^verbatim>\<open>rand.Shuffle\<close>: from the last position down, exchange each element with one at a
  random position not after it.\<close>

definition swap :: "'a list \<Rightarrow> nat \<Rightarrow> nat \<Rightarrow> 'a list" where
  "swap xs i j = xs[j := xs ! i, i := xs ! j]"

primrec shuffle_from :: "(nat \<Rightarrow> nat) \<Rightarrow> nat \<Rightarrow> 'a list \<Rightarrow> 'a list" where
  "shuffle_from r 0 xs = xs"
| "shuffle_from r (Suc i) xs = shuffle_from r i (swap xs (Suc i) (r (Suc i) mod Suc (Suc i)))"

definition Shuffle :: "(nat \<Rightarrow> nat) \<Rightarrow> 'a list \<Rightarrow> 'a list" where
  "Shuffle r xs = shuffle_from r (length xs - 1) xs"

definition shuffled :: "(nat \<Rightarrow> nat \<Rightarrow> nat) \<Rightarrow> 'a list \<Rightarrow> ('d, 'a list) go" where
  "shuffled rnd xs w = (Inr (Shuffle (rnd (stmts w)) xs), w)"

section \<open>Outputs\<close>

text \<open>The two nested selects of \<^verbatim>\<open>processOutputsPre\<close>.  All rows that pass the condition
  agree on \<^verbatim>\<open>processed\<close> and \<^verbatim>\<open>output_processed\<close>, so ordering by these columns first
  leaves the order by creation time.\<close>

definition selectOutputs :: "bool \<Rightarrow> processType \<Rightarrow> database \<Rightarrow> OutputAddressAccumulate list" where
  "selectOutputs outputProcessed ty d =
     (let b = [a. a \<leftarrow> outTable ty d, o1 \<leftarrow> avm_outputs d, oaa_OutputID a = out_ID o1];
          b1 = filter (\<lambda>a. oaa_Processed a = 0) b;
          b2 = (case ty of
                  processTypeOut \<Rightarrow> b1
                | processTypeIn \<Rightarrow>
                    if outputProcessed then filter (\<lambda>a. oaa_OutputProcessed a = 1) b1
                    else [a. a \<leftarrow> b1, r \<leftarrow> avm_outputs_redeeming d, oaa_OutputID a = red_ID r]);
          sb = take RowLimitValue (sort_key oaa_CreatedAt b2);
          scq = [(a, o1). a \<leftarrow> sb, o1 \<leftarrow> avm_outputs d, oaa_OutputID a = out_ID o1];
          scq1 = (case ty of
                  processTypeOut \<Rightarrow> scq
                | processTypeIn \<Rightarrow>
                    [(a, o1). (a, o1) \<leftarrow> scq, r \<leftarrow> avm_outputs_redeeming d, oaa_OutputID a = red_ID r])
      in map (\<lambda>(a, o1). \<lparr>oaa_ID = oaa_ID a, oaa_OutputID = oaa_OutputID a, oaa_Address = oaa_Address a,
                          oaa_Processed = 0, oaa_OutputProcessed = 0,
                          oaa_TransactionID = out_TransactionID o1, oaa_OutputIndex = 0,
                          oaa_CreatedAt = 0\<rparr>) scq1)"

definition processOutputsPre ::
  "(nat \<Rightarrow> nat \<Rightarrow> nat) \<Rightarrow> bool \<Rightarrow> processType \<Rightarrow> (database, OutputAddressAccumulate list) go" where
  "processOutputsPre rnd outputProcessed ty =
     bind (query (\<lambda>d. Inr (selectOutputs outputProcessed ty d))) (shuffled rnd)"

text \<open>\<^verbatim>\<open>sum(...) ... group by\<close>: one row per distinct key, in the order of first
  appearance.\<close>

fun group_sum :: "('k \<times> nat) list \<Rightarrow> ('k \<times> nat) list" where
  "group_sum [] = []"
| "group_sum ((k, n) # xs) =
     (k, n + sum_list (map snd (filter (\<lambda>x. fst x = k) xs))) # group_sum (filter (\<lambda>x. fst x \<noteq> k) xs)"

definition selectBalances :: "string \<Rightarrow> string \<Rightarrow> database \<Rightarrow> AccumulateBalancesAmount list" where
  "selectBalances outputID address d =
     map (\<lambda>((chain, addr, asset), total).
           \<lparr>aba_ID = [], aba_ChainID = chain, aba_AssetID = asset, aba_Address = addr,
            aba_TotalAmount = total, aba_UtxoCount = 0, aba_UpdatedAt = 0\<rparr>)
       (group_sum
          [((out_ChainID o1, oad_Address a, out_AssetID o1), unat (out_Amount o1)).
             o1 \<leftarrow> avm_outputs d, a \<leftarrow> avm_output_addresses d,
             out_ID o1 = oad_OutputID a \<and> out_ID o1 = outputID \<and> oad_Address a = address])"

definition unix_one :: gotime where
  "unix_one = 1000000000"

text \<open>Lock the row of the balance and add to it.\<close>

definition lockAndAdd :: "processType \<Rightarrow> AccumulateBalancesAmount \<Rightarrow> (database, unit) go" where
  "lockAndAdd ty b =
     bind (sql_load (balanceTable ty) (\<lambda>r. aba_ID r = aba_ID b) aba_ID) (\<lambda>balancesLocked.
       case balancesLocked of
         [] \<Rightarrow> fail ''balancesLocked failed''
       | brow # _ \<Rightarrow>
           if brow \<noteq> aba_ID b then fail ''balancesLocked failed''
           else bind time_now (\<lambda>now.
             sql_update (balanceTable ty) (balanceTable_update ty) AccumulateBalancesAmount_clash
               (\<lambda>r. aba_ID r = aba_ID b)
               (\<lambda>r. r\<lparr>aba_UtxoCount := aba_UtxoCount r + 1,
                      aba_TotalAmount := aba_TotalAmount r + aba_TotalAmount b,
                      aba_UpdatedAt := now\<rparr>)))"

text \<open>The body of the loop over the balances.\<close>

definition processBalance ::
  "nodelib \<Rightarrow> processType \<Rightarrow> OutputAddressAccumulate \<Rightarrow> AccumulateBalancesAmount \<Rightarrow> (database, unit) go" where
  "processBalance L ty row b0 =
     bind time_now (\<lambda>now.
       let outputsTxsAccumulate = OutputTxsAccumulate_ComputeID L
             \<lparr>ota_ID = [], ota_ChainID = aba_ChainID b0, ota_AssetID = aba_AssetID b0,
              ota_Address = aba_Address b0, ota_TransactionID = oaa_TransactionID row,
              ota_Processed = 0, ota_CreatedAt = now\<rparr>;
           b = AccumulateBalancesAmount_ComputeID L (b0\<lparr>aba_UpdatedAt := unix_one\<rparr>)
       in
       andThen (InsertOutputTxsAccumulate outputsTxsAccumulate)
       (andThen (case ty of
                   processTypeOut \<Rightarrow> InsertAccumulateBalancesReceived b
                 | processTypeIn \<Rightarrow> InsertAccumulateBalancesSent b)
        (lockAndAdd ty b)))"

definition processOutputsBase ::
  "nodelib \<Rightarrow> processType \<Rightarrow> OutputAddressAccumulate \<Rightarrow> (database, unit) go" where
  "processOutputsBase L ty row =
     andThen (sql_update (outTable ty) (outTable_update ty) OutputAddressAccumulate_clash
                (\<lambda>r. oaa_ID r = oaa_ID row) (\<lambda>r. r\<lparr>oaa_Processed := 1\<rparr>))
     (bind (query (\<lambda>d. Inr (selectBalances (oaa_OutputID row) (oaa_Address row) d))) (\<lambda>balances.
        if balances = [] then fail ''invalid balance''
        else each (processBalance L ty row) balances))"

text \<open>A key that is missing from the map gives a nil row, and using it stops the program.\<close>

definition nil_panic :: goerr where
  "nil_panic = ''runtime error: invalid memory address or nil pointer dereference''"

definition processOutputsPost ::
  "nodelib \<Rightarrow> processType \<Rightarrow> (string \<rightharpoonup> OutputAddressAccumulate) \<Rightarrow> string list \<Rightarrow> (database, unit) go" where
  "processOutputsPost L ty workRows workRowsID =
     with_tx_if
       (bind (sql_load (outTable ty) (\<lambda>r. oaa_Processed r = 0 \<and> oaa_ID r \<in> set workRowsID) oaa_ID)
         (\<lambda>rowdata.
            if rowdata = [] then ret False
            else andThen
              (each (\<lambda>i. case workRows i of None \<Rightarrow> fail nil_panic
                          | Some row \<Rightarrow> processOutputsBase L ty row) rowdata)
              (ret True)))"

text \<open>The loop that both \<^verbatim>\<open>processOutputs\<close> and \<^verbatim>\<open>processTransactions\<close> run over the rows
  of a page: rows are collected until there are more than \<^verbatim>\<open>LockSize\<close> of them.\<close>

fun batches ::
  "('r \<Rightarrow> string) \<Rightarrow> ((string \<rightharpoonup> 'r) \<Rightarrow> string list \<Rightarrow> ('d, unit) go) \<Rightarrow>
   'r list \<Rightarrow> (string \<rightharpoonup> 'r) \<Rightarrow> string list \<Rightarrow> ('d, unit) run" where
  "batches rid post [] trows trowsID =
     (if length trowsID > 0 then RepeatForLock (post trows trowsID) else once (ret ()))"
| "batches rid post (row # rows) trows trowsID =
     (let trows1 = trows(rid row \<mapsto> row);
          trowsID1 = trowsID @ [rid row]
      in if length trowsID1 > LockSize
         then then_run (RepeatForLock (post trows1 trowsID1))
                (\<lambda>_. batches rid post rows Map.empty [])
         else batches rid post rows trows1 trowsID1)"

definition processOutputs ::
  "nodelib \<Rightarrow> (nat \<Rightarrow> nat \<Rightarrow> nat) \<Rightarrow> bool \<Rightarrow> processType \<Rightarrow> (database, u64) run" where
  "processOutputs L rnd outputProcessed ty =
     then_run (once (processOutputsPre rnd outputProcessed ty)) (\<lambda>rowdataAvail.
       then_run
         (if length rowdataAvail > 0
          then batches oaa_ID (processOutputsPost L ty) rowdataAvail Map.empty []
          else once (ret ()))
         (\<lambda>_. once (ret (word_of_nat (length rowdataAvail)))))"

section \<open>Transactions\<close>

definition selectTransactions :: "database \<Rightarrow> OutputTxsAccumulate list" where
  "selectTransactions d =
     map (\<lambda>r. r\<lparr>ota_CreatedAt := 0\<rparr>)
       (take RowLimitValue (sort_key ota_CreatedAt (filter (\<lambda>r. ota_Processed r = 0) (output_txs_accumulate d))))"

definition processTransactionsPre :: "(nat \<Rightarrow> nat \<Rightarrow> nat) \<Rightarrow> (database, OutputTxsAccumulate list) go" where
  "processTransactionsPre rnd =
     bind (query (\<lambda>d. Inr (selectTransactions d))) (shuffled rnd)"

definition lockAndCount :: "AccumulateBalancesTransactions \<Rightarrow> (database, unit) go" where
  "lockAndCount b =
     bind (sql_load accumulate_balances_transactions (\<lambda>r. abt_ID r = abt_ID b) abt_ID) (\<lambda>balancesLocked.
       case balancesLocked of
         [] \<Rightarrow> fail ''balancesLocked failed''
       | brow # _ \<Rightarrow>
           if brow \<noteq> abt_ID b then fail ''balancesLocked failed''
           else bind time_now (\<lambda>now.
             sql_update accumulate_balances_transactions accumulate_balances_transactions_update
               AccumulateBalancesTransactions_clash
               (\<lambda>r. abt_ID r = abt_ID b)
               (\<lambda>r. r\<lparr>abt_TransactionCount := abt_TransactionCount r + 1,
                      abt_UpdatedAt := now\<rparr>)))"

definition processTransactionsBase :: "nodelib \<Rightarrow> OutputTxsAccumulate \<Rightarrow> (database, unit) go" where
  "processTransactionsBase L row =
     andThen (sql_update output_txs_accumulate output_txs_accumulate_update OutputTxsAccumulate_clash
                (\<lambda>r. ota_ID r = ota_ID row) (\<lambda>r. r\<lparr>ota_Processed := 1\<rparr>))
     (let b = AccumulateBalancesTransactions_ComputeID L
            \<lparr>abt_ID = [], abt_ChainID = ota_ChainID row, abt_AssetID = ota_AssetID row,
             abt_Address = ota_Address row, abt_TransactionCount = 0, abt_UpdatedAt = unix_one\<rparr>
      in
      andThen (InsertAccumulateBalancesTransactions b) (lockAndCount b))"

definition processTransactionsPost ::
  "nodelib \<Rightarrow> (string \<rightharpoonup> OutputTxsAccumulate) \<Rightarrow> string list \<Rightarrow> (database, unit) go" where
  "processTransactionsPost L workRows workRowsID =
     with_tx_if
       (bind (sql_load output_txs_accumulate (\<lambda>r. ota_Processed r = 0 \<and> ota_ID r \<in> set workRowsID) ota_ID)
         (\<lambda>rowdata.
            if rowdata = [] then ret False
            else andThen
              (each (\<lambda>i. case workRows i of None \<Rightarrow> fail nil_panic
                          | Some row \<Rightarrow> processTransactionsBase L row) rowdata)
              (ret True)))"

definition processTransactions :: "nodelib \<Rightarrow> (nat \<Rightarrow> nat \<Rightarrow> nat) \<Rightarrow> (database, u64) run" where
  "processTransactions L rnd =
     then_run (once (processTransactionsPre rnd)) (\<lambda>rowdataAvail.
       then_run
         (if length rowdataAvail > 0
          then batches ota_ID (processTransactionsPost L) rowdataAvail Map.empty []
          else once (ret ()))
         (\<lambda>_. once (ret (word_of_nat (length rowdataAvail)))))"

section \<open>The manager\<close>

text \<open>\<^verbatim>\<open>runEvent\<close>, the same code in \<^verbatim>\<open>runTicker\<close> and in \<^verbatim>\<open>runProcessing\<close>.  The
  counter is reset and then incremented by the \<^verbatim>\<open>for\<close> statement, also after
  \<^verbatim>\<open>continue\<close>.  The result is the error that is logged, if any.\<close>

partial_function (option) runEvent ::
  "('d, u64) run \<Rightarrow> nat \<Rightarrow> 'd world \<Rightarrow> (goerr option \<times> 'd world) option" where
  "runEvent f icnt w =
     (if icnt < retryProcessing
      then (case f w of
              None \<Rightarrow> None
            | Some (Inl e, w1) \<Rightarrow>
                (if ErrIsLockError (Some e) then runEvent f (0 + 1) w1 else Some (Some e, w1))
            | Some (Inr cnt, w1) \<Rightarrow>
                (if cnt < word_of_nat RowLimitValue then Some (None, w1) else runEvent f (0 + 1) w1))
      else Some (None, w))"

declare runEvent.simps [code]

text \<open>The three channels of a group of workers have capacity one: a signal is pending or it
  is not, and sending to a full channel is skipped.\<close>

record managerChannels =
  mc_ins :: bool
  mc_outs :: bool
  mc_txs :: bool

definition newManagerChannels :: managerChannels where
  "newManagerChannels = \<lparr>mc_ins = False, mc_outs = False, mc_txs = False\<rparr>"

record Manager =
  managerChannelsList :: "managerChannels list"
  enabled :: bool

definition NewManager :: Manager where
  "NewManager = \<lparr>managerChannelsList = [], enabled = False\<rparr>"

text \<open>\<^verbatim>\<open>sc.Database()\<close> opens a connection: for the ticker first, then three per group.\<close>

primrec Start_groups :: "nat \<Rightarrow> (nat \<Rightarrow> goerr option) \<Rightarrow> nat \<Rightarrow> Manager \<Rightarrow> goerr option \<times> Manager" where
  "Start_groups 0 opened k a = (None, a)"
| "Start_groups (Suc n) opened k a =
     (let a1 = a\<lparr>managerChannelsList := managerChannelsList a @ [newManagerChannels]\<rparr> in
      case opened k of Some e \<Rightarrow> (Some e, a1)
      | None \<Rightarrow> (case opened (k + 1) of Some e \<Rightarrow> (Some e, a1)
      | None \<Rightarrow> (case opened (k + 2) of Some e \<Rightarrow> (Some e, a1)
      | None \<Rightarrow> Start_groups n opened (k + 3) a1)))"

definition Start :: "(nat \<Rightarrow> goerr option) \<Rightarrow> bool \<Rightarrow> Manager \<Rightarrow> goerr option \<times> Manager" where
  "Start opened en a =
     (let a1 = a\<lparr>enabled := en\<rparr> in
      if \<not> en then (None, a1)
      else (case opened 0 of Some e \<Rightarrow> (Some e, a1) | None \<Rightarrow> Start_groups 2 opened 1 a1))"

definition Exec :: "Manager \<Rightarrow> Manager" where
  "Exec a = (if \<not> enabled a then a
             else a\<lparr>managerChannelsList := map (\<lambda>c. c\<lparr>mc_ins := True, mc_outs := True, mc_txs := True\<rparr>)
                                                (managerChannelsList a)\<rparr>)"

section \<open>The shuffle and the retry loop\<close>

lemma length_swap [simp]: "length (swap xs i j) = length xs"
  by (simp add: swap_def)

lemma mset_shuffle_from: "n < length xs \<or> n = 0 \<Longrightarrow> mset (shuffle_from r n xs) = mset xs"
proof (induction n arbitrary: xs)
  case (Suc i)
  let ?j = "r (Suc i) mod Suc (Suc i)"
  have "?j < Suc (Suc i)" by simp
  moreover have "Suc i < length xs" using Suc.prems by simp
  ultimately have j: "?j < length xs" by linarith
  have "mset (shuffle_from r (Suc i) xs) = mset (swap xs (Suc i) ?j)"
    using Suc by simp
  also have "\<dots> = mset xs"
    unfolding swap_def using Suc.prems j by (intro mset_swap) simp_all
  finally show ?case .
qed simp

lemma mset_Shuffle [simp]: "mset (Shuffle r xs) = mset xs"
  unfolding Shuffle_def by (rule mset_shuffle_from) (cases xs; simp)

lemma set_Shuffle [simp]: "set (Shuffle r xs) = set xs"
  by (metis mset_Shuffle set_mset_mset)

lemma length_Shuffle [simp]: "length (Shuffle r xs) = length xs"
  by (metis mset_Shuffle size_mset)

text \<open>The retry loop returns what the first attempt without a lock error returned.\<close>

lemma RepeatForLock_result:
  assumes "RepeatForLock f w = Some (r, w')" and "I w"
    and "\<And>w e w1. I w \<Longrightarrow> f w = (Inl e, w1) \<Longrightarrow> ErrIsLockError (Some e) \<Longrightarrow> I w1"
  shows "\<exists>w1. I w1 \<and> f w1 = (r, w') \<and> (\<forall>e. r = Inl e \<longrightarrow> \<not> ErrIsLockError (Some e))"
proof -
  let ?keeps = "\<lambda>f. \<forall>w e w1. I w \<longrightarrow> f w = (Inl e, w1) \<longrightarrow> ErrIsLockError (Some e) \<longrightarrow> I w1"
  let ?Q = "\<lambda>f y. \<exists>w1. I w1 \<and> f w1 = y \<and> (\<forall>e. fst y = Inl e \<longrightarrow> \<not> ErrIsLockError (Some e))"
  have "I w \<longrightarrow> ?keeps f \<longrightarrow> ?Q f y" if "RepeatForLock f w = Some y" for y
  proof (rule RepeatForLock.raw_induct [rotated, OF that])
    fix rep :: "('a, unit) go \<Rightarrow> ('a, unit) run" and f w y
    assume IH: "\<And>f w y. rep f w = Some y \<Longrightarrow> I w \<longrightarrow> ?keeps f \<longrightarrow> ?Q f y"
      and run: "(case f w of (Inl e, w1) \<Rightarrow> if ErrIsLockError (Some e) then rep f w1 else Some (Inl e, w1)
               | (Inr x, w1) \<Rightarrow> Some (Inr (), w1)) = Some y"
    show "I w \<longrightarrow> ?keeps f \<longrightarrow> ?Q f y"
    proof (intro impI)
      assume w: "I w" and step: "?keeps f"
      obtain x w1 where fw: "f w = (x, w1)" by (cases "f w")
      show "?Q f y"
      proof (cases "\<exists>e. x = Inl e \<and> ErrIsLockError (Some e)")
        case True
        with run fw have "rep f w1 = Some y" by auto
        moreover have "I w1" using True step w fw by blast
        ultimately show ?thesis using IH [of f w1 y] step by blast
      next
        case False
        with run fw have "y = (x, w1)" by (auto split: sum.splits if_splits)
        with False fw w show ?thesis by auto
      qed
    qed
  qed
  from this [OF assms(1)] assms(2,3) show ?thesis by auto
qed

lemma RepeatForLock_inv:
  assumes "RepeatForLock f w = Some (r, w')" and "I w" and "\<And>w. I w \<Longrightarrow> I (snd (f w))"
  shows "\<exists>w1. I w1 \<and> f w1 = (r, w') \<and> (\<forall>e. r = Inl e \<longrightarrow> \<not> ErrIsLockError (Some e))"
  by (rule RepeatForLock_result [where I = I, OF assms(1,2)]) (use assms(3) in \<open>metis snd_conv\<close>)

lemma RepeatForLock_step:
  "f w = (Inl e, w1) \<Longrightarrow> ErrIsLockError (Some e) \<Longrightarrow> RepeatForLock f w = RepeatForLock f w1"
  "f w = (Inl e, w1) \<Longrightarrow> \<not> ErrIsLockError (Some e) \<Longrightarrow> RepeatForLock f w = Some (Inl e, w1)"
  "f w = (Inr x, w1) \<Longrightarrow> RepeatForLock f w = Some (Inr (), w1)"
  by (subst RepeatForLock.simps, simp)+

text \<open>It ends when there is a measure that lock errors use up.\<close>

lemma RepeatForLock_ends:
  assumes "\<And>w e w1. I w \<Longrightarrow> f w = (Inl e, w1) \<Longrightarrow> ErrIsLockError (Some e) \<Longrightarrow> I w1 \<and> m w1 < (m w :: nat)"
    and "I w"
  shows "\<exists>y. RepeatForLock f w = Some y"
  using assms(2)
proof (induction "m w" arbitrary: w rule: less_induct)
  case less
  obtain x w1 where fw: "f w = (x, w1)" by (cases "f w")
  show ?case
  proof (cases "\<exists>e. x = Inl e \<and> ErrIsLockError (Some e)")
    case True
    then obtain e where e: "x = Inl e" "ErrIsLockError (Some e)" by blast
    with assms(1) [of w e w1] fw less.prems have "I w1" "m w1 < m w" by auto
    with less.hyps have "\<exists>y. RepeatForLock f w1 = Some y" by blast
    with RepeatForLock_step(1) fw e show ?thesis by metis
  next
    case False
    with RepeatForLock_step(2,3) fw show ?thesis by (metis sum.exhaust)
  qed
qed

section \<open>Early return from a transaction\<close>

lemma with_tx_if_result:
  assumes "with_tx_if m w = (r, w')"
  shows "store w' = store w \<and> (\<forall>x. r = Inr x \<longrightarrow> (\<exists>w1. m (w\<lparr>stmts := Suc (stmts w)\<rparr>) = (Inr False, w1)))
    \<or> (\<exists>w1. m (w\<lparr>stmts := Suc (stmts w)\<rparr>) = (Inr True, w1) \<and> store w' = store w1)"
  using assms
  by (auto simp: with_tx_if_def exec_def Let_def
      split: prod.splits sum.splits option.splits bool.splits)

text \<open>The transaction that works off one batch, for any queue.\<close>

definition batch_tx ::
  "('d \<Rightarrow> 'r list) \<Rightarrow> ('r \<Rightarrow> string) \<Rightarrow> ('r \<Rightarrow> bool) \<Rightarrow> ('r \<Rightarrow> ('d, unit) go) \<Rightarrow>
   (string \<rightharpoonup> 'r) \<Rightarrow> string list \<Rightarrow> ('d, unit) go" where
  "batch_tx work rid pending process workRows ids =
     with_tx_if
       (bind (sql_load work (\<lambda>r. pending r \<and> rid r \<in> set ids) rid) (\<lambda>rowdata.
          if rowdata = [] then ret False
          else andThen
            (each (\<lambda>i. case workRows i of None \<Rightarrow> fail nil_panic | Some row \<Rightarrow> process row) rowdata)
            (ret True)))"

lemma processOutputsPost_batch:
  "processOutputsPost L ty = batch_tx (outTable ty) oaa_ID (\<lambda>r. oaa_Processed r = 0) (processOutputsBase L ty)"
  by (simp add: fun_eq_iff processOutputsPost_def batch_tx_def)

lemma processTransactionsPost_batch:
  "processTransactionsPost L = batch_tx output_txs_accumulate ota_ID (\<lambda>r. ota_Processed r = 0)
     (processTransactionsBase L)"
  by (simp add: fun_eq_iff processTransactionsPost_def batch_tx_def)

section \<open>The contract between a queue and its totals\<close>

text \<open>\<open>pending_id d i\<close>: the queue holds an unprocessed row with key \<open>i\<close>.  \<open>fits d r\<close>: the
  row \<open>r\<close> that a worker read earlier still describes the stored row with its key.
  \<open>balanced d\<close>: every total is the sum of the shares of the processed rows.\<close>

definition pending_id :: "('d \<Rightarrow> 'r list) \<Rightarrow> ('r \<Rightarrow> string) \<Rightarrow> ('r \<Rightarrow> bool) \<Rightarrow> 'd \<Rightarrow> string \<Rightarrow> bool" where
  "pending_id work rid pending d i = list_ex (\<lambda>s. rid s = i \<and> pending s) (work d)"

definition fits :: "('d \<Rightarrow> 'r list) \<Rightarrow> ('r \<Rightarrow> string) \<Rightarrow> ('r \<Rightarrow> 'r \<Rightarrow> bool) \<Rightarrow> 'd \<Rightarrow> 'r \<Rightarrow> bool" where
  "fits work rid agree d r = list_all (\<lambda>s. rid s = rid r \<longrightarrow> agree r s) (work d)"

definition balanced ::
  "('d \<Rightarrow> 'r list) \<Rightarrow> ('r \<Rightarrow> bool) \<Rightarrow> ('d \<Rightarrow> 'k \<Rightarrow> nat) \<Rightarrow> ('d \<Rightarrow> 'r \<Rightarrow> 'k \<Rightarrow> nat) \<Rightarrow> 'd \<Rightarrow> bool" where
  "balanced work pending tot share d \<longleftrightarrow>
     (\<forall>k. tot d k = sum_list (map (\<lambda>r. if pending r then 0 else share d r k) (work d)))"

lemma upd_rows_Cons [simp]:
  "upd_rows wh f (x # t) = (if wh x then f x else x) # upd_rows wh f t"
  by (simp add: upd_rows_def)

lemma upd_rows_Nil [simp]: "upd_rows wh f [] = []"
  by (simp add: upd_rows_def)

lemma upd_rows_none: "(\<And>x. x \<in> set t \<Longrightarrow> \<not> wh x) \<Longrightarrow> upd_rows wh f t = t"
  by (induction t) auto

lemma sum_upd_rows:
  fixes g :: "'r \<Rightarrow> nat"
  assumes "distinct (map rid t)" and "s \<in> set t"
  shows "sum_list (map g (upd_rows (\<lambda>x. rid x = rid s) f t)) + g s = sum_list (map g t) + g (f s)"
  using assms
proof (induction t)
  case (Cons x t)
  show ?case
  proof (cases "x = s")
    case True
    with Cons.prems have "upd_rows (\<lambda>x. rid x = rid s) f t = t"
      by (intro upd_rows_none) (metis distinct.simps(2) image_eqI list.simps(9) set_map)
    with True Cons.prems show ?thesis by simp
  next
    case False
    with Cons.prems have "rid x \<noteq> rid s" by (auto simp: image_iff)
    with False Cons show ?thesis by auto
  qed
qed simp

locale queue =
  fixes okay :: "'d \<Rightarrow> bool"
    and work :: "'d \<Rightarrow> 'r list"
    and rid :: "'r \<Rightarrow> string"
    and pending :: "'r \<Rightarrow> bool"
    and mark :: "'r \<Rightarrow> 'r"
    and agree :: "'r \<Rightarrow> 'r \<Rightarrow> bool"
    and tot :: "'d \<Rightarrow> string \<Rightarrow> nat"
    and share :: "'d \<Rightarrow> 'r \<Rightarrow> string \<Rightarrow> nat"
    and process :: "'r \<Rightarrow> ('d, unit) go"
  assumes keys_distinct: "okay d \<Longrightarrow> distinct (map rid (work d))"
    and mark_rid: "rid (mark r) = rid r"
    and mark_done: "\<not> pending (mark r)"
    and mark_agree: "agree q r \<Longrightarrow> agree q (mark r)"
    and agree_share: "agree q r \<Longrightarrow> share d q k = share d r k"
    and mark_share: "share d (mark r) k = share d r k"
    and process_okay: "process r w = (Inr (), w') \<Longrightarrow> okay (store w) \<Longrightarrow>
          fits work rid agree (store w) r \<Longrightarrow> okay (store w')"
    and process_work: "process r w = (Inr (), w') \<Longrightarrow>
          work (store w') = upd_rows (\<lambda>x. rid x = rid r) mark (work (store w))"
    and process_total: "process r w = (Inr (), w') \<Longrightarrow> okay (store w) \<Longrightarrow>
          tot (store w') k = tot (store w) k + share (store w) r k"
    and process_share: "process r w = (Inr (), w') \<Longrightarrow> share (store w') = share (store w)"
begin

abbreviation waits :: "'d \<Rightarrow> string \<Rightarrow> bool" where
  "waits \<equiv> pending_id work rid pending"

abbreviation fresh :: "'d \<Rightarrow> 'r \<Rightarrow> bool" where
  "fresh \<equiv> fits work rid agree"

abbreviation sound :: "'d \<Rightarrow> bool" where
  "sound \<equiv> balanced work pending tot share"

lemma waits_mark:
  "work d' = upd_rows (\<lambda>x. rid x = rid r) mark (work d) \<Longrightarrow> waits d' i \<longleftrightarrow> i \<noteq> rid r \<and> waits d i"
  by (auto simp: pending_id_def upd_rows_def list_ex_iff mark_rid mark_done split: if_splits)

lemma fresh_mark:
  "work d' = upd_rows (\<lambda>x. rid x = rid r) mark (work d) \<Longrightarrow> fresh d q \<Longrightarrow> fresh d' q"
  by (auto simp: fits_def upd_rows_def list_all_iff mark_rid mark_agree)

text \<open>One row: it leaves the queue, and the totals keep up.\<close>

lemma process_one:
  assumes run: "process r w = (Inr (), w')" and ok: "okay (store w)" and bal: "sound (store w)"
    and fit: "fresh (store w) r" and wait: "waits (store w) (rid r)"
  shows "okay (store w') \<and> sound (store w')"
proof
  show "okay (store w')" by (rule process_okay [OF run ok fit])
  from wait obtain s where s: "s \<in> set (work (store w))" "rid s = rid r" "pending s"
    by (auto simp: pending_id_def list_ex_iff)
  with fit have "agree r s" by (auto simp: fits_def list_all_iff)
  show "sound (store w')"
    unfolding balanced_def
  proof
    fix k
    let ?g = "\<lambda>x. if pending x then 0 else share (store w) x k"
    have "sum_list (map ?g (work (store w'))) = sum_list (map ?g (work (store w))) + ?g (mark s)"
      using sum_upd_rows [of rid "work (store w)" s ?g mark] keys_distinct [OF ok] s
        process_work [OF run] by simp
    also have "\<dots> = tot (store w) k + share (store w) r k"
      using bal agree_share [OF \<open>agree r s\<close>] by (simp add: balanced_def mark_done mark_share)
    finally show "tot (store w') k =
        sum_list (map (\<lambda>r. if pending r then 0 else share (store w') r k) (work (store w')))"
      unfolding process_share [OF run] using process_total [OF run ok] by simp
  qed
qed

text \<open>A batch.\<close>

abbreviation handle :: "(string \<rightharpoonup> 'r) \<Rightarrow> string \<Rightarrow> ('d, unit) go" where
  "handle workRows i \<equiv> (case workRows i of None \<Rightarrow> fail nil_panic | Some row \<Rightarrow> process row)"

definition ready_rows :: "(string \<rightharpoonup> 'r) \<Rightarrow> 'd \<Rightarrow> bool" where
  "ready_rows workRows d \<longleftrightarrow> (\<forall>i r. workRows i = Some r \<longrightarrow> rid r = i \<and> fresh d r)"

lemma handle_work:
  assumes "handle workRows i w = (Inr (), w')" and "ready_rows workRows (store w)"
  shows "\<exists>r. workRows i = Some r \<and> process r w = (Inr (), w') \<and> rid r = i \<and>
    work (store w') = upd_rows (\<lambda>x. rid x = rid r) mark (work (store w))"
  using assms process_work
  by (cases "workRows i") (auto simp: fail_def ready_rows_def)

lemma ready_rows_mark:
  "work d' = upd_rows (\<lambda>x. rid x = rid r) mark (work d) \<Longrightarrow> ready_rows workRows d \<Longrightarrow> ready_rows workRows d'"
  using fresh_mark by (auto simp: ready_rows_def)

lemma each_handle:
  assumes "each (handle workRows) ids w = (Inr (), w')"
    and "okay (store w)" and "sound (store w)" and "ready_rows workRows (store w)"
    and "distinct ids" and "\<forall>i \<in> set ids. waits (store w) i"
  shows "okay (store w') \<and> sound (store w') \<and> (\<forall>q. fresh (store w) q \<longrightarrow> fresh (store w') q) \<and>
    (\<forall>i. waits (store w') i \<longleftrightarrow> i \<notin> set ids \<and> waits (store w) i)"
  using assms
proof (induction ids arbitrary: w)
  case Nil
  then show ?case by (simp add: ret_def)
next
  case (Cons i ids)
  from Cons.prems(1) obtain w1 where h: "handle workRows i w = (Inr (), w1)"
    and rest: "each (handle workRows) ids w1 = (Inr (), w')"
    by (auto simp: andThen_def bind_def split: prod.splits sum.splits)
  from handle_work [OF h Cons.prems(4)] obtain r where r: "process r w = (Inr (), w1)" "rid r = i"
    "workRows i = Some r" "work (store w1) = upd_rows (\<lambda>x. rid x = rid r) mark (work (store w))" by blast
  have "fresh (store w) r" using Cons.prems(4) r(3) by (simp add: ready_rows_def)
  then have one: "okay (store w1) \<and> sound (store w1)"
    using process_one [OF r(1)] Cons.prems r(2) by simp
  have w: "waits (store w1) j \<longleftrightarrow> j \<noteq> i \<and> waits (store w) j" for j
    using waits_mark [OF r(4)] r(2) by simp
  have "okay (store w') \<and> sound (store w') \<and> (\<forall>q. fresh (store w1) q \<longrightarrow> fresh (store w') q) \<and>
    (\<forall>j. waits (store w') j \<longleftrightarrow> j \<notin> set ids \<and> waits (store w1) j)"
    by (rule Cons.IH [OF rest]) (use one w Cons.prems ready_rows_mark [OF r(4)] in auto)
  then show ?case using w fresh_mark [OF r(4)] by auto
qed

text \<open>What a batch guarantees, whatever other workers did since its rows were read: nothing is
  lost or counted twice, and after a success none of its rows waits any more.\<close>

definition after :: "'d \<Rightarrow> 'd \<Rightarrow> bool" where
  "after d d' \<longleftrightarrow> okay d' \<and> sound d' \<and> (\<forall>q. fresh d q \<longrightarrow> fresh d' q) \<and>
     (\<forall>i. waits d' i \<longrightarrow> waits d i)"

lemma after_refl: "okay d \<Longrightarrow> sound d \<Longrightarrow> after d d"
  by (simp add: after_def)

lemma after_trans: "after d d1 \<Longrightarrow> after d1 d2 \<Longrightarrow> after d d2"
  by (simp add: after_def)

lemma ready_after: "after d d' \<Longrightarrow> ready_rows workRows d \<Longrightarrow> ready_rows workRows d'"
  by (auto simp: after_def ready_rows_def)

lemma batch_after:
  assumes run: "batch_tx work rid pending process workRows ids w = (res, w')"
    and ok: "okay (store w)" and bal: "sound (store w)" and rows: "ready_rows workRows (store w)"
  shows "after (store w) (store w') \<and> (res = Inr () \<longrightarrow> (\<forall>i \<in> set ids. \<not> waits (store w') i))"
proof -
  let ?w = "w\<lparr>stmts := Suc (stmts w)\<rparr>"
  let ?sel = "map rid (filter (\<lambda>r. pending r \<and> rid r \<in> set ids) (work (store w)))"
  let ?body = "bind (sql_load work (\<lambda>r. pending r \<and> rid r \<in> set ids) rid) (\<lambda>rowdata.
          if rowdata = [] then ret False
          else andThen (each (handle workRows) rowdata) (ret True))"
  have none: "\<not> waits (store w) i" if "?sel = []" "i \<in> set ids" for i
    using that by (auto simp: pending_id_def list_ex_iff filter_empty_conv)
  have false: "?sel = []" if "?body ?w = (Inr False, w1)" for w1
    using that by (auto simp: bind_def andThen_def sql_load_def query_def ret_def Let_def
        split: prod.splits sum.splits option.splits if_splits)
  from with_tx_if_result [OF run [unfolded batch_tx_def]]
  consider (undone) "store w' = store w"
      "\<forall>x. res = Inr x \<longrightarrow> (\<exists>w1. ?body ?w = (Inr False, w1))"
    | (did) w1 where "?body ?w = (Inr True, w1)" "store w' = store w1" by blast
  then show ?thesis
  proof cases
    case undone
    then show ?thesis using after_refl ok bal false none by auto
  next
    case did
    then obtain n where e: "each (handle workRows) ?sel (?w\<lparr>stmts := n\<rparr>) = (Inr (), w1)"
      by (auto simp: bind_def andThen_def sql_load_def query_def ret_def Let_def
          split: prod.splits sum.splits option.splits if_splits)
    have "distinct ?sel" using keys_distinct [OF ok] by (rule distinct_map_filter)
    moreover have "\<forall>i \<in> set ?sel. waits (store w) i" by (auto simp: pending_id_def list_ex_iff)
    ultimately have all: "okay (store w1) \<and> sound (store w1) \<and>
        (\<forall>q. fresh (store w) q \<longrightarrow> fresh (store w1) q) \<and>
        (\<forall>i. waits (store w1) i \<longleftrightarrow> i \<notin> set ?sel \<and> waits (store w) i)"
      using each_handle [OF e] ok bal rows by simp
    moreover have "waits (store w) i \<Longrightarrow> i \<in> set ids \<Longrightarrow> i \<in> set ?sel" for i
      by (auto simp: pending_id_def list_ex_iff)
    ultimately show ?thesis using did(2) by (auto simp: after_def)
  qed
qed

text \<open>A page of rows in batches, with retries.\<close>

lemma retried_batch:
  assumes run: "RepeatForLock (batch_tx work rid pending process workRows ids) w = Some (res, w')"
    and ok: "okay (store w)" and bal: "sound (store w)" and rows: "ready_rows workRows (store w)"
  shows "after (store w) (store w') \<and> (res = Inr () \<longrightarrow> (\<forall>i \<in> set ids. \<not> waits (store w') i))"
proof -
  let ?f = "batch_tx work rid pending process workRows ids"
  have step: "after (store w) (store (snd (?f v)))" if "after (store w) (store v)" for v
  proof -
    obtain r v1 where "?f v = (r, v1)" by (cases "?f v")
    moreover from this have "after (store v) (store v1)"
      using batch_after [of workRows ids v r v1] that ready_after [OF that rows]
      by (auto simp: after_def)
    ultimately show ?thesis using that after_trans by auto
  qed
  from RepeatForLock_inv [OF run, of "\<lambda>v. after (store w) (store v)"] after_refl [OF ok bal] step
  obtain w1 where w1: "after (store w) (store w1)" "?f w1 = (res, w')" by blast
  with batch_after [OF w1(2)] ready_after [OF w1(1) rows] after_trans
  show ?thesis by (auto simp: after_def)
qed

lemma batches_after:
  assumes "batches rid (batch_tx work rid pending process) rows trows trowsID w = Some (res, w')"
    and "okay (store w)" and "sound (store w)" and "ready_rows trows (store w)"
    and "list_all (fresh (store w)) rows"
  shows "after (store w) (store w') \<and>
    (res = Inr () \<longrightarrow> (\<forall>i \<in> set trowsID \<union> rid ` set rows. \<not> waits (store w') i))"
  using assms
proof (induction rows arbitrary: trows trowsID w)
  case Nil
  then show ?case
    using retried_batch [of trows trowsID w res w'] after_refl
    by (cases "trowsID = []") (auto simp: once_def ret_def)
next
  case (Cons row rows)
  let ?t = "trows(rid row \<mapsto> row)" and ?i = "trowsID @ [rid row]"
  have t: "ready_rows ?t (store w)" using Cons.prems(4,5) by (auto simp: ready_rows_def)
  show ?case
  proof (cases "length ?i > LockSize")
    case False
    then have "batches rid (batch_tx work rid pending process) rows ?t ?i w = Some (res, w')"
      using Cons.prems(1) by simp
    from Cons.IH [OF this Cons.prems(2,3) t] Cons.prems(5) show ?thesis by auto
  next
    case True
    with Cons.prems(1) obtain r w1
      where rep: "RepeatForLock (batch_tx work rid pending process ?t ?i) w = Some (r, w1)"
        and next_run: "(case r of Inl e \<Rightarrow> Some (Inl e, w1)
           | Inr _ \<Rightarrow> batches rid (batch_tx work rid pending process) rows Map.empty [] w1) = Some (res, w')"
      by (auto simp: then_run_def split: option.splits prod.splits sum.splits)
    have aft: "after (store w) (store w1) \<and> (r = Inr () \<longrightarrow> (\<forall>i \<in> set ?i. \<not> waits (store w1) i))"
      using retried_batch [OF rep Cons.prems(2,3) t] .
    show ?thesis
    proof (cases r)
      case (Inl e)
      with next_run aft show ?thesis by auto
    next
      case (Inr u)
      have "list_all (fresh (store w1)) rows"
        using Cons.prems(5) aft by (auto simp: after_def list_all_iff)
      moreover have "batches rid (batch_tx work rid pending process) rows Map.empty [] w1 = Some (res, w')"
        using next_run Inr by simp
      ultimately have "after (store w1) (store w') \<and>
          (res = Inr () \<longrightarrow> (\<forall>i \<in> rid ` set rows. \<not> waits (store w') i))"
        using Cons.IH [of Map.empty "[]" w1] aft by (auto simp: after_def ready_rows_def)
      with aft Inr after_trans show ?thesis by (auto simp: after_def)
    qed
  qed
qed

end

section \<open>What one row does\<close>

text \<open>Generic rules: an operation that leaves the store alone, a select, an update.\<close>

lemma andThen_InrE:
  assumes "andThen m k w = (Inr x, w')"
  obtains w1 where "m w = (Inr (), w1)" and "k w1 = (Inr x, w')"
  using assms by (auto simp: andThen_def bind_def split: prod.splits sum.splits)

lemma bind_InrE:
  assumes "bind m f w = (Inr x, w')"
  obtains y w1 where "m w = (Inr y, w1)" and "f y w1 = (Inr x, w')"
  using assms by (auto simp: bind_def split: prod.splits sum.splits)

lemma query_InrD: "query body w = (Inr x, w') \<Longrightarrow> body (store w) = Inr x \<and> store w' = store w"
  by (auto simp: query_def Let_def split: option.splits)

lemma sql_update_InrD:
  "sql_update rd md clash wh f w = (Inr x, w') \<Longrightarrow> store w' = md (upd_rows wh f) (store w)"
  by (auto simp: sql_update_def exec_def Let_def split: option.splits if_splits)

interpretation same_store: store_rel "(=)"
  by unfold_locales auto

lemma valid_same_store: "steps (on_store (=)) m \<Longrightarrow> valid (\<lambda>w. A (store w)) m (\<lambda>_ w. A (store w))"
  by (erule valid_steps) (auto simp: on_store_def)

lemma valid_sql_load:
  "valid (\<lambda>w. A (store w)) (sql_load rd wh sel)
     (\<lambda>xs w. A (store w) \<and> xs = map sel (filter wh (rd (store w))))"
  by (auto simp: valid_def sql_load_def query_def Let_def split: option.splits)

lemma valid_sql_update:
  "(\<And>d. A d \<Longrightarrow> uniq clash (upd_rows wh f (rd d)) \<Longrightarrow> B (md (upd_rows wh f) d)) \<Longrightarrow>
   valid (\<lambda>w. A (store w)) (sql_update rd md clash wh f) (\<lambda>_ w. B (store w))"
  by (auto simp: valid_def sql_update_def exec_def Let_def split: option.splits if_splits)

text \<open>The two columns that accumulate, what the tables record of them, and what a row of the
  queue is worth.\<close>

datatype column = TotalAmount | UtxoCount

definition col :: "column \<Rightarrow> AccumulateBalancesAmount \<Rightarrow> nat" where
  "col c r = (case c of TotalAmount \<Rightarrow> aba_TotalAmount r | UtxoCount \<Rightarrow> aba_UtxoCount r)"

definition recorded_balance :: "column \<Rightarrow> processType \<Rightarrow> database \<Rightarrow> string \<Rightarrow> nat" where
  "recorded_balance c ty d i = sum_list (map (\<lambda>r. if aba_ID r = i then col c r else 0) (balanceTable ty d))"

definition balance_id :: "nodelib \<Rightarrow> AccumulateBalancesAmount \<Rightarrow> string" where
  "balance_id L b = aba_ID (AccumulateBalancesAmount_ComputeID L b)"

definition credit :: "nodelib \<Rightarrow> column \<Rightarrow> AccumulateBalancesAmount \<Rightarrow> string \<Rightarrow> nat" where
  "credit L c b i =
     (if balance_id L b = i then (case c of TotalAmount \<Rightarrow> aba_TotalAmount b | UtxoCount \<Rightarrow> 1) else 0)"

definition output_share ::
  "nodelib \<Rightarrow> column \<Rightarrow> database \<Rightarrow> OutputAddressAccumulate \<Rightarrow> string \<Rightarrow> nat" where
  "output_share L c d r i =
     sum_list (map (\<lambda>b. credit L c b i) (selectBalances (oaa_OutputID r) (oaa_Address r) d))"

definition same_output :: "OutputAddressAccumulate \<Rightarrow> OutputAddressAccumulate \<Rightarrow> bool" where
  "same_output q r \<longleftrightarrow> oaa_OutputID q = oaa_OutputID r \<and> oaa_Address q = oaa_Address r"

text \<open>A queue is in order when every processed row still has the balance it was booked with.\<close>

definition queue_ok :: "processType \<Rightarrow> database \<Rightarrow> bool" where
  "queue_ok ty d \<longleftrightarrow> db_ok d \<and>
     list_all (\<lambda>r. oaa_Processed r \<noteq> 0 \<longrightarrow> selectBalances (oaa_OutputID r) (oaa_Address r) d \<noteq> [])
       (outTable ty d)"

text \<open>What stays: the ledger that is summed up and the queues, and, for the inserts, the
  recorded balances.\<close>

definition same_sources :: "database \<Rightarrow> database \<Rightarrow> bool" where
  "same_sources d d' \<longleftrightarrow> avm_outputs d' = avm_outputs d \<and>
     avm_output_addresses d' = avm_output_addresses d \<and>
     avm_outputs_redeeming d' = avm_outputs_redeeming d \<and> (\<forall>ty. outTable ty d' = outTable ty d)"

interpretation sources: store_rel same_sources
  by unfold_locales (auto simp: same_sources_def)

definition same_balances :: "database \<Rightarrow> database \<Rightarrow> bool" where
  "same_balances d d' \<longleftrightarrow> (\<forall>c ty i. recorded_balance c ty d' i = recorded_balance c ty d i)"

interpretation balances: store_rel same_balances
  by unfold_locales (auto simp: same_balances_def)

lemmas table_defs = outTable_def outTable_update_def balanceTable_def balanceTable_update_def

lemma all_processType: "(\<forall>ty. P ty) \<longleftrightarrow> P processTypeIn \<and> P processTypeOut"
  by (metis processType.exhaust)

lemma inserts_same_sources [steps_intros]:
  "steps (on_store same_sources) (InsertOutputTxsAccumulate v)"
  "steps (on_store same_sources) (InsertAccumulateBalancesReceived b)"
  "steps (on_store same_sources) (InsertAccumulateBalancesSent b)"
  unfolding InsertOutputTxsAccumulate_def InsertAccumulateBalancesReceived_def
    InsertAccumulateBalancesSent_def
  by (rule sources.steps_ignore_dup, rule sources.steps_sql_insert,
      simp add: same_sources_def all_processType outTable_def)+

lemma inserts_same_balances [steps_intros]:
  "steps (on_store same_balances) (InsertOutputTxsAccumulate v)"
  "steps (on_store same_balances) (InsertAccumulateBalancesReceived b)"
  "steps (on_store same_balances) (InsertAccumulateBalancesSent b)"
  unfolding InsertOutputTxsAccumulate_def InsertAccumulateBalancesReceived_def
    InsertAccumulateBalancesSent_def
  by (rule balances.steps_ignore_dup, rule balances.steps_sql_insert,
      simp add: same_balances_def all_processType recorded_balance_def balanceTable_def col_def
        split: column.split)+

lemma update_balances_same_sources [steps_intros]:
  "steps (on_store same_sources)
     (sql_update (balanceTable ty) (balanceTable_update ty) AccumulateBalancesAmount_clash wh f)"
  by (cases ty) (rule sources.steps_sql_update; simp add: same_sources_def all_processType table_defs)+

lemma lockAndAdd_same_sources [steps_intros]: "steps (on_store same_sources) (lockAndAdd ty b)"
  unfolding lockAndAdd_def
  by (auto intro!: steps_intros sources.steps_bind sources.steps_time_now
      sources.steps_sql_load sources.steps_fail split: list.split)

lemma processBalance_same_sources [steps_intros]:
  "steps (on_store same_sources) (processBalance L ty row b)"
  unfolding processBalance_def Let_def
  by (cases ty) (auto intro!: steps_intros sources.steps_bind sources.steps_andThen sources.steps_time_now)

lemma update_tables_ok [steps_intros]:
  "steps (on_store keeps_ok)
     (sql_update (balanceTable ty) (balanceTable_update ty) AccumulateBalancesAmount_clash wh f)"
  "steps (on_store keeps_ok)
     (sql_update (outTable ty) (outTable_update ty) OutputAddressAccumulate_clash wh1 g1)"
  "steps (on_store keeps_ok)
     (sql_update output_txs_accumulate output_txs_accumulate_update OutputTxsAccumulate_clash wh2 g2)"
  "steps (on_store keeps_ok)
     (sql_update accumulate_balances_transactions accumulate_balances_transactions_update
        AccumulateBalancesTransactions_clash wh3 g3)"
  by (cases ty; rule ok.steps_sql_update; simp add: table_defs keeps_ok_def db_ok_def)+

lemma lockAndAdd_ok [steps_intros]: "steps (on_store keeps_ok) (lockAndAdd ty b)"
  unfolding lockAndAdd_def
  by (auto intro!: steps_intros ok.steps_bind ok.steps_time_now ok.steps_sql_load ok.steps_fail
      split: list.split)

lemma lockAndCount_ok [steps_intros]: "steps (on_store keeps_ok) (lockAndCount t)"
  unfolding lockAndCount_def
  by (auto intro!: steps_intros ok.steps_bind ok.steps_time_now ok.steps_sql_load ok.steps_fail
      split: list.split)

lemma processBalance_ok [steps_intros]: "steps (on_store keeps_ok) (processBalance L ty row b)"
  unfolding processBalance_def Let_def
  by (cases ty) (auto intro!: steps_intros ok.steps_bind ok.steps_andThen ok.steps_time_now)

lemma processOutputsBase_ok [steps_intros]: "steps (on_store keeps_ok) (processOutputsBase L ty row)"
  unfolding processOutputsBase_def
  by (auto intro!: steps_intros ok.steps_bind ok.steps_andThen ok.steps_query ok.steps_fail ok.steps_each)

lemma processTransactionsBase_ok [steps_intros]:
  "steps (on_store keeps_ok) (processTransactionsBase L row)"
  unfolding processTransactionsBase_def Let_def
  by (auto intro!: steps_intros ok.steps_andThen)

text \<open>The keys of the tables.\<close>

lemma uniq_distinct: "(\<And>x y. clash x y \<longleftrightarrow> key x = key y) \<Longrightarrow> uniq clash t \<longleftrightarrow> distinct (map key t)"
  by (induction t) (auto simp: uniq_def image_iff)

lemma balanceTable_distinct: "db_ok d \<Longrightarrow> distinct (map aba_ID (balanceTable ty d))"
  by (cases ty) (simp_all add: db_ok_def balanceTable_def
      uniq_distinct [of AccumulateBalancesAmount_clash aba_ID] AccumulateBalancesAmount_clash_def)

lemma outTable_distinct: "db_ok d \<Longrightarrow> distinct (map oaa_ID (outTable ty d))"
  by (cases ty) (simp_all add: db_ok_def outTable_def
      uniq_distinct [of OutputAddressAccumulate_clash oaa_ID] OutputAddressAccumulate_clash_def)

lemma outTable_update [simp]: "outTable ty (outTable_update ty f d) = f (outTable ty d)"
  by (cases ty) (simp_all add: table_defs)

lemma balanceTable_update [simp]: "balanceTable ty (balanceTable_update ty f d) = f (balanceTable ty d)"
  by (cases ty) (simp_all add: table_defs)

lemma selectBalances_update [simp]:
  "selectBalances i a (outTable_update ty f d) = selectBalances i a d"
  by (cases ty) (simp_all add: table_defs selectBalances_def)

lemma recorded_balance_update [simp]:
  "recorded_balance c ty (outTable_update ty' f d) = recorded_balance c ty d"
  by (cases ty; cases ty') (simp_all add: table_defs recorded_balance_def fun_eq_iff)

text \<open>The balance that a round of the inner loop adds to.\<close>

lemma balance_step:
  assumes "db_ok d" and "filter (\<lambda>r. aba_ID r = k) (balanceTable ty d) \<noteq> []"
  shows "recorded_balance c ty (balanceTable_update ty (upd_rows (\<lambda>r. aba_ID r = k)
           (\<lambda>r. r\<lparr>aba_UtxoCount := aba_UtxoCount r + 1,
                  aba_TotalAmount := aba_TotalAmount r + n, aba_UpdatedAt := t\<rparr>)) d) i
       = recorded_balance c ty d i + (if k = i then (case c of TotalAmount \<Rightarrow> n | UtxoCount \<Rightarrow> 1) else 0)"
proof -
  from assms(2) obtain s where s: "s \<in> set (balanceTable ty d)" "aba_ID s = k"
    by (auto simp: filter_empty_conv)
  show ?thesis
    using sum_upd_rows [OF balanceTable_distinct [OF assms(1)] s(1),
        of "\<lambda>r. if aba_ID r = i then col c r else 0"
           "\<lambda>r. r\<lparr>aba_UtxoCount := aba_UtxoCount r + 1,
                  aba_TotalAmount := aba_TotalAmount r + n, aba_UpdatedAt := t\<rparr>"] s(2)
    by (cases c) (auto simp: recorded_balance_def col_def)
qed

lemma balance_id_time [simp]: "balance_id L (b\<lparr>aba_UpdatedAt := t\<rparr>) = balance_id L b"
  by (simp add: balance_id_def AccumulateBalancesAmount_ComputeID_def)

lemma ComputeID_amount [simp]:
  "aba_TotalAmount (AccumulateBalancesAmount_ComputeID L b) = aba_TotalAmount b"
  by (simp add: AccumulateBalancesAmount_ComputeID_def Let_def)

definition holds_balances :: "column \<Rightarrow> processType \<Rightarrow> (string \<Rightarrow> nat) \<Rightarrow> database \<Rightarrow> bool" where
  "holds_balances c ty F d \<longleftrightarrow> db_ok d \<and> recorded_balance c ty d = F"

lemma insert_holds:
  "steps (on_store keeps_ok) m \<Longrightarrow> steps (on_store same_balances) m \<Longrightarrow>
   valid (\<lambda>w. holds_balances c ty F (store w)) m (\<lambda>_ w. holds_balances c ty F (store w))"
  unfolding valid_def steps_def on_store_def keeps_ok_def same_balances_def holds_balances_def
  by (metis ext snd_conv)

lemma lockAndAdd_adds:
  "valid (\<lambda>w. holds_balances c ty F (store w)) (lockAndAdd ty b)
     (\<lambda>_ w. holds_balances c ty
        (\<lambda>i. F i + (if aba_ID b = i then (case c of TotalAmount \<Rightarrow> aba_TotalAmount b | UtxoCount \<Rightarrow> 1) else 0))
        (store w))"
  unfolding valid_def
proof (intro allI impI)
  fix w x w'
  assume H: "holds_balances c ty F (store w)" and run: "lockAndAdd ty b w = (Inr x, w')"
  have "filter (\<lambda>r. aba_ID r = aba_ID b) (balanceTable ty (store w)) \<noteq> [] \<and>
    (\<exists>t. store w' = balanceTable_update ty (upd_rows (\<lambda>r. aba_ID r = aba_ID b)
           (\<lambda>r. r\<lparr>aba_UtxoCount := aba_UtxoCount r + 1,
                  aba_TotalAmount := aba_TotalAmount r + aba_TotalAmount b, aba_UpdatedAt := t\<rparr>)) (store w))"
    using run unfolding lockAndAdd_def
    by (auto simp: bind_def sql_load_def query_def fail_def time_now_def sql_update_def exec_def Let_def
        split: option.splits list.splits if_splits prod.splits)
  moreover have "db_ok (store w')"
    using stepsD [OF lockAndAdd_ok, of w ty b] H run by (simp add: on_store_def keeps_ok_def holds_balances_def)
  ultimately show "holds_balances c ty
        (\<lambda>i. F i + (if aba_ID b = i then (case c of TotalAmount \<Rightarrow> aba_TotalAmount b | UtxoCount \<Rightarrow> 1) else 0))
        (store w')"
    using balance_step H by (auto simp: holds_balances_def)
qed

lemma processBalance_adds:
  "valid (\<lambda>w. holds_balances c ty F (store w)) (processBalance L ty row b)
     (\<lambda>_ w. holds_balances c ty (\<lambda>i. F i + credit L c b i) (store w))"
proof -
  let ?b = "AccumulateBalancesAmount_ComputeID L (b\<lparr>aba_UpdatedAt := unix_one\<rparr>)"
  have "aba_ID ?b = balance_id L b" using balance_id_time [of L unix_one b] by (simp add: balance_id_def)
  then have last: "valid (\<lambda>w. holds_balances c ty F (store w)) (lockAndAdd ty ?b)
      (\<lambda>_ w. holds_balances c ty (\<lambda>i. F i + credit L c b i) (store w))"
    using lockAndAdd_adds [of c ty F ?b] by (cases c) (simp_all add: credit_def cong: if_cong)
  have ins: "valid (\<lambda>w. holds_balances c ty F (store w)) (case ty of
       processTypeOut \<Rightarrow> InsertAccumulateBalancesReceived ?b
     | processTypeIn \<Rightarrow> InsertAccumulateBalancesSent ?b) (\<lambda>_ w. holds_balances c ty F (store w))"
    by (cases ty) (auto intro!: insert_holds steps_intros)
  show ?thesis
    unfolding processBalance_def Let_def
    by (rule valid_bind [OF valid_same_store [OF same_store.steps_time_now]])
      (rule valid_andThen [OF insert_holds valid_andThen [OF ins last]]; rule steps_intros)
qed

lemma each_processBalance:
  "valid (\<lambda>w. holds_balances c ty F (store w)) (each (processBalance L ty row) bs)
     (\<lambda>_ w. holds_balances c ty (\<lambda>i. F i + sum_list (map (\<lambda>b. credit L c b i) bs)) (store w))"
proof (induction bs arbitrary: F)
  case Nil
  then show ?case by (simp add: valid_ret)
next
  case (Cons b bs)
  have "valid (\<lambda>w. holds_balances c ty (\<lambda>i. F i + credit L c b i) (store w)) (each (processBalance L ty row) bs)
     (\<lambda>_ w. holds_balances c ty (\<lambda>i. F i + credit L c b i + sum_list (map (\<lambda>b. credit L c b i) bs)) (store w))"
    by (rule Cons.IH)
  from valid_andThen [OF processBalance_adds this] show ?case by (simp add: add.assoc)
qed

text \<open>The first statement of \<open>processOutputsBase\<close>, and the rest.\<close>

lemma processOutputsBase_split:
  assumes "processOutputsBase L ty row w = (Inr (), w')"
  shows "\<exists>w1. store w1 = outTable_update ty (upd_rows (\<lambda>r. oaa_ID r = oaa_ID row)
                  (\<lambda>r. r\<lparr>oaa_Processed := 1\<rparr>)) (store w) \<and>
    selectBalances (oaa_OutputID row) (oaa_Address row) (store w) \<noteq> [] \<and>
    each (processBalance L ty row) (selectBalances (oaa_OutputID row) (oaa_Address row) (store w)) w1
      = (Inr (), w')"
  using assms unfolding processOutputsBase_def
  by (elim andThen_InrE bind_InrE)
    (auto dest!: sql_update_InrD query_InrD simp: fail_def split: if_splits)

lemma mark_keeps_ok:
  "db_ok d \<Longrightarrow> db_ok (outTable_update ty (upd_rows wh (\<lambda>r. r\<lparr>oaa_Processed := n\<rparr>)) d)"
proof -
  assume "db_ok d"
  moreover have "uniq OutputAddressAccumulate_clash t \<Longrightarrow>
      uniq OutputAddressAccumulate_clash (upd_rows wh (\<lambda>r. r\<lparr>oaa_Processed := n\<rparr>) t)" for t
    by (simp add: uniq_distinct [of _ oaa_ID] OutputAddressAccumulate_clash_def map_upd_rows)
  ultimately show ?thesis by (cases ty) (simp_all add: db_ok_def outTable_update_def)
qed

lemma each_same_sources:
  "each (processBalance L ty row) bs w = (x, w') \<Longrightarrow> same_sources (store w) (store w')"
  using stepsD [of "on_store same_sources" "each (processBalance L ty row) bs" w]
  by (auto simp: on_store_def intro!: sources.steps_each steps_intros)

lemma processOutputsBase_work:
  assumes "processOutputsBase L ty row w = (Inr (), w')"
  shows "outTable ty (store w') =
      upd_rows (\<lambda>r. oaa_ID r = oaa_ID row) (\<lambda>r. r\<lparr>oaa_Processed := 1\<rparr>) (outTable ty (store w))"
  using processOutputsBase_split [OF assms] each_same_sources by (fastforce simp: same_sources_def)

lemma output_share_sources: "same_sources d d' \<Longrightarrow> output_share L c d' = output_share L c d"
  by (simp add: fun_eq_iff same_sources_def output_share_def selectBalances_def)

lemma output_share_update [simp]: "output_share L c (outTable_update ty f d) = output_share L c d"
  by (simp add: fun_eq_iff output_share_def)

lemma processOutputsBase_share:
  assumes "processOutputsBase L ty row w = (Inr (), w')"
  shows "output_share L c (store w') = output_share L c (store w)"
proof -
  from processOutputsBase_split [OF assms] obtain w1
    where w1: "store w1 = outTable_update ty (upd_rows (\<lambda>r. oaa_ID r = oaa_ID row)
                  (\<lambda>r. r\<lparr>oaa_Processed := 1\<rparr>)) (store w)"
      and run: "each (processBalance L ty row) (selectBalances (oaa_OutputID row) (oaa_Address row) (store w)) w1
      = (Inr (), w')" by blast
  from output_share_sources [OF each_same_sources [OF run], of L c] show ?thesis by (simp add: w1)
qed

lemma processOutputsBase_total:
  assumes "processOutputsBase L ty row w = (Inr (), w')" and "db_ok (store w)"
  shows "recorded_balance c ty (store w') i
      = recorded_balance c ty (store w) i + output_share L c (store w) row i"
proof -
  from processOutputsBase_split [OF assms(1)] obtain w1
    where w1: "store w1 = outTable_update ty (upd_rows (\<lambda>r. oaa_ID r = oaa_ID row)
                  (\<lambda>r. r\<lparr>oaa_Processed := 1\<rparr>)) (store w)"
      and run: "each (processBalance L ty row) (selectBalances (oaa_OutputID row) (oaa_Address row) (store w)) w1
      = (Inr (), w')" by blast
  have "holds_balances c ty (recorded_balance c ty (store w)) (store w1)"
    using mark_keeps_ok [OF assms(2)] by (simp add: holds_balances_def w1)
  from validD [OF each_processBalance run this] show ?thesis
    by (simp add: holds_balances_def output_share_def)
qed

lemma same_output_share: "same_output q r \<Longrightarrow> output_share L c d q k = output_share L c d r k"
  by (simp add: same_output_def output_share_def)

lemma selectBalances_sources: "same_sources d d' \<Longrightarrow> selectBalances i a d' = selectBalances i a d"
  by (simp add: same_sources_def selectBalances_def)

lemma processOutputsBase_queue_ok:
  assumes run: "processOutputsBase L ty row w = (Inr (), w')" and ok: "queue_ok ty (store w)"
    and fit: "fits (outTable ty) oaa_ID same_output (store w) row"
  shows "queue_ok ty (store w')"
proof -
  from processOutputsBase_split [OF run] obtain w1
    where w1: "store w1 = outTable_update ty (upd_rows (\<lambda>r. oaa_ID r = oaa_ID row)
                  (\<lambda>r. r\<lparr>oaa_Processed := 1\<rparr>)) (store w)"
      and ne: "selectBalances (oaa_OutputID row) (oaa_Address row) (store w) \<noteq> []"
      and e: "each (processBalance L ty row) (selectBalances (oaa_OutputID row) (oaa_Address row) (store w)) w1
      = (Inr (), w')" by blast
  have sel: "selectBalances i a (store w') = selectBalances i a (store w)" for i a
    using selectBalances_sources [OF each_same_sources [OF e]] by (simp add: w1)
  have "db_ok (store w')"
    using stepsD [OF processOutputsBase_ok, of w L ty row] run ok
    by (simp add: on_store_def keeps_ok_def queue_ok_def)
  moreover have "selectBalances (oaa_OutputID s) (oaa_Address s) (store w) \<noteq> []"
    if "s \<in> set (outTable ty (store w))" "oaa_ID s = oaa_ID row" for s
    using that fit ne by (simp add: fits_def list_all_iff same_output_def)
  ultimately show ?thesis
    using ok by (auto simp: queue_ok_def sel processOutputsBase_work [OF run] upd_rows_def list_all_iff)
qed

interpretation outputs: queue "queue_ok ty" "outTable ty" oaa_ID "\<lambda>r. oaa_Processed r = 0"
    "\<lambda>r. r\<lparr>oaa_Processed := 1\<rparr>" same_output "recorded_balance c ty" "output_share L c"
    "processOutputsBase L ty" for L c ty
proof unfold_locales
  show "queue_ok ty d \<Longrightarrow> distinct (map oaa_ID (outTable ty d))" for d
    by (simp add: queue_ok_def outTable_distinct)
  show "processOutputsBase L ty r w = (Inr (), w') \<Longrightarrow> queue_ok ty (store w) \<Longrightarrow>
      recorded_balance c ty (store w') k = recorded_balance c ty (store w) k + output_share L c (store w) r k"
    for r w w' k by (simp add: queue_ok_def processOutputsBase_total)
qed (auto simp: processOutputsBase_work processOutputsBase_share same_output_share
      same_output_def output_share_def intro: processOutputsBase_queue_ok)

text \<open>The same for the queue of transactions.\<close>

definition recorded_count :: "database \<Rightarrow> string \<Rightarrow> nat" where
  "recorded_count d i =
     sum_list (map (\<lambda>r. if abt_ID r = i then abt_TransactionCount r else 0) (accumulate_balances_transactions d))"

definition count_id :: "nodelib \<Rightarrow> OutputTxsAccumulate \<Rightarrow> string" where
  "count_id L r = abt_ID (AccumulateBalancesTransactions_ComputeID L
     \<lparr>abt_ID = [], abt_ChainID = ota_ChainID r, abt_AssetID = ota_AssetID r, abt_Address = ota_Address r,
      abt_TransactionCount = 0, abt_UpdatedAt = unix_one\<rparr>)"

definition tx_share :: "nodelib \<Rightarrow> database \<Rightarrow> OutputTxsAccumulate \<Rightarrow> string \<Rightarrow> nat" where
  "tx_share L d r i = (if count_id L r = i then 1 else 0)"

definition same_tx :: "OutputTxsAccumulate \<Rightarrow> OutputTxsAccumulate \<Rightarrow> bool" where
  "same_tx q r \<longleftrightarrow> ota_ChainID q = ota_ChainID r \<and> ota_AssetID q = ota_AssetID r \<and>
     ota_Address q = ota_Address r"

lemma counts_distinct: "db_ok d \<Longrightarrow> distinct (map abt_ID (accumulate_balances_transactions d))"
  by (simp add: db_ok_def uniq_distinct [of AccumulateBalancesTransactions_clash abt_ID]
      AccumulateBalancesTransactions_clash_def)

lemma txs_distinct: "db_ok d \<Longrightarrow> distinct (map ota_ID (output_txs_accumulate d))"
  by (simp add: db_ok_def uniq_distinct [of OutputTxsAccumulate_clash ota_ID] OutputTxsAccumulate_clash_def)

lemma count_step:
  assumes "db_ok d" and "filter (\<lambda>r. abt_ID r = k) (accumulate_balances_transactions d) \<noteq> []"
  shows "recorded_count (accumulate_balances_transactions_update (upd_rows (\<lambda>r. abt_ID r = k)
           (\<lambda>r. r\<lparr>abt_TransactionCount := abt_TransactionCount r + 1, abt_UpdatedAt := t\<rparr>)) d) i
       = recorded_count d i + (if k = i then 1 else 0)"
proof -
  from assms(2) obtain s where s: "s \<in> set (accumulate_balances_transactions d)" "abt_ID s = k"
    by (auto simp: filter_empty_conv)
  show ?thesis
    using sum_upd_rows [OF counts_distinct [OF assms(1)] s(1),
        of "\<lambda>r. if abt_ID r = i then abt_TransactionCount r else 0"
           "\<lambda>r. r\<lparr>abt_TransactionCount := abt_TransactionCount r + 1, abt_UpdatedAt := t\<rparr>"] s(2)
    by (auto simp: recorded_count_def)
qed

lemma lockAndCount_adds:
  assumes "lockAndCount b w = (Inr (), w')" and "db_ok (store w)"
  shows "recorded_count (store w') i = recorded_count (store w) i + (if abt_ID b = i then 1 else 0) \<and>
    output_txs_accumulate (store w') = output_txs_accumulate (store w)"
proof -
  have "filter (\<lambda>r. abt_ID r = abt_ID b) (accumulate_balances_transactions (store w)) \<noteq> [] \<and>
    (\<exists>t. store w' = accumulate_balances_transactions_update (upd_rows (\<lambda>r. abt_ID r = abt_ID b)
       (\<lambda>r. r\<lparr>abt_TransactionCount := abt_TransactionCount r + 1, abt_UpdatedAt := t\<rparr>)) (store w))"
    using assms(1) unfolding lockAndCount_def
    by (auto simp: bind_def sql_load_def query_def fail_def time_now_def sql_update_def exec_def Let_def
        split: option.splits list.splits if_splits prod.splits)
  then show ?thesis using count_step [OF assms(2)] by auto
qed

lemma insert_count:
  assumes "InsertAccumulateBalancesTransactions b w = (Inr (), w')"
  shows "recorded_count (store w') = recorded_count (store w) \<and>
    output_txs_accumulate (store w') = output_txs_accumulate (store w)"
  using assms unfolding InsertAccumulateBalancesTransactions_def
  by (auto simp: ignore_dup_def sql_insert_def exec_def Let_def recorded_count_def fun_eq_iff
      split: option.splits if_splits prod.splits sum.splits)

lemma processTransactionsBase_split:
  assumes "processTransactionsBase L row w = (Inr (), w')"
  shows "\<exists>w1 w2 b. store w1 = output_txs_accumulate_update (upd_rows (\<lambda>r. ota_ID r = ota_ID row)
        (\<lambda>r. r\<lparr>ota_Processed := 1\<rparr>)) (store w) \<and>
     abt_ID b = count_id L row \<and>
     InsertAccumulateBalancesTransactions b w1 = (Inr (), w2) \<and> lockAndCount b w2 = (Inr (), w')"
  using assms unfolding processTransactionsBase_def Let_def count_id_def
  by (elim andThen_InrE) (blast dest: sql_update_InrD)

lemma lockAndCount_work:
  "lockAndCount b w = (Inr (), w') \<Longrightarrow> output_txs_accumulate (store w') = output_txs_accumulate (store w)"
  unfolding lockAndCount_def
  by (elim bind_InrE)
    (auto dest!: sql_update_InrD query_InrD simp: sql_load_def fail_def time_now_def
      split: if_splits list.splits elim!: bind_InrE)

lemma processTransactionsBase_work:
  assumes "processTransactionsBase L row w = (Inr (), w')"
  shows "output_txs_accumulate (store w') =
      upd_rows (\<lambda>r. ota_ID r = ota_ID row) (\<lambda>r. r\<lparr>ota_Processed := 1\<rparr>) (output_txs_accumulate (store w))"
proof -
  from processTransactionsBase_split [OF assms] obtain w1 w2 b
    where w1: "store w1 = output_txs_accumulate_update (upd_rows (\<lambda>r. ota_ID r = ota_ID row)
        (\<lambda>r. r\<lparr>ota_Processed := 1\<rparr>)) (store w)"
      and "InsertAccumulateBalancesTransactions b w1 = (Inr (), w2)"
      and "lockAndCount b w2 = (Inr (), w')" by blast
  then show ?thesis using insert_count lockAndCount_work by (metis (no_types) output_txs_accumulate_tbl.rd_md)
qed

lemma processTransactionsBase_total:
  assumes "processTransactionsBase L row w = (Inr (), w')" and "db_ok (store w)"
  shows "recorded_count (store w') i = recorded_count (store w) i + tx_share L (store w) row i"
proof -
  from processTransactionsBase_split [OF assms(1)] obtain w1 w2 b
    where w1: "store w1 = output_txs_accumulate_update (upd_rows (\<lambda>r. ota_ID r = ota_ID row)
        (\<lambda>r. r\<lparr>ota_Processed := 1\<rparr>)) (store w)"
      and b: "abt_ID b = count_id L row"
      and ins: "InsertAccumulateBalancesTransactions b w1 = (Inr (), w2)"
      and add: "lockAndCount b w2 = (Inr (), w')" by blast
  have "uniq OutputTxsAccumulate_clash (output_txs_accumulate (store w1))"
    using txs_distinct [OF assms(2)]
    by (simp add: w1 uniq_distinct [of _ ota_ID] OutputTxsAccumulate_clash_def map_upd_rows)
  then have "db_ok (store w1)" using assms(2) by (simp add: w1 db_ok_def)
  then have "db_ok (store w2)"
    using stepsD [OF InsertAccumulateBalancesTransactions_ok, of w1 b] ins
    by (simp add: on_store_def keeps_ok_def)
  from lockAndCount_adds [OF add this] insert_count [OF ins] w1 b show ?thesis
    by (simp add: tx_share_def recorded_count_def)
qed

interpretation txs: queue db_ok output_txs_accumulate ota_ID "\<lambda>r. ota_Processed r = 0"
    "\<lambda>r. r\<lparr>ota_Processed := 1\<rparr>" same_tx recorded_count "tx_share L" "processTransactionsBase L" for L
proof unfold_locales
  show "processTransactionsBase L r w = (Inr (), w') \<Longrightarrow> db_ok (store w) \<Longrightarrow> db_ok (store w')" for r w w'
    using stepsD [OF processTransactionsBase_ok, of w L r] by (simp add: on_store_def keeps_ok_def)
qed (auto simp: processTransactionsBase_work processTransactionsBase_total txs_distinct same_tx_def
      tx_share_def count_id_def fun_eq_iff)
section \<open>Termination\<close>

text \<open>\<open>tidy m\<close>: \<open>m\<close> sends statements and leaves the driver's answers alone, and when the
  driver has no more errors of its own to report, no error of \<open>m\<close> is a lock error.\<close>

named_theorems tidy_intros \<open>rules for \<open>tidy\<close>, one per combinator\<close>

definition tidy :: "('d, 'a) go \<Rightarrow> bool" where
  "tidy m \<longleftrightarrow> (\<forall>w r w'. m w = (r, w') \<longrightarrow> stmts w \<le> stmts w' \<and> faults w' = faults w \<and>
     ((\<forall>n \<ge> stmts w. faults w n = None) \<longrightarrow> (\<forall>e. r = Inl e \<longrightarrow> \<not> ErrIsLockError (Some e))))"

lemma tidyD:
  assumes "tidy m" and "m w = (r, w')"
  shows "stmts w \<le> stmts w'" and "faults w' = faults w"
    and "\<forall>n \<ge> stmts w. faults w n = None \<Longrightarrow> r = Inl e \<Longrightarrow> \<not> ErrIsLockError (Some e)"
  using assms unfolding tidy_def by blast+

lemma tidy_ret [tidy_intros]: "tidy (ret x)"
  by (simp add: tidy_def ret_def)

lemma tidy_fail [tidy_intros]: "\<not> ErrIsLockError (Some e) \<Longrightarrow> tidy (fail e)"
  by (simp add: tidy_def fail_def)

lemma tidy_time_now [tidy_intros]: "tidy time_now"
  by (simp add: tidy_def time_now_def)

lemma tidy_bind [tidy_intros]:
  assumes "tidy m" and "\<And>x. tidy (f x)"
  shows "tidy (bind m f)"
  unfolding tidy_def
proof (intro allI impI)
  fix w r w'
  assume run: "bind m f w = (r, w')"
  obtain x w1 where m: "m w = (x, w1)" by (cases "m w")
  note t = tidyD [OF assms(1) m]
  show "stmts w \<le> stmts w' \<and> faults w' = faults w \<and>
      ((\<forall>n \<ge> stmts w. faults w n = None) \<longrightarrow> (\<forall>e. r = Inl e \<longrightarrow> \<not> ErrIsLockError (Some e)))"
  proof (cases x)
    case (Inl e)
    with run m t show ?thesis by (auto simp: bind_def)
  next
    case (Inr y)
    with run m have "f y w1 = (r, w')" by (simp add: bind_def)
    from t(1,2) tidyD [OF assms(2) this] show ?thesis by auto
  qed
qed

lemma tidy_andThen [tidy_intros]: "tidy m \<Longrightarrow> tidy k \<Longrightarrow> tidy (andThen m k)"
  unfolding andThen_def by (rule tidy_bind)

lemma tidy_each [tidy_intros]: "(\<And>x. tidy (f x)) \<Longrightarrow> tidy (each f xs)"
  by (induction xs) (auto intro: tidy_intros)

lemma tidy_exec:
  "(\<And>d e d'. body d = (Some e, d') \<Longrightarrow> \<not> ErrIsLockError (Some e)) \<Longrightarrow> tidy (exec body)"
  by (auto simp: tidy_def exec_def Let_def split: option.splits prod.splits)

lemma tidy_query [tidy_intros]:
  "(\<And>d e. body d = Inl e \<Longrightarrow> \<not> ErrIsLockError (Some e)) \<Longrightarrow> tidy (query body)"
  by (auto simp: tidy_def query_def Let_def split: option.splits)

lemma tidy_load [tidy_intros]: "tidy (sql_load rd wh sel)"
  unfolding sql_load_def by (rule tidy_query) simp

lemma sql_dup_no_lock: "\<not> ErrIsLockError (Some sql_dup)"
  by code_simp

lemma tidy_update [tidy_intros]: "tidy (sql_update rd md clash wh f)"
  unfolding sql_update_def by (rule tidy_exec) (auto simp: sql_dup_no_lock split: if_splits)

lemma tidy_insert [tidy_intros]: "tidy (ignore_dup t (sql_insert rd md clash r))"
  by (auto simp: tidy_def ignore_dup_def sql_insert_def exec_def Let_def sql_dup_no_lock
      split: option.splits prod.splits sum.splits if_splits)

lemma tidy_inserts [tidy_intros]:
  "tidy (InsertOutputTxsAccumulate v)" "tidy (InsertAccumulateBalancesReceived b)"
  "tidy (InsertAccumulateBalancesSent b)" "tidy (InsertAccumulateBalancesTransactions t)"
  by (simp_all add: InsertOutputTxsAccumulate_def InsertAccumulateBalancesReceived_def
      InsertAccumulateBalancesSent_def InsertAccumulateBalancesTransactions_def tidy_insert)

lemma messages_no_lock:
  "\<not> ErrIsLockError (Some ''balancesLocked failed'')" "\<not> ErrIsLockError (Some ''invalid balance'')"
  "\<not> ErrIsLockError (Some nil_panic)"
  by code_simp+

lemma tidy_lockAndAdd [tidy_intros]: "tidy (lockAndAdd ty b)"
  unfolding lockAndAdd_def
  by (auto intro!: tidy_intros simp: messages_no_lock split: list.split)

lemma tidy_processOutputsBase [tidy_intros]: "tidy (processOutputsBase L ty row)"
  unfolding processOutputsBase_def processBalance_def Let_def
  by (cases ty) (auto intro!: tidy_intros simp: messages_no_lock)

lemma tidy_processTransactionsBase [tidy_intros]: "tidy (processTransactionsBase L row)"
  unfolding processTransactionsBase_def lockAndCount_def Let_def
  by (auto intro!: tidy_intros simp: messages_no_lock split: list.split)

text \<open>A transaction sends at least one statement.\<close>

lemma tidy_with_tx_if:
  assumes "tidy m"
  shows "tidy (with_tx_if m)" and "with_tx_if m w = (r, w') \<Longrightarrow> stmts w < stmts w'"
  unfolding atomize_imp
proof -
  have m: "m v = (x, v') \<Longrightarrow> stmts v \<le> stmts v' \<and> faults v' = faults v \<and>
     ((\<forall>n \<ge> stmts v. faults v n = None) \<longrightarrow> (\<forall>e. x = Inl e \<longrightarrow> \<not> ErrIsLockError (Some e)))" for v x v'
    using assms by (simp add: tidy_def)
  show "tidy (with_tx_if m)"
    unfolding tidy_def with_tx_if_def
    by (auto simp: exec_def Let_def split: prod.splits sum.splits option.splits bool.splits dest!: m)
  show "with_tx_if m w = (r, w') \<longrightarrow> stmts w < stmts w'"
    unfolding with_tx_if_def
    by (auto simp: exec_def Let_def split: prod.splits sum.splits option.splits bool.splits dest!: m)
qed

lemma tidy_batch_body:
  "(\<And>r. tidy (process r)) \<Longrightarrow>
   tidy (bind (sql_load work wh rid) (\<lambda>rowdata. if rowdata = [] then ret False
          else andThen (each (\<lambda>i. case workRows i of None \<Rightarrow> fail nil_panic | Some row \<Rightarrow> process row) rowdata)
            (ret True)))"
  by (auto intro!: tidy_intros simp: messages_no_lock split: option.split)

text \<open>The driver reports no error after its first \<open>N\<close> answers.\<close>

definition settles :: "nat \<Rightarrow> 'd world \<Rightarrow> bool" where
  "settles N w \<longleftrightarrow> (\<forall>n \<ge> N. faults w n = None)"

lemma retried_batch_ends:
  assumes "\<And>r. tidy (process r)" and "settles N w"
  shows "\<exists>r w'. RepeatForLock (batch_tx work rid pending process workRows ids) w = Some (r, w') \<and> settles N w'"
proof -
  let ?f = "batch_tx work rid pending process workRows ids"
  note body = tidy_batch_body [where process = process, OF assms(1)]
  have t: "tidy ?f" unfolding batch_tx_def by (rule tidy_with_tx_if(1) [OF body])
  have keep: "settles N v \<Longrightarrow> settles N (snd (?f v))" for v
    using tidyD(2) [OF t, of v] by (cases "?f v") (auto simp: settles_def)
  have "\<exists>y. RepeatForLock ?f w = Some y"
  proof (rule RepeatForLock_ends [where I = "settles N" and m = "\<lambda>v. N - stmts v"])
    fix v e v1
    assume v: "settles N v" and run: "?f v = (Inl e, v1)" and lock: "ErrIsLockError (Some e)"
    have "stmts v < stmts v1"
      using run unfolding batch_tx_def by (rule tidy_with_tx_if(2) [OF body])
    moreover have "stmts v < N"
    proof (rule ccontr)
      assume "\<not> stmts v < N"
      with v have "\<forall>n \<ge> stmts v. faults v n = None" by (simp add: settles_def)
      from tidyD(3) [OF t run this] lock show False by simp
    qed
    ultimately show "settles N v1 \<and> N - stmts v1 < N - stmts v" using keep [OF v] run by simp
  qed (rule assms(2))
  then obtain r w' where y: "RepeatForLock ?f w = Some (r, w')" by auto
  from RepeatForLock_inv [OF y, of "settles N"] assms(2) keep obtain w1
    where "settles N w1" "?f w1 = (r, w')" by blast
  with keep [of w1] y show ?thesis by auto
qed

lemma batches_end:
  assumes "\<And>r. tidy (process r)" and "settles N w"
  shows "\<exists>r w'. batches rid (batch_tx work rid pending process) rows trows ids w = Some (r, w')"
  using assms(2)
proof (induction rows arbitrary: trows ids w)
  case Nil
  then show ?case using retried_batch_ends [OF assms(1)] by (fastforce simp: once_def ret_def)
next
  case (Cons row rows)
  let ?t = "trows(rid row \<mapsto> row)" and ?i = "ids @ [rid row]"
  from retried_batch_ends [where process = process, OF assms(1) Cons.prems] obtain r w1
    where "RepeatForLock (batch_tx work rid pending process ?t ?i) w = Some (r, w1)" "settles N w1" by blast
  with Cons.IH [of w1] Cons.IH [OF Cons.prems] show ?case
    by (cases r) (auto simp: then_run_def Let_def)
qed

section \<open>Batches are chunks\<close>

text \<open>The reference: cut the page into pieces of \<^verbatim>\<open>LockSize + 1\<close> rows and process one
  after the other.\<close>

function chunks :: "nat \<Rightarrow> 'a list \<Rightarrow> 'a list list" where
  "chunks n xs = (if xs = [] \<or> n = 0 then [] else take n xs # chunks n (drop n xs))"
  by pat_completeness auto
termination
  by (relation "measure (\<lambda>(n, xs). length xs)") auto

declare chunks.simps [simp del]

primrec run_each :: "('x \<Rightarrow> ('d, unit) run) \<Rightarrow> 'x list \<Rightarrow> ('d, unit) run" where
  "run_each f [] = once (ret ())"
| "run_each f (x # xs) = then_run (f x) (\<lambda>_. run_each f xs)"

definition as_map :: "('r \<Rightarrow> string) \<Rightarrow> 'r list \<Rightarrow> (string \<rightharpoonup> 'r)" where
  "as_map rid b = map_of (rev (map (\<lambda>r. (rid r, r)) b))"

lemma as_map_snoc [simp]: "as_map rid (b @ [r]) = (as_map rid b)(rid r \<mapsto> r)"
  by (simp add: as_map_def)

lemma as_map_Nil [simp]: "as_map rid [] = Map.empty"
  by (simp add: as_map_def)

lemma then_run_done [simp]: "then_run m (\<lambda>_. once (ret ())) = (m :: ('d, unit) run)"
  by (rule ext) (auto simp: then_run_def once_def ret_def split: option.splits prod.splits sum.splits)

lemma batches_prefix:
  assumes "length p \<le> LockSize"
  shows "batches rid post rows (as_map rid p) (map rid p)
    = run_each (\<lambda>b. RepeatForLock (post (as_map rid b) (map rid b))) (chunks (LockSize + 1) (p @ rows))"
  using assms
proof (induction rows arbitrary: p)
  case Nil
  then show ?case
    by (cases "p = []") (simp_all add: chunks.simps [of _ p] chunks.simps [of _ "[]"])
next
  case (Cons row rows)
  show ?case
  proof (cases "length p = LockSize")
    case False
    with Cons.prems have "length (p @ [row]) \<le> LockSize" by simp
    from Cons.IH [OF this] False Cons.prems show ?thesis by (simp add: fun_upd_def)
  next
    case True
    have "chunks (LockSize + 1) (p @ row # rows) = (p @ [row]) # chunks (LockSize + 1) rows"
      using True by (subst chunks.simps) simp
    with True Cons.IH [of "[]"] show ?thesis by (simp add: fun_upd_def)
  qed
qed

lemma chunks_concat: "n > 0 \<Longrightarrow> concat (chunks n xs) = xs"
  by (induction n xs rule: chunks.induct) (subst chunks.simps, simp)

lemma chunks_length: "b \<in> set (chunks n xs) \<Longrightarrow> 0 < length b \<and> length b \<le> n"
  by (induction n xs rule: chunks.induct) (subst (asm) (2) chunks.simps, auto split: if_splits)

section \<open>Rows that a page holds\<close>

lemma selectOutputs_stored:
  assumes "r \<in> set (selectOutputs op ty d)"
  shows "\<exists>a \<in> set (outTable ty d). oaa_ID a = oaa_ID r \<and> same_output r a \<and> oaa_Processed a = 0"
  using assms
  by (cases ty) (fastforce simp: selectOutputs_def Let_def same_output_def split: if_splits
      dest: in_set_takeD)+

lemma page_fresh:
  assumes "db_ok d" and "r \<in> set (selectOutputs op ty d)"
  shows "fits (outTable ty) oaa_ID same_output d r"
proof -
  from selectOutputs_stored [OF assms(2)] obtain a
    where a: "a \<in> set (outTable ty d)" "oaa_ID a = oaa_ID r" "same_output r a" by blast
  have "s = a" if "s \<in> set (outTable ty d)" "oaa_ID s = oaa_ID r" for s
    using that a(1,2) outTable_distinct [OF assms(1), of ty] by (metis distinct_map inj_on_eq_iff)
  with a(3) show ?thesis by (auto simp: fits_def list_all_iff)
qed

lemma selectTransactions_stored:
  "r \<in> set (selectTransactions d) \<Longrightarrow>
   \<exists>a \<in> set (output_txs_accumulate d). ota_ID a = ota_ID r \<and> same_tx r a \<and> ota_Processed a = 0"
  by (fastforce simp: selectTransactions_def same_tx_def dest: in_set_takeD)

lemma tx_page_fresh:
  assumes "db_ok d" and "r \<in> set (selectTransactions d)"
  shows "fits output_txs_accumulate ota_ID same_tx d r"
proof -
  from selectTransactions_stored [OF assms(2)] obtain a
    where a: "a \<in> set (output_txs_accumulate d)" "ota_ID a = ota_ID r" "same_tx r a" by blast
  have "s = a" if "s \<in> set (output_txs_accumulate d)" "ota_ID s = ota_ID r" for s
    using that a(1,2) txs_distinct [OF assms(1)] by (metis distinct_map inj_on_eq_iff)
  with a(3) show ?thesis by (auto simp: fits_def list_all_iff)
qed

lemma processOutputsPre_rows:
  "processOutputsPre rnd op ty w = (Inr rows, w') \<Longrightarrow>
   store w' = store w \<and> faults w' = faults w \<and> mset rows = mset (selectOutputs op ty (store w))"
  by (auto simp: processOutputsPre_def bind_def query_def shuffled_def Let_def split: option.splits)

lemma processTransactionsPre_rows:
  "processTransactionsPre rnd w = (Inr rows, w') \<Longrightarrow>
   store w' = store w \<and> faults w' = faults w \<and> mset rows = mset (selectTransactions (store w))"
  by (auto simp: processTransactionsPre_def bind_def query_def shuffled_def Let_def split: option.splits)

lemma processOutputs_split:
  assumes "processOutputs L rnd op ty w = Some (res, w')"
  shows "store w' = store w \<and> (\<exists>e. res = Inl e) \<or>
    (\<exists>rows w1 r. processOutputsPre rnd op ty w = (Inr rows, w1) \<and>
       batches oaa_ID (processOutputsPost L ty) rows Map.empty [] w1 = Some (r, w') \<and>
       res = map_sum id (\<lambda>_. word_of_nat (length rows)) r)"
proof (cases "processOutputsPre rnd op ty w")
  case (Pair x w1)
  show ?thesis
  proof (cases x)
    case (Inl e)
    with Pair have "store w1 = store w"
      by (auto simp: processOutputsPre_def bind_def query_def shuffled_def Let_def split: option.splits)
    with assms Pair Inl show ?thesis by (auto simp: processOutputs_def then_run_def once_def)
  next
    case (Inr rows)
    with assms Pair show ?thesis
      by (cases "rows = []")
        (auto simp: processOutputs_def then_run_def once_def ret_def split: option.splits sum.splits)
  qed
qed

section \<open>A run on an example\<close>

definition plain_lib :: nodelib where
  "plain_lib = \<lparr>ComputeHash256Array = (\<lambda>b. b), ID_String = (\<lambda>b. b), ID_Prefix = (\<lambda>b n. b),
     ShortID_String = (\<lambda>b. b), RecoverPublicKey = (\<lambda>h s. Inl ''no key''),
     PublicKey_Address = (\<lambda>b. b), PublicKey_Bytes = (\<lambda>b. b), FormatBech32 = (\<lambda>h b. Inr b),
     Add64 = (\<lambda>a b. Inr (a + b)), Propagate = (\<lambda>e s. e)\<rparr>"

definition sample_output :: "string \<Rightarrow> u64 \<Rightarrow> Outputs" where
  "sample_output i n = \<lparr>out_ID = i, out_ChainID = ''X'', out_TransactionID = ''t'' @ i, out_OutputIndex = 0,
     out_OutputType = 7, out_AssetID = ''DJTX'', out_Amount = n, out_Locktime = 0, out_Threshold = 1,
     out_GroupID = 0, out_Payload = None, out_StakeLocktime = 0, out_Stake = False, out_Frozen = False,
     out_Stakeableout = False, out_Genesisutxo = False, out_CreatedAt = 0\<rparr>"

definition sample_address :: "string \<Rightarrow> OutputAddresses" where
  "sample_address i = \<lparr>oad_OutputID = i, oad_Address = ''alice'', oad_RedeemingSignature = None,
     oad_CreatedAt = 0, oad_UpdatedAt = 0\<rparr>"

definition sample_row :: "string \<Rightarrow> OutputAddressAccumulate" where
  "sample_row i = \<lparr>oaa_ID = ''q'' @ i, oaa_OutputID = i, oaa_Address = ''alice'', oaa_Processed = 0,
     oaa_OutputProcessed = 0, oaa_TransactionID = ''t'' @ i, oaa_OutputIndex = 0, oaa_CreatedAt = 0\<rparr>"

definition sample_db :: database where
  "sample_db = empty_db\<lparr>avm_outputs := [sample_output ''1'' 30, sample_output ''2'' 12],
     avm_output_addresses := [sample_address ''1'', sample_address ''2''],
     output_addresses_accumulate_out := [sample_row ''1'', sample_row ''2'']\<rparr>"

text \<open>The driver answers the first two statements with a deadlock.\<close>

definition sample_world :: "database world" where
  "sample_world = \<lparr>store = sample_db,
     faults = (\<lambda>n. if n = 2 \<or> n = 3 then Some DeadlockDBErrorMessage else None), stmts = 0,
     clock = (\<lambda>n. int n), ticks = 0\<rparr>"

section \<open>What the handler guarantees\<close>

abbreviation balances_agree :: "nodelib \<Rightarrow> processType \<Rightarrow> column \<Rightarrow> database \<Rightarrow> bool" where
  "balances_agree L ty c \<equiv>
     balanced (outTable ty) (\<lambda>r. oaa_Processed r = 0) (recorded_balance c ty) (output_share L c)"

abbreviation output_waits :: "processType \<Rightarrow> database \<Rightarrow> string \<Rightarrow> bool" where
  "output_waits ty \<equiv> pending_id (outTable ty) oaa_ID (\<lambda>r. oaa_Processed r = 0)"

lemma processOutputs_after:
  assumes run: "processOutputs L rnd op ty w = Some (res, w')"
    and ok: "queue_ok ty (store w)" and bal: "balances_agree L ty c (store w)"
  shows "queue_ok ty (store w') \<and> balances_agree L ty c (store w') \<and>
    (\<forall>n. res = Inr n \<longrightarrow> n = word_of_nat (length (selectOutputs op ty (store w))) \<and>
      (\<forall>r \<in> set (selectOutputs op ty (store w)). \<not> output_waits ty (store w') (oaa_ID r)))"
  using processOutputs_split [OF run]
proof (elim disjE exE conjE)
  fix rows w1 r
  assume pre: "processOutputsPre rnd op ty w = (Inr rows, w1)"
    and b: "batches oaa_ID (processOutputsPost L ty) rows Map.empty [] w1 = Some (r, w')"
    and res: "res = map_sum id (\<lambda>_. word_of_nat (length rows)) r"
  note rows = processOutputsPre_rows [OF pre]
  then have set_rows: "set rows = set (selectOutputs op ty (store w))"
    and len: "length rows = length (selectOutputs op ty (store w))"
    by (metis set_mset_mset, metis size_mset)
  have "list_all (fits (outTable ty) oaa_ID same_output (store w1)) rows"
    using page_fresh ok rows set_rows by (auto simp: list_all_iff queue_ok_def)
  with outputs.batches_after [OF b [unfolded processOutputsPost_batch], of c] ok bal rows
  have "queue_ok ty (store w') \<and> balances_agree L ty c (store w') \<and>
    (r = Inr () \<longrightarrow> (\<forall>i \<in> oaa_ID ` set rows. \<not> output_waits ty (store w') i))"
    by (auto simp: outputs.after_def outputs.ready_rows_def)
  with res len set_rows show ?thesis by (cases r) auto
qed (use ok bal in auto)

text \<open>C10: Balances are conserved.  Whenever \<^verbatim>\<open>processOutputs\<close> returns, with or without an
  error, every stored balance (amount and number of outputs) is still the sum over the processed
  rows of the queue, each counted exactly once; and when it returns no error, it returns the number
  of rows of the page it read, none of which waits any more.\<close>

theorem processOutputs_conserves:
  assumes "processOutputs L rnd op ty w = Some (res, w')"
    and "queue_ok ty (store w)" and "\<And>c. balances_agree L ty c (store w)"
  shows "queue_ok ty (store w') \<and>
    (\<forall>c i. recorded_balance c ty (store w') i =
       sum_list (map (\<lambda>r. if oaa_Processed r = 0 then 0 else output_share L c (store w') r i)
         (outTable ty (store w')))) \<and>
    (\<forall>n. res = Inr n \<longrightarrow> n = word_of_nat (length (selectOutputs op ty (store w))) \<and>
      (\<forall>r \<in> set (selectOutputs op ty (store w)). \<not> output_waits ty (store w') (oaa_ID r)))"
  using processOutputs_after [OF assms(1,2) assms(3)] by (auto simp: balanced_def)

lemma sample_queue_ok: "queue_ok processTypeOut (store sample_world)"
  by code_simp

lemma sample_balanced: "balances_agree plain_lib processTypeOut c (store sample_world)"
  by (simp add: balanced_def sample_world_def sample_db_def recorded_balance_def outTable_def
      balanceTable_def empty_db_def sample_row_def)

theorem processOutputs_conserves_witness:
  "\<exists>w'. processOutputs plain_lib (\<lambda>_ _. 0) True processTypeOut sample_world = Some (Inr 2, w') \<and>
     recorded_balance TotalAmount processTypeOut (store w') ''X:DJTX:alice'' =
       sum_list (map (\<lambda>r. if oaa_Processed r = 0 then 0
           else output_share plain_lib TotalAmount (store w') r ''X:DJTX:alice'')
         (outTable processTypeOut (store w'))) \<and>
     \<not> output_waits processTypeOut (store w') ''q1''"
proof -
  have "map_option fst (processOutputs plain_lib (\<lambda>_ _. 0) True processTypeOut sample_world) = Some (Inr 2)"
    by code_simp
  then obtain w' where run: "processOutputs plain_lib (\<lambda>_ _. 0) True processTypeOut sample_world
      = Some (Inr 2, w')" by (auto simp: map_option_eq_Some)
  have "''q1'' \<in> set (map oaa_ID (selectOutputs True processTypeOut (store sample_world)))" by code_simp
  then obtain r where r: "r \<in> set (selectOutputs True processTypeOut (store sample_world))"
    "oaa_ID r = ''q1''" by auto
  note all = processOutputs_conserves [OF run sample_queue_ok sample_balanced]
  from all r have "\<not> output_waits processTypeOut (store w') ''q1''" by fastforce
  with all run show ?thesis by blast
qed

text \<open>C12: Termination.  When the driver stops reporting errors of its own after finitely many
  statements, \<^verbatim>\<open>processOutputs\<close> and \<^verbatim>\<open>processTransactions\<close> return, in spite of the retry
  loops without a bound.\<close>

theorem processing_terminates:
  assumes "\<forall>n \<ge> N. faults w n = None"
  shows "(\<exists>r w'. processOutputs L rnd op ty w = Some (r, w')) \<and>
    (\<exists>r w'. processTransactions L rnd w = Some (r, w'))"
proof
  have settled: "settles N w1" if "faults w1 = faults w" for w1
    using assms that by (simp add: settles_def)
  show "\<exists>r w'. processOutputs L rnd op ty w = Some (r, w')"
  proof (cases "processOutputsPre rnd op ty w")
    case (Pair x w1)
    show ?thesis
    proof (cases x)
      case (Inr rows)
      with Pair have "settles N w1" using processOutputsPre_rows settled by blast
      from batches_end [where process = "processOutputsBase L ty", OF tidy_processOutputsBase this]
      show ?thesis using Pair Inr
        by (auto simp: processOutputs_def then_run_def once_def ret_def processOutputsPost_batch
            split: option.splits sum.splits) (metis old.prod.exhaust option.distinct(1))
    qed (use Pair in \<open>simp add: processOutputs_def then_run_def once_def\<close>)
  qed
  show "\<exists>r w'. processTransactions L rnd w = Some (r, w')"
  proof (cases "processTransactionsPre rnd w")
    case (Pair x w1)
    show ?thesis
    proof (cases x)
      case (Inr rows)
      with Pair have "settles N w1" using processTransactionsPre_rows settled by blast
      from batches_end [where process = "processTransactionsBase L", OF tidy_processTransactionsBase this]
      show ?thesis using Pair Inr
        by (auto simp: processTransactions_def then_run_def once_def ret_def processTransactionsPost_batch
            split: option.splits sum.splits) (metis old.prod.exhaust option.distinct(1))
    qed (use Pair in \<open>simp add: processTransactions_def then_run_def once_def\<close>)
  qed
qed

theorem processing_terminates_witness:
  "(\<exists>r w'. processOutputs plain_lib (\<lambda>_ _. 0) True processTypeOut sample_world = Some (r, w')) \<and>
   (\<exists>r w'. processTransactions plain_lib (\<lambda>_ _. 0) sample_world = Some (r, w'))"
  using processing_terminates [of 4 sample_world plain_lib "\<lambda>_ _. 0" True processTypeOut]
  by (simp add: sample_world_def)

text \<open>A page is worked off in pieces of \<open>LockSize + 1 = 6\<close> rows, each piece in one
  transaction that is repeated while the database reports a lock error: the loop over the rows
  equals this reference.  No row is left out and none is in two pieces.\<close>

theorem batches_are_chunks:
  "batches rid post rows Map.empty [] =
     run_each (\<lambda>b. RepeatForLock (post (as_map rid b) (map rid b))) (chunks 6 rows) \<and>
   concat (chunks 6 rows) = rows \<and> list_all (\<lambda>b. 0 < length b \<and> length b \<le> 6) (chunks 6 rows)"
  using batches_prefix [of "[]" rid post rows] chunks_concat [of 6 rows] chunks_length [of _ 6 rows]
  by (auto simp: LockSize_def list_all_iff)

text \<open>The loop of \<^verbatim>\<open>runEvent\<close> without its counter.\<close>

partial_function (option) poll_until :: "('d, u64) run \<Rightarrow> 'd world \<Rightarrow> (goerr option \<times> 'd world) option" where
  "poll_until f w =
     (case f w of
        None \<Rightarrow> None
      | Some (Inl e, w1) \<Rightarrow>
          (if ErrIsLockError (Some e) then poll_until f w1 else Some (Some e, w1))
      | Some (Inr cnt, w1) \<Rightarrow>
          (if cnt < word_of_nat RowLimitValue then Some (None, w1) else poll_until f w1))"

lemma runEvent_poll:
  assumes "runEvent f icnt w = Some y" and "icnt < retryProcessing"
  shows "poll_until f w = Some y"
proof -
  have "icnt < retryProcessing \<longrightarrow> poll_until f w = Some y"
  proof (rule runEvent.raw_induct [rotated, OF assms(1)], rule impI)
    fix again :: "('a, u64) run \<Rightarrow> nat \<Rightarrow> 'a world \<Rightarrow> (goerr option \<times> 'a world) option"
      and f icnt w y
    assume IH: "\<And>f icnt w y. again f icnt w = Some y \<Longrightarrow> icnt < retryProcessing \<longrightarrow> poll_until f w = Some y"
      and run: "(if icnt < retryProcessing
          then (case f w of None \<Rightarrow> None
            | Some (Inl e, w1) \<Rightarrow>
                (if ErrIsLockError (Some e) then again f (0 + 1) w1 else Some (Some e, w1))
            | Some (Inr cnt, w1) \<Rightarrow>
                (if cnt < word_of_nat RowLimitValue then Some (None, w1) else again f (0 + 1) w1))
          else Some (None, w)) = Some y"
      and "icnt < retryProcessing"
    have "again f (0 + 1) w1 = Some y \<Longrightarrow> poll_until f w1 = Some y" for w1
      using IH [of f "0 + 1" w1 y] by (simp add: retryProcessing_def)
    with run \<open>icnt < retryProcessing\<close> show "poll_until f w = Some y"
      by (subst poll_until.simps) (auto split: option.splits prod.splits sum.splits if_splits)
  qed
  with assms(2) show ?thesis by simp
qed

lemma poll_runEvent:
  assumes "poll_until f w = Some y" and "icnt < retryProcessing"
  shows "runEvent f icnt w = Some y"
proof -
  have "\<forall>icnt < retryProcessing. runEvent f icnt w = Some y"
  proof (rule poll_until.raw_induct [rotated, OF assms(1)], intro allI impI)
    fix again :: "('a, u64) run \<Rightarrow> 'a world \<Rightarrow> (goerr option \<times> 'a world) option"
      and f w y icnt
    assume IH: "\<And>f w y. again f w = Some y \<Longrightarrow> \<forall>icnt < retryProcessing. runEvent f icnt w = Some y"
      and run: "(case f w of None \<Rightarrow> None
            | Some (Inl e, w1) \<Rightarrow>
                (if ErrIsLockError (Some e) then again f w1 else Some (Some e, w1))
            | Some (Inr cnt, w1) \<Rightarrow>
                (if cnt < word_of_nat RowLimitValue then Some (None, w1) else again f w1)) = Some y"
      and "icnt < retryProcessing"
    have "again f w1 = Some y \<Longrightarrow> runEvent f (0 + 1) w1 = Some y" for w1
      using IH [of f w1 y] by (simp add: retryProcessing_def)
    with run \<open>icnt < retryProcessing\<close> show "runEvent f icnt w = Some y"
      by (subst runEvent.simps) (auto split: option.splits prod.splits sum.splits if_splits)
  qed
  with assms(2) show ?thesis by simp
qed

text \<open>The retry counter of \<^verbatim>\<open>runEvent\<close> has no effect.  It is set back to zero on every
  path that reaches the end of the loop body, so the limit \<^verbatim>\<open>retryProcessing\<close> never stops the
  loop: it runs until a round reads less than a full page or fails with an error that is not a lock
  error.\<close>

theorem runEvent_ignores_counter: "runEvent f 0 w = poll_until f w"
  using runEvent_poll [of f 0 w] poll_runEvent [of f w]
  by (cases "runEvent f 0 w"; cases "poll_until f w") (auto simp: retryProcessing_def)

end
