(* ===== verification/Balance_System.thy ===== *)
theory Balance_System
  imports Balance_Manager
begin

text \<open>
  The accumulation of balances as a system: several handlers of
  \<^verbatim>\<open>src/balance/balance_manager.go\<close> that work at the same time on one database, beside the
  writers that fill the queues.

  The database runs one transaction after the other: \<^verbatim>\<open>select ... for update\<close> holds the rows
  of a batch until its transaction ends.  Between two transactions of a handler anything may happen,
  so a handler works with a page that it read long ago.  The relation \<open>sys_step\<close> interleaves the
  transactions of any number of workers and writers; the invariant \<open>books_agree\<close> says that
  all balances and counts are right, and it holds in every reachable state.  A call of
  \<^verbatim>\<open>processOutputs\<close> is a run of one worker of this system.
\<close>

section \<open>Writers\<close>

text \<open>The calls of the writers that add rows: with updates off, as the program is run.\<close>

fun appends :: "persist_call \<Rightarrow> bool" where
  "appends (CallInsertOutputAddressAccumulateOut v upd) = (\<not> upd)"
| "appends (CallInsertOutputAddressAccumulateIn v upd) = (\<not> upd)"
| "appends c = (\<not> rewrites_ledger c)"

definition row_ident :: "OutputAddressAccumulate \<Rightarrow> string \<times> string \<times> string \<times> bool" where
  "row_ident r = (oaa_ID r, oaa_OutputID r, oaa_Address r, oaa_Processed r = 0)"

definition addr_ident :: "OutputAddresses \<Rightarrow> string \<times> string" where
  "addr_ident a = (oad_OutputID a, oad_Address a)"

definition more_rows :: "('r \<Rightarrow> 'k) \<Rightarrow> ('k \<Rightarrow> bool) \<Rightarrow> 'r list \<Rightarrow> 'r list \<Rightarrow> bool" where
  "more_rows ident new t t' \<longleftrightarrow> (\<exists>u. map ident t' = map ident t @ u \<and> list_all new u)"

lemma more_rows_refl [simp]: "more_rows ident new t t"
  by (simp add: more_rows_def)

lemma more_rows_trans: "more_rows ident new t t1 \<Longrightarrow> more_rows ident new t1 t2 \<Longrightarrow> more_rows ident new t t2"
  by (auto simp: more_rows_def)

lemma more_rows_snoc [simp]: "new (ident r) \<Longrightarrow> more_rows ident new t (t @ [r])"
  by (simp add: more_rows_def)

lemma more_rows_upd [simp]: "(\<And>r. ident (f r) = ident r) \<Longrightarrow> more_rows ident new t (upd_rows wh f t)"
  by (simp add: more_rows_def map_upd_rows)

text \<open>What such a call may do to the tables of the accumulation.\<close>

definition feeds :: "database \<Rightarrow> database \<Rightarrow> bool" where
  "feeds d d' \<longleftrightarrow> prefix (avm_outputs d) (avm_outputs d') \<and>
     prefix (map addr_ident (avm_output_addresses d)) (map addr_ident (avm_output_addresses d')) \<and>
     (\<forall>ty. more_rows row_ident (\<lambda>(_, _, _, p). p) (outTable ty d) (outTable ty d')) \<and>
     more_rows (\<lambda>r. r) (\<lambda>r. ota_Processed r = 0) (output_txs_accumulate d) (output_txs_accumulate d') \<and>
     same_balances d d' \<and> recorded_count d' = recorded_count d"

interpretation feed: store_rel feeds
proof unfold_locales
  show "feeds d d" for d by (simp add: feeds_def same_balances_def)
  show "feeds d d1 \<Longrightarrow> feeds d1 d2 \<Longrightarrow> feeds d d2" for d d1 d2
    unfolding feeds_def
    by (elim conjE, intro conjI allI)
      (blast intro: prefix_order.trans, blast intro: prefix_order.trans, blast intro: more_rows_trans,
       blast intro: more_rows_trans, blast intro: balances.S_trans, simp)
qed

lemmas feed_intros =
  feed.steps_upsert feed.steps_ignore_dup feed.steps_wrap_err feed.steps_if
  feed.steps_sql_insert feed.steps_sql_update feed.steps_sql_delete

lemmas feed_simps = feeds_def same_balances_def recorded_balance_def recorded_count_def col_def
  outTable_def balanceTable_def row_ident_def addr_ident_def

lemma same_tables_feed:
  assumes "avm_outputs d' = avm_outputs d" and "avm_output_addresses d' = avm_output_addresses d"
    and "output_addresses_accumulate_out d' = output_addresses_accumulate_out d"
    and "output_addresses_accumulate_in d' = output_addresses_accumulate_in d"
    and "output_txs_accumulate d' = output_txs_accumulate d"
    and "accumulate_balances_received d' = accumulate_balances_received d"
    and "accumulate_balances_sent d' = accumulate_balances_sent d"
    and "accumulate_balances_transactions d' = accumulate_balances_transactions d"
  shows "feeds d d'"
  using assms
  by (simp add: feeds_def same_balances_def recorded_balance_def recorded_count_def outTable_def
      balanceTable_def fun_eq_iff split: processType.split)

lemma other_calls_feed:
  "steps (on_store feeds) (InsertTransactions v1 u)" "steps (on_store feeds) (InsertOutputsRedeeming v2 u)"
  "steps (on_store feeds) (InsertAssets v3 u)" "steps (on_store feeds) (InsertAddresses v4 u)"
  "steps (on_store feeds) (InsertAddressChain v5 u)" "steps (on_store feeds) (InsertTransactionsEpoch v6 u)"
  "steps (on_store feeds) (InsertCvmBlocks v7)" "steps (on_store feeds) (InsertCamLastBlockCache v8 u)"
  "steps (on_store feeds) (InsertCvmAddresses v9 u)" "steps (on_store feeds) (InsertCvmTransactionsAtomic v10 u)"
  "steps (on_store feeds) (InsertPvmBlocks v12 u)" "steps (on_store feeds) (InsertRewards v13 u)"
  "steps (on_store feeds) (UpdateRewardsProcessed v13)" "steps (on_store feeds) (InsertTransactionsValidator v14 u)"
  "steps (on_store feeds) (InsertTransactionsBlock v15 u)" "steps (on_store feeds) (InsertAddressBech32 v16 u)"
  unfolding InsertTransactions_def InsertOutputsRedeeming_def InsertAssets_def InsertAddresses_def
    InsertAddressChain_def InsertTransactionsEpoch_def InsertCvmBlocks_def InsertCamLastBlockCache_def
    InsertCvmAddresses_def InsertCvmTransactionsAtomic_def InsertPvmBlocks_def InsertRewards_def
    UpdateRewardsProcessed_def InsertTransactionsValidator_def InsertTransactionsBlock_def
    InsertAddressBech32_def
  by (intro feed_intros; rule same_tables_feed; simp)+

lemma more_other_calls_feed:
  "steps (on_store feeds) (InsertTransactionsRewardsOwnersAddress v17 u)"
  "steps (on_store feeds) (InsertTransactionsRewardsOwnersOutputs v18 u)"
  "steps (on_store feeds) (InsertTransactionsRewardsOwners v19 u)"
  "steps (on_store feeds) (InsertTxPool v20)" "steps (on_store feeds) (RemoveTxPool v20)"
  "steps (on_store feeds) (InsertKeyValueStore v21)"
  "steps (on_store feeds) (InsertNodeIndex v22 u)" "steps (on_store feeds) (UpdateNodeIndex v22)"
  unfolding InsertTransactionsRewardsOwnersAddress_def InsertTransactionsRewardsOwnersOutputs_def
    InsertTransactionsRewardsOwners_def InsertTxPool_def RemoveTxPool_def InsertKeyValueStore_def
    InsertNodeIndex_def UpdateNodeIndex_def
  by (intro feed_intros; rule same_tables_feed; simp)+

lemma account_calls_feed:
  "steps (on_store feeds) (InsertCvmAccount v u)" "steps (on_store feeds) (InsertCvmTransactionsTxdata t u)"
proof -
  show acc: "steps (on_store feeds) (InsertCvmAccount v u)" for v u
    by (rule steps_InsertCvmAccount [OF feed.store_rel_axioms]) (rule same_tables_feed; simp)+
  show "steps (on_store feeds) (InsertCvmTransactionsTxdata t u)"
    unfolding InsertCvmTransactionsTxdata_def
    by (intro feed.steps_upsert feed.steps_store_exec)
      (auto simp: Let_def intro!: same_tables_feed split: option.splits if_splits)
qed

lemma ledger_calls_feed:
  "steps (on_store feeds) (InsertOutputs v1 False)"
  "steps (on_store feeds) (InsertOutputAddresses v2 u)"
  "steps (on_store feeds) (UpdateOutputAddresses v2)"
  "steps (on_store feeds) (InsertOutputAddressAccumulateOut v3 False)"
  "steps (on_store feeds) (InsertOutputAddressAccumulateIn v3 False)"
  "steps (on_store feeds) (UpdateOutputAddressAccumulateInOutputsProcessed i)"
  unfolding InsertOutputs_def InsertOutputAddresses_def UpdateOutputAddresses_def
    InsertOutputAddressAccumulateOut_def InsertOutputAddressAccumulateIn_def
    UpdateOutputAddressAccumulateInOutputsProcessed_def
  by (intro feed_intros; simp add: feed_simps map_upd_rows all_processType fun_eq_iff split: option.split)+

lemma total_calls_feed:
  "steps (on_store feeds) (InsertOutputTxsAccumulate v4)"
  "steps (on_store feeds) (InsertAccumulateBalancesReceived v5)"
  "steps (on_store feeds) (InsertAccumulateBalancesSent v5)"
  "steps (on_store feeds) (InsertAccumulateBalancesTransactions v6)"
  unfolding InsertOutputTxsAccumulate_def InsertAccumulateBalancesReceived_def
    InsertAccumulateBalancesSent_def InsertAccumulateBalancesTransactions_def
  by (intro feed_intros; simp add: feed_simps fun_eq_iff split: processType.split column.split)+

lemma run_call_feeds: "appends c \<Longrightarrow> steps (on_store feeds) (run_call c)"
  by (cases c) (simp_all add: other_calls_feed more_other_calls_feed account_calls_feed
      ledger_calls_feed total_calls_feed)

section \<open>The balance of an output does not change any more\<close>

text \<open>With unique keys the grouped sum has at most one row: the output with its address.\<close>

definition balance_row :: "string \<Rightarrow> Outputs \<Rightarrow> AccumulateBalancesAmount" where
  "balance_row a o1 = \<lparr>aba_ID = [], aba_ChainID = out_ChainID o1, aba_AssetID = out_AssetID o1,
     aba_Address = a, aba_TotalAmount = unat (out_Amount o1), aba_UtxoCount = 0, aba_UpdatedAt = 0\<rparr>"

lemma one_output:
  assumes "db_ok d" and "o1 \<in> set (avm_outputs d)" and "out_ID o1 = i"
  shows "filter (\<lambda>x. out_ID x = i) (avm_outputs d) = [o1]"
  using avm_outputs_tbl.key_lookup [of d o1 "\<lambda>x. out_ID x = i"] assms
  by (simp add: db_ok_def Outputs_clash_def)

lemma one_address:
  assumes "db_ok d" and "x \<in> set (avm_output_addresses d)" and "addr_ident x = (i, a)"
  shows "filter (\<lambda>y. addr_ident y = (i, a)) (avm_output_addresses d) = [x]"
  using avm_output_addresses_tbl.key_lookup [of d x "\<lambda>y. addr_ident y = (i, a)"] assms
  by (simp add: db_ok_def OutputAddresses_clash_def addr_ident_def)

lemma join_filter:
  "concat (map (\<lambda>o1. concat (map (\<lambda>x. if P o1 x then [f o1 x] else []) xs)) os)
     = concat (map (\<lambda>o1. map (f o1) (filter (P o1) xs)) os)"
proof -
  have "concat (map (\<lambda>x. if P o1 x then [f o1 x] else []) xs) = map (f o1) (filter (P o1) xs)" for o1
    by (induction xs) auto
  then show ?thesis by simp
qed

lemma filter_outer:
  "concat (map (\<lambda>o1. if Q o1 then g o1 else []) os) = concat (map g (filter Q os))"
  by (induction os) auto

lemma concat_Nils [simp]: "concat (map (\<lambda>x. []) xs) = []"
  by (induction xs) auto

lemma selectBalances_row:
  assumes "db_ok d" and "o1 \<in> set (avm_outputs d)" and "out_ID o1 = i"
    and "x \<in> set (avm_output_addresses d)" and "addr_ident x = (i, a)"
  shows "selectBalances i a d = [balance_row a o1]"
proof -
  let ?f = "\<lambda>(o1 :: Outputs) (x :: OutputAddresses). ((out_ChainID o1, oad_Address x, out_AssetID o1), unat (out_Amount o1))"
  have one: "map (?f o2) (filter (\<lambda>y. out_ID o2 = oad_OutputID y \<and> out_ID o2 = i \<and> oad_Address y = a)
      (avm_output_addresses d))
    = (if out_ID o2 = i then [?f o2 x] else [])" for o2
  proof (cases "out_ID o2 = i")
    case True
    then have "filter (\<lambda>y. out_ID o2 = oad_OutputID y \<and> out_ID o2 = i \<and> oad_Address y = a)
        (avm_output_addresses d) = filter (\<lambda>y. addr_ident y = (i, a)) (avm_output_addresses d)"
      by (intro filter_cong) (auto simp: addr_ident_def)
    with one_address [OF assms(1,4,5)] True show ?thesis by simp
  qed simp
  have "concat (map (\<lambda>o2. map (?f o2) (filter (\<lambda>y. out_ID o2 = oad_OutputID y \<and> out_ID o2 = i \<and>
      oad_Address y = a) (avm_output_addresses d))) (avm_outputs d)) = [?f o1 x]"
    by (simp only: one filter_outer one_output [OF assms(1-3)] list.map concat.simps append_Nil2)
  then show ?thesis
    unfolding selectBalances_def join_filter using assms(5) by (simp add: balance_row_def addr_ident_def)
qed

lemma selectBalances_found:
  assumes "selectBalances i a d \<noteq> []"
  shows "\<exists>o1 x. o1 \<in> set (avm_outputs d) \<and> out_ID o1 = i \<and> x \<in> set (avm_output_addresses d) \<and>
    addr_ident x = (i, a)"
proof -
  let ?P = "\<lambda>o1 y. out_ID o1 = oad_OutputID y \<and> out_ID o1 = i \<and> oad_Address y = a"
  have "\<exists>o1 \<in> set (avm_outputs d). \<exists>x \<in> set (avm_output_addresses d). ?P o1 x"
  proof (rule ccontr)
    assume "\<not> ?thesis"
    then have "filter (?P o1) (avm_output_addresses d) = []" if "o1 \<in> set (avm_outputs d)" for o1
      using that by (auto simp: filter_empty_conv)
    then have "selectBalances i a d = []"
      unfolding selectBalances_def join_filter by (simp cong: map_cong)
    with assms show False by simp
  qed
  then show ?thesis by (metis addr_ident_def)
qed

lemma selectBalances_stable:
  assumes "db_ok d" and "db_ok d'" and "feeds d d'" and "selectBalances i a d \<noteq> []"
  shows "selectBalances i a d' = selectBalances i a d"
proof -
  from selectBalances_found [OF assms(4)] obtain o1 x where ox: "o1 \<in> set (avm_outputs d)"
    "out_ID o1 = i" "x \<in> set (avm_output_addresses d)" "addr_ident x = (i, a)" by blast
  from assms(3) ox(1) have "o1 \<in> set (avm_outputs d')"
    by (auto simp: feeds_def dest: set_mono_prefix)
  moreover have "addr_ident x \<in> set (map addr_ident (avm_output_addresses d'))"
    using assms(3) ox(3) unfolding feeds_def
    by (metis image_eqI list.set_map set_mono_prefix subsetD)
  then obtain y where "y \<in> set (avm_output_addresses d')" "addr_ident y = (i, a)" using ox(4) by auto
  ultimately show ?thesis
    using selectBalances_row [OF assms(1) ox] selectBalances_row [OF assms(2)] ox(2) by simp
qed

section \<open>The invariant\<close>

definition books_agree :: "nodelib \<Rightarrow> database \<Rightarrow> bool" where
  "books_agree L d \<longleftrightarrow> (\<forall>ty. queue_ok ty d) \<and> (\<forall>ty c. balances_agree L ty c d) \<and>
     balanced output_txs_accumulate (\<lambda>r. ota_Processed r = 0) recorded_count (tx_share L) d"

lemma sum_more_rows:
  assumes "more_rows ident new t t'" and "\<And>x y. x \<in> set t \<Longrightarrow> ident x = ident y \<Longrightarrow> g' y = g x"
    and "\<And>y. new (ident y) \<Longrightarrow> g' y = (0::nat)"
  shows "sum_list (map g' t') = sum_list (map g t)"
proof -
  from assms(1) obtain u where u: "map ident t' = map ident t @ u" "list_all new u"
    by (auto simp: more_rows_def)
  then obtain t1 t2 where t': "t' = t1 @ t2" and t1: "map ident t1 = map ident t" and t2: "map ident t2 = u"
    by (metis append_eq_map_conv)
  have "map g' t1 = map g t"
    using t1 assms(2)
  proof (induction t arbitrary: t1)
    case (Cons x t)
    then show ?case by (cases t1) auto
  qed simp
  moreover have "sum_list (map g' t2) = 0"
    using u(2) t2 assms(3) by (induction t2 arbitrary: u) auto
  ultimately show ?thesis by (simp add: t')
qed

text \<open>Writers keep it.\<close>

lemma feeds_books:
  assumes "books_agree L d" and "feeds d d'" and ok': "db_ok d'"
  shows "books_agree L d'"
proof -
  have ok: "db_ok d" using assms(1) by (auto simp: books_agree_def queue_ok_def)
  have more: "more_rows row_ident (\<lambda>(_, _, _, p). p) (outTable ty d) (outTable ty d')" for ty
    using assms(2) by (simp add: feeds_def)
  have stable: "selectBalances (oaa_OutputID r) (oaa_Address r) d' = selectBalances (oaa_OutputID r) (oaa_Address r) d
      \<and> selectBalances (oaa_OutputID r) (oaa_Address r) d \<noteq> []"
    if "r \<in> set (outTable ty d)" "oaa_Processed r \<noteq> 0" for r ty
    using assms(1) that selectBalances_stable [OF ok ok' assms(2)]
    by (auto simp: books_agree_def queue_ok_def list_all_iff)
  have old: "\<exists>r \<in> set (outTable ty d). row_ident r = row_ident s"
    if "s \<in> set (outTable ty d')" "oaa_Processed s \<noteq> 0" for s ty
  proof -
    from more [of ty] obtain u where u: "map row_ident (outTable ty d') = map row_ident (outTable ty d) @ u"
      "list_all (\<lambda>(_, _, _, p). p) u" by (auto simp: more_rows_def)
    have "row_ident s \<in> set (map row_ident (outTable ty d) @ u)" using that(1) u(1) by (metis image_eqI list.set_map)
    moreover have "row_ident s \<notin> set u" using u(2) that(2) by (auto simp: list_all_iff row_ident_def)
    ultimately show ?thesis by auto
  qed
  have "queue_ok ty d'" for ty
    unfolding queue_ok_def list_all_iff
  proof (intro conjI ballI impI)
    fix s assume s: "s \<in> set (outTable ty d')" "oaa_Processed s \<noteq> 0"
    from old [OF s] obtain r where "r \<in> set (outTable ty d)" "row_ident r = row_ident s" by blast
    with stable [of r ty] s(2) show "selectBalances (oaa_OutputID s) (oaa_Address s) d' \<noteq> []"
      by (auto simp: row_ident_def)
  qed (rule ok')
  moreover have "balances_agree L ty c d'" for ty c
    unfolding balanced_def
  proof
    fix k
    have "sum_list (map (\<lambda>r. if oaa_Processed r = 0 then 0 else output_share L c d' r k) (outTable ty d'))
        = sum_list (map (\<lambda>r. if oaa_Processed r = 0 then 0 else output_share L c d r k) (outTable ty d))"
    proof (rule sum_more_rows [OF more])
      fix x y assume "x \<in> set (outTable ty d)" "row_ident x = row_ident y"
      with stable [of x ty] show "(if oaa_Processed y = 0 then 0 else output_share L c d' y k)
          = (if oaa_Processed x = 0 then 0 else output_share L c d x k)"
        by (auto simp: row_ident_def output_share_def)
    qed (simp add: row_ident_def)
    also have "\<dots> = recorded_balance c ty d k"
      using assms(1) by (simp add: books_agree_def balanced_def)
    also have "\<dots> = recorded_balance c ty d' k"
      using assms(2) by (simp add: feeds_def same_balances_def)
    finally show "recorded_balance c ty d' k = sum_list (map (\<lambda>r. if oaa_Processed r = 0 then 0
        else output_share L c d' r k) (outTable ty d'))" by simp
  qed
  moreover have "balanced output_txs_accumulate (\<lambda>r. ota_Processed r = 0) recorded_count (tx_share L) d'"
  proof -
    have "sum_list (map (\<lambda>r. if ota_Processed r = 0 then 0 else tx_share L d' r k) (output_txs_accumulate d'))
        = sum_list (map (\<lambda>r. if ota_Processed r = 0 then 0 else tx_share L d r k) (output_txs_accumulate d))" for k
      by (rule sum_more_rows [of "\<lambda>r. r" "\<lambda>r. ota_Processed r = 0"])
        (use assms(2) in \<open>auto simp: feeds_def tx_share_def\<close>)
    with assms(1,2) show ?thesis by (auto simp: books_agree_def balanced_def feeds_def)
  qed
  ultimately show ?thesis by (simp add: books_agree_def)
qed

section \<open>What a handler leaves alone\<close>

context world_rel
begin

lemma steps_with_tx_if [steps_intros]:
  assumes "steps R m"
  shows "steps R (with_tx_if m)"
proof (rule stepsI)
  fix w
  let ?b = "exec (\<lambda>d. (None, d)) :: ('d, unit) go"
  have b: "R w0 (snd (?b w0))" for w0 by (rule stepsD) (rule steps_noop_exec)
  have m: "R w0 (snd (m w0))" for w0 by (rule stepsD) (rule assms)
  have begin_ok: "store w0 = store w" if "?b w = (x, w0)" for x w0
    using that by (auto simp: exec_def Let_def split: option.splits)
  have body: "R w w1" if "?b w = (x, w0)" "m w0 = (y, w1)" for x w0 y w1
    using R_trans [of w w0 w1] b [of w] m [of w0] that by simp
  have commit: "R w w2" if "?b w = (x, w0)" "m w0 = (y, w1)" "?b w1 = (z, w2)" for x w0 y w1 z w2
    using R_trans [of w w1 w2] body [OF that(1,2)] b [of w1] that(3) by simp
  obtain x w0 where e0: "?b w = (x, w0)" by (cases "?b w")
  obtain y w1 where e1: "m w0 = (y, w1)" by (cases "m w0")
  obtain z w2 where e2: "?b w1 = (z, w2)" by (cases "?b w1")
  note s0 = begin_ok [OF e0]
  have r: "R w w0" "R w (w1\<lparr>store := store w0\<rparr>)" "R w (w2\<lparr>store := store w0\<rparr>)" "R w w2"
    using b [of w] e0 R_rollback [OF body [OF e0 e1]] R_rollback [OF commit [OF e0 e1 e2]]
      commit [OF e0 e1 e2] s0 by simp_all
  show "R w (snd (with_tx_if m w))"
  proof (cases x)
    case (Inr _)
    show ?thesis
    proof (cases y)
      case (Inl e)
      with \<open>x = Inr _\<close> e0 e1 r show ?thesis by (simp add: with_tx_if_def)
    next
      case (Inr c)
      with \<open>x = Inr _\<close> e0 e1 e2 r show ?thesis
        by (cases c; cases z) (simp_all add: with_tx_if_def)
    qed
  qed (use e0 r in \<open>simp add: with_tx_if_def\<close>)
qed

end

definition beside :: "processType \<Rightarrow> database \<Rightarrow> database \<Rightarrow> bool" where
  "beside ty d d' \<longleftrightarrow> avm_outputs d' = avm_outputs d \<and> avm_output_addresses d' = avm_output_addresses d \<and>
     (\<forall>ty'. ty' \<noteq> ty \<longrightarrow> outTable ty' d' = outTable ty' d \<and> balanceTable ty' d' = balanceTable ty' d) \<and>
     (\<forall>ty'. prefix (map (\<lambda>r. (oaa_ID r, oaa_OutputID r, oaa_Address r)) (outTable ty' d))
                  (map (\<lambda>r. (oaa_ID r, oaa_OutputID r, oaa_Address r)) (outTable ty' d'))) \<and>
     more_rows (\<lambda>r. r) (\<lambda>r. ota_Processed r = 0) (output_txs_accumulate d) (output_txs_accumulate d') \<and>
     accumulate_balances_transactions d' = accumulate_balances_transactions d"

interpretation beside: store_rel "beside ty" for ty
proof unfold_locales
  show "beside ty d d" for d by (simp add: beside_def)
  show "beside ty d d1 \<Longrightarrow> beside ty d1 d2 \<Longrightarrow> beside ty d d2" for d d1 d2
    unfolding beside_def
    by (elim conjE, intro conjI allI impI)
      (simp, simp, simp, simp, blast intro: prefix_order.trans, blast intro: more_rows_trans, simp)
qed

lemmas beside_intros = beside.steps_bind beside.steps_andThen beside.steps_time_now beside.steps_sql_load
  beside.steps_fail beside.steps_each beside.steps_query beside.steps_ret beside.steps_with_tx_if
  beside.steps_ignore_dup beside.steps_sql_insert beside.steps_sql_update

lemmas beside_simps = beside_def table_defs all_processType map_upd_rows

lemma tables_beside:
  "steps (on_store (beside ty)) (InsertOutputTxsAccumulate v)"
  "steps (on_store (beside processTypeOut)) (InsertAccumulateBalancesReceived b)"
  "steps (on_store (beside processTypeIn)) (InsertAccumulateBalancesSent b)"
  "steps (on_store (beside ty))
     (sql_update (balanceTable ty) (balanceTable_update ty) AccumulateBalancesAmount_clash wh f)"
  "steps (on_store (beside ty))
     (sql_update (outTable ty) (outTable_update ty) OutputAddressAccumulate_clash wh1 (\<lambda>r. r\<lparr>oaa_Processed := n\<rparr>))"
proof -
  show "steps (on_store (beside ty)) (InsertOutputTxsAccumulate v)"
    unfolding InsertOutputTxsAccumulate_def by (intro beside_intros; simp add: beside_simps)
  show "steps (on_store (beside processTypeOut)) (InsertAccumulateBalancesReceived b)"
    unfolding InsertAccumulateBalancesReceived_def by (intro beside_intros; simp add: beside_simps)
  show "steps (on_store (beside processTypeIn)) (InsertAccumulateBalancesSent b)"
    unfolding InsertAccumulateBalancesSent_def by (intro beside_intros; simp add: beside_simps)
  show "steps (on_store (beside ty))
     (sql_update (balanceTable ty) (balanceTable_update ty) AccumulateBalancesAmount_clash wh f)"
    by (cases ty; intro beside_intros; simp add: beside_simps)
  show "steps (on_store (beside ty))
     (sql_update (outTable ty) (outTable_update ty) OutputAddressAccumulate_clash wh1 (\<lambda>r. r\<lparr>oaa_Processed := n\<rparr>))"
    by (cases ty; intro beside_intros; simp add: beside_simps)
qed

lemma processOutputsPost_beside: "steps (on_store (beside ty)) (processOutputsPost L ty rows ids)"
proof -
  have "steps (on_store (beside ty)) (lockAndAdd ty b)" for b
    unfolding lockAndAdd_def by (auto intro!: beside_intros tables_beside split: list.split)
  then have "steps (on_store (beside ty)) (processBalance L ty row b)" for row b
    unfolding processBalance_def Let_def
    by (cases ty) (auto intro!: beside_intros(1-3) tables_beside)
  then have "steps (on_store (beside ty)) (processOutputsBase L ty row)" for row
    unfolding processOutputsBase_def
    by (auto intro!: beside_intros(1,2,5,6,7) tables_beside)
  then show ?thesis
    unfolding processOutputsPost_def
    by (auto intro!: beside.steps_with_tx_if beside_intros(1,2,4,5,6,8) split: option.split)
qed

definition beside_txs :: "database \<Rightarrow> database \<Rightarrow> bool" where
  "beside_txs d d' \<longleftrightarrow> same_sources d d' \<and> (\<forall>ty. balanceTable ty d' = balanceTable ty d) \<and>
     prefix (map (\<lambda>r. (ota_ID r, ota_ChainID r, ota_AssetID r, ota_Address r)) (output_txs_accumulate d))
            (map (\<lambda>r. (ota_ID r, ota_ChainID r, ota_AssetID r, ota_Address r)) (output_txs_accumulate d'))"

interpretation beside_txs: store_rel beside_txs
  by unfold_locales (auto simp: beside_txs_def same_sources_def)

lemma processTransactionsPost_beside: "steps (on_store beside_txs) (processTransactionsPost L rows ids)"
proof -
  note intros = beside_txs.steps_bind beside_txs.steps_andThen beside_txs.steps_sql_load beside_txs.steps_fail
    beside_txs.steps_each beside_txs.steps_ret beside_txs.steps_time_now
  have upd: "steps (on_store beside_txs) (sql_update output_txs_accumulate output_txs_accumulate_update
      OutputTxsAccumulate_clash wh (\<lambda>r. r\<lparr>ota_Processed := n\<rparr>))" for wh n
    by (rule beside_txs.steps_sql_update)
      (simp add: beside_txs_def same_sources_def table_defs all_processType map_upd_rows)
  have add: "steps (on_store beside_txs) (sql_update accumulate_balances_transactions
      accumulate_balances_transactions_update AccumulateBalancesTransactions_clash wh f)" for wh f
    by (rule beside_txs.steps_sql_update) (simp add: beside_txs_def same_sources_def table_defs all_processType)
  have ins: "steps (on_store beside_txs) (InsertAccumulateBalancesTransactions b)" for b
    unfolding InsertAccumulateBalancesTransactions_def
    by (rule beside_txs.steps_ignore_dup, rule beside_txs.steps_sql_insert)
      (simp add: beside_txs_def same_sources_def table_defs all_processType)
  have "steps (on_store beside_txs) (lockAndCount b)" for b
    unfolding lockAndCount_def by (auto intro!: intros add split: list.split)
  then have "steps (on_store beside_txs) (processTransactionsBase L row)" for row
    unfolding processTransactionsBase_def Let_def by (auto intro!: intros upd ins)
  then show ?thesis
    unfolding processTransactionsPost_def
    by (auto intro!: beside_txs.steps_with_tx_if intros split: option.split)
qed

section \<open>Workers and writers side by side\<close>

text \<open>A worker is idle, or holds what is left of the page it has read.\<close>

datatype worker =
  Idle
| OutputsPage processType "OutputAddressAccumulate list"
| TxsPage "OutputTxsAccumulate list"

text \<open>After a batch the worker goes on, tries the batch again, or gives up.\<close>

definition next_worker :: "goerr + unit \<Rightarrow> worker \<Rightarrow> worker \<Rightarrow> worker" where
  "next_worker res same rest =
     (case res of Inr _ \<Rightarrow> rest | Inl e \<Rightarrow> if ErrIsLockError (Some e) then same else Idle)"

type_synonym sys = "database world \<times> worker list"

inductive sys_step :: "nodelib \<Rightarrow> (nat \<Rightarrow> nat \<Rightarrow> nat) \<Rightarrow> sys \<Rightarrow> sys \<Rightarrow> bool"
  for L :: nodelib and rnd :: "nat \<Rightarrow> nat \<Rightarrow> nat" where
  index: "list_all appends cs \<Longrightarrow> with_tx (each run_call cs) w = (r, w') \<Longrightarrow>
    sys_step L rnd (w, ws) (w', ws)"
| poll_outputs: "i < length ws \<Longrightarrow> ws ! i = Idle \<Longrightarrow> processOutputsPre rnd op ty w = (r, w') \<Longrightarrow>
    sys_step L rnd (w, ws) (w', ws[i := (case r of Inl _ \<Rightarrow> Idle | Inr rows \<Rightarrow> OutputsPage ty rows)])"
| poll_txs: "i < length ws \<Longrightarrow> ws ! i = Idle \<Longrightarrow> processTransactionsPre rnd w = (r, w') \<Longrightarrow>
    sys_step L rnd (w, ws) (w', ws[i := (case r of Inl _ \<Rightarrow> Idle | Inr rows \<Rightarrow> TxsPage rows)])"
| post_outputs: "i < length ws \<Longrightarrow> ws ! i = OutputsPage ty rows \<Longrightarrow> rows \<noteq> [] \<Longrightarrow>
    b = take (LockSize + 1) rows \<Longrightarrow>
    processOutputsPost L ty (as_map oaa_ID b) (map oaa_ID b) w = (r, w') \<Longrightarrow>
    sys_step L rnd (w, ws)
      (w', ws[i := next_worker r (OutputsPage ty rows) (OutputsPage ty (drop (LockSize + 1) rows))])"
| post_txs: "i < length ws \<Longrightarrow> ws ! i = TxsPage trows \<Longrightarrow> trows \<noteq> [] \<Longrightarrow>
    tb = take (LockSize + 1) trows \<Longrightarrow>
    processTransactionsPost L (as_map ota_ID tb) (map ota_ID tb) w = (r, w') \<Longrightarrow>
    sys_step L rnd (w, ws)
      (w', ws[i := next_worker r (TxsPage trows) (TxsPage (drop (LockSize + 1) trows))])"
| finish: "i < length ws \<Longrightarrow> ws ! i = OutputsPage ty [] \<or> ws ! i = TxsPage [] \<Longrightarrow>
    sys_step L rnd (w, ws) (w, ws[i := Idle])"

text \<open>Every row of a page is still in its queue, with the same content.\<close>

definition held :: "processType \<Rightarrow> database \<Rightarrow> OutputAddressAccumulate \<Rightarrow> bool" where
  "held ty d r \<longleftrightarrow> (oaa_ID r, oaa_OutputID r, oaa_Address r)
     \<in> set (map (\<lambda>r. (oaa_ID r, oaa_OutputID r, oaa_Address r)) (outTable ty d))"

definition held_tx :: "database \<Rightarrow> OutputTxsAccumulate \<Rightarrow> bool" where
  "held_tx d r \<longleftrightarrow> (ota_ID r, ota_ChainID r, ota_AssetID r, ota_Address r)
     \<in> set (map (\<lambda>r. (ota_ID r, ota_ChainID r, ota_AssetID r, ota_Address r)) (output_txs_accumulate d))"

definition page_ok :: "database \<Rightarrow> worker \<Rightarrow> bool" where
  "page_ok d p = (case p of Idle \<Rightarrow> True | OutputsPage ty rows \<Rightarrow> list_all (held ty d) rows
     | TxsPage rows \<Rightarrow> list_all (held_tx d) rows)"

definition sys_inv :: "nodelib \<Rightarrow> sys \<Rightarrow> bool" where
  "sys_inv L s \<longleftrightarrow> books_agree L (store (fst s)) \<and> list_all (page_ok (store (fst s))) (snd s)"

definition keeps_rows :: "database \<Rightarrow> database \<Rightarrow> bool" where
  "keeps_rows d d' \<longleftrightarrow> (\<forall>ty r. held ty d r \<longrightarrow> held ty d' r) \<and> (\<forall>r. held_tx d r \<longrightarrow> held_tx d' r)"

lemma pages_kept: "keeps_rows d d' \<Longrightarrow> list_all (page_ok d) ws \<Longrightarrow> list_all (page_ok d') ws"
  by (fastforce simp: keeps_rows_def list_all_iff page_ok_def split: worker.splits)

lemma beside_keeps: "beside ty d d' \<Longrightarrow> keeps_rows d d'"
proof -
  assume b: "beside ty d d'"
  have "held_tx d r \<Longrightarrow> held_tx d' r" for r
    using b by (auto simp: beside_def held_tx_def more_rows_def)
  moreover have "held ty' d r \<Longrightarrow> held ty' d' r" for ty' r
    using b set_mono_prefix unfolding beside_def held_def by blast
  ultimately show ?thesis by (simp add: keeps_rows_def)
qed

lemma beside_txs_keeps: "beside_txs d d' \<Longrightarrow> keeps_rows d d'"
proof -
  assume b: "beside_txs d d'"
  have "held_tx d r \<Longrightarrow> held_tx d' r" for r
    using b set_mono_prefix unfolding beside_txs_def held_tx_def by blast
  moreover have "held ty d r \<Longrightarrow> held ty d' r" for ty r
    using b by (simp add: beside_txs_def same_sources_def held_def)
  ultimately show ?thesis by (simp add: keeps_rows_def)
qed

lemma feeds_keeps: "feeds d d' \<Longrightarrow> keeps_rows d d'"
proof -
  assume f: "feeds d d'"
  have "held_tx d r \<Longrightarrow> held_tx d' r" for r
    using f by (auto simp: feeds_def held_tx_def more_rows_def)
  moreover have "held ty d' r" if "held ty d r" for ty r
  proof -
    from that obtain s where s: "s \<in> set (outTable ty d)" "oaa_ID s = oaa_ID r"
      "oaa_OutputID s = oaa_OutputID r" "oaa_Address s = oaa_Address r" by (auto simp: held_def)
    from f obtain u where "map row_ident (outTable ty d') = map row_ident (outTable ty d) @ u"
      unfolding feeds_def more_rows_def by blast
    then have "row_ident s \<in> set (map row_ident (outTable ty d'))" using s(1) by simp
    then obtain t where "t \<in> set (outTable ty d')" "row_ident t = row_ident s" by auto
    with s show ?thesis by (auto simp: held_def row_ident_def intro!: image_eqI [of _ _ t])
  qed
  ultimately show ?thesis by (simp add: keeps_rows_def)
qed

lemma held_fits: "db_ok d \<Longrightarrow> held ty d r \<Longrightarrow> fits (outTable ty) oaa_ID same_output d r"
proof -
  assume ok: "db_ok d" and "held ty d r"
  then obtain a where a: "a \<in> set (outTable ty d)" "oaa_ID a = oaa_ID r" "same_output r a"
    by (auto simp: held_def same_output_def)
  have "s = a" if "s \<in> set (outTable ty d)" "oaa_ID s = oaa_ID r" for s
    using that a(1,2) outTable_distinct [OF ok, of ty] by (metis distinct_map inj_on_eq_iff)
  with a(3) show ?thesis by (auto simp: fits_def list_all_iff)
qed

lemma held_tx_fits: "db_ok d \<Longrightarrow> held_tx d r \<Longrightarrow> fits output_txs_accumulate ota_ID same_tx d r"
proof -
  assume ok: "db_ok d" and "held_tx d r"
  then obtain a where a: "a \<in> set (output_txs_accumulate d)" "ota_ID a = ota_ID r" "same_tx r a"
    by (auto simp: held_tx_def same_tx_def)
  have "s = a" if "s \<in> set (output_txs_accumulate d)" "ota_ID s = ota_ID r" for s
    using that a(1,2) txs_distinct [OF ok] by (metis distinct_map inj_on_eq_iff)
  with a(3) show ?thesis by (auto simp: fits_def list_all_iff)
qed

lemma as_map_Some: "as_map rid b i = Some r \<Longrightarrow> rid r = i \<and> r \<in> set b"
  by (auto simp: as_map_def dest!: map_of_SomeD)

lemma as_map_ready:
  "list_all (held ty d) b \<Longrightarrow> db_ok d \<Longrightarrow> outputs.ready_rows ty (as_map oaa_ID b) d"
  by (auto simp: outputs.ready_rows_def list_all_iff dest!: as_map_Some intro: held_fits)

lemma as_map_ready_tx:
  "list_all (held_tx d) b \<Longrightarrow> db_ok d \<Longrightarrow> txs.ready_rows (as_map ota_ID b) d"
  by (auto simp: txs.ready_rows_def list_all_iff dest!: as_map_Some intro: held_tx_fits)

lemma books_ok: "books_agree L d \<Longrightarrow> db_ok d"
  by (auto simp: books_agree_def queue_ok_def)

text \<open>A batch of outputs keeps the books.\<close>

lemma beside_balances:
  assumes "beside ty d d'" and "ty' \<noteq> ty"
  shows "queue_ok ty' d \<Longrightarrow> db_ok d' \<Longrightarrow> queue_ok ty' d'"
    and "balances_agree L ty' c d \<Longrightarrow> balances_agree L ty' c d'"
proof -
  have same: "outTable ty' d' = outTable ty' d" "balanceTable ty' d' = balanceTable ty' d"
    and sel: "selectBalances i a d' = selectBalances i a d" for i a
    using assms by (auto simp: beside_def selectBalances_def)
  show "queue_ok ty' d \<Longrightarrow> db_ok d' \<Longrightarrow> queue_ok ty' d'" by (simp add: queue_ok_def same sel)
  show "balances_agree L ty' c d \<Longrightarrow> balances_agree L ty' c d'"
    by (simp add: balanced_def recorded_balance_def output_share_def same sel cong: if_cong)
qed

lemma more_txs_balanced:
  assumes "more_rows (\<lambda>r. r) (\<lambda>r. ota_Processed r = 0) (output_txs_accumulate d) (output_txs_accumulate d')"
    and "recorded_count d' = recorded_count d"
    and "balanced output_txs_accumulate (\<lambda>r. ota_Processed r = 0) recorded_count (tx_share L) d"
  shows "balanced output_txs_accumulate (\<lambda>r. ota_Processed r = 0) recorded_count (tx_share L) d'"
proof -
  have "sum_list (map (\<lambda>r. if ota_Processed r = 0 then 0 else tx_share L d' r k) (output_txs_accumulate d'))
      = sum_list (map (\<lambda>r. if ota_Processed r = 0 then 0 else tx_share L d r k) (output_txs_accumulate d))" for k
    by (rule sum_more_rows [of "\<lambda>r. r" "\<lambda>r. ota_Processed r = 0"])
      (use assms(1) in \<open>auto simp: tx_share_def\<close>)
  with assms(2,3) show ?thesis by (auto simp: balanced_def)
qed

lemma post_outputs_books:
  assumes run: "processOutputsPost L ty (as_map oaa_ID b) (map oaa_ID b) w = (r, w')"
    and books: "books_agree L (store w)" and rows: "list_all (held ty (store w)) b"
  shows "books_agree L (store w') \<and> keeps_rows (store w) (store w')"
proof -
  note ok = books_ok [OF books]
  have own: "queue_ok ty (store w') \<and> balances_agree L ty c (store w')" for c
    using outputs.batch_after [OF run [unfolded processOutputsPost_batch], of c] books
      as_map_ready [OF rows ok] by (auto simp: books_agree_def outputs.after_def)
  have bes: "beside ty (store w) (store w')"
    using stepsD [OF processOutputsPost_beside [of ty L "as_map oaa_ID b" "map oaa_ID b"], of w] run
    by (simp add: on_store_def)
  have "db_ok (store w')" using own by (simp add: queue_ok_def)
  with bes books beside_balances have "queue_ok ty' (store w') \<and> balances_agree L ty' c (store w')"
    if "ty' \<noteq> ty" for ty' c using that by (auto simp: books_agree_def)
  with own have "queue_ok ty' (store w') \<and> balances_agree L ty' c (store w')" for ty' c
    by (cases "ty' = ty") auto
  moreover have "balanced output_txs_accumulate (\<lambda>r. ota_Processed r = 0) recorded_count (tx_share L) (store w')"
    by (rule more_txs_balanced [of "store w"])
      (use bes books in \<open>auto simp: beside_def books_agree_def recorded_count_def fun_eq_iff\<close>)
  ultimately show ?thesis using beside_keeps [OF bes] by (simp add: books_agree_def)
qed

text \<open>So does a batch of transactions.\<close>

lemma post_txs_books:
  assumes run: "processTransactionsPost L (as_map ota_ID b) (map ota_ID b) w = (r, w')"
    and books: "books_agree L (store w)" and rows: "list_all (held_tx (store w)) b"
  shows "books_agree L (store w') \<and> keeps_rows (store w) (store w')"
proof -
  note ok = books_ok [OF books]
  have own: "db_ok (store w') \<and>
      balanced output_txs_accumulate (\<lambda>r. ota_Processed r = 0) recorded_count (tx_share L) (store w')"
    using txs.batch_after [OF run [unfolded processTransactionsPost_batch]] books ok
      as_map_ready_tx [OF rows ok] by (auto simp: books_agree_def txs.after_def)
  have bes: "beside_txs (store w) (store w')"
    using stepsD [OF processTransactionsPost_beside [of L "as_map ota_ID b" "map ota_ID b"], of w] run
    by (simp add: on_store_def)
  then have same: "outTable ty (store w') = outTable ty (store w)"
      "balanceTable ty (store w') = balanceTable ty (store w)"
    and sel: "selectBalances i a (store w') = selectBalances i a (store w)" for ty i a
    by (auto simp: beside_txs_def same_sources_def selectBalances_def)
  have "queue_ok ty (store w')" for ty
    using books own by (simp add: books_agree_def queue_ok_def same sel)
  moreover have "balances_agree L ty c (store w')" for ty c
    using books by (simp add: books_agree_def balanced_def recorded_balance_def output_share_def same sel
        cong: if_cong)
  ultimately show ?thesis using own beside_txs_keeps [OF bes] by (simp add: books_agree_def)
qed

lemma index_books:
  assumes "list_all appends cs" and "with_tx (each run_call cs) w = (r, w')" and "books_agree L (store w)"
  shows "books_agree L (store w') \<and> keeps_rows (store w) (store w')"
proof -
  have "steps (on_store feeds) (with_tx (each run_call cs))"
    using assms(1) by (intro feed.steps_with_tx feed.steps_each) (auto simp: list_all_iff intro: run_call_feeds)
  then have f: "feeds (store w) (store w')" using assms(2) by (metis on_store_def snd_conv stepsD)
  have "steps (on_store keeps_ok) (with_tx (each run_call cs))"
    by (intro ok.steps_with_tx ok.steps_each run_call_keeps_ok)
  then have "db_ok (store w')"
    using assms(2) books_ok [OF assms(3)] by (metis keeps_ok_def on_store_def snd_conv stepsD)
  with f feeds_books [OF assms(3)] feeds_keeps show ?thesis by blast
qed

lemma selected_held: "r \<in> set (selectOutputs op ty d) \<Longrightarrow> held ty d r"
proof -
  assume "r \<in> set (selectOutputs op ty d)"
  from selectOutputs_stored [OF this] obtain a
    where "a \<in> set (outTable ty d)" "oaa_ID a = oaa_ID r" "same_output r a" by blast
  then show ?thesis by (auto simp: held_def same_output_def intro!: image_eqI [of _ _ a])
qed

lemma selected_held_tx: "r \<in> set (selectTransactions d) \<Longrightarrow> held_tx d r"
proof -
  assume "r \<in> set (selectTransactions d)"
  from selectTransactions_stored [OF this] obtain a
    where "a \<in> set (output_txs_accumulate d)" "ota_ID a = ota_ID r" "same_tx r a" by blast
  then show ?thesis by (auto simp: held_tx_def same_tx_def intro!: image_eqI [of _ _ a])
qed

lemma page_read: "mset rows = mset (selectOutputs op ty d) \<Longrightarrow> page_ok d (OutputsPage ty rows)"
  using selected_held by (auto simp: page_ok_def list_all_iff dest: mset_eq_setD)

lemma tx_page_read: "mset rows = mset (selectTransactions d) \<Longrightarrow> page_ok d (TxsPage rows)"
  using selected_held_tx by (auto simp: page_ok_def list_all_iff dest: mset_eq_setD)

lemma list_all_update: "list_all P xs \<Longrightarrow> P x \<Longrightarrow> list_all P (xs[i := x])"
  by (auto simp: list_all_iff dest: set_update_subset_insert [THEN subsetD])

lemma page_ok_next: "page_ok d p \<Longrightarrow> page_ok d q \<Longrightarrow> page_ok d (next_worker r p q)"
  by (auto simp: next_worker_def page_ok_def split: sum.splits)

lemma pre_store:
  "processOutputsPre rnd op ty w = (r, w') \<Longrightarrow> store w' = store w"
  "processTransactionsPre rnd w = (r2, w') \<Longrightarrow> store w' = store w"
  by (auto simp: processOutputsPre_def processTransactionsPre_def bind_def query_def shuffled_def Let_def
      split: option.splits)

lemma sys_step_inv: "sys_step L rnd s s' \<Longrightarrow> sys_inv L s \<Longrightarrow> sys_inv L s'"
proof (induction rule: sys_step.induct)
  case (index cs w r w' ws)
  then show ?case
    using index_books [OF index(1,2), of L] pages_kept [of "store w" "store w'" ws]
    by (auto simp: sys_inv_def)
next
  case (poll_outputs i ws op ty w r w')
  have "page_ok (store w) (case r of Inl _ \<Rightarrow> Idle | Inr rows \<Rightarrow> OutputsPage ty rows)"
  proof (cases r)
    case (Inr rows)
    with poll_outputs show ?thesis
      using page_read processOutputsPre_rows by auto
  qed (simp add: page_ok_def)
  with poll_outputs show ?case
    using pre_store(1) [OF poll_outputs(3)] by (simp add: sys_inv_def list_all_update)
next
  case (poll_txs i ws w r w')
  have "page_ok (store w) (case r of Inl _ \<Rightarrow> Idle | Inr rows \<Rightarrow> TxsPage rows)"
  proof (cases r)
    case (Inr rows)
    with poll_txs show ?thesis using tx_page_read processTransactionsPre_rows by auto
  qed (simp add: page_ok_def)
  with poll_txs show ?case
    using pre_store(2) [OF poll_txs(3)] by (simp add: sys_inv_def list_all_update)
next
  case (post_outputs i ws ty rows b w r w')
  from post_outputs have page: "list_all (held ty (store w)) rows"
    by (force simp: sys_inv_def list_all_length page_ok_def)
  with post_outputs(4) have "list_all (held ty (store w)) b"
    by (auto simp: list_all_iff dest: in_set_takeD)
  with post_outputs post_outputs_books [OF post_outputs(5)]
  have new: "books_agree L (store w')" "keeps_rows (store w) (store w')" by (auto simp: sys_inv_def)
  with page have "list_all (held ty (store w')) rows" by (auto simp: keeps_rows_def list_all_iff)
  then have "page_ok (store w') (next_worker r (OutputsPage ty rows) (OutputsPage ty (drop (LockSize + 1) rows)))"
    by (intro page_ok_next) (auto simp: page_ok_def list_all_iff dest: in_set_dropD)
  with new pages_kept post_outputs show ?case by (auto simp: sys_inv_def intro: list_all_update)
next
  case (post_txs i ws trows tb w r w')
  from post_txs have page: "list_all (held_tx (store w)) trows"
    by (force simp: sys_inv_def list_all_length page_ok_def)
  with post_txs(4) have "list_all (held_tx (store w)) tb"
    by (auto simp: list_all_iff dest: in_set_takeD)
  with post_txs post_txs_books [OF post_txs(5)]
  have new: "books_agree L (store w')" "keeps_rows (store w) (store w')" by (auto simp: sys_inv_def)
  with page have "list_all (held_tx (store w')) trows" by (auto simp: keeps_rows_def list_all_iff)
  then have "page_ok (store w') (next_worker r (TxsPage trows) (TxsPage (drop (LockSize + 1) trows)))"
    by (intro page_ok_next) (auto simp: page_ok_def list_all_iff dest: in_set_dropD)
  with new pages_kept post_txs show ?case by (auto simp: sys_inv_def intro: list_all_update)
next
  case (finish i ws ty w)
  then show ?case by (auto simp: sys_inv_def page_ok_def intro: list_all_update)
qed

section \<open>One call is one run of a worker\<close>

lemma step_outputs:
  assumes "rows \<noteq> []" and "processOutputsPost L ty (as_map oaa_ID (take (LockSize + 1) rows))
      (map oaa_ID (take (LockSize + 1) rows)) w = (r, w')"
  shows "sys_step L rnd (w, [OutputsPage ty rows])
     (w', [next_worker r (OutputsPage ty rows) (OutputsPage ty (drop (LockSize + 1) rows))])"
  using sys_step.post_outputs [of 0 "[OutputsPage ty rows]" ty rows "take (LockSize + 1) rows" L w r w' rnd]
    assms by simp

lemma step_finish: "sys_step L rnd (w, [OutputsPage ty []]) (w, [Idle])"
  using sys_step.finish [of 0 "[OutputsPage ty []]" ty L rnd w] by simp

lemma chunks_run:
  assumes "run_each (\<lambda>b. RepeatForLock (processOutputsPost L ty (as_map oaa_ID b) (map oaa_ID b)))
      (chunks (LockSize + 1) rows) w = Some (r, w')"
  shows "(sys_step L rnd)\<^sup>*\<^sup>* (w, [OutputsPage ty rows]) (w', [Idle])"
  using assms
proof (induction "LockSize + 1" rows arbitrary: w rule: chunks.induct)
  case (1 rows)
  show ?case
  proof (cases "rows = []")
    case True
    with "1.prems" have "w' = w" by (simp add: chunks.simps once_def ret_def)
    with True step_finish show ?thesis by (metis r_into_rtranclp)
  next
    case False
    let ?b = "take (LockSize + 1) rows"
    let ?f = "processOutputsPost L ty (as_map oaa_ID ?b) (map oaa_ID ?b)"
    let ?I = "\<lambda>v. (sys_step L rnd)\<^sup>*\<^sup>* (w, [OutputsPage ty rows]) (v, [OutputsPage ty rows])"
    have c: "chunks (LockSize + 1) rows = ?b # chunks (LockSize + 1) (drop (LockSize + 1) rows)"
      using False by (subst chunks.simps) simp
    with "1.prems" obtain x w1 where rep: "RepeatForLock ?f w = Some (x, w1)"
      and rest: "(case x of Inl e \<Rightarrow> Some (Inl e, w1)
        | Inr _ \<Rightarrow> run_each (\<lambda>b. RepeatForLock (processOutputsPost L ty (as_map oaa_ID b) (map oaa_ID b)))
            (chunks (LockSize + 1) (drop (LockSize + 1) rows)) w1) = Some (r, w')"
      by (auto simp: then_run_def split: option.splits prod.splits sum.splits)
    have "\<exists>v. ?I v \<and> ?f v = (x, w1) \<and> (\<forall>e. x = Inl e \<longrightarrow> \<not> ErrIsLockError (Some e))"
    proof (rule RepeatForLock_result [OF rep])
      fix v e v1
      assume "?I v" "?f v = (Inl e, v1)" "ErrIsLockError (Some e)"
      then show "?I v1"
        using step_outputs [OF False, of L ty v "Inl e" v1 rnd]
        by (auto simp: next_worker_def intro: rtranclp.rtrancl_into_rtrancl)
    qed simp
    then obtain v where v: "?I v" "?f v = (x, w1)" "\<forall>e. x = Inl e \<longrightarrow> \<not> ErrIsLockError (Some e)" by blast
    from v(1) step_outputs [OF False v(2), of rnd]
    have to: "(sys_step L rnd)\<^sup>*\<^sup>* (w, [OutputsPage ty rows])
        (w1, [next_worker x (OutputsPage ty rows) (OutputsPage ty (drop (LockSize + 1) rows))])"
      by (rule rtranclp.rtrancl_into_rtrancl)
    show ?thesis
    proof (cases x)
      case (Inl e)
      with v(3) to rest show ?thesis by (simp add: next_worker_def)
    next
      case (Inr u)
      have "(sys_step L rnd)\<^sup>*\<^sup>* (w1, [OutputsPage ty (drop (LockSize + 1) rows)]) (w', [Idle])"
        by (rule "1.hyps") (use False rest Inr in auto)
      with to Inr show ?thesis by (simp add: next_worker_def)
    qed
  qed
qed

section \<open>The guarantees of the system\<close>

text \<open>C9: In every state that any number of workers and writers can reach together, all balances
  agree: each stored total amount, output count and transaction count is the sum over the processed
  rows of its queue.  A row that two workers have read is booked by one of them only.\<close>

theorem balances_always_agree:
  assumes "(sys_step L rnd)\<^sup>*\<^sup>* (w, replicate n Idle) (w', ws)" and "books_agree L (store w)"
  shows "books_agree L (store w')"
proof -
  have "sys_inv L (w', ws)"
    using assms(1)
  proof (induction rule: rtranclp_induct)
    case base
    with assms(2) show ?case by (auto simp: sys_inv_def list_all_iff page_ok_def)
  next
    case (step s t)
    then show ?case by (blast intro: sys_step_inv)
  qed
  then show ?thesis by (simp add: sys_inv_def)
qed

text \<open>Two workers read the same page; the second finds its rows already booked.\<close>

definition race :: "database world \<Rightarrow> database world" where
  "race w =
     (let b = selectOutputs True processTypeOut (store w);
          post = processOutputsPost plain_lib processTypeOut (as_map oaa_ID b) (map oaa_ID b)
      in snd (post (snd (post w))))"

definition calm_sample :: "database world" where
  "calm_sample = sample_world\<lparr>faults := (\<lambda>_. None)\<rparr>"

lemma sample_books: "books_agree plain_lib (store calm_sample)"
proof -
  have "queue_ok ty (store calm_sample)" for ty
    by (cases ty) (simp, code_simp)+
  then show ?thesis
    by (simp add: books_agree_def balanced_def calm_sample_def sample_world_def sample_db_def
        recorded_balance_def recorded_count_def outTable_def balanceTable_def empty_db_def sample_row_def
        split: processType.split)
qed

theorem balances_always_agree_witness:
  "\<exists>w' ws. (sys_step plain_lib (\<lambda>_ _. 0))\<^sup>*\<^sup>* (calm_sample, replicate 2 Idle) (w', ws) \<and>
     w' \<noteq> calm_sample \<and> books_agree plain_lib (store w')"
proof -
  obtain r w' where run: "processOutputsPre (\<lambda>_ _. 0) True processTypeOut calm_sample = (r, w')"
    by (cases "processOutputsPre (\<lambda>_ _. 0) True processTypeOut calm_sample")
  have "stmts (snd (processOutputsPre (\<lambda>_ _. 0) True processTypeOut calm_sample)) = 1" by code_simp
  with run have "w' \<noteq> calm_sample" by (auto simp: calm_sample_def sample_world_def)
  moreover have "(sys_step plain_lib (\<lambda>_ _. 0))\<^sup>*\<^sup>* (calm_sample, replicate 2 Idle)
      (w', (replicate 2 Idle)[0 := (case r of Inl _ \<Rightarrow> Idle | Inr rows \<Rightarrow> OutputsPage processTypeOut rows)])"
    by (rule r_into_rtranclp, rule sys_step.poll_outputs [OF _ _ run]) auto
  ultimately show ?thesis
    using balances_always_agree [OF _ sample_books] by blast
qed

text \<open>C11: A call of \<^verbatim>\<open>processOutputs\<close> refines the system: whenever it returns, what it did to
  the database is a run of one worker, from idle to idle, one transaction at a time.\<close>

theorem processOutputs_refines_system:
  assumes "processOutputs L rnd op ty w = Some (res, w')"
  shows "(sys_step L rnd)\<^sup>*\<^sup>* (w, [Idle]) (w', [Idle])"
proof (cases "processOutputsPre rnd op ty w")
  case (Pair x w1)
  have poll: "sys_step L rnd (w, [Idle])
      (w1, [case x of Inl _ \<Rightarrow> Idle | Inr rows \<Rightarrow> OutputsPage ty rows])"
    using sys_step.poll_outputs [of 0 "[Idle]" rnd op ty w x w1 L] Pair by simp
  show ?thesis
  proof (cases x)
    case (Inl e)
    with assms Pair have "w' = w1" by (simp add: processOutputs_def then_run_def once_def)
    with poll Inl show ?thesis by (simp add: r_into_rtranclp)
  next
    case (Inr rows)
    have "\<exists>r. batches oaa_ID (processOutputsPost L ty) rows Map.empty [] w1 = Some (r, w')"
      using assms Pair Inr
      by (cases "rows = []")
        (auto simp: processOutputs_def then_run_def once_def ret_def split: option.splits sum.splits)
    then obtain r where "run_each (\<lambda>b. RepeatForLock (processOutputsPost L ty (as_map oaa_ID b) (map oaa_ID b)))
        (chunks (LockSize + 1) rows) w1 = Some (r, w')"
      using batches_prefix [of "[]" oaa_ID "processOutputsPost L ty" rows] by auto
    from chunks_run [OF this, of rnd] poll Inr show ?thesis
      by (auto intro: converse_rtranclp_into_rtranclp)
  qed
qed

theorem processOutputs_refines_system_witness:
  "\<exists>w'. processOutputs plain_lib (\<lambda>_ _. 0) True processTypeOut sample_world = Some (Inr 2, w') \<and>
     (sys_step plain_lib (\<lambda>_ _. 0))\<^sup>*\<^sup>* (sample_world, [Idle]) (w', [Idle])"
proof -
  have "map_option fst (processOutputs plain_lib (\<lambda>_ _. 0) True processTypeOut sample_world) = Some (Inr 2)"
    by code_simp
  then obtain w' where "processOutputs plain_lib (\<lambda>_ _. 0) True processTypeOut sample_world
      = Some (Inr 2, w')" by (auto simp: map_option_eq_Some)
  with processOutputs_refines_system show ?thesis by blast
qed

end
