(* ===== verification/Models_Types.thy ===== *)
theory Models_Types
  imports Magellan_Prelude
begin

text \<open>
  The enumerations of \<^verbatim>\<open>src/models/types.go\<close>, as the machine integers they are, with
  the \<^verbatim>\<open>String\<close> methods that name them in the stored rows; and the proposer record of
  \<^verbatim>\<open>src/models/proposer.go\<close> and the token amounts of \<^verbatim>\<open>src/models/primitives.go\<close>.
\<close>

section \<open>Constants\<close>

definition CChainIn :: u16 where
  "CChainIn = 1"

definition CchainOut :: u16 where
  "CchainOut = 2"

definition CChainImport :: u16 where
  "CChainImport = 1"

definition CChainExport :: u16 where
  "CChainExport = 2"

definition OutputTypesSECP2556K1Transfer :: u32 where
  "OutputTypesSECP2556K1Transfer = 7"

definition OutputTypesSECP2556K1Mint :: u32 where
  "OutputTypesSECP2556K1Mint = 6"

definition OutputTypesNFTMint :: u32 where
  "OutputTypesNFTMint = 10"

definition OutputTypesNFTTransfer :: u32 where
  "OutputTypesNFTTransfer = 11"

definition OutputTypesAtomicExportTx :: u32 where
  "OutputTypesAtomicExportTx = 4294967281"

definition OutputTypesAtomicImportTx :: u32 where
  "OutputTypesAtomicImportTx = 4294967282"

definition BlockTypeProposal :: u16 where
  "BlockTypeProposal = 0"

definition BlockTypeAbort :: u16 where
  "BlockTypeAbort = 1"

definition BlockTypeCommit :: u16 where
  "BlockTypeCommit = 2"

definition BlockTypeStandard :: u16 where
  "BlockTypeStandard = 3"

definition BlockTypeAtomic :: u16 where
  "BlockTypeAtomic = 4"

definition TransactionTypeBase :: u16 where
  "TransactionTypeBase = 0"

definition TransactionTypeCreateAsset :: u16 where
  "TransactionTypeCreateAsset = 1"

definition TransactionTypeOperation :: u16 where
  "TransactionTypeOperation = 2"

definition TransactionTypeAVMImport :: u16 where
  "TransactionTypeAVMImport = 3"

definition TransactionTypeAVMExport :: u16 where
  "TransactionTypeAVMExport = 4"

definition TransactionTypeAddValidator :: u16 where
  "TransactionTypeAddValidator = 12"

definition TransactionTypeAddSubnetValidator :: u16 where
  "TransactionTypeAddSubnetValidator = 13"

definition TransactionTypeAddDelegator :: u16 where
  "TransactionTypeAddDelegator = 14"

definition TransactionTypeCreateChain :: u16 where
  "TransactionTypeCreateChain = 15"

definition TransactionTypeCreateSubnet :: u16 where
  "TransactionTypeCreateSubnet = 16"

definition TransactionTypePVMImport :: u16 where
  "TransactionTypePVMImport = 17"

definition TransactionTypePVMExport :: u16 where
  "TransactionTypePVMExport = 18"

definition TransactionTypeAdvanceTime :: u16 where
  "TransactionTypeAdvanceTime = 19"

definition TransactionTypeRewardValidator :: u16 where
  "TransactionTypeRewardValidator = 20"

definition TransactionTypeRemoveSubnetValidator :: u16 where
  "TransactionTypeRemoveSubnetValidator = 21"

definition TransactionTypeTransformSubnet :: u16 where
  "TransactionTypeTransformSubnet = 22"

definition TransactionTypeAddPermissionlessValidator :: u16 where
  "TransactionTypeAddPermissionlessValidator = 23"

definition TransactionTypeAddPermissionlessDelegator :: u16 where
  "TransactionTypeAddPermissionlessDelegator = 24"

definition TransactionTypeAddDaoProposal :: u16 where
  "TransactionTypeAddDaoProposal = 25"

definition TransactionTypeAddDaoVote :: u16 where
  "TransactionTypeAddDaoVote = 32"

definition TypeUnknown :: string where
  "TypeUnknown = ''unknown''"

lemmas type_consts =
  CChainIn_def
  CchainOut_def
  CChainImport_def
  CChainExport_def
  OutputTypesSECP2556K1Transfer_def
  OutputTypesSECP2556K1Mint_def
  OutputTypesNFTMint_def
  OutputTypesNFTTransfer_def
  OutputTypesAtomicExportTx_def
  OutputTypesAtomicImportTx_def
  BlockTypeProposal_def
  BlockTypeAbort_def
  BlockTypeCommit_def
  BlockTypeStandard_def
  BlockTypeAtomic_def
  TransactionTypeBase_def
  TransactionTypeCreateAsset_def
  TransactionTypeOperation_def
  TransactionTypeAVMImport_def
  TransactionTypeAVMExport_def
  TransactionTypeAddValidator_def
  TransactionTypeAddSubnetValidator_def
  TransactionTypeAddDelegator_def
  TransactionTypeCreateChain_def
  TransactionTypeCreateSubnet_def
  TransactionTypePVMImport_def
  TransactionTypePVMExport_def
  TransactionTypeAdvanceTime_def
  TransactionTypeRewardValidator_def
  TransactionTypeRemoveSubnetValidator_def
  TransactionTypeTransformSubnet_def
  TransactionTypeAddPermissionlessValidator_def
  TransactionTypeAddPermissionlessDelegator_def
  TransactionTypeAddDaoProposal_def
  TransactionTypeAddDaoVote_def

section \<open>Names\<close>

definition TransactionType_String :: "u16 \<Rightarrow> string" where
  "TransactionType_String t =
     (if t = TransactionTypeBase then ''base''
      else if t = TransactionTypeCreateAsset then ''create_asset''
      else if t = TransactionTypeOperation then ''operation''
      else if t = TransactionTypeAVMImport then ''import''
      else if t = TransactionTypeAVMExport then ''export''
      else if t = TransactionTypeAddValidator then ''add_validator''
      else if t = TransactionTypeAddSubnetValidator then ''add_subnet_validator''
      else if t = TransactionTypeAddDelegator then ''add_delegator''
      else if t = TransactionTypeCreateChain then ''create_chain''
      else if t = TransactionTypeCreateSubnet then ''create_subnet''
      else if t = TransactionTypePVMImport then ''pvm_import''
      else if t = TransactionTypePVMExport then ''pvm_export''
      else if t = TransactionTypeAdvanceTime then ''advance_time''
      else if t = TransactionTypeRewardValidator then ''reward_validator''
      else if t = TransactionTypeRemoveSubnetValidator then ''remove_subnet_validator''
      else if t = TransactionTypeTransformSubnet then ''transform_subnet''
      else if t = TransactionTypeAddPermissionlessValidator then ''add_permissionless_validator''
      else if t = TransactionTypeAddPermissionlessDelegator then ''add_permissionless_delegator''
      else if t = TransactionTypeAddDaoProposal then ''add_dao_proposal''
      else if t = TransactionTypeAddDaoVote then ''add_dao_vote''
      else TypeUnknown)"

definition OutputType_String :: "u32 \<Rightarrow> string" where
  "OutputType_String t =
     (if t = OutputTypesSECP2556K1Transfer then ''secp256k1_transfer''
      else if t = OutputTypesSECP2556K1Mint then ''secp256k1_mint''
      else if t = OutputTypesNFTTransfer then ''nft_transfer''
      else if t = OutputTypesNFTMint then ''nft_mint''
      else if t = OutputTypesAtomicExportTx then ''atomic_export''
      else if t = OutputTypesAtomicImportTx then ''atomic_import''
      else TypeUnknown)"

section \<open>Block proposals\<close>

text \<open>A parsed proposervm block: signed blocks name their proposer and carry a time.  The block
  type belongs to the node's library; this is what the sources look at.\<close>

datatype proposer_block = SignedBlock string gotime bytes | UnsignedBlock bytes

primrec proposer_block_Block :: "proposer_block \<Rightarrow> bytes" where
  "proposer_block_Block (SignedBlock p t b) = b"
| "proposer_block_Block (UnsignedBlock b) = b"

record BlockProposal =
  bp_Proposer :: string
  bp_TimeStamp :: "gotime option"

definition NewBlockProposal :: "proposer_block option \<Rightarrow> gotime option \<Rightarrow> BlockProposal" where
  "NewBlockProposal b t =
     (case b of
        Some (SignedBlock p t' _) \<Rightarrow> \<lparr>bp_Proposer = p, bp_TimeStamp = Some t'\<rparr>
      | _ \<Rightarrow> \<lparr>bp_Proposer = [], bp_TimeStamp = t\<rparr>)"

section \<open>Token amounts\<close>

text \<open>\<^verbatim>\<open>strconv.Itoa(int(i))\<close>: the conversion to \<^verbatim>\<open>int\<close> reinterprets the 64 bits as
  a signed number.\<close>

definition TokenAmountForUint64 :: "u64 \<Rightarrow> string" where
  "TokenAmountForUint64 i = dec_int (sint i)"

section \<open>Properties\<close>

definition known_transaction_types :: "u16 list" where
  "known_transaction_types =
     [TransactionTypeBase, TransactionTypeCreateAsset, TransactionTypeOperation,
      TransactionTypeAVMImport, TransactionTypeAVMExport, TransactionTypeAddValidator,
      TransactionTypeAddSubnetValidator, TransactionTypeAddDelegator, TransactionTypeCreateChain,
      TransactionTypeCreateSubnet, TransactionTypePVMImport, TransactionTypePVMExport,
      TransactionTypeAdvanceTime, TransactionTypeRewardValidator,
      TransactionTypeRemoveSubnetValidator, TransactionTypeTransformSubnet,
      TransactionTypeAddPermissionlessValidator, TransactionTypeAddPermissionlessDelegator,
      TransactionTypeAddDaoProposal, TransactionTypeAddDaoVote]"

lemma known_names_distinct:
  "distinct (map TransactionType_String known_transaction_types)"
  by (simp add: known_transaction_types_def TransactionType_String_def type_consts)

lemma known_not_unknown:
  "TypeUnknown \<notin> set (map TransactionType_String known_transaction_types)"
  by (simp add: known_transaction_types_def TransactionType_String_def type_consts TypeUnknown_def)

lemma unknown_name: "t \<notin> set known_transaction_types \<Longrightarrow> TransactionType_String t = TypeUnknown"
  by (simp add: known_transaction_types_def TransactionType_String_def)

text \<open>the type column of a stored transaction determines its type: two different known
  transaction types never print the same name, and exactly the unknown ones print as
  unknown.\<close>

theorem transaction_type_names:
  "(TransactionType_String s = TransactionType_String t \<and> s \<in> set known_transaction_types \<longrightarrow> s = t)
   \<and> (TransactionType_String t = TypeUnknown \<longleftrightarrow> t \<notin> set known_transaction_types)"
proof (intro conjI impI)
  show "TransactionType_String t = TypeUnknown \<longleftrightarrow> t \<notin> set known_transaction_types"
    using known_not_unknown unknown_name by (metis image_eqI list.set_map)
  assume *: "TransactionType_String s = TransactionType_String t \<and> s \<in> set known_transaction_types"
  then have "t \<in> set known_transaction_types"
    using known_not_unknown unknown_name [of t] by (metis image_eqI list.set_map)
  with * show "s = t" using known_names_distinct by (auto simp: distinct_map inj_on_def)
qed

theorem transaction_type_names_witness:
  "TransactionTypeOperation \<in> set known_transaction_types \<and> TransactionTypeOperation = 2 \<and>
   TransactionType_String 77 = TypeUnknown"
proof -
  have "TransactionTypeOperation \<in> set known_transaction_types" by (simp add: known_transaction_types_def)
  moreover have "77 \<notin> set known_transaction_types" by code_simp
  moreover have "TransactionType_String TransactionTypeOperation = TransactionType_String 2" by code_simp
  ultimately show ?thesis
    using transaction_type_names [of TransactionTypeOperation 2]
      transaction_type_names [of TransactionTypeOperation 77] by blast
qed

lemma sint_u64: "sint (i :: u64) = (if uint i < 2 ^ 63 then uint i else uint i - 2 ^ 64)"
proof -
  have eq: "sint i = (uint i + 2 ^ 63) mod 2 ^ 64 - 2 ^ 63"
    by (simp add: sint_uint signed_take_bit_eq_take_bit_shift take_bit_eq_mod)
  have lt: "uint i < 2 ^ 64" and ge: "0 \<le> uint i"
    using uint_lt2p [of i] by simp_all
  show ?thesis
  proof (cases "uint i < 2 ^ 63")
    case True
    then have "(uint i + 2 ^ 63) mod 2 ^ 64 = uint i + 2 ^ 63"
      using ge by (intro mod_pos_pos_trivial) simp_all
    with eq True show ?thesis by simp
  next
    case False
    have "uint i + 2 ^ 63 = (uint i - 2 ^ 63) + 2 ^ 64" by simp
    then have "(uint i + 2 ^ 63) mod 2 ^ 64 = (uint i - 2 ^ 63) mod 2 ^ 64"
      by (metis mod_add_self2)
    also have "\<dots> = uint i - 2 ^ 63"
      using False lt by (intro mod_pos_pos_trivial) simp_all
    finally show ?thesis using eq False by simp
  qed
qed

lemma unat_less_63: "unat (i :: u64) < 2 ^ 63 \<longleftrightarrow> uint i < 2 ^ 63"
proof -
  have "unat i < 2 ^ 63 \<longleftrightarrow> int (unat i) < int (2 ^ 63)" by (simp only: of_nat_less_iff)
  then show ?thesis by simp
qed

text \<open>\<open>TokenAmountForUint64\<close> prints the amount in decimal exactly when it is below
  2 to the 63; every larger amount comes out as a negative number.\<close>

theorem token_amount_decimal:
  "TokenAmountForUint64 i = dec_nat (unat i) \<longleftrightarrow> unat i < 2 ^ 63"
proof (cases "unat i < 2 ^ 63")
  case True
  then have "uint i < 2 ^ 63" by (simp only: unat_less_63)
  then have "sint i = uint i" by (simp add: sint_u64)
  then have "TokenAmountForUint64 i = dec_nat (unat i)"
    by (simp add: TokenAmountForUint64_def dec_int_def)
  with True show ?thesis by simp
next
  case False
  have "uint i < 2 ^ 64" using uint_lt2p [of i] by simp
  moreover have "\<not> uint i < 2 ^ 63" using False unat_less_63 by blast
  ultimately have "sint i < 0" by (simp add: sint_u64)
  then have "CHR ''-'' \<in> set (TokenAmountForUint64 i)"
    by (simp add: TokenAmountForUint64_def dec_int_def)
  moreover have "CHR ''-'' \<notin> set (dec_nat (unat i))"
    using dec_nat_digit [of "CHR ''-''" "unat i"] by auto
  ultimately show ?thesis using False by metis
qed


end
