(* ===== verification/Djtx_Writer.thy ===== *)
theory Djtx_Writer
  imports Db_Replay Models_Types
begin

text \<open>
  \<^verbatim>\<open>src/services/indexes/djtx/writer.go\<close>: the writer that the X-, P- and C-chain indexers
  share.  It turns a transaction's inputs and outputs into rows of the ledger and computes
  the fee.  The consumer context is that of \<^verbatim>\<open>src/services/services.go\<close>.

  \<open>L\<close> is the node's library, \<open>G\<close> the two package variables that the writer reads
  (\<^verbatim>\<open>cfg.PerformUpdates\<close> and \<^verbatim>\<open>models.Bech32HRP\<close>).  The transaction types of the
  node are modelled by what the writer looks at: an output is one of the five types of the
  \<^verbatim>\<open>switch\<close> in \<^verbatim>\<open>ProcessStateOut\<close> or something else; a credential is a secp256k1
  credential with its signatures or something else.

  Shown here: the operations keep \<open>db_ok\<close> and, without updates, only grow the ledger;
  when \<open>InsertTransaction\<close> reports success, every input, every output and the transaction
  itself are recorded; the totals it adds up are exact; and the fee it stores.
\<close>

section \<open>Context and data\<close>

record globals =
  PerformUpdates :: bool
  Bech32HRP :: string

record ConsumerCtx =
  ctx_Time :: gotime
  ctx_ChainID :: string

definition NewConsumerContext :: "int \<Rightarrow> int \<Rightarrow> string \<Rightarrow> ConsumerCtx" where
  "NewConsumerContext ts nanosecond chainID =
     \<lparr>ctx_Time = ts * 1000000000 + nanosecond, ctx_ChainID = chainID\<rparr>"

record Consumable =
  cs_ID :: string
  cs_ChainID :: string
  cs_Body :: bytes
  cs_Timestamp :: int
  cs_Nanosecond :: int

record OutputOwners =
  oo_Locktime :: u64
  oo_Threshold :: u32
  oo_Addrs :: "bytes list"

record TransferOutput =
  to_Amt :: u64
  to_Owners :: OutputOwners

datatype verify_State =
    StakeableLockOut u64 verify_State
  | NftTransferOutput u32 bytes OutputOwners
  | NftMintOutput u32 OutputOwners
  | SecpMintOutput OutputOwners
  | SecpTransferOutput TransferOutput
  | UnknownState string

datatype Verifiable = SecpCredential "bytes list" | UnknownCredential

record TransferableInput =
  ti_TxID :: bytes
  ti_OutputIndex :: u32
  ti_AssetID :: bytes
  ti_Amount :: u64

record TransferableOutput =
  tout_AssetID :: bytes
  tout_Out :: verify_State

record BaseTx =
  bt_NetworkID :: u32
  bt_Ins :: "TransferableInput list"
  bt_Outs :: "TransferableOutput list"
  bt_Memo :: "bytes option"

record djtxWriter =
  dw_chainID :: string
  dw_djtxAssetID :: bytes

record AddInsContainer =
  ai_Ins :: "TransferableInput list"
  ai_ChainID :: string

record AddOutsContainer =
  ao_Outs :: "TransferableOutput list"
  ao_Stake :: bool
  ao_ChainID :: string

definition MaxSerializationLen :: nat where
  "MaxSerializationLen = 16 * 1024 * 1024 - 1"

definition MaxMemoLen :: nat where
  "MaxMemoLen = 1024"

text \<open>\<^verbatim>\<open>copy(addrBytes[:], addr)\<close> into a 20-byte array.\<close>

definition short_id :: "bytes \<Rightarrow> bytes" where
  "short_id addr = take 20 (addr @ replicate 20 (char_of (0::nat)))"

text \<open>\<^verbatim>\<open>stacktrace.Propagate\<close> around the result of a call.\<close>

definition propagate :: "nodelib \<Rightarrow> string \<Rightarrow> ('d, 'a) go \<Rightarrow> ('d, 'a) go" where
  "propagate L msg m w = (case m w of (Inl e, w1) \<Rightarrow> (Inl (Propagate L e msg), w1) | r \<Rightarrow> r)"

context world_rel
begin

lemma steps_propagate [steps_intros]: "steps R m \<Longrightarrow> steps R (propagate L msg m)"
  unfolding steps_def propagate_def
  by (auto split: prod.splits sum.splits) (metis snd_conv)+

end

section \<open>Operations\<close>

definition InsertTransactionBase ::
  "globals \<Rightarrow> nodelib \<Rightarrow> ConsumerCtx \<Rightarrow> bytes \<Rightarrow> string \<Rightarrow> string \<Rightarrow> bytes option \<Rightarrow> bytes
     \<Rightarrow> u64 \<Rightarrow> bool \<Rightarrow> u32 \<Rightarrow> (database, unit) go" where
  "InsertTransactionBase G L ctx txID chainID txType memo txBytes txfee genesis networkID =
     (let txBytes = (if length txBytes > MaxSerializationLen then [] else txBytes);
          memo = (case memo of None \<Rightarrow> None
                  | Some b \<Rightarrow> if length b > MaxMemoLen then None else Some b);
          t = \<lparr>tx_ID = ID_String L txID, tx_ChainID = chainID, tx_Type = txType, tx_Memo = memo,
               tx_CanonicalSerialization = txBytes, tx_Txfee = txfee, tx_NetworkID = networkID,
               tx_Genesis = genesis, tx_Status = 0, tx_CreatedAt = ctx_Time ctx\<rparr>
      in InsertTransactions t (PerformUpdates G))"

definition InsertAddressFromPublicKey ::
  "globals \<Rightarrow> nodelib \<Rightarrow> ConsumerCtx \<Rightarrow> bytes \<Rightarrow> (database, unit) go" where
  "InsertAddressFromPublicKey G L ctx publicKey =
     bind time_now (\<lambda>now.
       InsertAddresses
         \<lparr>adr_Address = ShortID_String L (PublicKey_Address L publicKey),
          adr_PublicKey = PublicKey_Bytes L publicKey,
          adr_CreatedAt = ctx_Time ctx, adr_UpdatedAt = now\<rparr> (PerformUpdates G))"

definition InsertOutputAddress ::
  "globals \<Rightarrow> nodelib \<Rightarrow> ConsumerCtx \<Rightarrow> bytes \<Rightarrow> bytes \<Rightarrow> bytes option \<Rightarrow> bytes \<Rightarrow> u32 \<Rightarrow> string
     \<Rightarrow> (database, unit) go" where
  "InsertOutputAddress G L ctx outputID addressID sig txID idx chainID =
     bind time_now (\<lambda>now1.
     andThen (InsertAddressChain
         \<lparr>adc_Address = ShortID_String L addressID, adc_ChainID = chainID,
          adc_CreatedAt = ctx_Time ctx, adc_UpdatedAt = now1\<rparr> (PerformUpdates G))
     (bind (lift_err (FormatBech32 L (Bech32HRP G) addressID)) (\<lambda>bech32Addr.
     bind time_now (\<lambda>now2.
     andThen (InsertAddressBech32
         \<lparr>ab_Address = ShortID_String L addressID, ab_Bech32Address = bech32Addr,
          ab_UpdatedAt = now2\<rparr> (PerformUpdates G))
     (bind time_now (\<lambda>now3.
       let outputAddressAccumulate = OutputAddressAccumulate_ComputeID L
             \<lparr>oaa_ID = [], oaa_OutputID = ID_String L outputID,
              oaa_Address = ShortID_String L addressID, oaa_Processed = 0, oaa_OutputProcessed = 0,
              oaa_TransactionID = ID_String L txID, oaa_OutputIndex = idx, oaa_CreatedAt = now3\<rparr>
       in
     andThen (InsertOutputAddressAccumulateOut outputAddressAccumulate (PerformUpdates G))
     (andThen (InsertOutputAddressAccumulateIn outputAddressAccumulate (PerformUpdates G))
     (bind time_now (\<lambda>now4.
       let outputAddresses =
             \<lparr>oad_OutputID = ID_String L outputID, oad_Address = ShortID_String L addressID,
              oad_RedeemingSignature = sig, oad_CreatedAt = ctx_Time ctx, oad_UpdatedAt = now4\<rparr>
       in
     andThen (InsertOutputAddresses outputAddresses (PerformUpdates G))
       (case sig of None \<Rightarrow> ret () | Some _ \<Rightarrow> UpdateOutputAddresses outputAddresses))))))))))"

definition InsertTransactionIns ::
  "globals \<Rightarrow> nodelib \<Rightarrow> djtxWriter \<Rightarrow> nat \<Rightarrow> ConsumerCtx \<Rightarrow> u64 \<Rightarrow> TransferableInput \<Rightarrow> bytes
     \<Rightarrow> Verifiable list \<Rightarrow> bytes \<Rightarrow> string \<Rightarrow> (database, u64) go" where
  "InsertTransactionIns G L w idx ctx totalin inp txID creds unsignedBytes chainID =
     bind (if ti_AssetID inp = dw_djtxAssetID w then lift_err (Add64 L totalin (ti_Amount inp))
           else ret totalin) (\<lambda>totalin.
       let inputID = ID_Prefix L (ti_TxID inp) (ucast (ti_OutputIndex inp)) in
     andThen
       (if idx < length creds then
          (case creds ! idx of
             SecpCredential sigs \<Rightarrow>
               each (\<lambda>sig.
                 bind (lift_err (RecoverPublicKey L unsignedBytes sig)) (\<lambda>publicKey.
                 andThen (InsertAddressFromPublicKey G L ctx publicKey)
                   (InsertOutputAddress G L ctx inputID (PublicKey_Address L publicKey) (Some sig)
                      (ti_TxID inp) (ti_OutputIndex inp) chainID))) sigs
           | UnknownCredential \<Rightarrow> ret ())
        else ret ())
     (andThen (UpdateOutputAddressAccumulateInOutputsProcessed (ID_String L inputID))
     (andThen (InsertOutputsRedeeming
         \<lparr>red_ID = ID_String L inputID, red_RedeemedAt = ctx_Time ctx,
          red_RedeemingTransactionID = ID_String L txID, red_Amount = ti_Amount inp,
          red_OutputIndex = ti_OutputIndex inp, red_Intx = ID_String L (ti_TxID inp),
          red_AssetID = ID_String L (ti_AssetID inp), red_ChainID = chainID,
          red_CreatedAt = ctx_Time ctx\<rparr> (PerformUpdates G))
       (ret totalin))))"

definition InsertOutput ::
  "globals \<Rightarrow> nodelib \<Rightarrow> ConsumerCtx \<Rightarrow> bytes \<Rightarrow> u32 \<Rightarrow> bytes \<Rightarrow> TransferOutput \<Rightarrow> u32 \<Rightarrow> u32
     \<Rightarrow> bytes option \<Rightarrow> u64 \<Rightarrow> string \<Rightarrow> bool \<Rightarrow> bool \<Rightarrow> bool \<Rightarrow> bool \<Rightarrow> (database, unit) go" where
  "InsertOutput G L ctx txID idx assetID out outputType groupID payload stakeLocktime chainID
       stake frozen stakeableout genesisutxo =
     (let outputID = ID_Prefix L txID (ucast idx) in
      andThen
        (each (\<lambda>addr.
           let addrid = short_id addr in
           andThen (InsertOutputAddress G L ctx outputID addrid None txID idx chainID)
             (bind time_now (\<lambda>now.
                InsertOutputTxsAccumulate (OutputTxsAccumulate_ComputeID L
                  \<lparr>ota_ID = [], ota_ChainID = chainID, ota_AssetID = ID_String L assetID,
                   ota_Address = ShortID_String L addrid, ota_TransactionID = ID_String L txID,
                   ota_Processed = 0, ota_CreatedAt = now\<rparr>))))
           (oo_Addrs (to_Owners out)))
        (InsertOutputs
           \<lparr>out_ID = ID_String L outputID, out_ChainID = chainID,
            out_TransactionID = ID_String L txID, out_OutputIndex = idx, out_OutputType = outputType,
            out_AssetID = ID_String L assetID, out_Amount = to_Amt out,
            out_Locktime = oo_Locktime (to_Owners out), out_Threshold = oo_Threshold (to_Owners out),
            out_GroupID = groupID, out_Payload = payload, out_StakeLocktime = stakeLocktime,
            out_Stake = stake, out_Frozen = frozen, out_Stakeableout = stakeableout,
            out_Genesisutxo = genesisutxo, out_CreatedAt = ctx_Time ctx\<rparr> (PerformUpdates G)))"

definition xOut :: "OutputOwners \<Rightarrow> TransferOutput" where
  "xOut oo = \<lparr>to_Amt = 0, to_Owners = oo\<rparr>"

definition ProcessStateOut ::
  "globals \<Rightarrow> nodelib \<Rightarrow> djtxWriter \<Rightarrow> ConsumerCtx \<Rightarrow> verify_State \<Rightarrow> bytes \<Rightarrow> u32 \<Rightarrow> bytes \<Rightarrow> u64
     \<Rightarrow> u64 \<Rightarrow> string \<Rightarrow> bool \<Rightarrow> bool \<Rightarrow> (database, u64 \<times> u64) go" where
  "ProcessStateOut G L w ctx out txID outputCount assetID amount totalout chainID stake genesisutxo =
     (case out of
        StakeableLockOut locktime inner \<Rightarrow>
          (case inner of
             SecpTransferOutput xo \<Rightarrow>
               bind (if assetID = dw_djtxAssetID w then lift_err (Add64 L totalout (to_Amt xo))
                     else ret totalout) (\<lambda>totalout.
               andThen (InsertOutput G L ctx txID outputCount assetID xo
                          OutputTypesSECP2556K1Transfer 0 None locktime chainID stake False True
                          genesisutxo)
                 (ret (amount, totalout)))
           | _ \<Rightarrow> fail ''invalid type *secp256k1fx.TransferOutput'')
      | NftTransferOutput groupID payload owners \<Rightarrow>
          andThen (InsertOutput G L ctx txID outputCount assetID (xOut owners)
                     OutputTypesNFTTransfer groupID (Some payload) 0 chainID stake False False
                     genesisutxo)
            (ret (amount, totalout))
      | NftMintOutput groupID owners \<Rightarrow>
          andThen (InsertOutput G L ctx txID outputCount assetID (xOut owners)
                     OutputTypesNFTMint groupID None 0 chainID stake False False genesisutxo)
            (ret (amount, totalout))
      | SecpMintOutput owners \<Rightarrow>
          andThen (InsertOutput G L ctx txID outputCount assetID (xOut owners)
                     OutputTypesSECP2556K1Mint 0 None 0 chainID stake False False genesisutxo)
            (ret (amount, totalout))
      | SecpTransferOutput typedOut \<Rightarrow>
          bind (if assetID = dw_djtxAssetID w then lift_err (Add64 L totalout (to_Amt typedOut))
                else ret totalout) (\<lambda>totalout.
          andThen (InsertOutput G L ctx txID outputCount assetID typedOut
                     OutputTypesSECP2556K1Transfer 0 None 0 chainID stake False False genesisutxo)
            (case Add64 L amount (to_Amt typedOut) of
               Inl err \<Rightarrow> fail (Propagate L err
                 (''add '' @ dec_nat (unat (to_Amt typedOut)) @ '' to 0''))
             | Inr amount \<Rightarrow> ret (amount, totalout)))
      | UnknownState name \<Rightarrow> fail (''unknown type '' @ name))"

definition InsertTransactionOuts ::
  "globals \<Rightarrow> nodelib \<Rightarrow> djtxWriter \<Rightarrow> u32 \<Rightarrow> ConsumerCtx \<Rightarrow> u64 \<Rightarrow> TransferableOutput \<Rightarrow> bytes
     \<Rightarrow> string \<Rightarrow> bool \<Rightarrow> bool \<Rightarrow> (database, u64) go" where
  "InsertTransactionOuts G L w idx ctx totalout out txID chainID stake genesisutxo =
     bind (ProcessStateOut G L w ctx (tout_Out out) txID idx (tout_AssetID out) 0 totalout chainID
             stake genesisutxo)
       (\<lambda>(amount, totalout). ret totalout)"

text \<open>The fee: totals in, totals out and the additional outputs, in wrapping 64-bit
  arithmetic.\<close>

definition compute_txfee :: "u64 \<Rightarrow> u64 \<Rightarrow> u64 \<Rightarrow> bool \<Rightarrow> u64" where
  "compute_txfee totalin totalout addlOutTxfee genesis =
     (let txfee = totalin - (totalout + addlOutTxfee) in
      if genesis then 0
      else if totalin < totalout + addlOutTxfee then 0
      else txfee)"

text \<open>The loops over inputs and outputs: the position and the running total are the variables
  that they assign.\<close>

definition ins_loop ::
  "globals \<Rightarrow> nodelib \<Rightarrow> djtxWriter \<Rightarrow> ConsumerCtx \<Rightarrow> bytes \<Rightarrow> Verifiable list \<Rightarrow> bytes \<Rightarrow> string
     \<Rightarrow> TransferableInput list \<Rightarrow> nat \<times> u64 \<Rightarrow> (database, nat \<times> u64) go" where
  "ins_loop G L w ctx txID creds unsignedBytes chainID =
     loop (\<lambda>inp (inidx, totalin).
       bind (InsertTransactionIns G L w inidx ctx totalin inp txID creds unsignedBytes chainID)
         (\<lambda>totalin. ret (inidx + 1, totalin)))"

definition outs_loop ::
  "globals \<Rightarrow> nodelib \<Rightarrow> djtxWriter \<Rightarrow> ConsumerCtx \<Rightarrow> bytes \<Rightarrow> string \<Rightarrow> bool
     \<Rightarrow> TransferableOutput list \<Rightarrow> u32 \<times> u64 \<Rightarrow> (database, u32 \<times> u64) go" where
  "outs_loop G L w ctx txID chainID stake =
     loop (\<lambda>out (idx, totalout).
       bind (InsertTransactionOuts G L w idx ctx totalout out txID chainID stake False)
         (\<lambda>totalout. ret (idx + 1, totalout)))"

definition InsertTransaction ::
  "globals \<Rightarrow> nodelib \<Rightarrow> djtxWriter \<Rightarrow> ConsumerCtx \<Rightarrow> bytes \<Rightarrow> bytes \<Rightarrow> bytes \<Rightarrow> BaseTx
     \<Rightarrow> Verifiable list \<Rightarrow> u16 \<Rightarrow> AddInsContainer option \<Rightarrow> AddOutsContainer option \<Rightarrow> u64 \<Rightarrow> bool
     \<Rightarrow> (database, unit) go" where
  "InsertTransaction G L w ctx txBytes txID unsignedBytes baseTx creds txType addIns addOuts
       addlOutTxfee genesis =
     bind (ins_loop G L w ctx txID creds unsignedBytes (dw_chainID w) (bt_Ins baseTx) (0, 0)) (\<lambda>s.
     bind (case addIns of None \<Rightarrow> ret s
           | Some a \<Rightarrow> ins_loop G L w ctx txID creds unsignedBytes (ai_ChainID a) (ai_Ins a) s)
       (\<lambda>(_, totalin).
     bind (outs_loop G L w ctx txID (dw_chainID w) False (bt_Outs baseTx) (0, 0)) (\<lambda>s.
     bind (case addOuts of None \<Rightarrow> ret s
           | Some a \<Rightarrow> outs_loop G L w ctx txID (ao_ChainID a) (ao_Stake a) (ao_Outs a) s)
       (\<lambda>(_, totalout).
     InsertTransactionBase G L ctx txID (dw_chainID w) (TransactionType_String txType)
       (bt_Memo baseTx) txBytes (compute_txfee totalin totalout addlOutTxfee genesis) genesis
       (bt_NetworkID baseTx)))))"

section \<open>Keys, ledger, environment\<close>

lemma InsertTransactionBase_tame [steps_intros]:
  "steps (tame (PerformUpdates G))
     (InsertTransactionBase G L ctx txID chainID txType memo txBytes txfee genesis networkID)"
  unfolding InsertTransactionBase_def Let_def by (intro steps_intros)

lemma InsertAddressFromPublicKey_tame [steps_intros]:
  "steps (tame (PerformUpdates G)) (InsertAddressFromPublicKey G L ctx publicKey)"
  unfolding InsertAddressFromPublicKey_def by (intro steps_intros)

lemma InsertOutputAddress_tame [steps_intros]:
  "steps (tame (PerformUpdates G))
     (InsertOutputAddress G L ctx outputID addressID sig txID idx chainID)"
  unfolding InsertOutputAddress_def Let_def by (intro steps_intros)

lemma InsertTransactionIns_tame [steps_intros]:
  "steps (tame (PerformUpdates G))
     (InsertTransactionIns G L w idx ctx totalin inp txID creds unsignedBytes chainID)"
  unfolding InsertTransactionIns_def Let_def
  by (auto intro!: steps_intros split: Verifiable.split)

lemma InsertOutput_tame [steps_intros]:
  "steps (tame (PerformUpdates G))
     (InsertOutput G L ctx txID idx assetID out outputType groupID payload stakeLocktime chainID
        stake frozen stakeableout genesisutxo)"
  unfolding InsertOutput_def Let_def by (intro steps_intros)

lemma ProcessStateOut_tame [steps_intros]:
  "steps (tame (PerformUpdates G))
     (ProcessStateOut G L w ctx out txID outputCount assetID amount totalout chainID stake genesisutxo)"
  unfolding ProcessStateOut_def
  by (auto intro!: steps_intros split: verify_State.split)

lemma InsertTransactionOuts_tame [steps_intros]:
  "steps (tame (PerformUpdates G))
     (InsertTransactionOuts G L w idx ctx totalout out txID chainID stake genesisutxo)"
  unfolding InsertTransactionOuts_def by (intro steps_intros)

lemma ins_loop_tame [steps_intros]:
  "steps (tame (PerformUpdates G)) (ins_loop G L w ctx txID creds unsignedBytes chainID inps s)"
  unfolding ins_loop_def by (intro steps_intros)

lemma outs_loop_tame [steps_intros]:
  "steps (tame (PerformUpdates G)) (outs_loop G L w ctx txID chainID stake outs s)"
  unfolding outs_loop_def by (intro steps_intros)

lemma InsertTransaction_tame [steps_intros]:
  "steps (tame (PerformUpdates G))
     (InsertTransaction G L w ctx txBytes txID unsignedBytes baseTx creds txType addIns addOuts
        addlOutTxfee genesis)"
  unfolding InsertTransaction_def by (intro steps_intros)

section \<open>What is recorded\<close>

definition recorded_tx :: "nodelib \<Rightarrow> bytes \<Rightarrow> database \<Rightarrow> bool" where
  "recorded_tx L txID d \<longleftrightarrow> list_ex (\<lambda>r. ID_String L txID = tx_ID r) (avm_transactions d)"

definition recorded_in :: "nodelib \<Rightarrow> TransferableInput \<Rightarrow> database \<Rightarrow> bool" where
  "recorded_in L inp d \<longleftrightarrow>
     list_ex (\<lambda>r. ID_String L (ID_Prefix L (ti_TxID inp) (ucast (ti_OutputIndex inp))) = red_ID r)
       (avm_outputs_redeeming d)"

definition recorded_out :: "nodelib \<Rightarrow> bytes \<Rightarrow> u32 \<Rightarrow> database \<Rightarrow> bool" where
  "recorded_out L txID i d \<longleftrightarrow>
     list_ex (\<lambda>r. ID_String L (ID_Prefix L txID (ucast i)) = out_ID r \<or>
                  ID_String L txID = out_TransactionID r \<and> i = out_OutputIndex r)
       (avm_outputs d)"

lemma recorded_mono:
  "recorded_tx L txID d \<Longrightarrow> grows d d' \<Longrightarrow> recorded_tx L txID d'"
  "recorded_in L inp d \<Longrightarrow> grows d d' \<Longrightarrow> recorded_in L inp d'"
  "recorded_out L txID i d \<Longrightarrow> grows d d' \<Longrightarrow> recorded_out L txID i d'"
  by (auto simp: recorded_tx_def recorded_in_def recorded_out_def grows_def prefix_def)

text \<open>An insert that reports success leaves its key present.\<close>

lemma InsertTransactions_valid:
  "valid honest (InsertTransactions v False)
     (\<lambda>_ w. list_ex (Transactions_clash v) (avm_transactions (store w)))"
  using avm_transactions_tbl.insert_valid [of TableTransactions v]
  by (cases v) (simp add: InsertTransactions_def upsert_def)

lemma InsertOutputsRedeeming_valid:
  "valid honest (InsertOutputsRedeeming v False)
     (\<lambda>_ w. list_ex (OutputsRedeeming_clash v) (avm_outputs_redeeming (store w)))"
  using avm_outputs_redeeming_tbl.insert_valid [of TableOutputsRedeeming v]
  by (cases v) (simp add: InsertOutputsRedeeming_def upsert_def)

lemma InsertOutputs_valid:
  "valid honest (InsertOutputs v False)
     (\<lambda>_ w. list_ex (Outputs_clash v) (avm_outputs (store w)))"
  using avm_outputs_tbl.insert_valid [of TableOutputs v]
  by (cases v) (simp add: InsertOutputs_def upsert_def)

lemma valid_honest: "steps (tame u) m \<Longrightarrow> valid honest m (\<lambda>_. honest)"
  by (erule valid_steps) (auto intro: tame_honest)

lemma valid_honestI:
  "steps (tame u) m \<Longrightarrow> valid honest m Q \<Longrightarrow> valid honest m (\<lambda>x w. honest w \<and> Q x w)"
  using valid_conj [OF valid_honest] by fastforce

lemma InsertTransactionBase_recorded:
  assumes "\<not> PerformUpdates G"
  shows "valid honest
     (InsertTransactionBase G L ctx txID chainID txType memo txBytes txfee genesis networkID)
     (\<lambda>_ w. recorded_tx L txID (store w))"
  using assms unfolding InsertTransactionBase_def Let_def
  by (auto intro!: valid_conseq [OF InsertTransactions_valid]
      simp: recorded_tx_def Transactions_clash_def list_ex_iff)

text \<open>Steps before the one that matters only have to leave the driver honest.\<close>

lemma valid_skip_bind:
  "steps (tame u) m \<Longrightarrow> (\<And>x. valid honest (f x) Q) \<Longrightarrow> valid honest (bind m f) Q"
  by (rule valid_bind [OF valid_honest])

lemma valid_skip:
  "steps (tame u) m \<Longrightarrow> valid honest k Q \<Longrightarrow> valid honest (andThen m k) Q"
  by (rule valid_andThen [OF valid_honest])

lemma valid_last: "valid honest m (\<lambda>_. A) \<Longrightarrow> valid honest (andThen m (ret x)) (\<lambda>_. A)"
  by (rule valid_andThen) (auto intro: valid_ret)

lemma valid_pure: "(F \<Longrightarrow> valid P m Q) \<Longrightarrow> valid (\<lambda>w. P w \<and> F) m Q"
  unfolding valid_def by blast

text \<open>One step records \<open>A\<close>, which the rest keeps while it records \<open>B\<close>.\<close>

lemma valid_then_keep:
  assumes "valid honest m (\<lambda>_ w. A (store w))" and "steps (tame u) m"
    and "valid honest k (\<lambda>_ w. B (store w))" and "steps (tame u) k"
    and "\<And>d d'. A d \<Longrightarrow> grows d d' \<Longrightarrow> A d'" and "\<not> u"
  shows "valid honest (andThen m k) (\<lambda>_ w. A (store w) \<and> B (store w))"
  by (rule valid_andThen [OF valid_honestI [OF assms(2,1)]],
      rule valid_conseq [OF valid_conj [OF valid_tame [OF assms(4,5,6)] assms(3)]]) auto

lemma list_ex_prefix: "list_ex P xs \<Longrightarrow> prefix xs ys \<Longrightarrow> list_ex P ys"
  by (auto simp: prefix_def)

lemma InsertTransactionIns_recorded:
  assumes "\<not> PerformUpdates G"
  shows "valid honest
     (InsertTransactionIns G L w idx ctx totalin inp txID creds unsignedBytes chainID)
     (\<lambda>_ w. honest w \<and> recorded_in L inp (store w))"
proof (rule valid_honestI [OF InsertTransactionIns_tame])
  have last: "valid honest (InsertOutputsRedeeming v (PerformUpdates G))
      (\<lambda>_ w. recorded_in L inp (store w))"
    if "red_ID v = ID_String L (ID_Prefix L (ti_TxID inp) (ucast (ti_OutputIndex inp)))" for v
    using assms that
    by (auto intro!: valid_conseq [OF InsertOutputsRedeeming_valid]
        simp: recorded_in_def OutputsRedeeming_clash_def list_ex_iff)
  show "valid honest
     (InsertTransactionIns G L w idx ctx totalin inp txID creds unsignedBytes chainID)
     (\<lambda>_ w. recorded_in L inp (store w))"
    unfolding InsertTransactionIns_def Let_def
    apply (rule valid_skip_bind [where u = "PerformUpdates G"], intro steps_intros)
    apply (rule valid_skip [where u = "PerformUpdates G"])
     apply (auto intro!: steps_intros split: Verifiable.split)[1]
    apply (rule valid_skip [where u = "PerformUpdates G"], intro steps_intros)
    apply (rule valid_last, rule last, simp)
    done
qed

lemma InsertOutput_recorded:
  assumes "\<not> PerformUpdates G"
  shows "valid honest
     (InsertOutput G L ctx txID idx assetID out outputType groupID payload stakeLocktime chainID
        stake frozen stakeableout genesisutxo)
     (\<lambda>_ w. honest w \<and> recorded_out L txID idx (store w))"
proof (rule valid_honestI [OF InsertOutput_tame])
  have last: "valid honest (InsertOutputs v (PerformUpdates G))
      (\<lambda>_ w. recorded_out L txID idx (store w))"
    if "out_ID v = ID_String L (ID_Prefix L txID (ucast idx))"
      and "out_TransactionID v = ID_String L txID" and "out_OutputIndex v = idx" for v
    using assms that
    by (auto intro!: valid_conseq [OF InsertOutputs_valid]
        simp: recorded_out_def Outputs_clash_def list_ex_iff)
  show "valid honest
     (InsertOutput G L ctx txID idx assetID out outputType groupID payload stakeLocktime chainID
        stake frozen stakeableout genesisutxo)
     (\<lambda>_ w. recorded_out L txID idx (store w))"
    unfolding InsertOutput_def Let_def
    apply (rule valid_skip [where u = "PerformUpdates G"], intro steps_intros)
    apply (rule last; simp)
    done
qed

lemma ProcessStateOut_recorded:
  assumes "\<not> PerformUpdates G"
  shows "valid honest
     (ProcessStateOut G L w ctx out txID idx assetID amount totalout chainID stake genesisutxo)
     (\<lambda>_ w. honest w \<and> recorded_out L txID idx (store w))"
proof -
  note out = InsertOutput_recorded [OF assms]
  have skip: "valid honest (bind m f) Q"
    if "steps (tame (PerformUpdates G)) m" and "\<And>x. valid honest (f x) Q"
    for m :: "(database, u64) go" and f and Q :: "u64 \<times> u64 \<Rightarrow> database world \<Rightarrow> bool"
    using that by (rule valid_skip_bind)
  have keep: "valid (\<lambda>w. honest w \<and> recorded_out L txID idx (store w)) (lift_err r)
      (\<lambda>_ w. honest w \<and> recorded_out L txID idx (store w))" for r :: "goerr + u64"
    by (auto simp: valid_def lift_err_def ret_def fail_def split: sum.splits)
  show ?thesis
    unfolding ProcessStateOut_def
    by (auto split: verify_State.split
        intro!: valid_fail skip steps_intros valid_andThen [OF out] valid_ret valid_bind [OF keep]
          valid_case_sum)
qed

lemma InsertTransactionOuts_recorded:
  assumes "\<not> PerformUpdates G"
  shows "valid honest
     (InsertTransactionOuts G L w idx ctx totalout out txID chainID stake genesisutxo)
     (\<lambda>_ w. honest w \<and> recorded_out L txID idx (store w))"
  unfolding InsertTransactionOuts_def
  by (rule valid_bind [OF ProcessStateOut_recorded [OF assms]]) (auto intro: valid_ret)

section \<open>The loops\<close>

lemma ins_loop_recorded:
  assumes "\<not> PerformUpdates G"
  shows "valid honest (ins_loop G L w ctx txID creds unsignedBytes chainID inps s)
     (\<lambda>_ w. honest w \<and> (\<forall>inp \<in> set inps. honest w \<and> recorded_in L inp (store w)))"
  unfolding ins_loop_def
proof (rule valid_loop_each)
  fix inp s
  show "valid honest
      ((\<lambda>(inidx, totalin).
         bind (InsertTransactionIns G L w inidx ctx totalin inp txID creds unsignedBytes chainID)
           (\<lambda>totalin. ret (inidx + 1, totalin))) s)
      (\<lambda>_ w. honest w \<and> honest w \<and> recorded_in L inp (store w))"
    by (cases s) (auto intro!: valid_bind [OF InsertTransactionIns_recorded [OF assms]] valid_ret)
next
  fix inp y and s :: "nat \<times> u64"
  have "steps (tame (PerformUpdates G)) ((\<lambda>(inidx, totalin).
         bind (InsertTransactionIns G L w inidx ctx totalin inp txID creds unsignedBytes chainID)
           (\<lambda>totalin. ret (inidx + 1, totalin))) s)"
    by (intro steps_intros)
  then show "valid (\<lambda>w. honest w \<and> recorded_in L y (store w))
      ((\<lambda>(inidx, totalin).
         bind (InsertTransactionIns G L w inidx ctx totalin inp txID creds unsignedBytes chainID)
           (\<lambda>totalin. ret (inidx + 1, totalin))) s)
      (\<lambda>_ w. honest w \<and> recorded_in L y (store w))"
    by (rule valid_tame) (use assms in \<open>auto intro: recorded_mono\<close>)
qed

text \<open>A loop that counts outputs in \<open>ix\<close> records them under consecutive numbers.\<close>

lemma loop_recorded:
  assumes step: "\<And>x s n. ix s = of_nat n \<Longrightarrow> valid honest (f x s)
      (\<lambda>s' w. ix s' = of_nat (Suc n) \<and> honest w \<and> recorded_out L txID (of_nat n) (store w))"
    and tame: "\<And>x s. steps (tame u) (f x s)" and "\<not> u" and "ix s = of_nat n"
  shows "valid honest (loop f xs s)
     (\<lambda>s' w. ix s' = of_nat (n + length xs) \<and> honest w
        \<and> (\<forall>k < length xs. recorded_out L txID (of_nat (n + k)) (store w)))"
  using assms(4)
proof (induction xs arbitrary: n s)
  case Nil
  then show ?case by (auto intro: valid_ret)
next
  case (Cons x xs)
  let ?Q = "\<lambda>s w. ix s = of_nat (Suc n + length xs) \<and> honest w
        \<and> (\<forall>k < length xs. recorded_out L txID (of_nat (Suc n + k)) (store w))"
  let ?A = "\<lambda>w. honest w \<and> recorded_out L txID (of_nat n) (store w)"
  have loop_tame: "steps (tame u) (loop f xs s')" for s' by (intro steps_intros tame)
  have tail: "valid ?A (loop f xs s') (\<lambda>s w. ?Q s w \<and> ?A w)" if "ix s' = of_nat (Suc n)" for s'
    by (rule valid_conseq [OF valid_conj [OF Cons.IH [OF that]
          valid_tame [OF loop_tame, where A = "recorded_out L txID (of_nat n)"]]])
       (use assms(3) in \<open>auto intro: recorded_mono\<close>)
  have rest: "valid (\<lambda>w. ix s' = of_nat (Suc n) \<and> ?A w) (loop f xs s') (\<lambda>s w. ?Q s w \<and> ?A w)" for s'
  proof (cases "ix s' = of_nat (Suc n)")
    case True
    with tail [OF True] show ?thesis by simp
  qed (simp add: valid_def)
  have "valid honest (loop f (x # xs) s) (\<lambda>s w. ?Q s w \<and> ?A w)"
    unfolding loop.simps by (rule valid_bind [OF step [OF Cons.prems] rest])
  then show ?case
    by (rule valid_conseq) (auto simp: less_Suc_eq_0_disj ac_simps)
qed

lemma outs_loop_recorded:
  assumes "\<not> PerformUpdates G"
  shows "valid honest (outs_loop G L w ctx txID chainID stake outs (of_nat n, t))
     (\<lambda>s w. fst s = of_nat (n + length outs) \<and> honest w
        \<and> (\<forall>k < length outs. recorded_out L txID (of_nat (n + k)) (store w)))"
  unfolding outs_loop_def
  by (rule loop_recorded [where ix = fst, OF _ _ assms])
     (auto simp: add.commute intro!: steps_intros valid_ret
        valid_bind [OF InsertTransactionOuts_recorded [OF assms]])

definition all_ins :: "BaseTx \<Rightarrow> AddInsContainer option \<Rightarrow> TransferableInput list" where
  "all_ins baseTx addIns = bt_Ins baseTx @ (case addIns of None \<Rightarrow> [] | Some a \<Rightarrow> ai_Ins a)"

definition all_outs :: "BaseTx \<Rightarrow> AddOutsContainer option \<Rightarrow> TransferableOutput list" where
  "all_outs baseTx addOuts = bt_Outs baseTx @ (case addOuts of None \<Rightarrow> [] | Some a \<Rightarrow> ao_Outs a)"

definition both_ins ::
  "globals \<Rightarrow> nodelib \<Rightarrow> djtxWriter \<Rightarrow> ConsumerCtx \<Rightarrow> bytes \<Rightarrow> Verifiable list \<Rightarrow> bytes \<Rightarrow> BaseTx
     \<Rightarrow> AddInsContainer option \<Rightarrow> (database, nat \<times> u64) go" where
  "both_ins G L w ctx txID creds unsignedBytes baseTx addIns =
     bind (ins_loop G L w ctx txID creds unsignedBytes (dw_chainID w) (bt_Ins baseTx) (0, 0)) (\<lambda>s.
       case addIns of None \<Rightarrow> ret s
       | Some a \<Rightarrow> ins_loop G L w ctx txID creds unsignedBytes (ai_ChainID a) (ai_Ins a) s)"

definition both_outs ::
  "globals \<Rightarrow> nodelib \<Rightarrow> djtxWriter \<Rightarrow> ConsumerCtx \<Rightarrow> bytes \<Rightarrow> BaseTx \<Rightarrow> AddOutsContainer option
     \<Rightarrow> (database, u32 \<times> u64) go" where
  "both_outs G L w ctx txID baseTx addOuts =
     bind (outs_loop G L w ctx txID (dw_chainID w) False (bt_Outs baseTx) (0, 0)) (\<lambda>s.
       case addOuts of None \<Rightarrow> ret s
       | Some a \<Rightarrow> outs_loop G L w ctx txID (ao_ChainID a) (ao_Stake a) (ao_Outs a) s)"

lemma InsertTransaction_phases:
  "InsertTransaction G L w ctx txBytes txID unsignedBytes baseTx creds txType addIns addOuts
       addlOutTxfee genesis =
     bind (both_ins G L w ctx txID creds unsignedBytes baseTx addIns) (\<lambda>i.
     bind (both_outs G L w ctx txID baseTx addOuts) (\<lambda>o'.
     InsertTransactionBase G L ctx txID (dw_chainID w) (TransactionType_String txType)
       (bt_Memo baseTx) txBytes (compute_txfee (snd i) (snd o') addlOutTxfee genesis) genesis
       (bt_NetworkID baseTx)))"
  by (simp add: InsertTransaction_def both_ins_def both_outs_def bind_assoc case_prod_unfold)

lemma both_tame [steps_intros]:
  "steps (tame (PerformUpdates G)) (both_ins G L w ctx txID creds unsignedBytes baseTx addIns)"
  "steps (tame (PerformUpdates G)) (both_outs G L w ctx txID baseTx addOuts)"
  unfolding both_ins_def both_outs_def by (intro steps_intros)+

definition recorded_all ::
  "nodelib \<Rightarrow> bytes \<Rightarrow> TransferableInput list \<Rightarrow> TransferableOutput list \<Rightarrow> database \<Rightarrow> bool" where
  "recorded_all L txID inps outs d \<longleftrightarrow>
     (\<forall>inp \<in> set inps. recorded_in L inp d) \<and>
     (\<forall>k < length outs. recorded_out L txID (of_nat k) d)"

lemma recorded_all_mono: "recorded_all L txID inps outs d \<Longrightarrow> grows d d' \<Longrightarrow> recorded_all L txID inps outs d'"
  unfolding recorded_all_def by (blast intro: recorded_mono)

lemma recorded_all_append:
  "recorded_all L txID (xs @ ys) [] d \<longleftrightarrow> recorded_all L txID xs [] d \<and> recorded_all L txID ys [] d"
  by (auto simp: recorded_all_def)

lemma both_ins_recorded:
  assumes "\<not> PerformUpdates G"
  shows "valid honest (both_ins G L w ctx txID creds unsignedBytes baseTx addIns)
     (\<lambda>_ w. honest w \<and> recorded_all L txID (all_ins baseTx addIns) [] (store w))"
proof (cases addIns)
  case None
  then show ?thesis
    by (auto simp: both_ins_def all_ins_def recorded_all_def
        intro!: valid_bind [OF ins_loop_recorded [OF assms]] valid_ret)
next
  case (Some a)
  let ?A = "\<lambda>w. honest w \<and> recorded_all L txID (bt_Ins baseTx) [] (store w)"
  have snd: "valid ?A (ins_loop G L w ctx txID creds unsignedBytes (ai_ChainID a) (ai_Ins a) s)
      (\<lambda>_ w. (honest w \<and> (\<forall>inp \<in> set (ai_Ins a). honest w \<and> recorded_in L inp (store w))) \<and> ?A w)"
    for s
    by (rule valid_conseq [OF valid_conj [OF ins_loop_recorded [OF assms]
          valid_tame [OF ins_loop_tame, where A = "recorded_all L txID (bt_Ins baseTx) []"]]])
       (use assms in \<open>auto intro: recorded_all_mono\<close>)
  have fst: "valid honest
      (ins_loop G L w ctx txID creds unsignedBytes (dw_chainID w) (bt_Ins baseTx) (0, 0)) (\<lambda>_. ?A)"
    by (rule valid_conseq [OF ins_loop_recorded [OF assms]]) (auto simp: recorded_all_def)
  show ?thesis
    unfolding both_ins_def Some option.simps
    by (rule valid_conseq [OF valid_bind [OF fst snd]])
       (auto simp: all_ins_def recorded_all_append recorded_all_def)
qed

lemma below_append:
  assumes "\<forall>k < m. P k" and "\<forall>k < n. P (m + k)" and "k < m + n"
  shows "P (k::nat)"
  using assms by (cases "k < m") (auto simp: not_less dest!: le_Suc_ex)

lemma both_outs_recorded:
  assumes "\<not> PerformUpdates G"
  shows "valid honest (both_outs G L w ctx txID baseTx addOuts)
     (\<lambda>_ w. honest w \<and> recorded_all L txID [] (all_outs baseTx addOuts) (store w))"
proof -
  let ?n = "length (bt_Outs baseTx)"
  let ?A = "\<lambda>w. honest w \<and> recorded_all L txID [] (bt_Outs baseTx) (store w)"
  have fst: "valid honest (outs_loop G L w ctx txID (dw_chainID w) False (bt_Outs baseTx) (0, 0))
      (\<lambda>s w. fst s = of_nat ?n \<and> ?A w)"
    using outs_loop_recorded [OF assms, of L w ctx txID "dw_chainID w" False "bt_Outs baseTx" 0 0]
    by (simp add: recorded_all_def)
  have snd: "valid (\<lambda>w. fst s = of_nat ?n \<and> ?A w)
      (case addOuts of None \<Rightarrow> ret s
       | Some a \<Rightarrow> outs_loop G L w ctx txID (ao_ChainID a) (ao_Stake a) (ao_Outs a) s)
      (\<lambda>_ w. honest w \<and> recorded_all L txID [] (all_outs baseTx addOuts) (store w))" for s
  proof (cases "fst s = of_nat ?n")
    case True
    then obtain t where s: "s = (of_nat ?n, t)" by (cases s) auto
    show ?thesis
    proof (cases addOuts)
      case None
      then show ?thesis by (auto simp: all_outs_def intro: valid_ret)
    next
      case (Some a)
      have split: "recorded_all L txID [] (bt_Outs baseTx @ ao_Outs a) d"
        if "recorded_all L txID [] (bt_Outs baseTx) d"
          and "\<forall>k < length (ao_Outs a). recorded_out L txID (of_nat (?n + k)) d" for d
        using that unfolding recorded_all_def
        by (auto simp del: of_nat_add intro: below_append [where P = "\<lambda>k. recorded_out L txID (of_nat k) d"])
      show ?thesis
        unfolding Some s option.simps
        by (rule valid_conseq [OF valid_conj [OF outs_loop_recorded [OF assms, where n = ?n]
              valid_tame [OF outs_loop_tame, where A = "recorded_all L txID [] (bt_Outs baseTx)"]]])
           (use assms in \<open>auto simp: all_outs_def intro: recorded_all_mono split\<close>)
    qed
  qed (simp add: valid_def)
  show ?thesis unfolding both_outs_def by (rule valid_bind [OF fst snd])
qed

lemma recorded_all_both:
  "recorded_all L txID inps [] d \<Longrightarrow> recorded_all L txID [] outs d \<Longrightarrow> recorded_all L txID inps outs d"
  by (simp add: recorded_all_def)

lemma InsertTransaction_recorded:
  assumes "\<not> PerformUpdates G"
  shows "valid honest
     (InsertTransaction G L w ctx txBytes txID unsignedBytes baseTx creds txType addIns addOuts
        addlOutTxfee genesis)
     (\<lambda>_ w. recorded_tx L txID (store w)
        \<and> recorded_all L txID (all_ins baseTx addIns) (all_outs baseTx addOuts) (store w))"
proof -
  let ?I = "recorded_all L txID (all_ins baseTx addIns) []"
  let ?O = "recorded_all L txID [] (all_outs baseTx addOuts)"
  have outs: "valid (\<lambda>w. honest w \<and> ?I (store w)) (both_outs G L w ctx txID baseTx addOuts)
      (\<lambda>_ w. honest w \<and> ?I (store w) \<and> ?O (store w))"
    by (rule valid_conseq [OF valid_conj [OF both_outs_recorded [OF assms]
          valid_tame [OF both_tame(2), where A = ?I]]])
       (use assms in \<open>auto intro: recorded_all_mono\<close>)
  let ?IO = "recorded_all L txID (all_ins baseTx addIns) (all_outs baseTx addOuts)"
  have base: "valid (\<lambda>w. honest w \<and> ?I (store w) \<and> ?O (store w))
      (InsertTransactionBase G L ctx txID c ty memo txBytes fee genesis nid)
      (\<lambda>_ w. recorded_tx L txID (store w) \<and> ?IO (store w))" for c ty memo fee nid
    by (rule valid_conseq [OF valid_conj [OF InsertTransactionBase_recorded [OF assms]
          valid_tame [OF InsertTransactionBase_tame, where A = ?IO]]])
       (use assms in \<open>auto intro: recorded_all_mono dest: recorded_all_both\<close>)
  show ?thesis
    unfolding InsertTransaction_phases
    by (rule valid_bind [OF both_ins_recorded [OF assms] valid_bind [OF outs base]])
qed

section \<open>Totals and the fee\<close>

lemma yields_mono: "yields m Q \<Longrightarrow> (\<And>x. Q x \<Longrightarrow> Q' x) \<Longrightarrow> yields m Q'"
  unfolding yields_def by blast


definition Add64_exact :: "nodelib \<Rightarrow> bool" where
  "Add64_exact L \<longleftrightarrow> (\<forall>a b c. Add64 L a b = Inr c \<longrightarrow> unat c = unat a + unat b)"

definition amount_in :: "djtxWriter \<Rightarrow> TransferableInput \<Rightarrow> nat" where
  "amount_in w inp = (if ti_AssetID inp = dw_djtxAssetID w then unat (ti_Amount inp) else 0)"

definition amount_out :: "djtxWriter \<Rightarrow> TransferableOutput \<Rightarrow> nat" where
  "amount_out w out =
     (if tout_AssetID out = dw_djtxAssetID w then
        (case tout_Out out of
           StakeableLockOut _ (SecpTransferOutput xo) \<Rightarrow> unat (to_Amt xo)
         | SecpTransferOutput xo \<Rightarrow> unat (to_Amt xo)
         | _ \<Rightarrow> 0)
      else 0)"

lemma Add64_exactD: "Add64_exact L \<Longrightarrow> Add64 L a b = Inr c \<Longrightarrow> unat c = unat a + unat b"
  by (auto simp: Add64_exact_def)

lemma InsertTransactionIns_yields:
  assumes "Add64_exact L"
  shows "yields (InsertTransactionIns G L w idx ctx totalin inp txID creds unsignedBytes chainID)
     (\<lambda>t. unat t = unat totalin + amount_in w inp)"
  unfolding InsertTransactionIns_def Let_def
  by (rule yields_bind [where M = "\<lambda>t. unat t = unat totalin + amount_in w inp"])
     (auto simp: amount_in_def intro!: yields_if yields_lift_err yields_ret yields_andThen
        dest: Add64_exactD [OF assms])

lemma ProcessStateOut_yields:
  assumes "Add64_exact L"
  shows "yields
     (ProcessStateOut G L w ctx (tout_Out out) txID idx (tout_AssetID out) amount totalout chainID
        stake genesisutxo)
     (\<lambda>(_, t). unat t = unat totalout + amount_out w out)"
proof -
  have add: "yields (bind (lift_err (Add64 L totalout a)) f) Q"
    if "\<And>t. unat t = unat totalout + unat a \<Longrightarrow> yields (f t) Q"
    for a and f :: "u64 \<Rightarrow> (database, u64 \<times> u64) go" and Q
    by (rule yields_bind [where M = "\<lambda>t. unat t = unat totalout + unat a"])
       (auto intro!: yields_lift_err that dest: Add64_exactD [OF assms])
  show ?thesis
    unfolding ProcessStateOut_def
    by (auto simp: amount_out_def split: verify_State.split sum.split
        intro!: yields_fail add yields_andThen yields_ret)
qed

lemma InsertTransactionOuts_yields:
  assumes "Add64_exact L"
  shows "yields (InsertTransactionOuts G L w idx ctx totalout out txID chainID stake genesisutxo)
     (\<lambda>t. unat t = unat totalout + amount_out w out)"
  unfolding InsertTransactionOuts_def
  by (rule yields_bind [OF ProcessStateOut_yields [OF assms]]) (auto intro: yields_ret)

lemma ins_loop_yields:
  assumes "Add64_exact L"
  shows "yields (ins_loop G L w ctx txID creds unsignedBytes chainID inps s)
     (\<lambda>s'. unat (snd s') = unat (snd s) + sum_list (map (amount_in w) inps))"
proof (induction inps arbitrary: s)
  case (Cons inp inps)
  obtain i t where s: "s = (i, t)" by (cases s)
  have rest: "yields (ins_loop G L w ctx txID creds unsignedBytes chainID inps (i + 1, t'))
      (\<lambda>s'. unat (snd s') = unat t + (amount_in w inp + sum_list (map (amount_in w) inps)))"
    if "unat t' = unat t + amount_in w inp" for t'
    using Cons.IH [of "(i + 1, t')"] that by (simp add: add.assoc)
  have "ins_loop G L w ctx txID creds unsignedBytes chainID (inp # inps) (i, t)
      = bind (InsertTransactionIns G L w i ctx t inp txID creds unsignedBytes chainID) (\<lambda>t'. ins_loop G L w ctx txID creds unsignedBytes chainID inps (i + 1, t'))"
    by (simp add: ins_loop_def bind_assoc)
  then show ?case
    using yields_bind [OF InsertTransactionIns_yields [OF assms] rest] unfolding s by simp
qed (simp add: ins_loop_def yields_ret)

lemma outs_loop_yields:
  assumes "Add64_exact L"
  shows "yields (outs_loop G L w ctx txID chainID stake outs s)
     (\<lambda>s'. unat (snd s') = unat (snd s) + sum_list (map (amount_out w) outs))"
proof (induction outs arbitrary: s)
  case (Cons out outs)
  obtain i t where s: "s = (i, t)" by (cases s)
  have rest: "yields (outs_loop G L w ctx txID chainID stake outs (i + 1, t'))
      (\<lambda>s'. unat (snd s') = unat t + (amount_out w out + sum_list (map (amount_out w) outs)))"
    if "unat t' = unat t + amount_out w out" for t'
    using Cons.IH [of "(i + 1, t')"] that by (simp add: add.assoc)
  have "outs_loop G L w ctx txID chainID stake (out # outs) (i, t)
      = bind (InsertTransactionOuts G L w i ctx t out txID chainID stake False) (\<lambda>t'. outs_loop G L w ctx txID chainID stake outs (i + 1, t'))"
    by (simp add: outs_loop_def bind_assoc)
  then show ?case
    using yields_bind [OF InsertTransactionOuts_yields [OF assms] rest] unfolding s by simp
qed (simp add: outs_loop_def yields_ret)

lemma both_ins_yields:
  assumes "Add64_exact L"
  shows "yields (both_ins G L w ctx txID creds unsignedBytes baseTx addIns)
     (\<lambda>s. unat (snd s) = sum_list (map (amount_in w) (all_ins baseTx addIns)))"
  unfolding both_ins_def
  by (rule yields_bind [OF ins_loop_yields [OF assms]])
     (auto simp: all_ins_def split: option.split intro!: yields_ret
        intro: yields_mono [OF ins_loop_yields [OF assms]])

lemma both_outs_yields:
  assumes "Add64_exact L"
  shows "yields (both_outs G L w ctx txID baseTx addOuts)
     (\<lambda>s. unat (snd s) = sum_list (map (amount_out w) (all_outs baseTx addOuts)))"
  unfolding both_outs_def
  by (rule yields_bind [OF outs_loop_yields [OF assms]])
     (auto simp: all_outs_def split: option.split intro!: yields_ret
        intro: yields_mono [OF outs_loop_yields [OF assms]])

lemma compute_txfee_exact:
  assumes "unat totalout + unat addl < 2 ^ 64"
  shows "unat (compute_txfee totalin totalout addl False)
           = unat totalin - (unat totalout + unat addl)"
proof -
  have "unat (totalout + addl) = unat totalout + unat addl"
    using assms by (simp add: unat_word_ariths)
  then show ?thesis
    by (auto simp: compute_txfee_def Let_def word_less_nat_alt unat_sub word_le_nat_alt)
qed

text \<open>Only the last step touches the table of transactions; none touches the table of assets.\<close>

definition same_heads :: "database \<Rightarrow> database \<Rightarrow> bool" where
  "same_heads d d' \<longleftrightarrow> avm_transactions d' = avm_transactions d \<and> avm_assets d' = avm_assets d"

interpretation heads: store_rel same_heads
  by unfold_locales (simp_all add: same_heads_def)

lemmas writes_intros =
  heads.steps_upsert heads.steps_ignore_dup heads.steps_wrap_err heads.steps_if
  heads.steps_sql_insert heads.steps_sql_update heads.steps_sql_delete

lemma persist_same_heads [steps_intros]:
  "steps (on_store same_heads) (InsertAddresses v1 u)"
  "steps (on_store same_heads) (InsertAddressChain v2 u)"
  "steps (on_store same_heads) (InsertAddressBech32 v3 u)"
  "steps (on_store same_heads) (InsertOutputAddressAccumulateOut v4 u)"
  "steps (on_store same_heads) (InsertOutputAddressAccumulateIn v4 u)"
  "steps (on_store same_heads) (InsertOutputAddresses v5 u)"
  "steps (on_store same_heads) (UpdateOutputAddresses v5)"
  "steps (on_store same_heads) (UpdateOutputAddressAccumulateInOutputsProcessed i)"
  "steps (on_store same_heads) (InsertOutputsRedeeming v6 u)"
  "steps (on_store same_heads) (InsertOutputTxsAccumulate v7)"
  "steps (on_store same_heads) (InsertOutputs v8 u)"
  unfolding InsertAddresses_def InsertAddressChain_def InsertAddressBech32_def
    InsertOutputAddressAccumulateOut_def InsertOutputAddressAccumulateIn_def
    InsertOutputAddresses_def UpdateOutputAddresses_def
    UpdateOutputAddressAccumulateInOutputsProcessed_def InsertOutputsRedeeming_def
    InsertOutputTxsAccumulate_def InsertOutputs_def
  by (intro writes_intros; simp add: same_heads_def)+

lemma InsertOutputAddress_same_heads [steps_intros]:
  "steps (on_store same_heads) (InsertOutputAddress G L ctx outputID addressID sig txID idx chainID)"
  unfolding InsertOutputAddress_def Let_def by (intro steps_intros)

lemma InsertTransactionIns_same_heads [steps_intros]:
  "steps (on_store same_heads)
     (InsertTransactionIns G L w idx ctx totalin inp txID creds unsignedBytes chainID)"
  unfolding InsertTransactionIns_def InsertAddressFromPublicKey_def Let_def
  by (auto intro!: steps_intros split: Verifiable.split)

lemma ProcessStateOut_same_heads [steps_intros]:
  "steps (on_store same_heads)
     (ProcessStateOut G L w ctx out txID outputCount assetID amount totalout chainID stake genesisutxo)"
  unfolding ProcessStateOut_def InsertOutput_def Let_def
  by (auto intro!: steps_intros split: verify_State.split)

lemma both_same_heads [steps_intros]:
  "steps (on_store same_heads) (both_ins G L w ctx txID creds unsignedBytes baseTx addIns)"
  "steps (on_store same_heads) (both_outs G L w ctx txID baseTx addOuts)"
  unfolding both_ins_def both_outs_def ins_loop_def outs_loop_def InsertTransactionOuts_def
  by (intro steps_intros)+

definition tx_stored :: "nodelib \<Rightarrow> bytes \<Rightarrow> (Transactions \<Rightarrow> bool) \<Rightarrow> database \<Rightarrow> bool" where
  "tx_stored L txID P d \<longleftrightarrow> list_ex (\<lambda>r. tx_ID r = ID_String L txID \<and> P r) (avm_transactions d)"

lemma InsertTransactionBase_stores:
  assumes "\<not> PerformUpdates G"
  shows "valid (\<lambda>w. honest w \<and> \<not> recorded_tx L txID (store w))
     (InsertTransactionBase G L ctx txID chainID txType memo txBytes txfee genesis networkID)
     (\<lambda>_ w. tx_stored L txID (\<lambda>r. tx_Txfee r = txfee \<and> tx_Type r = txType \<and> tx_ChainID r = chainID)
        (store w))"
  using assms
  by (auto simp: valid_def InsertTransactionBase_def Let_def InsertTransactions_def upsert_def
      ignore_dup_def sql_insert_def exec_def andThen_def bind_def ret_def recorded_tx_def
      tx_stored_def Transactions_clash_def list_ex_iff honest_def ErrIsDuplicateEntryError_def
      split: option.splits if_splits)

text \<open>Steps that only frame a property, with a value to remember.\<close>

lemma valid_framed:
  assumes "steps (tame u) m" and "steps (on_store S) m" and "yields m Q"
    and "\<And>d d'. A d \<Longrightarrow> S d d' \<Longrightarrow> A d'"
  shows "valid (\<lambda>w. honest w \<and> A (store w)) m (\<lambda>x w. (honest w \<and> A (store w)) \<and> Q x)"
proof -
  have "honest w' \<and> A (store w') \<and> Q x" if "honest w" "A (store w)" "m w = (Inr x, w')" for w x w'
    using stepsD [OF assms(1), of w] stepsD [OF assms(2), of w] yieldsD [OF assms(3) that(3)]
      assms(4) [OF that(2)] tame_honest [OF that(1)] that(3) by (simp add: on_store_def)
  then show ?thesis unfolding valid_def by blast
qed

section \<open>When it succeeds\<close>

text \<open>In a world where the driver answers and keys are unique, every write succeeds.\<close>

definition ready :: "database world \<Rightarrow> bool" where
  "ready w \<longleftrightarrow> calm w \<and> db_ok (store w)"

lemma tame_ready: "ready w \<Longrightarrow> tame u w w' \<Longrightarrow> ready w'"
  by (auto simp: ready_def tame_def same_env_def calm_def keeps_ok_def)

lemma runs_tame:
  assumes "steps (tame u) m" and "\<And>w. calm w \<Longrightarrow> db_ok (store w) \<Longrightarrow> \<exists>x w'. m w = (Inr x, w')"
  shows "succeeds ready m (\<lambda>_. ready)"
  unfolding succeeds_def
proof (intro allI impI)
  fix w assume "ready w"
  moreover from this obtain x w' where "m w = (Inr x, w')"
    using assms(2) [of w] unfolding ready_def by blast
  ultimately show "\<exists>x w'. m w = (Inr x, w') \<and> ready w'"
    using tame_ready stepsD [OF assms(1), of w] by auto
qed

lemma UpdateOutputAddresses_runs: "succeeds ready (UpdateOutputAddresses v) (\<lambda>_. ready)"
proof (rule runs_tame [OF UpdateOutputAddresses_tame])
  fix w :: "database world"
  assume w: "calm w" "db_ok (store w)"
  then have u: "uniq OutputAddresses_clash (avm_output_addresses (store w))" by (simp add: db_ok_def)
  show "\<exists>x w'. UpdateOutputAddresses v w = (Inr x, w')"
    unfolding UpdateOutputAddresses_def wrap_err_def
    by (subst avm_output_addresses_tbl.update_calm [OF w(1) u]) (auto simp: OutputAddresses_clash_def)
qed

lemma UpdateProcessed_runs:
  "succeeds ready (UpdateOutputAddressAccumulateInOutputsProcessed oid) (\<lambda>_. ready)"
proof (rule runs_tame [OF UpdateOutputAddressAccumulateInOutputsProcessed_tame])
  fix w :: "database world"
  assume w: "calm w" "db_ok (store w)"
  then have u: "uniq OutputAddressAccumulate_clash (output_addresses_accumulate_in (store w))"
    by (simp add: db_ok_def)
  show "\<exists>x w'. UpdateOutputAddressAccumulateInOutputsProcessed oid w = (Inr x, w')"
    unfolding UpdateOutputAddressAccumulateInOutputsProcessed_def ignore_dup_def
    by (subst output_addresses_accumulate_in_tbl.update_calm [OF w(1) u])
       (auto simp: OutputAddressAccumulate_clash_def)
qed

lemma inserts_run:
  "succeeds ready (InsertTransactions v False) (\<lambda>_. ready)"
  "succeeds ready (InsertAddresses v1 False) (\<lambda>_. ready)"
  "succeeds ready (InsertAddressChain v2 False) (\<lambda>_. ready)"
  "succeeds ready (InsertAddressBech32 v3 False) (\<lambda>_. ready)"
  "succeeds ready (InsertOutputAddressAccumulateOut v4 False) (\<lambda>_. ready)"
  "succeeds ready (InsertOutputAddressAccumulateIn v4 False) (\<lambda>_. ready)"
  "succeeds ready (InsertOutputAddresses v5 False) (\<lambda>_. ready)"
  "succeeds ready (InsertOutputsRedeeming v6 False) (\<lambda>_. ready)"
  "succeeds ready (InsertOutputTxsAccumulate v7) (\<lambda>_. ready)"
  "succeeds ready (InsertOutputs v8 False) (\<lambda>_. ready)"
  by (rule runs_tame, rule steps_intros, simp add: calm_inserts)+

lemma time_now_runs: "succeeds ready time_now (\<lambda>_. ready)"
  by (rule succeeds_time_now) (simp add: ready_def calm_def)

lemmas runs_intros =
  inserts_run UpdateOutputAddresses_runs UpdateProcessed_runs time_now_runs
  succeeds_each succeeds_andThen succeeds_bind

lemma succeeds_lift_err: "r = Inr x \<Longrightarrow> (\<And>w. P w \<Longrightarrow> Q x w) \<Longrightarrow> succeeds P (lift_err r) Q"
  by (simp add: lift_err_def succeeds_ret)

lemma succeeds_yields: "succeeds P m Q \<Longrightarrow> yields m R \<Longrightarrow> succeeds P m (\<lambda>x w. Q x w \<and> R x)"
  unfolding succeeds_def yields_def by fastforce

text \<open>What success needs of the library and of the transaction.\<close>

definition lib_total :: "globals \<Rightarrow> nodelib \<Rightarrow> bool" where
  "lib_total G L \<longleftrightarrow>
     (\<forall>a b. unat a + unat b < 2 ^ 64 \<longrightarrow> (\<exists>c. Add64 L a b = Inr c)) \<and>
     (\<forall>addr. \<exists>s. FormatBech32 L (Bech32HRP G) addr = Inr s)"

definition creds_ok :: "nodelib \<Rightarrow> bytes \<Rightarrow> Verifiable list \<Rightarrow> bool" where
  "creds_ok L unsignedBytes creds \<longleftrightarrow>
     (\<forall>sigs sig. SecpCredential sigs \<in> set creds \<longrightarrow> sig \<in> set sigs \<longrightarrow>
        (\<exists>k. RecoverPublicKey L unsignedBytes sig = Inr k))"

fun state_known :: "verify_State \<Rightarrow> bool" where
  "state_known (StakeableLockOut _ (SecpTransferOutput _)) = True"
| "state_known (StakeableLockOut _ _) = False"
| "state_known (UnknownState _) = False"
| "state_known _ = True"

lemma InsertOutputAddress_runs:
  assumes "\<not> PerformUpdates G" and "lib_total G L"
  shows "succeeds ready (InsertOutputAddress G L ctx outputID addressID sig txID idx chainID) (\<lambda>_. ready)"
proof -
  obtain s where "FormatBech32 L (Bech32HRP G) addressID = Inr s"
    using assms(2) unfolding lib_total_def by blast
  then show ?thesis
    using assms(1) unfolding InsertOutputAddress_def Let_def lift_err_def
    by (auto split: option.split intro!: runs_intros intro: succeeds_ret)
qed

lemma InsertTransactionIns_runs:
  assumes "\<not> PerformUpdates G" and "lib_total G L" and "creds_ok L unsignedBytes creds"
    and "unat totalin + amount_in w inp < 2 ^ 64"
  shows "succeeds ready
     (InsertTransactionIns G L w idx ctx totalin inp txID creds unsignedBytes chainID) (\<lambda>_. ready)"
proof -
  have add: "succeeds ready (if ti_AssetID inp = dw_djtxAssetID w
      then lift_err (Add64 L totalin (ti_Amount inp)) else ret totalin) (\<lambda>_. ready)"
    using assms(2,4)
    by (auto simp: amount_in_def lib_total_def lift_err_def intro: succeeds_ret split: sum.split)
      (metis Inr_Inl_False)
  have sig: "succeeds ready
      (bind (lift_err (RecoverPublicKey L unsignedBytes sig)) (\<lambda>publicKey.
         andThen (InsertAddressFromPublicKey G L ctx publicKey)
           (InsertOutputAddress G L ctx oid (PublicKey_Address L publicKey) (Some sig)
              (ti_TxID inp) (ti_OutputIndex inp) chainID))) (\<lambda>_. ready)"
    if "idx < length creds" and "creds ! idx = SecpCredential sigs" and "sig \<in> set sigs" for sigs sig oid
  proof -
    have "SecpCredential sigs \<in> set creds" using that(1,2) by (metis nth_mem)
    with assms(3) \<open>sig \<in> set sigs\<close> have "\<exists>k. RecoverPublicKey L unsignedBytes sig = Inr k"
      unfolding creds_ok_def by blast
    then obtain k where "RecoverPublicKey L unsignedBytes sig = Inr k" by (rule exE)
    then show ?thesis
      using assms(1) unfolding lift_err_def InsertAddressFromPublicKey_def
      by (auto intro!: runs_intros InsertOutputAddress_runs assms)
  qed
  let ?body = "\<lambda>oid. \<lambda>sig. bind (lift_err (RecoverPublicKey L unsignedBytes sig)) (\<lambda>publicKey.
         andThen (InsertAddressFromPublicKey G L ctx publicKey)
           (InsertOutputAddress G L ctx oid (PublicKey_Address L publicKey) (Some sig)
              (ti_TxID inp) (ti_OutputIndex inp) chainID))"
  have sigs: "succeeds ready
      (if idx < length creds
       then (case creds ! idx of SecpCredential sigs \<Rightarrow> each (?body oid) sigs
             | UnknownCredential \<Rightarrow> ret ())
       else ret ()) (\<lambda>_. ready)" for oid
  proof (cases "idx < length creds")
    case True
    then show ?thesis
    proof (cases "creds ! idx")
      case (SecpCredential sigs)
      with True show ?thesis by (simp add: succeeds_each sig)
    qed (simp add: succeeds_ret)
  qed (simp add: succeeds_ret)
  have red: "succeeds ready (InsertOutputsRedeeming v (PerformUpdates G)) (\<lambda>_. ready)" for v
    using assms(1) by (simp add: inserts_run)
  show ?thesis
    unfolding InsertTransactionIns_def Let_def
    by (rule succeeds_bind [OF add succeeds_andThen [OF sigs succeeds_andThen
          [OF UpdateProcessed_runs succeeds_andThen [OF red succeeds_ret]]]])
qed

lemma InsertOutput_runs:
  assumes "\<not> PerformUpdates G" and "lib_total G L"
  shows "succeeds ready (InsertOutput G L ctx txID idx assetID out outputType groupID payload
     stakeLocktime chainID stake frozen stakeableout genesisutxo) (\<lambda>_. ready)"
  using assms(1) unfolding InsertOutput_def Let_def
  by (auto intro!: runs_intros InsertOutputAddress_runs assms)

fun secp_amount :: "verify_State \<Rightarrow> nat" where
  "secp_amount (SecpTransferOutput xo) = unat (to_Amt xo)"
| "secp_amount _ = 0"

lemma ProcessStateOut_runs:
  assumes "\<not> PerformUpdates G" and "lib_total G L" and "state_known (tout_Out out)"
    and "unat totalout + amount_out w out < 2 ^ 64" and "unat amount + secp_amount (tout_Out out) < 2 ^ 64"
  shows "succeeds ready
     (ProcessStateOut G L w ctx (tout_Out out) txID idx (tout_AssetID out) amount totalout chainID
        stake genesisutxo) (\<lambda>_. ready)"
proof -
  have add64: "\<exists>c. Add64 L a b = Inr c" if "unat a + unat b < 2 ^ 64" for a b
    using assms(2) that unfolding lib_total_def by blast
  have amt: "succeeds ready (case Add64 L amount a of Inl e \<Rightarrow> fail (g e) | Inr c \<Rightarrow> ret (c, t))
      (\<lambda>_. ready)" if "unat amount + unat a < 2 ^ 64" for a g and t :: u64
    using add64 [OF that] by (auto intro: succeeds_ret)
  have "succeeds ready (lift_err (Add64 L totalout a)) (\<lambda>_. ready)"
    if "unat totalout + unat a < 2 ^ 64" for a
    using add64 [OF that] by (auto intro: succeeds_lift_err)
  then have add: "succeeds ready
      (bind (if tout_AssetID out = dw_djtxAssetID w then lift_err (Add64 L totalout a)
             else ret totalout) f) (\<lambda>_. ready)"
    if "amount_out w out = (if tout_AssetID out = dw_djtxAssetID w then unat a else 0)"
      and "\<And>t. succeeds ready (f t) (\<lambda>_. ready)" for a and f :: "u64 \<Rightarrow> (database, u64 \<times> u64) go"
    using that assms(4) by (auto intro!: succeeds_bind [where M = "\<lambda>_. ready"] intro: succeeds_ret)
  note out = succeeds_andThen [OF InsertOutput_runs [OF assms(1,2)]]
  show ?thesis
    using assms(3,5) unfolding ProcessStateOut_def
    by (cases "tout_Out out" rule: state_known.cases)
       (simp_all add: add out amt succeeds_ret amount_out_def)
qed

lemma unat_u64: "unat (a :: u64) < 2 ^ 64"
  by (rule order.strict_trans2 [OF unsigned_less]) simp

lemma secp_amount_bound: "secp_amount out < 2 ^ 64"
  by (cases out rule: secp_amount.cases) (simp_all only: secp_amount.simps unat_u64, simp_all)

lemma amount_out_bound: "amount_out w out < 2 ^ 64"
  using unat_u64 by (auto simp: amount_out_def split: verify_State.split)

lemma InsertTransactionOuts_runs:
  assumes "\<not> PerformUpdates G" and "lib_total G L" and "state_known (tout_Out out)"
    and "unat totalout + amount_out w out < 2 ^ 64"
  shows "succeeds ready
     (InsertTransactionOuts G L w idx ctx totalout out txID chainID stake genesisutxo) (\<lambda>_. ready)"
proof -
  have "unat (0::u64) + secp_amount (tout_Out out) < 2 ^ 64"
    using secp_amount_bound by simp
  then show ?thesis
    unfolding InsertTransactionOuts_def
    by (rule succeeds_bind [OF ProcessStateOut_runs [OF assms]]) (auto intro: succeeds_ret)
qed

lemma ins_loop_runs:
  assumes "\<not> PerformUpdates G" and "lib_total G L" and "Add64_exact L"
    and "creds_ok L unsignedBytes creds"
    and "unat (snd s) + sum_list (map (amount_in w) inps) < 2 ^ 64"
  shows "succeeds ready (ins_loop G L w ctx txID creds unsignedBytes chainID inps s) (\<lambda>_. ready)"
  using assms(5)
proof (induction inps arbitrary: s)
  case (Cons inp inps)
  obtain i t where s: "s = (i, t)" by (cases s)
  have head: "succeeds ready
      (InsertTransactionIns G L w i ctx t inp txID creds unsignedBytes chainID)
      (\<lambda>t' w'. ready w' \<and> unat t' = unat t + amount_in w inp)"
    using Cons.prems s
    by (intro succeeds_yields InsertTransactionIns_runs InsertTransactionIns_yields assms) simp
  have rest: "succeeds (\<lambda>w'. ready w' \<and> unat t' = unat t + amount_in w inp)
      (ins_loop G L w ctx txID creds unsignedBytes chainID inps (i + 1, t')) (\<lambda>_. ready)" for t'
    using Cons.IH [of "(i + 1, t')"] Cons.prems s by (auto simp: succeeds_def add.assoc)
  have "ins_loop G L w ctx txID creds unsignedBytes chainID (inp # inps) (i, t)
      = bind (InsertTransactionIns G L w i ctx t inp txID creds unsignedBytes chainID)
          (\<lambda>t'. ins_loop G L w ctx txID creds unsignedBytes chainID inps (i + 1, t'))"
    by (simp add: ins_loop_def bind_assoc)
  with succeeds_bind [OF head rest] show ?case unfolding s by simp
qed (simp add: ins_loop_def succeeds_ret)

lemma outs_loop_runs:
  assumes "\<not> PerformUpdates G" and "lib_total G L" and "Add64_exact L"
    and "list_all (\<lambda>out. state_known (tout_Out out)) outs"
    and "unat (snd s) + sum_list (map (amount_out w) outs) < 2 ^ 64"
  shows "succeeds ready (outs_loop G L w ctx txID chainID stake outs s) (\<lambda>_. ready)"
  using assms(4,5)
proof (induction outs arbitrary: s)
  case (Cons out outs)
  obtain i t where s: "s = (i, t)" by (cases s)
  have head: "succeeds ready
      (InsertTransactionOuts G L w i ctx t out txID chainID stake False)
      (\<lambda>t' w'. ready w' \<and> unat t' = unat t + amount_out w out)"
    using Cons.prems s
    by (intro succeeds_yields InsertTransactionOuts_runs InsertTransactionOuts_yields assms(1-3)) simp_all
  have rest: "succeeds (\<lambda>w'. ready w' \<and> unat t' = unat t + amount_out w out)
      (outs_loop G L w ctx txID chainID stake outs (i + 1, t')) (\<lambda>_. ready)" for t'
    using Cons.IH [of "(i + 1, t')"] Cons.prems s by (auto simp: succeeds_def add.assoc)
  have "outs_loop G L w ctx txID chainID stake (out # outs) (i, t)
      = bind (InsertTransactionOuts G L w i ctx t out txID chainID stake False)
          (\<lambda>t'. outs_loop G L w ctx txID chainID stake outs (i + 1, t'))"
    by (simp add: outs_loop_def bind_assoc)
  with succeeds_bind [OF head rest] show ?case unfolding s by simp
qed (simp add: outs_loop_def succeeds_ret)

lemma both_ins_runs:
  assumes "\<not> PerformUpdates G" and "lib_total G L" and "Add64_exact L"
    and "creds_ok L unsignedBytes creds"
    and "sum_list (map (amount_in w) (all_ins baseTx addIns)) < 2 ^ 64"
  shows "succeeds ready (both_ins G L w ctx txID creds unsignedBytes baseTx addIns) (\<lambda>_. ready)"
proof -
  let ?t = "sum_list (map (amount_in w) (bt_Ins baseTx))"
  have one: "succeeds ready
      (ins_loop G L w ctx txID creds unsignedBytes (dw_chainID w) (bt_Ins baseTx) (0, 0))
      (\<lambda>s w'. ready w' \<and> unat (snd s) = unat (snd (0::nat, 0::u64)) + ?t)"
    using assms by (intro succeeds_yields ins_loop_runs ins_loop_yields) (auto simp: all_ins_def)
  have two: "succeeds (\<lambda>w'. ready w' \<and> unat (snd s) = unat (snd (0::nat, 0::u64)) + ?t)
      (case addIns of None \<Rightarrow> ret s
       | Some a \<Rightarrow> ins_loop G L w ctx txID creds unsignedBytes (ai_ChainID a) (ai_Ins a) s)
      (\<lambda>_. ready)" for s
    using assms ins_loop_runs [OF assms(1-4), of s w]
    by (auto simp: all_ins_def succeeds_def ret_def split: option.split)
  show ?thesis unfolding both_ins_def by (rule succeeds_bind [OF one two])
qed

lemma both_outs_runs:
  assumes "\<not> PerformUpdates G" and "lib_total G L" and "Add64_exact L"
    and "list_all (\<lambda>out. state_known (tout_Out out)) (all_outs baseTx addOuts)"
    and "sum_list (map (amount_out w) (all_outs baseTx addOuts)) < 2 ^ 64"
  shows "succeeds ready (both_outs G L w ctx txID baseTx addOuts) (\<lambda>_. ready)"
proof -
  let ?t = "sum_list (map (amount_out w) (bt_Outs baseTx))"
  have one: "succeeds ready (outs_loop G L w ctx txID (dw_chainID w) False (bt_Outs baseTx) (0, 0))
      (\<lambda>s w'. ready w' \<and> unat (snd s) = unat (snd (0::u32, 0::u64)) + ?t)"
    using assms by (intro succeeds_yields outs_loop_runs outs_loop_yields) (auto simp: all_outs_def)
  have two: "succeeds (\<lambda>w'. ready w' \<and> unat (snd s) = unat (snd (0::u32, 0::u64)) + ?t)
      (case addOuts of None \<Rightarrow> ret s
       | Some a \<Rightarrow> outs_loop G L w ctx txID (ao_ChainID a) (ao_Stake a) (ao_Outs a) s)
      (\<lambda>_. ready)" for s
    using assms outs_loop_runs [OF assms(1-3), of _ s w]
    by (auto simp: all_outs_def succeeds_def ret_def split: option.split)
  show ?thesis unfolding both_outs_def by (rule succeeds_bind [OF one two])
qed

lemma InsertTransaction_runs:
  assumes "\<not> PerformUpdates G" and "lib_total G L" and "Add64_exact L"
    and "creds_ok L unsignedBytes creds"
    and "list_all (\<lambda>out. state_known (tout_Out out)) (all_outs baseTx addOuts)"
    and "sum_list (map (amount_in w) (all_ins baseTx addIns)) < 2 ^ 64"
    and "sum_list (map (amount_out w) (all_outs baseTx addOuts)) < 2 ^ 64"
  shows "succeeds ready
     (InsertTransaction G L w ctx txBytes txID unsignedBytes baseTx creds txType addIns addOuts
        addlOutTxfee genesis) (\<lambda>_. ready)"
proof -
  have base: "succeeds ready
      (InsertTransactionBase G L ctx txID c ty memo txBytes fee genesis nid) (\<lambda>_. ready)"
    for c ty memo fee nid
    using assms(1) by (simp add: InsertTransactionBase_def Let_def inserts_run)
  show ?thesis
    unfolding InsertTransaction_phases
    by (rule succeeds_bind [OF both_ins_runs [OF assms(1-4,6)]
          succeeds_bind [OF both_outs_runs [OF assms(1-3,5,7)] base]])
qed

lemma InsertTransaction_stores_fee:
  assumes "\<not> PerformUpdates G" and "Add64_exact L"
  shows "valid (\<lambda>w. honest w \<and> \<not> recorded_tx L txID (store w))
     (InsertTransaction G L w ctx txBytes txID unsignedBytes baseTx creds txType addIns addOuts
        addlOutTxfee genesis)
     (\<lambda>_ w'. \<exists>totalin totalout.
        unat totalin = sum_list (map (amount_in w) (all_ins baseTx addIns)) \<and>
        unat totalout = sum_list (map (amount_out w) (all_outs baseTx addOuts)) \<and>
        tx_stored L txID (\<lambda>r. tx_Txfee r = compute_txfee totalin totalout addlOutTxfee genesis
          \<and> tx_Type r = TransactionType_String txType \<and> tx_ChainID r = dw_chainID w) (store w'))"
proof -
  let ?P = "\<lambda>w. honest w \<and> \<not> recorded_tx L txID (store w)"
  have keep: "same_heads d d' \<Longrightarrow> \<not> recorded_tx L txID d \<Longrightarrow> \<not> recorded_tx L txID d'" for d d'
    by (simp add: same_heads_def recorded_tx_def)
  have ins: "valid ?P (both_ins G L w ctx txID creds unsignedBytes baseTx addIns)
      (\<lambda>x w'. ?P w' \<and> unat (snd x) = sum_list (map (amount_in w) (all_ins baseTx addIns)))"
    by (rule valid_framed [OF both_tame(1) both_same_heads(1) both_ins_yields [OF assms(2)]])
       (rule keep)
  have outs: "valid ?P (both_outs G L w ctx txID baseTx addOuts)
      (\<lambda>x w'. ?P w' \<and> unat (snd x) = sum_list (map (amount_out w) (all_outs baseTx addOuts)))"
    by (rule valid_framed [OF both_tame(2) both_same_heads(2) both_outs_yields [OF assms(2)]])
       (rule keep)
  show ?thesis
    unfolding InsertTransaction_phases valid_def bind_def
    using validD [OF ins] validD [OF outs] validD [OF InsertTransactionBase_stores [OF assms(1)]]
    by (fastforce split: prod.splits sum.splits)
qed

section \<open>Properties\<close>

text \<open>A library for the examples: identity hashes, and addition that reports overflow.\<close>

definition example_lib :: nodelib where
  "example_lib =
     \<lparr>ComputeHash256Array = (\<lambda>b. b), ID_String = (\<lambda>b. b), ID_Prefix = (\<lambda>b n. dec_nat (unat n) @ b),
      ShortID_String = (\<lambda>b. b), RecoverPublicKey = (\<lambda>_ sig. Inr sig), PublicKey_Address = (\<lambda>k. k),
      PublicKey_Bytes = (\<lambda>k. k), FormatBech32 = (\<lambda>hrp b. Inr (hrp @ b)),
      Add64 = (\<lambda>a b. if unat a + unat b < 2 ^ 64 then Inr (a + b) else Inl ''overflow''),
      Propagate = (\<lambda>e m. m @ e)\<rparr>"

definition example_globals :: globals where
  "example_globals = \<lparr>PerformUpdates = False, Bech32HRP = ''djtx''\<rparr>"

definition example_world :: "database world" where
  "example_world = \<lparr>store = empty_db, faults = (\<lambda>_. None), stmts = 0, clock = (\<lambda>_. 0), ticks = 0\<rparr>"

definition example_tx :: BaseTx where
  "example_tx =
     \<lparr>bt_NetworkID = 1,
      bt_Ins = [\<lparr>ti_TxID = ''prev'', ti_OutputIndex = 2, ti_AssetID = ''DJTX'', ti_Amount = 100\<rparr>],
      bt_Outs = [\<lparr>tout_AssetID = ''DJTX'', tout_Out = SecpTransferOutput
                   \<lparr>to_Amt = 90, to_Owners = \<lparr>oo_Locktime = 0, oo_Threshold = 1, oo_Addrs = [''bob'']\<rparr>\<rparr>\<rparr>],
      bt_Memo = Some ''hi''\<rparr>"

definition example_run :: "(database, unit) go" where
  "example_run = InsertTransaction example_globals example_lib
     \<lparr>dw_chainID = ''X'', dw_djtxAssetID = ''DJTX''\<rparr> \<lparr>ctx_Time = 5, ctx_ChainID = ''X''\<rparr>
     ''bytes'' ''tx'' ''unsigned'' example_tx [SecpCredential [''alice'']] TransactionTypeBase
     None None 3 False"

lemma example_lib_exact [simp]: "Add64_exact example_lib"
  by (auto simp: Add64_exact_def example_lib_def unat_word_ariths split: if_splits)

lemma example_lib_total [simp]: "lib_total G example_lib"
  by (simp add: lib_total_def example_lib_def)

lemma example_world_ready [simp]:
  "calm example_world" "honest example_world" "ready example_world" "db_ok (store example_world)"
  "store example_world = empty_db"
  by (simp_all add: example_world_def calm_def honest_def ready_def empty_db_ok)

lemma example_runs: "\<exists>w'. example_run example_world = (Inr (), w')"
proof -
  have "succeeds ready example_run (\<lambda>_. ready)"
    unfolding example_run_def
    by (rule InsertTransaction_runs)
       (simp_all add: example_globals_def example_tx_def all_ins_def all_outs_def amount_in_def
          amount_out_def creds_ok_def, simp add: example_lib_def)
  from succeedsD [OF this example_world_ready(3)] show ?thesis by auto
qed

text \<open>C14: nothing of a transaction is lost. With updates off and a driver that does not invent
  duplicate-key errors, when \<^verbatim>\<open>InsertTransaction\<close> returns no error then the transaction is in
  avm_transactions, each input (of the base transaction and the additional ones) is in
  avm_outputs_redeeming, and output number k (continuing over the additional outputs) is in
  avm_outputs.\<close>

theorem InsertTransaction_complete:
  assumes "\<not> PerformUpdates G" and "honest w0"
    and "InsertTransaction G L w ctx txBytes txID unsignedBytes baseTx creds txType addIns addOuts
           addlOutTxfee genesis w0 = (Inr (), w1)"
  shows "recorded_tx L txID (store w1)
       \<and> list_all (\<lambda>inp. recorded_in L inp (store w1)) (all_ins baseTx addIns)
       \<and> list_all (\<lambda>k. recorded_out L txID (of_nat k) (store w1)) [0..<length (all_outs baseTx addOuts)]"
  using validD [OF InsertTransaction_recorded [OF assms(1)] assms(3,2)]
  by (auto simp: recorded_all_def list_all_iff)

theorem InsertTransaction_complete_witness:
  "\<exists>w1. example_run example_world = (Inr (), w1) \<and> recorded_tx example_lib ''tx'' (store w1)
      \<and> recorded_out example_lib ''tx'' 0 (store w1)"
proof -
  obtain w1 where run: "example_run example_world = (Inr (), w1)" using example_runs by blast
  have "\<not> PerformUpdates example_globals" by (simp add: example_globals_def)
  note all = InsertTransaction_complete [OF this example_world_ready(2) run [unfolded example_run_def]]
  show ?thesis using run all by (auto simp: all_outs_def example_tx_def)
qed

text \<open>C13: the stored fee. When a transaction that was not stored before is indexed successfully,
  its row carries the exact difference between the sum of its inputs and the sum of its
  outputs plus the additional amount, in the fee asset (zero for a genesis transaction and
  when the outputs exceed the inputs), provided outputs and additional amount stay within
  64 bits.\<close>

theorem InsertTransaction_fee:
  assumes "\<not> PerformUpdates G" and "Add64_exact L" and "honest w0" and "\<not> recorded_tx L txID (store w0)"
    and "InsertTransaction G L w ctx txBytes txID unsignedBytes baseTx creds txType addIns addOuts
           addlOutTxfee genesis w0 = (Inr (), w1)"
    and "sum_list (map (amount_out w) (all_outs baseTx addOuts)) + unat addlOutTxfee < 2 ^ 64"
  shows "tx_stored L txID (\<lambda>r. unat (tx_Txfee r) =
           (if genesis then 0
            else sum_list (map (amount_in w) (all_ins baseTx addIns))
                 - (sum_list (map (amount_out w) (all_outs baseTx addOuts)) + unat addlOutTxfee)))
         (store w1)"
proof -
  obtain totalin totalout where t:
    "unat totalin = sum_list (map (amount_in w) (all_ins baseTx addIns))"
    "unat totalout = sum_list (map (amount_out w) (all_outs baseTx addOuts))"
    and st: "tx_stored L txID (\<lambda>r. tx_Txfee r = compute_txfee totalin totalout addlOutTxfee genesis
          \<and> tx_Type r = TransactionType_String txType \<and> tx_ChainID r = dw_chainID w) (store w1)"
    using validD [OF InsertTransaction_stores_fee [OF assms(1,2)] assms(5)] assms(3,4) by blast
  have fee: "unat (compute_txfee totalin totalout addlOutTxfee genesis)
      = (if genesis then 0 else unat totalin - (unat totalout + unat addlOutTxfee))"
    using compute_txfee_exact [of totalout addlOutTxfee totalin] assms(6) t
    by (auto simp: compute_txfee_def)
  show ?thesis
    using st fee unfolding t(1,2) by (auto simp: tx_stored_def list_ex_iff)
qed

theorem InsertTransaction_fee_witness:
  "\<exists>w1. example_run example_world = (Inr (), w1)
      \<and> tx_stored example_lib ''tx'' (\<lambda>r. unat (tx_Txfee r) = 7) (store w1)"
proof -
  obtain w1 where run: "example_run example_world = (Inr (), w1)" using example_runs by blast
  have "\<not> PerformUpdates example_globals" and "\<not> recorded_tx example_lib ''tx'' (store example_world)"
    by (simp_all add: example_globals_def recorded_tx_def empty_db_def)
  note fee = InsertTransaction_fee [OF this(1) example_lib_exact example_world_ready(2) this(2)
      run [unfolded example_run_def]]
  show ?thesis
    using run fee by (auto simp: all_ins_def all_outs_def example_tx_def amount_in_def amount_out_def)
qed

text \<open>C15: indexing gets through. When the driver answers, keys are unique, the library formats
  every address and recovers every signature's key, each output has one of the known types
  and the sums of inputs and of outputs fit 64 bits, \<^verbatim>\<open>InsertTransaction\<close> returns no error
  and leaves keys unique.\<close>

theorem InsertTransaction_total:
  assumes "\<not> PerformUpdates G" and "lib_total G L" and "Add64_exact L"
    and "creds_ok L unsignedBytes creds"
    and "list_all (\<lambda>out. state_known (tout_Out out)) (all_outs baseTx addOuts)"
    and "sum_list (map (amount_in w) (all_ins baseTx addIns)) < 2 ^ 64"
    and "sum_list (map (amount_out w) (all_outs baseTx addOuts)) < 2 ^ 64"
    and "calm w0" and "db_ok (store w0)"
  shows "\<exists>w1. InsertTransaction G L w ctx txBytes txID unsignedBytes baseTx creds txType addIns
                addOuts addlOutTxfee genesis w0 = (Inr (), w1) \<and> db_ok (store w1)"
  using InsertTransaction_runs [OF assms(1-7)] assms(8,9) unfolding succeeds_def ready_def by fastforce

theorem InsertTransaction_total_witness:
  "\<exists>w1. example_run example_world = (Inr (), w1) \<and> db_ok (store w1)"
  unfolding example_run_def
  by (rule InsertTransaction_total)
     (simp_all add: example_globals_def example_tx_def all_ins_def all_outs_def amount_in_def
        amount_out_def creds_ok_def empty_db_ok, simp add: example_lib_def)

text \<open>the sum of outputs and additional amount is not checked. When it exceeds 64 bits the
  fee is computed from the wrapped sum, although the outputs exceed the inputs.\<close>

theorem compute_txfee_wraps:
  assumes "unat totalout + unat addl \<ge> 2 ^ 64"
  shows "unat (compute_txfee totalin totalout addl False)
           = unat totalin - (unat totalout + unat addl - 2 ^ 64)
       \<and> unat totalin < unat totalout + unat addl"
proof -
  have lt: "unat a < 2 ^ 64" for a :: u64
    by (rule order.strict_trans2 [OF unsigned_less]) simp
  have "unat (totalout + addl) = (unat totalout + unat addl) mod 2 ^ 64"
    by (simp add: unat_word_ariths)
  also have "\<dots> = unat totalout + unat addl - 2 ^ 64"
    using assms lt [of totalout] lt [of addl] by (simp add: mod_if)
  finally have "unat (totalout + addl) = unat totalout + unat addl - 2 ^ 64" .
  then have "unat (compute_txfee totalin totalout addl False)
           = unat totalin - (unat totalout + unat addl - 2 ^ 64)"
    by (auto simp: compute_txfee_def Let_def word_less_nat_alt unat_sub word_le_nat_alt)
  then show ?thesis using assms lt [of totalin] by simp
qed

theorem compute_txfee_wraps_witness: "unat (compute_txfee 10 (2 ^ 63) (2 ^ 63) False) = 10"
  using compute_txfee_wraps [of "2 ^ 63" "2 ^ 63" 10] by simp

end
