(* ===== verification/Rewards_Handler.thy ===== *)
theory Rewards_Handler
  imports Djtx_Writer
begin

text \<open>
  The handler of staking rewards: \<^verbatim>\<open>src/services/rewards/rewards_handler.go\<close>.

  The P-chain writer records a reward with the block that proposes it.  Once a day the
  handler joins the unprocessed rewards with the blocks that decide them, asks the node for the
  outputs that the network created, stores these outputs with the shared writer and marks the
  reward as processed.

  The node's client, its codec and the parser of ids are parameters.
\<close>

section \<open>Definitions\<close>

record UTXO =
  utxo_TxID :: bytes
  utxo_OutputIndex :: u32
  utxo_AssetID :: bytes
  utxo_Out :: verify_State

record rewardlib =
  ids_FromString :: "string \<Rightarrow> goerr + bytes"
  GetRewardUTXOs :: "bytes \<Rightarrow> goerr + bytes list"
  Codec_Unmarshal :: "bytes \<Rightarrow> goerr + UTXO"

record rewardsHandler =
  rh_cid :: bytes
  rh_writer :: djtxWriter

text \<open>The fields that \<^verbatim>\<open>runTicker\<close> sets: the chain is \<^verbatim>\<open>ids.Empty\<close>, 32 zero bytes.\<close>

definition rewards_setup :: "nodelib \<Rightarrow> bytes \<Rightarrow> rewardsHandler" where
  "rewards_setup L djtxAssetID =
     (let cid = replicate 32 (CHR 0x00) in
      \<lparr>rh_cid = cid, rh_writer = \<lparr>dw_chainID = ID_String L cid, dw_djtxAssetID = djtxAssetID\<rparr>\<rparr>)"

record RewardTx =
  rt_ID :: string
  rt_Txid :: string
  rt_Type :: u16
  rt_CreatedAt :: gotime

text \<open>The select: unprocessed rewards, older than three seconds, joined with the blocks whose
  parent is the block of the reward.\<close>

definition selectRewards :: "gotime \<Rightarrow> database \<Rightarrow> RewardTx list" where
  "selectRewards now d =
     [\<lparr>rt_ID = rw_ID r, rt_Txid = rw_Txid r, rt_Type = pb_Type p, rt_CreatedAt = rw_CreatedAt r\<rparr>.
        r \<leftarrow> rewards d, p \<leftarrow> pvm_blocks d,
        rw_BlockID r = pb_ParentID p \<and> rw_Processed r = 0 \<and> rw_CreatedAt r < now - 3 * 1000000000]"

definition markRewardProcessed :: "string \<Rightarrow> (database, unit) go" where
  "markRewardProcessed i =
     UpdateRewardsProcessed
       \<lparr>rw_ID = i, rw_BlockID = [], rw_Txid = [], rw_Shouldprefercommit = False, rw_CreatedAt = 0,
        rw_Processed = 1\<rparr>"

text \<open>The body of the loop over the outputs.  The consumer context holds \<^verbatim>\<open>sess\<close>, not the
  transaction \<^verbatim>\<open>dbTx\<close>.\<close>

definition processRewardUtxo ::
  "globals \<Rightarrow> nodelib \<Rightarrow> rewardlib \<Rightarrow> rewardsHandler \<Rightarrow> gotime \<Rightarrow> bytes \<Rightarrow> (database, unit) go" where
  "processRewardUtxo G L R h createdAt b =
     bind (lift_err (Codec_Unmarshal R b)) (\<lambda>utxo.
       let cCtx = NewConsumerContext (createdAt div 1000000000) (createdAt mod 1000000000)
             (ID_String L (rh_cid h))
       in bind (ProcessStateOut G L (rh_writer h) cCtx (utxo_Out utxo) (utxo_TxID utxo)
                  (utxo_OutputIndex utxo) (utxo_AssetID utxo) 0 0 (ID_String L (rh_cid h)) False False)
            (\<lambda>_. ret ()))"

text \<open>\<^verbatim>\<open>Begin\<close> and \<^verbatim>\<open>Commit\<close> are statements, but nothing in between belongs to the
  transaction, so the deferred rollback undoes nothing.\<close>

definition processRewardUtxos ::
  "globals \<Rightarrow> nodelib \<Rightarrow> rewardlib \<Rightarrow> rewardsHandler \<Rightarrow> bytes list \<Rightarrow> gotime \<Rightarrow> (database, unit) go" where
  "processRewardUtxos G L R h rewardsUtxos createdAt =
     andThen (exec (\<lambda>d. (None, d)))
     (andThen (each (processRewardUtxo G L R h createdAt) rewardsUtxos)
              (exec (\<lambda>d. (None, d))))"

definition processReward ::
  "globals \<Rightarrow> nodelib \<Rightarrow> rewardlib \<Rightarrow> rewardsHandler \<Rightarrow> RewardTx \<Rightarrow> (database, unit) go" where
  "processReward G L R h rewardTx =
     (if rt_Type rewardTx = BlockTypeAbort then markRewardProcessed (rt_ID rewardTx)
      else
        bind (lift_err (ids_FromString R (rt_Txid rewardTx))) (\<lambda>i.
        bind (lift_err (GetRewardUTXOs R i)) (\<lambda>rewardsUtxos.
          if rewardsUtxos = [] then fail (''no rewards '' @ rt_Txid rewardTx)
          else
            andThen (processRewardUtxos G L R h rewardsUtxos (rt_CreatedAt rewardTx))
                    (markRewardProcessed (rt_ID rewardTx)))))"

definition processRewards ::
  "globals \<Rightarrow> nodelib \<Rightarrow> rewardlib \<Rightarrow> rewardsHandler \<Rightarrow> (database, unit) go" where
  "processRewards G L R h =
     bind time_now (\<lambda>now.
     bind (query (\<lambda>d. Inr (selectRewards now d))) (\<lambda>rewardsTxs.
       if rewardsTxs = [] then ret () else each (processReward G L R h) rewardsTxs))"

section \<open>What the handler leaves alone\<close>

definition same_rewards :: "database \<Rightarrow> database \<Rightarrow> bool" where
  "same_rewards d d' \<longleftrightarrow> rewards d' = rewards d"

interpretation same_rewards: store_rel same_rewards
  by unfold_locales (simp_all add: same_rewards_def)

lemmas rewards_intros =
  same_rewards.steps_upsert same_rewards.steps_ignore_dup same_rewards.steps_wrap_err same_rewards.steps_if
  same_rewards.steps_sql_insert same_rewards.steps_sql_update

lemma persist_same_rewards [steps_intros]:
  "steps (on_store same_rewards) (InsertAddresses v1 u)"
  "steps (on_store same_rewards) (InsertAddressChain v2 u)"
  "steps (on_store same_rewards) (InsertAddressBech32 v3 u)"
  "steps (on_store same_rewards) (InsertOutputAddressAccumulateOut v4 u)"
  "steps (on_store same_rewards) (InsertOutputAddressAccumulateIn v4 u)"
  "steps (on_store same_rewards) (InsertOutputAddresses v5 u)"
  "steps (on_store same_rewards) (UpdateOutputAddresses v5)"
  "steps (on_store same_rewards) (InsertOutputTxsAccumulate v7)"
  "steps (on_store same_rewards) (InsertOutputs v8 u)"
  unfolding InsertAddresses_def InsertAddressChain_def InsertAddressBech32_def
    InsertOutputAddressAccumulateOut_def InsertOutputAddressAccumulateIn_def InsertOutputAddresses_def
    UpdateOutputAddresses_def InsertOutputTxsAccumulate_def InsertOutputs_def
  by (intro rewards_intros; simp add: same_rewards_def)+

lemma ProcessStateOut_same_rewards [steps_intros]:
  "steps (on_store same_rewards)
     (ProcessStateOut G L w ctx out txID outputCount assetID amount totalout chainID stake genesisutxo)"
  unfolding ProcessStateOut_def InsertOutput_def InsertOutputAddress_def Let_def
  by (auto intro!: steps_intros split: verify_State.split)

lemma processRewardUtxos_same_rewards [steps_intros]:
  "steps (on_store same_rewards) (processRewardUtxos G L R h us t)"
  unfolding processRewardUtxos_def processRewardUtxo_def Let_def by (intro steps_intros)

lemma processRewardUtxos_tame [steps_intros]:
  "steps (tame (PerformUpdates G)) (processRewardUtxos G L R h us t)"
  unfolding processRewardUtxos_def processRewardUtxo_def Let_def by (intro steps_intros)

lemma markRewardProcessed_tame [steps_intros]: "steps (tame u) (markRewardProcessed i)"
  unfolding markRewardProcessed_def by (intro steps_intros)

lemma processReward_tame [steps_intros]: "steps (tame (PerformUpdates G)) (processReward G L R h tx)"
  unfolding processReward_def by (intro steps_intros)

section \<open>Recorded outputs\<close>

definition utxo_recorded :: "nodelib \<Rightarrow> rewardlib \<Rightarrow> bytes \<Rightarrow> database \<Rightarrow> bool" where
  "utxo_recorded L R b d \<longleftrightarrow>
     (case Codec_Unmarshal R b of Inl _ \<Rightarrow> False
      | Inr u \<Rightarrow> recorded_out L (utxo_TxID u) (utxo_OutputIndex u) d)"

lemma utxo_recorded_mono: "utxo_recorded L R b d \<Longrightarrow> grows d d' \<Longrightarrow> utxo_recorded L R b d'"
  by (auto simp: utxo_recorded_def intro: recorded_mono split: sum.splits)

lemma processRewardUtxo_recorded:
  assumes "\<not> PerformUpdates G"
  shows "valid honest (processRewardUtxo G L R h t b) (\<lambda>_ w. honest w \<and> utxo_recorded L R b (store w))"
proof (cases "Codec_Unmarshal R b")
  case (Inl e)
  then show ?thesis by (simp add: processRewardUtxo_def lift_err_def valid_fail)
next
  case (Inr u)
  have "valid honest (bind (ProcessStateOut G L wr ctx (utxo_Out u) (utxo_TxID u) (utxo_OutputIndex u)
       (utxo_AssetID u) 0 0 c False False) (\<lambda>_. ret ())) (\<lambda>_ w. honest w \<and> utxo_recorded L R b (store w))"
    for wr ctx c
    by (rule valid_bind [OF ProcessStateOut_recorded [OF assms]]) (auto simp: utxo_recorded_def Inr intro: valid_ret)
  then show ?thesis by (simp add: processRewardUtxo_def lift_err_def Inr Let_def)
qed

lemma processRewardUtxo_tame [steps_intros]:
  "steps (tame (PerformUpdates G)) (processRewardUtxo G L R h t b)"
  unfolding processRewardUtxo_def Let_def by (intro steps_intros)

lemma processRewardUtxos_recorded:
  assumes "\<not> PerformUpdates G"
  shows "valid honest (processRewardUtxos G L R h us t)
    (\<lambda>_ w. honest w \<and> (\<forall>b \<in> set us. utxo_recorded L R b (store w)))"
proof -
  let ?Q = "\<lambda>w. honest w \<and> (\<forall>b \<in> set us. utxo_recorded L R b (store w))"
  have noop: "valid A (exec (\<lambda>d. (None, d))) (\<lambda>_. A)"
    if "\<And>w n. A w = A (w\<lparr>stmts := n\<rparr>)" for A :: "database world \<Rightarrow> bool"
    unfolding valid_def exec_def Let_def using that by (auto split: option.splits)
  have keep: "valid (\<lambda>w. honest w \<and> utxo_recorded L R y (store w)) (processRewardUtxo G L R h t x)
      (\<lambda>_ w. honest w \<and> utxo_recorded L R y (store w))" for x y
    by (rule valid_tame [OF processRewardUtxo_tame utxo_recorded_mono assms])
  have loop: "valid honest (each (processRewardUtxo G L R h t) us) (\<lambda>_. ?Q)"
    by (rule valid_conseq [OF valid_each [where P = honest and
          A = "\<lambda>b w. honest w \<and> utxo_recorded L R b (store w)"]])
       (auto intro: valid_conseq [OF processRewardUtxo_recorded [OF assms]] keep)
  show ?thesis
    unfolding processRewardUtxos_def
    by (rule valid_andThen [OF noop valid_andThen [OF loop noop]]) simp_all
qed

section \<open>The table of rewards\<close>

text \<open>A reward may be marked: the block that decides it is an abort, or its outputs are recorded.\<close>

definition settled :: "nodelib \<Rightarrow> rewardlib \<Rightarrow> RewardTx \<Rightarrow> database \<Rightarrow> bool" where
  "settled L R tx d \<longleftrightarrow> rt_Type tx = BlockTypeAbort \<or>
     (\<exists>i us. ids_FromString R (rt_Txid tx) = Inr i \<and> GetRewardUTXOs R i = Inr us \<and> us \<noteq> [] \<and>
        (\<forall>b \<in> set us. utxo_recorded L R b d))"

lemma settled_mono: "settled L R tx d \<Longrightarrow> grows d d' \<Longrightarrow> settled L R tx d'"
  unfolding settled_def by (blast intro: utxo_recorded_mono)

definition marked :: "string \<Rightarrow> database \<Rightarrow> bool" where
  "marked i d = list_ex (\<lambda>r. rw_ID r = i \<and> rw_Processed r \<noteq> 0) (rewards d)"

lemma mark_marked:
  "marked i (store (snd (markRewardProcessed j w))) \<Longrightarrow> marked i (store w) \<or> i = j"
  by (auto simp: marked_def markRewardProcessed_def UpdateRewardsProcessed_def ignore_dup_def
      sql_update_def exec_def Let_def upd_rows_def list_ex_iff
      split: option.splits if_splits)

text \<open>One reward, whatever the outcome.\<close>

lemma processReward_marks:
  assumes "\<not> PerformUpdates G" and "honest w"
    and "marked i (store (snd (processReward G L R h tx w)))"
  shows "marked i (store w) \<or> (i = rt_ID tx \<and> settled L R tx (store (snd (processReward G L R h tx w))))"
proof (cases "rt_Type tx = BlockTypeAbort")
  case True
  with assms(3) mark_marked show ?thesis by (auto simp: processReward_def settled_def)
next
  case False
  show ?thesis
  proof (cases "\<exists>k us. ids_FromString R (rt_Txid tx) = Inr k \<and> GetRewardUTXOs R k = Inr us \<and> us \<noteq> []")
    case nope: False
    with False have "snd (processReward G L R h tx w) = w"
      by (auto simp: processReward_def lift_err_def bind_def fail_def ret_def split: sum.splits)
    with assms(3) show ?thesis by simp
  next
    case True
    then obtain k us where us: "ids_FromString R (rt_Txid tx) = Inr k" "GetRewardUTXOs R k = Inr us" "us \<noteq> []"
      by blast
    let ?m = "processRewardUtxos G L R h us (rt_CreatedAt tx)"
    have run: "processReward G L R h tx w = andThen ?m (markRewardProcessed (rt_ID tx)) w"
      using False us by (simp add: processReward_def lift_err_def)
    obtain r w1 where m: "?m w = (r, w1)" by (cases "?m w")
    have same: "rewards (store w1) = rewards (store w)"
      using stepsD [OF processRewardUtxos_same_rewards, of w G L R h us "rt_CreatedAt tx"] m
      by (simp add: on_store_def same_rewards_def)
    show ?thesis
    proof (cases r)
      case (Inl e)
      with m run assms(3) same show ?thesis by (simp add: andThen_def bind_def marked_def)
    next
      case (Inr u)
      have end': "processReward G L R h tx w = markRewardProcessed (rt_ID tx) w1"
        using m run Inr by (simp add: andThen_def bind_def)
      have "settled L R tx (store w1)"
        using validD [OF processRewardUtxos_recorded [OF assms(1)]] m Inr assms(2) us
        unfolding settled_def by blast
      moreover have "grows (store w1) (store (snd (markRewardProcessed (rt_ID tx) w1)))"
        using stepsD [OF markRewardProcessed_tame [of False], of w1 "rt_ID tx"] by (simp add: tame_def)
      ultimately have "settled L R tx (store (snd (processReward G L R h tx w)))"
        using settled_mono by (simp add: end')
      with mark_marked [of i "rt_ID tx" w1] assms(3) same show ?thesis
        by (auto simp: end' marked_def)
    qed
  qed
qed

lemma processReward_after:
  assumes "\<not> PerformUpdates G" and "honest w"
  shows "honest (snd (processReward G L R h tx w))"
    and "grows (store w) (store (snd (processReward G L R h tx w)))"
  using stepsD [OF processReward_tame [of G L R h tx], of w] assms honest_same_env by (auto simp: tame_def)

lemma each_processReward_marks:
  assumes "\<not> PerformUpdates G" and "honest w"
    and "marked i (store (snd (each (processReward G L R h) txs w)))"
  shows "marked i (store w) \<or>
    (\<exists>tx \<in> set txs. rt_ID tx = i \<and> settled L R tx (store (snd (each (processReward G L R h) txs w))))"
  using assms(2,3)
proof (induction txs arbitrary: w)
  case Nil
  then show ?case by (simp add: ret_def)
next
  case (Cons tx txs)
  obtain r w1 where one: "processReward G L R h tx w = (r, w1)" by (cases "processReward G L R h tx w")
  have w1: "honest w1" using processReward_after(1) [OF assms(1) Cons.prems(1), of L R h tx] one by simp
  show ?case
  proof (cases r)
    case (Inl e)
    then have "each (processReward G L R h) (tx # txs) w = (Inl e, w1)"
      by (simp add: andThen_def bind_def one)
    with processReward_marks [OF assms(1) Cons.prems(1), of i L R h tx] Cons.prems(2) one
    show ?thesis by auto
  next
    case (Inr u)
    then have rest: "each (processReward G L R h) (tx # txs) w = each (processReward G L R h) txs w1"
      by (simp add: andThen_def bind_def one)
    have grow: "grows (store w1) (store (snd (each (processReward G L R h) txs w1)))"
    proof -
      have "steps (tame (PerformUpdates G)) (each (processReward G L R h) txs)" by (intro steps_intros)
      from stepsD [OF this, of w1] assms(1) show ?thesis by (simp add: tame_def)
    qed
    from Cons.IH [OF w1] Cons.prems(2) rest
    consider "marked i (store w1)"
      | tx' where "tx' \<in> set txs" "rt_ID tx' = i" "settled L R tx' (store (snd (each (processReward G L R h) txs w1)))"
      by auto
    then show ?thesis
    proof cases
      case 1
      with processReward_marks [OF assms(1) Cons.prems(1), of i L R h tx] one settled_mono [OF _ grow]
      show ?thesis unfolding rest by auto
    next
      case (2 tx')
      then show ?thesis unfolding rest by auto
    qed
  qed
qed

section \<open>Properties\<close>

text \<open>C22: A reward is marked as processed only when it is settled.  Whatever \<^verbatim>\<open>processRewards\<close>
  returns, each reward that it marked belongs to one of the transactions it selected, and either the
  deciding block is an abort block, or the node gave outputs for the reward and every one of them is
  recorded.\<close>

theorem processRewards_marks_settled:
  assumes "\<not> PerformUpdates G" and "honest w" and "processRewards G L R h w = (r, w')"
    and "marked i (store w')" and "\<not> marked i (store w)"
  shows "\<exists>tx \<in> set (selectRewards (clock w (ticks w)) (store w)). rt_ID tx = i \<and> settled L R tx (store w')"
proof -
  let ?w = "w\<lparr>ticks := Suc (ticks w), stmts := Suc (stmts w)\<rparr>"
  let ?txs = "selectRewards (clock w (ticks w)) (store w)"
  have "snd (processRewards G L R h w) = ?w \<or>
      snd (processRewards G L R h w) = snd (each (processReward G L R h) ?txs ?w)"
    by (auto simp: processRewards_def bind_def time_now_def query_def ret_def Let_def split: option.splits)
  moreover have "honest ?w" using assms(2) by (simp add: honest_def)
  ultimately show ?thesis
    using each_processReward_marks [OF assms(1), of ?w i L R h ?txs] assms(3-5) by auto
qed

definition reward_nodelib :: nodelib where
  "reward_nodelib = \<lparr>ComputeHash256Array = (\<lambda>b. b), ID_String = (\<lambda>b. b), ID_Prefix = (\<lambda>b n. b @ ''.''),
     ShortID_String = (\<lambda>b. b), RecoverPublicKey = (\<lambda>h s. Inr s),
     PublicKey_Address = (\<lambda>b. b), PublicKey_Bytes = (\<lambda>b. b), FormatBech32 = (\<lambda>h b. Inr (h @ b)),
     Add64 = (\<lambda>a b. Inr (a + b)), Propagate = (\<lambda>e s. e)\<rparr>"

definition reward_lib :: rewardlib where
  "reward_lib = \<lparr>ids_FromString = (\<lambda>s. Inr s),
     GetRewardUTXOs = (\<lambda>i. if i = ''none'' then Inr [] else Inr [''good'', i]),
     Codec_Unmarshal = (\<lambda>b. if b = ''bad'' then Inl ''cannot decode''
       else Inr \<lparr>utxo_TxID = b, utxo_OutputIndex = 1, utxo_AssetID = ''DJTX'', utxo_Out = SecpTransferOutput
              \<lparr>to_Amt = 5, to_Owners = \<lparr>oo_Locktime = 0, oo_Threshold = 1, oo_Addrs = [''bob'']\<rparr>\<rparr>\<rparr>)\<rparr>"

definition reward_row :: "string \<Rightarrow> Rewards" where
  "reward_row txid = \<lparr>rw_ID = ''r'' @ txid, rw_BlockID = ''b'', rw_Txid = txid, rw_Shouldprefercommit = True,
     rw_CreatedAt = 0, rw_Processed = 0\<rparr>"

definition reward_db :: "string list \<Rightarrow> database" where
  "reward_db txids = empty_db\<lparr>rewards := map reward_row txids,
     pvm_blocks := [\<lparr>pb_ID = ''c'', pb_ChainID = ''P'', pb_Type = BlockTypeCommit, pb_ParentID = ''b'',
       pb_Serialization = [], pb_CreatedAt = 0, pb_Height = 2, pb_Proposer = [], pb_ProposerTime = None\<rparr>]\<rparr>"

definition reward_world :: "string list \<Rightarrow> database world" where
  "reward_world txids = \<lparr>store = reward_db txids, faults = (\<lambda>_. None), stmts = 0,
     clock = (\<lambda>_. 5000000000), ticks = 0\<rparr>"

definition reward_run :: "string list \<Rightarrow> (goerr + unit) \<times> database world" where
  "reward_run txids = processRewards example_globals reward_nodelib reward_lib
     (rewards_setup reward_nodelib ''DJTX'') (reward_world txids)"

lemma reward_world_calm: "calm (reward_world txids)"
  by (simp add: calm_def reward_world_def)

theorem processRewards_marks_settled_witness:
  "\<exists>tx. rt_ID tx = ''rt1'' \<and> settled reward_nodelib reward_lib tx (store (snd (reward_run [''t1''])))"
proof -
  have "marked ''rt1'' (store (snd (reward_run [''t1''])))" by code_simp
  moreover have "\<not> marked ''rt1'' (store (reward_world [''t1'']))" by code_simp
  ultimately show ?thesis
    using processRewards_marks_settled [of example_globals "reward_world [''t1'']" reward_nodelib reward_lib
        "rewards_setup reward_nodelib ''DJTX''" "fst (reward_run [''t1''])" "snd (reward_run [''t1''])" "''rt1''"]
      calm_honest [OF reward_world_calm]
    by (auto simp: example_globals_def reward_run_def)
qed

text \<open>The transaction around the outputs of a reward protects nothing: they are written through
  the session.  Once \<^verbatim>\<open>Begin\<close> has succeeded, the call leaves the database exactly as the loop over
  the outputs left it, also when it returns an error.\<close>

theorem processRewardUtxos_outside_tx:
  assumes "faults w (stmts w) = None"
  shows "store (snd (processRewardUtxos G L R h us t w)) =
     store (snd (each (processRewardUtxo G L R h t) us (w\<lparr>stmts := Suc (stmts w)\<rparr>)))"
  using assms
  by (auto simp: processRewardUtxos_def andThen_def bind_def exec_def Let_def
      split: prod.splits sum.splits option.splits)

text \<open>The second output of this reward cannot be decoded; the first one is stored nevertheless.\<close>

theorem processRewardUtxos_outside_tx_witness:
  "let m = processRewardUtxos example_globals reward_nodelib reward_lib (rewards_setup reward_nodelib ''DJTX'')
             [''good'', ''bad''] 0 (reward_world []) in
   fst m = Inl ''cannot decode'' \<and> length (avm_outputs (store (snd m))) = 1"
proof -
  let ?h = "rewards_setup reward_nodelib ''DJTX''"
  have "store (snd (processRewardUtxos example_globals reward_nodelib reward_lib ?h [''good'', ''bad''] 0 (reward_world [])))
     = store (snd (each (processRewardUtxo example_globals reward_nodelib reward_lib ?h 0) [''good'', ''bad'']
         (reward_world []\<lparr>stmts := Suc (stmts (reward_world []))\<rparr>)))"
    by (rule processRewardUtxos_outside_tx) (simp add: reward_world_def)
  moreover have "length (avm_outputs (store (snd (each (processRewardUtxo example_globals reward_nodelib reward_lib ?h 0)
      [''good'', ''bad''] (reward_world []\<lparr>stmts := Suc (stmts (reward_world []))\<rparr>))))) = 1"
    by code_simp
  moreover have "fst (processRewardUtxos example_globals reward_nodelib reward_lib ?h [''good'', ''bad''] 0 (reward_world []))
     = Inl ''cannot decode''" by code_simp
  ultimately show ?thesis by (simp only: Let_def)
qed

text \<open>One reward without outputs blocks all that follow.  When the node has no outputs for the
  first reward of the list, \<^verbatim>\<open>processRewards\<close> returns an error at once and changes nothing, so the
  same reward comes first again the next time.\<close>

theorem processRewards_blocked:
  assumes "selectRewards (clock w (ticks w)) (store w) = tx # rest" and "rt_Type tx \<noteq> BlockTypeAbort"
    and "ids_FromString R (rt_Txid tx) = Inr i" and "GetRewardUTXOs R i = Inr []"
  shows "(\<exists>e. fst (processRewards G L R h w) = Inl e) \<and> store (snd (processRewards G L R h w)) = store w"
  using assms
  by (auto simp: processRewards_def processReward_def lift_err_def bind_def andThen_def time_now_def query_def
      ret_def fail_def Let_def split: option.splits)

theorem processRewards_blocked_witness:
  "(\<exists>e. fst (reward_run [''none'', ''t1'']) = Inl e) \<and>
   store (snd (reward_run [''none'', ''t1''])) = reward_db [''none'', ''t1'']"
proof -
  let ?w = "reward_world [''none'', ''t1'']"
  let ?txs = "selectRewards (clock ?w (ticks ?w)) (store ?w)"
  have "map rt_Txid ?txs = [''none'', ''t1'']" by code_simp
  then have txs: "?txs = hd ?txs # tl ?txs" "rt_Txid (hd ?txs) = ''none''" by (auto simp: map_eq_Cons_conv)
  have "rt_Type (hd ?txs) \<noteq> BlockTypeAbort" by code_simp
  from processRewards_blocked [OF txs(1) this, of reward_lib "''none''" example_globals reward_nodelib] txs(2)
  show ?thesis by (simp add: reward_run_def reward_lib_def reward_world_def)
qed

end
