(* ===== verification/Avm_Writer.thy ===== *)
theory Avm_Writer
  imports Djtx_Writer
begin

text \<open>
  \<^verbatim>\<open>src/services/indexes/avm/writer.go\<close>: the X-chain indexer.  \<open>Avm_Consume\<close> parses one
  transaction and indexes it within one database transaction; \<open>Avm_ConsumeConsensus\<close> records
  the epoch of the transactions of a vertex; \<open>Avm_Bootstrap\<close> indexes the assets of the genesis.

  Parsing (the X-chain codec, the vertex codec, the genesis configuration) belongs to the
  node; \<open>avmlib\<close> holds those functions, and the data types below are the parts of their
  results that the writer reads.

  Shown here: what is recorded by the indexing of an asset-creating and of an operation
  transaction (their outputs continue the numbering of the base transaction's outputs), the
  supply that an asset's row carries, and what \<open>Avm_Consume\<close> leaves behind.
\<close>

section \<open>Data\<close>

record InitialState =
  is_Outs :: "verify_State list"

record CreateAssetTx =
  ca_BaseTx :: BaseTx
  ca_Name :: string
  ca_Symbol :: string
  ca_Denomination :: u8
  ca_States :: "InitialState list"

record Operation =
  op_AssetID :: bytes
  op_UTXOIDs :: "(bytes \<times> u32) list"
  op_Outs :: "verify_State list"

datatype avm_UnsignedTx =
    AvmCreateAssetTx CreateAssetTx
  | AvmOperationTx BaseTx "Operation list"
  | AvmImportTx BaseTx "TransferableInput list" bytes
  | AvmExportTx BaseTx "TransferableOutput list" bytes
  | AvmBaseTx BaseTx
  | AvmUnknownTx string

record FxCredential =
  fc_Verifiable :: Verifiable

record avm_Tx =
  at_ID :: bytes
  at_UnsignedBytes :: bytes
  at_Unsigned :: avm_UnsignedTx
  at_Creds :: "FxCredential list"

record GenesisAsset =
  ga_Alias :: string
  ga_CreateAssetTx :: CreateAssetTx

datatype chain_UnsignedTx = GenesisCreateChainTx bytes bytes | GenesisOtherTx

record avm_PlatformGenesis =
  apg_Timestamp :: u64
  apg_Chains :: "chain_UnsignedTx list"

record StatelessVertex =
  vx_Txs :: "bytes list"
  vx_Epoch :: u32
  vx_ID :: bytes

record avmlib =
  avm_GenesisFromConfig :: "u32 \<Rightarrow> goerr + bytes"
  avm_GenesisParse :: "bytes \<Rightarrow> goerr + avm_PlatformGenesis"
  avm_AVMID :: bytes
  avm_GenesisUnmarshal :: "bytes \<Rightarrow> goerr + GenesisAsset list"
  avm_InitializeGenesisTx :: "CreateAssetTx \<Rightarrow> goerr + bytes \<times> bytes \<times> bytes"
  avm_ParseGenesis :: "bytes \<Rightarrow> goerr + avm_Tx"
  vertex_Parse :: "bytes \<Rightarrow> goerr + StatelessVertex"

record avmWriter =
  aw_chainID :: string
  aw_networkID :: u32
  aw_djtx :: djtxWriter

section \<open>Operations\<close>

definition getVerifiables :: "FxCredential list \<Rightarrow> Verifiable list" where
  "getVerifiables creds = map fc_Verifiable creds"

text \<open>The first pass over the outputs of the base transaction, for their number.\<close>

definition count_outs ::
  "globals \<Rightarrow> nodelib \<Rightarrow> avmWriter \<Rightarrow> ConsumerCtx \<Rightarrow> bytes \<Rightarrow> TransferableOutput list \<Rightarrow> u32
     \<Rightarrow> (database, u32) go" where
  "count_outs G L w ctx txID =
     loop (\<lambda>out outputCount.
       bind (InsertTransactionOuts G L (aw_djtx w) outputCount ctx 0 out txID (aw_chainID w) False False)
         (\<lambda>_. ret (outputCount + 1)))"

text \<open>The loop over the outputs of one state or one operation; it assigns the number of
  outputs, the amount and the total.\<close>

definition state_out_step ::
  "globals \<Rightarrow> nodelib \<Rightarrow> avmWriter \<Rightarrow> ConsumerCtx \<Rightarrow> bytes \<Rightarrow> bytes \<times> verify_State
     \<Rightarrow> u32 \<times> u64 \<times> u64 \<Rightarrow> (database, u32 \<times> u64 \<times> u64) go" where
  "state_out_step G L w ctx txID = (\<lambda>(assetID, out) (outputCount, amount, totalout).
     bind (ProcessStateOut G L (aw_djtx w) ctx out txID outputCount assetID amount totalout
             (aw_chainID w) False False)
       (\<lambda>(amount, totalout). ret (outputCount + 1, amount, totalout)))"

definition states_outs ::
  "globals \<Rightarrow> nodelib \<Rightarrow> avmWriter \<Rightarrow> ConsumerCtx \<Rightarrow> bytes \<Rightarrow> bytes \<Rightarrow> verify_State list
     \<Rightarrow> u32 \<times> u64 \<times> u64 \<Rightarrow> (database, u32 \<times> u64 \<times> u64) go" where
  "states_outs G L w ctx txID assetID =
     loop (\<lambda>out. state_out_step G L w ctx txID (assetID, out))"

definition insertCreateAssetTx ::
  "globals \<Rightarrow> nodelib \<Rightarrow> avmWriter \<Rightarrow> ConsumerCtx \<Rightarrow> bytes \<Rightarrow> bytes \<Rightarrow> bytes \<Rightarrow> CreateAssetTx
     \<Rightarrow> Verifiable list \<Rightarrow> string \<Rightarrow> bool \<Rightarrow> (database, unit) go" where
  "insertCreateAssetTx G L w ctx txBytes txID unsignedBytes tx creds alias genesis =
     bind (count_outs G L w ctx txID (bt_Outs (ca_BaseTx tx)) 0) (\<lambda>outputCount.
     bind (loop (\<lambda>state. states_outs G L w ctx txID txID (is_Outs state)) (ca_States tx)
             (outputCount, 0, 0)) (\<lambda>(_, amount, totalout).
     andThen (InsertAssets
         \<lparr>ast_ID = ID_String L txID, ast_ChainID = aw_chainID w, ast_Name = ca_Name tx,
          ast_Symbol = ca_Symbol tx, ast_Denomination = ca_Denomination tx, ast_Alias = alias,
          ast_CurrentSupply = amount, ast_CreatedAt = ctx_Time ctx\<rparr> (PerformUpdates G))
       (InsertTransaction G L (aw_djtx w) ctx txBytes txID unsignedBytes (ca_BaseTx tx) creds
          TransactionTypeCreateAsset None None totalout genesis)))"

definition op_ins :: "Operation \<Rightarrow> TransferableInput list" where
  "op_ins txOps =
     map (\<lambda>(txid, idx). \<lparr>ti_TxID = txid, ti_OutputIndex = idx, ti_AssetID = op_AssetID txOps,
                          ti_Amount = 0\<rparr>) (op_UTXOIDs txOps)"

definition insertOperationTx ::
  "globals \<Rightarrow> nodelib \<Rightarrow> avmWriter \<Rightarrow> ConsumerCtx \<Rightarrow> bytes \<Rightarrow> bytes \<Rightarrow> bytes \<Rightarrow> BaseTx
     \<Rightarrow> Operation list \<Rightarrow> Verifiable list \<Rightarrow> bool \<Rightarrow> (database, unit) go" where
  "insertOperationTx G L w ctx txBytes txID unsignedBytes baseTx ops creds genesis =
     bind (count_outs G L w ctx txID (bt_Outs baseTx) 0) (\<lambda>outputCount.
     bind (loop (\<lambda>txOps (addIns, s).
             bind (states_outs G L w ctx txID (op_AssetID txOps) (op_Outs txOps) s)
               (\<lambda>s. ret (addIns @ op_ins txOps, s)))
             ops ([], outputCount, 0, 0)) (\<lambda>(addIns, _, amount, totalout).
     InsertTransaction G L (aw_djtx w) ctx txBytes txID unsignedBytes baseTx creds
       TransactionTypeOperation (Some \<lparr>ai_Ins = addIns, ai_ChainID = aw_chainID w\<rparr>) None totalout
       genesis))"

definition insertTxInternal ::
  "globals \<Rightarrow> nodelib \<Rightarrow> avmWriter \<Rightarrow> ConsumerCtx \<Rightarrow> avm_Tx \<Rightarrow> bytes \<Rightarrow> (database, unit) go" where
  "insertTxInternal G L w ctx tx txBytes =
     (let verifiables = getVerifiables (at_Creds tx); txID = at_ID tx; ub = at_UnsignedBytes tx in
      case at_Unsigned tx of
        AvmCreateAssetTx castTx \<Rightarrow>
          insertCreateAssetTx G L w ctx txBytes txID ub castTx verifiables [] False
      | AvmOperationTx baseTx ops \<Rightarrow>
          insertOperationTx G L w ctx txBytes txID ub baseTx ops verifiables False
      | AvmImportTx baseTx importedIns sourceChain \<Rightarrow>
          InsertTransaction G L (aw_djtx w) ctx txBytes txID ub baseTx verifiables
            TransactionTypeAVMImport
            (Some \<lparr>ai_Ins = importedIns, ai_ChainID = ID_String L sourceChain\<rparr>) None 0 False
      | AvmExportTx baseTx exportedOuts destinationChain \<Rightarrow>
          InsertTransaction G L (aw_djtx w) ctx txBytes txID ub baseTx verifiables
            TransactionTypeAVMExport None
            (Some \<lparr>ao_Outs = exportedOuts, ao_Stake = False,
                   ao_ChainID = ID_String L destinationChain\<rparr>) 0 False
      | AvmBaseTx baseTx \<Rightarrow>
          InsertTransaction G L (aw_djtx w) ctx txBytes txID ub baseTx verifiables
            TransactionTypeBase None None 0 False
      | AvmUnknownTx name \<Rightarrow> fail (''unknown tx type '' @ name))"

definition insertTx ::
  "globals \<Rightarrow> nodelib \<Rightarrow> avmlib \<Rightarrow> avmWriter \<Rightarrow> ConsumerCtx \<Rightarrow> bytes \<Rightarrow> (database, unit) go" where
  "insertTx G L A w ctx txBytes =
     bind (lift_err (avm_ParseGenesis A txBytes)) (\<lambda>tx. insertTxInternal G L w ctx tx txBytes)"

definition Avm_Consume ::
  "globals \<Rightarrow> nodelib \<Rightarrow> avmlib \<Rightarrow> avmWriter \<Rightarrow> Consumable \<Rightarrow> (database, unit) go" where
  "Avm_Consume G L A w i =
     with_tx (insertTx G L A w
       (NewConsumerContext (cs_Timestamp i) (cs_Nanosecond i) (cs_ChainID i)) (cs_Body i))"

definition Avm_ConsumeConsensus ::
  "globals \<Rightarrow> nodelib \<Rightarrow> avmlib \<Rightarrow> Consumable \<Rightarrow> (database, unit) go" where
  "Avm_ConsumeConsensus G L A c =
     bind (lift_err (vertex_Parse A (cs_Body c))) (\<lambda>vert.
     let cCtx = NewConsumerContext (cs_Timestamp c) (cs_Nanosecond c) (cs_ChainID c) in
     with_tx (each (\<lambda>tx.
       InsertTransactionsEpoch
         \<lparr>ep_ID = ID_String L (ComputeHash256Array L tx), ep_Epoch = vx_Epoch vert,
          ep_VertexID = ID_String L (vx_ID vert), ep_CreatedAt = ctx_Time cCtx\<rparr>
         (PerformUpdates G)) (vx_Txs vert)))"

definition Avm_insertGenesis ::
  "globals \<Rightarrow> nodelib \<Rightarrow> avmlib \<Rightarrow> avmWriter \<Rightarrow> ConsumerCtx \<Rightarrow> bytes \<Rightarrow> (database, unit) go" where
  "Avm_insertGenesis G L A w ctx genesisBytes =
     bind (propagate L ''Failed to parse avm genesis bytes''
             (lift_err (avm_GenesisUnmarshal A genesisBytes))) (\<lambda>assets.
     bind (loop (\<lambda>genesisAsset i.
       bind (lift_err (avm_InitializeGenesisTx A (ga_CreateAssetTx genesisAsset)))
         (\<lambda>(txBytes, txID, unsignedBytes).
       andThen (propagate L (''Failed to index avm genesis tx '' @ dec_nat i)
           (insertCreateAssetTx G L w ctx txBytes txID unsignedBytes (ga_CreateAssetTx genesisAsset)
              [] (ga_Alias genesisAsset) True))
         (ret (i + 1)))) assets 0) (\<lambda>_. ret ()))"

definition ErrIncorrectGenesisChainTxType :: goerr where
  "ErrIncorrectGenesisChainTxType = ''incorrect genesis chain tx type''"

definition Avm_Bootstrap ::
  "globals \<Rightarrow> nodelib \<Rightarrow> avmlib \<Rightarrow> avmWriter \<Rightarrow> (database, unit) go" where
  "Avm_Bootstrap G L A w =
     bind (propagate L ''Failed to get platform genesis bytes''
             (lift_err (avm_GenesisFromConfig A (aw_networkID w)))) (\<lambda>platformGenesisBytes.
     bind (propagate L ''Failed to initialize platform genesis''
             (lift_err (avm_GenesisParse A platformGenesisBytes))) (\<lambda>platformGenesis.
     each (\<lambda>chain. case chain of
         GenesisOtherTx \<Rightarrow> fail (Propagate L ErrIncorrectGenesisChainTxType
             ''Platform genesis contains invalid Chains'')
       | GenesisCreateChainTx vmid genesisData \<Rightarrow>
           if vmid \<noteq> avm_AVMID A then ret ()
           else Avm_insertGenesis G L A w
                  (NewConsumerContext (sint (apg_Timestamp platformGenesis)) 0 (aw_chainID w))
                  genesisData)
       (apg_Chains platformGenesis)))"

section \<open>Keys, ledger, environment\<close>

lemma count_outs_tame [steps_intros]:
  "steps (tame (PerformUpdates G)) (count_outs G L w ctx txID outs n)"
  unfolding count_outs_def by (intro steps_intros)

lemma state_out_step_tame [steps_intros]:
  "steps (tame (PerformUpdates G)) (state_out_step G L w ctx txID out s)"
  unfolding state_out_step_def by (cases out; cases s) (auto intro!: steps_intros)

lemma insertCreateAssetTx_tame [steps_intros]:
  "steps (tame (PerformUpdates G))
     (insertCreateAssetTx G L w ctx txBytes txID unsignedBytes tx creds alias genesis)"
  unfolding insertCreateAssetTx_def states_outs_def by (intro steps_intros)

lemma insertOperationTx_tame [steps_intros]:
  "steps (tame (PerformUpdates G))
     (insertOperationTx G L w ctx txBytes txID unsignedBytes baseTx ops creds genesis)"
  unfolding insertOperationTx_def states_outs_def by (intro steps_intros)

lemma insertTx_tame [steps_intros]:
  "steps (tame (PerformUpdates G)) (insertTx G L A w ctx txBytes)"
  unfolding insertTx_def insertTxInternal_def Let_def
  by (auto intro!: steps_intros split: avm_UnsignedTx.split)

lemma Avm_Consume_tame [steps_intros]: "steps (tame (PerformUpdates G)) (Avm_Consume G L A w i)"
  unfolding Avm_Consume_def by (intro steps_intros)

lemma Avm_ConsumeConsensus_tame [steps_intros]:
  "steps (tame (PerformUpdates G)) (Avm_ConsumeConsensus G L A c)"
  unfolding Avm_ConsumeConsensus_def Let_def by (intro steps_intros)

lemma Avm_Bootstrap_tame [steps_intros]: "steps (tame (PerformUpdates G)) (Avm_Bootstrap G L A w)"
  unfolding Avm_Bootstrap_def Avm_insertGenesis_def
  by (auto intro!: steps_intros split: chain_UnsignedTx.split)

section \<open>Outputs of states and operations\<close>

definition state_outs :: "bytes \<Rightarrow> CreateAssetTx \<Rightarrow> (bytes \<times> verify_State) list" where
  "state_outs txID tx = map (Pair txID) (concat (map is_Outs (ca_States tx)))"

definition ops_outs :: "Operation list \<Rightarrow> (bytes \<times> verify_State) list" where
  "ops_outs ops = concat (map (\<lambda>txOps. map (Pair (op_AssetID txOps)) (op_Outs txOps)) ops)"

lemma loop_map: "loop f (map g xs) s = loop (\<lambda>x. f (g x)) xs s"
proof (induction xs arbitrary: s)
  case (Cons x xs)
  then have "loop f (map g xs) = loop (\<lambda>x. f (g x)) xs" by (simp add: fun_eq_iff)
  then show ?case by simp
qed simp

lemma loop_nested: "loop (\<lambda>x. loop f (g x)) xs s = loop f (concat (map g xs)) s"
proof (induction xs arbitrary: s)
  case (Cons x xs)
  then have "loop (\<lambda>x. loop f (g x)) xs = loop f (concat (map g xs))" by (simp add: fun_eq_iff)
  then show ?case by (simp add: loop_append)
qed simp

lemma states_flat:
  "loop (\<lambda>state. states_outs G L w ctx txID txID (is_Outs state)) (ca_States tx) s
     = loop (state_out_step G L w ctx txID) (state_outs txID tx) s"
  by (simp add: states_outs_def state_outs_def loop_nested loop_map)

lemma ops_flat:
  "loop (\<lambda>txOps (addIns, s).
       bind (states_outs G L w ctx txID (op_AssetID txOps) (op_Outs txOps) s)
         (\<lambda>s. ret (addIns @ op_ins txOps, s))) ops (addIns, s)
     = bind (loop (state_out_step G L w ctx txID) (ops_outs ops) s)
         (\<lambda>s. ret (addIns @ concat (map op_ins ops), s))"
proof (induction ops arbitrary: addIns s)
  case (Cons txOps ops)
  then show ?case by (simp add: states_outs_def ops_outs_def loop_append loop_map bind_assoc)
qed (simp add: ops_outs_def)

lemma count_outs_recorded:
  assumes "\<not> PerformUpdates G"
  shows "valid honest (count_outs G L w ctx txID outs 0)
     (\<lambda>n w. n = of_nat (length outs) \<and> honest w
        \<and> (\<forall>k < length outs. recorded_out L txID (of_nat k) (store w)))"
  unfolding count_outs_def
  using loop_recorded [where ix = "\<lambda>n. n" and n = 0 and s = 0 and xs = outs and L = L and txID = txID,
      OF _ _ assms, of "\<lambda>out n. bind (InsertTransactionOuts G L (aw_djtx w) n ctx 0 out txID
        (aw_chainID w) False False) (\<lambda>_. ret (n + 1))"]
  by (auto simp: add.commute intro!: steps_intros valid_ret
        valid_bind [OF InsertTransactionOuts_recorded [OF assms]])

lemma state_outs_recorded:
  assumes "\<not> PerformUpdates G"
  shows "valid honest (loop (state_out_step G L w ctx txID) outs (of_nat n, a, t))
     (\<lambda>s w. fst s = of_nat (n + length outs) \<and> honest w
        \<and> (\<forall>k < length outs. recorded_out L txID (of_nat (n + k)) (store w)))"
  by (rule loop_recorded [where ix = fst, OF _ _ assms])
     (auto simp: state_out_step_def add.commute intro!: steps_intros valid_ret
        valid_bind [OF ProcessStateOut_recorded [OF assms]])

text \<open>Both passes together: the outputs of the base transaction, then those of the states.\<close>

lemma all_outs_recorded:
  assumes "\<not> PerformUpdates G"
  shows "valid honest
     (bind (count_outs G L w ctx txID outs 0) (\<lambda>n.
        loop (state_out_step G L w ctx txID) souts (n, 0, 0)))
     (\<lambda>s w. honest w
        \<and> (\<forall>k < length outs + length souts. recorded_out L txID (of_nat k) (store w)))"
proof (rule valid_bind [OF count_outs_recorded [OF assms]])
  fix n
  let ?A = "\<lambda>d. \<forall>k < length outs. recorded_out L txID (of_nat k) d"
  let ?f = "state_out_step G L w ctx txID"
  show "valid (\<lambda>w. n = of_nat (length outs) \<and> honest w \<and> ?A (store w)) (loop ?f souts (n, 0, 0))
     (\<lambda>s w. honest w
        \<and> (\<forall>k < length outs + length souts. recorded_out L txID (of_nat k) (store w)))"
  proof (cases "n = of_nat (length outs)")
    case True
    have "steps (tame (PerformUpdates G)) (loop ?f souts (n, 0, 0))" by (intro steps_intros)
    note keep = valid_tame [OF this, where A = ?A]
    show ?thesis
      unfolding True
      by (rule valid_conseq [OF valid_conj [OF state_outs_recorded [OF assms] keep [unfolded True]]])
         (use assms in \<open>auto simp del: of_nat_add intro: recorded_mono
            intro: below_append [where P = "\<lambda>k. recorded_out L txID (of_nat k) (store _)"]\<close>)
  qed (simp add: valid_def)
qed

definition asset_row ::
  "nodelib \<Rightarrow> avmWriter \<Rightarrow> ConsumerCtx \<Rightarrow> bytes \<Rightarrow> CreateAssetTx \<Rightarrow> string \<Rightarrow> u64 \<Rightarrow> Assets" where
  "asset_row L w ctx txID tx alias amount =
     \<lparr>ast_ID = ID_String L txID, ast_ChainID = aw_chainID w, ast_Name = ca_Name tx,
      ast_Symbol = ca_Symbol tx, ast_Denomination = ca_Denomination tx, ast_Alias = alias,
      ast_CurrentSupply = amount, ast_CreatedAt = ctx_Time ctx\<rparr>"

definition two_passes ::
  "globals \<Rightarrow> nodelib \<Rightarrow> avmWriter \<Rightarrow> ConsumerCtx \<Rightarrow> bytes \<Rightarrow> TransferableOutput list
     \<Rightarrow> (bytes \<times> verify_State) list \<Rightarrow> (database, u32 \<times> u64 \<times> u64) go" where
  "two_passes G L w ctx txID outs souts =
     bind (count_outs G L w ctx txID outs 0) (\<lambda>n.
       loop (state_out_step G L w ctx txID) souts (n, 0, 0))"

lemma two_passes_tame [steps_intros]:
  "steps (tame (PerformUpdates G)) (two_passes G L w ctx txID outs souts)"
  unfolding two_passes_def by (intro steps_intros)

lemma insertCreateAssetTx_phases:
  "insertCreateAssetTx G L w ctx txBytes txID unsignedBytes tx creds alias genesis =
     bind (two_passes G L w ctx txID (bt_Outs (ca_BaseTx tx)) (state_outs txID tx)) (\<lambda>s.
     andThen (InsertAssets (asset_row L w ctx txID tx alias (fst (snd s))) (PerformUpdates G))
       (InsertTransaction G L (aw_djtx w) ctx txBytes txID unsignedBytes (ca_BaseTx tx) creds
          TransactionTypeCreateAsset None None (snd (snd s)) genesis))"
  by (simp add: insertCreateAssetTx_def two_passes_def states_flat bind_assoc asset_row_def
      case_prod_unfold)

lemma insertOperationTx_phases:
  "insertOperationTx G L w ctx txBytes txID unsignedBytes baseTx ops creds genesis =
     bind (two_passes G L w ctx txID (bt_Outs baseTx) (ops_outs ops)) (\<lambda>s.
     InsertTransaction G L (aw_djtx w) ctx txBytes txID unsignedBytes baseTx creds
       TransactionTypeOperation
       (Some \<lparr>ai_Ins = concat (map op_ins ops), ai_ChainID = aw_chainID w\<rparr>) None (snd (snd s)) genesis)"
  unfolding insertOperationTx_def ops_flat two_passes_def by (simp add: bind_assoc case_prod_unfold)

definition recorded_upto :: "nodelib \<Rightarrow> bytes \<Rightarrow> nat \<Rightarrow> database \<Rightarrow> bool" where
  "recorded_upto L txID n d \<longleftrightarrow> list_all (\<lambda>k. recorded_out L txID (of_nat k) d) [0..<n]"

lemma recorded_upto_iff: "recorded_upto L txID n d \<longleftrightarrow> (\<forall>k < n. recorded_out L txID (of_nat k) d)"
  by (auto simp: recorded_upto_def list_all_iff)

lemma recorded_upto_mono: "recorded_upto L txID n d \<Longrightarrow> grows d d' \<Longrightarrow> recorded_upto L txID n d'"
  by (auto simp: recorded_upto_iff intro: recorded_mono)

lemma two_passes_recorded:
  assumes "\<not> PerformUpdates G"
  shows "valid honest (two_passes G L w ctx txID outs souts)
     (\<lambda>s w. honest w \<and> recorded_upto L txID (length outs + length souts) (store w))"
  using all_outs_recorded [OF assms] by (simp add: two_passes_def recorded_upto_iff)

text \<open>After the two passes the transaction itself is written; what was recorded stays.\<close>

lemma then_InsertTransaction:
  assumes "\<not> PerformUpdates G" and "\<And>d d'. A d \<Longrightarrow> grows d d' \<Longrightarrow> A d'"
  shows "valid (\<lambda>w. honest w \<and> A (store w))
     (InsertTransaction G L w ctx txBytes txID unsignedBytes baseTx creds txType addIns addOuts
        addlOutTxfee genesis)
     (\<lambda>_ w. recorded_tx L txID (store w)
        \<and> list_all (\<lambda>inp. recorded_in L inp (store w)) (all_ins baseTx addIns) \<and> A (store w))"
  by (rule valid_conseq [OF valid_conj [OF InsertTransaction_recorded [OF assms(1)]
        valid_tame [OF InsertTransaction_tame, where A = A]]])
     (use assms in \<open>auto simp: recorded_all_def list_all_iff\<close>)

lemma insertCreateAssetTx_recorded:
  assumes "\<not> PerformUpdates G"
  shows "valid honest (insertCreateAssetTx G L w ctx txBytes txID unsignedBytes tx creds alias genesis)
     (\<lambda>_ w'. recorded_tx L txID (store w')
        \<and> list_all (\<lambda>inp. recorded_in L inp (store w')) (bt_Ins (ca_BaseTx tx))
        \<and> recorded_upto L txID
            (length (bt_Outs (ca_BaseTx tx)) + length (state_outs txID tx)) (store w'))"
proof -
  let ?A = "recorded_upto L txID (length (bt_Outs (ca_BaseTx tx)) + length (state_outs txID tx))"
  have asset: "valid (\<lambda>w. honest w \<and> ?A (store w)) (InsertAssets v (PerformUpdates G))
      (\<lambda>_ w. honest w \<and> ?A (store w))" for v
    by (rule valid_tame [OF InsertAssets_tame]) (use assms in \<open>auto intro: recorded_upto_mono\<close>)
  show ?thesis
    using valid_bind [OF two_passes_recorded [OF assms, where outs = "bt_Outs (ca_BaseTx tx)"]
        valid_andThen [OF asset then_InsertTransaction [OF assms, where addIns = None and A = ?A]]]
    unfolding insertCreateAssetTx_phases
    by (fastforce simp: all_ins_def intro: recorded_upto_mono)
qed

lemma insertOperationTx_recorded:
  assumes "\<not> PerformUpdates G"
  shows "valid honest (insertOperationTx G L w ctx txBytes txID unsignedBytes baseTx ops creds genesis)
     (\<lambda>_ w'. recorded_tx L txID (store w')
        \<and> list_all (\<lambda>inp. recorded_in L inp (store w')) (bt_Ins baseTx @ concat (map op_ins ops))
        \<and> recorded_upto L txID (length (bt_Outs baseTx) + length (ops_outs ops)) (store w'))"
proof -
  let ?A = "recorded_upto L txID (length (bt_Outs baseTx) + length (ops_outs ops))"
  let ?i = "Some \<lparr>ai_Ins = concat (map op_ins ops), ai_ChainID = aw_chainID w\<rparr>"
  show ?thesis
    using valid_bind [OF two_passes_recorded [OF assms, where outs = "bt_Outs baseTx"]
        then_InsertTransaction [OF assms, where addIns = ?i and A = ?A and baseTx = baseTx]]
    unfolding insertOperationTx_phases
    by (fastforce simp: all_ins_def intro: recorded_upto_mono)
qed

section \<open>Supply\<close>

lemma ProcessStateOut_amount:
  assumes "Add64_exact L"
  shows "yields (ProcessStateOut G L w ctx out txID idx assetID amount totalout chainID stake genesisutxo)
     (\<lambda>(a, _). unat a = unat amount + secp_amount out)"
proof -
  have any: "yields m (\<lambda>_. True)" for m :: "(database, u64) go" by (simp add: yields_def)
  show ?thesis
    unfolding ProcessStateOut_def
    by (auto split: verify_State.split sum.split dest: Add64_exactD [OF assms]
        intro!: yields_fail yields_bind [OF any] yields_andThen yields_ret)
qed

lemma state_outs_amount:
  assumes "Add64_exact L"
  shows "yields (loop (state_out_step G L w ctx txID) outs s)
     (\<lambda>s'. unat (fst (snd s')) = unat (fst (snd s)) + sum_list (map (secp_amount \<circ> snd) outs))"
proof (induction outs arbitrary: s)
  case (Cons out outs)
  have "yields (state_out_step G L w ctx txID out s)
      (\<lambda>s'. unat (fst (snd s')) = unat (fst (snd s)) + secp_amount (snd out))"
    unfolding state_out_step_def
    by (cases out; cases s)
       (auto intro!: yields_bind [OF ProcessStateOut_amount [OF assms]] yields_ret)
  then show ?case
    unfolding loop.simps
    by (rule yields_bind) (auto simp: comp_def intro!: yields_mono [OF Cons.IH])
qed (simp add: yields_ret)

lemma two_passes_amount:
  assumes "Add64_exact L"
  shows "yields (two_passes G L w ctx txID outs souts)
     (\<lambda>s. unat (fst (snd s)) = sum_list (map (secp_amount \<circ> snd) souts))"
  unfolding two_passes_def
  by (rule yields_bind [where M = "\<lambda>_. True"])
     (auto simp: yields_def dest: yieldsD [OF state_outs_amount [OF assms]])

lemma two_passes_same_heads: "steps (on_store same_heads) (two_passes G L w ctx txID outs souts)"
proof -
  have "steps (on_store same_heads) (state_out_step G L w ctx txID out s)" for out s
    unfolding state_out_step_def by (cases out; cases s) (auto intro!: steps_intros)
  then show ?thesis
    unfolding two_passes_def count_outs_def InsertTransactionOuts_def by (auto intro!: steps_intros)
qed

definition asset_stored :: "(Assets \<Rightarrow> bool) \<Rightarrow> database \<Rightarrow> bool" where
  "asset_stored P d \<longleftrightarrow> list_ex P (avm_assets d)"

lemma asset_stored_mono: "asset_stored P d \<Longrightarrow> grows d d' \<Longrightarrow> asset_stored P d'"
  by (auto simp: asset_stored_def grows_def prefix_def)

lemma InsertAssets_stores:
  "valid (\<lambda>w. honest w \<and> \<not> asset_stored (\<lambda>r. ast_ID r = ast_ID v) (store w)) (InsertAssets v False)
     (\<lambda>_ w. honest w \<and> asset_stored (\<lambda>r. r = v) (store w))"
  by (cases v)
     (auto simp: valid_def InsertAssets_def Let_def upsert_def ignore_dup_def sql_insert_def exec_def
      andThen_def bind_def ret_def asset_stored_def Assets_clash_def list_ex_iff honest_def
      ErrIsDuplicateEntryError_def split: option.splits if_splits)

lemma insertCreateAssetTx_supply:
  assumes "\<not> PerformUpdates G" and "Add64_exact L"
  shows "valid (\<lambda>w. honest w \<and> \<not> asset_stored (\<lambda>r. ast_ID r = ID_String L txID) (store w))
     (insertCreateAssetTx G L w ctx txBytes txID unsignedBytes tx creds alias genesis)
     (\<lambda>_ w'. asset_stored (\<lambda>r. ast_ID r = ID_String L txID \<and> ast_Alias r = alias
          \<and> unat (ast_CurrentSupply r) = sum_list (map (secp_amount \<circ> snd) (state_outs txID tx)))
        (store w'))"
proof -
  let ?P = "\<lambda>w. honest w \<and> \<not> asset_stored (\<lambda>r. ast_ID r = ID_String L txID) (store w)"
  let ?t = "sum_list (map (secp_amount \<circ> snd) (state_outs txID tx))"
  let ?R = "\<lambda>r. ast_ID r = ID_String L txID \<and> ast_Alias r = alias \<and> unat (ast_CurrentSupply r) = ?t"
  let ?m = "two_passes G L w ctx txID (bt_Outs (ca_BaseTx tx)) (state_outs txID tx)"
  have passes: "valid ?P ?m (\<lambda>s w. ?P w \<and> unat (fst (snd s)) = ?t)"
    by (rule valid_framed [OF two_passes_tame two_passes_same_heads two_passes_amount [OF assms(2)]])
       (simp add: same_heads_def asset_stored_def)
  have asset: "valid (\<lambda>w. ?P w \<and> unat (fst (snd s)) = ?t)
      (InsertAssets (asset_row L w ctx txID tx alias (fst (snd s))) (PerformUpdates G))
      (\<lambda>_ w. honest w \<and> asset_stored ?R (store w))" for s :: "u32 \<times> u64 \<times> u64"
  proof (cases "unat (fst (snd s)) = ?t")
    case True
    have off: "PerformUpdates G = False" using assms(1) by simp
    show ?thesis
      unfolding off
      by (rule valid_conseq [OF InsertAssets_stores])
         (use True in \<open>auto simp: asset_row_def asset_stored_def list_ex_iff intro!: rev_bexI\<close>)
  qed (simp add: valid_def)
  have tx: "valid (\<lambda>w. honest w \<and> asset_stored ?R (store w))
      (InsertTransaction G L (aw_djtx w) ctx txBytes txID unsignedBytes (ca_BaseTx tx) creds
          TransactionTypeCreateAsset None None t genesis)
      (\<lambda>_ w. asset_stored ?R (store w))" for t
    by (rule valid_conseq [OF valid_tame [OF InsertTransaction_tame, where A = "asset_stored ?R"]])
       (use assms in \<open>auto intro: asset_stored_mono\<close>)
  show ?thesis
    unfolding insertCreateAssetTx_phases by (rule valid_bind [OF passes valid_andThen [OF asset tx]])
qed

section \<open>When it succeeds\<close>

definition spend :: "djtxWriter \<Rightarrow> bytes \<times> verify_State \<Rightarrow> nat" where
  "spend w out = amount_out w \<lparr>tout_AssetID = fst out, tout_Out = snd out\<rparr>"

lemma count_outs_runs:
  assumes "\<not> PerformUpdates G" and "lib_total G L"
    and "list_all (\<lambda>out. state_known (tout_Out out)) outs"
  shows "succeeds ready (count_outs G L w ctx txID outs n) (\<lambda>_. ready)"
  unfolding count_outs_def using assms(3)
proof (induction outs arbitrary: n)
  case (Cons out outs)
  have "unat (0::u64) + amount_out (aw_djtx w) out < 2 ^ 64" using amount_out_bound by simp
  then show ?case
    using Cons
    by (auto simp: bind_assoc intro!: succeeds_bind [OF InsertTransactionOuts_runs [OF assms(1,2)]])
qed (simp add: succeeds_ret)

lemma state_out_step_total:
  assumes "Add64_exact L"
  shows "yields (state_out_step G L w ctx txID out s)
     (\<lambda>s'. unat (fst (snd s')) = unat (fst (snd s)) + secp_amount (snd out)
        \<and> unat (snd (snd s')) = unat (snd (snd s)) + spend (aw_djtx w) out)"
proof -
  obtain a o' where out: "out = (a, o')" by (cases out)
  obtain n am t where s: "s = (n, am, t)" by (cases s)
  have "yields (ProcessStateOut G L (aw_djtx w) ctx o' txID n a am t (aw_chainID w) False False)
      (\<lambda>(am', t'). unat am' = unat am + secp_amount o' \<and> unat t' = unat t + spend (aw_djtx w) out)"
    using ProcessStateOut_amount [OF assms]
      ProcessStateOut_yields [OF assms, where out = "\<lparr>tout_AssetID = a, tout_Out = o'\<rparr>"]
    by (fastforce simp: yields_def spend_def out)
  then show ?thesis
    unfolding state_out_step_def out s prod.case by (rule yields_bind) (auto intro: yields_ret)
qed

lemma state_outs_runs:
  assumes "\<not> PerformUpdates G" and "lib_total G L" and "Add64_exact L"
    and "list_all (state_known \<circ> snd) outs"
    and "unat (fst (snd s)) + sum_list (map (secp_amount \<circ> snd) outs) < 2 ^ 64"
    and "unat (snd (snd s)) + sum_list (map (spend (aw_djtx w)) outs) < 2 ^ 64"
  shows "succeeds ready (loop (state_out_step G L w ctx txID) outs s) (\<lambda>_. ready)"
  using assms(4-6)
proof (induction outs arbitrary: s)
  case (Cons out outs)
  obtain a o' where out: "out = (a, o')" by (cases out)
  obtain n am t where s: "s = (n, am, t)" by (cases s)
  let ?o = "\<lparr>tout_AssetID = a, tout_Out = o'\<rparr>"
  have "succeeds ready (ProcessStateOut G L (aw_djtx w) ctx (tout_Out ?o) txID n (tout_AssetID ?o) am t
        (aw_chainID w) False False) (\<lambda>_. ready)"
    using Cons.prems by (intro ProcessStateOut_runs assms(1,2)) (auto simp: out s spend_def)
  then have "succeeds ready (state_out_step G L w ctx txID out s) (\<lambda>_. ready)"
    unfolding state_out_step_def out s prod.case
    by (auto intro!: succeeds_bind [where M = "\<lambda>_. ready"] intro: succeeds_ret)
  from succeeds_yields [OF this state_out_step_total [OF assms(3)]]
  have head: "succeeds ready (state_out_step G L w ctx txID out s)
     (\<lambda>s' w'. ready w' \<and> unat (fst (snd s')) = unat (fst (snd s)) + secp_amount (snd out)
        \<and> unat (snd (snd s')) = unat (snd (snd s)) + spend (aw_djtx w) out)" .
  show ?case
    unfolding loop.simps
    by (rule succeeds_bind [OF head])
       (use Cons in \<open>auto simp: succeeds_def comp_def add.assoc\<close>)
qed (simp add: succeeds_ret)

lemma two_passes_runs:
  assumes "\<not> PerformUpdates G" and "lib_total G L" and "Add64_exact L"
    and "list_all (\<lambda>out. state_known (tout_Out out)) outs"
    and "list_all (state_known \<circ> snd) souts"
    and "sum_list (map (secp_amount \<circ> snd) souts) < 2 ^ 64"
    and "sum_list (map (spend (aw_djtx w)) souts) < 2 ^ 64"
  shows "succeeds ready (two_passes G L w ctx txID outs souts) (\<lambda>_. ready)"
  unfolding two_passes_def
  by (rule succeeds_bind [OF count_outs_runs [OF assms(1,2,4)] state_outs_runs [OF assms(1-3,5)]])
     (use assms in simp_all)

lemma insertCreateAssetTx_runs:
  assumes "\<not> PerformUpdates G" and "lib_total G L" and "Add64_exact L"
    and "creds_ok L unsignedBytes creds"
    and "list_all (\<lambda>out. state_known (tout_Out out)) (bt_Outs (ca_BaseTx tx))"
    and "list_all (state_known \<circ> snd) (state_outs txID tx)"
    and "sum_list (map (amount_in (aw_djtx w)) (bt_Ins (ca_BaseTx tx))) < 2 ^ 64"
    and "sum_list (map (amount_out (aw_djtx w)) (bt_Outs (ca_BaseTx tx))) < 2 ^ 64"
    and "sum_list (map (secp_amount \<circ> snd) (state_outs txID tx)) < 2 ^ 64"
    and "sum_list (map (spend (aw_djtx w)) (state_outs txID tx)) < 2 ^ 64"
  shows "succeeds ready
     (insertCreateAssetTx G L w ctx txBytes txID unsignedBytes tx creds alias genesis) (\<lambda>_. ready)"
proof -
  have asset: "succeeds ready (InsertAssets v False) (\<lambda>_. ready)" for v
    by (rule runs_tame, rule steps_intros, simp add: calm_inserts)
  show ?thesis
    using assms(1,7,8) unfolding insertCreateAssetTx_phases
    by (auto simp: all_ins_def all_outs_def
        intro!: succeeds_bind [OF two_passes_runs [OF assms(1-3,5,6,9,10)]] succeeds_andThen [OF asset]
          InsertTransaction_runs assms)
qed

section \<open>Properties\<close>

text \<open>The inputs and the number of outputs of a parsed transaction.\<close>

fun avm_tx_ins :: "avm_UnsignedTx \<Rightarrow> TransferableInput list" where
  "avm_tx_ins (AvmCreateAssetTx tx) = bt_Ins (ca_BaseTx tx)"
| "avm_tx_ins (AvmOperationTx baseTx ops) = bt_Ins baseTx @ concat (map op_ins ops)"
| "avm_tx_ins (AvmImportTx baseTx ins _) = bt_Ins baseTx @ ins"
| "avm_tx_ins (AvmExportTx baseTx _ _) = bt_Ins baseTx"
| "avm_tx_ins (AvmBaseTx baseTx) = bt_Ins baseTx"
| "avm_tx_ins (AvmUnknownTx _) = []"

fun avm_tx_outs :: "avm_UnsignedTx \<Rightarrow> nat" where
  "avm_tx_outs (AvmCreateAssetTx tx) =
     length (bt_Outs (ca_BaseTx tx)) + length (concat (map is_Outs (ca_States tx)))"
| "avm_tx_outs (AvmOperationTx baseTx ops) = length (bt_Outs baseTx) + length (concat (map op_Outs ops))"
| "avm_tx_outs (AvmImportTx baseTx _ _) = length (bt_Outs baseTx)"
| "avm_tx_outs (AvmExportTx baseTx outs _) = length (bt_Outs baseTx) + length outs"
| "avm_tx_outs (AvmBaseTx baseTx) = length (bt_Outs baseTx)"
| "avm_tx_outs (AvmUnknownTx _) = 0"

definition avm_indexed :: "nodelib \<Rightarrow> avm_Tx \<Rightarrow> database \<Rightarrow> bool" where
  "avm_indexed L tx d \<longleftrightarrow>
     recorded_tx L (at_ID tx) d \<and>
     list_all (\<lambda>inp. recorded_in L inp d) (avm_tx_ins (at_Unsigned tx)) \<and>
     recorded_upto L (at_ID tx) (avm_tx_outs (at_Unsigned tx)) d"

lemma length_ops_outs [simp]: "length (ops_outs ops) = length (concat (map op_Outs ops))"
  by (induction ops) (simp_all add: ops_outs_def)

lemma length_state_outs [simp]:
  "length (state_outs txID tx) = length (concat (map is_Outs (ca_States tx)))"
  by (simp add: state_outs_def)

lemma insertTxInternal_indexed:
  assumes "\<not> PerformUpdates G"
  shows "valid honest (insertTxInternal G L w ctx tx txBytes) (\<lambda>_ w. avm_indexed L tx (store w))"
proof -
  have plain: "valid honest
      (InsertTransaction G L (aw_djtx w) ctx txBytes (at_ID tx) ub baseTx creds ty addIns addOuts fee False)
      (\<lambda>_ w. avm_indexed L tx (store w))"
    if "avm_tx_ins (at_Unsigned tx) = all_ins baseTx addIns"
      and "avm_tx_outs (at_Unsigned tx) = length (all_outs baseTx addOuts)"
    for ub baseTx creds ty addIns addOuts fee
    by (rule valid_conseq [OF InsertTransaction_recorded [OF assms]])
       (use that in \<open>auto simp: avm_indexed_def recorded_all_def recorded_upto_iff list_all_iff\<close>)
  show ?thesis
  proof (cases "at_Unsigned tx")
    case (AvmCreateAssetTx castTx)
    then show ?thesis
      unfolding insertTxInternal_def Let_def
      by (auto simp: avm_indexed_def intro!: valid_conseq [OF insertCreateAssetTx_recorded [OF assms]])
  next
    case (AvmOperationTx baseTx ops)
    then show ?thesis
      unfolding insertTxInternal_def Let_def
      by (auto simp: avm_indexed_def intro!: valid_conseq [OF insertOperationTx_recorded [OF assms]])
  qed (simp_all add: insertTxInternal_def plain all_ins_def all_outs_def valid_fail)
qed

lemma Avm_Consume_indexed:
  assumes "\<not> PerformUpdates G" and "avm_ParseGenesis A (cs_Body i) = Inr tx"
  shows "valid honest (Avm_Consume G L A w i) (\<lambda>_ w. avm_indexed L tx (store w))"
  unfolding Avm_Consume_def insertTx_def assms(2) lift_err_def sum.case bind_ret
  by (rule valid_with_tx [OF insertTxInternal_indexed [OF assms(1)]]) simp_all

text \<open>C2: an X-chain transaction is indexed completely or not at all. When \<^verbatim>\<open>Consume\<close> returns
  no error, the transaction, every input (imported inputs and the inputs that operations spend
  included) and every output (initial states and operation outputs included, numbered after
  the outputs of the base transaction) are recorded; when it returns an error, the database
  is as it was.\<close>

theorem Avm_Consume_all_or_nothing:
  assumes "\<not> PerformUpdates G" and "honest w0" and "avm_ParseGenesis A (cs_Body i) = Inr tx"
  shows "case Avm_Consume G L A w i w0 of
           (Inl e, w1) \<Rightarrow> store w1 = store w0
         | (Inr _, w1) \<Rightarrow> avm_indexed L tx (store w1)"
proof (cases "Avm_Consume G L A w i w0")
  case (Pair r w1)
  then show ?thesis
    using validD [OF Avm_Consume_indexed [OF assms(1,3)] _ assms(2)]
      with_tx_rollback [of _ w0]
    by (cases r) (auto simp: Avm_Consume_def)
qed

definition example_create :: CreateAssetTx where
  "example_create =
     \<lparr>ca_BaseTx = example_tx, ca_Name = ''Gold'', ca_Symbol = ''AU'', ca_Denomination = 9,
      ca_States = [\<lparr>is_Outs = [SecpTransferOutput \<lparr>to_Amt = 40, to_Owners =
            \<lparr>oo_Locktime = 0, oo_Threshold = 1, oo_Addrs = [''ann'']\<rparr>\<rparr>,
          SecpMintOutput \<lparr>oo_Locktime = 0, oo_Threshold = 1, oo_Addrs = [''ann'']\<rparr>]\<rparr>,
         \<lparr>is_Outs = [SecpTransferOutput \<lparr>to_Amt = 2, to_Owners =
            \<lparr>oo_Locktime = 0, oo_Threshold = 1, oo_Addrs = [''bob'']\<rparr>\<rparr>]\<rparr>]\<rparr>"

definition example_avmlib :: avmlib where
  "example_avmlib =
     \<lparr>avm_GenesisFromConfig = (\<lambda>_. Inr []), avm_GenesisParse = (\<lambda>_. Inl ''none''), avm_AVMID = [],
      avm_GenesisUnmarshal = (\<lambda>_. Inr []), avm_InitializeGenesisTx = (\<lambda>_. Inl ''none''),
      avm_ParseGenesis = (\<lambda>b. Inr \<lparr>at_ID = b, at_UnsignedBytes = b,
         at_Unsigned = AvmCreateAssetTx example_create, at_Creds = []\<rparr>),
      vertex_Parse = (\<lambda>_. Inl ''none'')\<rparr>"

definition example_avmWriter :: avmWriter where
  "example_avmWriter =
     \<lparr>aw_chainID = ''X'', aw_networkID = 1,
      aw_djtx = \<lparr>dw_chainID = ''X'', dw_djtxAssetID = ''DJTX''\<rparr>\<rparr>"

lemma example_create_runs:
  "succeeds ready
     (insertCreateAssetTx example_globals example_lib example_avmWriter ctx txBytes ''tx'' ub
        example_create [] alias genesis) (\<lambda>_. ready)"
  by (rule insertCreateAssetTx_runs)
     (simp_all add: example_globals_def example_create_def example_tx_def example_avmWriter_def
        state_outs_def amount_in_def amount_out_def spend_def creds_ok_def)

theorem Avm_Consume_all_or_nothing_witness:
  "\<exists>w1. Avm_Consume example_globals example_lib example_avmlib example_avmWriter
          \<lparr>cs_ID = ''m'', cs_ChainID = ''X'', cs_Body = ''tx'', cs_Timestamp = 0, cs_Nanosecond = 0\<rparr>
          example_world = (Inr (), w1)
      \<and> recorded_upto example_lib ''tx'' 4 (store w1)"
proof -
  let ?i = "\<lparr>cs_ID = ''m'', cs_ChainID = ''X'', cs_Body = ''tx'', cs_Timestamp = 0, cs_Nanosecond = 0\<rparr>"
  let ?run = "Avm_Consume example_globals example_lib example_avmlib example_avmWriter ?i"
  have "succeeds ready ?run (\<lambda>_. ready)"
    unfolding Avm_Consume_def
    by (rule succeeds_with_tx)
       (auto simp: insertTx_def example_avmlib_def lift_err_def insertTxInternal_def getVerifiables_def
          ready_def intro!: example_create_runs)
  from succeedsD [OF this example_world_ready(3)] obtain w1 where run: "?run example_world = (Inr (), w1)"
    by auto
  have "\<not> PerformUpdates example_globals" by (simp add: example_globals_def)
  from Avm_Consume_all_or_nothing [OF this example_world_ready(2), of example_avmlib ?i _ example_lib
      example_avmWriter] run
  show ?thesis by (auto simp: example_avmlib_def avm_indexed_def example_create_def example_tx_def
        numeral_eq_Suc)
qed

text \<open>The supply of a new asset. When an asset-creating transaction is indexed whose asset was
  not stored before, the asset's row carries the exact sum of the amounts of the transfer
  outputs of all its initial states.\<close>

theorem insertCreateAssetTx_current_supply:
  assumes "\<not> PerformUpdates G" and "Add64_exact L" and "honest w0"
    and "\<not> asset_stored (\<lambda>r. ast_ID r = ID_String L txID) (store w0)"
    and "insertCreateAssetTx G L w ctx txBytes txID ub tx creds alias genesis w0 = (Inr (), w1)"
  shows "asset_stored (\<lambda>r. ast_ID r = ID_String L txID \<and> ast_Alias r = alias \<and>
           unat (ast_CurrentSupply r) = sum_list (map secp_amount (concat (map is_Outs (ca_States tx)))))
         (store w1)"
  using validD [OF insertCreateAssetTx_supply [OF assms(1,2)] assms(5)] assms(3,4)
  by (simp add: state_outs_def comp_def)

theorem insertCreateAssetTx_current_supply_witness:
  "\<exists>w1. insertCreateAssetTx example_globals example_lib example_avmWriter
          \<lparr>ctx_Time = 1, ctx_ChainID = ''X''\<rparr> [] ''tx'' [] example_create [] ''gold'' False
          example_world = (Inr (), w1)
      \<and> asset_stored (\<lambda>r. ast_ID r = ''tx'' \<and> ast_Alias r = ''gold'' \<and> unat (ast_CurrentSupply r) = 42)
          (store w1)"
proof -
  from succeedsD [OF example_create_runs example_world_ready(3)] obtain w1
    where run: "insertCreateAssetTx example_globals example_lib example_avmWriter
          \<lparr>ctx_Time = 1, ctx_ChainID = ''X''\<rparr> [] ''tx'' [] example_create [] ''gold'' False
          example_world = (Inr (), w1)" by force
  have "\<not> PerformUpdates example_globals"
    and "\<not> asset_stored (\<lambda>r. ast_ID r = ID_String example_lib ''tx'') (store example_world)"
    by (simp_all add: example_globals_def asset_stored_def empty_db_def)
  from insertCreateAssetTx_current_supply [OF this(1) example_lib_exact example_world_ready(2) this(2) run]
  show ?thesis using run by (simp add: example_create_def, simp add: example_lib_def)
qed

end
