(* ===== verification/Pvm_Writer.thy ===== *)
theory Pvm_Writer
  imports Djtx_Writer
begin

text \<open>
  \<^verbatim>\<open>src/services/indexes/pvm/writer.go\<close>: the P-chain indexer.  \<open>Pvm_Consume\<close> parses a
  block (wrapped by the proposer VM or not), stores the block and every transaction in it,
  all within one database transaction; \<open>Pvm_Bootstrap\<close> stores the genesis.

  Parsing belongs to the node, as do \<^verbatim>\<open>wrappers.Errs\<close> (which remembers an error while the
  writer goes on), the printing of node ids and the primary network's id: \<open>pvmlib\<close> holds
  them.  The data types are the parts of the parsed blocks and transactions that the writer
  reads.

  Shown here: a block is stored with all its transactions or not at all, although the loop
  goes on after an error; which block type each kind of block is stored under; where the
  reward outputs of a staker are announced.
\<close>

section \<open>Data\<close>

datatype fx_Owner = Secp_OutputOwners OutputOwners | Other_Owner string

record Validator =
  vd_NodeID :: bytes
  vd_Start :: u64
  vd_End :: u64

datatype pvm_UnsignedTx =
    AddValidatorTx BaseTx Validator "TransferableOutput list" "fx_Owner option"
  | AddSubnetValidatorTx BaseTx
  | AddDelegatorTx BaseTx Validator "TransferableOutput list" fx_Owner
  | CreateSubnetTx BaseTx
  | CreateChainTx BaseTx
  | PvmImportTx BaseTx "TransferableInput list" bytes
  | PvmExportTx BaseTx "TransferableOutput list" bytes
  | AdvanceTimeTx
  | RewardValidatorTx bytes bool
  | RemoveSubnetValidatorTx BaseTx
  | TransformSubnetTx BaseTx
  | AddPermissionlessValidatorTx BaseTx bytes Validator "TransferableOutput list" fx_Owner
  | AddPermissionlessDelegatorTx BaseTx bytes Validator "TransferableOutput list" fx_Owner
  | PvmUnknownTx string

record pvm_Tx =
  pt_ID :: bytes
  pt_Bytes :: bytes
  pt_UnsignedBytes :: bytes
  pt_Unsigned :: pvm_UnsignedTx
  pt_Creds :: "Verifiable list"

datatype pvm_BlockKind =
    ApricotProposalBlock | ApricotStandardBlock | ApricotAtomicBlock | ApricotAbortBlock
  | ApricotCommitBlock | BanffProposalBlock | BanffStandardBlock | BanffAbortBlock
  | BanffCommitBlock | UnknownBlock string

record pvm_Block =
  bk_ID :: bytes
  bk_Kind :: pvm_BlockKind
  bk_Parent :: bytes
  bk_Height :: u64
  bk_Txs :: "pvm_Tx list"

record pvm_UTXO =
  ux_AssetID :: bytes
  ux_Out :: verify_State

record pvm_Genesis =
  pg_Timestamp :: u64
  pg_UTXOs :: "pvm_UTXO list"
  pg_Validators :: "pvm_Tx list"
  pg_Chains :: "pvm_Tx list"

record pvmlib =
  pvm_GenesisFromConfig :: "u32 \<Rightarrow> goerr + bytes"
  pvm_GenesisParse :: "bytes \<Rightarrow> goerr + pvm_Genesis"
  proposer_Parse :: "bytes \<Rightarrow> goerr + proposer_block"
  blocks_Parse :: "bytes \<Rightarrow> goerr + pvm_Block"
  NodeID_String :: "bytes \<Rightarrow> string"
  PrimaryNetworkID :: bytes
  Errs_Add :: "goerr option \<Rightarrow> goerr option \<Rightarrow> goerr option"

record pvmWriter =
  pw_chainID :: string
  pw_networkID :: u32
  pw_djtx :: djtxWriter

text \<open>\<^verbatim>\<open>ChainID = ids.ID{}\<close>.\<close>

definition Pvm_ChainID :: bytes where
  "Pvm_ChainID = replicate 32 (char_of (0::nat))"

section \<open>Collecting errors\<close>

text \<open>\<^verbatim>\<open>errs.Add(call)\<close>: the call runs, and its error, if any, is handed to \<^verbatim>\<open>Add\<close>;
  \<^verbatim>\<open>return errs.Err\<close>.\<close>

definition errs_add :: "pvmlib \<Rightarrow> goerr option \<Rightarrow> ('d, unit) go \<Rightarrow> ('d, goerr option) go" where
  "errs_add V errs m w =
     (case m w of
        (Inl e, w1) \<Rightarrow> (Inr (Errs_Add V errs (Some e)), w1)
      | (Inr _, w1) \<Rightarrow> (Inr (Errs_Add V errs None), w1))"

definition errs_err :: "goerr option \<Rightarrow> ('d, unit) go" where
  "errs_err errs = (case errs of None \<Rightarrow> ret () | Some e \<Rightarrow> fail e)"

section \<open>Operations\<close>

definition InsertTransactionValidator ::
  "globals \<Rightarrow> nodelib \<Rightarrow> pvmlib \<Rightarrow> ConsumerCtx \<Rightarrow> bytes \<Rightarrow> Validator \<Rightarrow> (database, unit) go" where
  "InsertTransactionValidator G L V ctx txID validator =
     InsertTransactionsValidator
       \<lparr>tv_ID = ID_String L txID, tv_NodeID = NodeID_String V (vd_NodeID validator),
        tv_Start = vd_Start validator, tv_End = vd_End validator, tv_CreatedAt = ctx_Time ctx\<rparr>
       (PerformUpdates G)"

definition InsertTransactionBlock ::
  "globals \<Rightarrow> nodelib \<Rightarrow> ConsumerCtx \<Rightarrow> bytes \<Rightarrow> bytes \<Rightarrow> (database, unit) go" where
  "InsertTransactionBlock G L ctx txID blkTxID =
     InsertTransactionsBlock
       \<lparr>tb_ID = ID_String L txID, tb_TxBlockID = ID_String L blkTxID, tb_CreatedAt = ctx_Time ctx\<rparr>
       (PerformUpdates G)"

definition insertTransactionsRewardsOwners ::
  "globals \<Rightarrow> nodelib \<Rightarrow> pvmWriter \<Rightarrow> ConsumerCtx \<Rightarrow> bytes \<Rightarrow> fx_Owner \<Rightarrow> BaseTx
     \<Rightarrow> TransferableOutput list \<Rightarrow> (database, unit) go" where
  "insertTransactionsRewardsOwners G L w ctx txID rewardsOwner baseTx stakeOuts =
     (case rewardsOwner of
        Other_Owner name \<Rightarrow> fail (''rewards owner '' @ name)
      | Secp_OutputOwners owner \<Rightarrow>
          andThen (each (\<lambda>(ipos, addr).
            bind time_now (\<lambda>now.
              InsertTransactionsRewardsOwnersAddress
                \<lparr>roa_ID = ID_String L txID, roa_Address = ShortID_String L (short_id addr),
                 roa_OutputIndex = of_nat ipos, roa_UpdatedAt = now\<rparr> (PerformUpdates G)))
            (List.enumerate 0 (oo_Addrs owner)))
          (let outcnt = length (bt_Outs baseTx) + length stakeOuts in
           andThen (each (\<lambda>ipos.
             InsertTransactionsRewardsOwnersOutputs
               \<lparr>roo_ID = ID_String L (ID_Prefix L txID (of_nat ipos)),
                roo_TransactionID = ID_String L txID, roo_OutputIndex = of_nat ipos,
                roo_CreatedAt = ctx_Time ctx\<rparr> (PerformUpdates G)) [outcnt ..< outcnt + 2])
           (InsertTransactionsRewardsOwners
              \<lparr>ro_ID = ID_String L txID, ro_ChainID = pw_chainID w, ro_Threshold = oo_Threshold owner,
               ro_Locktime = oo_Locktime owner, ro_CreatedAt = ctx_Time ctx\<rparr> (PerformUpdates G))))"

definition indexTransaction ::
  "globals \<Rightarrow> nodelib \<Rightarrow> pvmlib \<Rightarrow> pvmWriter \<Rightarrow> ConsumerCtx \<Rightarrow> bytes \<Rightarrow> pvm_Tx \<Rightarrow> bool
     \<Rightarrow> (database, unit) go" where
  "indexTransaction G L V w ctx blkID tx genesis =
     (let txID = pt_ID tx;
          insertTx = (\<lambda>baseTx typ ins outs.
            InsertTransaction G L (pw_djtx w) ctx (pt_Bytes tx) (pt_ID tx) (pt_UnsignedBytes tx) baseTx
              (pt_Creds tx) typ ins outs 0 genesis);
          staked = (\<lambda>stakeOuts. Some \<lparr>ao_Outs = stakeOuts, ao_Stake = True, ao_ChainID = pw_chainID w\<rparr>)
      in case pt_Unsigned tx of
        AddValidatorTx baseTx validator stakeOuts rewardsOwner \<Rightarrow>
          andThen (InsertTransactionValidator G L V ctx txID validator)
          (andThen (InsertTransactionBlock G L ctx txID blkID)
          (andThen (case rewardsOwner of None \<Rightarrow> ret ()
                    | Some owner \<Rightarrow>
                        insertTransactionsRewardsOwners G L w ctx txID owner baseTx stakeOuts)
             (insertTx baseTx TransactionTypeAddValidator None (staked stakeOuts))))
      | AddSubnetValidatorTx baseTx \<Rightarrow>
          andThen (InsertTransactionBlock G L ctx txID blkID)
            (insertTx baseTx TransactionTypeAddSubnetValidator None None)
      | AddDelegatorTx baseTx validator stakeOuts rewardsOwner \<Rightarrow>
          andThen (InsertTransactionValidator G L V ctx txID validator)
          (andThen (InsertTransactionBlock G L ctx txID blkID)
          (andThen (insertTransactionsRewardsOwners G L w ctx txID rewardsOwner baseTx stakeOuts)
             (insertTx baseTx TransactionTypeAddDelegator None (staked stakeOuts))))
      | CreateSubnetTx baseTx \<Rightarrow>
          andThen (InsertTransactionBlock G L ctx txID blkID)
            (insertTx baseTx TransactionTypeCreateSubnet None None)
      | CreateChainTx baseTx \<Rightarrow>
          andThen (InsertTransactionBlock G L ctx txID blkID)
            (insertTx baseTx TransactionTypeCreateChain None None)
      | PvmImportTx baseTx importedInputs sourceChain \<Rightarrow>
          andThen (InsertTransactionBlock G L ctx txID blkID)
            (insertTx baseTx TransactionTypePVMImport
               (Some \<lparr>ai_Ins = importedInputs, ai_ChainID = ID_String L sourceChain\<rparr>) None)
      | PvmExportTx baseTx exportedOutputs destinationChain \<Rightarrow>
          andThen (InsertTransactionBlock G L ctx txID blkID)
            (insertTx baseTx TransactionTypePVMExport None
               (Some \<lparr>ao_Outs = exportedOutputs, ao_Stake = False,
                      ao_ChainID = ID_String L destinationChain\<rparr>))
      | AdvanceTimeTx \<Rightarrow> ret ()
      | RewardValidatorTx rewarded shouldPreferCommit \<Rightarrow>
          InsertRewards
            \<lparr>rw_ID = ID_String L txID, rw_BlockID = ID_String L blkID,
             rw_Txid = ID_String L rewarded, rw_Shouldprefercommit = shouldPreferCommit,
             rw_CreatedAt = ctx_Time ctx, rw_Processed = 0\<rparr> (PerformUpdates G)
      | RemoveSubnetValidatorTx baseTx \<Rightarrow>
          insertTx baseTx TransactionTypeRemoveSubnetValidator None None
      | TransformSubnetTx baseTx \<Rightarrow> insertTx baseTx TransactionTypeTransformSubnet None None
      | AddPermissionlessValidatorTx baseTx subnet validator stakeOuts rewardsOwner \<Rightarrow>
          if subnet \<noteq> PrimaryNetworkID V
          then insertTx baseTx TransactionTypeAddPermissionlessValidator None None
          else andThen (InsertTransactionValidator G L V ctx txID validator)
            (andThen (insertTransactionsRewardsOwners G L w ctx txID rewardsOwner baseTx stakeOuts)
               (insertTx baseTx TransactionTypeAddPermissionlessValidator None (staked stakeOuts)))
      | AddPermissionlessDelegatorTx baseTx subnet validator stakeOuts rewardsOwner \<Rightarrow>
          if subnet \<noteq> PrimaryNetworkID V
          then insertTx baseTx TransactionTypeAddPermissionlessDelegator None None
          else andThen (InsertTransactionValidator G L V ctx txID validator)
            (andThen (insertTransactionsRewardsOwners G L w ctx txID rewardsOwner baseTx stakeOuts)
               (insertTx baseTx TransactionTypeAddPermissionlessDelegator None (staked stakeOuts)))
      | PvmUnknownTx name \<Rightarrow> fail (''unknown tx type '' @ name))"

definition indexCommonBlock ::
  "globals \<Rightarrow> nodelib \<Rightarrow> pvmWriter \<Rightarrow> ConsumerCtx \<Rightarrow> bytes \<Rightarrow> u16 \<Rightarrow> pvm_Block \<Rightarrow> BlockProposal \<Rightarrow> bytes
     \<Rightarrow> (database, unit) go" where
  "indexCommonBlock G L w ctx blkID blkType blk proposer blockBytes =
     (let blockBytes = (if length blockBytes > MaxSerializationLen then [] else blockBytes) in
      InsertPvmBlocks
        \<lparr>pb_ID = ID_String L blkID, pb_ChainID = pw_chainID w, pb_Type = blkType,
         pb_ParentID = ID_String L (bk_Parent blk), pb_Serialization = blockBytes,
         pb_CreatedAt = ctx_Time ctx, pb_Height = bk_Height blk, pb_Proposer = bp_Proposer proposer,
         pb_ProposerTime = bp_TimeStamp proposer\<rparr> (PerformUpdates G))"

text \<open>The \<^verbatim>\<open>switch\<close> of \<^verbatim>\<open>indexBlock\<close>: the block type that each kind of block is stored
  under.\<close>

fun indexBlock_type :: "pvm_BlockKind \<Rightarrow> goerr + u16" where
  "indexBlock_type ApricotProposalBlock = Inr BlockTypeProposal"
| "indexBlock_type ApricotStandardBlock = Inr BlockTypeStandard"
| "indexBlock_type ApricotAtomicBlock = Inr BlockTypeProposal"
| "indexBlock_type ApricotAbortBlock = Inr BlockTypeAbort"
| "indexBlock_type ApricotCommitBlock = Inr BlockTypeCommit"
| "indexBlock_type BanffProposalBlock = Inr BlockTypeProposal"
| "indexBlock_type BanffStandardBlock = Inr BlockTypeStandard"
| "indexBlock_type BanffAbortBlock = Inr BlockTypeProposal"
| "indexBlock_type BanffCommitBlock = Inr BlockTypeCommit"
| "indexBlock_type (UnknownBlock name) = Inl (''unknown type '' @ name)"

definition indexBlock ::
  "globals \<Rightarrow> nodelib \<Rightarrow> pvmlib \<Rightarrow> pvmWriter \<Rightarrow> ConsumerCtx \<Rightarrow> bytes \<Rightarrow> (database, unit) go" where
  "indexBlock G L V w ctx proposerblockBytes =
     (let (proposerBlock, innerBlockBytes) =
            (case proposer_Parse V proposerblockBytes of
               Inl _ \<Rightarrow> (None, proposerblockBytes)
             | Inr pb \<Rightarrow> (Some pb, proposer_block_Block pb)) in
      bind (lift_err (blocks_Parse V innerBlockBytes)) (\<lambda>blk.
      let blkID = bk_ID blk;
          pvmProposer = NewBlockProposal proposerBlock (Some (ctx_Time ctx)) in
      bind (lift_err (indexBlock_type (bk_Kind blk))) (\<lambda>blkType.
      bind (errs_add V None (indexCommonBlock G L w ctx blkID blkType blk pvmProposer innerBlockBytes))
        (\<lambda>errs.
      bind (loop (\<lambda>tx errs. errs_add V errs (indexTransaction G L V w ctx blkID tx False))
              (bk_Txs blk) errs) errs_err))))"

definition Pvm_Consume ::
  "globals \<Rightarrow> nodelib \<Rightarrow> pvmlib \<Rightarrow> pvmWriter \<Rightarrow> Consumable \<Rightarrow> (database, unit) go" where
  "Pvm_Consume G L V w c =
     with_tx (indexBlock G L V w
       (NewConsumerContext (cs_Timestamp c) (cs_Nanosecond c) (cs_ChainID c)) (cs_Body c))"

definition Pvm_ConsumeConsensus :: "(database, unit) go" where
  "Pvm_ConsumeConsensus = ret ()"

definition Pvm_Bootstrap ::
  "globals \<Rightarrow> nodelib \<Rightarrow> pvmlib \<Rightarrow> pvmWriter \<Rightarrow> (database, unit) go" where
  "Pvm_Bootstrap G L V w =
     bind (lift_err (pvm_GenesisFromConfig V (pw_networkID w))) (\<lambda>genesisBytes.
     bind (lift_err (pvm_GenesisParse V genesisBytes)) (\<lambda>platformGenesis.
     let cCtx = NewConsumerContext (sint (pg_Timestamp platformGenesis)) 0 (pw_chainID w) in
     andThen (each (\<lambda>(idx, utxo).
         bind (ProcessStateOut G L (pw_djtx w) cCtx (ux_Out utxo) Pvm_ChainID (of_nat idx)
                 (ux_AssetID utxo) 0 0 (pw_chainID w) False True) (\<lambda>_. ret ()))
       (List.enumerate 0 (pg_UTXOs platformGenesis)))
     (bind (loop (\<lambda>tx errs. errs_add V errs (indexTransaction G L V w cCtx Pvm_ChainID tx True))
        (pg_Validators platformGenesis @ pg_Chains platformGenesis) None) errs_err)))"

section \<open>Keys, ledger, environment\<close>

context world_rel
begin

lemma steps_errs_add [steps_intros]: "steps R m \<Longrightarrow> steps R (errs_add V errs m)"
  unfolding steps_def errs_add_def
  by (auto split: prod.splits sum.splits) (metis snd_conv)+

lemma steps_errs_err [steps_intros]: "steps R (errs_err errs)"
  by (auto simp: errs_err_def intro!: steps_ret steps_fail split: option.split)

end

lemma InsertTransactionValidator_tame [steps_intros]:
  "steps (tame (PerformUpdates G)) (InsertTransactionValidator G L V ctx txID validator)"
  unfolding InsertTransactionValidator_def by (intro steps_intros)

lemma InsertTransactionBlock_tame [steps_intros]:
  "steps (tame (PerformUpdates G)) (InsertTransactionBlock G L ctx txID blkID)"
  unfolding InsertTransactionBlock_def by (intro steps_intros)

lemma insertTransactionsRewardsOwners_tame [steps_intros]:
  "steps (tame (PerformUpdates G))
     (insertTransactionsRewardsOwners G L w ctx txID rewardsOwner baseTx stakeOuts)"
  unfolding insertTransactionsRewardsOwners_def Let_def
  by (cases rewardsOwner) (auto intro!: steps_intros)

lemma indexTransaction_tame [steps_intros]:
  "steps (tame (PerformUpdates G)) (indexTransaction G L V w ctx blkID tx genesis)"
  unfolding indexTransaction_def Let_def
  by (cases "pt_Unsigned tx") (auto intro!: steps_intros)

lemma indexCommonBlock_tame [steps_intros]:
  "steps (tame (PerformUpdates G)) (indexCommonBlock G L w ctx blkID blkType blk proposer blockBytes)"
  unfolding indexCommonBlock_def Let_def by (intro steps_intros)

lemma indexBlock_tame [steps_intros]:
  "steps (tame (PerformUpdates G)) (indexBlock G L V w ctx proposerblockBytes)"
  unfolding indexBlock_def Let_def by (intro steps_intros)

lemma Pvm_Consume_tame [steps_intros]: "steps (tame (PerformUpdates G)) (Pvm_Consume G L V w c)"
  unfolding Pvm_Consume_def by (intro steps_intros)

lemma Pvm_Bootstrap_tame [steps_intros]: "steps (tame (PerformUpdates G)) (Pvm_Bootstrap G L V w)"
  unfolding Pvm_Bootstrap_def Let_def by (intro steps_intros)

section \<open>Going on after an error\<close>

definition Errs_first :: "pvmlib \<Rightarrow> bool" where
  "Errs_first V \<longleftrightarrow> (\<forall>e x. Errs_Add V None x = x \<and> Errs_Add V (Some e) x = Some e)"

text \<open>When no error was collected, every call succeeded: the loop did what the loop that stops
  at the first error does.\<close>

lemma errs_loop_success:
  assumes "Errs_first V"
  shows "loop (\<lambda>x errs. errs_add V errs (f x)) xs errs w = (Inr None, w')
     \<Longrightarrow> errs = None \<and> each f xs w = (Inr (), w')"
proof (induction xs arbitrary: errs w)
  case Nil
  then show ?case by (simp add: ret_def)
next
  case (Cons x xs)
  obtain r w1 where x: "f x w = (r, w1)" by (cases "f x w")
  show ?case
  proof (cases r)
    case (Inl e)
    then show ?thesis
      using Cons.prems Cons.IH [of "Errs_Add V errs (Some e)" w1] assms x
      by (cases errs) (auto simp: bind_def errs_add_def Errs_first_def)
  next
    case (Inr u)
    then show ?thesis
      using Cons.prems Cons.IH [of "Errs_Add V errs None" w1] assms x
      by (cases errs) (auto simp: bind_def errs_add_def andThen_def Errs_first_def)
  qed
qed

lemma errs_loop_returns: "\<exists>errs' w'. loop (\<lambda>x errs. errs_add V errs (f x)) xs errs w = (Inr errs', w')"
  by (induction xs arbitrary: errs w)
     (auto simp: ret_def bind_def errs_add_def split: prod.splits sum.splits)

definition block_bytes :: "pvmlib \<Rightarrow> bytes \<Rightarrow> bytes" where
  "block_bytes V b = (case proposer_Parse V b of Inl _ \<Rightarrow> b | Inr pb \<Rightarrow> proposer_block_Block pb)"

definition block_proposal :: "pvmlib \<Rightarrow> bytes \<Rightarrow> ConsumerCtx \<Rightarrow> BlockProposal" where
  "block_proposal V b ctx =
     NewBlockProposal (case proposer_Parse V b of Inl _ \<Rightarrow> None | Inr pb \<Rightarrow> Some pb) (Some (ctx_Time ctx))"

lemma indexBlock_success:
  assumes "Errs_first V" and "blocks_Parse V (block_bytes V b) = Inr blk"
    and "indexBlock G L V w ctx b w0 = (Inr (), w1)"
  shows "\<exists>ty. indexBlock_type (bk_Kind blk) = Inr ty \<and>
     andThen (indexCommonBlock G L w ctx (bk_ID blk) ty blk (block_proposal V b ctx) (block_bytes V b))
       (each (\<lambda>tx. indexTransaction G L V w ctx (bk_ID blk) tx False) (bk_Txs blk)) w0 = (Inr (), w1)"
proof -
  let ?f = "\<lambda>tx. indexTransaction G L V w ctx (bk_ID blk) tx False"
  let ?c = "\<lambda>ty. indexCommonBlock G L w ctx (bk_ID blk) ty blk (block_proposal V b ctx) (block_bytes V b)"
  have "indexBlock G L V w ctx b =
     bind (lift_err (indexBlock_type (bk_Kind blk))) (\<lambda>ty.
     bind (errs_add V None (?c ty)) (\<lambda>errs.
     bind (loop (\<lambda>tx errs. errs_add V errs (?f tx)) (bk_Txs blk) errs) errs_err))"
    using assms(2)
    by (auto simp: indexBlock_def Let_def block_bytes_def block_proposal_def lift_err_def
        split: sum.splits)
  moreover obtain ty where ty: "indexBlock_type (bk_Kind blk) = Inr ty"
    using calculation assms(3)
    by (cases "indexBlock_type (bk_Kind blk)") (auto simp: lift_err_def fail_def bind_def)
  ultimately have run: "bind (errs_add V None (?c ty)) (\<lambda>errs.
     bind (loop (\<lambda>tx errs. errs_add V errs (?f tx)) (bk_Txs blk) errs) errs_err) w0 = (Inr (), w1)"
    using assms(3) by (simp add: lift_err_def)
  obtain r w2 where c: "?c ty w0 = (r, w2)" by (cases "?c ty w0")
  let ?e = "Errs_Add V None (case r of Inl e \<Rightarrow> Some e | Inr _ \<Rightarrow> None)"
  obtain errs w3 where l: "loop (\<lambda>tx errs. errs_add V errs (?f tx)) (bk_Txs blk) ?e w2 = (Inr errs, w3)"
    using errs_loop_returns [of V ?f "bk_Txs blk" ?e w2] by blast
  have "errs_err errs w3 = (Inr (), w1)"
    using run c l by (auto simp: bind_def errs_add_def split: sum.splits)
  then have "errs = None" and "w3 = w1" by (auto simp: errs_err_def ret_def fail_def split: option.splits)
  then have "loop (\<lambda>tx errs. errs_add V errs (?f tx)) (bk_Txs blk) ?e w2 = (Inr None, w1)"
    using l by simp
  from errs_loop_success [OF assms(1) this]
  have "?e = None" and "each ?f (bk_Txs blk) w2 = (Inr (), w1)" by simp_all
  moreover from \<open>?e = None\<close> assms(1) have "r = Inr ()"
    by (cases r) (auto simp: Errs_first_def)
  ultimately show ?thesis using ty c by (auto simp: andThen_def bind_def)
qed

section \<open>What is recorded\<close>

fun pvm_parts :: "pvmlib \<Rightarrow> pvm_UnsignedTx \<Rightarrow> (TransferableInput list \<times> TransferableOutput list) option" where
  "pvm_parts V (AddValidatorTx b _ stakeOuts _) = Some (bt_Ins b, bt_Outs b @ stakeOuts)"
| "pvm_parts V (AddSubnetValidatorTx b) = Some (bt_Ins b, bt_Outs b)"
| "pvm_parts V (AddDelegatorTx b _ stakeOuts _) = Some (bt_Ins b, bt_Outs b @ stakeOuts)"
| "pvm_parts V (CreateSubnetTx b) = Some (bt_Ins b, bt_Outs b)"
| "pvm_parts V (CreateChainTx b) = Some (bt_Ins b, bt_Outs b)"
| "pvm_parts V (PvmImportTx b ins _) = Some (bt_Ins b @ ins, bt_Outs b)"
| "pvm_parts V (PvmExportTx b outs _) = Some (bt_Ins b, bt_Outs b @ outs)"
| "pvm_parts V AdvanceTimeTx = None"
| "pvm_parts V (RewardValidatorTx _ _) = None"
| "pvm_parts V (RemoveSubnetValidatorTx b) = Some (bt_Ins b, bt_Outs b)"
| "pvm_parts V (TransformSubnetTx b) = Some (bt_Ins b, bt_Outs b)"
| "pvm_parts V (AddPermissionlessValidatorTx b subnet _ stakeOuts _) =
     Some (bt_Ins b, bt_Outs b @ (if subnet = PrimaryNetworkID V then stakeOuts else []))"
| "pvm_parts V (AddPermissionlessDelegatorTx b subnet _ stakeOuts _) =
     Some (bt_Ins b, bt_Outs b @ (if subnet = PrimaryNetworkID V then stakeOuts else []))"
| "pvm_parts V (PvmUnknownTx _) = None"

text \<open>The number of outputs of a transaction that announces reward outputs.\<close>

fun pvm_staker :: "pvmlib \<Rightarrow> pvm_UnsignedTx \<Rightarrow> nat option" where
  "pvm_staker V (AddValidatorTx b _ stakeOuts (Some _)) = Some (length (bt_Outs b) + length stakeOuts)"
| "pvm_staker V (AddDelegatorTx b _ stakeOuts _) = Some (length (bt_Outs b) + length stakeOuts)"
| "pvm_staker V (AddPermissionlessValidatorTx b subnet _ stakeOuts _) =
     (if subnet = PrimaryNetworkID V then Some (length (bt_Outs b) + length stakeOuts) else None)"
| "pvm_staker V (AddPermissionlessDelegatorTx b subnet _ stakeOuts _) =
     (if subnet = PrimaryNetworkID V then Some (length (bt_Outs b) + length stakeOuts) else None)"
| "pvm_staker V _ = None"

definition announced :: "nodelib \<Rightarrow> bytes \<Rightarrow> nat \<Rightarrow> database \<Rightarrow> bool" where
  "announced L txID n d \<longleftrightarrow>
     list_all (\<lambda>k. list_ex (\<lambda>r. ID_String L (ID_Prefix L txID (of_nat k)) = roo_ID r)
                    (transactions_rewards_owners_outputs d)) [n ..< n + 2] \<and>
     list_ex (\<lambda>r. ID_String L txID = ro_ID r) (transactions_rewards_owners d)"

definition pvm_indexed :: "nodelib \<Rightarrow> pvmlib \<Rightarrow> pvm_Tx \<Rightarrow> database \<Rightarrow> bool" where
  "pvm_indexed L V tx d \<longleftrightarrow>
     (case pvm_parts V (pt_Unsigned tx) of
        None \<Rightarrow> (case pt_Unsigned tx of
                   RewardValidatorTx _ _ \<Rightarrow> list_ex (\<lambda>i. ID_String L (pt_ID tx) = i) (map rw_ID (rewards d))
                 | _ \<Rightarrow> True)
      | Some (ins, outs) \<Rightarrow> recorded_tx L (pt_ID tx) d \<and> recorded_all L (pt_ID tx) ins outs d) \<and>
     (case pvm_staker V (pt_Unsigned tx) of None \<Rightarrow> True | Some n \<Rightarrow> announced L (pt_ID tx) n d)"

definition pvm_block_stored :: "nodelib \<Rightarrow> bytes \<Rightarrow> (PvmBlocks \<Rightarrow> bool) \<Rightarrow> database \<Rightarrow> bool" where
  "pvm_block_stored L blkID P d \<longleftrightarrow> list_ex (\<lambda>r. pb_ID r = ID_String L blkID \<and> P r) (pvm_blocks d)"

lemma announced_mono: "announced L txID n d \<Longrightarrow> grows d d' \<Longrightarrow> announced L txID n d'"
  unfolding announced_def grows_def list_all_iff by (blast intro: list_ex_prefix)

lemma pvm_indexed_mono: "pvm_indexed L V tx d \<Longrightarrow> grows d d' \<Longrightarrow> pvm_indexed L V tx d'"
proof -
  assume p: "pvm_indexed L V tx d" and g: "grows d d'"
  have "prefix (map rw_ID (rewards d)) (map rw_ID (rewards d'))" using g by (simp add: grows_def)
  from list_ex_prefix [OF _ this] p show ?thesis
    unfolding pvm_indexed_def
    by (auto split: option.splits pvm_UnsignedTx.splits
        intro: recorded_mono [OF _ g] recorded_all_mono [OF _ g] announced_mono [OF _ g])
qed

lemma pvm_block_stored_mono:
  "pvm_block_stored L blkID P d \<Longrightarrow> grows d d' \<Longrightarrow> pvm_block_stored L blkID P d'"
  unfolding pvm_block_stored_def grows_def by (blast intro: list_ex_prefix)

text \<open>Inserts leave their key present.\<close>

lemma InsertPvmBlocks_stores:
  "valid (\<lambda>w. honest w \<and> \<not> pvm_block_stored L blkID (\<lambda>_. True) (store w)) (InsertPvmBlocks v False)
     (\<lambda>_ w. honest w \<and> pvm_block_stored L blkID (\<lambda>r. r = v) (store w))"
  if "pb_ID v = ID_String L blkID" for v
  using that
  by (cases v)
     (auto simp: valid_def InsertPvmBlocks_def Let_def upsert_def ignore_dup_def sql_insert_def exec_def
      andThen_def bind_def ret_def pvm_block_stored_def PvmBlocks_clash_def list_ex_iff honest_def
      ErrIsDuplicateEntryError_def split: option.splits if_splits)

lemma InsertPvmBlocks_valid:
  "valid honest (InsertPvmBlocks v False)
     (\<lambda>_ w. list_ex (PvmBlocks_clash v) (pvm_blocks (store w)))"
  using pvm_blocks_tbl.insert_valid [of TablePvmBlocks v]
  by (cases v) (simp add: InsertPvmBlocks_def upsert_def)

lemma InsertRewards_valid:
  "valid honest (InsertRewards v False) (\<lambda>_ w. list_ex (Rewards_clash v) (rewards (store w)))"
  using rewards_tbl.insert_valid [of TableRewards v]
  by (cases v) (simp add: InsertRewards_def upsert_def)

lemma InsertTransactionsRewardsOwnersOutputs_valid:
  "valid honest (InsertTransactionsRewardsOwnersOutputs v False)
     (\<lambda>_ w. list_ex (TransactionsRewardsOwnersOutputs_clash v)
        (transactions_rewards_owners_outputs (store w)))"
  using transactions_rewards_owners_outputs_tbl.insert_valid [of TableTransactionsRewardsOwnersOutputs v]
  by (cases v) (simp add: InsertTransactionsRewardsOwnersOutputs_def upsert_def)

lemma InsertTransactionsRewardsOwners_valid:
  "valid honest (InsertTransactionsRewardsOwners v False)
     (\<lambda>_ w. list_ex (TransactionsRewardsOwners_clash v) (transactions_rewards_owners (store w)))"
  using transactions_rewards_owners_tbl.insert_valid [of TableTransactionsRewardsOwners v]
  by (cases v) (simp add: InsertTransactionsRewardsOwners_def upsert_def)

lemma insertTransactionsRewardsOwners_recorded:
  assumes "\<not> PerformUpdates G"
  shows "valid honest (insertTransactionsRewardsOwners G L w ctx txID rewardsOwner baseTx stakeOuts)
     (\<lambda>_ w. announced L txID (length (bt_Outs baseTx) + length stakeOuts) (store w))"
proof (cases rewardsOwner)
  case (Other_Owner name)
  then show ?thesis by (simp add: insertTransactionsRewardsOwners_def valid_fail)
next
  case (Secp_OutputOwners owner)
  have off: "PerformUpdates G = False" using assms by simp
  let ?ins = "\<lambda>ipos. InsertTransactionsRewardsOwnersOutputs
               \<lparr>roo_ID = ID_String L (ID_Prefix L txID (of_nat ipos)),
                roo_TransactionID = ID_String L txID, roo_OutputIndex = of_nat ipos,
                roo_CreatedAt = ctx_Time ctx\<rparr> (PerformUpdates G)"
  let ?has = "\<lambda>k d. list_ex (\<lambda>r. ID_String L (ID_Prefix L txID (of_nat k)) = roo_ID r)
                    (transactions_rewards_owners_outputs d)"
  have mono: "?has k d \<Longrightarrow> grows d d' \<Longrightarrow> ?has k d'" for k d d'
    unfolding grows_def by (blast intro: list_ex_prefix)
  then have outs_mono: "list_all (\<lambda>k. ?has k d) xs \<Longrightarrow> grows d d' \<Longrightarrow> list_all (\<lambda>k. ?has k d') xs"
    for xs d d' unfolding list_all_iff by blast
  have one: "valid honest (?ins k) (\<lambda>_ w. honest w \<and> honest w \<and> ?has k (store w))" for k
    unfolding off
    by (rule valid_conseq [OF valid_honestI [OF InsertTransactionsRewardsOwnersOutputs_tame
          InsertTransactionsRewardsOwnersOutputs_valid]])
       (auto simp: TransactionsRewardsOwnersOutputs_clash_def list_ex_iff)
  have keep: "valid (\<lambda>w. honest w \<and> ?has k (store w)) (?ins j) (\<lambda>_ w. honest w \<and> ?has k (store w))"
    for j k by (rule valid_tame [OF InsertTransactionsRewardsOwnersOutputs_tame mono assms])
  have outs: "valid honest (each ?ins xs) (\<lambda>_ w. list_all (\<lambda>k. ?has k (store w)) xs)" for xs
    by (rule valid_conseq [OF valid_each [where A = "\<lambda>k w. honest w \<and> ?has k (store w)", OF one keep]])
       (auto simp: list_all_iff)
  have owner: "valid honest (InsertTransactionsRewardsOwners v (PerformUpdates G))
      (\<lambda>_ w. list_ex (\<lambda>r. ID_String L txID = ro_ID r) (transactions_rewards_owners (store w)))"
    if "ro_ID v = ID_String L txID" for v
    unfolding off
    by (rule valid_conseq [OF InsertTransactionsRewardsOwners_valid [of v]])
       (use that in \<open>auto simp: TransactionsRewardsOwners_clash_def list_ex_iff\<close>)
  show ?thesis
    unfolding insertTransactionsRewardsOwners_def Secp_OutputOwners fx_Owner.case Let_def announced_def
    by (rule valid_skip [where u = "PerformUpdates G"], intro steps_intros,
        rule valid_then_keep [OF outs _ owner _ outs_mono assms]; (intro steps_intros | simp))
qed

lemma indexTransaction_indexed:
  assumes "\<not> PerformUpdates G"
  shows "valid honest (indexTransaction G L V w ctx blkID tx genesis)
     (\<lambda>_ w. pvm_indexed L V tx (store w))"
proof -
  let ?txID = "pt_ID tx"
  have off: "PerformUpdates G = False" using assms by simp
  have ins: "valid honest
      (InsertTransaction G L (pw_djtx w) ctx (pt_Bytes tx) ?txID (pt_UnsignedBytes tx) baseTx
         (pt_Creds tx) ty addIns addOuts 0 genesis)
      (\<lambda>_ w. recorded_tx L ?txID (store w) \<and> recorded_all L ?txID ins outs (store w))"
    if "ins = all_ins baseTx addIns" and "outs = all_outs baseTx addOuts"
    for baseTx ty addIns addOuts ins outs
    unfolding that by (rule InsertTransaction_recorded [OF assms])
  have staker: "valid honest
      (andThen (insertTransactionsRewardsOwners G L w ctx ?txID owner baseTx stakeOuts)
        (InsertTransaction G L (pw_djtx w) ctx (pt_Bytes tx) ?txID (pt_UnsignedBytes tx) baseTx
         (pt_Creds tx) ty None
         (Some \<lparr>ao_Outs = stakeOuts, ao_Stake = True, ao_ChainID = pw_chainID w\<rparr>) 0 genesis))
      (\<lambda>_ w. announced L ?txID (length (bt_Outs baseTx) + length stakeOuts) (store w) \<and>
         recorded_tx L ?txID (store w) \<and>
         recorded_all L ?txID (bt_Ins baseTx) (bt_Outs baseTx @ stakeOuts) (store w))"
    for owner baseTx stakeOuts ty
    by (rule valid_then_keep [OF insertTransactionsRewardsOwners_recorded [OF assms]
          insertTransactionsRewardsOwners_tame ins InsertTransaction_tame announced_mono assms])
       (simp_all add: all_ins_def all_outs_def)
  have reward: "valid honest (InsertRewards v (PerformUpdates G))
      (\<lambda>_ w. list_ex (\<lambda>i. rw_ID v = i) (map rw_ID (rewards (store w))))" for v
    unfolding off by (rule valid_conseq [OF InsertRewards_valid]) (auto simp: Rewards_clash_def list_ex_iff)
  note skip = valid_skip [OF InsertTransactionBlock_tame] valid_skip [OF InsertTransactionValidator_tame]
  note plain = valid_conseq [OF ins, OF refl refl]
  show ?thesis
  proof (cases "pt_Unsigned tx")
    case (AddValidatorTx baseTx validator stakeOuts rewardsOwner)
    then show ?thesis
      unfolding indexTransaction_def Let_def
      by (cases rewardsOwner)
         (auto simp: pvm_indexed_def all_ins_def all_outs_def
            intro!: skip valid_conseq [OF staker] plain)
  next
    case (RewardValidatorTx rewarded pref)
    then show ?thesis
      unfolding indexTransaction_def Let_def
      by (auto simp: pvm_indexed_def intro!: valid_conseq [OF reward])
  qed (auto simp: indexTransaction_def Let_def pvm_indexed_def all_ins_def all_outs_def
        intro!: skip valid_conseq [OF staker] plain valid_ret valid_fail)
qed

definition pvm_all_indexed :: "nodelib \<Rightarrow> pvmlib \<Rightarrow> pvm_Block \<Rightarrow> database \<Rightarrow> bool" where
  "pvm_all_indexed L V blk d \<longleftrightarrow>
     pvm_block_stored L (bk_ID blk) (\<lambda>_. True) d \<and> list_all (\<lambda>tx. pvm_indexed L V tx d) (bk_Txs blk)"

lemma each_indexTransaction:
  assumes "\<not> PerformUpdates G"
  shows "valid honest (each (\<lambda>tx. indexTransaction G L V w ctx blkID tx False) txs)
     (\<lambda>_ w. list_all (\<lambda>tx. pvm_indexed L V tx (store w)) txs)"
proof -
  have one: "valid honest (indexTransaction G L V w ctx blkID tx False)
      (\<lambda>_ w. honest w \<and> honest w \<and> pvm_indexed L V tx (store w))" for tx
    by (rule valid_conseq [OF valid_honestI [OF indexTransaction_tame indexTransaction_indexed [OF assms]]])
       auto
  have keep: "valid (\<lambda>w. honest w \<and> pvm_indexed L V y (store w))
      (indexTransaction G L V w ctx blkID tx False)
      (\<lambda>_ w. honest w \<and> pvm_indexed L V y (store w))" for tx y
    by (rule valid_tame [OF indexTransaction_tame pvm_indexed_mono assms])
  show ?thesis
    by (rule valid_conseq [OF valid_each
          [where A = "\<lambda>tx w. honest w \<and> pvm_indexed L V tx (store w)", OF one keep]])
       (auto simp: list_all_iff)
qed

lemma indexCommonBlock_recorded:
  assumes "\<not> PerformUpdates G"
  shows "valid honest (indexCommonBlock G L w ctx blkID ty blk proposer b)
     (\<lambda>_ w. pvm_block_stored L blkID (\<lambda>_. True) (store w))"
proof -
  have off: "PerformUpdates G = False" using assms by simp
  show ?thesis
    unfolding indexCommonBlock_def Let_def off
    by (rule valid_conseq [OF InsertPvmBlocks_valid])
       (auto simp: pvm_block_stored_def PvmBlocks_clash_def list_ex_iff)
qed

lemma indexCommonBlock_stores:
  assumes "\<not> PerformUpdates G"
  shows "valid (\<lambda>w. honest w \<and> \<not> pvm_block_stored L blkID (\<lambda>_. True) (store w))
     (indexCommonBlock G L w ctx blkID ty blk proposer b)
     (\<lambda>_ w'. honest w' \<and> pvm_block_stored L blkID
        (\<lambda>r. pb_Type r = ty \<and> pb_Height r = bk_Height blk \<and> pb_ParentID r = ID_String L (bk_Parent blk)
           \<and> pb_Proposer r = bp_Proposer proposer \<and> pb_ChainID r = pw_chainID w) (store w'))"
proof -
  have off: "PerformUpdates G = False" using assms by simp
  show ?thesis
    unfolding indexCommonBlock_def Let_def off
    by (rule valid_conseq [OF InsertPvmBlocks_stores])
       (auto simp: pvm_block_stored_def list_ex_iff intro!: rev_bexI)
qed

lemma valid_indexBlock:
  assumes "Errs_first V" and "blocks_Parse V (block_bytes V b) = Inr blk"
    and "\<And>ty. indexBlock_type (bk_Kind blk) = Inr ty \<Longrightarrow> valid P
     (andThen (indexCommonBlock G L w ctx (bk_ID blk) ty blk (block_proposal V b ctx) (block_bytes V b))
       (each (\<lambda>tx. indexTransaction G L V w ctx (bk_ID blk) tx False) (bk_Txs blk))) (\<lambda>_. Q)"
  shows "valid P (indexBlock G L V w ctx b) (\<lambda>_. Q)"
  unfolding valid_def
proof (intro allI impI)
  fix w0 w1 and x :: unit
  assume "P w0" and "indexBlock G L V w ctx b w0 = (Inr x, w1)"
  then have run: "indexBlock G L V w ctx b w0 = (Inr (), w1)" by simp
  from indexBlock_success [OF assms(1,2) run] validD [OF assms(3) _ \<open>P w0\<close>] show "Q w1" by blast
qed

lemma indexBlock_indexed:
  assumes "\<not> PerformUpdates G" and "Errs_first V" and "blocks_Parse V (block_bytes V b) = Inr blk"
  shows "valid honest (indexBlock G L V w ctx b) (\<lambda>_ w. pvm_all_indexed L V blk (store w))"
proof -
  have "valid honest
     (andThen (indexCommonBlock G L w ctx (bk_ID blk) ty blk (block_proposal V b ctx) (block_bytes V b))
       (each (\<lambda>tx. indexTransaction G L V w ctx (bk_ID blk) tx False) (bk_Txs blk)))
     (\<lambda>_ w. pvm_block_stored L (bk_ID blk) (\<lambda>_. True) (store w)
        \<and> list_all (\<lambda>tx. pvm_indexed L V tx (store w)) (bk_Txs blk))" for ty
    by (rule valid_then_keep [OF indexCommonBlock_recorded [OF assms(1)] indexCommonBlock_tame
          each_indexTransaction [OF assms(1)] _ pvm_block_stored_mono assms(1)], intro steps_intros)
  then show ?thesis
    unfolding pvm_all_indexed_def by (rule valid_indexBlock [OF assms(2,3)])
qed

lemma indexBlock_stores:
  assumes "\<not> PerformUpdates G" and "Errs_first V" and "blocks_Parse V (block_bytes V b) = Inr blk"
  shows "valid (\<lambda>w. honest w \<and> \<not> pvm_block_stored L (bk_ID blk) (\<lambda>_. True) (store w))
     (indexBlock G L V w ctx b)
     (\<lambda>_ w'. \<exists>ty. indexBlock_type (bk_Kind blk) = Inr ty \<and> pvm_block_stored L (bk_ID blk)
        (\<lambda>r. pb_Type r = ty \<and> pb_Height r = bk_Height blk \<and> pb_ParentID r = ID_String L (bk_Parent blk)
           \<and> pb_Proposer r = bp_Proposer (block_proposal V b ctx) \<and> pb_ChainID r = pw_chainID w)
        (store w'))"
proof -
  let ?R = "\<lambda>ty r. pb_Type r = ty \<and> pb_Height r = bk_Height blk \<and> pb_ParentID r = ID_String L (bk_Parent blk)
           \<and> pb_Proposer r = bp_Proposer (block_proposal V b ctx) \<and> pb_ChainID r = pw_chainID w"
  let ?txs = "each (\<lambda>tx. indexTransaction G L V w ctx (bk_ID blk) tx False) (bk_Txs blk)"
  have "steps (tame (PerformUpdates G)) ?txs" by (intro steps_intros)
  from valid_tame [OF this pvm_block_stored_mono assms(1)]
  have "valid (\<lambda>w. honest w \<and> \<not> pvm_block_stored L (bk_ID blk) (\<lambda>_. True) (store w))
     (andThen (indexCommonBlock G L w ctx (bk_ID blk) ty blk (block_proposal V b ctx) (block_bytes V b)) ?txs)
     (\<lambda>_ w. honest w \<and> pvm_block_stored L (bk_ID blk) (?R ty) (store w))" for ty
    by (rule valid_andThen [OF indexCommonBlock_stores [OF assms(1)]])
  then show ?thesis
    by (intro valid_indexBlock [OF assms(2,3)]) (blast intro: valid_conseq)
qed

section \<open>Properties\<close>

text \<open>C3: a P-chain block is indexed completely or not at all, although the loop over its
  transactions goes on after an error. When \<^verbatim>\<open>Consume\<close> returns no error, the block and every
  transaction in it are recorded: the transaction with its inputs and outputs (stake, import
  and export included), a reward with its id, and for stakers the two positions after the
  last output at which reward outputs will appear. When it returns an error, the database
  is as it was.\<close>

theorem Pvm_Consume_all_or_nothing:
  assumes "\<not> PerformUpdates G" and "honest w0" and "Errs_first V"
    and "blocks_Parse V (block_bytes V (cs_Body c)) = Inr blk"
  shows "case Pvm_Consume G L V w c w0 of
           (Inl e, w1) \<Rightarrow> store w1 = store w0
         | (Inr _, w1) \<Rightarrow> pvm_all_indexed L V blk (store w1)"
proof (cases "Pvm_Consume G L V w c w0")
  case (Pair r w1)
  have "valid honest (Pvm_Consume G L V w c) (\<lambda>_ w. pvm_all_indexed L V blk (store w))"
    unfolding Pvm_Consume_def
    by (rule valid_with_tx [OF indexBlock_indexed [OF assms(1,3,4)]]) simp_all
  from validD [OF this _ assms(2)] Pair show ?thesis
    by (cases r) (auto simp: Pvm_Consume_def dest: with_tx_rollback)
qed

definition example_block :: pvm_Block where
  "example_block =
     \<lparr>bk_ID = ''blk'', bk_Kind = BanffAbortBlock, bk_Parent = ''par'', bk_Height = 7,
      bk_Txs = [\<lparr>pt_ID = ''rtx'', pt_Bytes = [], pt_UnsignedBytes = [],
                 pt_Unsigned = RewardValidatorTx ''vtx'' True, pt_Creds = []\<rparr>]\<rparr>"

definition example_pvmlib :: pvmlib where
  "example_pvmlib =
     \<lparr>pvm_GenesisFromConfig = (\<lambda>_. Inr []), pvm_GenesisParse = (\<lambda>_. Inl ''none''),
      proposer_Parse = (\<lambda>_. Inl ''not wrapped''), blocks_Parse = (\<lambda>_. Inr example_block),
      NodeID_String = (\<lambda>b. b), PrimaryNetworkID = [],
      Errs_Add = (\<lambda>errs x. case errs of None \<Rightarrow> x | Some e \<Rightarrow> Some e)\<rparr>"

definition example_pvmWriter :: pvmWriter where
  "example_pvmWriter =
     \<lparr>pw_chainID = ''P'', pw_networkID = 1,
      pw_djtx = \<lparr>dw_chainID = ''P'', dw_djtxAssetID = ''DJTX''\<rparr>\<rparr>"

definition example_msg :: Consumable where
  "example_msg =
     \<lparr>cs_ID = ''m'', cs_ChainID = ''P'', cs_Body = ''raw'', cs_Timestamp = 0, cs_Nanosecond = 0\<rparr>"

lemma example_pvmlib_first [simp]: "Errs_first example_pvmlib"
  by (simp add: Errs_first_def example_pvmlib_def)

lemma example_pvm_parse [simp]: "blocks_Parse example_pvmlib b = Inr example_block"
  by (simp add: example_pvmlib_def)

lemmas example_pvm_run =
  Pvm_Consume_def with_tx_def exec_def indexBlock_def lift_err_def errs_add_def indexCommonBlock_def
  InsertPvmBlocks_def InsertRewards_def indexTransaction_def upsert_def ignore_dup_def sql_insert_def
  bind_def andThen_def ret_def errs_err_def

lemma example_pvm_runs:
  "fst (Pvm_Consume example_globals example_lib example_pvmlib example_pvmWriter example_msg example_world)
     = Inr ()"
  by (simp add: example_pvm_run example_pvmlib_def example_block_def example_globals_def
      example_world_def Let_def empty_db_def)

theorem Pvm_Consume_all_or_nothing_witness:
  "\<exists>w1. Pvm_Consume example_globals example_lib example_pvmlib example_pvmWriter example_msg example_world
          = (Inr (), w1)
      \<and> pvm_all_indexed example_lib example_pvmlib example_block (store w1)"
proof -
  obtain w1 where run: "Pvm_Consume example_globals example_lib example_pvmlib example_pvmWriter
      example_msg example_world = (Inr (), w1)"
    using example_pvm_runs by (metis prod.collapse)
  have "\<not> PerformUpdates example_globals" by (simp add: example_globals_def)
  from Pvm_Consume_all_or_nothing [OF this example_world_ready(2) example_pvmlib_first example_pvm_parse,
      where L = example_lib and w = example_pvmWriter and c = example_msg] run
  show ?thesis by simp
qed

text \<open>What is stored of a block. When a block that was not stored before is indexed, its row
  has the block type that \<^verbatim>\<open>indexBlock\<close> assigns to its kind, its height, its parent, the
  writer's chain and its proposer.\<close>

theorem indexBlock_stores_block:
  assumes "\<not> PerformUpdates G" and "honest w0" and "Errs_first V"
    and "blocks_Parse V (block_bytes V b) = Inr blk"
    and "\<not> pvm_block_stored L (bk_ID blk) (\<lambda>_. True) (store w0)"
    and "indexBlock G L V w ctx b w0 = (Inr (), w1)"
  shows "pvm_block_stored L (bk_ID blk)
           (\<lambda>r. indexBlock_type (bk_Kind blk) = Inr (pb_Type r) \<and> pb_Height r = bk_Height blk
              \<and> pb_ParentID r = ID_String L (bk_Parent blk)
              \<and> pb_Proposer r = bp_Proposer (block_proposal V b ctx) \<and> pb_ChainID r = pw_chainID w)
           (store w1)"
  using validD [OF indexBlock_stores [OF assms(1,3,4)] assms(6)] assms(2,5)
  by (auto simp: pvm_block_stored_def list_ex_iff)

theorem indexBlock_stores_block_witness:
  "\<exists>w1. indexBlock example_globals example_lib example_pvmlib example_pvmWriter
          \<lparr>ctx_Time = 1, ctx_ChainID = ''P''\<rparr> ''raw'' example_world = (Inr (), w1)
      \<and> pvm_block_stored example_lib ''blk'' (\<lambda>r. pb_Type r = BlockTypeProposal \<and> pb_Height r = 7) (store w1)"
proof -
  let ?run = "indexBlock example_globals example_lib example_pvmlib example_pvmWriter
          \<lparr>ctx_Time = 1, ctx_ChainID = ''P''\<rparr> ''raw'' example_world"
  have "fst ?run = Inr ()"
    by (simp add: example_pvm_run example_pvmlib_def example_block_def example_globals_def
        example_world_def Let_def empty_db_def)
  then obtain w1 where run: "?run = (Inr (), w1)" by (metis prod.collapse)
  have "\<not> PerformUpdates example_globals"
    and "\<not> pvm_block_stored example_lib (bk_ID example_block) (\<lambda>_. True) (store example_world)"
    by (simp_all add: example_globals_def pvm_block_stored_def empty_db_def)
  from indexBlock_stores_block [OF this(1) example_world_ready(2) example_pvmlib_first example_pvm_parse
      this(2) run]
  show ?thesis using run by (auto simp: example_block_def pvm_block_stored_def list_ex_iff)
qed

text \<open>which blocks are stored as decisions. A block is stored as a commit exactly when it is
  an Apricot or Banff commit block, but as an abort only when it is an Apricot abort block: a
  Banff abort block is stored as a proposal, and so is an Apricot atomic block.\<close>

theorem indexBlock_type_decisions:
  "(indexBlock_type k = Inr BlockTypeCommit \<longleftrightarrow> k = ApricotCommitBlock \<or> k = BanffCommitBlock)
   \<and> (indexBlock_type k = Inr BlockTypeAbort \<longleftrightarrow> k = ApricotAbortBlock)
   \<and> indexBlock_type BanffAbortBlock = Inr BlockTypeProposal
   \<and> indexBlock_type ApricotAtomicBlock = Inr BlockTypeProposal"
  by (cases k)
     (simp_all add: BlockTypeCommit_def BlockTypeAbort_def BlockTypeProposal_def BlockTypeStandard_def)

end
