(* ===== verification/Cvm_Writer.thy ===== *)
theory Cvm_Writer
  imports Djtx_Writer
begin

text \<open>
  \<^verbatim>\<open>src/services/indexes/cvm/writer.go\<close>: the C-chain indexer, with
  \<^verbatim>\<open>src/modelsc/cclient.go\<close> (receipts) and \<^verbatim>\<open>src/utils/type_address_util.go\<close> (printing of
  addresses).  \<open>Cvm_Consume\<close> decodes an Ethereum block, indexes the atomic imports and
  exports that it carries, its transactions with their accounts, the block and the cache of
  last blocks, all within one database transaction.

  Decoding (RLP, the atomic codec, JSON), signature recovery and the RPC to the node belong
  to the node's libraries: \<open>cvmlib\<close> holds the functions, and the records below the parts of
  the decoded data that the writer reads.

  Shown here: all-or-nothing indexing; the two accounts that a transaction's row refers to
  exist when it is written; the type under which atomic transactions are stored; the wrapping
  fee; the cache of last blocks; that addresses are printed in lower case.
\<close>

section \<open>Addresses: utils/type\_address\_util.go\<close>

text \<open>Go's \<^verbatim>\<open>encoding/hex\<close>.\<close>

definition hex_val :: "char \<Rightarrow> nat option" where
  "hex_val c =
     (let n = of_char c :: nat in
      if 48 \<le> n \<and> n \<le> 57 then Some (n - 48)
      else if 97 \<le> n \<and> n \<le> 102 then Some (n - 87)
      else if 65 \<le> n \<and> n \<le> 70 then Some (n - 55)
      else None)"

fun hex_DecodeString :: "string \<Rightarrow> nat list option" where
  "hex_DecodeString [] = Some []"
| "hex_DecodeString [c] = None"
| "hex_DecodeString (c # d # s) =
     (case (hex_val c, hex_val d, hex_DecodeString s) of
        (Some h, Some l, Some bs) \<Rightarrow> Some ((16 * h + l) # bs)
      | _ \<Rightarrow> None)"

definition hex_digit :: "nat \<Rightarrow> char" where
  "hex_digit n = char_of (if n < 10 then 48 + n else 87 + n)"

fun hex_EncodeToString :: "nat list \<Rightarrow> string" where
  "hex_EncodeToString [] = []"
| "hex_EncodeToString (b # bs) = hex_digit (b div 16) # hex_digit (b mod 16) # hex_EncodeToString bs"

definition CommonAddressHexRepair :: "(bytes \<Rightarrow> string) \<Rightarrow> bytes option \<Rightarrow> string" where
  "CommonAddressHexRepair Hex address =
     (case address of None \<Rightarrow> []
      | Some a \<Rightarrow>
          let str = TrimPrefix (Hex a) ''0x'';
              str = (case hex_DecodeString str of None \<Rightarrow> str | Some hb \<Rightarrow> hex_EncodeToString hb)
          in if \<not> HasPrefix str ''0x'' then ''0x'' @ str else str)"

section \<open>Receipts: modelsc/cclient.go\<close>

record receipt_fields =
  rf_Type :: "u64 option"
  rf_PostState :: "bytes option"
  rf_Status :: "u64 option"
  rf_CumulativeGasUsed :: "u64 option"
  rf_Bloom :: "bytes option"
  rf_Logs :: "bytes list option"
  rf_TxHash :: "bytes option"
  rf_ContractAddress :: "bytes option"
  rf_GasUsed :: "u64 option"
  rf_BlockHash :: "bytes option"
  rf_BlockNumber :: "int option"
  rf_TransactionIndex :: "u64 option"
  rf_EffectiveGasPrice :: "u64 option"

record ExtendedReceipt =
  er_PostState :: bytes
  er_Status :: u64
  er_CumulativeGasUsed :: u64
  er_Bloom :: bytes
  er_Logs :: "bytes list"
  er_Type :: u8
  er_TxHash :: bytes
  er_ContractAddress :: "bytes option"
  er_TransactionIndex :: u64
  er_GasUsed :: u64
  er_BlockHash :: bytes
  er_BlockNumber :: "int option"
  er_EffectiveGasPrice :: u64
  er_Raw :: bytes

definition zero_receipt :: ExtendedReceipt where
  "zero_receipt =
     \<lparr>er_PostState = [], er_Status = 0, er_CumulativeGasUsed = 0, er_Bloom = [], er_Logs = [],
      er_Type = 0, er_TxHash = [], er_ContractAddress = None, er_TransactionIndex = 0,
      er_GasUsed = 0, er_BlockHash = [], er_BlockNumber = None, er_EffectiveGasPrice = 0, er_Raw = []\<rparr>"

definition missing :: "string \<Rightarrow> goerr" where
  "missing field = ''missing required field '' @ [CHR 0x27] @ field @ [CHR 0x27] @ '' for Receipt''"

definition UnmarshalJSON ::
  "(bytes \<Rightarrow> goerr + receipt_fields) \<Rightarrow> ExtendedReceipt \<Rightarrow> bytes \<Rightarrow> goerr + ExtendedReceipt" where
  "UnmarshalJSON json_Unmarshal r input =
     (case json_Unmarshal input of
        Inl err \<Rightarrow> Inl err
      | Inr dec \<Rightarrow>
          (case rf_CumulativeGasUsed dec of None \<Rightarrow> Inl (missing ''cumulativeGasUsed'')
           | Some cgu \<Rightarrow>
          (case rf_Bloom dec of None \<Rightarrow> Inl (missing ''logsBloom'')
           | Some bloom \<Rightarrow>
          (case rf_Logs dec of None \<Rightarrow> Inl (missing ''logs'')
           | Some logs \<Rightarrow>
          (case rf_TxHash dec of None \<Rightarrow> Inl (missing ''transactionHash'')
           | Some txh \<Rightarrow>
          (case rf_GasUsed dec of None \<Rightarrow> Inl (missing ''gasUsed'')
           | Some gu \<Rightarrow>
              Inr \<lparr>er_PostState = (case rf_PostState dec of None \<Rightarrow> er_PostState r | Some x \<Rightarrow> x),
                   er_Status = (case rf_Status dec of None \<Rightarrow> er_Status r | Some x \<Rightarrow> x),
                   er_CumulativeGasUsed = cgu, er_Bloom = bloom, er_Logs = logs,
                   er_Type = (case rf_Type dec of None \<Rightarrow> er_Type r | Some x \<Rightarrow> ucast x),
                   er_TxHash = txh, er_ContractAddress = rf_ContractAddress dec,
                   er_TransactionIndex =
                     (case rf_TransactionIndex dec of None \<Rightarrow> er_TransactionIndex r | Some x \<Rightarrow> x),
                   er_GasUsed = gu,
                   er_BlockHash = (case rf_BlockHash dec of None \<Rightarrow> er_BlockHash r | Some x \<Rightarrow> x),
                   er_BlockNumber =
                     (case rf_BlockNumber dec of None \<Rightarrow> er_BlockNumber r | Some x \<Rightarrow> Some x),
                   er_EffectiveGasPrice =
                     (case rf_EffectiveGasPrice dec of None \<Rightarrow> er_EffectiveGasPrice r | Some x \<Rightarrow> x),
                   er_Raw = input\<rparr>))))))"

section \<open>Data\<close>

record EVMInput =
  ei_Address :: bytes
  ei_Amount :: u64
  ei_AssetID :: bytes
  ei_Nonce :: u64

record EVMOutput =
  eo_Address :: bytes
  eo_Amount :: u64
  eo_AssetID :: bytes

record UnsignedExportTx =
  xt_BlockchainID :: bytes
  xt_DestinationChain :: bytes
  xt_Ins :: "EVMInput list"
  xt_ExportedOutputs :: "TransferableOutput list"

record UnsignedImportTx =
  mt_BlockchainID :: bytes
  mt_SourceChain :: bytes
  mt_ImportedInputs :: "TransferableInput list"
  mt_Outs :: "EVMOutput list"

datatype UnsignedAtomicTx = AtomicExport UnsignedExportTx | AtomicImport UnsignedImportTx | AtomicOther

record evm_Tx =
  ev_ID :: bytes
  ev_Unsigned :: UnsignedAtomicTx
  ev_Creds :: "Verifiable list"

record eth_Tx =
  et_JSON :: "goerr + bytes"
  et_Hash :: string
  et_To :: "bytes option"
  et_Sender :: "goerr + bytes"
  et_Nonce :: u64
  et_Value :: nat

record eth_Block =
  eb_Number :: nat
  eb_Hash :: string
  eb_Time :: u64
  eb_ExtData :: bytes
  eb_HeaderJSON :: "goerr + bytes"
  eb_Transactions :: "eth_Tx list"

record cvmlib =
  cvm_proposer_Parse :: "bytes \<Rightarrow> goerr + proposer_block"
  rlp_DecodeBytes :: "bytes \<Rightarrow> goerr + eth_Block"
  evm_Unmarshal :: "bytes \<Rightarrow> goerr + evm_Tx"
  evm_Unmarshals :: "bytes \<Rightarrow> goerr + evm_Tx list"
  evm_Sign :: "evm_Tx \<Rightarrow> goerr + evm_Tx"
  evm_Marshal :: "UnsignedAtomicTx \<Rightarrow> goerr + bytes"
  Address_Hex :: "bytes \<Rightarrow> string"
  receipt_Unmarshal :: "bytes \<Rightarrow> goerr + receipt_fields"

text \<open>The writer; its client, when there is one, answers \<^verbatim>\<open>eth_getTransactionReceipt\<close> with
  JSON.\<close>

record cvmWriter =
  cw_networkID :: u32
  cw_djtxAssetID :: bytes
  cw_djtx :: djtxWriter
  cw_ap5Activation :: u64
  cw_client :: "(string \<Rightarrow> goerr + bytes) option"

section \<open>Operations\<close>

definition ReadReceipt ::
  "cvmlib \<Rightarrow> (string \<Rightarrow> goerr + bytes) \<Rightarrow> string \<Rightarrow> goerr + ExtendedReceipt" where
  "ReadReceipt C call txHash =
     (case call txHash of Inl err \<Rightarrow> Inl err
      | Inr json \<Rightarrow> UnmarshalJSON (receipt_Unmarshal C) zero_receipt json)"

definition extractAtomicTxsPreApricotPhase5 :: "cvmlib \<Rightarrow> bytes \<Rightarrow> goerr + evm_Tx list" where
  "extractAtomicTxsPreApricotPhase5 C atomicTxBytes =
     (case evm_Unmarshal C atomicTxBytes of
        Inl err \<Rightarrow> Inl (''failed to unmarshal atomic tx (pre-AP5): '' @ err)
      | Inr atomicTx \<Rightarrow>
          (case evm_Sign C atomicTx of
             Inl err \<Rightarrow> Inl (''failed to initialize singleton atomic tx due to: '' @ err)
           | Inr atx \<Rightarrow> Inr [atx]))"

fun sign_all :: "cvmlib \<Rightarrow> nat \<Rightarrow> evm_Tx list \<Rightarrow> goerr + evm_Tx list" where
  "sign_all C index [] = Inr []"
| "sign_all C index (atx # txs) =
     (case evm_Sign C atx of
        Inl err \<Rightarrow> Inl (''failed to initialize atomic tx at index '' @ dec_nat index @ '': '' @ err)
      | Inr atx' \<Rightarrow>
          (case sign_all C (index + 1) txs of Inl e \<Rightarrow> Inl e | Inr txs' \<Rightarrow> Inr (atx' # txs')))"

definition extractAtomicTxsPostApricotPhase5 :: "cvmlib \<Rightarrow> bytes \<Rightarrow> goerr + evm_Tx list" where
  "extractAtomicTxsPostApricotPhase5 C atomicTxBytes =
     (case evm_Unmarshals C atomicTxBytes of
        Inl err \<Rightarrow> Inl (''failed to unmarshal atomic tx (post-AP5): '' @ err)
      | Inr atomicTxs \<Rightarrow> sign_all C 0 atomicTxs)"

definition insertAddress ::
  "globals \<Rightarrow> nodelib \<Rightarrow> cvmlib \<Rightarrow> u16 \<Rightarrow> ConsumerCtx \<Rightarrow> u64 \<Rightarrow> bytes \<Rightarrow> bytes \<Rightarrow> bytes \<Rightarrow> u64 \<Rightarrow> u64
     \<Rightarrow> (database, unit) go" where
  "insertAddress G L C typ ctx idx txid address assetID amount nonce =
     InsertCvmAddresses
       \<lparr>cad_ID = ID_String L (ID_Prefix L txid idx), cad_Type = typ, cad_Idx = idx,
        cad_TransactionID = ID_String L txid, cad_Address = Address_Hex C address,
        cad_AssetID = ID_String L assetID, cad_Amount = amount, cad_Nonce = nonce,
        cad_CreatedAt = ctx_Time ctx\<rparr> (PerformUpdates G)"

definition Cvm_indexTransaction ::
  "globals \<Rightarrow> nodelib \<Rightarrow> cvmWriter \<Rightarrow> ConsumerCtx \<Rightarrow> bytes \<Rightarrow> u16 \<Rightarrow> bytes \<Rightarrow> u64 \<Rightarrow> bytes
     \<Rightarrow> (database, unit) go" where
  "Cvm_indexTransaction G L w ctx txid typ blockChainID txFee unsignedBytes =
     (let avmTxtype = (if typ = CChainImport then ''atomic_import_tx''
                       else if typ = CChainExport then ''atomic_export_tx'' else []) in
      InsertTransactionBase G L ctx txid (ID_String L blockChainID) avmTxtype (Some []) unsignedBytes
        txFee False (cw_networkID w))"

text \<open>The loops that sum: addresses first, with the checked total.\<close>

definition export_ins ::
  "globals \<Rightarrow> nodelib \<Rightarrow> cvmlib \<Rightarrow> cvmWriter \<Rightarrow> ConsumerCtx \<Rightarrow> bytes \<Rightarrow> (nat \<times> EVMInput) list \<Rightarrow> u64
     \<Rightarrow> (database, u64) go" where
  "export_ins G L C w ctx txID = loop (\<lambda>(icnt, inp) totalin.
     andThen (insertAddress G L C CChainIn ctx (of_nat icnt) txID (ei_Address inp) (ei_AssetID inp)
                (ei_Amount inp) (ei_Nonce inp))
       (if ei_AssetID inp = cw_djtxAssetID w then lift_err (Add64 L totalin (ei_Amount inp))
        else ret totalin))"

definition indexExportTx ::
  "globals \<Rightarrow> nodelib \<Rightarrow> cvmlib \<Rightarrow> cvmWriter \<Rightarrow> ConsumerCtx \<Rightarrow> bytes \<Rightarrow> UnsignedExportTx \<Rightarrow> bytes
     \<Rightarrow> (database, unit) go" where
  "indexExportTx G L C w ctx txID tx blockBytes =
     bind (export_ins G L C w ctx txID (List.enumerate 0 (xt_Ins tx)) 0) (\<lambda>totalin.
     bind (outs_loop G L (cw_djtx w) ctx txID (ID_String L (xt_DestinationChain tx)) False
             (xt_ExportedOutputs tx) (0, 0)) (\<lambda>(_, totalout).
     Cvm_indexTransaction G L w ctx txID CChainExport (xt_BlockchainID tx) (totalin - totalout)
       blockBytes))"

definition import_outs ::
  "globals \<Rightarrow> nodelib \<Rightarrow> cvmlib \<Rightarrow> cvmWriter \<Rightarrow> ConsumerCtx \<Rightarrow> bytes \<Rightarrow> (nat \<times> EVMOutput) list \<Rightarrow> u64
     \<Rightarrow> (database, u64) go" where
  "import_outs G L C w ctx txID = loop (\<lambda>(icnt, out) totalout.
     andThen (insertAddress G L C CchainOut ctx (of_nat icnt) txID (eo_Address out) (eo_AssetID out)
                (eo_Amount out) 0)
       (if eo_AssetID out = cw_djtxAssetID w then lift_err (Add64 L totalout (eo_Amount out))
        else ret totalout))"

definition indexImportTx ::
  "globals \<Rightarrow> nodelib \<Rightarrow> cvmlib \<Rightarrow> cvmWriter \<Rightarrow> ConsumerCtx \<Rightarrow> bytes \<Rightarrow> UnsignedImportTx
     \<Rightarrow> Verifiable list \<Rightarrow> bytes \<Rightarrow> bytes \<Rightarrow> (database, unit) go" where
  "indexImportTx G L C w ctx txID tx creds blockBytes unsignedBytes =
     bind (import_outs G L C w ctx txID (List.enumerate 0 (mt_Outs tx)) 0) (\<lambda>totalout.
     bind (ins_loop G L (cw_djtx w) ctx txID creds unsignedBytes (ID_String L (mt_SourceChain tx))
             (mt_ImportedInputs tx) (0, 0)) (\<lambda>(_, totalin).
     Cvm_indexTransaction G L w ctx txID CChainImport (mt_BlockchainID tx) (totalin - totalout)
       blockBytes))"

text \<open>The loop over the atomic transactions; it assigns \<^verbatim>\<open>txIDs\<close> and \<^verbatim>\<open>typ\<close>.\<close>

definition atomic_loop ::
  "globals \<Rightarrow> nodelib \<Rightarrow> cvmlib \<Rightarrow> cvmWriter \<Rightarrow> ConsumerCtx \<Rightarrow> eth_Block \<Rightarrow> evm_Tx list
     \<Rightarrow> string list \<times> u16 \<Rightarrow> (database, string list \<times> u16) go" where
  "atomic_loop G L C w ctx block = loop (\<lambda>atomicTX (txIDs, typ).
     let txID = ev_ID atomicTX; txIDs = txIDs @ [ID_String L txID] in
     case ev_Unsigned atomicTX of
       AtomicExport atx \<Rightarrow>
         andThen (indexExportTx G L C w ctx txID atx (eb_ExtData block)) (ret (txIDs, CChainExport))
     | AtomicImport atx \<Rightarrow>
         bind (lift_err (evm_Marshal C (ev_Unsigned atomicTX))) (\<lambda>unsignedBytes.
         andThen (indexImportTx G L C w ctx txID atx (ev_Creds atomicTX) (eb_ExtData block)
                    unsignedBytes)
           (ret (txIDs, CChainImport)))
     | AtomicOther \<Rightarrow> ret (txIDs, typ))"

definition index_rawtx ::
  "globals \<Rightarrow> cvmlib \<Rightarrow> cvmWriter \<Rightarrow> ConsumerCtx \<Rightarrow> eth_Block \<Rightarrow> nat \<times> eth_Tx \<Rightarrow> (database, unit) go" where
  "index_rawtx G C w ctx block = (\<lambda>(ipos, rawtx).
     bind (lift_err (et_JSON rawtx)) (\<lambda>txdata.
     let hash = et_Hash rawtx;
         toStr = CommonAddressHexRepair (Address_Hex C) (et_To rawtx) in
     bind (lift_err (et_Sender rawtx)) (\<lambda>fromAddr.
     let fromStr = CommonAddressHexRepair (Address_Hex C) (Some fromAddr);
         row = \<lparr>ctd_Hash = hash, ctd_Block = dec_nat (eb_Number block), ctd_Idx = of_nat ipos,
                ctd_FromAddr = fromStr, ctd_ToAddr = toStr, ctd_Nonce = et_Nonce rawtx,
                ctd_Amount = of_nat (et_Value rawtx), ctd_Status = 0, ctd_GasUsed = 0,
                ctd_GasPrice = 0, ctd_Serialization = txdata, ctd_Receipt = [],
                ctd_CreatedAt = ctx_Time ctx\<rparr> in
     bind (case cw_client w of
             None \<Rightarrow> ret row
           | Some call \<Rightarrow>
               bind (lift_err (ReadReceipt C call hash)) (\<lambda>receipt.
               andThen
                 (case er_ContractAddress receipt of
                    None \<Rightarrow> ret ()
                  | Some a \<Rightarrow>
                      InsertCvmAccount
                        \<lparr>cac_ID = 0, cac_Address = CommonAddressHexRepair (Address_Hex C) (Some a),
                         cac_TxCount = 0, cac_CreationTx = Some hash\<rparr> True)
                 (ret (row\<lparr>ctd_Status := ucast (er_Status receipt),
                           ctd_GasPrice := er_EffectiveGasPrice receipt,
                           ctd_GasUsed := er_GasUsed receipt, ctd_Receipt := er_Raw receipt\<rparr>))))
       (\<lambda>row.
     andThen (InsertCvmAccount
         \<lparr>cac_ID = 0, cac_Address = fromStr, cac_TxCount = 1, cac_CreationTx = None\<rparr> True)
     (andThen (if toStr \<noteq> fromStr
               then InsertCvmAccount
                 \<lparr>cac_ID = 0, cac_Address = toStr, cac_TxCount = 1, cac_CreationTx = None\<rparr> True
               else ret ())
       (InsertCvmTransactionsTxdata row (PerformUpdates G)))))))"

text \<open>The error of the count is dropped, and the count is then zero.\<close>

definition count_cache :: "CamLastBlockCache \<Rightarrow> (database, CountLastBlockCache) go" where
  "count_cache q w =
     (case QueryCountLastBlockCache q w of
        (Inl _, w1) \<Rightarrow> (Inr \<lparr>clb_Cnt = 0\<rparr>, w1)
      | (Inr v, w1) \<Rightarrow> (Inr v, w1))"

definition update_cache :: "string \<Rightarrow> string \<Rightarrow> (database, unit) go" where
  "update_cache block chainID =
     (let newLastBlockCache = \<lparr>lbc_CurrentBlock = block, lbc_ChainID = chainID\<rparr> in
      bind (count_cache newLastBlockCache) (\<lambda>res.
      if clb_Cnt res > 0 then InsertCamLastBlockCache newLastBlockCache True
      else InsertCamLastBlockCache newLastBlockCache False))"

definition indexBlockInternal ::
  "globals \<Rightarrow> nodelib \<Rightarrow> cvmlib \<Rightarrow> cvmWriter \<Rightarrow> ConsumerCtx \<Rightarrow> evm_Tx list \<Rightarrow> BlockProposal \<Rightarrow> eth_Block
     \<Rightarrow> (database, unit) go" where
  "indexBlockInternal G L C w ctx atomicTXs proposer block =
     bind (atomic_loop G L C w ctx block atomicTXs ([], 0)) (\<lambda>(txIDs, typ).
     andThen (each (index_rawtx G C w ctx block) (List.enumerate 0 (eb_Transactions block)))
     (andThen (each (\<lambda>txIDString.
         InsertCvmTransactionsAtomic
           \<lparr>cat_TransactionID = txIDString, cat_Block = dec_nat (eb_Number block),
            cat_ChainID = ctx_ChainID ctx, cat_Type = typ, cat_CreatedAt = ctx_Time ctx\<rparr>
           (PerformUpdates G)) txIDs)
     (bind (lift_err (eb_HeaderJSON block)) (\<lambda>blockBytes.
     andThen (InsertCvmBlocks
         \<lparr>cb_Block = dec_nat (eb_Number block), cb_Hash = eb_Hash block, cb_ChainID = ctx_ChainID ctx,
          cb_EvmTx = of_nat (length (eb_Transactions block)), cb_AtomicTx = of_nat (length txIDs),
          cb_Serialization = blockBytes, cb_CreatedAt = ctx_Time ctx,
          cb_Proposer = bp_Proposer proposer, cb_ProposerTime = bp_TimeStamp proposer\<rparr>)
       (update_cache (dec_nat (eb_Number block)) (ctx_ChainID ctx))))))"

definition Cvm_indexBlock ::
  "globals \<Rightarrow> nodelib \<Rightarrow> cvmlib \<Rightarrow> cvmWriter \<Rightarrow> ConsumerCtx \<Rightarrow> bytes \<Rightarrow> (database, unit) go" where
  "Cvm_indexBlock G L C w ctx blockBytes =
     bind (case cvm_proposer_Parse C blockBytes of
             Inl _ \<Rightarrow> bind (lift_err (rlp_DecodeBytes C blockBytes))
                       (\<lambda>b. ret (b, \<lparr>bp_Proposer = [], bp_TimeStamp = None\<rparr>))
           | Inr pb \<Rightarrow> bind (lift_err (rlp_DecodeBytes C (proposer_block_Block pb)))
                        (\<lambda>b. ret (b, NewBlockProposal (Some pb) (Some (ctx_Time ctx)))))
       (\<lambda>(ethBlock, cvmProposer).
     bind (if length (eb_ExtData ethBlock) > 0 then
             (if eb_Time ethBlock < cw_ap5Activation w
              then lift_err (extractAtomicTxsPreApricotPhase5 C (eb_ExtData ethBlock))
              else lift_err (extractAtomicTxsPostApricotPhase5 C (eb_ExtData ethBlock)))
           else ret []) (\<lambda>atomicTxs.
     indexBlockInternal G L C w ctx atomicTxs cvmProposer ethBlock))"

definition Cvm_Consume ::
  "globals \<Rightarrow> nodelib \<Rightarrow> cvmlib \<Rightarrow> cvmWriter \<Rightarrow> Consumable \<Rightarrow> (database, unit) go" where
  "Cvm_Consume G L C w c =
     with_tx (Cvm_indexBlock G L C w
       (NewConsumerContext (cs_Timestamp c) (cs_Nanosecond c) (cs_ChainID c)) (cs_Body c))"

definition Cvm_ConsumeConsensus :: "(database, unit) go" where
  "Cvm_ConsumeConsensus = ret ()"

definition Cvm_Bootstrap :: "(database, unit) go" where
  "Cvm_Bootstrap = ret ()"

section \<open>Keys, ledger, environment\<close>

lemma insertAddress_tame [steps_intros]:
  "steps (tame (PerformUpdates G)) (insertAddress G L C typ ctx idx txid address assetID amount nonce)"
  unfolding insertAddress_def by (intro steps_intros)

lemma Cvm_indexTransaction_tame [steps_intros]:
  "steps (tame (PerformUpdates G))
     (Cvm_indexTransaction G L w ctx txid typ blockChainID txFee unsignedBytes)"
  unfolding Cvm_indexTransaction_def Let_def by (intro steps_intros)

lemma export_ins_tame [steps_intros]:
  "steps (tame (PerformUpdates G)) (export_ins G L C w ctx txID ins t)"
  unfolding export_ins_def by (auto intro!: steps_intros)

lemma import_outs_tame [steps_intros]:
  "steps (tame (PerformUpdates G)) (import_outs G L C w ctx txID outs t)"
  unfolding import_outs_def by (auto intro!: steps_intros)

lemma indexExportTx_tame [steps_intros]:
  "steps (tame (PerformUpdates G)) (indexExportTx G L C w ctx txID tx blockBytes)"
  unfolding indexExportTx_def by (intro steps_intros)

lemma indexImportTx_tame [steps_intros]:
  "steps (tame (PerformUpdates G)) (indexImportTx G L C w ctx txID tx creds blockBytes unsignedBytes)"
  unfolding indexImportTx_def by (intro steps_intros)

lemma atomic_loop_tame [steps_intros]:
  "steps (tame (PerformUpdates G)) (atomic_loop G L C w ctx block atomicTXs s)"
  unfolding atomic_loop_def Let_def
  by (auto intro!: steps_intros split: UnsignedAtomicTx.split)

lemma index_rawtx_tame [steps_intros]:
  "steps (tame (PerformUpdates G)) (index_rawtx G C w ctx block tx)"
  unfolding index_rawtx_def Let_def by (intro steps_intros)

lemma count_cache_tame [steps_intros]: "steps (tame u) (count_cache q)"
proof -
  have "steps (tame u) (QueryCountLastBlockCache q)"
    unfolding QueryCountLastBlockCache_def by (intro steps_intros)
  then show ?thesis
    unfolding steps_def count_cache_def
    by (auto split: prod.splits sum.splits) (metis snd_conv)+
qed

lemma update_cache_tame [steps_intros]: "steps (tame u) (update_cache block chainID)"
  unfolding update_cache_def Let_def by (intro steps_intros)

lemma indexBlockInternal_tame [steps_intros]:
  "steps (tame (PerformUpdates G)) (indexBlockInternal G L C w ctx atomicTXs proposer block)"
  unfolding indexBlockInternal_def by (intro steps_intros)

lemma Cvm_indexBlock_tame [steps_intros]:
  "steps (tame (PerformUpdates G)) (Cvm_indexBlock G L C w ctx blockBytes)"
  unfolding Cvm_indexBlock_def by (auto intro!: steps_intros)

lemma Cvm_Consume_tame [steps_intros]: "steps (tame (PerformUpdates G)) (Cvm_Consume G L C w c)"
  unfolding Cvm_Consume_def by (intro steps_intros)

section \<open>Hexadecimal\<close>

lemma hex_val_digit [simp]: "n < 16 \<Longrightarrow> hex_val (hex_digit n) = Some n"
  by (auto simp: hex_val_def hex_digit_def Let_def)

lemma hex_roundtrip:
  "list_all (\<lambda>b. b < 256) bs \<Longrightarrow> hex_DecodeString (hex_EncodeToString bs) = Some bs"
  by (induction bs) auto

lemma hex_val_less: "hex_val c = Some n \<Longrightarrow> n < 16"
  by (auto simp: hex_val_def Let_def split: if_splits)

lemma hex_decode_bytes: "hex_DecodeString s = Some bs \<Longrightarrow> list_all (\<lambda>b. b < 256) bs"
proof (induction s arbitrary: bs rule: hex_DecodeString.induct)
  case (3 c d s)
  then obtain h l bs' where "hex_val c = Some h" "hex_val d = Some l" "hex_DecodeString s = Some bs'"
    and bs: "bs = (16 * h + l) # bs'" by (auto split: option.splits)
  moreover from this have "h < 16" and "l < 16" by (auto dest: hex_val_less)
  ultimately show ?case using 3 by auto
qed auto

lemma hex_no_prefix: "hex_DecodeString s = Some bs \<Longrightarrow> \<not> HasPrefix s ''0x''"
proof (induction s rule: hex_DecodeString.induct)
  case (3 c d s)
  have "hex_val (CHR ''x'') = None" by (simp add: hex_val_def)
  with 3 show ?case by (auto simp: HasPrefix_def split: option.splits)
qed (auto simp: HasPrefix_def)

definition lower_hex :: "char \<Rightarrow> bool" where
  "lower_hex c \<longleftrightarrow> c \<in> set ''0123456789abcdef''"

lemma hex_digit_lower: "n < 16 \<Longrightarrow> lower_hex (hex_digit n)"
proof -
  assume "n < 16"
  moreover have "list_all (\<lambda>n. lower_hex (hex_digit n)) [0..<16]" by code_simp
  ultimately show ?thesis by (simp add: list_all_iff)
qed

lemma hex_encode_lower: "list_all (\<lambda>b. b < 256) bs \<Longrightarrow> list_all lower_hex (hex_EncodeToString bs)"
  by (induction bs) (auto intro!: hex_digit_lower simp: less_mult_imp_div_less)

section \<open>What is recorded\<close>

definition recorded_addr :: "nodelib \<Rightarrow> bytes \<Rightarrow> nat \<Rightarrow> database \<Rightarrow> bool" where
  "recorded_addr L txID n d \<longleftrightarrow>
     list_all (\<lambda>k. list_ex (\<lambda>r. ID_String L (ID_Prefix L txID (of_nat k)) = cad_ID r)
       (cvm_addresses d)) [0..<n]"

fun recorded_atomic :: "nodelib \<Rightarrow> evm_Tx \<Rightarrow> database \<Rightarrow> bool" where
  "recorded_atomic L tx d =
     (case ev_Unsigned tx of
        AtomicExport atx \<Rightarrow> recorded_tx L (ev_ID tx) d \<and>
          recorded_all L (ev_ID tx) [] (xt_ExportedOutputs atx) d \<and>
          recorded_addr L (ev_ID tx) (length (xt_Ins atx)) d
      | AtomicImport atx \<Rightarrow> recorded_tx L (ev_ID tx) d \<and>
          recorded_all L (ev_ID tx) (mt_ImportedInputs atx) [] d \<and>
          recorded_addr L (ev_ID tx) (length (mt_Outs atx)) d
      | AtomicOther \<Rightarrow> True)"

definition recorded_rawtx :: "eth_Block \<Rightarrow> nat \<times> eth_Tx \<Rightarrow> database \<Rightarrow> bool" where
  "recorded_rawtx block = (\<lambda>(ipos, rawtx) d.
     list_ex (\<lambda>r. et_Hash rawtx = ctr_Hash r \<or>
                   dec_nat (eb_Number block) = ctr_Block r \<and> of_nat ipos = ctr_Idx r)
       (cvm_transactions_txdata d))"

definition recorded_cblock :: "eth_Block \<Rightarrow> database \<Rightarrow> bool" where
  "recorded_cblock block d \<longleftrightarrow> list_ex (\<lambda>r. dec_nat (eb_Number block) = cb_Block r) (cvm_blocks d)"

definition recorded_link :: "nodelib \<Rightarrow> evm_Tx \<Rightarrow> database \<Rightarrow> bool" where
  "recorded_link L tx d \<longleftrightarrow>
     list_ex (\<lambda>r. ID_String L (ev_ID tx) = cat_TransactionID r) (cvm_transactions_atomic d)"

definition cvm_indexed :: "nodelib \<Rightarrow> evm_Tx list \<Rightarrow> eth_Block \<Rightarrow> database \<Rightarrow> bool" where
  "cvm_indexed L atomicTXs block d \<longleftrightarrow>
     list_all (\<lambda>tx. recorded_atomic L tx d \<and> recorded_link L tx d) atomicTXs \<and>
     list_all (\<lambda>tx. recorded_rawtx block tx d) (List.enumerate 0 (eb_Transactions block)) \<and>
     recorded_cblock block d"

lemma recorded_addr_mono: "recorded_addr L txID n d \<Longrightarrow> grows d d' \<Longrightarrow> recorded_addr L txID n d'"
  unfolding recorded_addr_def grows_def list_all_iff by (blast intro: list_ex_prefix)

lemma recorded_atomic_mono: "recorded_atomic L tx d \<Longrightarrow> grows d d' \<Longrightarrow> recorded_atomic L tx d'"
  by (cases "ev_Unsigned tx") (auto intro: recorded_mono recorded_all_mono recorded_addr_mono)

lemma recorded_rawtx_mono: "recorded_rawtx block tx d \<Longrightarrow> grows d d' \<Longrightarrow> recorded_rawtx block tx d'"
  unfolding recorded_rawtx_def grows_def by (cases tx) (auto intro: list_ex_prefix)

lemma recorded_cblock_mono: "recorded_cblock block d \<Longrightarrow> grows d d' \<Longrightarrow> recorded_cblock block d'"
  unfolding recorded_cblock_def grows_def by (blast intro: list_ex_prefix)

lemma recorded_link_mono: "recorded_link L tx d \<Longrightarrow> grows d d' \<Longrightarrow> recorded_link L tx d'"
  unfolding recorded_link_def grows_def by (blast intro: list_ex_prefix)

lemma InsertCvmAddresses_valid:
  "valid honest (InsertCvmAddresses v False)
     (\<lambda>_ w. list_ex (CvmAddresses_clash v) (cvm_addresses (store w)))"
  using cvm_addresses_tbl.insert_valid [of TableCvmAddresses v]
  by (cases v) (simp add: InsertCvmAddresses_def upsert_def)

lemma InsertCvmTransactionsAtomic_valid:
  "valid honest (InsertCvmTransactionsAtomic v False)
     (\<lambda>_ w. list_ex (CvmTransactionsAtomic_clash v) (cvm_transactions_atomic (store w)))"
  using cvm_transactions_atomic_tbl.insert_valid [of TableCvmTransactionsAtomic v]
  by (cases v) (simp add: InsertCvmTransactionsAtomic_def upsert_def)

lemma InsertCvmBlocks_valid:
  "valid honest (InsertCvmBlocks v) (\<lambda>_ w. list_ex (CvmBlocks_clash v) (cvm_blocks (store w)))"
  using cvm_blocks_tbl.insert_valid [of TableCvmBlocks v]
  by (cases v) (simp add: InsertCvmBlocks_def)

lemma sql_null_not_dup: "\<not> ErrIsDuplicateEntryError (Some sql_null)"
  by (simp add: ErrIsDuplicateEntryError_def sql_null_def HasPrefix_def)

lemma InsertCvmTransactionsTxdata_valid:
  "valid honest (InsertCvmTransactionsTxdata v False)
     (\<lambda>_ w. list_ex (\<lambda>r. ctd_Hash v = ctr_Hash r \<or> ctd_Block v = ctr_Block r \<and> ctd_Idx v = ctr_Idx r)
        (cvm_transactions_txdata (store w)))"
  using sql_null_not_dup
  by (auto simp: valid_def InsertCvmTransactionsTxdata_def upsert_def ignore_dup_def exec_def Let_def
      andThen_def bind_def ret_def CvmTxdataRow_clash_def list_ex_iff honest_def
      ErrIsDuplicateEntryError_def split: option.splits if_splits)

lemma index_rawtx_recorded:
  assumes "\<not> PerformUpdates G"
  shows "valid honest (index_rawtx G C w ctx block tx) (\<lambda>_ w. recorded_rawtx block tx (store w))"
proof -
  have off: "PerformUpdates G = False" using assms by simp
  obtain ipos rawtx where tx: "tx = (ipos, rawtx)" by (cases tx)
  have last: "valid honest (InsertCvmTransactionsTxdata row False)
      (\<lambda>_ w. recorded_rawtx block tx (store w))"
    if "ctd_Hash row = et_Hash rawtx" and "ctd_Block row = dec_nat (eb_Number block)"
      and "ctd_Idx row = of_nat ipos" for row
    by (rule valid_conseq [OF InsertCvmTransactionsTxdata_valid])
       (use that in \<open>auto simp: recorded_rawtx_def tx\<close>)
  have row: "valid honest (case cw_client w of None \<Rightarrow> ret row | Some call \<Rightarrow>
        bind (lift_err (ReadReceipt C call hash)) (\<lambda>receipt. andThen (m receipt)
          (ret (row\<lparr>ctd_Status := ucast (er_Status receipt),
              ctd_GasPrice := er_EffectiveGasPrice receipt,
              ctd_GasUsed := er_GasUsed receipt, ctd_Receipt := er_Raw receipt\<rparr>))))
      (\<lambda>r w. honest w \<and> ctd_Hash r = ctd_Hash row \<and> ctd_Block r = ctd_Block row \<and> ctd_Idx r = ctd_Idx row)"
    if "\<And>receipt. steps (tame False) (m receipt)" for row hash and m :: "ExtendedReceipt \<Rightarrow> (database, unit) go"
    by (auto split: option.split intro!: valid_ret valid_bind [where M = "\<lambda>_. honest"]
        valid_andThen [OF valid_honest [OF that]])
       (auto simp: valid_def lift_err_def ret_def fail_def split: sum.splits)
  show ?thesis
    unfolding index_rawtx_def tx prod.case Let_def off
    apply (rule valid_skip_bind [OF tame.steps_lift_err [where u = False]])
    apply (rule valid_skip_bind [OF tame.steps_lift_err [where u = False]])
    apply (rule valid_bind [OF row], intro steps_intros)
    apply (rule valid_pure)
    apply (rule valid_skip [where u = False], intro steps_intros)
    apply (rule valid_skip [where u = False], intro steps_intros)
    apply (rule last [unfolded tx]; simp)
    done
qed

lemma insertAddress_recorded:
  assumes "\<not> PerformUpdates G"
  shows "valid honest (insertAddress G L C typ ctx (of_nat k) txid address assetID amount nonce)
     (\<lambda>_ w. honest w \<and> list_ex (\<lambda>r. ID_String L (ID_Prefix L txid (of_nat k)) = cad_ID r)
        (cvm_addresses (store w)))"
proof -
  have off: "PerformUpdates G = False" using assms by simp
  show ?thesis
    unfolding insertAddress_def off
    by (rule valid_conseq [OF valid_honestI [OF InsertCvmAddresses_tame InsertCvmAddresses_valid]])
       (auto simp: CvmAddresses_clash_def list_ex_iff)
qed

text \<open>A loop over numbered items whose body inserts the address row of its number.\<close>

lemma loop_addr_recorded:
  assumes "\<And>k x t. valid honest (f (k, x) t)
      (\<lambda>_ w. honest w \<and> list_ex (\<lambda>r. ID_String L (ID_Prefix L txID (of_nat k)) = cad_ID r)
        (cvm_addresses (store w)))"
    and "\<And>x t. steps (tame u) (f x t)" and "\<not> u"
  shows "valid honest (loop f (List.enumerate 0 xs) t)
     (\<lambda>_ w. honest w \<and> recorded_addr L txID (length xs) (store w))"
proof -
  let ?h = "\<lambda>k d. list_ex (\<lambda>r. ID_String L (ID_Prefix L txID (of_nat k)) = cad_ID r) (cvm_addresses d)"
  have mono: "?h k d \<Longrightarrow> grows d d' \<Longrightarrow> ?h k d'" for k d d'
    unfolding grows_def by (blast intro: list_ex_prefix)
  have "valid honest (loop f (List.enumerate 0 xs) t)
     (\<lambda>_ w. honest w \<and> (\<forall>x \<in> set (List.enumerate 0 xs). honest w \<and> ?h (fst x) (store w)))"
  proof (rule valid_loop_each)
    fix x t
    show "valid honest (f x t) (\<lambda>_ w. honest w \<and> honest w \<and> ?h (fst x) (store w))"
      using assms(1) [of "fst x" "snd x" t] by simp
  next
    fix x y t
    show "valid (\<lambda>w. honest w \<and> ?h (fst y) (store w)) (f x t) (\<lambda>_ w. honest w \<and> ?h (fst y) (store w))"
      by (rule valid_tame [OF assms(2) mono assms(3)])
  qed
  moreover have "(k, xs ! k) \<in> set (List.enumerate 0 xs)" if "k < length xs" for k
    using that by (simp add: in_set_enumerate_eq)
  ultimately show ?thesis
    by (elim valid_conseq) (fastforce simp: recorded_addr_def list_all_iff)+
qed

lemma add_keeps:
  "valid (\<lambda>w. honest w \<and> A w) (if b then lift_err r else ret t) (\<lambda>_ w. honest w \<and> A w)"
  for t :: u64
  by (auto simp: valid_def lift_err_def ret_def fail_def split: sum.splits if_splits)

lemma export_ins_recorded:
  assumes "\<not> PerformUpdates G"
  shows "valid honest (export_ins G L C w ctx txID (List.enumerate 0 ins) t)
     (\<lambda>_ w. honest w \<and> recorded_addr L txID (length ins) (store w))"
  unfolding export_ins_def
  by (rule loop_addr_recorded [OF _ _ assms],
      simp only: prod.case, rule valid_andThen [OF insertAddress_recorded [OF assms] add_keeps])
     (auto intro!: steps_intros)

lemma import_outs_recorded:
  assumes "\<not> PerformUpdates G"
  shows "valid honest (import_outs G L C w ctx txID (List.enumerate 0 outs) t)
     (\<lambda>_ w. honest w \<and> recorded_addr L txID (length outs) (store w))"
  unfolding import_outs_def
  by (rule loop_addr_recorded [OF _ _ assms],
      simp only: prod.case, rule valid_andThen [OF insertAddress_recorded [OF assms] add_keeps])
     (auto intro!: steps_intros)

lemma Cvm_indexTransaction_recorded:
  assumes "\<not> PerformUpdates G"
  shows "valid honest (Cvm_indexTransaction G L w ctx txid typ blockChainID txFee unsignedBytes)
     (\<lambda>_ w. recorded_tx L txid (store w))"
  unfolding Cvm_indexTransaction_def Let_def by (rule InsertTransactionBase_recorded [OF assms])

text \<open>The three phases of both: each records its part, the later ones keep it.\<close>

lemma three_phases:
  assumes m: "valid honest m (\<lambda>_ w. honest w \<and> A (store w))"
    and k: "\<And>x. valid honest (k x) (\<lambda>_ w. honest w \<and> B (store w))" "\<And>x. steps (tame u) (k x)"
    and l: "\<And>x y. valid honest (l x y) (\<lambda>_ w. D (store w))" "\<And>x y. steps (tame u) (l x y)"
    and A: "\<And>d d'. A d \<Longrightarrow> grows d d' \<Longrightarrow> A d'" and B: "\<And>d d'. B d \<Longrightarrow> grows d d' \<Longrightarrow> B d'" and u: "\<not> u"
  shows "valid honest (bind m (\<lambda>x. bind (k x) (l x))) (\<lambda>_ w. D (store w) \<and> B (store w) \<and> A (store w))"
proof (rule valid_bind [OF m])
  fix x
  have k': "valid (\<lambda>w. honest w \<and> A (store w)) (k x) (\<lambda>_ w. honest w \<and> A (store w) \<and> B (store w))"
    by (rule valid_conseq [OF valid_conj [OF k(1) valid_tame [OF k(2) A u]]]) auto
  have AB: "A d \<and> B d \<Longrightarrow> grows d d' \<Longrightarrow> A d' \<and> B d'" for d d' using A B by blast
  have "valid (\<lambda>w. honest w \<and> A (store w) \<and> B (store w)) (l x y)
      (\<lambda>_ w. D (store w) \<and> B (store w) \<and> A (store w))" for y
    by (rule valid_conseq [OF valid_conj [OF l(1) valid_tame [OF l(2) AB u]]]) auto
  then show "valid (\<lambda>w. honest w \<and> A (store w)) (bind (k x) (l x))
      (\<lambda>_ w. D (store w) \<and> B (store w) \<and> A (store w))"
    by (rule valid_bind [OF k'])
qed

lemma indexExportTx_recorded:
  assumes "\<not> PerformUpdates G"
  shows "valid honest (indexExportTx G L C w ctx txID tx blockBytes)
     (\<lambda>_ w. recorded_tx L txID (store w) \<and> recorded_all L txID [] (xt_ExportedOutputs tx) (store w)
        \<and> recorded_addr L txID (length (xt_Ins tx)) (store w))"
proof -
  have outs: "valid honest (outs_loop G L (cw_djtx w) ctx txID c False (xt_ExportedOutputs tx) (0, 0))
      (\<lambda>_ w. honest w \<and> recorded_all L txID [] (xt_ExportedOutputs tx) (store w))" for c
    using outs_loop_recorded [OF assms, of L "cw_djtx w" ctx txID c False "xt_ExportedOutputs tx" 0 0]
    by (auto simp: recorded_all_def elim!: valid_conseq)
  show ?thesis
    unfolding indexExportTx_def
    by (rule three_phases [OF export_ins_recorded [OF assms] outs _ _ _ recorded_addr_mono
          recorded_all_mono assms])
       (auto intro!: steps_intros Cvm_indexTransaction_recorded [OF assms] split: prod.split)
qed

lemma indexImportTx_recorded:
  assumes "\<not> PerformUpdates G"
  shows "valid honest (indexImportTx G L C w ctx txID tx creds blockBytes unsignedBytes)
     (\<lambda>_ w. recorded_tx L txID (store w) \<and> recorded_all L txID (mt_ImportedInputs tx) [] (store w)
        \<and> recorded_addr L txID (length (mt_Outs tx)) (store w))"
proof -
  have ins: "valid honest (ins_loop G L (cw_djtx w) ctx txID creds unsignedBytes c (mt_ImportedInputs tx) (0, 0))
      (\<lambda>_ w. honest w \<and> recorded_all L txID (mt_ImportedInputs tx) [] (store w))" for c
    by (rule valid_conseq [OF ins_loop_recorded [OF assms]]) (auto simp: recorded_all_def)
  show ?thesis
    unfolding indexImportTx_def
    by (rule three_phases [OF import_outs_recorded [OF assms] ins _ _ _ recorded_addr_mono
          recorded_all_mono assms])
       (auto intro!: steps_intros Cvm_indexTransaction_recorded [OF assms] split: prod.split)
qed

text \<open>What the loop over the atomic transactions assigns.\<close>

fun atomic_typ :: "UnsignedAtomicTx \<Rightarrow> u16 \<Rightarrow> u16" where
  "atomic_typ (AtomicExport _) typ = CChainExport"
| "atomic_typ (AtomicImport _) typ = CChainImport"
| "atomic_typ AtomicOther typ = typ"

definition last_typ :: "evm_Tx list \<Rightarrow> u16 \<Rightarrow> u16" where
  "last_typ txs typ = fold (\<lambda>tx. atomic_typ (ev_Unsigned tx)) txs typ"

definition atomic_step ::
  "globals \<Rightarrow> nodelib \<Rightarrow> cvmlib \<Rightarrow> cvmWriter \<Rightarrow> ConsumerCtx \<Rightarrow> eth_Block \<Rightarrow> evm_Tx
     \<Rightarrow> string list \<times> u16 \<Rightarrow> (database, string list \<times> u16) go" where
  "atomic_step G L C w ctx block atomicTX s =
     (case ev_Unsigned atomicTX of
        AtomicExport atx \<Rightarrow>
          andThen (indexExportTx G L C w ctx (ev_ID atomicTX) atx (eb_ExtData block))
            (ret (fst s @ [ID_String L (ev_ID atomicTX)], CChainExport))
      | AtomicImport atx \<Rightarrow>
          bind (lift_err (evm_Marshal C (ev_Unsigned atomicTX))) (\<lambda>unsignedBytes.
          andThen (indexImportTx G L C w ctx (ev_ID atomicTX) atx (ev_Creds atomicTX)
                     (eb_ExtData block) unsignedBytes)
            (ret (fst s @ [ID_String L (ev_ID atomicTX)], CChainImport)))
      | AtomicOther \<Rightarrow> ret (fst s @ [ID_String L (ev_ID atomicTX)], snd s))"

lemma atomic_loop_steps: "atomic_loop G L C w ctx block = loop (atomic_step G L C w ctx block)"
  unfolding atomic_loop_def
  by (rule arg_cong [where f = loop]) (auto simp: fun_eq_iff atomic_step_def Let_def split: UnsignedAtomicTx.split)

lemma atomic_step_tame [steps_intros]:
  "steps (tame (PerformUpdates G)) (atomic_step G L C w ctx block tx s)"
  unfolding atomic_step_def by (auto intro!: steps_intros split: UnsignedAtomicTx.split)

lemma atomic_step_recorded:
  assumes "\<not> PerformUpdates G"
  shows "valid honest (atomic_step G L C w ctx block tx s) (\<lambda>_ w. recorded_atomic L tx (store w))"
proof (cases "ev_Unsigned tx")
  case (AtomicExport atx)
  then show ?thesis
    by (auto simp: atomic_step_def intro!: valid_last valid_conseq [OF indexExportTx_recorded [OF assms]])
next
  case (AtomicImport atx)
  then show ?thesis
    unfolding atomic_step_def
    by (auto intro!: valid_skip_bind [OF tame.steps_lift_err] valid_last
        valid_conseq [OF indexImportTx_recorded [OF assms]])
next
  case AtomicOther
  then show ?thesis by (auto simp: atomic_step_def intro: valid_ret)
qed

lemma atomic_loop_recorded:
  assumes "\<not> PerformUpdates G"
  shows "valid honest (atomic_loop G L C w ctx block txs s)
     (\<lambda>_ w. honest w \<and> list_all (\<lambda>tx. recorded_atomic L tx (store w)) txs)"
proof -
  have "valid honest (loop (atomic_step G L C w ctx block) txs s)
     (\<lambda>_ w. honest w \<and> (\<forall>tx \<in> set txs. honest w \<and> recorded_atomic L tx (store w)))"
  proof (rule valid_loop_each)
    fix tx s
    show "valid honest (atomic_step G L C w ctx block tx s)
        (\<lambda>_ w. honest w \<and> honest w \<and> recorded_atomic L tx (store w))"
      by (rule valid_conseq [OF valid_honestI [OF atomic_step_tame atomic_step_recorded [OF assms]]]) auto
  next
    fix tx y s
    show "valid (\<lambda>w. honest w \<and> recorded_atomic L y (store w)) (atomic_step G L C w ctx block tx s)
        (\<lambda>_ w. honest w \<and> recorded_atomic L y (store w))"
      by (rule valid_tame [OF atomic_step_tame recorded_atomic_mono assms])
  qed
  then show ?thesis
    unfolding atomic_loop_steps by (rule valid_conseq) (auto simp: list_all_iff)
qed

lemma atomic_loop_yields:
  "yields (atomic_loop G L C w ctx block txs s)
     (\<lambda>s'. fst s' = fst s @ map (\<lambda>tx. ID_String L (ev_ID tx)) txs \<and> snd s' = last_typ txs (snd s))"
  unfolding atomic_loop_steps
proof (induction txs arbitrary: s)
  case Nil
  then show ?case by (simp add: yields_ret last_typ_def)
next
  case (Cons tx txs)
  have any: "yields m (\<lambda>_. True)" for m :: "(database, bytes) go" by (simp add: yields_def)
  have "yields (atomic_step G L C w ctx block tx s)
      (\<lambda>s'. fst s' = fst s @ [ID_String L (ev_ID tx)] \<and> snd s' = atomic_typ (ev_Unsigned tx) (snd s))"
    unfolding atomic_step_def
    by (auto split: UnsignedAtomicTx.split intro!: yields_andThen yields_ret yields_bind [OF any])
  then show ?case
    unfolding loop.simps
    by (rule yields_bind) (auto simp: last_typ_def intro!: yields_mono [OF Cons.IH])
qed

lemma links_recorded:
  assumes "\<not> PerformUpdates G"
  shows "valid honest (each (\<lambda>txIDString. InsertCvmTransactionsAtomic
         \<lparr>cat_TransactionID = txIDString, cat_Block = b, cat_ChainID = c, cat_Type = typ,
          cat_CreatedAt = t\<rparr> (PerformUpdates G)) (map (\<lambda>tx. ID_String L (ev_ID tx)) txs))
     (\<lambda>_ w. list_all (\<lambda>tx. recorded_link L tx (store w)) txs)"
proof -
  let ?ins = "\<lambda>txIDString. InsertCvmTransactionsAtomic
         \<lparr>cat_TransactionID = txIDString, cat_Block = b, cat_ChainID = c, cat_Type = typ,
          cat_CreatedAt = t\<rparr> (PerformUpdates G)"
  let ?h = "\<lambda>i d. list_ex (\<lambda>r. i = cat_TransactionID r) (cvm_transactions_atomic d)"
  have off: "PerformUpdates G = False" using assms by simp
  have mono: "?h i d \<Longrightarrow> grows d d' \<Longrightarrow> ?h i d'" for i d d'
    unfolding grows_def by (blast intro: list_ex_prefix)
  have one: "valid honest (?ins i) (\<lambda>_ w. honest w \<and> honest w \<and> ?h i (store w))" for i
    unfolding off
    by (rule valid_conseq [OF valid_honestI [OF InsertCvmTransactionsAtomic_tame
          InsertCvmTransactionsAtomic_valid]])
       (auto simp: CvmTransactionsAtomic_clash_def list_ex_iff)
  have keep: "valid (\<lambda>w. honest w \<and> ?h i (store w)) (?ins j) (\<lambda>_ w. honest w \<and> ?h i (store w))" for i j
    by (rule valid_tame [OF InsertCvmTransactionsAtomic_tame mono assms])
  show ?thesis
    by (rule valid_conseq [OF valid_each [where A = "\<lambda>i w. honest w \<and> ?h i (store w)", OF one keep]])
       (auto simp: list_all_iff recorded_link_def)
qed

lemma rawtxs_recorded:
  assumes "\<not> PerformUpdates G"
  shows "valid honest (each (index_rawtx G C w ctx block) txs)
     (\<lambda>_ w. list_all (\<lambda>tx. recorded_rawtx block tx (store w)) txs)"
proof -
  have one: "valid honest (index_rawtx G C w ctx block tx)
      (\<lambda>_ w. honest w \<and> honest w \<and> recorded_rawtx block tx (store w))" for tx
    by (rule valid_conseq [OF valid_honestI [OF index_rawtx_tame index_rawtx_recorded [OF assms]]]) auto
  have keep: "valid (\<lambda>w. honest w \<and> recorded_rawtx block y (store w)) (index_rawtx G C w ctx block tx)
      (\<lambda>_ w. honest w \<and> recorded_rawtx block y (store w))" for tx y
    by (rule valid_tame [OF index_rawtx_tame recorded_rawtx_mono assms])
  show ?thesis
    by (rule valid_conseq [OF valid_each
          [where A = "\<lambda>tx w. honest w \<and> recorded_rawtx block tx (store w)", OF one keep]])
       (auto simp: list_all_iff)
qed

lemma cblock_recorded:
  "valid honest (andThen (InsertCvmBlocks v) (update_cache b c)) (\<lambda>_ w. recorded_cblock block (store w))"
  if "cb_Block v = dec_nat (eb_Number block)"
proof -
  have ins: "valid honest (InsertCvmBlocks v) (\<lambda>_ w. recorded_cblock block (store w))"
    by (rule valid_conseq [OF InsertCvmBlocks_valid])
       (use that in \<open>auto simp: recorded_cblock_def CvmBlocks_clash_def list_ex_iff\<close>)
  have "valid honest (update_cache b c) (\<lambda>_ w. True)" by (simp add: valid_def)
  from valid_then_keep [OF ins InsertCvmBlocks_tame [where u = False] this update_cache_tame
      recorded_cblock_mono]
  show ?thesis by simp
qed

lemma valid_yields: "valid P m Q \<Longrightarrow> yields m R \<Longrightarrow> valid P m (\<lambda>x w. Q x w \<and> R x)"
  unfolding valid_def yields_def by blast

lemma indexBlockInternal_recorded:
  assumes "\<not> PerformUpdates G"
  shows "valid honest (indexBlockInternal G L C w ctx atomicTXs proposer block)
     (\<lambda>_ w. cvm_indexed L atomicTXs block (store w))"
proof -
  let ?A = "\<lambda>d. list_all (\<lambda>tx. recorded_atomic L tx d) atomicTXs"
  let ?R = "\<lambda>d. list_all (\<lambda>tx. recorded_rawtx block tx d) (List.enumerate 0 (eb_Transactions block))"
  let ?K = "\<lambda>d. list_all (\<lambda>tx. recorded_link L tx d) atomicTXs"
  let ?ids = "map (\<lambda>tx. ID_String L (ev_ID tx)) atomicTXs"
  have mono: "?A d \<Longrightarrow> grows d d' \<Longrightarrow> ?A d'" "?R d \<Longrightarrow> grows d d' \<Longrightarrow> ?R d'"
    "?K d \<Longrightarrow> grows d d' \<Longrightarrow> ?K d'" for d d'
    unfolding list_all_iff
    using recorded_atomic_mono recorded_rawtx_mono recorded_link_mono by blast+
  define rest where "rest ids ty =
     andThen (each (index_rawtx G C w ctx block) (List.enumerate 0 (eb_Transactions block)))
     (andThen (each (\<lambda>txIDString.
         InsertCvmTransactionsAtomic
           \<lparr>cat_TransactionID = txIDString, cat_Block = dec_nat (eb_Number block),
            cat_ChainID = ctx_ChainID ctx, cat_Type = ty, cat_CreatedAt = ctx_Time ctx\<rparr>
           (PerformUpdates G)) ids)
     (bind (lift_err (eb_HeaderJSON block)) (\<lambda>blockBytes.
     andThen (InsertCvmBlocks
         \<lparr>cb_Block = dec_nat (eb_Number block), cb_Hash = eb_Hash block, cb_ChainID = ctx_ChainID ctx,
          cb_EvmTx = of_nat (length (eb_Transactions block)), cb_AtomicTx = of_nat (length ids),
          cb_Serialization = blockBytes, cb_CreatedAt = ctx_Time ctx,
          cb_Proposer = bp_Proposer proposer, cb_ProposerTime = bp_TimeStamp proposer\<rparr>)
       (update_cache (dec_nat (eb_Number block)) (ctx_ChainID ctx)))))" for ids ty
  have rest_tame: "steps (tame (PerformUpdates G)) (rest ids ty)" for ids ty
    unfolding rest_def by (intro steps_intros)
  have rest: "valid honest (rest ?ids ty)
      (\<lambda>_ w. ?R (store w) \<and> ?K (store w) \<and> recorded_cblock block (store w))" for ty
    unfolding rest_def
    by (rule valid_then_keep [OF rawtxs_recorded [OF assms] _ valid_then_keep [OF links_recorded [OF assms]
          _ valid_skip_bind [OF tame.steps_lift_err cblock_recorded] _ mono(3) assms] _ mono(2) assms];
        (intro steps_intros | simp))
  have all: "valid (\<lambda>w. honest w \<and> ?A (store w)) (rest ?ids ty)
      (\<lambda>_ w. cvm_indexed L atomicTXs block (store w))" for ty
    by (rule valid_conseq [OF valid_conj [OF rest valid_tame [OF rest_tame mono(1) assms]]])
       (auto simp: cvm_indexed_def list_all_iff)
  have eq: "indexBlockInternal G L C w ctx atomicTXs proposer block =
      bind (atomic_loop G L C w ctx block atomicTXs ([], 0)) (\<lambda>s. rest (fst s) (snd s))"
    by (simp add: indexBlockInternal_def rest_def case_prod_unfold)
  have "yields (atomic_loop G L C w ctx block atomicTXs ([], 0)) (\<lambda>s. fst s = ?ids)"
    by (rule yields_mono [OF atomic_loop_yields]) simp
  note atomic = valid_yields [OF atomic_loop_recorded [OF assms] this]
  show ?thesis
    unfolding eq
  proof (rule valid_bind [OF atomic], rule valid_pure)
    fix s :: "string list \<times> u16"
    assume "fst s = ?ids"
    with all [of "snd s"]
    show "valid (\<lambda>w. honest w \<and> ?A (store w)) (rest (fst s) (snd s))
        (\<lambda>_ w. cvm_indexed L atomicTXs block (store w))" by simp
  qed
qed

section \<open>Fees\<close>

lemma InsertCvmAddresses_same_heads [steps_intros]:
  "steps (on_store same_heads) (InsertCvmAddresses v u)"
  unfolding InsertCvmAddresses_def by (intro writes_intros; simp add: same_heads_def)

lemma atomic_sums_same_heads [steps_intros]:
  "steps (on_store same_heads) (export_ins G L C w ctx txID ins t)"
  "steps (on_store same_heads) (import_outs G L C w ctx txID outs t)"
  unfolding export_ins_def import_outs_def insertAddress_def by (auto intro!: steps_intros)

lemma djtx_loops_same_heads [steps_intros]:
  "steps (on_store same_heads) (outs_loop G L w ctx txID chainID stake outs s)"
  "steps (on_store same_heads) (ins_loop G L w ctx txID creds ub chainID ins s')"
  unfolding outs_loop_def ins_loop_def InsertTransactionOuts_def by (intro steps_intros)+

definition ein_amount :: "cvmWriter \<Rightarrow> EVMInput \<Rightarrow> nat" where
  "ein_amount w inp = (if ei_AssetID inp = cw_djtxAssetID w then unat (ei_Amount inp) else 0)"

lemma export_ins_yields:
  assumes "Add64_exact L"
  shows "yields (export_ins G L C w ctx txID ins t)
     (\<lambda>t'. unat t' = unat t + sum_list (map (ein_amount w \<circ> snd) ins))"
  unfolding export_ins_def
proof (induction ins arbitrary: t)
  case (Cons x ins)
  obtain icnt inp where x: "x = (icnt, inp)" by (cases x)
  show ?case
    unfolding loop.simps x prod.case
    by (rule yields_bind [where M = "\<lambda>t'. unat t' = unat t + ein_amount w inp"])
       (auto simp: ein_amount_def comp_def intro!: yields_andThen yields_if yields_lift_err yields_ret
          yields_mono [OF Cons.IH] dest: Add64_exactD [OF assms])
qed (simp add: yields_ret)

lemma indexExportTx_fee:
  assumes "\<not> PerformUpdates G" and "Add64_exact L"
  shows "valid (\<lambda>w. honest w \<and> \<not> recorded_tx L txID (store w))
     (indexExportTx G L C w ctx txID tx blockBytes)
     (\<lambda>_ w'. \<exists>totalin totalout.
        unat totalin = sum_list (map (ein_amount w) (xt_Ins tx)) \<and>
        unat totalout = sum_list (map (amount_out (cw_djtx w)) (xt_ExportedOutputs tx)) \<and>
        tx_stored L txID (\<lambda>r. tx_Txfee r = totalin - totalout \<and> tx_Type r = ''atomic_export_tx''
          \<and> tx_ChainID r = ID_String L (xt_BlockchainID tx)) (store w'))"
proof -
  let ?P = "\<lambda>w. honest w \<and> \<not> recorded_tx L txID (store w)"
  let ?i = "sum_list (map (ein_amount w) (xt_Ins tx))"
  let ?o = "sum_list (map (amount_out (cw_djtx w)) (xt_ExportedOutputs tx))"
  have keep: "\<not> recorded_tx L txID d \<Longrightarrow> same_heads d d' \<Longrightarrow> \<not> recorded_tx L txID d'" for d d'
    by (simp add: same_heads_def recorded_tx_def)
  have "yields (export_ins G L C w ctx txID (List.enumerate 0 (xt_Ins tx)) 0) (\<lambda>t. unat t = ?i)"
    by (rule yields_mono [OF export_ins_yields [OF assms(2)]]) (simp flip: map_map)
  then have ins: "valid ?P (export_ins G L C w ctx txID (List.enumerate 0 (xt_Ins tx)) 0)
      (\<lambda>t w. ?P w \<and> unat t = ?i)"
    by (rule valid_framed [OF export_ins_tame atomic_sums_same_heads(1)]) (rule keep)
  have "yields (outs_loop G L (cw_djtx w) ctx txID c False (xt_ExportedOutputs tx) (0, 0))
      (\<lambda>s. unat (snd s) = ?o)" for c
    by (rule yields_mono [OF outs_loop_yields [OF assms(2)]]) simp
  then have outs: "valid ?P (outs_loop G L (cw_djtx w) ctx txID c False (xt_ExportedOutputs tx) (0, 0))
      (\<lambda>s w. ?P w \<and> unat (snd s) = ?o)" for c
    by (rule valid_framed [OF outs_loop_tame djtx_loops_same_heads(1)]) (rule keep)
  have kinds: "CChainExport \<noteq> CChainImport" by (simp add: CChainExport_def CChainImport_def)
  have base: "valid ?P (Cvm_indexTransaction G L w ctx txID CChainExport (xt_BlockchainID tx) fee blockBytes)
      (\<lambda>_ w'. tx_stored L txID (\<lambda>r. tx_Txfee r = fee \<and> tx_Type r = ''atomic_export_tx''
          \<and> tx_ChainID r = ID_String L (xt_BlockchainID tx)) (store w'))" for fee
    unfolding Cvm_indexTransaction_def Let_def
    by (rule valid_conseq [OF InsertTransactionBase_stores [OF assms(1)]]) (use kinds in simp_all)
  show ?thesis
    unfolding indexExportTx_def
    apply (rule valid_bind [OF ins], rule valid_pure)
    apply (rule valid_bind [OF outs], rule valid_pure)
    apply (simp only: case_prod_unfold)
    apply (rule valid_conseq [OF base], assumption)
    apply blast
    done
qed

lemma wrapped_difference:
  "unat (a - b :: u64) = (if unat b \<le> unat a then unat a - unat b else unat a + 2 ^ 64 - unat b)"
  by (simp add: unat_sub_if')

section \<open>Accounts\<close>

definition same_txdata :: "database \<Rightarrow> database \<Rightarrow> bool" where
  "same_txdata d d' \<longleftrightarrow> cvm_transactions_txdata d' = cvm_transactions_txdata d"

interpretation txdata: store_rel same_txdata
  by unfold_locales (simp_all add: same_txdata_def)

lemma InsertCvmAccount_same_txdata [steps_intros]:
  "steps (on_store same_txdata) (InsertCvmAccount v u)"
  by (rule steps_InsertCvmAccount [OF txdata.store_rel_axioms]) (simp_all add: same_txdata_def)

definition txdata_row ::
  "eth_Block \<Rightarrow> nat \<times> eth_Tx \<Rightarrow> string \<Rightarrow> string \<Rightarrow> database \<Rightarrow> bool" where
  "txdata_row block = (\<lambda>(ipos, rawtx) fromStr toStr d.
     list_ex (\<lambda>r. ctr_Hash r = et_Hash rawtx \<and> ctr_Block r = dec_nat (eb_Number block)
        \<and> ctr_Idx r = of_nat ipos \<and> ctr_Amount r = of_nat (et_Value rawtx)
        \<and> account_id d fromStr = Some (ctr_IdFromAddr r)
        \<and> account_id d toStr = Some (ctr_IdToAddr r)) (cvm_transactions_txdata d))"

lemma InsertCvmTransactionsTxdata_row:
  "valid (\<lambda>w. honest w \<and> \<not> recorded_rawtx block (ipos, rawtx) (store w))
     (InsertCvmTransactionsTxdata row False)
     (\<lambda>_ w. txdata_row block (ipos, rawtx) (ctd_FromAddr row) (ctd_ToAddr row) (store w))"
  if "ctd_Hash row = et_Hash rawtx" and "ctd_Block row = dec_nat (eb_Number block)"
    and "ctd_Idx row = of_nat ipos" and "ctd_Amount row = of_nat (et_Value rawtx)"
  using that sql_null_not_dup
  by (auto simp: valid_def InsertCvmTransactionsTxdata_def upsert_def ignore_dup_def exec_def Let_def
      andThen_def bind_def ret_def recorded_rawtx_def txdata_row_def CvmTxdataRow_clash_def list_ex_iff
      honest_def ErrIsDuplicateEntryError_def account_id_def split: option.splits if_splits)

lemma index_rawtx_row:
  assumes "\<not> PerformUpdates G" and "et_Sender rawtx = Inr fromAddr"
  shows "valid (\<lambda>w. honest w \<and> \<not> recorded_rawtx block (ipos, rawtx) (store w))
     (index_rawtx G C w ctx block (ipos, rawtx))
     (\<lambda>_ w. txdata_row block (ipos, rawtx) (CommonAddressHexRepair (Address_Hex C) (Some fromAddr))
        (CommonAddressHexRepair (Address_Hex C) (et_To rawtx)) (store w))"
proof -
  have off: "PerformUpdates G = False" using assms by simp
  let ?P = "\<lambda>w. honest w \<and> \<not> recorded_rawtx block (ipos, rawtx) (store w)"
  have keep: "\<not> recorded_rawtx block (ipos, rawtx) d \<Longrightarrow> same_txdata d d' \<Longrightarrow>
      \<not> recorded_rawtx block (ipos, rawtx) d'" for d d'
    by (simp add: same_txdata_def recorded_rawtx_def)
  have skip: "valid ?P m (\<lambda>x w. ?P w \<and> R x)"
    if "steps (tame False) m" and "steps (on_store same_txdata) m" and "yields m R"
    for m :: "(database, 'b) go" and R
    by (rule valid_framed [OF that]) (rule keep)
  have account: "valid ?P (InsertCvmAccount v True) (\<lambda>_. ?P)" for v
    using skip [of "InsertCvmAccount v True" "\<lambda>_. True"]
    by (simp add: yields_def InsertCvmAccount_tame InsertCvmAccount_same_txdata)
  have other: "valid ?P (if b then InsertCvmAccount v True else ret ()) (\<lambda>_. ?P)" for b v
    by (simp add: account valid_ret)
  have row: "yields (case cw_client w of None \<Rightarrow> ret row | Some call \<Rightarrow>
        bind (lift_err (ReadReceipt C call hash)) (\<lambda>receipt. andThen (m receipt)
          (ret (row\<lparr>ctd_Status := ucast (er_Status receipt),
              ctd_GasPrice := er_EffectiveGasPrice receipt,
              ctd_GasUsed := er_GasUsed receipt, ctd_Receipt := er_Raw receipt\<rparr>))))
      (\<lambda>r. ctd_Hash r = ctd_Hash row \<and> ctd_Block r = ctd_Block row \<and> ctd_Idx r = ctd_Idx row
         \<and> ctd_Amount r = ctd_Amount row \<and> ctd_FromAddr r = ctd_FromAddr row
         \<and> ctd_ToAddr r = ctd_ToAddr row)"
    for row hash and m :: "ExtendedReceipt \<Rightarrow> (database, unit) go"
    by (auto split: option.split intro!: yields_ret yields_andThen yields_bind [where M = "\<lambda>_. True"]
        yields_lift_err)
  note last = InsertCvmTransactionsTxdata_row [of _ rawtx block ipos]
  have parse: "valid ?P (lift_err r) (\<lambda>_. ?P)" for r :: "goerr + bytes"
    by (auto simp: valid_def lift_err_def ret_def fail_def split: sum.splits)
  show ?thesis
    unfolding index_rawtx_def prod.case Let_def off assms(2) lift_err_def [of "Inr fromAddr"] sum.case
      bind_ret
    apply (rule valid_bind [OF parse])
    apply (rule valid_bind [OF skip [OF _ _ row]], (intro steps_intros)+)
    apply (rule valid_pure)
    apply (rule valid_andThen [OF account], rule valid_andThen [OF other])
    apply (rule valid_conseq [OF last]; simp)
    done
qed

section \<open>The links of atomic transactions\<close>

definition same_links :: "database \<Rightarrow> database \<Rightarrow> bool" where
  "same_links d d' \<longleftrightarrow> cvm_transactions_atomic d' = cvm_transactions_atomic d"

interpretation links: store_rel same_links
  by unfold_locales (simp_all add: same_links_def)

lemmas links_intros =
  links.steps_upsert links.steps_ignore_dup links.steps_wrap_err links.steps_if
  links.steps_sql_insert links.steps_sql_update links.steps_sql_delete links.steps_store_exec

lemma persist_same_links [steps_intros]:
  "steps (on_store same_links) (InsertAddresses v1 u)"
  "steps (on_store same_links) (InsertAddressChain v2 u)"
  "steps (on_store same_links) (InsertAddressBech32 v3 u)"
  "steps (on_store same_links) (InsertOutputAddressAccumulateOut v4 u)"
  "steps (on_store same_links) (InsertOutputAddressAccumulateIn v4 u)"
  "steps (on_store same_links) (InsertOutputAddresses v5 u)"
  "steps (on_store same_links) (UpdateOutputAddresses v5)"
  "steps (on_store same_links) (UpdateOutputAddressAccumulateInOutputsProcessed i)"
  "steps (on_store same_links) (InsertOutputsRedeeming v6 u)"
  "steps (on_store same_links) (InsertOutputTxsAccumulate v7)"
  "steps (on_store same_links) (InsertOutputs v8 u)"
  "steps (on_store same_links) (InsertTransactions v9 u)"
  "steps (on_store same_links) (InsertCvmAddresses v10 u)"
  "steps (on_store same_links) (InsertCvmBlocks v11)"
  "steps (on_store same_links) (InsertCamLastBlockCache v12 u)"
  unfolding InsertAddresses_def InsertAddressChain_def InsertAddressBech32_def
    InsertOutputAddressAccumulateOut_def InsertOutputAddressAccumulateIn_def
    InsertOutputAddresses_def UpdateOutputAddresses_def
    UpdateOutputAddressAccumulateInOutputsProcessed_def InsertOutputsRedeeming_def
    InsertOutputTxsAccumulate_def InsertOutputs_def InsertTransactions_def InsertCvmAddresses_def
    InsertCvmBlocks_def InsertCamLastBlockCache_def
  by (intro links_intros; simp add: same_links_def)+

lemma InsertCvmAccount_same_links [steps_intros]:
  "steps (on_store same_links) (InsertCvmAccount v u)"
  by (rule steps_InsertCvmAccount [OF links.store_rel_axioms]) (simp_all add: same_links_def)

lemma InsertCvmTransactionsTxdata_same_links [steps_intros]:
  "steps (on_store same_links) (InsertCvmTransactionsTxdata v u)"
  unfolding InsertCvmTransactionsTxdata_def
  by (intro links_intros) (auto simp: same_links_def Let_def split: option.splits if_splits)

lemma djtx_same_links [steps_intros]:
  "steps (on_store same_links) (InsertOutputAddress G L ctx outputID addressID sig txID idx chainID)"
  unfolding InsertOutputAddress_def Let_def by (intro steps_intros)

lemma InsertTransactionIns_same_links [steps_intros]:
  "steps (on_store same_links)
     (InsertTransactionIns G L w idx ctx totalin inp txID creds unsignedBytes chainID)"
  unfolding InsertTransactionIns_def InsertAddressFromPublicKey_def Let_def
  by (auto intro!: steps_intros split: Verifiable.split)

lemma ProcessStateOut_same_links [steps_intros]:
  "steps (on_store same_links)
     (ProcessStateOut G L w ctx out txID outputCount assetID amount totalout chainID stake genesisutxo)"
  unfolding ProcessStateOut_def InsertOutput_def Let_def
  by (auto intro!: steps_intros split: verify_State.split)

lemma atomic_step_same_links [steps_intros]:
  "steps (on_store same_links) (atomic_step G L C w ctx block tx s)"
  unfolding atomic_step_def indexExportTx_def indexImportTx_def export_ins_def import_outs_def
    insertAddress_def outs_loop_def ins_loop_def InsertTransactionOuts_def Cvm_indexTransaction_def
    InsertTransactionBase_def Let_def
  by (auto intro!: steps_intros split: UnsignedAtomicTx.split)

lemma index_rawtx_same_links [steps_intros]:
  "steps (on_store same_links) (index_rawtx G C w ctx block tx)"
  unfolding index_rawtx_def Let_def by (intro steps_intros)

lemma update_cache_same_links [steps_intros]: "steps (on_store same_links) (update_cache b c)"
proof -
  have "steps (on_store same_links) (QueryCountLastBlockCache q)" for q
    unfolding QueryCountLastBlockCache_def by (intro steps_intros)
  then have "steps (on_store same_links) (count_cache q)" for q
    unfolding steps_def count_cache_def
    by (auto split: prod.splits sum.splits) (metis snd_conv)+
  then show ?thesis unfolding update_cache_def Let_def by (auto intro!: steps_intros)
qed

definition links_typed :: "nodelib \<Rightarrow> evm_Tx list \<Rightarrow> u16 \<Rightarrow> database \<Rightarrow> bool" where
  "links_typed L txs ty d \<longleftrightarrow>
     list_all (\<lambda>r. cat_TransactionID r \<in> set (map (\<lambda>tx. ID_String L (ev_ID tx)) txs) \<longrightarrow> cat_Type r = ty)
       (cvm_transactions_atomic d)"

lemma link_insert_typed:
  "valid (\<lambda>w. links_typed L txs ty (store w))
     (InsertCvmTransactionsAtomic \<lparr>cat_TransactionID = i, cat_Block = b, cat_ChainID = c,
        cat_Type = ty, cat_CreatedAt = t\<rparr> False)
     (\<lambda>_ w. links_typed L txs ty (store w))"
  by (auto simp: valid_def InsertCvmTransactionsAtomic_def upsert_def ignore_dup_def sql_insert_def
      exec_def Let_def andThen_def bind_def ret_def links_typed_def list_all_iff
      split: option.splits if_splits)

lemma indexBlockInternal_links:
  assumes "\<not> PerformUpdates G"
  shows "valid (\<lambda>w. \<not> list_ex (\<lambda>tx. recorded_link L tx (store w)) atomicTXs)
     (indexBlockInternal G L C w ctx atomicTXs proposer block)
     (\<lambda>_ w. links_typed L atomicTXs (last_typ atomicTXs 0) (store w))"
proof -
  have off: "PerformUpdates G = False" using assms by simp
  let ?N = "\<lambda>d. \<not> list_ex (\<lambda>tx. recorded_link L tx d) atomicTXs"
  let ?T = "\<lambda>ty d. links_typed L atomicTXs ty d"
  have keepN: "valid (\<lambda>w. ?N (store w)) m (\<lambda>_ w. ?N (store w))"
    if "steps (on_store same_links) m" for m :: "(database, 'b) go"
    using that by (rule valid_steps) (simp add: on_store_def same_links_def recorded_link_def)
  have keepT: "valid (\<lambda>w. ?T ty (store w)) m (\<lambda>_ w. ?T ty (store w))"
    if "steps (on_store same_links) m" for m :: "(database, 'b) go" and ty
    using that by (rule valid_steps) (simp add: on_store_def same_links_def links_typed_def)
  have NT: "?T ty d" if "?N d" for ty d
    using that unfolding links_typed_def list_all_iff list_ex_iff recorded_link_def by fastforce
  have atomic: "valid (\<lambda>w. ?N (store w)) (atomic_loop G L C w ctx block atomicTXs ([], 0))
      (\<lambda>s w. ?N (store w) \<and> snd s = last_typ atomicTXs 0)"
    by (rule valid_yields [OF keepN yields_mono [OF atomic_loop_yields]])
       (auto simp: atomic_loop_steps intro!: steps_intros)
  show ?thesis
    unfolding indexBlockInternal_def off case_prod_unfold
    apply (rule valid_bind [OF atomic], rule valid_pure)
    apply (rule valid_andThen [OF keepN], intro steps_intros)
    apply (rule valid_andThen [where M = "\<lambda>w. ?T (last_typ atomicTXs 0) (store w)"])
     apply (rule valid_conseq [OF valid_each_keeps [where A = "\<lambda>w. ?T (last_typ atomicTXs 0) (store w)"]])
       apply (simp add: link_insert_typed)
      apply (erule NT)
     apply assumption
    apply (rule keepT, intro steps_intros)
    done
qed

section \<open>Properties\<close>

definition cvm_block :: "cvmlib \<Rightarrow> bytes \<Rightarrow> goerr + eth_Block" where
  "cvm_block C body =
     (case cvm_proposer_Parse C body of
        Inl _ \<Rightarrow> rlp_DecodeBytes C body
      | Inr pb \<Rightarrow> rlp_DecodeBytes C (proposer_block_Block pb))"

definition cvm_atomics :: "cvmlib \<Rightarrow> cvmWriter \<Rightarrow> eth_Block \<Rightarrow> goerr + evm_Tx list" where
  "cvm_atomics C w block =
     (if eb_ExtData block = [] then Inr []
      else if eb_Time block < cw_ap5Activation w
           then extractAtomicTxsPreApricotPhase5 C (eb_ExtData block)
           else extractAtomicTxsPostApricotPhase5 C (eb_ExtData block))"

lemma lift_err_Inr: "lift_err (Inr x) = ret x"
  by (simp add: lift_err_def)

lemma Cvm_indexBlock_internal:
  assumes "cvm_block C body = Inr block" and "cvm_atomics C w block = Inr atomicTXs"
  shows "\<exists>proposer. Cvm_indexBlock G L C w ctx body
           = indexBlockInternal G L C w ctx atomicTXs proposer block"
proof -
  have atomics: "(if length (eb_ExtData block) > 0 then
       (if eb_Time block < cw_ap5Activation w
        then lift_err (extractAtomicTxsPreApricotPhase5 C (eb_ExtData block))
        else lift_err (extractAtomicTxsPostApricotPhase5 C (eb_ExtData block)))
     else ret []) = (ret atomicTXs :: (database, evm_Tx list) go)"
    using assms(2) by (auto simp: cvm_atomics_def lift_err_def split: if_splits)
  show ?thesis
  proof (cases "cvm_proposer_Parse C body")
    case (Inl e)
    with assms(1) have "rlp_DecodeBytes C body = Inr block" by (simp add: cvm_block_def)
    with Inl show ?thesis
      unfolding Cvm_indexBlock_def by (auto simp only: sum.case lift_err_Inr bind_ret prod.case atomics)
  next
    case (Inr pb)
    with assms(1) have "rlp_DecodeBytes C (proposer_block_Block pb) = Inr block"
      by (simp add: cvm_block_def)
    with Inr show ?thesis
      unfolding Cvm_indexBlock_def by (auto simp only: sum.case lift_err_Inr bind_ret prod.case atomics)
  qed
qed

text \<open>C4: a C-chain block is indexed completely or not at all. When \<^verbatim>\<open>Consume\<close> returns no
  error, every atomic transaction is recorded with its outputs or inputs, its addresses and
  its link to the block, every Ethereum transaction has a row for its hash or its place in
  the block, and the block is recorded; when it returns an error, the database is as it was.\<close>

theorem Cvm_Consume_all_or_nothing:
  assumes "\<not> PerformUpdates G" and "honest w0" and "cvm_block C (cs_Body c) = Inr block"
    and "cvm_atomics C w block = Inr atomicTXs"
  shows "case Cvm_Consume G L C w c w0 of
           (Inl e, w1) \<Rightarrow> store w1 = store w0
         | (Inr _, w1) \<Rightarrow> cvm_indexed L atomicTXs block (store w1)"
proof (cases "Cvm_Consume G L C w c w0")
  case (Pair r w1)
  obtain proposer where eq: "Cvm_indexBlock G L C w
      (NewConsumerContext (cs_Timestamp c) (cs_Nanosecond c) (cs_ChainID c)) (cs_Body c)
    = indexBlockInternal G L C w
      (NewConsumerContext (cs_Timestamp c) (cs_Nanosecond c) (cs_ChainID c)) atomicTXs proposer block"
    using Cvm_indexBlock_internal [OF assms(3,4)] by blast
  have "valid honest (Cvm_Consume G L C w c) (\<lambda>_ w. cvm_indexed L atomicTXs block (store w))"
    unfolding Cvm_Consume_def eq
    by (rule valid_with_tx [OF indexBlockInternal_recorded [OF assms(1)]]) simp_all
  from validD [OF this _ assms(2)] Pair show ?thesis
    by (cases r) (auto simp: Cvm_Consume_def dest: with_tx_rollback)
qed

definition example_cblock :: eth_Block where
  "example_cblock =
     \<lparr>eb_Number = 12, eb_Hash = ''0xh'', eb_Time = 0, eb_ExtData = [], eb_HeaderJSON = Inr ''hdr'',
      eb_Transactions = [\<lparr>et_JSON = Inr ''tx'', et_Hash = ''0xt'', et_To = Some ''t'',
        et_Sender = Inr ''f'', et_Nonce = 0, et_Value = 5\<rparr>]\<rparr>"

definition example_cvmlib :: cvmlib where
  "example_cvmlib =
     \<lparr>cvm_proposer_Parse = (\<lambda>_. Inl ''not wrapped''), rlp_DecodeBytes = (\<lambda>_. Inr example_cblock),
      evm_Unmarshal = (\<lambda>_. Inl ''none''), evm_Unmarshals = (\<lambda>_. Inl ''none''), evm_Sign = Inr,
      evm_Marshal = (\<lambda>_. Inr []), Address_Hex = (\<lambda>b. b), receipt_Unmarshal = (\<lambda>_. Inl ''none'')\<rparr>"

definition example_cvmWriter :: cvmWriter where
  "example_cvmWriter =
     \<lparr>cw_networkID = 1, cw_djtxAssetID = ''DJTX'',
      cw_djtx = \<lparr>dw_chainID = ''C'', dw_djtxAssetID = ''DJTX''\<rparr>, cw_ap5Activation = 0,
      cw_client = None\<rparr>"

lemmas example_cvm_run =
  with_tx_def exec_def query_def lift_err_def indexBlockInternal_def atomic_loop_def index_rawtx_def
  update_cache_def count_cache_def QueryCountLastBlockCache_def InsertCamLastBlockCache_def
  InsertCvmBlocks_def InsertCvmAccount_def InsertCvmTransactionsTxdata_def account_id_def
  next_account_id_def CvmAccount_clash_def CvmTxdataRow_clash_def upsert_def ignore_dup_def
  sql_insert_def bind_def andThen_def ret_def Cvm_indexBlock_def CommonAddressHexRepair_def
  example_cvmlib_def example_cblock_def example_cvmWriter_def example_world_def empty_db_def
  example_globals_def NewConsumerContext_def TrimPrefix_def HasPrefix_def hex_val_def

lemma example_cvm_runs:
  "fst (Cvm_Consume example_globals example_lib example_cvmlib example_cvmWriter
     \<lparr>cs_ID = ''m'', cs_ChainID = ''C'', cs_Body = ''raw'', cs_Timestamp = 0, cs_Nanosecond = 0\<rparr>
     example_world) = Inr ()"
  by (simp add: Cvm_Consume_def example_cvm_run Let_def)

theorem Cvm_Consume_all_or_nothing_witness:
  "\<exists>w1. Cvm_Consume example_globals example_lib example_cvmlib example_cvmWriter
          \<lparr>cs_ID = ''m'', cs_ChainID = ''C'', cs_Body = ''raw'', cs_Timestamp = 0, cs_Nanosecond = 0\<rparr>
          example_world = (Inr (), w1)
      \<and> cvm_indexed example_lib [] example_cblock (store w1)"
proof -
  let ?c = "\<lparr>cs_ID = ''m'', cs_ChainID = ''C'', cs_Body = ''raw'', cs_Timestamp = 0, cs_Nanosecond = 0\<rparr>"
  obtain w1 where run: "Cvm_Consume example_globals example_lib example_cvmlib example_cvmWriter ?c
      example_world = (Inr (), w1)"
    using example_cvm_runs by (metis prod.collapse)
  have "\<not> PerformUpdates example_globals" and "cvm_block example_cvmlib (cs_Body ?c) = Inr example_cblock"
    and "cvm_atomics example_cvmlib example_cvmWriter example_cblock = Inr []"
    by (simp_all add: example_globals_def cvm_block_def cvm_atomics_def example_cvmlib_def
        example_cblock_def)
  from Cvm_Consume_all_or_nothing [OF this(1) example_world_ready(2) this(2,3), of example_lib] run
  show ?thesis by simp
qed

text \<open>C16: a transaction's row refers to existing accounts. When an Ethereum transaction is indexed
  whose hash and place are new, its row names the accounts of its sender and its receiver by
  the row numbers that these addresses have, and the amount is the transaction's value modulo
  2 to the 64.\<close>

theorem index_rawtx_accounts:
  assumes "\<not> PerformUpdates G" and "honest w0" and "et_Sender rawtx = Inr fromAddr"
    and "\<not> recorded_rawtx block (ipos, rawtx) (store w0)"
    and "index_rawtx G C w ctx block (ipos, rawtx) w0 = (Inr (), w1)"
  shows "list_ex (\<lambda>r. ctr_Hash r = et_Hash rawtx
        \<and> account_id (store w1) (CommonAddressHexRepair (Address_Hex C) (Some fromAddr))
            = Some (ctr_IdFromAddr r)
        \<and> account_id (store w1) (CommonAddressHexRepair (Address_Hex C) (et_To rawtx))
            = Some (ctr_IdToAddr r)
        \<and> unat (ctr_Amount r) = et_Value rawtx mod 2 ^ 64)
      (cvm_transactions_txdata (store w1))"
  using validD [OF index_rawtx_row [OF assms(1,3)] assms(5)] assms(2,4)
  by (fastforce simp: txdata_row_def list_ex_iff unsigned_of_nat take_bit_eq_mod)

theorem index_rawtx_accounts_witness:
  "\<exists>w1. index_rawtx example_globals example_cvmlib example_cvmWriter \<lparr>ctx_Time = 0, ctx_ChainID = ''C''\<rparr>
          example_cblock (0, eb_Transactions example_cblock ! 0) example_world = (Inr (), w1)
      \<and> list_ex (\<lambda>r. ctr_Hash r = ''0xt'' \<and> unat (ctr_Amount r) = 5) (cvm_transactions_txdata (store w1))"
proof -
  let ?run = "index_rawtx example_globals example_cvmlib example_cvmWriter
      \<lparr>ctx_Time = 0, ctx_ChainID = ''C''\<rparr> example_cblock (0, eb_Transactions example_cblock ! 0) example_world"
  have "fst ?run = Inr ()" by (simp add: example_cvm_run Let_def)
  then obtain w1 where run: "?run = (Inr (), w1)" by (metis prod.collapse)
  have "\<not> PerformUpdates example_globals"
    and "et_Sender (eb_Transactions example_cblock ! 0) = Inr ''f''"
    and "\<not> recorded_rawtx example_cblock (0, eb_Transactions example_cblock ! 0) (store example_world)"
    by (simp_all add: example_globals_def example_cblock_def recorded_rawtx_def empty_db_def)
  from index_rawtx_accounts [OF this(1) example_world_ready(2) this(2,3) run]
  show ?thesis using run by (auto simp: example_cblock_def list_ex_iff)
qed

text \<open>All atomic transactions of a block are stored under one type, that of the last import or
  export in it. When none of them was linked before, every link to one of them carries the
  type \<open>last_typ\<close>.\<close>

theorem indexBlockInternal_atomic_type:
  assumes "\<not> PerformUpdates G"
    and "\<not> list_ex (\<lambda>tx. recorded_link L tx (store w0)) atomicTXs"
    and "indexBlockInternal G L C w ctx atomicTXs proposer block w0 = (Inr (), w1)"
  shows "links_typed L atomicTXs (last_typ atomicTXs 0) (store w1)"
  using validD [OF indexBlockInternal_links [OF assms(1)] assms(3)] assms(2) by blast

definition example_atomics :: "evm_Tx list" where
  "example_atomics =
     [\<lparr>ev_ID = ''i'', ev_Unsigned = AtomicImport \<lparr>mt_BlockchainID = ''C'', mt_SourceChain = ''X'',
        mt_ImportedInputs = [], mt_Outs = []\<rparr>, ev_Creds = []\<rparr>,
      \<lparr>ev_ID = ''e'', ev_Unsigned = AtomicExport \<lparr>xt_BlockchainID = ''C'', xt_DestinationChain = ''X'',
        xt_Ins = [], xt_ExportedOutputs = []\<rparr>, ev_Creds = []\<rparr>]"

theorem indexBlockInternal_atomic_type_witness:
  "\<exists>w1. indexBlockInternal example_globals example_lib example_cvmlib example_cvmWriter
          \<lparr>ctx_Time = 0, ctx_ChainID = ''C''\<rparr> example_atomics \<lparr>bp_Proposer = [], bp_TimeStamp = None\<rparr>
          example_cblock example_world = (Inr (), w1)
      \<and> list_ex (\<lambda>r. cat_TransactionID r = ''i'' \<and> cat_Type r = CChainExport)
          (cvm_transactions_atomic (store w1))"
proof -
  let ?run = "indexBlockInternal example_globals example_lib example_cvmlib example_cvmWriter
      \<lparr>ctx_Time = 0, ctx_ChainID = ''C''\<rparr> example_atomics \<lparr>bp_Proposer = [], bp_TimeStamp = None\<rparr>
      example_cblock example_world"
  have "fst ?run = Inr ()"
    by (simp add: example_cvm_run Let_def example_atomics_def indexImportTx_def indexExportTx_def
        import_outs_def export_ins_def outs_loop_def ins_loop_def Cvm_indexTransaction_def
        InsertTransactionBase_def InsertTransactions_def InsertCvmTransactionsAtomic_def
        Transactions_clash_def CvmTransactionsAtomic_clash_def example_lib_def)
  then obtain w1 where run: "?run = (Inr (), w1)" by (metis prod.collapse)
  have G: "\<not> PerformUpdates example_globals" by (simp add: example_globals_def)
  have "\<not> list_ex (\<lambda>tx. recorded_link example_lib tx (store example_world)) example_atomics"
    by (simp add: example_atomics_def recorded_link_def empty_db_def)
  from indexBlockInternal_atomic_type [OF G this run]
  have "links_typed example_lib example_atomics CChainExport (store w1)"
    by (simp add: example_atomics_def last_typ_def)
  moreover have "list_ex (\<lambda>r. ''i'' = cat_TransactionID r) (cvm_transactions_atomic (store w1))"
    using validD [OF indexBlockInternal_recorded [OF G] run example_world_ready(2)]
    by (simp add: cvm_indexed_def example_atomics_def recorded_link_def example_lib_def)
  ultimately show ?thesis
    using run unfolding links_typed_def list_all_iff list_ex_iff
    by (auto simp: example_atomics_def example_lib_def)
qed

text \<open>C18: the fee of an atomic export. When an export that was not stored before is indexed, its
  row carries the difference of its inputs and its outputs in the fee asset, exact when the
  inputs cover the outputs; there is no check that they do, and when they do not the fee
  wraps around.\<close>

theorem indexExportTx_stores_fee:
  assumes "\<not> PerformUpdates G" and "Add64_exact L" and "honest w0" and "\<not> recorded_tx L txID (store w0)"
    and "indexExportTx G L C w ctx txID tx blockBytes w0 = (Inr (), w1)"
  shows "tx_stored L txID (\<lambda>r. tx_Type r = ''atomic_export_tx'' \<and>
      unat (tx_Txfee r) =
        (let totalin = sum_list (map (ein_amount w) (xt_Ins tx));
             totalout = sum_list (map (amount_out (cw_djtx w)) (xt_ExportedOutputs tx))
         in if totalout \<le> totalin then totalin - totalout else totalin + 2 ^ 64 - totalout)) (store w1)"
proof -
  obtain totalin totalout where t:
    "unat totalin = sum_list (map (ein_amount w) (xt_Ins tx))"
    "unat totalout = sum_list (map (amount_out (cw_djtx w)) (xt_ExportedOutputs tx))"
    and st: "tx_stored L txID (\<lambda>r. tx_Txfee r = totalin - totalout \<and> tx_Type r = ''atomic_export_tx''
          \<and> tx_ChainID r = ID_String L (xt_BlockchainID tx)) (store w1)"
    using validD [OF indexExportTx_fee [OF assms(1,2)] assms(5)] assms(3,4) by blast
  show ?thesis
    using st wrapped_difference [of totalin totalout] unfolding t [symmetric]
    by (auto simp: tx_stored_def list_ex_iff Let_def)
qed

definition example_export :: UnsignedExportTx where
  "example_export =
     \<lparr>xt_BlockchainID = ''C'', xt_DestinationChain = ''X'',
      xt_Ins = [\<lparr>ei_Address = ''f'', ei_Amount = 70, ei_AssetID = ''DJTX'', ei_Nonce = 1\<rparr>],
      xt_ExportedOutputs = []\<rparr>"

theorem indexExportTx_stores_fee_witness:
  "\<exists>w1. indexExportTx example_globals example_lib example_cvmlib example_cvmWriter
          \<lparr>ctx_Time = 0, ctx_ChainID = ''C''\<rparr> ''e'' example_export [] example_world = (Inr (), w1)
      \<and> tx_stored example_lib ''e'' (\<lambda>r. unat (tx_Txfee r) = 70) (store w1)"
proof -
  let ?run = "indexExportTx example_globals example_lib example_cvmlib example_cvmWriter
          \<lparr>ctx_Time = 0, ctx_ChainID = ''C''\<rparr> ''e'' example_export [] example_world"
  have "fst ?run = Inr ()"
    by (simp add: example_cvm_run Let_def indexExportTx_def export_ins_def insertAddress_def
        outs_loop_def Cvm_indexTransaction_def InsertTransactionBase_def InsertTransactions_def
        InsertCvmAddresses_def example_export_def example_lib_def)
  then obtain w1 where run: "?run = (Inr (), w1)" by (metis prod.collapse)
  have "\<not> PerformUpdates example_globals" and "\<not> recorded_tx example_lib ''e'' (store example_world)"
    by (simp_all add: example_globals_def recorded_tx_def empty_db_def)
  from indexExportTx_stores_fee [OF this(1) example_lib_exact example_world_ready(2) this(2) run]
  show ?thesis
    using run by (auto simp: tx_stored_def list_ex_iff example_export_def ein_amount_def
        example_cvmWriter_def Let_def)
qed

definition cache_rows :: "string \<Rightarrow> database \<Rightarrow> CamLastBlockCache list" where
  "cache_rows chainID d = filter (\<lambda>r. lbc_ChainID r = chainID) (cam_last_block_cache d)"

lemma filter_other_upd:
  "c \<noteq> chainID \<Longrightarrow>
   filter (\<lambda>r. lbc_ChainID r = c)
     (upd_rows (\<lambda>r. lbc_ChainID r = chainID) (\<lambda>r. r\<lparr>lbc_CurrentBlock := block\<rparr>) t)
   = filter (\<lambda>r. lbc_ChainID r = c) t"
  by (induction t) (auto simp: upd_rows_def)

lemma filter_same_upd:
  "filter (\<lambda>r. lbc_ChainID r = chainID)
     (upd_rows (\<lambda>r. lbc_ChainID r = chainID) (\<lambda>r. r\<lparr>lbc_CurrentBlock := block\<rparr>) t)
   = map (\<lambda>r. r\<lparr>lbc_CurrentBlock := block\<rparr>) (filter (\<lambda>r. lbc_ChainID r = chainID) t)"
  by (induction t) (auto simp: upd_rows_def)

lemma uniq_free: "uniq (\<lambda>_ _. False) t"
  by (simp add: uniq_def sorted_wrt_iff_nth_less)



text \<open>when the driver fails the count of the cache rows, a second row for the chain is
  written although one exists.\<close>

theorem update_cache_duplicates:
  assumes "faults w (stmts w) = Some e" and "faults w (Suc (stmts w)) = None"
    and "cache_rows chainID (store w) = [r]"
  shows "\<exists>w1. update_cache block chainID w = (Inr (), w1)
      \<and> cache_rows chainID (store w1) = [r, \<lparr>lbc_CurrentBlock = block, lbc_ChainID = chainID\<rparr>]"
  using assms
  by (simp add: update_cache_def count_cache_def QueryCountLastBlockCache_def query_def bind_def
      InsertCamLastBlockCache_def ignore_dup_def sql_insert_def exec_def Let_def cache_rows_def list_ex_iff)

theorem update_cache_duplicates_witness:
  "\<exists>w1. update_cache ''2'' ''C''
     \<lparr>store = empty_db\<lparr>cam_last_block_cache := [\<lparr>lbc_CurrentBlock = ''1'', lbc_ChainID = ''C''\<rparr>]\<rparr>,
      faults = (\<lambda>n. if n = 0 then Some ''invalid connection'' else None), stmts = 0,
      clock = (\<lambda>_. 0), ticks = 0\<rparr> = (Inr (), w1)
   \<and> length (cache_rows ''C'' (store w1)) = 2"
  using update_cache_duplicates [of "\<lparr>store = empty_db\<lparr>cam_last_block_cache :=
        [\<lparr>lbc_CurrentBlock = ''1'', lbc_ChainID = ''C''\<rparr>]\<rparr>,
      faults = (\<lambda>n. if n = 0 then Some ''invalid connection'' else None), stmts = 0,
      clock = (\<lambda>_. 0), ticks = 0\<rparr>" "''invalid connection''" "''C''" _ "''2''"]
  by (auto simp: cache_rows_def)

text \<open>addresses are stored in one spelling. If an address prints as 0x followed by hexadecimal
  digits in any case, the stored form is 0x followed by lower-case digits that decode to the
  same bytes.\<close>

theorem CommonAddressHexRepair_lower:
  assumes "Hex a = ''0x'' @ s" and "hex_DecodeString s = Some bs"
  shows "\<exists>t. CommonAddressHexRepair Hex (Some a) = ''0x'' @ t \<and> list_all lower_hex t
           \<and> hex_DecodeString t = Some bs"
proof -
  have b: "list_all (\<lambda>b. b < 256) bs" using assms(2) by (rule hex_decode_bytes)
  then have r: "hex_DecodeString (hex_EncodeToString bs) = Some bs" by (rule hex_roundtrip)
  then have "\<not> HasPrefix (hex_EncodeToString bs) ''0x''" by (rule hex_no_prefix)
  moreover have "TrimPrefix (Hex a) ''0x'' = s"
    by (simp add: assms(1) TrimPrefix_def HasPrefix_def)
  ultimately have "CommonAddressHexRepair Hex (Some a) = ''0x'' @ hex_EncodeToString bs"
    using assms(2) by (simp add: CommonAddressHexRepair_def Let_def)
  with r hex_encode_lower [OF b] show ?thesis by blast
qed

theorem CommonAddressHexRepair_lower_witness:
  "\<exists>t. CommonAddressHexRepair (\<lambda>_. ''0xAb'') (Some []) = ''0x'' @ t \<and> list_all lower_hex t
     \<and> hex_DecodeString t = Some [171]"
  by (rule CommonAddressHexRepair_lower [where s = "''Ab''"]) (simp, code_simp)

text \<open>a receipt is accepted exactly when its five required fields are present; a missing
  optional field leaves the zero value, and the raw text is kept.\<close>

theorem UnmarshalJSON_required:
  "((\<exists>r. UnmarshalJSON dec_json zero_receipt input = Inr r) \<longleftrightarrow>
     (case dec_json input of Inl _ \<Rightarrow> False
      | Inr f \<Rightarrow> rf_CumulativeGasUsed f \<noteq> None \<and> rf_Bloom f \<noteq> None \<and> rf_Logs f \<noteq> None
               \<and> rf_TxHash f \<noteq> None \<and> rf_GasUsed f \<noteq> None))
   \<and> (case UnmarshalJSON dec_json zero_receipt input of Inl _ \<Rightarrow> True | Inr r \<Rightarrow> er_Raw r = input)"
proof (cases "dec_json input")
  case (Inl e)
  then show ?thesis by (simp add: UnmarshalJSON_def)
next
  case (Inr f)
  then show ?thesis
    by (cases "rf_CumulativeGasUsed f"; cases "rf_Bloom f"; cases "rf_Logs f"; cases "rf_TxHash f";
        cases "rf_GasUsed f"; simp add: UnmarshalJSON_def)
qed

end
