(* ===== verification/Utils_Containers.thy ===== *)
theory Utils_Containers
  imports Magellan_Prelude
begin

text \<open>
  The containers of \<^verbatim>\<open>src/utils\<close>: the bounded list of keys that the indexer has seen
  (\<^verbatim>\<open>indexedlist.go\<close>), the cache with expiry (\<^verbatim>\<open>ttlmapcache.go\<close>), the counters
  (\<^verbatim>\<open>counterid.go\<close>) and the pause between retries (\<^verbatim>\<open>retry_sleeper.go\<close>).

  Each method takes its lock for its whole body, so it is one step on the state.  The clock is
  an argument.  The locale \<open>recent_keys\<close> is what a client of the list of keys may rely on.
\<close>

section \<open>IndexedList\<close>

record ('k, 'v) indexedList =
  entryMap :: "'k \<rightharpoonup> 'v"
  entryList :: "'k list"
  MaxSize :: int

definition NewIndexedList :: "int \<Rightarrow> ('k, 'v) indexedList" where
  "NewIndexedList maxSize =
     \<lparr>entryMap = Map.empty, entryList = [], MaxSize = (if maxSize \<le> 1 then 1 else maxSize)\<rparr>"

definition Exists :: "('k, 'v) indexedList \<Rightarrow> 'k \<Rightarrow> bool" where
  "Exists c key \<longleftrightarrow> entryMap c key \<noteq> None"

text \<open>The loop that drops the oldest entries.\<close>

function trim :: "('k, 'v) indexedList \<Rightarrow> ('k, 'v) indexedList" where
  "trim c =
     (if int (length (entryList c)) > MaxSize c \<and> entryList c \<noteq> []
      then trim (c\<lparr>entryList := butlast (entryList c),
                   entryMap := (entryMap c)(last (entryList c) := None)\<rparr>)
      else c)"
  by pat_completeness auto
termination
  by (relation "measure (\<lambda>c. length (entryList c))") auto

declare trim.simps [simp del]

definition PushFront :: "'k \<Rightarrow> 'v \<Rightarrow> ('k, 'v) indexedList \<Rightarrow> ('k, 'v) indexedList" where
  "PushFront key val c =
     (if Exists c key then c
      else trim (c\<lparr>entryList := key # entryList c, entryMap := (entryMap c)(key \<mapsto> val)\<rparr>))"

text \<open>The map and the list hold the same keys, each once, and not too many.\<close>

definition list_ok :: "('k, 'v) indexedList \<Rightarrow> bool" where
  "list_ok c \<longleftrightarrow> distinct (entryList c) \<and> set (entryList c) = dom (entryMap c) \<and>
     int (length (entryList c)) \<le> MaxSize c \<and> 1 \<le> MaxSize c"

lemma NewIndexedList_ok: "list_ok (NewIndexedList n)"
  by (simp add: list_ok_def NewIndexedList_def)

lemma Exists_iff: "list_ok c \<Longrightarrow> Exists c k \<longleftrightarrow> k \<in> set (entryList c)"
  by (auto simp: Exists_def list_ok_def)

lemma trim_once:
  assumes "int (length (entryList c)) \<le> MaxSize c + 1" and "1 \<le> MaxSize c"
  shows "trim c = (if int (length (entryList c)) > MaxSize c
     then c\<lparr>entryList := butlast (entryList c), entryMap := (entryMap c)(last (entryList c) := None)\<rparr>
     else c)"
proof (cases "int (length (entryList c)) > MaxSize c")
  case True
  then have "entryList c \<noteq> []" using assms(2) by auto
  with True show ?thesis
    using assms by (subst trim.simps) (simp add: trim.simps [of "_\<lparr>entryList := _, entryMap := _\<rparr>"])
next
  case False
  then show ?thesis by (subst trim.simps) simp
qed

text \<open>The specification: the most recent keys, newest first.\<close>

definition remember :: "nat \<Rightarrow> 'k \<Rightarrow> 'k list \<Rightarrow> 'k list" where
  "remember n k ks = (if k \<in> set ks then ks else take n (k # ks))"

lemma PushFront_list:
  assumes "list_ok c"
  shows "entryList (PushFront k v c) = remember (nat (MaxSize c)) k (entryList c)"
    and "MaxSize (PushFront k v c) = MaxSize c" and "list_ok (PushFront k v c)"
proof -
  let ?c = "c\<lparr>entryList := k # entryList c, entryMap := (entryMap c)(k \<mapsto> v)\<rparr>"
  have len: "int (length (entryList c)) \<le> MaxSize c" "1 \<le> MaxSize c"
    using assms by (auto simp: list_ok_def)
  then have t: "trim ?c = (if int (length (k # entryList c)) > MaxSize c
      then ?c\<lparr>entryList := butlast (k # entryList c), entryMap := (entryMap ?c)(last (k # entryList c) := None)\<rparr>
      else ?c)"
    by (subst trim_once) auto
  have full: "take (nat (MaxSize c)) (k # entryList c) =
      (if int (length (k # entryList c)) > MaxSize c then butlast (k # entryList c) else k # entryList c)"
  proof (cases "int (length (k # entryList c)) > MaxSize c")
    case True
    then have "nat (MaxSize c) = length (k # entryList c) - 1" using len by simp
    with True show ?thesis by (simp only: butlast_conv_take if_True)
  qed auto
  show list: "entryList (PushFront k v c) = remember (nat (MaxSize c)) k (entryList c)"
    using t full Exists_iff [OF assms, of k] by (auto simp: PushFront_def remember_def)
  show "MaxSize (PushFront k v c) = MaxSize c" using t by (auto simp: PushFront_def)
  show "list_ok (PushFront k v c)"
  proof (cases "Exists c k")
    case True
    with assms show ?thesis by (simp add: PushFront_def)
  next
    case False
    then have new: "k \<notin> set (entryList c)" using Exists_iff [OF assms] by simp
    have split: "k # entryList c = butlast (k # entryList c) @ [last (k # entryList c)]" by simp
    have dist: "distinct (k # entryList c)" using new assms by (simp add: list_ok_def)
    with split have "distinct (butlast (k # entryList c) @ [last (k # entryList c)])"
      by (rule ssubst [of _ _ distinct, OF sym])
    moreover have "set (butlast (k # entryList c)) = set (k # entryList c) - {last (k # entryList c)}"
    proof -
      have "set (k # entryList c) = insert (last (k # entryList c)) (set (butlast (k # entryList c)))"
        by (subst split) simp
      with calculation show ?thesis by auto
    qed
    ultimately show ?thesis
      using False new assms len distinct_butlast [OF dist] unfolding PushFront_def t
      by (auto simp del: butlast.simps last.simps simp: list_ok_def)
  qed
qed

text \<open>What a client may rely on.\<close>

locale recent_keys =
  fixes okay :: "'s \<Rightarrow> bool"
    and push :: "'k \<Rightarrow> 's \<Rightarrow> 's"
    and has :: "'s \<Rightarrow> 'k \<Rightarrow> bool"
    and room :: "'s \<Rightarrow> nat"
  assumes push_okay: "okay s \<Longrightarrow> okay (push k s)"
    and push_room: "okay s \<Longrightarrow> room (push k s) = room s"
    and push_has: "okay s \<Longrightarrow> has (push k s) k"
    and push_only: "okay s \<Longrightarrow> has (push k s) j \<Longrightarrow> j = k \<or> has s j"
    and bounded: "okay s \<Longrightarrow> finite {k. has s k} \<and> card {k. has s k} \<le> room s"
begin

lemma pushes_okay: "okay s \<Longrightarrow> okay (fold push ks s) \<and> room (fold push ks s) = room s"
  by (induction ks arbitrary: s) (auto simp: push_okay push_room)

lemma pushes_only: "okay s \<Longrightarrow> has (fold push ks s) j \<Longrightarrow> j \<in> set ks \<or> has s j"
proof (induction ks arbitrary: s)
  case (Cons k ks)
  then have "j \<in> set ks \<or> has (push k s) j" using push_okay by auto
  with Cons.prems(1) push_only [of s k j] show ?case by auto
qed simp

lemma pushes_bounded: "okay s \<Longrightarrow> card {k. has (fold push ks s) k} \<le> room s"
  using bounded pushes_okay by metis

end

interpretation seen: recent_keys list_ok "\<lambda>k. PushFront k k" Exists "\<lambda>c. nat (MaxSize c)"
proof unfold_locales
  fix s :: "('k, 'k) indexedList" and k j
  assume ok: "list_ok s"
  note push = PushFront_list [OF ok, of k k]
  have n: "1 \<le> nat (MaxSize s)" using ok unfolding list_ok_def by linarith
  show "list_ok (PushFront k k s)" and "nat (MaxSize (PushFront k k s)) = nat (MaxSize s)"
    using push by auto
  show "Exists (PushFront k k s) k"
    using Exists_iff [OF push(3)] push(1) n by (cases "nat (MaxSize s)") (auto simp: remember_def)
  show "Exists (PushFront k k s) j \<Longrightarrow> j = k \<or> Exists s j"
    using Exists_iff [OF push(3)] Exists_iff [OF ok] push(1)
    by (auto simp: remember_def split: if_splits dest: in_set_takeD)
  have "{k. Exists s k} = set (entryList s)" using Exists_iff [OF ok] by auto
  then show "finite {k. Exists s k} \<and> card {k. Exists s k} \<le> nat (MaxSize s)"
    using ok card_length [of "entryList s"] finite_set [of "entryList s"] unfolding list_ok_def
    by (metis le_nat_iff nat_le_0 nle_le order_trans)
qed

lemma pushes_remember:
  "list_ok c \<Longrightarrow> entryList (fold (\<lambda>k. PushFront k k) ks c) =
     fold (remember (nat (MaxSize c))) ks (entryList c)"
proof (induction ks arbitrary: c)
  case (Cons k ks)
  then show ?case using PushFront_list [OF Cons.prems, of k k] Cons.IH [of "PushFront k k c"] by simp
qed simp

section \<open>TTL map\<close>

record item =
  it_value :: bytes
  it_expire :: gotime
  it_last :: gotime

text \<open>\<^verbatim>\<open>expired()\<close> is strict: an item is still valid at its expiry time.\<close>

definition expired :: "gotime \<Rightarrow> item \<Rightarrow> bool" where
  "expired now i \<longleftrightarrow> it_expire i < now"

type_synonym bucket = "string \<rightharpoonup> item"

definition NewTTLMap :: "bucket list" where
  "NewTTLMap = replicate 256 Map.empty"

text \<open>\<open>chk\<close> is the first byte of the SHA-256 sum of the key.\<close>

definition LCache_Put ::
  "(string \<Rightarrow> u8) \<Rightarrow> gotime \<Rightarrow> string \<Rightarrow> bytes \<Rightarrow> int \<Rightarrow> bucket list \<Rightarrow> bucket list" where
  "LCache_Put chk now k v ttl m =
     (let bm = m ! unat (chk k);
          it = (case bm k of None \<Rightarrow> \<lparr>it_value = v, it_expire = 0, it_last = 0\<rparr> | Some i \<Rightarrow> i)
      in m[unat (chk k) := bm(k \<mapsto> it\<lparr>it_last := now, it_expire := now + ttl\<rparr>)])"

definition LCache_Get :: "(string \<Rightarrow> u8) \<Rightarrow> gotime \<Rightarrow> string \<Rightarrow> bucket list \<Rightarrow> bytes option" where
  "LCache_Get chk now k m =
     (case (m ! unat (chk k)) k of
        None \<Rightarrow> None
      | Some i \<Rightarrow> if \<not> expired now i then Some (it_value i) else None)"

text \<open>One round of \<^verbatim>\<open>expire()\<close> for a bucket: the keys that were expired at the time \<open>now\<close> are
  collected under the read lock, and each is deleted if it still is expired at the time \<open>later\<close>.\<close>

definition sweep_bucket :: "gotime \<Rightarrow> gotime \<Rightarrow> bucket \<Rightarrow> bucket" where
  "sweep_bucket now later bm =
     (\<lambda>k. case bm k of None \<Rightarrow> None
        | Some i \<Rightarrow> if it_expire i < now \<and> expired later i then None else Some i)"

definition sweep :: "gotime \<Rightarrow> gotime \<Rightarrow> bucket list \<Rightarrow> bucket list" where
  "sweep now later m = map (sweep_bucket now later) m"

lemma chk_bound: "unat (chk k :: u8) < 256"
  using unsigned_less [of "chk k"] by simp

section \<open>CounterID\<close>

type_synonym CounterID = "string \<rightharpoonup> 64 word"

definition CounterID_Add :: "string \<Rightarrow> 64 word \<Rightarrow> CounterID \<Rightarrow> CounterID" where
  "CounterID_Add v delta c = (case c v of Some n \<Rightarrow> c(v \<mapsto> n + delta) | None \<Rightarrow> c(v \<mapsto> 0 + delta))"

definition CounterID_Inc :: "string \<Rightarrow> CounterID \<Rightarrow> CounterID" where
  "CounterID_Inc v = CounterID_Add v 1"

definition CounterID_Clone :: "CounterID \<Rightarrow> CounterID" where
  "CounterID_Clone c = (\<lambda>v. case c v of None \<Rightarrow> None | Some n \<Rightarrow> if n \<noteq> 0 then Some n else None)"

lemma CounterID_fold:
  "(case fold (\<lambda>(v, d). CounterID_Add v d) ops c k of None \<Rightarrow> 0 | Some n \<Rightarrow> n)
     = (case c k of None \<Rightarrow> 0 | Some n \<Rightarrow> n) + sum_list (map snd (filter (\<lambda>x. fst x = k) ops))"
proof (induction ops arbitrary: c)
  case (Cons x ops)
  obtain v d where x: "x = (v, d)" by (cases x)
  have "(case CounterID_Add v d c k of None \<Rightarrow> 0 | Some n \<Rightarrow> n)
      = (case c k of None \<Rightarrow> 0 | Some n \<Rightarrow> n) + (if v = k then d else 0)"
    by (auto simp: CounterID_Add_def split: option.split)
  with Cons.IH [of "CounterID_Add v d c"] show ?case by (simp add: x ac_simps)
qed simp

section \<open>RetrySleeper\<close>

record RetrySleeper =
  rs_counter :: u64
  rs_retries :: u64
  rs_sleepTime :: int
  rs_sleepDuration :: int
  rs_sleepDurationMax :: int

definition NewRetrySleeper :: "u64 \<Rightarrow> int \<Rightarrow> int \<Rightarrow> RetrySleeper" where
  "NewRetrySleeper retries sleepDuration sleepDurationMax =
     \<lparr>rs_counter = 0, rs_retries = retries, rs_sleepTime = 0, rs_sleepDuration = sleepDuration,
      rs_sleepDurationMax = sleepDurationMax\<rparr>"

text \<open>The time slept, and the new state.\<close>

definition RetrySleeper_Inc :: "RetrySleeper \<Rightarrow> int \<times> RetrySleeper" where
  "RetrySleeper_Inc r =
     (let r1 = r\<lparr>rs_counter := rs_counter r + 1\<rparr> in
      if rs_counter r1 > rs_retries r1
      then (let r2 = (if rs_sleepTime r1 < rs_sleepDuration r1
                      then r1\<lparr>rs_sleepTime := rs_sleepTime r1 + rs_sleepDuration r1\<rparr> else r1)
            in (rs_sleepTime r2, r2))
      else (0, r1))"

text \<open>The pause never grows beyond \<^verbatim>\<open>sleepDuration\<close>; \<^verbatim>\<open>sleepDurationMax\<close> is never read.\<close>

lemma RetrySleeper_pause:
  assumes "0 < d" and "rs_sleepDuration r = d" and "rs_sleepTime r \<in> {0, d}"
  shows "fst (RetrySleeper_Inc r) \<in> {0, d} \<and> rs_sleepDuration (snd (RetrySleeper_Inc r)) = d \<and>
    rs_sleepTime (snd (RetrySleeper_Inc r)) \<in> {0, d}"
  using assms by (auto simp: RetrySleeper_Inc_def Let_def)

section \<open>Properties\<close>

text \<open>C23: The list of seen keys refines its specification.  After any sequence of pushes on a new
  list, \<^verbatim>\<open>Exists\<close> holds exactly of the keys that the specification remembers, and these are never
  more than the capacity, which is at least one.\<close>

theorem IndexedList_refines:
  "let c = fold (\<lambda>k. PushFront k k) ks (NewIndexedList n);
       spec = fold (remember (nat (max 1 n))) ks []
   in (\<forall>k. Exists c k \<longleftrightarrow> k \<in> set spec) \<and> card {k. Exists c k} \<le> nat (max 1 n)"
proof -
  let ?new = "NewIndexedList n :: ('a, 'a) indexedList"
  let ?c = "fold (\<lambda>k. PushFront k k) ks ?new"
  have size: "nat (MaxSize ?new) = nat (max 1 n)" by (simp add: NewIndexedList_def)
  have "list_ok ?c" using seen.pushes_okay [OF NewIndexedList_ok] by blast
  moreover have "entryList ?c = fold (remember (nat (max 1 n))) ks []"
    using pushes_remember [OF NewIndexedList_ok, of ks n] size by (simp add: NewIndexedList_def)
  moreover have "card {k. Exists ?c k} \<le> nat (max 1 n)"
    using seen.pushes_bounded [OF NewIndexedList_ok, of ks n] size by simp
  ultimately show ?thesis using Exists_iff [of ?c] unfolding Let_def by metis
qed

text \<open>Storing a value under a key that the cache still holds keeps the old value and only
  prolongs it.  Otherwise reading gives what was stored until it expires; keys do not disturb each
  other, and the sweep that deletes expired items changes no later reading.\<close>

theorem LCache_Put_Get:
  assumes "length m = 256" and "t \<le> now + ttl" and "j \<noteq> k" and "now \<le> t"
  shows "LCache_Get chk t k (LCache_Put chk now k v ttl m) =
      Some (case (m ! unat (chk k)) k of None \<Rightarrow> v | Some old \<Rightarrow> it_value old) \<and>
    LCache_Get chk t j (LCache_Put chk now k v ttl m) = LCache_Get chk t j m \<and>
    LCache_Get chk t j (sweep now later m) = LCache_Get chk t j m"
  using assms chk_bound [of chk k] chk_bound [of chk j]
  by (auto simp: LCache_Get_def LCache_Put_def sweep_def sweep_bucket_def Let_def expired_def
      nth_list_update split: option.split)

theorem LCache_Put_Get_witness:
  "LCache_Get (\<lambda>_. 7) 12 ''a'' (LCache_Put (\<lambda>_. 7) 10 ''a'' ''new'' 5
     (LCache_Put (\<lambda>_. 7) 3 ''a'' ''old'' 1 NewTTLMap)) = Some ''old''"
  using LCache_Put_Get [of "LCache_Put (\<lambda>_. 7) 3 ''a'' ''old'' 1 NewTTLMap" 12 10 5 "''b''" "''a''"
      "\<lambda>_. 7" "''new''" 0]
  by (simp add: NewTTLMap_def LCache_Put_def Let_def)

end
