(* ===== verification/Stream_Pipeline.thy ===== *)
theory Stream_Pipeline
  imports Avm_Writer Pvm_Writer Cvm_Writer Balance_Manager Utils_Containers
begin

text \<open>
  The stream from the node to the indexers: \<^verbatim>\<open>src/stream\<close>, its consumers and the parts of
  \<^verbatim>\<open>servicesctrl.Control\<close> that they share.

  A producer asks the node's index for containers, stores each one in the table \<^verbatim>\<open>tx_pool\<close>
  and offers it to the queue \<^verbatim>\<open>LocalTxPool\<close>, and then moves its position in the table
  \<^verbatim>\<open>node_index\<close>.  The handler takes jobs from the queue, lets the consumer of the topic index
  them and removes them from \<^verbatim>\<open>tx_pool\<close>; an iterator feeds the rows that are still there to the
  queue again.

  The database is the shared world; \<open>Control\<close> is the state that a restart loses.  The node's
  index client, the genesis and the node's address functions are parameters.
\<close>

section \<open>The shared control\<close>

record LocalTxPoolJob =
  job_TxPool :: TxPool
  job_Errs :: "nat option"

text \<open>\<^verbatim>\<open>Errs\<close> points to a cell that the jobs of one iteration share; \<open>sc_errs\<close> holds the cells.\<close>

record Control =
  IsAccumulateBalanceIndexer :: bool
  IsAccumulateBalanceReader :: bool
  IsDisableBootstrap :: bool
  IsAggregateCache :: bool
  BalanceManager :: Manager
  IndexedList :: "(string, string) indexedList"
  LocalTxPool :: "LocalTxPoolJob list"
  sc_errs :: "nat \<Rightarrow> goerr option"

definition MaxSizedList :: int where
  "MaxSizedList = 20000"

definition MaxTxPoolSize :: nat where
  "MaxTxPoolSize = 10000"

definition Init :: "string list \<Rightarrow> goerr option \<Rightarrow> Control \<Rightarrow> goerr option \<times> Control" where
  "Init features genesisErr s =
     (let s1 = s\<lparr>IndexedList := NewIndexedList MaxSizedList, LocalTxPool := []\<rparr>;
          s2 = (if ''accumulate_balance_indexer'' \<in> set features
                then (let s' = s1\<lparr>IsAccumulateBalanceIndexer := True\<rparr>
                      in if ''accumulate_balance_reader'' \<in> set features
                         then s'\<lparr>IsAccumulateBalanceReader := True\<rparr> else s')
                else s1);
          s3 = (if ''disable_bootstrap'' \<in> set features then s2\<lparr>IsDisableBootstrap := True\<rparr> else s2);
          s4 = (if ''aggregate_cache'' \<in> set features then s3\<lparr>IsAggregateCache := True\<rparr> else s3)
      in (genesisErr, s4))"

text \<open>The send does not block: a full channel drops the job.\<close>

definition Enqueue :: "TxPool \<Rightarrow> Control \<Rightarrow> Control" where
  "Enqueue pool s =
     (if length (LocalTxPool s) < MaxTxPoolSize
      then s\<lparr>LocalTxPool := LocalTxPool s @ [\<lparr>job_TxPool = pool, job_Errs = None\<rparr>]\<rparr>
      else s)"

section \<open>Topics and errors of the stream\<close>

definition EventTypeConsensus :: string where
  "EventTypeConsensus = ''consensus''"

definition EventTypeDecisions :: string where
  "EventTypeDecisions = ''decisions''"

definition GetTopicName :: "u32 \<Rightarrow> string \<Rightarrow> string \<Rightarrow> string" where
  "GetTopicName networkID chainID eventType =
     dec_nat (unat networkID) @ ''-'' @ chainID @ ''-'' @ eventType"

definition ErrNoMessage :: goerr where
  "ErrNoMessage = ''no message''"

definition ErrUnknownVM :: goerr where
  "ErrUnknownVM = ''unknown VM''"

definition status_404 :: string where
  "status_404 = ''received status code '' @ [CHR 0x27] @ ''404'' @ [CHR 0x27]"

definition IndexNotReady :: "goerr \<Rightarrow> bool" where
  "IndexNotReady err =
     (if HasPrefix err ''start index'' \<and> Contains err ''last accepted index'' then True
      else if HasPrefix err status_404 then True
      else False)"

definition ChainNotReady :: "goerr \<Rightarrow> bool" where
  "ChainNotReady err =
     (if HasPrefix err ''no containers have been accepted'' then True
      else if HasPrefix err status_404 then True
      else False)"

section \<open>The producer\<close>

type_synonym IndexType = "8 word"

definition IndexType_String :: "IndexType \<Rightarrow> string" where
  "IndexType_String t =
     (if t = 0 then ''tx'' else if t = 1 then ''vtx'' else if t = 2 then ''block'' else ''unknown'')"

type_synonym IndexedChain = "8 word"

definition IndexCChain :: IndexedChain where
  "IndexCChain = 2"

definition IndexedChain_String :: "IndexedChain \<Rightarrow> string" where
  "IndexedChain_String t =
     (if t = 0 then ''V'' else if t = 1 then ''M'' else if t = IndexCChain then ''U'' else ''unknown'')"

record Container =
  co_ID :: bytes
  co_Bytes :: bytes
  co_Timestamp :: int

text \<open>\<^verbatim>\<open>GetContainerRange\<close> of the node's index: a start and a number.\<close>

type_synonym nodeIndexer = "u64 \<Rightarrow> nat \<Rightarrow> goerr + Container list"

record producerChainContainer =
  pc_networkID :: u32
  pc_nodeIndex :: NodeIndex
  pc_nodeinstance :: string
  pc_topic :: string
  pc_chainID :: string
  pc_indexerChain :: IndexedChain

definition MaxTxRead :: nat where
  "MaxTxRead = 500"

definition getIndex :: "producerChainContainer \<Rightarrow> (database, producerChainContainer) go" where
  "getIndex p =
     bind (QueryNodeIndex \<lparr>ni_Instance = pc_nodeinstance p, ni_Topic = pc_topic p, ni_Idx = 0\<rparr>) (\<lambda>nodeIndex.
     ret (p\<lparr>pc_nodeIndex := nodeIndex\<lparr>ni_Instance := pc_nodeinstance p, ni_Topic := pc_topic p\<rparr>\<rparr>))"

definition insertNodeIndex :: "globals \<Rightarrow> NodeIndex \<Rightarrow> (database, unit) go" where
  "insertNodeIndex G nodeIndex = InsertNodeIndex nodeIndex (PerformUpdates G)"

definition updateNodeIndex :: "NodeIndex \<Rightarrow> (database, unit) go" where
  "updateNodeIndex nodeIndex = UpdateNodeIndex nodeIndex"

text \<open>A producer: the chain it follows, its topic and its settings.\<close>

record ProducerChain =
  pr_networkID :: u32
  pr_nodeInstance :: string
  pr_caminoNode :: string
  pr_topic :: string
  pr_chainID :: string
  pr_indexerType :: IndexType
  pr_indexerChain :: IndexedChain

definition NewProducerChain ::
  "u32 \<Rightarrow> string \<Rightarrow> string \<Rightarrow> string \<Rightarrow> string \<Rightarrow> IndexType \<Rightarrow> IndexedChain \<Rightarrow> ProducerChain" where
  "NewProducerChain networkID nodeInstance caminoNode chainID eventType indexerType indexerChain =
     \<lparr>pr_networkID = networkID, pr_nodeInstance = nodeInstance, pr_caminoNode = caminoNode,
      pr_topic = GetTopicName networkID chainID eventType, pr_chainID = chainID,
      pr_indexerType = indexerType, pr_indexerChain = indexerChain\<rparr>"

text \<open>The address of the node's index for the producer.\<close>

definition indexer_endpoint :: "ProducerChain \<Rightarrow> string" where
  "indexer_endpoint p =
     pr_caminoNode p @ ''/ext/index/'' @ IndexedChain_String (pr_indexerChain p) @ ''/'' @
     IndexType_String (pr_indexerType p)"

definition new_pc :: "ProducerChain \<Rightarrow> producerChainContainer" where
  "new_pc p =
     \<lparr>pc_networkID = pr_networkID p, pc_nodeIndex = \<lparr>ni_Instance = [], ni_Topic = [], ni_Idx = 0\<rparr>,
      pc_nodeinstance = pr_nodeInstance p, pc_topic = pr_topic p, pc_chainID = pr_chainID p,
      pc_indexerChain = pr_indexerChain p\<rparr>"

definition newContainer :: "globals \<Rightarrow> ProducerChain \<Rightarrow> (database, producerChainContainer) go" where
  "newContainer G p =
     (let pc = new_pc p
      in andThen (insertNodeIndex G \<lparr>ni_Instance = pc_nodeinstance pc, ni_Topic = pc_topic pc, ni_Idx = 0\<rparr>)
           (getIndex pc))"

text \<open>The row for a container.\<close>

definition mkTxPool :: "nodelib \<Rightarrow> producerChainContainer \<Rightarrow> Container \<Rightarrow> TxPool" where
  "mkTxPool L p container =
     (let i = (if pc_indexerChain p = IndexCChain then co_ID container
               else ComputeHash256Array L (co_Bytes container))
      in TxPool_ComputeID L
           \<lparr>tp_ID = [], tp_NetworkID = pc_networkID p, tp_ChainID = pc_chainID p,
            tp_MsgKey = ID_String L i, tp_Serialization = co_Bytes container,
            tp_Topic = pc_topic p, tp_CreatedAt = co_Timestamp container * 1000000000\<rparr>)"

definition UpdateTxPool ::
  "TxPool \<Rightarrow> Control \<Rightarrow> database world \<Rightarrow> (goerr + unit) \<times> Control \<times> database world" where
  "UpdateTxPool txPool sc w =
     (case InsertTxPool txPool w of
        (Inl e, w1) \<Rightarrow> (Inl e, sc, w1)
      | (Inr _, w1) \<Rightarrow> (Inr (), Enqueue txPool sc, w1))"

primrec store_containers ::
  "nodelib \<Rightarrow> producerChainContainer \<Rightarrow> Container list \<Rightarrow> Control \<Rightarrow> database world
     \<Rightarrow> (goerr + unit) \<times> Control \<times> database world" where
  "store_containers L p [] sc w = (Inr (), sc, w)"
| "store_containers L p (c # cs) sc w =
     (case UpdateTxPool (mkTxPool L p c) sc w of
        (Inl e, sc1, w1) \<Rightarrow> (Inl e, sc1, w1)
      | (Inr _, sc1, w1) \<Rightarrow> store_containers L p cs sc1 w1)"

definition ProcessNextMessage ::
  "nodelib \<Rightarrow> nodeIndexer \<Rightarrow> producerChainContainer \<Rightarrow> Control \<Rightarrow> database world
     \<Rightarrow> (goerr + unit) \<times> producerChainContainer \<times> Control \<times> database world" where
  "ProcessNextMessage L GetContainerRange p sc w =
     (case GetContainerRange (ni_Idx (pc_nodeIndex p)) MaxTxRead of
        Inl err \<Rightarrow> (if IndexNotReady err then Inr () else Inl err, p, sc, w)
      | Inr containers \<Rightarrow>
          if length containers = 0 then (Inl ErrNoMessage, p, sc, w)
          else
            (case store_containers L p containers sc w of
               (Inl e, sc1, w1) \<Rightarrow> (Inl e, p, sc1, w1)
             | (Inr _, sc1, w1) \<Rightarrow>
                 let nodeIdx = \<lparr>ni_Instance = pc_nodeinstance p, ni_Topic = pc_topic p,
                                ni_Idx = ni_Idx (pc_nodeIndex p) + of_nat (length containers)\<rparr>
                 in (case updateNodeIndex nodeIdx w1 of
                       (Inl e, w2) \<Rightarrow> (Inl e, p, sc1, w2)
                     | (Inr _, w2) \<Rightarrow>
                         (Inr (), p\<lparr>pc_nodeIndex := (pc_nodeIndex p)\<lparr>ni_Idx := ni_Idx nodeIdx\<rparr>\<rparr>, sc1, w2))))"

text \<open>The closure \<^verbatim>\<open>processNextMessage\<close> of \<^verbatim>\<open>runProcessor\<close>: which errors end the loop.\<close>

definition message_result :: "goerr + unit \<Rightarrow> goerr + unit" where
  "message_result r =
     (case r of Inr _ \<Rightarrow> Inr ()
      | Inl err \<Rightarrow>
          if err = ''context deadline exceeded'' then Inr ()
          else if err = ErrNoMessage then Inr ()
          else if err = ''EOF'' then Inl ''EOF''
          else if ChainNotReady err then Inr ()
          else Inl err)"

text \<open>The loop of \<^verbatim>\<open>runProcessor\<close>: one answer of the node for each round until it is stopped.\<close>

primrec process_messages ::
  "nodelib \<Rightarrow> nodeIndexer list \<Rightarrow> producerChainContainer \<Rightarrow> Control \<Rightarrow> database world
     \<Rightarrow> (goerr + unit) \<times> producerChainContainer \<times> Control \<times> database world" where
  "process_messages L [] p sc w = (Inr (), p, sc, w)"
| "process_messages L (a # as) p sc w =
     (case ProcessNextMessage L a p sc w of
        (r, p1, sc1, w1) \<Rightarrow>
          (case message_result r of
             Inl e \<Rightarrow> (Inl e, p1, sc1, w1)
           | Inr _ \<Rightarrow> process_messages L as p1 sc1 w1))"

definition runProcessor ::
  "globals \<Rightarrow> nodelib \<Rightarrow> ProducerChain \<Rightarrow> nodeIndexer list \<Rightarrow> Control \<Rightarrow> database world
     \<Rightarrow> (goerr + unit) \<times> Control \<times> database world" where
  "runProcessor G L p answers sc w =
     (case newContainer G p w of
        (Inl e, w1) \<Rightarrow> (Inl e, sc, w1)
      | (Inr pc, w1) \<Rightarrow>
          (case process_messages L answers pc sc w1 of (r, _, sc1, w2) \<Rightarrow> (r, sc1, w2)))"

section \<open>The consumers\<close>

record services_Consumer =
  con_Consume :: "Consumable \<Rightarrow> (database, unit) go"
  con_ConsumeConsensus :: "Consumable \<Rightarrow> (database, unit) go"
  con_Bootstrap :: "(database, unit) go"

text \<open>What the constructors of the writers use of the node: the asset of the genesis, ids, the
  aliaser, the activation time and the client for receipts.\<close>

record factorylib =
  fl_nodelib :: nodelib
  fl_avmlib :: avmlib
  fl_pvmlib :: pvmlib
  fl_cvmlib :: cvmlib
  fl_djtxAssetID :: "u32 \<Rightarrow> goerr + bytes"
  fl_FromString :: "string \<Rightarrow> goerr + bytes"
  fl_Alias :: "bytes \<Rightarrow> string \<Rightarrow> goerr option"
  fl_ApricotPhase5Time :: "u32 \<Rightarrow> int"
  fl_NewClient :: "string \<Rightarrow> goerr + (string \<Rightarrow> goerr + bytes)"

definition Djtx_NewWriter :: "string \<Rightarrow> bytes \<Rightarrow> djtxWriter" where
  "Djtx_NewWriter chainID djtxAssetID = \<lparr>dw_chainID = chainID, dw_djtxAssetID = djtxAssetID\<rparr>"

definition checked_alias :: "factorylib \<Rightarrow> string \<Rightarrow> string \<Rightarrow> goerr + unit" where
  "checked_alias F chainID alias =
     (case fl_FromString F chainID of
        Inl err \<Rightarrow> Inl err
      | Inr i \<Rightarrow> (case fl_Alias F i alias of Some err \<Rightarrow> Inl err | None \<Rightarrow> Inr ()))"

definition Avm_NewWriter :: "factorylib \<Rightarrow> u32 \<Rightarrow> string \<Rightarrow> goerr + avmWriter" where
  "Avm_NewWriter F networkID chainID =
     (case fl_djtxAssetID F networkID of
        Inl err \<Rightarrow> Inl err
      | Inr djtxAssetID \<Rightarrow>
          (case checked_alias F chainID ''V'' of
             Inl err \<Rightarrow> Inl err
           | Inr _ \<Rightarrow> Inr \<lparr>aw_chainID = chainID, aw_networkID = networkID,
                          aw_djtx = Djtx_NewWriter chainID djtxAssetID\<rparr>))"

definition Pvm_NewWriter :: "factorylib \<Rightarrow> u32 \<Rightarrow> string \<Rightarrow> goerr + pvmWriter" where
  "Pvm_NewWriter F networkID chainID =
     (case fl_djtxAssetID F networkID of
        Inl err \<Rightarrow> Inl err
      | Inr djtxAssetID \<Rightarrow>
          (case checked_alias F chainID ''P'' of
             Inl err \<Rightarrow> Inl err
           | Inr _ \<Rightarrow> Inr \<lparr>pw_chainID = chainID, pw_networkID = networkID,
                          pw_djtx = Djtx_NewWriter chainID djtxAssetID\<rparr>))"

text \<open>The configuration may be absent, and then there is no client.\<close>

definition Cvm_NewWriter :: "factorylib \<Rightarrow> u32 \<Rightarrow> string \<Rightarrow> string option \<Rightarrow> goerr + cvmWriter" where
  "Cvm_NewWriter F networkID chainID caminoNode =
     (case fl_djtxAssetID F networkID of
        Inl err \<Rightarrow> Inl err
      | Inr djtxAssetID \<Rightarrow>
          let w = \<lparr>cw_networkID = networkID, cw_djtxAssetID = djtxAssetID,
                   cw_djtx = Djtx_NewWriter chainID djtxAssetID,
                   cw_ap5Activation = of_int (fl_ApricotPhase5Time F networkID), cw_client = None\<rparr>
          in (case caminoNode of
                None \<Rightarrow> Inr w
              | Some url \<Rightarrow>
                  (case fl_NewClient F (url @ ''/ext/bc/U/rpc'') of
                     Inl err \<Rightarrow> Inl err
                   | Inr client \<Rightarrow> Inr (w\<lparr>cw_client := Some client\<rparr>))))"

definition Avm_consumer :: "globals \<Rightarrow> factorylib \<Rightarrow> avmWriter \<Rightarrow> services_Consumer" where
  "Avm_consumer G F w =
     \<lparr>con_Consume = Avm_Consume G (fl_nodelib F) (fl_avmlib F) w,
      con_ConsumeConsensus = Avm_ConsumeConsensus G (fl_nodelib F) (fl_avmlib F),
      con_Bootstrap = Avm_Bootstrap G (fl_nodelib F) (fl_avmlib F) w\<rparr>"

definition Pvm_consumer :: "globals \<Rightarrow> factorylib \<Rightarrow> pvmWriter \<Rightarrow> services_Consumer" where
  "Pvm_consumer G F w =
     \<lparr>con_Consume = Pvm_Consume G (fl_nodelib F) (fl_pvmlib F) w,
      con_ConsumeConsensus = (\<lambda>_. Pvm_ConsumeConsensus),
      con_Bootstrap = Pvm_Bootstrap G (fl_nodelib F) (fl_pvmlib F) w\<rparr>"

definition Cvm_consumer :: "globals \<Rightarrow> factorylib \<Rightarrow> cvmWriter \<Rightarrow> services_Consumer" where
  "Cvm_consumer G F w =
     \<lparr>con_Consume = Cvm_Consume G (fl_nodelib F) (fl_cvmlib F) w,
      con_ConsumeConsensus = (\<lambda>_. Cvm_ConsumeConsensus),
      con_Bootstrap = Cvm_Bootstrap\<rparr>"

definition IndexerConsumer ::
  "globals \<Rightarrow> factorylib \<Rightarrow> u32 \<Rightarrow> string \<Rightarrow> string \<Rightarrow> string option \<Rightarrow> goerr + services_Consumer" where
  "IndexerConsumer G F networkID chainVM chainID caminoNode =
     (if chainVM = ''avm'' then
        (case Avm_NewWriter F networkID chainID of Inl e \<Rightarrow> Inl e | Inr w \<Rightarrow> Inr (Avm_consumer G F w))
      else if chainVM = ''pvm'' then
        (case Pvm_NewWriter F networkID chainID of Inl e \<Rightarrow> Inl e | Inr w \<Rightarrow> Inr (Pvm_consumer G F w))
      else if chainVM = ''cvm'' then
        (case Cvm_NewWriter F networkID chainID caminoNode of Inl e \<Rightarrow> Inl e | Inr w \<Rightarrow> Inr (Cvm_consumer G F w))
      else Inl ErrUnknownVM)"

record consumerDB =
  cd_eventType :: string
  cd_chainID :: string
  cd_consumer :: services_Consumer
  cd_topicName :: string

text \<open>The configuration of a chain: its id and the type of its virtual machine.\<close>

record Chain =
  ch_ID :: string
  ch_VMType :: string

definition NewConsumerDBFactory ::
  "(u32 \<Rightarrow> string \<Rightarrow> string \<Rightarrow> string option \<Rightarrow> goerr + services_Consumer) \<Rightarrow> string
     \<Rightarrow> u32 \<Rightarrow> string \<Rightarrow> Chain \<Rightarrow> goerr + consumerDB" where
  "NewConsumerDBFactory factory eventType networkID caminoNode chain =
     (case factory networkID (ch_VMType chain) (ch_ID chain) (Some caminoNode) of
        Inl err \<Rightarrow> Inl err
      | Inr c \<Rightarrow> Inr \<lparr>cd_eventType = eventType, cd_chainID = ch_ID chain, cd_consumer = c,
                     cd_topicName = GetTopicName networkID (ch_ID chain) eventType\<rparr>)"

definition persistConsume :: "consumerDB \<Rightarrow> Consumable \<Rightarrow> (database, unit) go" where
  "persistConsume c msg =
     (if cd_eventType c = EventTypeDecisions then con_Consume (cd_consumer c) msg
      else if cd_eventType c = EventTypeConsensus then con_ConsumeConsensus (cd_consumer c) msg
      else fail (''invalid eventType '' @ cd_eventType c))"

text \<open>The loop repeats while the error is a lock error; the retry loop of the balance manager has
  the same body.\<close>

definition Consume ::
  "consumerDB \<Rightarrow> Consumable \<Rightarrow> Control \<Rightarrow> database world
     \<Rightarrow> ((goerr + unit) \<times> Control \<times> database world) option" where
  "Consume c msg sc w =
     (case RepeatForLock (persistConsume c msg) w of
        None \<Rightarrow> None
      | Some (Inl e, w1) \<Rightarrow> Some (Inl e, sc, w1)
      | Some (Inr _, w1) \<Rightarrow> Some (Inr (), sc\<lparr>BalanceManager := Exec (BalanceManager sc)\<rparr>, w1))"

definition row_message :: "consumerDB \<Rightarrow> TxPool \<Rightarrow> Consumable" where
  "row_message c row =
     \<lparr>cs_ID = tp_MsgKey row, cs_ChainID = cd_chainID c, cs_Body = tp_Serialization row,
      cs_Timestamp = tp_CreatedAt row div 1000000000, cs_Nanosecond = tp_CreatedAt row mod 1000000000\<rparr>"

definition Process ::
  "consumerDB \<Rightarrow> TxPool \<Rightarrow> Control \<Rightarrow> database world
     \<Rightarrow> ((goerr + unit) \<times> Control \<times> database world) option" where
  "Process c row sc w = Consume c (row_message c row) sc w"

section \<open>The handler of the queue\<close>

definition removeTxPool :: "TxPool \<Rightarrow> (database, unit) go" where
  "removeTxPool txPool = RemoveTxPool txPool"

text \<open>\<^verbatim>\<open>txd.Errs.SetValue(err)\<close> when there is a cell.\<close>

definition set_errs :: "LocalTxPoolJob \<Rightarrow> goerr \<Rightarrow> Control \<Rightarrow> Control" where
  "set_errs txd err sc =
     (case job_Errs txd of
        None \<Rightarrow> sc
      | Some cell \<Rightarrow> sc\<lparr>sc_errs := (sc_errs sc)(cell \<mapsto> err)\<rparr>)"

definition errs_set :: "LocalTxPoolJob \<Rightarrow> Control \<Rightarrow> bool" where
  "errs_set txd sc = (case job_Errs txd of None \<Rightarrow> False | Some cell \<Rightarrow> sc_errs sc cell \<noteq> None)"

text \<open>The body of the loop of \<^verbatim>\<open>handleTxPool\<close> for one job; no result means that the consumer never
  returns.\<close>

definition handleTxPool ::
  "(string \<rightharpoonup> consumerDB) \<Rightarrow> LocalTxPoolJob \<Rightarrow> Control \<Rightarrow> database world \<Rightarrow> (Control \<times> database world) option" where
  "handleTxPool fsm txd sc w =
     (if Exists (IndexedList sc) (tp_ID (job_TxPool txd)) then Some (sc, w)
      else if errs_set txd sc then Some (sc, w)
      else
        (case fsm (tp_Topic (job_TxPool txd)) of
           None \<Rightarrow> Some (sc, w)
         | Some p \<Rightarrow>
             (case Process p (job_TxPool txd) sc w of
                None \<Rightarrow> None
              | Some (Inl err, sc1, w1) \<Rightarrow> Some (set_errs txd err sc1, w1)
              | Some (Inr _, sc1, w1) \<Rightarrow>
                  (case removeTxPool (job_TxPool txd) w1 of
                     (Inl err, w2) \<Rightarrow> Some (set_errs txd err sc1, w2)
                   | (Inr _, w2) \<Rightarrow>
                       Some (sc1\<lparr>IndexedList := PushFront (tp_ID (job_TxPool txd)) (tp_ID (job_TxPool txd))
                                   (IndexedList sc1)\<rparr>, w2)))))"

section \<open>The iterator over the table\<close>

definition MaximumRecordsRead :: u64 where
  "MaximumRecordsRead = 10000"

text \<open>Rows with equal times come in the order of the table.\<close>

definition selectTxPool :: "string list \<Rightarrow> database \<Rightarrow> TxPool list" where
  "selectTxPool topicNames d = sort_key tp_CreatedAt (filter (\<lambda>r. tp_Topic r \<in> set topicNames) (tx_pool d))"

text \<open>The loop stops, waits for room in the channel, or goes on.\<close>

datatype iter_result = IterStop | IterWait | IterNext u64 Control

definition iterateTxPool_row :: "nat \<Rightarrow> u64 \<Rightarrow> TxPool \<Rightarrow> Control \<Rightarrow> iter_result" where
  "iterateTxPool_row cell readMessages txp sc =
     (if sc_errs sc cell \<noteq> None then IterStop
      else if readMessages > MaximumRecordsRead then IterStop
      else if Exists (IndexedList sc) (tp_ID txp) then IterNext readMessages sc
      else if length (LocalTxPool sc) < MaxTxPoolSize
           then IterNext (readMessages + 1)
                  (sc\<lparr>LocalTxPool := LocalTxPool sc @ [\<lparr>job_TxPool = txp, job_Errs = Some cell\<rparr>]\<rparr>)
           else IterWait)"

section \<open>Starting the indexers\<close>

text \<open>The registration of one processor under its topic; \<open>fsm\<close> and \<open>topicNames\<close>.\<close>

definition register ::
  "goerr + consumerDB \<Rightarrow> (string \<rightharpoonup> consumerDB) \<times> string list \<Rightarrow> goerr + (string \<rightharpoonup> consumerDB) \<times> string list" where
  "register made st =
     (case made of
        Inl err \<Rightarrow> Inl err
      | Inr f \<Rightarrow>
          (if fst st (cd_topicName f) \<noteq> None then Inl (''duplicate topic '' @ cd_topicName f)
           else Inr ((fst st)(cd_topicName f \<mapsto> f), snd st @ [cd_topicName f])))"

primrec register_all ::
  "(goerr + consumerDB) list \<Rightarrow> (string \<rightharpoonup> consumerDB) \<times> string list
     \<Rightarrow> goerr + (string \<rightharpoonup> consumerDB) \<times> string list" where
  "register_all [] st = Inr st"
| "register_all (m # ms) st =
     (case register m st of Inl err \<Rightarrow> Inl err | Inr st1 \<Rightarrow> register_all ms st1)"

definition IndexerFactories ::
  "(Chain \<Rightarrow> goerr + consumerDB) list \<Rightarrow> (goerr + consumerDB) list \<Rightarrow> Chain list
     \<Rightarrow> goerr + (string \<rightharpoonup> consumerDB) \<times> string list" where
  "IndexerFactories factoriesChainDB factoriesInstDB confChains =
     register_all ([factory chain. factory \<leftarrow> factoriesChainDB, chain \<leftarrow> confChains] @ factoriesInstDB)
       (Map.empty, [])"

section \<open>Bootstrap\<close>

definition KeyValueBootstrap :: string where
  "KeyValueBootstrap = ''bootstrap''"

text \<open>The bootstraps of all chains run to their end; the last error that is set remains.  They are
  goroutines and are taken here in the order of the list.\<close>

primrec bootstrap_all :: "(goerr + services_Consumer) list \<Rightarrow> goerr option \<Rightarrow> (database, goerr option) go" where
  "bootstrap_all [] errs = ret errs"
| "bootstrap_all (m # ms) errs =
     (case m of
        Inl err \<Rightarrow> fail err
      | Inr c \<Rightarrow> (\<lambda>w. case con_Bootstrap c w of
                    (Inl err, w1) \<Rightarrow> bootstrap_all ms (Some err) w1
                  | (Inr _, w1) \<Rightarrow> bootstrap_all ms errs w1))"

text \<open>The error of the query is dropped; the row is then empty.\<close>

definition query_bootstrapped :: "(database, string) go" where
  "query_bootstrapped w =
     (case QueryKeyValueStore \<lparr>kv_K = KeyValueBootstrap, kv_V = []\<rparr> w of
        (Inl _, w1) \<Rightarrow> (Inr [], w1)
      | (Inr v, w1) \<Rightarrow> (Inr (kv_V v), w1))"

definition Bootstrap ::
  "Control \<Rightarrow> (Chain \<Rightarrow> goerr + services_Consumer) list \<Rightarrow> Chain list \<Rightarrow> (database, unit) go" where
  "Bootstrap sc factories confChains =
     (if IsDisableBootstrap sc then ret ()
      else
        bind query_bootstrapped (\<lambda>v.
        if v = ''true'' then ret ()
        else
          bind (bootstrap_all [factory chain. chain \<leftarrow> confChains, factory \<leftarrow> factories] None) (\<lambda>errs.
          case errs of
            Some err \<Rightarrow> fail err
          | None \<Rightarrow> InsertKeyValueStore \<lparr>kv_K = KeyValueBootstrap, kv_V = ''true''\<rparr>)))"

end
