(* ===== verification/Stream_Consumers.thy ===== *)
theory Stream_Consumers
  imports Stream_Pipeline
begin

text \<open>
  What the stream may rely on when it hands a message to a consumer: the locale
  \<open>index_consumer\<close>, and its interpretations on the writers of the three chains.

  A successful call leaves the message indexed, a failed one leaves the database as it was, and
  neither touches the tables of the stream.  What is indexed stays indexed while the ledger grows.
\<close>

section \<open>The tables of the stream\<close>

definition same_queue :: "database \<Rightarrow> database \<Rightarrow> bool" where
  "same_queue d d' \<longleftrightarrow> tx_pool d' = tx_pool d \<and> node_index d' = node_index d \<and>
     key_value_store d' = key_value_store d"

interpretation queue_frame: store_rel same_queue
  by unfold_locales (simp_all add: same_queue_def)

lemmas queue_frame_intros =
  queue_frame.steps_upsert queue_frame.steps_ignore_dup queue_frame.steps_wrap_err queue_frame.steps_if
  queue_frame.steps_sql_insert queue_frame.steps_sql_update queue_frame.steps_sql_delete
  queue_frame.steps_store_exec

lemma persist_same_queue [steps_intros]:
  "steps (on_store same_queue) (InsertTransactions v1 u)"
  "steps (on_store same_queue) (InsertOutputsRedeeming v2 u)"
  "steps (on_store same_queue) (InsertOutputs v3 u)"
  "steps (on_store same_queue) (InsertAssets v4 u)"
  "steps (on_store same_queue) (InsertAddresses v5 u)"
  "steps (on_store same_queue) (InsertAddressChain v6 u)"
  "steps (on_store same_queue) (InsertOutputAddresses v7 u)"
  "steps (on_store same_queue) (UpdateOutputAddresses v8)"
  "steps (on_store same_queue) (InsertTransactionsEpoch v9 u)"
  "steps (on_store same_queue) (InsertCvmBlocks v10)"
  "steps (on_store same_queue) (InsertCamLastBlockCache v11 u)"
  "steps (on_store same_queue) (InsertCvmAddresses v12 u)"
  "steps (on_store same_queue) (InsertCvmTransactionsAtomic v13 u)"
  "steps (on_store same_queue) (InsertPvmBlocks v14 u)"
  "steps (on_store same_queue) (InsertRewards v15 u)"
  "steps (on_store same_queue) (InsertTransactionsValidator v16 u)"
  "steps (on_store same_queue) (InsertTransactionsBlock v17 u)"
  "steps (on_store same_queue) (InsertAddressBech32 v18 u)"
  "steps (on_store same_queue) (InsertOutputAddressAccumulateOut v19 u)"
  "steps (on_store same_queue) (InsertOutputAddressAccumulateIn v20 u)"
  "steps (on_store same_queue) (UpdateOutputAddressAccumulateInOutputsProcessed v21)"
  "steps (on_store same_queue) (InsertOutputTxsAccumulate v22)"
  "steps (on_store same_queue) (InsertTransactionsRewardsOwnersAddress v23 u)"
  "steps (on_store same_queue) (InsertTransactionsRewardsOwnersOutputs v24 u)"
  "steps (on_store same_queue) (InsertTransactionsRewardsOwners v25 u)"
  unfolding InsertTransactions_def InsertOutputsRedeeming_def InsertOutputs_def InsertAssets_def
    InsertAddresses_def InsertAddressChain_def InsertOutputAddresses_def
    UpdateOutputAddresses_def InsertTransactionsEpoch_def InsertCvmBlocks_def
    InsertCamLastBlockCache_def InsertCvmAddresses_def InsertCvmTransactionsAtomic_def
    InsertPvmBlocks_def InsertRewards_def InsertTransactionsValidator_def
    InsertTransactionsBlock_def InsertAddressBech32_def InsertOutputAddressAccumulateOut_def
    InsertOutputAddressAccumulateIn_def UpdateOutputAddressAccumulateInOutputsProcessed_def
    InsertOutputTxsAccumulate_def InsertTransactionsRewardsOwnersAddress_def
    InsertTransactionsRewardsOwnersOutputs_def InsertTransactionsRewardsOwners_def
  by (intro queue_frame_intros; simp add: same_queue_def)+

lemma InsertCvmAccount_same_queue [steps_intros]:
  "steps (on_store same_queue) (InsertCvmAccount v u)"
  by (rule steps_InsertCvmAccount [OF queue_frame.store_rel_axioms]) (simp_all add: same_queue_def)

lemma InsertCvmTransactionsTxdata_same_queue [steps_intros]:
  "steps (on_store same_queue) (InsertCvmTransactionsTxdata v u)"
  unfolding InsertCvmTransactionsTxdata_def
  by (intro queue_frame_intros) (auto simp: same_queue_def Let_def split: option.splits if_splits)

lemma djtx_same_queue [steps_intros]:
  "steps (on_store same_queue)
     (InsertTransactionBase G L ctx txID chainID txType memo txBytes txfee genesis networkID)"
  "steps (on_store same_queue) (InsertAddressFromPublicKey G L ctx publicKey)"
  "steps (on_store same_queue) (InsertOutputAddress G L ctx outputID addressID sig txID idx chainID)"
  unfolding InsertTransactionBase_def InsertAddressFromPublicKey_def InsertOutputAddress_def Let_def
  by (intro steps_intros)+

lemma InsertTransactionIns_same_queue [steps_intros]:
  "steps (on_store same_queue)
     (InsertTransactionIns G L w idx ctx totalin inp txID creds unsignedBytes chainID)"
  unfolding InsertTransactionIns_def Let_def by (auto intro!: steps_intros split: Verifiable.split)

lemma ProcessStateOut_same_queue [steps_intros]:
  "steps (on_store same_queue)
     (ProcessStateOut G L w ctx out txID outputCount assetID amount totalout chainID stake genesisutxo)"
  unfolding ProcessStateOut_def InsertOutput_def Let_def
  by (auto intro!: steps_intros split: verify_State.split)

lemma djtx_loops_same_queue [steps_intros]:
  "steps (on_store same_queue) (ins_loop G L w ctx txID creds unsignedBytes chainID inps s)"
  "steps (on_store same_queue) (outs_loop G L w ctx txID chainID stake outs t)"
  unfolding ins_loop_def outs_loop_def InsertTransactionOuts_def by (intro steps_intros)+

lemma InsertTransaction_same_queue [steps_intros]:
  "steps (on_store same_queue)
     (InsertTransaction G L w ctx txBytes txID unsignedBytes baseTx creds txType addIns addOuts
        addlOutTxfee genesis)"
  unfolding InsertTransaction_def by (intro steps_intros)

section \<open>The X-chain\<close>

lemma avm_parts_same_queue [steps_intros]:
  "steps (on_store same_queue) (count_outs G L w ctx txID outs n)"
  "steps (on_store same_queue) (state_out_step G L w ctx txID out s)"
  unfolding count_outs_def InsertTransactionOuts_def state_out_step_def
  by (cases out; cases s; auto intro!: steps_intros)+

lemma avm_inserts_same_queue [steps_intros]:
  "steps (on_store same_queue)
     (insertCreateAssetTx G L w ctx txBytes txID unsignedBytes tx creds alias genesis)"
  "steps (on_store same_queue)
     (insertOperationTx G L w ctx txBytes txID unsignedBytes baseTx ops creds genesis)"
  unfolding insertCreateAssetTx_def insertOperationTx_def states_outs_def by (intro steps_intros)+

lemma Avm_Consume_same_queue: "steps (on_store same_queue) (Avm_Consume G L A w i)"
  unfolding Avm_Consume_def insertTx_def insertTxInternal_def Let_def
  by (auto intro!: steps_intros split: avm_UnsignedTx.split)

lemma Avm_ConsumeConsensus_same_queue: "steps (on_store same_queue) (Avm_ConsumeConsensus G L A c)"
  unfolding Avm_ConsumeConsensus_def Let_def by (intro steps_intros)

lemma Avm_Bootstrap_same_queue: "steps (on_store same_queue) (Avm_Bootstrap G L A w)"
  unfolding Avm_Bootstrap_def Avm_insertGenesis_def
  by (auto intro!: steps_intros split: chain_UnsignedTx.split)

section \<open>The P-chain\<close>

lemma pvm_parts_same_queue [steps_intros]:
  "steps (on_store same_queue) (InsertTransactionValidator G L V ctx txID validator)"
  "steps (on_store same_queue) (InsertTransactionBlock G L ctx txID blkID)"
  "steps (on_store same_queue) (indexCommonBlock G L pw ctx blkID blkType blk proposer blockBytes)"
  unfolding InsertTransactionValidator_def InsertTransactionBlock_def indexCommonBlock_def Let_def
  by (intro steps_intros)+

lemma insertTransactionsRewardsOwners_same_queue [steps_intros]:
  "steps (on_store same_queue)
     (insertTransactionsRewardsOwners G L w ctx txID rewardsOwner baseTx stakeOuts)"
  unfolding insertTransactionsRewardsOwners_def Let_def
  by (cases rewardsOwner) (auto intro!: steps_intros)

lemma indexTransaction_same_queue [steps_intros]:
  "steps (on_store same_queue) (indexTransaction G L V w ctx blkID tx genesis)"
  unfolding indexTransaction_def Let_def by (cases "pt_Unsigned tx") (auto intro!: steps_intros)

lemma Pvm_Consume_same_queue: "steps (on_store same_queue) (Pvm_Consume G L V w c)"
  unfolding Pvm_Consume_def indexBlock_def Let_def by (intro steps_intros)

lemma Pvm_Bootstrap_same_queue: "steps (on_store same_queue) (Pvm_Bootstrap G L V w)"
  unfolding Pvm_Bootstrap_def Let_def by (intro steps_intros)

section \<open>The C-chain\<close>

lemma cvm_parts_same_queue [steps_intros]:
  "steps (on_store same_queue) (insertAddress G L C ty ctx i txid address assetID amount nonce)"
  "steps (on_store same_queue) (Cvm_indexTransaction G L w ctx txid ty blockChainID txFee unsignedBytes)"
  "steps (on_store same_queue) (index_rawtx G C w ctx block tx)"
  unfolding insertAddress_def Cvm_indexTransaction_def index_rawtx_def Let_def by (intro steps_intros)+

lemma atomic_step_same_queue [steps_intros]:
  "steps (on_store same_queue) (atomic_step G L C w ctx block tx s)"
  unfolding atomic_step_def indexExportTx_def indexImportTx_def export_ins_def import_outs_def Let_def
  by (auto intro!: steps_intros split: UnsignedAtomicTx.split)

lemma update_cache_same_queue [steps_intros]: "steps (on_store same_queue) (update_cache b c)"
proof -
  have "steps (on_store same_queue) (QueryCountLastBlockCache q)" for q
    unfolding QueryCountLastBlockCache_def by (intro steps_intros)
  then have "steps (on_store same_queue) (count_cache q)" for q
    unfolding steps_def count_cache_def by (auto split: prod.splits sum.splits) (metis snd_conv)+
  then show ?thesis unfolding update_cache_def Let_def by (auto intro!: steps_intros)
qed

lemma Cvm_Consume_same_queue: "steps (on_store same_queue) (Cvm_Consume G L C w c)"
  unfolding Cvm_Consume_def Cvm_indexBlock_def indexBlockInternal_def atomic_loop_steps
  by (auto intro!: steps_intros)

section \<open>The contract of a consumer\<close>

locale index_consumer =
  fixes consume :: "Consumable \<Rightarrow> (database, unit) go"
    and indexed :: "bytes \<Rightarrow> database \<Rightarrow> bool"
  assumes consume_quiet: "steps (on_store same_queue) (consume c)"
    and consume_tame: "steps (tame False) (consume c)"
    and consume_indexed: "valid honest (consume c) (\<lambda>_ w. indexed (cs_Body c) (store w))"
    and consume_failed: "consume c w = (Inl e, w1) \<Longrightarrow> store w1 = store w"
    and indexed_mono: "indexed b d \<Longrightarrow> grows d d' \<Longrightarrow> indexed b d'"
begin

text \<open>What holds after any call.\<close>

lemma consume_after:
  assumes "honest w" and "consume c w = (r, w1)"
  shows "honest w1 \<and> same_queue (store w) (store w1) \<and> grows (store w) (store w1)"
proof -
  have "tame False w w1" using stepsD [OF consume_tame, of w c] assms(2) by simp
  moreover have "same_queue (store w) (store w1)"
    using stepsD [OF consume_quiet, of w c] assms(2) by (simp add: on_store_def)
  ultimately show ?thesis using honest_same_env [OF assms(1)] by (auto simp: tame_def)
qed

lemma consume_done: "honest w \<Longrightarrow> consume c w = (Inr x, w1) \<Longrightarrow> indexed (cs_Body c) (store w1)"
  using validD [OF consume_indexed] by blast

text \<open>The same for the loop that repeats after lock errors.\<close>

lemma repeated:
  assumes "RepeatForLock (consume c) w = Some (r, w1)" and "honest w"
  shows "honest w1 \<and> same_queue (store w) (store w1) \<and> grows (store w) (store w1) \<and>
    (case r of Inl _ \<Rightarrow> store w1 = store w | Inr _ \<Rightarrow> indexed (cs_Body c) (store w1))"
proof -
  have "\<exists>w0. (honest w0 \<and> store w0 = store w) \<and> consume c w0 = (r, w1) \<and>
      (\<forall>e. r = Inl e \<longrightarrow> \<not> ErrIsLockError (Some e))"
    by (rule RepeatForLock_result [OF assms(1)]) (use assms(2) consume_after consume_failed in auto)
  then obtain w0 where w0: "honest w0" "store w0 = store w" "consume c w0 = (r, w1)" by blast
  with consume_after [OF w0(1,3)] consume_done [OF w0(1)] consume_failed show ?thesis
    by (cases r) auto
qed

end

section \<open>The writers keep it\<close>

text \<open>In normal operation \<^verbatim>\<open>cfg.PerformUpdates\<close> is off.\<close>

abbreviation normal :: "globals \<Rightarrow> globals" where
  "normal G \<equiv> G\<lparr>PerformUpdates := False\<rparr>"

definition avm_body_indexed :: "nodelib \<Rightarrow> avmlib \<Rightarrow> bytes \<Rightarrow> database \<Rightarrow> bool" where
  "avm_body_indexed L A body d \<longleftrightarrow> (\<exists>tx. avm_ParseGenesis A body = Inr tx \<and> avm_indexed L tx d)"

definition pvm_body_indexed :: "nodelib \<Rightarrow> pvmlib \<Rightarrow> bytes \<Rightarrow> database \<Rightarrow> bool" where
  "pvm_body_indexed L V body d \<longleftrightarrow>
     (\<exists>blk. blocks_Parse V (block_bytes V body) = Inr blk \<and> pvm_all_indexed L V blk d)"

definition cvm_body_indexed :: "nodelib \<Rightarrow> cvmlib \<Rightarrow> cvmWriter \<Rightarrow> bytes \<Rightarrow> database \<Rightarrow> bool" where
  "cvm_body_indexed L C w body d \<longleftrightarrow>
     (\<exists>block atomicTXs. cvm_block C body = Inr block \<and> cvm_atomics C w block = Inr atomicTXs \<and>
        cvm_indexed L atomicTXs block d)"

lemma valid_failed: "(\<And>w. \<exists>e w1. m w = (Inl e, w1)) \<Longrightarrow> valid P m Q"
  unfolding valid_def by (metis Inl_Inr_False fst_conv)

lemma with_tx_fails: "(\<And>w. \<exists>e w1. m w = (Inl e, w1)) \<Longrightarrow> \<exists>e w1. with_tx m w = (Inl e, w1)"
  unfolding with_tx_def bind_def
  by (cases "exec (\<lambda>d. (None, d)) w") (auto split: sum.splits prod.splits, metis Inl_Inr_False prod.inject)

lemma avm_indexed_mono: "avm_indexed L tx d \<Longrightarrow> grows d d' \<Longrightarrow> avm_indexed L tx d'"
  unfolding avm_indexed_def list_all_iff by (auto intro: recorded_mono recorded_upto_mono)

lemma pvm_all_indexed_mono: "pvm_all_indexed L V blk d \<Longrightarrow> grows d d' \<Longrightarrow> pvm_all_indexed L V blk d'"
  unfolding pvm_all_indexed_def list_all_iff by (auto intro: pvm_block_stored_mono pvm_indexed_mono)

lemma cvm_indexed_mono: "cvm_indexed L txs block d \<Longrightarrow> grows d d' \<Longrightarrow> cvm_indexed L txs block d'"
  unfolding cvm_indexed_def list_all_iff
  by (blast intro: recorded_atomic_mono recorded_link_mono recorded_rawtx_mono recorded_cblock_mono)

lemma tame_normal: "steps (tame (PerformUpdates (normal G))) m \<Longrightarrow> steps (tame False) m"
  by simp

interpretation avm_consumer: index_consumer "Avm_Consume (normal G) L A w" "avm_body_indexed L A"
  for G L A w
proof unfold_locales
  show "steps (on_store same_queue) (Avm_Consume (normal G) L A w c)" for c
    by (rule Avm_Consume_same_queue)
  show "steps (tame False) (Avm_Consume (normal G) L A w c)" for c
    by (rule tame_normal [OF Avm_Consume_tame])
  show "store w1 = store w0" if "Avm_Consume (normal G) L A w c w0 = (Inl e, w1)" for c w0 e w1
    using that by (auto simp: Avm_Consume_def dest: with_tx_rollback)
  show "avm_body_indexed L A b d'" if "avm_body_indexed L A b d" "grows d d'" for b d d'
    using that by (auto simp: avm_body_indexed_def intro: avm_indexed_mono)
  show "valid honest (Avm_Consume (normal G) L A w c) (\<lambda>_ w. avm_body_indexed L A (cs_Body c) (store w))" for c
  proof (cases "avm_ParseGenesis A (cs_Body c)")
    case (Inl e)
    then show ?thesis
      by (intro valid_failed)
        (auto simp: Avm_Consume_def insertTx_def lift_err_def fail_def intro!: with_tx_fails)
  next
    case (Inr tx)
    then show ?thesis
      by (intro valid_conseq [OF Avm_Consume_indexed [OF _ Inr]]) (auto simp: avm_body_indexed_def)
  qed
qed

interpretation pvm_consensus: index_consumer "\<lambda>_. Pvm_ConsumeConsensus" "\<lambda>_ _. True"
  by unfold_locales (auto simp: Pvm_ConsumeConsensus_def ret_def valid_def intro: steps_intros)

interpretation cvm_consensus: index_consumer "\<lambda>_. Cvm_ConsumeConsensus" "\<lambda>_ _. True"
  by unfold_locales (auto simp: Cvm_ConsumeConsensus_def ret_def valid_def intro: steps_intros)

text \<open>The X-chain vertices.\<close>

definition epoch_recorded :: "nodelib \<Rightarrow> bytes \<Rightarrow> database \<Rightarrow> bool" where
  "epoch_recorded L tx d =
     list_ex (\<lambda>r. ep_ID r = ID_String L (ComputeHash256Array L tx)) (transactions_epoch d)"

definition avm_vertex_indexed :: "nodelib \<Rightarrow> avmlib \<Rightarrow> bytes \<Rightarrow> database \<Rightarrow> bool" where
  "avm_vertex_indexed L A body d \<longleftrightarrow>
     (\<exists>v. vertex_Parse A body = Inr v \<and> list_all (\<lambda>tx. epoch_recorded L tx d) (vx_Txs v))"

lemma epoch_recorded_mono: "epoch_recorded L tx d \<Longrightarrow> grows d d' \<Longrightarrow> epoch_recorded L tx d'"
  unfolding epoch_recorded_def grows_def by (blast intro: list_ex_prefix)

lemma InsertTransactionsEpoch_valid:
  "valid honest (InsertTransactionsEpoch v False)
     (\<lambda>_ w. list_ex (TransactionsEpoch_clash v) (transactions_epoch (store w)))"
  using transactions_epoch_tbl.insert_valid [of TableTransactionsEpochs v]
  by (cases v) (simp add: InsertTransactionsEpoch_def upsert_def)

lemma epochs_recorded:
  fixes L :: nodelib and mk :: "bytes \<Rightarrow> TransactionsEpoch"
  assumes "\<And>tx. ep_ID (mk tx) = ID_String L (ComputeHash256Array L tx)"
  shows "valid honest (each (\<lambda>tx. InsertTransactionsEpoch (mk tx) False) txs)
    (\<lambda>_ w. list_all (\<lambda>tx. epoch_recorded L tx (store w)) txs)"
proof -
  have keep: "valid (\<lambda>w. honest w \<and> epoch_recorded L y (store w)) (InsertTransactionsEpoch v False)
      (\<lambda>_ w. honest w \<and> epoch_recorded L y (store w))" for v y
    by (rule valid_tame [OF InsertTransactionsEpoch_tame]) (auto intro: epoch_recorded_mono)
  have one: "valid honest (InsertTransactionsEpoch (mk tx) False) (\<lambda>_ w. honest w \<and> epoch_recorded L tx (store w))" for tx
    by (rule valid_conseq [OF valid_honestI [OF InsertTransactionsEpoch_tame InsertTransactionsEpoch_valid]])
       (auto simp: epoch_recorded_def list_ex_iff TransactionsEpoch_clash_def assms)
  show ?thesis
    by (rule valid_conseq [OF valid_each [where P = honest and
          A = "\<lambda>tx w. honest w \<and> epoch_recorded L tx (store w)"]])
       (auto simp: list_all_iff intro: valid_conseq [OF one] keep)
qed

interpretation avm_consensus: index_consumer "Avm_ConsumeConsensus (normal G) L A" "avm_vertex_indexed L A"
  for G L A
proof unfold_locales
  show "steps (on_store same_queue) (Avm_ConsumeConsensus (normal G) L A c)" for c
    by (rule Avm_ConsumeConsensus_same_queue)
  show "steps (tame False) (Avm_ConsumeConsensus (normal G) L A c)" for c
    by (rule tame_normal [OF Avm_ConsumeConsensus_tame])
  show "store w1 = store w0" if "Avm_ConsumeConsensus (normal G) L A c w0 = (Inl e, w1)" for c w0 e w1
    using that by (cases "vertex_Parse A (cs_Body c)")
      (auto simp: Avm_ConsumeConsensus_def Let_def lift_err_def fail_def dest: with_tx_rollback)
  show "avm_vertex_indexed L A b d'" if "avm_vertex_indexed L A b d" "grows d d'" for b d d'
    using that by (auto simp: avm_vertex_indexed_def list_all_iff intro: epoch_recorded_mono)
  show "valid honest (Avm_ConsumeConsensus (normal G) L A c) (\<lambda>_ w. avm_vertex_indexed L A (cs_Body c) (store w))" for c
  proof (cases "vertex_Parse A (cs_Body c)")
    case (Inl e)
    then show ?thesis by (simp add: Avm_ConsumeConsensus_def lift_err_def valid_fail)
  next
    case (Inr v)
    have "valid honest (Avm_ConsumeConsensus (normal G) L A c)
        (\<lambda>_ w. list_all (\<lambda>tx. epoch_recorded L tx (store w)) (vx_Txs v))"
      using Inr by (auto simp: Avm_ConsumeConsensus_def lift_err_def Let_def
          intro!: valid_with_tx epochs_recorded)
    then show ?thesis by (rule valid_conseq) (auto simp: avm_vertex_indexed_def Inr)
  qed
qed

text \<open>\<^verbatim>\<open>wrappers.Errs\<close> keeps the first error.\<close>

definition first_error :: "goerr option \<Rightarrow> goerr option \<Rightarrow> goerr option" where
  "first_error errs x = (case errs of None \<Rightarrow> x | Some e \<Rightarrow> Some e)"

abbreviation keeps_first :: "pvmlib \<Rightarrow> pvmlib" where
  "keeps_first V \<equiv> V\<lparr>Errs_Add := first_error\<rparr>"

lemma keeps_first_Errs: "Errs_first (keeps_first V)"
  by (simp add: Errs_first_def first_error_def)

lemma Errs_first_eq: "Errs_first V \<Longrightarrow> keeps_first V = V"
  by (cases V) (auto simp: Errs_first_def first_error_def fun_eq_iff split: option.split)

lemma Pvm_Consume_unparsed:
  assumes "blocks_Parse V (block_bytes V (cs_Body c)) = Inl e"
  shows "\<exists>e w1. Pvm_Consume G L V w c w0 = (Inl e, w1)"
  unfolding Pvm_Consume_def
  by (rule with_tx_fails)
    (use assms in \<open>auto simp: indexBlock_def block_bytes_def lift_err_def fail_def split: sum.splits\<close>)

interpretation pvm_consumer: index_consumer "Pvm_Consume (normal G) L (keeps_first V) w"
    "pvm_body_indexed L (keeps_first V)"
  for G L V w
proof unfold_locales
  let ?V = "keeps_first V"
  show "steps (on_store same_queue) (Pvm_Consume (normal G) L ?V w c)" for c
    by (rule Pvm_Consume_same_queue)
  show "steps (tame False) (Pvm_Consume (normal G) L ?V w c)" for c
    by (rule tame_normal [OF Pvm_Consume_tame])
  show "store w1 = store w0" if "Pvm_Consume (normal G) L ?V w c w0 = (Inl e, w1)" for c w0 e w1
    using that by (auto simp: Pvm_Consume_def dest: with_tx_rollback)
  show "pvm_body_indexed L ?V b d'" if "pvm_body_indexed L ?V b d" "grows d d'" for b d d'
    using that unfolding pvm_body_indexed_def by (blast intro: pvm_all_indexed_mono)
  show "valid honest (Pvm_Consume (normal G) L ?V w c) (\<lambda>_ w. pvm_body_indexed L ?V (cs_Body c) (store w))" for c
  proof (cases "blocks_Parse ?V (block_bytes ?V (cs_Body c))")
    case (Inl e)
    then show ?thesis by (intro valid_failed Pvm_Consume_unparsed)
  next
    case (Inr blk)
    have "valid honest (Pvm_Consume (normal G) L ?V w c) (\<lambda>_ w. pvm_all_indexed L ?V blk (store w))"
      unfolding Pvm_Consume_def
      by (rule valid_with_tx [OF indexBlock_indexed [OF _ keeps_first_Errs Inr]]) simp_all
    then show ?thesis by (rule valid_conseq) (use Inr in \<open>auto simp: pvm_body_indexed_def\<close>)
  qed
qed

lemma Cvm_Consume_unparsed:
  assumes "(\<exists>e. cvm_block C (cs_Body c) = Inl e) \<or>
    (\<exists>block e. cvm_block C (cs_Body c) = Inr block \<and> cvm_atomics C w block = Inl e)"
  shows "\<exists>e w1. Cvm_Consume G L C w c w0 = (Inl e, w1)"
  unfolding Cvm_Consume_def
  by (rule with_tx_fails)
    (use assms in \<open>auto simp: Cvm_indexBlock_def cvm_block_def cvm_atomics_def lift_err_def fail_def bind_def
       ret_def split: sum.splits if_splits\<close>)

interpretation cvm_consumer: index_consumer "Cvm_Consume (normal G) L C w" "cvm_body_indexed L C w"
  for G L C w
proof unfold_locales
  show "steps (on_store same_queue) (Cvm_Consume (normal G) L C w c)" for c
    by (rule Cvm_Consume_same_queue)
  show "steps (tame False) (Cvm_Consume (normal G) L C w c)" for c
    by (rule tame_normal [OF Cvm_Consume_tame])
  show "store w1 = store w0" if "Cvm_Consume (normal G) L C w c w0 = (Inl e, w1)" for c w0 e w1
    using that by (auto simp: Cvm_Consume_def dest: with_tx_rollback)
  show "cvm_body_indexed L C w b d'" if "cvm_body_indexed L C w b d" "grows d d'" for b d d'
    using that unfolding cvm_body_indexed_def by (blast intro: cvm_indexed_mono)
  show "valid honest (Cvm_Consume (normal G) L C w c) (\<lambda>_ w'. cvm_body_indexed L C w (cs_Body c) (store w'))" for c
  proof (cases "\<exists>block atomicTXs. cvm_block C (cs_Body c) = Inr block \<and> cvm_atomics C w block = Inr atomicTXs")
    case False
    then have "(\<exists>e. cvm_block C (cs_Body c) = Inl e) \<or>
        (\<exists>block e. cvm_block C (cs_Body c) = Inr block \<and> cvm_atomics C w block = Inl e)"
      by (metis old.sum.exhaust)
    then show ?thesis by (intro valid_failed Cvm_Consume_unparsed)
  next
    case True
    then obtain block atomicTXs where b: "cvm_block C (cs_Body c) = Inr block" "cvm_atomics C w block = Inr atomicTXs"
      by blast
    then obtain proposer where eq: "Cvm_indexBlock (normal G) L C w
        (NewConsumerContext (cs_Timestamp c) (cs_Nanosecond c) (cs_ChainID c)) (cs_Body c) =
      indexBlockInternal (normal G) L C w
        (NewConsumerContext (cs_Timestamp c) (cs_Nanosecond c) (cs_ChainID c)) atomicTXs proposer block"
      using Cvm_indexBlock_internal by blast
    have "valid honest (Cvm_Consume (normal G) L C w c) (\<lambda>_ w. cvm_indexed L atomicTXs block (store w))"
      unfolding Cvm_Consume_def eq by (rule valid_with_tx [OF indexBlockInternal_recorded]) simp_all
    then show ?thesis by (rule valid_conseq) (use b in \<open>auto simp: cvm_body_indexed_def\<close>)
  qed
qed

section \<open>The consumers that the factories make\<close>

text \<open>What it means that a message of a topic is indexed, by the machine of the chain and the kind of
  event.  The P-chain and the C-chain have nothing to do for consensus messages.\<close>

definition chain_indexed ::
  "factorylib \<Rightarrow> u32 \<Rightarrow> string \<Rightarrow> string \<Rightarrow> Chain \<Rightarrow> bytes \<Rightarrow> database \<Rightarrow> bool" where
  "chain_indexed F networkID caminoNode eventType chain body d \<longleftrightarrow>
     (if eventType = EventTypeDecisions then
        (if ch_VMType chain = ''avm'' then avm_body_indexed (fl_nodelib F) (fl_avmlib F) body d
         else if ch_VMType chain = ''pvm'' then pvm_body_indexed (fl_nodelib F) (fl_pvmlib F) body d
         else (\<exists>w. Cvm_NewWriter F networkID (ch_ID chain) (Some caminoNode) = Inr w \<and>
                 cvm_body_indexed (fl_nodelib F) (fl_cvmlib F) w body d))
      else ch_VMType chain = ''avm'' \<longrightarrow> avm_vertex_indexed (fl_nodelib F) (fl_avmlib F) body d)"

lemma factory_consumer:
  assumes made: "NewConsumerDBFactory (IndexerConsumer (normal G) F) eventType networkID caminoNode chain = Inr c"
    and ev: "eventType = EventTypeDecisions \<or> eventType = EventTypeConsensus"
    and V: "Errs_first (fl_pvmlib F)"
  shows "index_consumer (persistConsume c) (chain_indexed F networkID caminoNode eventType chain)"
proof -
  obtain k where k: "IndexerConsumer (normal G) F networkID (ch_VMType chain) (ch_ID chain) (Some caminoNode) = Inr k"
    and c: "cd_eventType c = eventType" "cd_consumer c = k"
    using made by (auto simp: NewConsumerDBFactory_def split: sum.splits)
  have distinct: "EventTypeConsensus \<noteq> EventTypeDecisions"
    by (simp add: EventTypeConsensus_def EventTypeDecisions_def)
  have pick: "persistConsume c = con_Consume k" if "eventType = EventTypeDecisions"
    using that c by (simp add: persistConsume_def fun_eq_iff)
  have pick': "persistConsume c = con_ConsumeConsensus k" if "eventType = EventTypeConsensus"
    using that c distinct by (simp add: persistConsume_def fun_eq_iff)
  consider (avm) w where "ch_VMType chain = ''avm''" "k = Avm_consumer (normal G) F w"
    | (pvm) w where "ch_VMType chain = ''pvm''" "k = Pvm_consumer (normal G) F w"
    | (cvm) w where "ch_VMType chain = ''cvm''" "Cvm_NewWriter F networkID (ch_ID chain) (Some caminoNode) = Inr w"
        "k = Cvm_consumer (normal G) F w"
    using k by (auto simp: IndexerConsumer_def split: if_splits sum.splits)
  then show ?thesis
  proof cases
    case avm
    then show ?thesis
      using ev distinct pick pick' avm_consumer.index_consumer_axioms avm_consensus.index_consumer_axioms
      by (auto simp: chain_indexed_def [abs_def] Avm_consumer_def)
  next
    case pvm
    then show ?thesis
      using ev distinct pick pick' pvm_consensus.index_consumer_axioms
        pvm_consumer.index_consumer_axioms [of G "fl_nodelib F" "fl_pvmlib F"] Errs_first_eq [OF V]
      by (auto simp: chain_indexed_def [abs_def] Pvm_consumer_def)
  next
    case cvm
    then show ?thesis
      using ev distinct pick pick' cvm_consensus.index_consumer_axioms cvm_consumer.index_consumer_axioms
      by (auto simp: chain_indexed_def [abs_def] Cvm_consumer_def)
  qed
qed

section \<open>Bootstrap\<close>

text \<open>The factories that the program hands to \<^verbatim>\<open>Bootstrap\<close>.\<close>

definition bootstrap_factory :: "globals \<Rightarrow> factorylib \<Rightarrow> u32 \<Rightarrow> string \<Rightarrow> Chain \<Rightarrow> goerr + services_Consumer" where
  "bootstrap_factory G F networkID caminoNode chain =
     IndexerConsumer G F networkID (ch_VMType chain) (ch_ID chain) (Some caminoNode)"

lemma IndexerConsumer_bootstrap:
  "IndexerConsumer G F networkID vm chainID node = Inr c \<Longrightarrow> steps (on_store same_queue) (con_Bootstrap c)"
  "IndexerConsumer G F networkID vm chainID node = Inr c \<Longrightarrow> steps same_env (con_Bootstrap c)"
proof -
  have env: "steps same_env m" if "steps (tame u) m" for m :: "(database, unit) go" and u
    using that by (simp add: steps_def tame_def)
  have cases: "con_Bootstrap c = Avm_Bootstrap G (fl_nodelib F) (fl_avmlib F) w1 \<or>
      con_Bootstrap c = Pvm_Bootstrap G (fl_nodelib F) (fl_pvmlib F) w2 \<or> con_Bootstrap c = ret ()"
    if "IndexerConsumer G F networkID vm chainID node = Inr c"
      "c = Avm_consumer G F w1 \<or> c = Pvm_consumer G F w2 \<or> c = Cvm_consumer G F w3" for w1 w2 w3
    using that by (auto simp: Avm_consumer_def Pvm_consumer_def Cvm_consumer_def Cvm_Bootstrap_def)
  assume "IndexerConsumer G F networkID vm chainID node = Inr c"
  moreover from this obtain w1 w2 w3 where
    "c = Avm_consumer G F w1 \<or> c = Pvm_consumer G F w2 \<or> c = Cvm_consumer G F w3"
    by (auto simp: IndexerConsumer_def split: if_splits sum.splits)
  ultimately have "con_Bootstrap c = Avm_Bootstrap G (fl_nodelib F) (fl_avmlib F) w1 \<or>
      con_Bootstrap c = Pvm_Bootstrap G (fl_nodelib F) (fl_pvmlib F) w2 \<or> con_Bootstrap c = ret ()"
    by (rule cases)
  then show "steps (on_store same_queue) (con_Bootstrap c)" and "steps same_env (con_Bootstrap c)"
    using Avm_Bootstrap_same_queue Pvm_Bootstrap_same_queue env [OF Avm_Bootstrap_tame] env [OF Pvm_Bootstrap_tame]
    by (auto intro: steps_intros)
qed

lemma bootstrap_all_quiet:
  assumes "\<And>c. Inr c \<in> set ms \<Longrightarrow> steps (on_store same_queue) (con_Bootstrap c) \<and> steps same_env (con_Bootstrap c)"
  shows "same_queue (store w) (store (snd (bootstrap_all ms errs w))) \<and> same_env w (snd (bootstrap_all ms errs w))"
  using assms
proof (induction ms arbitrary: errs w)
  case Nil
  then show ?case by (simp add: ret_def same_queue_def same_env_def)
next
  case (Cons m ms)
  show ?case
  proof (cases m)
    case (Inl e)
    then show ?thesis by (simp add: fail_def same_queue_def same_env_def)
  next
    case (Inr c)
    obtain r w1 where one: "con_Bootstrap c w = (r, w1)" by (cases "con_Bootstrap c w")
    have "same_queue (store w) (store w1) \<and> same_env w w1"
      using stepsD [of "on_store same_queue" "con_Bootstrap c" w] stepsD [of same_env "con_Bootstrap c" w]
        Cons.prems [of c] Inr one unfolding on_store_def by simp
    moreover have "same_queue (store w1) (store (snd (bootstrap_all ms es w1))) \<and> same_env w1 (snd (bootstrap_all ms es w1))" for es
      using Cons.IH [of w1 es] Cons.prems by auto
    ultimately show ?thesis
      using Inr one by (auto simp: same_queue_def same_env_def split: sum.splits)
  qed
qed

definition bootstrapped :: "database \<Rightarrow> bool" where
  "bootstrapped d \<longleftrightarrow> (case filter (\<lambda>r. kv_K r = KeyValueBootstrap) (key_value_store d) of
     [] \<Rightarrow> False | r # _ \<Rightarrow> kv_V r = ''true'')"

lemma query_bootstrapped_result:
  "query_bootstrapped w = (if faults w (stmts w) = None
     then (Inr (case filter (\<lambda>r. kv_K r = KeyValueBootstrap) (key_value_store (store w)) of [] \<Rightarrow> [] | r # _ \<Rightarrow> kv_V r),
           w\<lparr>stmts := Suc (stmts w)\<rparr>)
     else (Inr [], w\<lparr>stmts := Suc (stmts w)\<rparr>))"
  by (auto simp: query_bootstrapped_def QueryKeyValueStore_def sql_load_one_def query_def Let_def
      split: option.splits list.splits)

lemma mark_bootstrapped:
  assumes "honest w" and "filter (\<lambda>r. kv_K r = KeyValueBootstrap) (key_value_store (store w)) = []"
    and "InsertKeyValueStore \<lparr>kv_K = KeyValueBootstrap, kv_V = ''true''\<rparr> w = (Inr u, w1)"
  shows "bootstrapped (store w1)"
proof -
  have free: "\<not> list_ex (KeyValueStore_clash \<lparr>kv_K = KeyValueBootstrap, kv_V = ''true''\<rparr>) (key_value_store (store w))"
    using assms(2) by (auto simp: list_ex_iff KeyValueStore_clash_def filter_empty_conv)
  show ?thesis
    using assms(1,3) free
    by (auto simp: InsertKeyValueStore_def ignore_dup_def sql_insert_def exec_def honest_def bootstrapped_def Let_def
        ErrIsDuplicateEntryError_def assms(2) split: option.splits if_splits)
qed

lemma insert_keeps_bootstrapped:
  assumes "bootstrapped (store w)" and "InsertKeyValueStore v w = (r, w1)"
  shows "bootstrapped (store w1)"
  using assms
  by (auto simp: InsertKeyValueStore_def ignore_dup_def sql_insert_def exec_def bootstrapped_def Let_def
      split: option.splits if_splits list.splits)

section \<open>Properties\<close>

text \<open>C21: Bootstrap happens once.  When \<^verbatim>\<open>Bootstrap\<close> has returned without an error, a later call, at
  which the database answers, returns at once and changes nothing.\<close>

theorem Bootstrap_once:
  assumes "Bootstrap sc [bootstrap_factory G F networkID caminoNode] confChains w = (Inr u, w1)"
    and "\<not> IsDisableBootstrap sc" and "honest w"
    and "bootstrapped (store w) \<or> filter (\<lambda>r. kv_K r = KeyValueBootstrap) (key_value_store (store w)) = []"
    and "calm w2" and "store w2 = store w1"
  shows "fst (Bootstrap sc fs cs w2) = Inr () \<and> store (snd (Bootstrap sc fs cs w2)) = store w1"
proof -
  let ?ms = "[factory chain. chain \<leftarrow> confChains, factory \<leftarrow> [bootstrap_factory G F networkID caminoNode]]"
  let ?w = "w\<lparr>stmts := Suc (stmts w)\<rparr>"
  have quiet: "same_queue (store ?w) (store (snd (bootstrap_all ?ms None ?w))) \<and> same_env ?w (snd (bootstrap_all ?ms None ?w))"
    by (rule bootstrap_all_quiet) (auto simp: bootstrap_factory_def dest: IndexerConsumer_bootstrap [OF sym])
  consider (marked) "store w1 = store w" "bootstrapped (store w)"
    | (run) w0 where "bootstrap_all ?ms None ?w = (Inr None, w0)"
        "InsertKeyValueStore \<lparr>kv_K = KeyValueBootstrap, kv_V = ''true''\<rparr> w0 = (Inr u, w1)"
    using assms(1,2)
    by (auto simp: Bootstrap_def bind_def query_bootstrapped_result ret_def fail_def bootstrapped_def
        split: prod.splits sum.splits option.splits if_splits list.splits)
  then have "bootstrapped (store w1)"
  proof cases
    case (run w0)
    then have w0: "honest w0" "key_value_store (store w0) = key_value_store (store w)"
      using quiet assms(3) by (auto simp: same_queue_def same_env_def honest_def)
    from assms(4) show ?thesis
    proof
      assume "bootstrapped (store w)"
      then show ?thesis using insert_keeps_bootstrapped [OF _ run(2)] w0(2) by (simp add: bootstrapped_def)
    next
      assume "filter (\<lambda>r. kv_K r = KeyValueBootstrap) (key_value_store (store w)) = []"
      with mark_bootstrapped [OF w0(1) _ run(2)] w0(2) show ?thesis by simp
    qed
  qed simp
  then show ?thesis
    using assms(2,5,6)
    by (auto simp: Bootstrap_def bind_def query_bootstrapped_result calm_def bootstrapped_def ret_def split: list.splits)
qed

definition example_factorylib :: factorylib where
  "example_factorylib = \<lparr>fl_nodelib = plain_lib, fl_avmlib = example_avmlib, fl_pvmlib = example_pvmlib,
     fl_cvmlib = example_cvmlib, fl_djtxAssetID = (\<lambda>_. Inr ''DJTX''), fl_FromString = Inr, fl_Alias = (\<lambda>_ _. None),
     fl_ApricotPhase5Time = (\<lambda>_. 0), fl_NewClient = (\<lambda>_. Inr (\<lambda>_. Inl ''no receipt''))\<rparr>"

definition example_control :: Control where
  "example_control = \<lparr>IsAccumulateBalanceIndexer = False, IsAccumulateBalanceReader = False, IsDisableBootstrap = False,
     IsAggregateCache = False, BalanceManager = NewManager, IndexedList = NewIndexedList 3, LocalTxPool = [],
     sc_errs = (\<lambda>_. None)\<rparr>"

definition stream_world :: "database world" where
  "stream_world = \<lparr>store = empty_db, faults = (\<lambda>_. None), stmts = 0, clock = (\<lambda>_. 0), ticks = 0\<rparr>"

lemma example_bootstrap:
  "Bootstrap example_control [bootstrap_factory example_globals example_factorylib 1 ''url'']
     [\<lparr>ch_ID = ''C'', ch_VMType = ''cvm''\<rparr>] stream_world =
   (Inr (), stream_world\<lparr>stmts := 2, store := empty_db\<lparr>key_value_store := [\<lparr>kv_K = KeyValueBootstrap, kv_V = ''true''\<rparr>]\<rparr>\<rparr>)"
  by (simp add: Bootstrap_def example_control_def bind_def query_bootstrapped_result stream_world_def empty_db_def
      bootstrap_factory_def IndexerConsumer_def Cvm_NewWriter_def example_factorylib_def Cvm_consumer_def Cvm_Bootstrap_def
      ret_def InsertKeyValueStore_def ignore_dup_def sql_insert_def exec_def)

theorem Bootstrap_once_witness:
  "let w1 = snd (Bootstrap example_control [bootstrap_factory example_globals example_factorylib 1 ''url'']
              [\<lparr>ch_ID = ''C'', ch_VMType = ''cvm''\<rparr>] stream_world)
   in length (key_value_store (store w1)) = 1 \<and> store (snd (Bootstrap example_control [] [] w1)) = store w1"
proof -
  let ?w1 = "snd (Bootstrap example_control [bootstrap_factory example_globals example_factorylib 1 ''url'']
              [\<lparr>ch_ID = ''C'', ch_VMType = ''cvm''\<rparr>] stream_world)"
  have "store (snd (Bootstrap example_control [] [] ?w1)) = store ?w1"
    unfolding example_bootstrap snd_conv
    by (rule conjunct2 [OF Bootstrap_once [OF example_bootstrap]])
      (simp_all add: example_control_def stream_world_def honest_def calm_def empty_db_def)
  then show ?thesis unfolding Let_def by (simp add: example_bootstrap)
qed

end
