(* ===== verification/Stream_System.thy ===== *)
theory Stream_System
  imports Stream_Consumers
begin

text \<open>
  The stream as a system of concurrent parts: the producers of all topics, the handler of the queue
  and the iterator over \<^verbatim>\<open>tx_pool\<close>, interleaved with each other, with everything else that
  writes to the database, and with restarts that lose all state in memory.

  The step relation cuts the code where it calls the database.  The main theorem says that no
  container is lost: every container below the stored position of its topic waits in \<^verbatim>\<open>tx_pool\<close>
  or is indexed.
\<close>

section \<open>States and steps\<close>

text \<open>What does not change while the program runs: its settings, the consumers, the producers, and
  for every topic the sequence of the containers that the node has accepted or will accept.\<close>

record pipe =
  pl_globals :: globals
  pl_nodelib :: nodelib
  pl_fsm :: "string \<rightharpoonup> consumerDB"
  pl_topics :: "string list"
  pl_producers :: "ProducerChain list"
  pl_chain :: "string \<Rightarrow> nat \<Rightarrow> Container"

text \<open>A producer inside \<^verbatim>\<open>ProcessNextMessage\<close>: the containers it still has to store and the number
  that it fetched.  The handler waits, indexes a job or removes it.\<close>

record prod_state =
  pp_pc :: producerChainContainer
  pp_pending :: "Container list"
  pp_count :: nat

datatype hand_state = Waiting | Consuming LocalTxPoolJob consumerDB | Removing LocalTxPoolJob

record stream_sys =
  st_world :: "database world"
  st_sc :: Control
  st_prods :: "string \<rightharpoonup> prod_state"
  st_hand :: hand_state
  st_iter :: "(nat \<times> u64 \<times> TxPool list) option"
  st_cells :: nat

abbreviation idle :: "producerChainContainer \<Rightarrow> prod_state" where
  "idle pc \<equiv> \<lparr>pp_pc = pc, pp_pending = [], pp_count = 0\<rparr>"

abbreviation pc_idx :: "producerChainContainer \<Rightarrow> u64" where
  "pc_idx pc \<equiv> ni_Idx (pc_nodeIndex pc)"

text \<open>What \<^verbatim>\<open>GetContainerRange\<close> gives: containers from the start on.\<close>

definition container_range :: "(nat \<Rightarrow> Container) \<Rightarrow> nat \<Rightarrow> nat \<Rightarrow> Container list" where
  "container_range ch a n = map ch [a..<a + n]"

definition next_index :: "producerChainContainer \<Rightarrow> nat \<Rightarrow> NodeIndex" where
  "next_index pc n = \<lparr>ni_Instance = pc_nodeinstance pc, ni_Topic = pc_topic pc, ni_Idx = pc_idx pc + of_nat n\<rparr>"

definition advance :: "producerChainContainer \<Rightarrow> nat \<Rightarrow> producerChainContainer" where
  "advance pc n = pc\<lparr>pc_nodeIndex := (pc_nodeIndex pc)\<lparr>ni_Idx := pc_idx pc + of_nat n\<rparr>\<rparr>"

inductive stream_step :: "pipe \<Rightarrow> stream_sys \<Rightarrow> stream_sys \<Rightarrow> bool" for P where
  start: "\<lbrakk>p \<in> set (pl_producers P); newContainer (pl_globals P) p (st_world s) = (Inr pc, w)\<rbrakk> \<Longrightarrow>
     stream_step P s (s\<lparr>st_world := w, st_prods := (st_prods s)(pr_topic p \<mapsto> idle pc)\<rparr>)"
| start_error: "\<lbrakk>p \<in> set (pl_producers P); newContainer (pl_globals P) p (st_world s) = (Inl e, w)\<rbrakk> \<Longrightarrow>
     stream_step P s (s\<lparr>st_world := w\<rparr>)"
| fetch: "\<lbrakk>st_prods s t = Some (idle pc); 0 < n; n \<le> MaxTxRead; unat (pc_idx pc) + n < 2 ^ 64\<rbrakk> \<Longrightarrow>
     stream_step P s (s\<lparr>st_prods := (st_prods s)(t \<mapsto>
       \<lparr>pp_pc = pc, pp_pending = container_range (pl_chain P t) (unat (pc_idx pc)) n, pp_count = n\<rparr>)\<rparr>)"
| store: "\<lbrakk>st_prods s t = Some \<lparr>pp_pc = pc, pp_pending = c # cs, pp_count = n\<rparr>;
     UpdateTxPool (mkTxPool (pl_nodelib P) pc c) (st_sc s) (st_world s) = (Inr u, sc, w)\<rbrakk> \<Longrightarrow>
     stream_step P s (s\<lparr>st_world := w, st_sc := sc,
       st_prods := (st_prods s)(t \<mapsto> \<lparr>pp_pc = pc, pp_pending = cs, pp_count = n\<rparr>)\<rparr>)"
| store_error: "\<lbrakk>st_prods s t = Some \<lparr>pp_pc = pc, pp_pending = c # cs, pp_count = n\<rparr>;
     UpdateTxPool (mkTxPool (pl_nodelib P) pc c) (st_sc s) (st_world s) = (Inl e, sc, w)\<rbrakk> \<Longrightarrow>
     stream_step P s (s\<lparr>st_world := w, st_sc := sc, st_prods := (st_prods s)(t \<mapsto> idle pc)\<rparr>)"
| commit: "\<lbrakk>st_prods s t = Some \<lparr>pp_pc = pc, pp_pending = [], pp_count = n\<rparr>; 0 < n;
     updateNodeIndex (next_index pc n) (st_world s) = (Inr u, w)\<rbrakk> \<Longrightarrow>
     stream_step P s (s\<lparr>st_world := w, st_prods := (st_prods s)(t \<mapsto> idle (advance pc n))\<rparr>)"
| commit_error: "\<lbrakk>st_prods s t = Some \<lparr>pp_pc = pc, pp_pending = [], pp_count = n\<rparr>; 0 < n;
     updateNodeIndex (next_index pc n) (st_world s) = (Inl e, w)\<rbrakk> \<Longrightarrow>
     stream_step P s (s\<lparr>st_world := w, st_prods := (st_prods s)(t \<mapsto> idle pc)\<rparr>)"
| stop: "stream_step P s (s\<lparr>st_prods := (st_prods s)(t := None)\<rparr>)"
| take_skip: "\<lbrakk>st_hand s = Waiting; LocalTxPool (st_sc s) = job # jobs;
     Exists (IndexedList (st_sc s)) (tp_ID (job_TxPool job)) \<or> errs_set job (st_sc s) \<or>
       pl_fsm P (tp_Topic (job_TxPool job)) = None\<rbrakk> \<Longrightarrow>
     stream_step P s (s\<lparr>st_sc := (st_sc s)\<lparr>LocalTxPool := jobs\<rparr>\<rparr>)"
| take_job: "\<lbrakk>st_hand s = Waiting; LocalTxPool (st_sc s) = job # jobs;
     \<not> Exists (IndexedList (st_sc s)) (tp_ID (job_TxPool job)); \<not> errs_set job (st_sc s);
     pl_fsm P (tp_Topic (job_TxPool job)) = Some c\<rbrakk> \<Longrightarrow>
     stream_step P s (s\<lparr>st_sc := (st_sc s)\<lparr>LocalTxPool := jobs\<rparr>, st_hand := Consuming job c\<rparr>)"
| consume: "\<lbrakk>st_hand s = Consuming job c;
     persistConsume c (row_message c (job_TxPool job)) (st_world s) = (Inr u, w)\<rbrakk> \<Longrightarrow>
     stream_step P s (s\<lparr>st_world := w, st_hand := Removing job,
       st_sc := (st_sc s)\<lparr>BalanceManager := Exec (BalanceManager (st_sc s))\<rparr>\<rparr>)"
| consume_again: "\<lbrakk>st_hand s = Consuming job c;
     persistConsume c (row_message c (job_TxPool job)) (st_world s) = (Inl e, w); ErrIsLockError (Some e)\<rbrakk> \<Longrightarrow>
     stream_step P s (s\<lparr>st_world := w\<rparr>)"
| consume_error: "\<lbrakk>st_hand s = Consuming job c;
     persistConsume c (row_message c (job_TxPool job)) (st_world s) = (Inl e, w); \<not> ErrIsLockError (Some e)\<rbrakk> \<Longrightarrow>
     stream_step P s (s\<lparr>st_world := w, st_hand := Waiting, st_sc := set_errs job e (st_sc s)\<rparr>)"
| remove: "\<lbrakk>st_hand s = Removing job; removeTxPool (job_TxPool job) (st_world s) = (Inr u, w)\<rbrakk> \<Longrightarrow>
     stream_step P s (s\<lparr>st_world := w, st_hand := Waiting,
       st_sc := (st_sc s)\<lparr>IndexedList := PushFront (tp_ID (job_TxPool job)) (tp_ID (job_TxPool job))
                            (IndexedList (st_sc s))\<rparr>\<rparr>)"
| remove_error: "\<lbrakk>st_hand s = Removing job; removeTxPool (job_TxPool job) (st_world s) = (Inl e, w)\<rbrakk> \<Longrightarrow>
     stream_step P s (s\<lparr>st_world := w, st_hand := Waiting, st_sc := set_errs job e (st_sc s)\<rparr>)"
| iterate: "\<lbrakk>st_iter s = None; query (\<lambda>d. Inr (selectTxPool (pl_topics P) d)) (st_world s) = (Inr rows, w)\<rbrakk> \<Longrightarrow>
     stream_step P s (s\<lparr>st_world := w, st_iter := Some (st_cells s, 0, rows), st_cells := st_cells s + 1,
       st_sc := (st_sc s)\<lparr>sc_errs := (sc_errs (st_sc s))(st_cells s := None)\<rparr>\<rparr>)"
| iterate_row: "\<lbrakk>st_iter s = Some (cell, n, r # rows);
     iterateTxPool_row cell n r (st_sc s) = IterNext n' sc\<rbrakk> \<Longrightarrow>
     stream_step P s (s\<lparr>st_sc := sc, st_iter := Some (cell, n', rows)\<rparr>)"
| iterate_end: "stream_step P s (s\<lparr>st_iter := None\<rparr>)"
| others: "\<lbrakk>grows (store (st_world s)) d; tx_pool d = tx_pool (store (st_world s));
     node_index d = node_index (store (st_world s))\<rbrakk> \<Longrightarrow>
     stream_step P s (s\<lparr>st_world := (st_world s)\<lparr>store := d\<rparr>\<rparr>)"
| restart: "Init features None sc0 = (None, sc) \<Longrightarrow>
     stream_step P s (s\<lparr>st_sc := sc, st_prods := Map.empty, st_hand := Waiting, st_iter := None\<rparr>)"

section \<open>What the parts rely on\<close>

text \<open>The rows that a producer makes.\<close>

definition row_of :: "pipe \<Rightarrow> ProducerChain \<Rightarrow> nat \<Rightarrow> TxPool" where
  "row_of P p i = mkTxPool (pl_nodelib P) (new_pc p) (pl_chain P (pr_topic p) i)"

definition body_of :: "pipe \<Rightarrow> ProducerChain \<Rightarrow> nat \<Rightarrow> bytes" where
  "body_of P p i = co_Bytes (pl_chain P (pr_topic p) i)"

text \<open>Equal ids belong to equal messages: the hash has no collisions among the containers.\<close>

definition collision_free :: "pipe \<Rightarrow> bool" where
  "collision_free P \<longleftrightarrow>
     (\<forall>p \<in> set (pl_producers P). \<forall>q \<in> set (pl_producers P). \<forall>i j.
        tp_ID (row_of P p i) = tp_ID (row_of P q j) \<longrightarrow>
          pr_topic p = pr_topic q \<and> body_of P p i = body_of P q j)"

text \<open>The parts fit together: updates are off, topics are distinct, and the consumer of each topic
  keeps the contract.\<close>

definition wired :: "pipe \<Rightarrow> (string \<Rightarrow> bytes \<Rightarrow> database \<Rightarrow> bool) \<Rightarrow> bool" where
  "wired P indexed \<longleftrightarrow>
     \<not> PerformUpdates (pl_globals P) \<and> distinct (map pr_topic (pl_producers P)) \<and> collision_free P \<and>
     (\<forall>t b d d'. indexed t b d \<longrightarrow> grows d d' \<longrightarrow> indexed t b d') \<and>
     (\<forall>t c. pl_fsm P t = Some c \<longrightarrow> index_consumer (persistConsume c) (indexed t))"

section \<open>No container is lost\<close>

text \<open>A container waits or is indexed.\<close>

definition covered :: "pipe \<Rightarrow> (string \<Rightarrow> bytes \<Rightarrow> database \<Rightarrow> bool) \<Rightarrow> ProducerChain \<Rightarrow> nat \<Rightarrow> database \<Rightarrow> bool" where
  "covered P indexed p i d \<longleftrightarrow>
     list_ex (\<lambda>r. tp_ID r = tp_ID (row_of P p i)) (tx_pool d) \<or> indexed (pr_topic p) (body_of P p i) d"

definition genuine :: "pipe \<Rightarrow> TxPool \<Rightarrow> bool" where
  "genuine P r \<longleftrightarrow> (\<exists>p \<in> set (pl_producers P). \<exists>i. r = row_of P p i)"

definition follows :: "ProducerChain \<Rightarrow> producerChainContainer \<Rightarrow> bool" where
  "follows p pc \<longleftrightarrow> pc\<lparr>pc_nodeIndex := pc_nodeIndex (new_pc p)\<rparr> = new_pc p"

definition positions_covered :: "pipe \<Rightarrow> (string \<Rightarrow> bytes \<Rightarrow> database \<Rightarrow> bool) \<Rightarrow> database \<Rightarrow> bool" where
  "positions_covered P indexed d \<longleftrightarrow>
     (\<forall>p \<in> set (pl_producers P). \<forall>r \<in> set (node_index d).
        ni_Instance r = pr_nodeInstance p \<longrightarrow> ni_Topic r = pr_topic p \<longrightarrow>
        (\<forall>i < unat (ni_Idx r). covered P indexed p i d))"

definition producer_ok ::
  "pipe \<Rightarrow> (string \<Rightarrow> bytes \<Rightarrow> database \<Rightarrow> bool) \<Rightarrow> string \<Rightarrow> prod_state \<Rightarrow> database \<Rightarrow> bool" where
  "producer_ok P indexed t x d \<longleftrightarrow>
     (\<exists>p \<in> set (pl_producers P). \<exists>k. pr_topic p = t \<and> follows p (pp_pc x) \<and> k \<le> pp_count x \<and>
        pp_pending x = container_range (pl_chain P t) (unat (pc_idx (pp_pc x)) + k) (pp_count x - k) \<and>
        (pp_count x = 0 \<or> unat (pc_idx (pp_pc x)) + pp_count x < 2 ^ 64) \<and>
        (\<forall>i < unat (pc_idx (pp_pc x)) + k. covered P indexed p i d))"

fun hand_ok :: "pipe \<Rightarrow> (string \<Rightarrow> bytes \<Rightarrow> database \<Rightarrow> bool) \<Rightarrow> hand_state \<Rightarrow> database \<Rightarrow> bool" where
  "hand_ok P indexed Waiting d \<longleftrightarrow> True"
| "hand_ok P indexed (Consuming job c) d \<longleftrightarrow>
     genuine P (job_TxPool job) \<and> pl_fsm P (tp_Topic (job_TxPool job)) = Some c"
| "hand_ok P indexed (Removing job) d \<longleftrightarrow>
     genuine P (job_TxPool job) \<and> indexed (tp_Topic (job_TxPool job)) (tp_Serialization (job_TxPool job)) d"

definition rows_ok :: "pipe \<Rightarrow> stream_sys \<Rightarrow> bool" where
  "rows_ok P s \<longleftrightarrow>
     list_all (genuine P) (tx_pool (store (st_world s))) \<and>
     list_all (\<lambda>job. genuine P (job_TxPool job)) (LocalTxPool (st_sc s)) \<and>
     (case st_iter s of None \<Rightarrow> True | Some (_, _, rows) \<Rightarrow> list_all (genuine P) rows)"

definition stream_inv :: "pipe \<Rightarrow> (string \<Rightarrow> bytes \<Rightarrow> database \<Rightarrow> bool) \<Rightarrow> stream_sys \<Rightarrow> bool" where
  "stream_inv P indexed s \<longleftrightarrow>
     honest (st_world s) \<and> rows_ok P s \<and> positions_covered P indexed (store (st_world s)) \<and>
     (\<forall>t x. st_prods s t = Some x \<longrightarrow> producer_ok P indexed t x (store (st_world s))) \<and>
     hand_ok P indexed (st_hand s) (store (st_world s))"

section \<open>The statements of the stream\<close>

lemma InsertTxPool_effect:
  assumes "honest w" and "InsertTxPool v w = (r, w1)"
  shows "node_index (store w1) = node_index (store w) \<and> set (tx_pool (store w)) \<subseteq> set (tx_pool (store w1)) \<and>
    set (tx_pool (store w1)) \<subseteq> insert v (set (tx_pool (store w))) \<and>
    (\<forall>u. r = Inr u \<longrightarrow> list_ex (\<lambda>x. tp_ID x = tp_ID v) (tx_pool (store w1)))"
proof -
  have "valid honest (InsertTxPool v) (\<lambda>_ w. list_ex (TxPool_clash v) (tx_pool (store w)))"
    using tx_pool_tbl.insert_valid [of TableTxPool v] by (cases v) (simp add: InsertTxPool_def)
  from validD [OF this] assms
  have "\<forall>u. r = Inr u \<longrightarrow> list_ex (\<lambda>x. tp_ID x = tp_ID v) (tx_pool (store w1))"
    by (fastforce simp: TxPool_clash_def list_ex_iff)
  with assms(2) show ?thesis
    by (cases v) (auto simp: InsertTxPool_def ignore_dup_def sql_insert_def exec_def Let_def
        split: option.splits if_splits)
qed

lemma RemoveTxPool_effect:
  assumes "RemoveTxPool v w = (r, w1)"
  shows "node_index (store w1) = node_index (store w) \<and> set (tx_pool (store w1)) \<subseteq> set (tx_pool (store w)) \<and>
    (\<forall>x \<in> set (tx_pool (store w)). x \<in> set (tx_pool (store w1)) \<or> tp_ID x = tp_ID v)"
  using assms by (auto simp: RemoveTxPool_def ignore_dup_def sql_delete_def exec_def Let_def
      split: option.splits if_splits)

lemma UpdateNodeIndex_effect:
  assumes "UpdateNodeIndex v w = (r, w1)"
  shows "tx_pool (store w1) = tx_pool (store w) \<and>
    (\<forall>x \<in> set (node_index (store w1)). x \<in> set (node_index (store w)) \<or>
       (ni_Instance x = ni_Instance v \<and> ni_Topic x = ni_Topic v \<and> ni_Idx x = ni_Idx v))"
  using assms by (auto simp: UpdateNodeIndex_def wrap_err_def sql_update_def exec_def upd_rows_def Let_def
      split: option.splits if_splits)

lemma InsertNodeIndex_effect:
  assumes "InsertNodeIndex v False w = (r, w1)"
  shows "tx_pool (store w1) = tx_pool (store w) \<and>
    (\<forall>x \<in> set (node_index (store w1)). x \<in> set (node_index (store w)) \<or> x = v)"
  using assms by (cases v) (auto simp: InsertNodeIndex_def upsert_def ignore_dup_def sql_insert_def exec_def Let_def
      split: option.splits if_splits)

text \<open>All of them leave the driver honest and the ledger grown.\<close>

lemma tame_after: "steps (tame False) m \<Longrightarrow> honest w \<Longrightarrow> m w = (r, w1) \<Longrightarrow> honest w1 \<and> grows (store w) (store w1)"
  using stepsD [of "tame False" m w] by (auto simp: tame_def intro: honest_same_env)

lemma getIndex_effect:
  assumes "getIndex (new_pc p) w = (r, w1)"
  shows "store w1 = store w \<and> (honest w \<longrightarrow> honest w1) \<and>
    (\<forall>pc. r = Inr pc \<longrightarrow> follows p pc \<and> (\<exists>x \<in> set (node_index (store w)).
       ni_Instance x = pr_nodeInstance p \<and> ni_Topic x = pr_topic p \<and> ni_Idx x = pc_idx pc))"
proof -
  let ?rows = "filter (\<lambda>x. ni_Instance x = pr_nodeInstance p \<and> ni_Topic x = pr_topic p) (node_index (store w))"
  have w1: "w1 = w\<lparr>stmts := Suc (stmts w)\<rparr>"
    using assms by (auto simp: getIndex_def QueryNodeIndex_def sql_load_one_def query_def bind_def ret_def Let_def
        split: option.splits sum.splits prod.splits)
  moreover have "follows p pc \<and> (\<exists>x \<in> set ?rows. ni_Idx x = pc_idx pc)" if r: "r = Inr pc" for pc
  proof (cases ?rows)
    case Nil
    with assms r show ?thesis
      by (simp add: getIndex_def QueryNodeIndex_def sql_load_one_def query_def bind_def Let_def new_pc_def
          split: option.splits)
  next
    case (Cons x xs)
    with assms r have "pc = (new_pc p)\<lparr>pc_nodeIndex :=
        \<lparr>ni_Instance = pr_nodeInstance p, ni_Topic = pr_topic p, ni_Idx = ni_Idx x\<rparr>\<rparr>"
      by (auto simp: getIndex_def QueryNodeIndex_def sql_load_one_def query_def bind_def ret_def Let_def new_pc_def
          split: option.splits)
    moreover have "x \<in> set ?rows" using Cons by simp
    ultimately show ?thesis by (auto simp: follows_def new_pc_def)
  qed
  ultimately show ?thesis by (fastforce simp: honest_def)
qed

lemma newContainer_effect:
  assumes "\<not> PerformUpdates G" and "honest w" and "newContainer G p w = (r, w1)"
  shows "honest w1 \<and> grows (store w) (store w1) \<and> tx_pool (store w1) = tx_pool (store w) \<and>
    (\<forall>x \<in> set (node_index (store w1)). x \<in> set (node_index (store w)) \<or> ni_Idx x = 0) \<and>
    (\<forall>pc. r = Inr pc \<longrightarrow> follows p pc \<and> (\<exists>x \<in> set (node_index (store w1)).
       ni_Instance x = pr_nodeInstance p \<and> ni_Topic x = pr_topic p \<and> ni_Idx x = pc_idx pc))"
proof -
  let ?v = "\<lparr>ni_Instance = pr_nodeInstance p, ni_Topic = pr_topic p, ni_Idx = 0\<rparr>"
  obtain r0 w0 where ins: "InsertNodeIndex ?v False w = (r0, w0)" by (cases "InsertNodeIndex ?v False w")
  note effect = InsertNodeIndex_effect [OF ins] tame_after [OF InsertNodeIndex_tame [where u = False] assms(2) ins]
  show ?thesis
  proof (cases r0)
    case (Inl e)
    with assms(1,3) ins have "r = Inl e" "w1 = w0"
      by (auto simp: newContainer_def insertNodeIndex_def andThen_def bind_def new_pc_def Let_def)
    with effect show ?thesis by auto
  next
    case (Inr u)
    with assms(1,3) ins have "getIndex (new_pc p) w0 = (r, w1)"
      by (simp add: newContainer_def insertNodeIndex_def andThen_def bind_def new_pc_def Let_def)
    from getIndex_effect [OF this] effect show ?thesis by auto
  qed
qed

section \<open>The invariant\<close>

definition keeps_covered :: "pipe \<Rightarrow> (string \<Rightarrow> bytes \<Rightarrow> database \<Rightarrow> bool) \<Rightarrow> database \<Rightarrow> database \<Rightarrow> bool" where
  "keeps_covered P indexed d d' \<longleftrightarrow>
     (\<forall>p \<in> set (pl_producers P). \<forall>i. covered P indexed p i d \<longrightarrow> covered P indexed p i d')"

lemma wiredD:
  assumes "wired P indexed"
  shows "\<not> PerformUpdates (pl_globals P)" and "distinct (map pr_topic (pl_producers P))"
    and "collision_free P" and "indexed t b d \<Longrightarrow> grows d d' \<Longrightarrow> indexed t b d'"
    and "pl_fsm P t = Some c \<Longrightarrow> index_consumer (persistConsume c) (indexed t)"
  using assms by (auto simp: wired_def)

lemma row_of_fields:
  "tp_Topic (row_of P p i) = pr_topic p" "tp_Serialization (row_of P p i) = body_of P p i"
  by (simp_all add: row_of_def body_of_def mkTxPool_def TxPool_ComputeID_def new_pc_def Let_def)

lemma mkTxPool_follows: "follows p pc \<Longrightarrow> mkTxPool L pc c = mkTxPool L (new_pc p) c"
  by (cases pc) (auto simp: follows_def new_pc_def mkTxPool_def)

text \<open>Rows may go when their message is indexed.\<close>

lemma keeps_coveredI:
  assumes "wired P indexed" and "grows d d'"
    and "\<And>x. x \<in> set (tx_pool d) \<Longrightarrow> x \<in> set (tx_pool d') \<or>
       (\<exists>j. tp_ID x = tp_ID j \<and> genuine P j \<and> indexed (tp_Topic j) (tp_Serialization j) d')"
  shows "keeps_covered P indexed d d'"
  unfolding keeps_covered_def
proof (intro ballI allI impI)
  fix p i assume p: "p \<in> set (pl_producers P)" and cov: "covered P indexed p i d"
  show "covered P indexed p i d'"
  proof (cases "indexed (pr_topic p) (body_of P p i) d")
    case True
    with wiredD(4) [OF assms(1) _ assms(2)] show ?thesis by (simp add: covered_def)
  next
    case False
    with cov obtain x where x: "x \<in> set (tx_pool d)" "tp_ID x = tp_ID (row_of P p i)"
      by (auto simp: covered_def list_ex_iff)
    from assms(3) [OF x(1)] show ?thesis
    proof
      assume "x \<in> set (tx_pool d')"
      with x(2) show ?thesis by (auto simp: covered_def list_ex_iff)
    next
      assume "\<exists>j. tp_ID x = tp_ID j \<and> genuine P j \<and> indexed (tp_Topic j) (tp_Serialization j) d'"
      then obtain q k where q: "q \<in> set (pl_producers P)" "tp_ID (row_of P p i) = tp_ID (row_of P q k)"
        "indexed (pr_topic q) (body_of P q k) d'"
        using x(2) by (auto simp: genuine_def row_of_fields)
      then have "pr_topic p = pr_topic q \<and> body_of P p i = body_of P q k"
        using wiredD(3) [OF assms(1)] p unfolding collision_free_def by blast
      with q(3) show ?thesis by (simp add: covered_def)
    qed
  qed
qed

lemma producer_ok_mono:
  "keeps_covered P indexed d d' \<Longrightarrow> producer_ok P indexed t x d \<Longrightarrow> producer_ok P indexed t x d'"
  unfolding producer_ok_def keeps_covered_def by blast

lemma hand_ok_mono:
  "wired P indexed \<Longrightarrow> grows d d' \<Longrightarrow> hand_ok P indexed h d \<Longrightarrow> hand_ok P indexed h d'"
  by (cases h) (auto dest: wiredD(4))

text \<open>What a step has to show.\<close>

lemma stream_inv_next:
  assumes "stream_inv P indexed s"
    and "honest (st_world s')" and "rows_ok P s'"
    and keeps: "keeps_covered P indexed (store (st_world s)) (store (st_world s'))"
    and rows: "\<And>x p i. \<lbrakk>x \<in> set (node_index (store (st_world s'))); p \<in> set (pl_producers P);
         ni_Instance x = pr_nodeInstance p; ni_Topic x = pr_topic p; i < unat (ni_Idx x)\<rbrakk> \<Longrightarrow>
         x \<in> set (node_index (store (st_world s))) \<or> covered P indexed p i (store (st_world s'))"
    and "\<And>t x. st_prods s' t = Some x \<Longrightarrow> st_prods s t = Some x \<or> producer_ok P indexed t x (store (st_world s'))"
    and "hand_ok P indexed (st_hand s') (store (st_world s'))"
  shows "stream_inv P indexed s'"
proof -
  have "positions_covered P indexed (store (st_world s'))"
    using rows keeps assms(1) unfolding positions_covered_def stream_inv_def keeps_covered_def by blast
  moreover have "producer_ok P indexed t x (store (st_world s'))" if "st_prods s' t = Some x" for t x
    using assms(6) [OF that] producer_ok_mono [OF keeps] assms(1) by (auto simp: stream_inv_def)
  ultimately show ?thesis using assms by (auto simp: stream_inv_def)
qed

text \<open>A call of the database that keeps the waiting rows and the positions.\<close>

lemma quiet_keeps:
  assumes "wired P indexed" and "grows d d'" and "tx_pool d' = tx_pool d"
  shows "keeps_covered P indexed d d'"
  by (rule keeps_coveredI [OF assms(1,2)]) (use assms(3) in auto)

lemma invD:
  assumes "stream_inv P indexed s"
  shows "honest (st_world s)" and "rows_ok P s" and "hand_ok P indexed (st_hand s) (store (st_world s))"
    and "st_prods s t = Some x \<Longrightarrow> producer_ok P indexed t x (store (st_world s))"
    and "\<lbrakk>p \<in> set (pl_producers P); r \<in> set (node_index (store (st_world s))); ni_Instance r = pr_nodeInstance p;
          ni_Topic r = pr_topic p; i < unat (ni_Idx r)\<rbrakk> \<Longrightarrow> covered P indexed p i (store (st_world s))"
  using assms by (auto simp: stream_inv_def positions_covered_def)

lemma container_range_0 [simp]: "container_range ch a 0 = []"
  by (simp add: container_range_def)

lemma idle_ok:
  assumes "p \<in> set (pl_producers P)" and "follows p pc"
    and "\<And>i. i < unat (pc_idx pc) \<Longrightarrow> covered P indexed p i d"
  shows "producer_ok P indexed (pr_topic p) (idle pc) d"
  using assms by (auto simp: producer_ok_def)

lemma newContainer_inv:
  assumes inv: "stream_inv P indexed s" and wired: "wired P indexed" and p: "p \<in> set (pl_producers P)"
    and run: "newContainer (pl_globals P) p (st_world s) = (r, w)"
    and prods: "prods = st_prods s \<or> (\<exists>pc. r = Inr pc \<and> prods = (st_prods s)(pr_topic p \<mapsto> idle pc))"
  shows "stream_inv P indexed (s\<lparr>st_world := w, st_prods := prods\<rparr>)"
proof (rule stream_inv_next [OF inv])
  note effect = newContainer_effect [OF wiredD(1) [OF wired] invD(1) [OF inv] run]
  let ?s = "s\<lparr>st_world := w, st_prods := prods\<rparr>"
  show keeps: "keeps_covered P indexed (store (st_world s)) (store (st_world ?s))"
    by (rule keeps_coveredI [OF wired]) (use effect in auto)
  show "honest (st_world ?s)" and "rows_ok P ?s"
    using effect invD(2) [OF inv] by (auto simp: rows_ok_def)
  show "hand_ok P indexed (st_hand ?s) (store (st_world ?s))"
    using hand_ok_mono [OF wired _ invD(3) [OF inv]] effect by simp
  show "x \<in> set (node_index (store (st_world s))) \<or> covered P indexed q i (store (st_world ?s))"
    if "x \<in> set (node_index (store (st_world ?s)))" "i < unat (ni_Idx x)" for x q i
    using effect that by auto
  have "producer_ok P indexed (pr_topic p) (idle pc) (store w)" if pc: "r = Inr pc" for pc
  proof -
    obtain x where x: "follows p pc" "x \<in> set (node_index (store w))" "ni_Instance x = pr_nodeInstance p"
      "ni_Topic x = pr_topic p" "ni_Idx x = pc_idx pc"
      using effect pc by blast
    have "covered P indexed p i (store w)" if i: "i < unat (pc_idx pc)" for i
    proof -
      have "x \<in> set (node_index (store (st_world s)))" using effect x(2,5) i by auto
      from invD(5) [OF inv p this x(3,4)] x(5) i have "covered P indexed p i (store (st_world s))" by simp
      with keeps p show ?thesis by (simp add: keeps_covered_def)
    qed
    with idle_ok [OF p x(1)] show ?thesis by blast
  qed
  then show "st_prods s t = Some x \<or> producer_ok P indexed t x (store (st_world ?s))"
    if "st_prods ?s t = Some x" for t x
    using that prods by (auto split: if_splits)
qed

lemma UpdateTxPool_effect:
  assumes "honest w" and "UpdateTxPool v sc w = (r, sc1, w1)"
  shows "honest w1 \<and> grows (store w) (store w1) \<and> node_index (store w1) = node_index (store w) \<and>
    set (tx_pool (store w)) \<subseteq> set (tx_pool (store w1)) \<and>
    set (tx_pool (store w1)) \<subseteq> insert v (set (tx_pool (store w))) \<and>
    set (LocalTxPool sc1) \<subseteq> insert \<lparr>job_TxPool = v, job_Errs = None\<rparr> (set (LocalTxPool sc)) \<and>
    (\<forall>u. r = Inr u \<longrightarrow> list_ex (\<lambda>x. tp_ID x = tp_ID v) (tx_pool (store w1)))"
proof -
  obtain r0 w0 where ins: "InsertTxPool v w = (r0, w0)" by (cases "InsertTxPool v w")
  with assms(2) have "w0 = w1" "\<forall>u. r = Inr u \<longrightarrow> r0 = Inr ()"
    "set (LocalTxPool sc1) \<subseteq> insert \<lparr>job_TxPool = v, job_Errs = None\<rparr> (set (LocalTxPool sc))"
    by (auto simp: UpdateTxPool_def Enqueue_def split: sum.splits if_splits)
  with InsertTxPool_effect [OF assms(1) ins] tame_after [OF InsertTxPool_tame [where u = False] assms(1) ins]
  show ?thesis by auto
qed

lemma container_range_Cons:
  "c # cs = container_range ch a n \<Longrightarrow> c = ch a \<and> 0 < n \<and> cs = container_range ch (Suc a) (n - 1)"
  by (cases n) (auto simp: container_range_def upt_conv_Cons simp del: upt_Suc)

lemma store_inv:
  assumes inv: "stream_inv P indexed s" and wired: "wired P indexed"
    and x: "st_prods s t = Some \<lparr>pp_pc = pc, pp_pending = c # cs, pp_count = n\<rparr>"
    and run: "UpdateTxPool (mkTxPool (pl_nodelib P) pc c) (st_sc s) (st_world s) = (r, sc, w)"
    and x': "x' = idle pc \<or> (\<exists>u. r = Inr u) \<and> x' = \<lparr>pp_pc = pc, pp_pending = cs, pp_count = n\<rparr>"
  shows "stream_inv P indexed (s\<lparr>st_world := w, st_sc := sc, st_prods := (st_prods s)(t \<mapsto> x')\<rparr>)"
proof (rule stream_inv_next [OF inv])
  let ?s = "s\<lparr>st_world := w, st_sc := sc, st_prods := (st_prods s)(t \<mapsto> x')\<rparr>"
  note effect = UpdateTxPool_effect [OF invD(1) [OF inv] run]
  obtain p k where p: "p \<in> set (pl_producers P)" "pr_topic p = t" "follows p pc" "k \<le> n"
    and cs: "c # cs = container_range (pl_chain P t) (unat (pc_idx pc) + k) (n - k)"
    and bound: "n = 0 \<or> unat (pc_idx pc) + n < 2 ^ 64"
    and cov: "\<And>i. i < unat (pc_idx pc) + k \<Longrightarrow> covered P indexed p i (store (st_world s))"
    using invD(4) [OF inv x] by (auto simp: producer_ok_def)
  note c = container_range_Cons [OF cs]
  have row: "mkTxPool (pl_nodelib P) pc c = row_of P p (unat (pc_idx pc) + k)"
    using c p(2) by (simp add: mkTxPool_follows [OF p(3)] row_of_def)
  then have gen: "genuine P (mkTxPool (pl_nodelib P) pc c)" using p(1) by (auto simp: genuine_def)
  show keeps: "keeps_covered P indexed (store (st_world s)) (store (st_world ?s))"
    by (rule keeps_coveredI [OF wired]) (use effect in auto)
  show "honest (st_world ?s)" using effect by simp
  show "rows_ok P ?s"
    using invD(2) [OF inv] effect gen unfolding rows_ok_def list_all_iff by auto
  show "hand_ok P indexed (st_hand ?s) (store (st_world ?s))"
    using hand_ok_mono [OF wired _ invD(3) [OF inv]] effect by simp
  show "y \<in> set (node_index (store (st_world s))) \<or> covered P indexed q i (store (st_world ?s))"
    if "y \<in> set (node_index (store (st_world ?s)))" for y q i
    using effect that by auto
  have cov': "covered P indexed p i (store w)" if "i < unat (pc_idx pc) + k" for i
    using cov [OF that] keeps p(1) by (simp add: keeps_covered_def)
  have "covered P indexed p i (store w)" if "r = Inr u" "i < unat (pc_idx pc) + Suc k" for u i
  proof (cases "i = unat (pc_idx pc) + k")
    case True
    with effect that(1) row show ?thesis by (simp add: covered_def)
  qed (use cov' that in auto)
  then have "producer_ok P indexed t \<lparr>pp_pc = pc, pp_pending = cs, pp_count = n\<rparr> (store w)" if "r = Inr u" for u
    unfolding producer_ok_def using p c bound that
    by (intro bexI [of _ p] exI [of _ "Suc k"]) auto
  moreover have "producer_ok P indexed t (idle pc) (store w)"
    using idle_ok [OF p(1,3), of indexed "store w"] cov' p(2) by simp
  ultimately have "producer_ok P indexed t x' (store w)" using x' by blast
  then show "st_prods s u = Some y \<or> producer_ok P indexed u y (store (st_world ?s))"
    if "st_prods ?s u = Some y" for u y
    using that by (auto split: if_splits)
qed

lemma advance_follows: "follows p pc \<Longrightarrow> follows p (advance pc n)"
  by (cases pc) (simp add: follows_def advance_def new_pc_def)

lemma follows_fields: "follows p pc \<Longrightarrow> pc_nodeinstance pc = pr_nodeInstance p \<and> pc_topic pc = pr_topic p"
  by (cases pc) (simp add: follows_def new_pc_def)

lemma unat_advance: "unat i + n < 2 ^ 64 \<Longrightarrow> unat (i + of_nat n :: u64) = unat i + n"
  by (simp add: unat_word_ariths unat_of_nat)

lemma same_topic: "wired P indexed \<Longrightarrow> p \<in> set (pl_producers P) \<Longrightarrow> q \<in> set (pl_producers P) \<Longrightarrow>
    pr_topic p = pr_topic q \<Longrightarrow> p = q"
  using wiredD(2) by (auto simp: distinct_map inj_on_def)

lemma commit_inv:
  assumes inv: "stream_inv P indexed s" and wired: "wired P indexed"
    and x: "st_prods s t = Some \<lparr>pp_pc = pc, pp_pending = [], pp_count = n\<rparr>" and n: "0 < n"
    and run: "updateNodeIndex (next_index pc n) (st_world s) = (r, w)"
    and pc': "pc' = pc \<or> pc' = advance pc n"
  shows "stream_inv P indexed (s\<lparr>st_world := w, st_prods := (st_prods s)(t \<mapsto> idle pc')\<rparr>)"
proof (rule stream_inv_next [OF inv])
  let ?s = "s\<lparr>st_world := w, st_prods := (st_prods s)(t \<mapsto> idle pc')\<rparr>"
  have run': "UpdateNodeIndex (next_index pc n) (st_world s) = (r, w)" using run by (simp add: updateNodeIndex_def)
  note effect = UpdateNodeIndex_effect [OF run'] tame_after [OF UpdateNodeIndex_tame [where u = False] invD(1) [OF inv] run']
  obtain p k where p: "p \<in> set (pl_producers P)" "pr_topic p = t" "follows p pc"
    and k: "[] = container_range (pl_chain P t) (unat (pc_idx pc) + k) (n - k)" "k \<le> n"
    and bound: "unat (pc_idx pc) + n < 2 ^ 64"
    and cov: "\<And>i. i < unat (pc_idx pc) + k \<Longrightarrow> covered P indexed p i (store (st_world s))"
    using invD(4) [OF inv x] n by (auto simp: producer_ok_def)
  from k n have "k = n" by (auto simp: container_range_def)
  show keeps: "keeps_covered P indexed (store (st_world s)) (store (st_world ?s))"
    by (rule keeps_coveredI [OF wired]) (use effect in auto)
  have cov': "covered P indexed p i (store w)" if "i < unat (pc_idx pc) + n" for i
    using cov [of i] that keeps p(1) \<open>k = n\<close> by (simp add: keeps_covered_def)
  show "honest (st_world ?s)" and "rows_ok P ?s"
    using effect invD(2) [OF inv] by (auto simp: rows_ok_def)
  show "hand_ok P indexed (st_hand ?s) (store (st_world ?s))"
    using hand_ok_mono [OF wired _ invD(3) [OF inv]] effect by simp
  show "y \<in> set (node_index (store (st_world s))) \<or> covered P indexed q i (store (st_world ?s))"
    if "y \<in> set (node_index (store (st_world ?s)))" "q \<in> set (pl_producers P)"
      "ni_Instance y = pr_nodeInstance q" "ni_Topic y = pr_topic q" "i < unat (ni_Idx y)" for y q i
  proof (cases "y \<in> set (node_index (store (st_world s)))")
    case False
    then have y: "ni_Topic y = pc_topic pc" "ni_Idx y = pc_idx pc + of_nat n"
      using effect that(1) by (auto simp: next_index_def)
    then have "q = p" using same_topic [OF wired that(2) p(1)] that(4) follows_fields [OF p(3)] by simp
    with y that(5) cov' unat_advance [OF bound] show ?thesis by simp
  qed simp
  have "producer_ok P indexed t (idle pc') (store w)"
    using idle_ok [OF p(1), of pc' indexed "store w"] pc' advance_follows [OF p(3)] p(2,3) cov'
      unat_advance [OF bound] by (auto simp: advance_def)
  then show "st_prods s u = Some y \<or> producer_ok P indexed u y (store (st_world ?s))"
    if "st_prods ?s u = Some y" for u y
    using that by (auto split: if_splits)
qed

text \<open>Steps that leave the database alone.\<close>

lemma local_inv:
  assumes inv: "stream_inv P indexed s" and "st_world s' = st_world s" and "rows_ok P s'"
    and "\<And>t x. st_prods s' t = Some x \<Longrightarrow> st_prods s t = Some x \<or> producer_ok P indexed t x (store (st_world s))"
    and "hand_ok P indexed (st_hand s') (store (st_world s))"
  shows "stream_inv P indexed s'"
  using assms by (intro stream_inv_next [OF inv]) (auto simp: keeps_covered_def stream_inv_def)

lemma fetch_ok:
  assumes inv: "stream_inv P indexed s" and x: "st_prods s t = Some (idle pc)" and "unat (pc_idx pc) + n < 2 ^ 64"
  shows "producer_ok P indexed t
    \<lparr>pp_pc = pc, pp_pending = container_range (pl_chain P t) (unat (pc_idx pc)) n, pp_count = n\<rparr> (store (st_world s))"
proof -
  obtain p where "p \<in> set (pl_producers P)" "pr_topic p = t" "follows p pc"
    "\<forall>i < unat (pc_idx pc). covered P indexed p i (store (st_world s))"
    using invD(4) [OF inv x] by (auto simp: producer_ok_def)
  with assms(3) show ?thesis unfolding producer_ok_def by (intro bexI [of _ p] exI [of _ 0]) auto
qed

text \<open>The handler.\<close>

lemma set_errs_pool [simp]: "LocalTxPool (set_errs job e sc) = LocalTxPool sc"
  by (simp add: set_errs_def split: option.split)

lemma consume_inv:
  assumes inv: "stream_inv P indexed s" and wired: "wired P indexed"
    and h: "st_hand s = Consuming job c"
    and run: "persistConsume c (row_message c (job_TxPool job)) (st_world s) = (r, w)"
    and sc: "LocalTxPool sc = LocalTxPool (st_sc s)"
    and h': "h' = Waiting \<or> h' = Consuming job c \<or> (\<exists>u. r = Inr u) \<and> h' = Removing job"
  shows "stream_inv P indexed (s\<lparr>st_world := w, st_hand := h', st_sc := sc\<rparr>)"
proof (rule stream_inv_next [OF inv])
  let ?s = "s\<lparr>st_world := w, st_hand := h', st_sc := sc\<rparr>"
  have job: "genuine P (job_TxPool job)" "pl_fsm P (tp_Topic (job_TxPool job)) = Some c"
    using invD(3) [OF inv] h by auto
  note contract = wiredD(5) [OF wired job(2)]
  note after = index_consumer.consume_after [OF contract invD(1) [OF inv] run]
  have "indexed (tp_Topic (job_TxPool job)) (tp_Serialization (job_TxPool job)) (store w)" if "r = Inr u" for u
    using index_consumer.consume_done [OF contract invD(1) [OF inv]] run that by (fastforce simp: row_message_def)
  then show "hand_ok P indexed (st_hand ?s) (store (st_world ?s))" using h' job by auto
  show "keeps_covered P indexed (store (st_world s)) (store (st_world ?s))"
    using quiet_keeps [OF wired] after by (simp add: same_queue_def)
  show "honest (st_world ?s)" and "rows_ok P ?s"
    using after invD(2) [OF inv] sc by (auto simp: rows_ok_def same_queue_def)
  show "y \<in> set (node_index (store (st_world s))) \<or> covered P indexed q i (store (st_world ?s))"
    if "y \<in> set (node_index (store (st_world ?s)))" for y q i
    using after that by (simp add: same_queue_def)
qed simp

lemma remove_inv:
  assumes inv: "stream_inv P indexed s" and wired: "wired P indexed" and h: "st_hand s = Removing job"
    and run: "removeTxPool (job_TxPool job) (st_world s) = (r, w)" and sc: "LocalTxPool sc = LocalTxPool (st_sc s)"
  shows "stream_inv P indexed (s\<lparr>st_world := w, st_hand := Waiting, st_sc := sc\<rparr>)"
proof (rule stream_inv_next [OF inv])
  let ?s = "s\<lparr>st_world := w, st_hand := Waiting, st_sc := sc\<rparr>"
  have run': "RemoveTxPool (job_TxPool job) (st_world s) = (r, w)" using run by (simp add: removeTxPool_def)
  note effect = RemoveTxPool_effect [OF run'] tame_after [OF RemoveTxPool_tame [where u = False] invD(1) [OF inv] run']
  have job: "genuine P (job_TxPool job)"
    "indexed (tp_Topic (job_TxPool job)) (tp_Serialization (job_TxPool job)) (store w)"
    using invD(3) [OF inv] h effect wiredD(4) [OF wired] by auto
  show "keeps_covered P indexed (store (st_world s)) (store (st_world ?s))"
    by (rule keeps_coveredI [OF wired]) (use effect job in auto)
  show "honest (st_world ?s)" using effect by simp
  show "rows_ok P ?s" using effect invD(2) [OF inv] sc by (auto simp: rows_ok_def list_all_iff)
  show "y \<in> set (node_index (store (st_world s))) \<or> covered P indexed q i (store (st_world ?s))"
    if "y \<in> set (node_index (store (st_world ?s)))" for y q i
    using effect that by auto
qed simp_all

text \<open>The iterator and the rest.\<close>

lemma iterateTxPool_row_jobs:
  "iterateTxPool_row cell n r sc = IterNext n' sc' \<Longrightarrow>
   set (LocalTxPool sc') \<subseteq> insert \<lparr>job_TxPool = r, job_Errs = Some cell\<rparr> (set (LocalTxPool sc))"
  by (auto simp: iterateTxPool_row_def split: if_splits)

lemma others_inv:
  assumes inv: "stream_inv P indexed s" and wired: "wired P indexed"
    and "honest w" and "grows (store (st_world s)) (store w)" and "tx_pool (store w) = tx_pool (store (st_world s))"
    and "node_index (store w) = node_index (store (st_world s))"
  shows "stream_inv P indexed (s\<lparr>st_world := w\<rparr>)"
  by (rule stream_inv_next [OF inv])
    (use assms(3-6) invD(2) [OF inv] hand_ok_mono [OF wired assms(4) invD(3) [OF inv]] quiet_keeps [OF wired assms(4,5)]
      in \<open>auto simp: rows_ok_def\<close>)

lemma honest_store: "honest w \<Longrightarrow> honest (w\<lparr>store := d\<rparr>)"
  by (simp add: honest_def)

lemma query_same: "query f w = (r, w1) \<Longrightarrow> store w1 = store w \<and> (honest w \<longrightarrow> honest w1)"
  by (auto simp: query_def Let_def honest_def split: option.splits)

lemma iterate_inv:
  assumes inv: "stream_inv P indexed s" and wired: "wired P indexed"
    and run: "query (\<lambda>d. Inr (selectTxPool ts d)) (st_world s) = (Inr rows, w)"
  shows "stream_inv P indexed (s\<lparr>st_world := w, st_iter := Some (cell, 0, rows), st_cells := k,
     st_sc := (st_sc s)\<lparr>sc_errs := es\<rparr>\<rparr>)"
proof -
  note w = query_same [OF run]
  have "set rows \<subseteq> set (tx_pool (store (st_world s)))"
    using run by (auto simp: query_def selectTxPool_def Let_def split: option.splits)
  moreover have i: "stream_inv P indexed (s\<lparr>st_world := w\<rparr>)"
    by (rule others_inv [OF inv wired]) (use w invD(1) [OF inv] in \<open>auto simp: grow.S_refl\<close>)
  ultimately show ?thesis
    by (intro local_inv [OF i]) (use invD(2,3) [OF i] w in \<open>auto simp: rows_ok_def list_all_iff\<close>)
qed

lemma stream_step_inv:
  assumes "stream_step P s s'" and inv: "stream_inv P indexed s" and wired: "wired P indexed"
  shows "stream_inv P indexed s'"
  using assms(1)
proof cases
  case (start p pc w)
  with newContainer_inv [OF inv wired start(2,3), of "(st_prods s)(pr_topic p \<mapsto> idle pc)"] show ?thesis by simp
next
  case (start_error p e w)
  with newContainer_inv [OF inv wired start_error(2,3), of "st_prods s"] show ?thesis by simp
next
  case (fetch t pc n)
  with fetch_ok [OF inv] invD(2,3) [OF inv] show ?thesis
    by (intro local_inv [OF inv]) (auto simp: rows_ok_def split: if_splits)
next
  case (store t pc c cs n u sc w)
  with store_inv [OF inv wired store(2,3)] show ?thesis by blast
next
  case (store_error t pc c cs n e sc w)
  with store_inv [OF inv wired store_error(2,3)] show ?thesis by blast
next
  case (commit t pc n u w)
  with commit_inv [OF inv wired commit(2,3,4)] show ?thesis by blast
next
  case (commit_error t pc n e w)
  with commit_inv [OF inv wired commit_error(2,3,4)] show ?thesis by blast
next
  case (stop t)
  with invD(2,3) [OF inv] show ?thesis
    by (intro local_inv [OF inv]) (auto simp: rows_ok_def split: if_splits)
next
  case (take_skip job jobs)
  with invD(2,3) [OF inv] show ?thesis by (intro local_inv [OF inv]) (auto simp: rows_ok_def)
next
  case (take_job job jobs c)
  with invD(2) [OF inv] show ?thesis by (intro local_inv [OF inv]) (auto simp: rows_ok_def)
next
  case (consume job c u w)
  then show ?thesis
    using consume_inv [OF inv wired consume(2,3), of "(st_sc s)\<lparr>BalanceManager := Exec (BalanceManager (st_sc s))\<rparr>"
        "Removing job"] by simp
next
  case (consume_again job c e w)
  have "s\<lparr>st_world := w, st_hand := Consuming job c, st_sc := st_sc s\<rparr> = s'"
    using consume_again by (cases s) simp
  with consume_inv [OF inv wired consume_again(2,3), of "st_sc s" "Consuming job c"] show ?thesis by simp
next
  case (consume_error job c e w)
  with consume_inv [OF inv wired consume_error(2,3), of "set_errs job e (st_sc s)" Waiting] show ?thesis by simp
next
  case (remove job u w)
  then show ?thesis
    using remove_inv [OF inv wired remove(2,3), of "(st_sc s)\<lparr>IndexedList := PushFront (tp_ID (job_TxPool job))
        (tp_ID (job_TxPool job)) (IndexedList (st_sc s))\<rparr>"] by simp
next
  case (remove_error job e w)
  with remove_inv [OF inv wired remove_error(2,3), of "set_errs job e (st_sc s)"] show ?thesis by simp
next
  case (iterate rows w)
  with iterate_inv [OF inv wired iterate(3)] show ?thesis by simp
next
  case (iterate_row cell n r rows n' sc)
  with invD(2,3) [OF inv] iterateTxPool_row_jobs [OF iterate_row(3)] show ?thesis
    by (intro local_inv [OF inv]) (auto simp: rows_ok_def list_all_iff)
next
  case iterate_end
  with invD(2,3) [OF inv] show ?thesis by (intro local_inv [OF inv]) (auto simp: rows_ok_def)
next
  case (others d)
  with others_inv [OF inv wired honest_store [OF invD(1) [OF inv], of d]] show ?thesis by simp
next
  case (restart features sc0 sc)
  then have "LocalTxPool sc = []" by (auto simp: Init_def Let_def)
  with restart invD(2) [OF inv] show ?thesis by (intro local_inv [OF inv]) (auto simp: rows_ok_def)
qed

text \<open>The start: nothing stored, nothing running.\<close>

definition stream_init :: "stream_sys \<Rightarrow> bool" where
  "stream_init s \<longleftrightarrow>
     honest (st_world s) \<and> tx_pool (store (st_world s)) = [] \<and> node_index (store (st_world s)) = [] \<and>
     LocalTxPool (st_sc s) = [] \<and> st_prods s = Map.empty \<and> st_hand s = Waiting \<and> st_iter s = None"

lemma stream_reach_inv:
  assumes "(stream_step P)\<^sup>*\<^sup>* s s'" and "stream_init s" and "wired P indexed"
  shows "stream_inv P indexed s'"
  using assms(1)
proof (induction rule: rtranclp_induct)
  case base
  from assms(2) show ?case
    by (simp add: stream_init_def stream_inv_def rows_ok_def positions_covered_def)
next
  case (step s1 s2)
  then show ?case using stream_step_inv assms(3) by blast
qed

section \<open>The indexers of the program\<close>

lemma register_all_some:
  "register_all ms st = Inr (fsm, ts) \<Longrightarrow> fsm t = Some c \<Longrightarrow>
   fst st t = Some c \<or> Inr c \<in> set ms \<and> cd_topicName c = t"
proof (induction ms arbitrary: st)
  case (Cons m ms)
  then obtain st1 where st1: "register m st = Inr st1" "register_all ms st1 = Inr (fsm, ts)"
    by (auto split: sum.splits)
  from Cons.IH [OF st1(2) Cons.prems(2)] st1(1) show ?case
    by (auto simp: register_def split: sum.splits if_splits)
qed simp

definition indexer_factories :: "globals \<Rightarrow> factorylib \<Rightarrow> u32 \<Rightarrow> string \<Rightarrow> (Chain \<Rightarrow> goerr + consumerDB) list" where
  "indexer_factories G F networkID caminoNode =
     [NewConsumerDBFactory (IndexerConsumer G F) EventTypeDecisions networkID caminoNode,
      NewConsumerDBFactory (IndexerConsumer G F) EventTypeConsensus networkID caminoNode]"

definition topic_indexed ::
  "factorylib \<Rightarrow> u32 \<Rightarrow> string \<Rightarrow> Chain list \<Rightarrow> string \<Rightarrow> bytes \<Rightarrow> database \<Rightarrow> bool" where
  "topic_indexed F networkID caminoNode confChains t body d \<longleftrightarrow>
     (\<exists>chain \<in> set confChains. \<exists>ev \<in> {EventTypeDecisions, EventTypeConsensus}.
        t = GetTopicName networkID (ch_ID chain) ev \<and> chain_indexed F networkID caminoNode ev chain body d)"

lemma chain_indexed_mono:
  "chain_indexed F networkID caminoNode ev chain b d \<Longrightarrow> grows d d' \<Longrightarrow> chain_indexed F networkID caminoNode ev chain b d'"
  unfolding chain_indexed_def
  by (auto simp: pvm_body_indexed_def split: if_splits
      intro: avm_consumer.indexed_mono avm_consensus.indexed_mono cvm_consumer.indexed_mono pvm_all_indexed_mono)

lemma index_consumer_weaken:
  assumes "index_consumer c I" and "\<And>b d. I b d \<Longrightarrow> J b d" and "\<And>b d d'. J b d \<Longrightarrow> grows d d' \<Longrightarrow> J b d'"
  shows "index_consumer c J"
proof
  show "valid honest (c m) (\<lambda>_ w. J (cs_Body m) (store w))" for m
    by (rule valid_conseq [OF index_consumer.consume_indexed [OF assms(1)]]) (auto intro: assms(2))
qed (use assms(3) index_consumer.consume_quiet [OF assms(1)] index_consumer.consume_tame [OF assms(1)]
    index_consumer.consume_failed [OF assms(1)] in auto)

lemma indexers_wired:
  assumes "IndexerFactories (indexer_factories (normal G) F networkID caminoNode) [] confChains = Inr (pl_fsm P, pl_topics P)"
    and "pl_globals P = normal G" and "Errs_first (fl_pvmlib F)"
    and "distinct (map pr_topic (pl_producers P))" and "collision_free P"
  shows "wired P (topic_indexed F networkID caminoNode confChains)"
proof -
  have mono: "topic_indexed F networkID caminoNode confChains t b d'"
    if "topic_indexed F networkID caminoNode confChains t b d" "grows d d'" for t b d d'
    using that chain_indexed_mono unfolding topic_indexed_def by blast
  have "index_consumer (persistConsume c) (topic_indexed F networkID caminoNode confChains t)"
    if c: "pl_fsm P t = Some c" for t c
  proof -
    obtain chain ev where ch: "chain \<in> set confChains" "ev = EventTypeDecisions \<or> ev = EventTypeConsensus"
      "NewConsumerDBFactory (IndexerConsumer (normal G) F) ev networkID caminoNode chain = Inr c" "cd_topicName c = t"
      using register_all_some [OF assms(1) [unfolded IndexerFactories_def] c]
      by (auto simp: indexer_factories_def) metis+
    then have t: "t = GetTopicName networkID (ch_ID chain) ev"
      by (auto simp: NewConsumerDBFactory_def split: sum.splits)
    show ?thesis
    proof (rule index_consumer_weaken [OF factory_consumer [OF ch(3,2) assms(3)] _ mono])
      show "topic_indexed F networkID caminoNode confChains t b d"
        if "chain_indexed F networkID caminoNode ev chain b d" for b d
        unfolding topic_indexed_def using that ch(1,2) t by blast
    qed
  qed
  with mono assms show ?thesis by (auto simp: wired_def)
qed

section \<open>The code as runs of the system\<close>

lemma store_containers_runs:
  assumes "st_prods s t = Some \<lparr>pp_pc = pc, pp_pending = cs, pp_count = n\<rparr>"
    and "store_containers (pl_nodelib P) pc cs (st_sc s) (st_world s) = (r, sc, w)"
  shows "(stream_step P)\<^sup>*\<^sup>* s (s\<lparr>st_world := w, st_sc := sc, st_prods := (st_prods s)(t \<mapsto>
     (case r of Inl _ \<Rightarrow> idle pc | Inr _ \<Rightarrow> \<lparr>pp_pc = pc, pp_pending = [], pp_count = n\<rparr>))\<rparr>)"
  using assms
proof (induction cs arbitrary: s)
  case Nil
  then have "s\<lparr>st_world := w, st_sc := sc, st_prods := (st_prods s)(t \<mapsto>
     (case r of Inl _ \<Rightarrow> idle pc | Inr _ \<Rightarrow> \<lparr>pp_pc = pc, pp_pending = [], pp_count = n\<rparr>))\<rparr> = s"
    by (cases s) (auto simp: fun_upd_idem)
  then show ?case by (simp only: rtranclp.rtrancl_refl)
next
  case (Cons c cs)
  obtain r1 sc1 w1 where one: "UpdateTxPool (mkTxPool (pl_nodelib P) pc c) (st_sc s) (st_world s) = (r1, sc1, w1)"
    by (cases "UpdateTxPool (mkTxPool (pl_nodelib P) pc c) (st_sc s) (st_world s)")
  show ?case
  proof (cases r1)
    case (Inl e)
    with one Cons.prems(2) have r: "r = Inl e" "sc = sc1" "w = w1" by auto
    have "stream_step P s (s\<lparr>st_world := w1, st_sc := sc1, st_prods := (st_prods s)(t \<mapsto> idle pc)\<rparr>)"
      using one Inl Cons.prems(1) by (auto intro: stream_step.store_error)
    then show ?thesis unfolding r sum.case by (rule r_into_rtranclp)
  next
    case (Inr u)
    let ?s = "s\<lparr>st_world := w1, st_sc := sc1,
      st_prods := (st_prods s)(t \<mapsto> \<lparr>pp_pc = pc, pp_pending = cs, pp_count = n\<rparr>)\<rparr>"
    have "stream_step P s ?s" using one Inr Cons.prems(1) by (auto intro: stream_step.store)
    moreover have "(stream_step P)\<^sup>*\<^sup>* ?s (?s\<lparr>st_world := w, st_sc := sc, st_prods := (st_prods ?s)(t \<mapsto>
       (case r of Inl _ \<Rightarrow> idle pc | Inr _ \<Rightarrow> \<lparr>pp_pc = pc, pp_pending = [], pp_count = n\<rparr>))\<rparr>)"
      by (rule Cons.IH) (use Cons.prems(2) one Inr in auto)
    then have "(stream_step P)\<^sup>*\<^sup>* ?s (s\<lparr>st_world := w, st_sc := sc, st_prods := (st_prods s)(t \<mapsto>
       (case r of Inl _ \<Rightarrow> idle pc | Inr _ \<Rightarrow> \<lparr>pp_pc = pc, pp_pending = [], pp_count = n\<rparr>))\<rparr>)" by simp
    ultimately show ?thesis by (rule converse_rtranclp_into_rtranclp)
  qed
qed

lemma ProcessNextMessage_runs:
  assumes idle: "st_prods s t = Some (idle pc)"
    and answer: "answer (pc_idx pc) MaxTxRead = Inr (container_range (pl_chain P t) (unat (pc_idx pc)) n)"
    and n: "0 < n" "n \<le> MaxTxRead" "unat (pc_idx pc) + n < 2 ^ 64"
    and run: "ProcessNextMessage (pl_nodelib P) answer pc (st_sc s) (st_world s) = (r, pc', sc, w)"
  shows "(stream_step P)\<^sup>*\<^sup>* s (s\<lparr>st_world := w, st_sc := sc, st_prods := (st_prods s)(t \<mapsto> idle pc')\<rparr>)"
proof -
  let ?cs = "container_range (pl_chain P t) (unat (pc_idx pc)) n"
  let ?s = "s\<lparr>st_prods := (st_prods s)(t \<mapsto> \<lparr>pp_pc = pc, pp_pending = ?cs, pp_count = n\<rparr>)\<rparr>"
  have len: "length ?cs = n" by (simp add: container_range_def)
  have n0: "n \<noteq> 0" using n(1) by simp
  with len have ne: "?cs \<noteq> []" by auto
  have first: "stream_step P s ?s" using idle n by (rule stream_step.fetch)
  obtain r1 sc1 w1 where st: "store_containers (pl_nodelib P) pc ?cs (st_sc s) (st_world s) = (r1, sc1, w1)"
    by (cases "store_containers (pl_nodelib P) pc ?cs (st_sc s) (st_world s)")
  have stored: "(stream_step P)\<^sup>*\<^sup>* s (s\<lparr>st_world := w1, st_sc := sc1, st_prods := (st_prods s)(t \<mapsto>
     (case r1 of Inl _ \<Rightarrow> idle pc | Inr _ \<Rightarrow> \<lparr>pp_pc = pc, pp_pending = [], pp_count = n\<rparr>))\<rparr>)"
    using converse_rtranclp_into_rtranclp [of "stream_step P", OF first]
      store_containers_runs [of ?s t pc ?cs n P r1 sc1 w1] st by simp
  show ?thesis
  proof (cases r1)
    case (Inl e)
    with run st answer ne stored show ?thesis by (auto simp: ProcessNextMessage_def)
  next
    case (Inr u)
    let ?s1 = "s\<lparr>st_world := w1, st_sc := sc1,
      st_prods := (st_prods s)(t \<mapsto> \<lparr>pp_pc = pc, pp_pending = [], pp_count = n\<rparr>)\<rparr>"
    obtain r2 w2 where up: "updateNodeIndex (next_index pc n) w1 = (r2, w2)"
      by (cases "updateNodeIndex (next_index pc n) w1")
    have end': "sc = sc1 \<and> w = w2 \<and> pc' = (case r2 of Inl _ \<Rightarrow> pc | Inr _ \<Rightarrow> advance pc n)"
      using run up len unfolding ProcessNextMessage_def answer sum.case st Inr
      by (cases r2) (auto simp: ne n0 next_index_def advance_def Let_def)
    have "stream_step P ?s1 (?s1\<lparr>st_world := w2, st_prods := (st_prods ?s1)(t \<mapsto> idle pc')\<rparr>)"
      using stream_step.commit [of ?s1 t pc n _ w2 P] stream_step.commit_error [of ?s1 t pc n _ w2 P] up end' n(1)
      by (cases r2) auto
    moreover have "?s1\<lparr>st_world := w2, st_prods := (st_prods ?s1)(t \<mapsto> idle pc')\<rparr> =
        s\<lparr>st_world := w, st_sc := sc, st_prods := (st_prods s)(t \<mapsto> idle pc')\<rparr>"
      using end' by (cases s) simp
    ultimately show ?thesis using stored unfolding Inr sum.case by (metis rtranclp.rtrancl_into_rtrancl)
  qed
qed

lemma consuming_runs:
  assumes "RepeatForLock (persistConsume c (row_message c (job_TxPool job))) (st_world s) = Some (r, w)"
    and "st_hand s = Consuming job c"
  shows "\<exists>w0. (stream_step P)\<^sup>*\<^sup>* s (s\<lparr>st_world := w0\<rparr>) \<and>
    persistConsume c (row_message c (job_TxPool job)) w0 = (r, w) \<and> (\<forall>e. r = Inl e \<longrightarrow> \<not> ErrIsLockError (Some e))"
proof (rule RepeatForLock_result [OF assms(1)])
  show "(stream_step P)\<^sup>*\<^sup>* s (s\<lparr>st_world := st_world s\<rparr>)" by simp
  show "(stream_step P)\<^sup>*\<^sup>* s (s\<lparr>st_world := w2\<rparr>)"
    if "(stream_step P)\<^sup>*\<^sup>* s (s\<lparr>st_world := w1\<rparr>)"
      "persistConsume c (row_message c (job_TxPool job)) w1 = (Inl e, w2)" "ErrIsLockError (Some e)" for w1 e w2
    using that stream_step.consume_again [of "s\<lparr>st_world := w1\<rparr>" job c e w2 P] assms(2)
    by (simp add: rtranclp.rtrancl_into_rtrancl)
qed

lemma run_between:
  "R a b \<Longrightarrow> R\<^sup>*\<^sup>* b c \<Longrightarrow> R c d \<Longrightarrow> R\<^sup>*\<^sup>* a d"
  "R a b \<Longrightarrow> R\<^sup>*\<^sup>* b c \<Longrightarrow> R c d \<Longrightarrow> R d e \<Longrightarrow> R\<^sup>*\<^sup>* a e"
  by (meson converse_rtranclp_into_rtranclp rtranclp.rtrancl_into_rtrancl)+

lemma handleTxPool_runs:
  assumes hand: "st_hand s = Waiting" and queue: "LocalTxPool (st_sc s) = job # jobs"
    and run: "handleTxPool (pl_fsm P) job ((st_sc s)\<lparr>LocalTxPool := jobs\<rparr>) (st_world s) = Some (sc, w)"
  shows "(stream_step P)\<^sup>*\<^sup>* s (s\<lparr>st_sc := sc, st_world := w\<rparr>)"
proof -
  let ?sc = "(st_sc s)\<lparr>LocalTxPool := jobs\<rparr>"
  let ?row = "job_TxPool job"
  have same: "Exists (IndexedList ?sc) (tp_ID ?row) = Exists (IndexedList (st_sc s)) (tp_ID ?row)"
    "errs_set job ?sc = errs_set job (st_sc s)"
    by (simp_all add: errs_set_def split: option.split)
  show ?thesis
  proof (cases "Exists (IndexedList (st_sc s)) (tp_ID ?row) \<or> errs_set job (st_sc s) \<or> pl_fsm P (tp_Topic ?row) = None")
    case True
    then have "sc = ?sc" "w = st_world s" using run by (auto simp: handleTxPool_def same split: if_splits)
    moreover have "stream_step P s (s\<lparr>st_sc := ?sc\<rparr>)" using hand queue True by (rule stream_step.take_skip)
    ultimately show ?thesis by (auto intro!: r_into_rtranclp)
  next
    case False
    then obtain c where c: "pl_fsm P (tp_Topic ?row) = Some c" by auto
    let ?s = "s\<lparr>st_sc := ?sc, st_hand := Consuming job c\<rparr>"
    let ?sc1 = "?sc\<lparr>BalanceManager := Exec (BalanceManager ?sc)\<rparr>"
    have take_it: "stream_step P s ?s" using hand queue False c by (auto intro: stream_step.take_job)
    obtain r w1 where rep: "RepeatForLock (persistConsume c (row_message c ?row)) (st_world ?s) = Some (r, w1)"
      using run False c by (auto simp: handleTxPool_def Process_def Consume_def same split: option.splits)
    obtain w0 where w0: "(stream_step P)\<^sup>*\<^sup>* ?s (?s\<lparr>st_world := w0\<rparr>)"
      "persistConsume c (row_message c ?row) w0 = (r, w1)" "\<forall>e. r = Inl e \<longrightarrow> \<not> ErrIsLockError (Some e)"
      using consuming_runs [OF rep] by auto
    show ?thesis
    proof (cases r)
      case (Inl e)
      with run rep False c have "sc = set_errs job e ?sc" "w = w1"
        by (auto simp: handleTxPool_def Process_def Consume_def same)
      moreover have "stream_step P (?s\<lparr>st_world := w0\<rparr>)
          (?s\<lparr>st_world := w1, st_hand := Waiting, st_sc := set_errs job e ?sc\<rparr>)"
        using stream_step.consume_error [of "?s\<lparr>st_world := w0\<rparr>" job c e w1 P] w0(2,3) Inl by simp
      moreover have "?s\<lparr>st_world := w1, st_hand := Waiting, st_sc := set_errs job e ?sc\<rparr> =
          s\<lparr>st_sc := set_errs job e ?sc, st_world := w1\<rparr>"
        using hand by (cases s) simp
      ultimately show ?thesis using run_between(1) [OF take_it w0(1)] by simp
    next
      case (Inr u)
      let ?s1 = "?s\<lparr>st_world := w1, st_hand := Removing job, st_sc := ?sc1\<rparr>"
      have removing: "stream_step P (?s\<lparr>st_world := w0\<rparr>) ?s1"
        using stream_step.consume [of "?s\<lparr>st_world := w0\<rparr>" job c u w1 P] w0(2) Inr by simp
      obtain r2 w2 where rem: "removeTxPool ?row w1 = (r2, w2)" by (cases "removeTxPool ?row w1")
      have final: "w = w2 \<and> sc = (case r2 of Inl e \<Rightarrow> set_errs job e ?sc1
          | Inr _ \<Rightarrow> ?sc1\<lparr>IndexedList := PushFront (tp_ID ?row) (tp_ID ?row) (IndexedList ?sc1)\<rparr>)"
        using run rep False c Inr rem
        by (auto simp: handleTxPool_def Process_def Consume_def same split: sum.splits)
      have "stream_step P ?s1 (?s1\<lparr>st_world := w, st_hand := Waiting, st_sc := sc\<rparr>)"
        using stream_step.remove [of ?s1 job _ w2 P] stream_step.remove_error [of ?s1 job _ w2 P] rem final
        by (cases r2) auto
      moreover have "?s1\<lparr>st_world := w, st_hand := Waiting, st_sc := sc\<rparr> = s\<lparr>st_sc := sc, st_world := w\<rparr>"
        using hand by (cases s) simp
      ultimately show ?thesis using run_between(2) [OF take_it w0(1) removing] by simp
    qed
  qed
qed

section \<open>Properties\<close>

text \<open>C1: No container is lost.  The producers of all topics, the handler, the iterator, the other
  writers and restarts of the program may interleave in any way, the database may report any errors
  (other than a false report of a duplicate), and calls may be repeated; still, in every reachable
  state each container below the position that is stored for its topic either waits in
  \<^verbatim>\<open>tx_pool\<close> or is indexed by the writer of its chain.\<close>

theorem no_container_lost:
  assumes "IndexerFactories (indexer_factories (normal G) F networkID caminoNode) [] confChains = Inr (pl_fsm P, pl_topics P)"
    and "pl_globals P = normal G" and "Errs_first (fl_pvmlib F)"
    and "distinct (map pr_topic (pl_producers P))" and "collision_free P"
    and "stream_init s" and "(stream_step P)\<^sup>*\<^sup>* s s'"
    and "p \<in> set (pl_producers P)" and "r \<in> set (node_index (store (st_world s')))"
    and "ni_Instance r = pr_nodeInstance p" and "ni_Topic r = pr_topic p" and "i < unat (ni_Idx r)"
  shows "covered P (topic_indexed F networkID caminoNode confChains) p i (store (st_world s'))"
  using invD(5) [OF stream_reach_inv [OF assms(7,6) indexers_wired [OF assms(1-5)]] assms(8-12)] .

definition example_producer :: ProducerChain where
  "example_producer = \<lparr>pr_networkID = 1, pr_nodeInstance = ''n'', pr_caminoNode = ''url'', pr_topic = ''1-X-decisions'',
     pr_chainID = ''X'', pr_indexerType = 0, pr_indexerChain = 0\<rparr>"

definition example_chain :: Chain where
  "example_chain = \<lparr>ch_ID = ''X'', ch_VMType = ''avm''\<rparr>"

definition example_containers :: "nat \<Rightarrow> Container" where
  "example_containers i = \<lparr>co_ID = [], co_Bytes = replicate i (CHR ''x''), co_Timestamp = int i\<rparr>"

definition example_made :: "goerr + (string \<rightharpoonup> consumerDB) \<times> string list" where
  "example_made = IndexerFactories (indexer_factories (normal example_globals) example_factorylib 1 ''url'') [] [example_chain]"

definition example_pipe :: pipe where
  "example_pipe = \<lparr>pl_globals = normal example_globals, pl_nodelib = plain_lib,
     pl_fsm = fst (projr example_made), pl_topics = snd (projr example_made),
     pl_producers = [example_producer], pl_chain = (\<lambda>_. example_containers)\<rparr>"

definition example_sys :: stream_sys where
  "example_sys = \<lparr>st_world = stream_world, st_sc = example_control, st_prods = Map.empty, st_hand = Waiting,
     st_iter = None, st_cells = 0\<rparr>"

definition example_start :: "producerChainContainer \<times> database world" where
  "example_start = (case newContainer example_globals example_producer stream_world of (r, w) \<Rightarrow> (projr r, w))"

definition example_answer :: nodeIndexer where
  "example_answer = (\<lambda>i n. Inr (container_range example_containers (unat i) 2))"

definition example_next :: "(goerr + unit) \<times> producerChainContainer \<times> Control \<times> database world" where
  "example_next = ProcessNextMessage plain_lib example_answer (fst example_start) example_control (snd example_start)"

lemma example_made_ok: "example_made = Inr (pl_fsm example_pipe, pl_topics example_pipe)"
  by (simp add: example_pipe_def example_made_def IndexerFactories_def indexer_factories_def register_def
      NewConsumerDBFactory_def IndexerConsumer_def Avm_NewWriter_def checked_alias_def example_factorylib_def
      example_chain_def GetTopicName_def EventTypeDecisions_def EventTypeConsensus_def)

lemma example_collision_free: "collision_free example_pipe"
  by (auto simp: collision_free_def row_of_def body_of_def example_pipe_def mkTxPool_def TxPool_ComputeID_def
      new_pc_def example_producer_def IndexCChain_def plain_lib_def example_containers_def Let_def)

lemma example_start_runs:
  "newContainer (normal example_globals) example_producer stream_world = (Inr (fst example_start), snd example_start)"
proof -
  have G: "normal example_globals = example_globals" by (simp add: example_globals_def)
  have "\<not> isl (fst (newContainer example_globals example_producer stream_world))" by code_simp
  then show ?thesis unfolding G by (auto simp: example_start_def split: prod.split)
qed

lemma example_init: "stream_init example_sys"
  by (simp add: stream_init_def example_sys_def stream_world_def example_control_def empty_db_def honest_def)

definition example_end :: stream_sys where
  "example_end = (case example_next of (_, pc, sc, w) \<Rightarrow>
     example_sys\<lparr>st_world := w, st_sc := sc, st_prods := [pr_topic example_producer \<mapsto> idle pc]\<rparr>)"

lemma example_reached: "(stream_step example_pipe)\<^sup>*\<^sup>* example_sys example_end"
proof -
  let ?t = "pr_topic example_producer"
  let ?s = "example_sys\<lparr>st_world := snd example_start, st_prods := [?t \<mapsto> idle (fst example_start)]\<rparr>"
  have "stream_step example_pipe example_sys
      (example_sys\<lparr>st_world := snd example_start, st_prods := (st_prods example_sys)(?t \<mapsto> idle (fst example_start))\<rparr>)"
    by (rule stream_step.start)
      (use example_start_runs in \<open>simp_all add: example_pipe_def example_sys_def\<close>)
  then have one: "stream_step example_pipe example_sys ?s" by (simp add: example_sys_def)
  have idx: "pc_idx (fst example_start) = 0" by code_simp
  obtain r pc sc w where n: "example_next = (r, pc, sc, w)" by (cases example_next)
  have "(stream_step example_pipe)\<^sup>*\<^sup>* ?s
      (?s\<lparr>st_world := w, st_sc := sc, st_prods := (st_prods ?s)(?t \<mapsto> idle pc)\<rparr>)"
  proof (rule ProcessNextMessage_runs)
    show "example_answer (pc_idx (fst example_start)) MaxTxRead =
        Inr (container_range (pl_chain example_pipe ?t) (unat (pc_idx (fst example_start))) 2)"
      by (simp add: example_answer_def example_pipe_def)
    show "ProcessNextMessage (pl_nodelib example_pipe) example_answer (fst example_start) (st_sc ?s) (st_world ?s) = (r, pc, sc, w)"
      using n by (simp add: example_next_def example_pipe_def example_sys_def)
  qed (simp_all add: MaxTxRead_def idx)
  moreover have "?s\<lparr>st_world := w, st_sc := sc, st_prods := (st_prods ?s)(?t \<mapsto> idle pc)\<rparr> = example_end"
    by (simp add: example_end_def n example_sys_def)
  ultimately show ?thesis using one by (simp add: converse_rtranclp_into_rtranclp)
qed

text \<open>Two containers were fetched; the second one is covered.\<close>

theorem no_container_lost_witness:
  "map ni_Idx (node_index (store (st_world example_end))) = [2] \<and>
   covered example_pipe (topic_indexed example_factorylib 1 ''url'' [example_chain]) example_producer 1
     (store (st_world example_end))"
proof -
  have row: "node_index (store (st_world example_end)) = [\<lparr>ni_Instance = ''n'', ni_Topic = ''1-X-decisions'', ni_Idx = 2\<rparr>]"
    by code_simp
  have "covered example_pipe (topic_indexed example_factorylib 1 ''url'' [example_chain]) example_producer 1
     (store (st_world example_end))"
    by (rule no_container_lost [where r = "\<lparr>ni_Instance = ''n'', ni_Topic = ''1-X-decisions'', ni_Idx = 2\<rparr>",
          OF example_made_ok [unfolded example_made_def] _ _ _ example_collision_free
          example_init example_reached])
      (simp_all add: row example_pipe_def example_producer_def example_factorylib_def example_pvmlib_first)
  with row show ?thesis by simp
qed


definition consensus_consumer :: consumerDB where
  "consensus_consumer =
     \<lparr>cd_eventType = EventTypeConsensus, cd_chainID = ''P'',
      cd_consumer = Pvm_consumer example_globals example_factorylib
        \<lparr>pw_chainID = ''P'', pw_networkID = 1, pw_djtx = Djtx_NewWriter ''P'' ''DJTX''\<rparr>,
      cd_topicName = ''1-X-decisions''\<rparr>"

definition consensus_pipe :: pipe where
  "consensus_pipe = example_pipe\<lparr>pl_fsm := [''1-X-decisions'' \<mapsto> consensus_consumer]\<rparr>"

definition example_job :: LocalTxPoolJob where
  "example_job = hd (LocalTxPool (st_sc example_end))"

definition example_rest :: Control where
  "example_rest = (st_sc example_end)\<lparr>LocalTxPool := tl (LocalTxPool (st_sc example_end))\<rparr>"

lemma example_handled:
  "\<exists>sc w. handleTxPool (pl_fsm consensus_pipe) example_job example_rest (st_world example_end) = Some (sc, w) \<and>
     length (tx_pool (store w)) = 1"
proof -
  let ?row = "job_TxPool example_job"
  let ?rm = "removeTxPool ?row (st_world example_end)"
  have "persistConsume consensus_consumer m w = (Inr (), w)" for m w
    by (simp add: persistConsume_def consensus_consumer_def Pvm_consumer_def Pvm_ConsumeConsensus_def ret_def
        EventTypeConsensus_def EventTypeDecisions_def)
  then have proc: "Process consensus_consumer r sc w = Some (Inr (), sc\<lparr>BalanceManager := Exec (BalanceManager sc)\<rparr>, w)" for r sc w
    by (simp add: Process_def Consume_def RepeatForLock_step(3))
  have "\<not> Exists (IndexedList example_rest) (tp_ID ?row)" by code_simp
  moreover have "job_Errs example_job = None" by code_simp
  moreover have "tp_Topic ?row = ''1-X-decisions''" by code_simp
  moreover have "\<not> isl (fst ?rm)" by code_simp
  moreover have "length (tx_pool (store (snd ?rm))) = 1" by code_simp
  ultimately show ?thesis
    by (cases ?rm; cases "fst ?rm") (auto simp: handleTxPool_def errs_set_def consensus_pipe_def proc)
qed


end
