(* ===== verification/Request_Params.thy ===== *)
theory Request_Params
  imports Db_Persist
begin

text \<open>
  The parameters of API requests: \<^verbatim>\<open>src/services/indexes/params\<close>.

  Every request type reads its fields from the query string (\<^verbatim>\<open>ForValues\<close>), contributes to the
  key under which the response is cached (\<^verbatim>\<open>CacheKey\<close>) and restricts a select statement
  (\<^verbatim>\<open>Apply\<close>).  Decimal numbers and booleans are read as Go's \<^verbatim>\<open>strconv\<close> and
  \<^verbatim>\<open>math/big\<close> read them; the parsers of times, durations, ids and addresses are arguments.
  The first group of theorems bounds what a request can ask for, the second says when two requests
  share a cache entry.
\<close>

section \<open>Reading values\<close>

type_synonym Values = "string \<rightharpoonup> string list"

definition strs_of :: "Values \<Rightarrow> string \<Rightarrow> string list" where
  "strs_of q key = (case q key of None \<Rightarrow> [] | Some strs \<Rightarrow> strs)"

definition is_digit :: "char \<Rightarrow> bool" where
  "is_digit c \<longleftrightarrow> (48::nat) \<le> of_char c \<and> of_char c < (58::nat)"

definition digits_value :: "string \<Rightarrow> nat" where
  "digits_value ds = foldl (\<lambda>n c. 10 * n + (of_char c - 48)) 0 ds"

text \<open>An optional sign and at least one digit.\<close>

definition read_decimal :: "string \<Rightarrow> int option" where
  "read_decimal s =
     (let neg = HasPrefix s ''-'';
          ds = (if HasPrefix s ''-'' \<or> HasPrefix s ''+'' then tl s else s)
      in if ds \<noteq> [] \<and> list_all is_digit ds
         then Some (if neg then - int (digits_value ds) else int (digits_value ds)) else None)"

definition syntax_error :: "string \<Rightarrow> goerr" where
  "syntax_error s = ''strconv: parsing '' @ s @ '': invalid syntax''"

definition range_error :: "string \<Rightarrow> goerr" where
  "range_error s = ''strconv: parsing '' @ s @ '': value out of range''"

text \<open>\<^verbatim>\<open>ParseInt(s, 10, bits)\<close>; \<^verbatim>\<open>Atoi\<close> is the case of 64 bits.\<close>

definition ParseInt :: "nat \<Rightarrow> string \<Rightarrow> goerr + int" where
  "ParseInt bits s =
     (case read_decimal s of
        None \<Rightarrow> Inl (syntax_error s)
      | Some n \<Rightarrow> if - (2 ^ (bits - 1)) \<le> n \<and> n < 2 ^ (bits - 1) then Inr n else Inl (range_error s))"

definition Atoi :: "string \<Rightarrow> goerr + int" where
  "Atoi = ParseInt 64"

text \<open>\<^verbatim>\<open>ParseUint(s, 10, bits)\<close> takes no sign.\<close>

definition ParseUint :: "nat \<Rightarrow> string \<Rightarrow> goerr + u64" where
  "ParseUint bits s =
     (if s = [] \<or> \<not> list_all is_digit s then Inl (syntax_error s)
      else if digits_value s < 2 ^ bits then Inr (of_nat (digits_value s)) else Inl (range_error s))"

definition ParseBool :: "string \<Rightarrow> goerr + bool" where
  "ParseBool s =
     (if s \<in> {''1'', ''t'', ''T'', ''TRUE'', ''true'', ''True''} then Inr True
      else if s \<in> {''0'', ''f'', ''F'', ''FALSE'', ''false'', ''False''} then Inr False
      else Inl (syntax_error s))"

definition to_lower :: "char \<Rightarrow> char" where
  "to_lower c = (if (65::nat) \<le> of_char c \<and> of_char c \<le> (90::nat) then char_of (of_char c + (32::nat)) else c)"

text \<open>\<^verbatim>\<open>strings.ToLower\<close> on ASCII, the alphabet of addresses.\<close>

definition ToLower :: "string \<Rightarrow> string" where
  "ToLower s = map to_lower s"

text \<open>Times are nanoseconds since 1970; \<^verbatim>\<open>time.Time{}\<close> is the first of January of the year 1.\<close>

definition zero_time :: gotime where
  "zero_time = - 62135596800 * 1000000000"

definition second :: int where
  "second = 1000000000"

text \<open>\<^verbatim>\<open>t.Round(time.Second)\<close>: to the nearest second, halves up.\<close>

definition Round :: "gotime \<Rightarrow> gotime" where
  "Round t = (let r = t mod second in if r + r < second then t - r else t + (second - r))"

record parselib =
  pl_FromString :: "string \<Rightarrow> goerr + bytes"
  pl_ShortFromString :: "string \<Rightarrow> goerr + bytes"
  pl_ParseBech32 :: "string \<Rightarrow> goerr + bytes"
  pl_ToShortID :: "bytes \<Rightarrow> goerr + bytes"
  pl_ParseRFC3339 :: "string \<Rightarrow> goerr + gotime"
  pl_ParseDuration :: "string \<Rightarrow> goerr + int"

section \<open>query.go\<close>

definition GetQueryInt :: "Values \<Rightarrow> string \<Rightarrow> int \<Rightarrow> goerr + int" where
  "GetQueryInt q key defaultVal = (case strs_of q key of s # _ \<Rightarrow> Atoi s | [] \<Rightarrow> Inr defaultVal)"

definition GetQueryBool :: "Values \<Rightarrow> string \<Rightarrow> bool \<Rightarrow> goerr + bool" where
  "GetQueryBool q key defaultVal = (case strs_of q key of s # _ \<Rightarrow> ParseBool s | [] \<Rightarrow> Inr defaultVal)"

definition GetQueryString :: "Values \<Rightarrow> string \<Rightarrow> string \<Rightarrow> string" where
  "GetQueryString q key defaultVal = (case strs_of q key of s # _ \<Rightarrow> s | [] \<Rightarrow> defaultVal)"

definition GetQueryTime :: "parselib \<Rightarrow> Values \<Rightarrow> string \<Rightarrow> goerr + bool \<times> gotime" where
  "GetQueryTime T q key =
     (case strs_of q key of
        [] \<Rightarrow> Inr (False, zero_time)
      | s # _ \<Rightarrow>
          (case Atoi s of
             Inr timestamp \<Rightarrow> Inr (True, timestamp * second)
           | Inl _ \<Rightarrow> (case pl_ParseRFC3339 T s of Inl err \<Rightarrow> Inl err | Inr t \<Rightarrow> Inr (True, t))))"

definition GetQueryID :: "parselib \<Rightarrow> Values \<Rightarrow> string \<Rightarrow> goerr + bytes option" where
  "GetQueryID T q key =
     (let idStr = GetQueryString q key '''' in
      if idStr = [] then Inr None
      else case pl_FromString T idStr of Inl err \<Rightarrow> Inl err | Inr i \<Rightarrow> Inr (Some i))"

definition IntervalNames :: "string \<rightharpoonup> int" where
  "IntervalNames = map_of
     [(''minute'', 60 * second), (''hour'', 3600 * second), (''day'', 86400 * second),
      (''week'', 7 * 86400 * second), (''month'', 30 * 86400 * second), (''year'', 365 * 86400 * second),
      (''all'', 0)]"

definition GetQueryInterval :: "parselib \<Rightarrow> Values \<Rightarrow> string \<Rightarrow> goerr + int" where
  "GetQueryInterval T q key =
     (case strs_of q key of
        [] \<Rightarrow> Inr 0
      | s # _ \<Rightarrow> (case IntervalNames s of Some d \<Rightarrow> Inr d | None \<Rightarrow> pl_ParseDuration T s))"

text \<open>Each prefix is removed, first in upper and then in lower case.\<close>

definition trim_address :: "string \<Rightarrow> string" where
  "trim_address addrStr =
     foldl (\<lambda>s p. TrimPrefix (TrimPrefix s (p @ ''-'')) (ToLower p @ ''-'')) addrStr [''V'', ''M'', ''U'']"

definition AddressFromString :: "parselib \<Rightarrow> string \<Rightarrow> goerr + bytes" where
  "AddressFromString T addrStr =
     (let s = trim_address addrStr in
      case pl_ParseBech32 T s of
        Inl _ \<Rightarrow> pl_ShortFromString T s
      | Inr addrBytes \<Rightarrow> pl_ToShortID T addrBytes)"

definition GetQueryAddress :: "parselib \<Rightarrow> Values \<Rightarrow> string \<Rightarrow> goerr + bytes option" where
  "GetQueryAddress T q key =
     (let addrStr = GetQueryString q key '''' in
      if addrStr = [] then Inr None
      else case AddressFromString T addrStr of Inl err \<Rightarrow> Inl err | Inr a \<Rightarrow> Inr (Some a))"

text \<open>A loop that reads every value of a list and returns on the first error.\<close>

fun read_all :: "('a \<Rightarrow> goerr + 'b) \<Rightarrow> 'a list \<Rightarrow> goerr + 'b list" where
  "read_all f [] = Inr []"
| "read_all f (x # xs) =
     (case f x of Inl e \<Rightarrow> Inl e
      | Inr y \<Rightarrow> (case read_all f xs of Inl e \<Rightarrow> Inl e | Inr ys \<Rightarrow> Inr (y # ys)))"

text \<open>Sequencing of results.\<close>

definition bind_err :: "goerr + 'a \<Rightarrow> ('a \<Rightarrow> goerr + 'b) \<Rightarrow> goerr + 'b" where
  "bind_err r f = (case r of Inl e \<Rightarrow> Inl e | Inr x \<Rightarrow> f x)"

section \<open>params.go\<close>

definition PaginationMaxLimit :: int where
  "PaginationMaxLimit = 5000"

definition PaginationDefaultOffset :: int where
  "PaginationDefaultOffset = 0"

record ListParams =
  lp_ID :: "bytes option"
  lp_Query :: string
  lp_Limit :: int
  lp_Offset :: int
  lp_DisableCounting :: bool
  lp_StartTimeProvided :: bool
  lp_EndTimeProvided :: bool
  lp_StartTime :: gotime
  lp_EndTime :: gotime

definition forValues :: "parselib \<Rightarrow> gotime \<Rightarrow> u8 \<Rightarrow> Values \<Rightarrow> bool \<Rightarrow> goerr + ListParams" where
  "forValues T now version q allowOffset =
     bind_err (GetQueryInt q ''limit'' PaginationMaxLimit) (\<lambda>limit0.
     let limit1 = (if limit0 < 0 then 0 else limit0);
         limit = (if limit1 > PaginationMaxLimit then PaginationMaxLimit else limit1) in
     bind_err (GetQueryInt q ''offset'' PaginationDefaultOffset) (\<lambda>offset0.
     let offset = (if offset0 < 0 then 0 else offset0) in
     if \<not> allowOffset \<and> offset > 0 then Inl ''offset deprecated''
     else
       bind_err (GetQueryID T q ''id'') (\<lambda>i.
       bind_err (GetQueryTime T q ''startTime'') (\<lambda>(startProvided, start).
       bind_err (GetQueryTime T q ''endTime'') (\<lambda>(endProvided, end0).
       let end1 = (if end0 = zero_time then now else end0);
           query = GetQueryString q ''query'' '''' in
       bind_err (GetQueryBool q ''disableCount'' False) (\<lambda>disable.
       Inr \<lparr>lp_ID = i, lp_Query = query, lp_Limit = limit, lp_Offset = offset,
            lp_DisableCounting = (if version \<ge> 2 then True else disable),
            lp_StartTimeProvided = startProvided, lp_EndTimeProvided = endProvided,
            lp_StartTime = Round start, lp_EndTime = Round end1\<rparr>))))))"

definition ForValues :: "parselib \<Rightarrow> gotime \<Rightarrow> u8 \<Rightarrow> Values \<Rightarrow> goerr + ListParams" where
  "ForValues T now version q = forValues T now version q False"

definition ForValuesAllowOffset :: "parselib \<Rightarrow> gotime \<Rightarrow> u8 \<Rightarrow> Values \<Rightarrow> goerr + ListParams" where
  "ForValuesAllowOffset T now version q = forValues T now version q True"

text \<open>\<^verbatim>\<open>CacheKey(name, val)\<close> for the kinds of values it is used with.\<close>

definition CacheKey :: "string \<Rightarrow> string \<Rightarrow> string" where
  "CacheKey name val = name @ ''='' @ val"

definition show_bool :: "bool \<Rightarrow> string" where
  "show_bool b = (if b then ''true'' else ''false'')"

definition unix_seconds :: "gotime \<Rightarrow> int" where
  "unix_seconds t = t div second"

definition ListParams_CacheKey :: "nodelib \<Rightarrow> ListParams \<Rightarrow> string list" where
  "ListParams_CacheKey L p =
     (case lp_ID p of None \<Rightarrow> [] | Some i \<Rightarrow> [CacheKey ''id'' (ID_String L i)]) @
     [CacheKey ''limit'' (dec_int (lp_Limit p)),
      CacheKey ''offset'' (dec_int (lp_Offset p)),
      CacheKey ''startTime'' (dec_int (unix_seconds (lp_StartTime p))),
      CacheKey ''endTime'' (dec_int (unix_seconds (lp_EndTime p))),
      CacheKey ''query'' (lp_Query p),
      CacheKey ''disableCount'' (show_bool (lp_DisableCounting p))]"

text \<open>The select builder: conditions in the order in which they are added.\<close>

datatype condition =
  CondEq string string
| CondEqList string "string list"
| CondIn string "string list"
| CondLike string string
| CondSince string gotime
| CondBefore string gotime
| CondNull string
| CondNotNull string
| CondOr "condition list"

record SelectBuilder =
  sb_limit :: "u64 option"
  sb_offset :: "u64 option"
  sb_where :: "condition list"
  sb_joins :: "(string \<times> string) list"

definition Limit :: "u64 \<Rightarrow> SelectBuilder \<Rightarrow> SelectBuilder" where
  "Limit n b = b\<lparr>sb_limit := Some n\<rparr>"

definition Offset :: "u64 \<Rightarrow> SelectBuilder \<Rightarrow> SelectBuilder" where
  "Offset n b = b\<lparr>sb_offset := Some n\<rparr>"

definition Where :: "condition \<Rightarrow> SelectBuilder \<Rightarrow> SelectBuilder" where
  "Where c b = b\<lparr>sb_where := sb_where b @ [c]\<rparr>"

definition ApplyPk ::
  "nodelib \<Rightarrow> ListParams \<Rightarrow> string \<Rightarrow> SelectBuilder \<Rightarrow> string \<Rightarrow> bool \<Rightarrow> SelectBuilder" where
  "ApplyPk L p listTable b primaryKey pk =
     (let b1 = (if lp_Limit p \<noteq> 0 then Limit (of_int (lp_Limit p)) b else b);
          b2 = (if lp_Offset p \<noteq> 0 then Offset (of_int (lp_Offset p)) b1 else b1);
          column = listTable @ ''.'' @ primaryKey
      in if pk
         then let b3 = (case lp_ID p of None \<Rightarrow> b2
                        | Some i \<Rightarrow> Limit 1 (Where (CondEq column (ID_String L i)) b2))
              in if lp_Query p \<noteq> [] then Where (CondLike column (lp_Query p @ ''%'')) b3 else b3
         else b2)"

definition Apply :: "nodelib \<Rightarrow> ListParams \<Rightarrow> string \<Rightarrow> SelectBuilder \<Rightarrow> SelectBuilder" where
  "Apply L p listTable b = ApplyPk L p listTable b ''id'' True"

section \<open>collections.go\<close>

subsection \<open>Sort orders\<close>

type_synonym TransactionSort = u8

definition TransactionSortTimestampAsc :: TransactionSort where
  "TransactionSortTimestampAsc = 0"

definition TransactionSortTimestampDesc :: TransactionSort where
  "TransactionSortTimestampDesc = 1"

definition TransactionSortDefault :: TransactionSort where
  "TransactionSortDefault = TransactionSortTimestampAsc"

definition toTransactionSort :: "string \<Rightarrow> TransactionSort" where
  "toTransactionSort s =
     (if s = ''timestamp-asc'' then TransactionSortTimestampAsc
      else if s = ''timestamp-desc'' then TransactionSortTimestampDesc
      else TransactionSortDefault)"

definition TransactionSort_String :: "TransactionSort \<Rightarrow> string" where
  "TransactionSort_String t = (if t = TransactionSortTimestampDesc then ''timestamp-desc'' else ''timestamp-asc'')"

definition sort_of :: "Values \<Rightarrow> TransactionSort" where
  "sort_of q = (case strs_of q ''sort'' of s # _ \<Rightarrow> toTransactionSort s | [] \<Rightarrow> TransactionSortDefault)"

subsection \<open>Aggregates\<close>

record TxfeeAggregateParams =
  fa_ListParams :: ListParams
  fa_IntervalSize :: int
  fa_ChainIDs :: "string list"

definition TxfeeAggregateParams_ForValues ::
  "parselib \<Rightarrow> gotime \<Rightarrow> u8 \<Rightarrow> Values \<Rightarrow> goerr + TxfeeAggregateParams" where
  "TxfeeAggregateParams_ForValues T now version q =
     bind_err (ForValues T now version q) (\<lambda>p.
     bind_err (GetQueryInterval T q ''intervalSize'') (\<lambda>d.
     Inr \<lparr>fa_ListParams = p, fa_IntervalSize = d, fa_ChainIDs = strs_of q ''chainID''\<rparr>))"

text \<open>\<^verbatim>\<open>int64(d.Seconds())\<close> truncates towards zero.\<close>

definition whole_seconds :: "int \<Rightarrow> int" where
  "whole_seconds d = (if d < 0 then - ((- d) div second) else d div second)"

definition TxfeeAggregateParams_CacheKey :: "nodelib \<Rightarrow> TxfeeAggregateParams \<Rightarrow> string list" where
  "TxfeeAggregateParams_CacheKey L p =
     ListParams_CacheKey L (fa_ListParams p) @
     [CacheKey ''intervalSize'' (dec_int (whole_seconds (fa_IntervalSize p))),
      CacheKey ''chainID'' (Join (fa_ChainIDs p) ''|'')]"

record AggregateParams =
  ag_ListParams :: ListParams
  ag_ChainIDs :: "string list"
  ag_AssetID :: "bytes option"
  ag_IntervalSize :: int

definition AggregateParams_ForValues ::
  "parselib \<Rightarrow> gotime \<Rightarrow> u8 \<Rightarrow> Values \<Rightarrow> goerr + AggregateParams" where
  "AggregateParams_ForValues T now version q =
     bind_err (ForValues T now version q) (\<lambda>p.
     bind_err (GetQueryID T q ''assetID'') (\<lambda>asset.
     bind_err (GetQueryInterval T q ''intervalSize'') (\<lambda>d.
     Inr \<lparr>ag_ListParams = p, ag_ChainIDs = strs_of q ''chainID'', ag_AssetID = asset, ag_IntervalSize = d\<rparr>)))"

definition AggregateParams_CacheKey :: "nodelib \<Rightarrow> AggregateParams \<Rightarrow> string list" where
  "AggregateParams_CacheKey L p =
     ListParams_CacheKey L (ag_ListParams p) @
     (case ag_AssetID p of None \<Rightarrow> [] | Some a \<Rightarrow> [CacheKey ''assetID'' (ID_String L a)]) @
     [CacheKey ''intervalSize'' (dec_int (whole_seconds (ag_IntervalSize p))),
      CacheKey ''chainID'' (Join (ag_ChainIDs p) ''|'')]"

definition AggregateParams_Apply :: "nodelib \<Rightarrow> AggregateParams \<Rightarrow> SelectBuilder \<Rightarrow> SelectBuilder" where
  "AggregateParams_Apply L p b =
     (let b1 = Where (CondSince ''avm_outputs.created_at'' (lp_StartTime (ag_ListParams p))) b;
          b2 = Where (CondBefore ''avm_outputs.created_at'' (lp_EndTime (ag_ListParams p))) b1;
          b3 = (case ag_AssetID p of None \<Rightarrow> b2
                | Some a \<Rightarrow> Where (CondEq ''avm_outputs.asset_id'' (ID_String L a)) b2)
      in if length (ag_ChainIDs p) > 0 then Where (CondEqList ''avm_outputs.chain_id'' (ag_ChainIDs p)) b3 else b3)"

subsection \<open>Transactions\<close>

record ListTransactionsParams =
  lt_ListParams :: ListParams
  lt_ChainIDs :: "string list"
  lt_Addresses :: "bytes list"
  lt_AssetID :: "bytes option"
  lt_OutputOutputTypes :: "u64 list"
  lt_OutputGroupIDs :: "u64 list"
  lt_DisableGenesis :: bool
  lt_Sort :: TransactionSort

definition ListTransactionsParams_ForValues ::
  "parselib \<Rightarrow> gotime \<Rightarrow> u8 \<Rightarrow> Values \<Rightarrow> goerr + ListTransactionsParams" where
  "ListTransactionsParams_ForValues T now v q =
     bind_err (ForValuesAllowOffset T now v q) (\<lambda>p.
     bind_err (GetQueryID T q ''assetID'') (\<lambda>asset.
     bind_err (read_all (ParseUint 32) (strs_of q ''outputOutputType'')) (\<lambda>types.
     bind_err (read_all (ParseUint 64) (strs_of q ''outputGroupId'')) (\<lambda>groups.
     bind_err (read_all (AddressFromString T) (strs_of q ''address'')) (\<lambda>addrs.
     bind_err (GetQueryBool q ''disableGenesis'' False) (\<lambda>disable.
     Inr \<lparr>lt_ListParams = p, lt_ChainIDs = strs_of q ''chainID'', lt_Addresses = addrs, lt_AssetID = asset,
          lt_OutputOutputTypes = types, lt_OutputGroupIDs = groups, lt_DisableGenesis = disable,
          lt_Sort = sort_of q\<rparr>))))))"

definition ListTransactionsParams_CacheKey :: "nodelib \<Rightarrow> ListTransactionsParams \<Rightarrow> string list" where
  "ListTransactionsParams_CacheKey L p =
     ListParams_CacheKey L (lt_ListParams p) @
     [CacheKey ''sort'' (TransactionSort_String (lt_Sort p))] @
     (case lt_AssetID p of None \<Rightarrow> [] | Some a \<Rightarrow> [CacheKey ''assetID'' (ID_String L a)]) @
     map (\<lambda>a. CacheKey ''address'' (ShortID_String L a)) (lt_Addresses p) @
     [CacheKey ''chainID'' (Join (lt_ChainIDs p) ''|''),
      CacheKey ''disableGenesis'' (show_bool (lt_DisableGenesis p))]"

subsection \<open>C-chain transactions and blocks\<close>

record ListCTransactionsParams =
  ct_ListParams :: ListParams
  ct_CAddresses :: "string list"
  ct_CAddressesTo :: "string list"
  ct_CAddressesFrom :: "string list"
  ct_Hashes :: "string list"
  ct_Sort :: TransactionSort
  ct_BlockStart :: "int option"
  ct_BlockEnd :: "int option"

definition with_0x :: "string \<Rightarrow> string" where
  "with_0x s = (if \<not> HasPrefix s ''0x'' then ''0x'' @ s else s)"

definition c_addresses :: "Values \<Rightarrow> string \<Rightarrow> string list" where
  "c_addresses q key = map (\<lambda>s. ToLower (with_0x s)) (strs_of q key)"

text \<open>Of several numbers the last one that can be read stays.\<close>

definition last_number :: "string list \<Rightarrow> int option" where
  "last_number strs = foldl (\<lambda>r s. case read_decimal s of Some n \<Rightarrow> Some n | None \<Rightarrow> r) None strs"

text \<open>\<^verbatim>\<open>ForValuesAllowOffset\<close> and then \<^verbatim>\<open>ForValues\<close>, which overwrites what the first one read.\<close>

definition ListCTransactionsParams_ForValues ::
  "parselib \<Rightarrow> gotime \<Rightarrow> gotime \<Rightarrow> u8 \<Rightarrow> Values \<Rightarrow> goerr + ListCTransactionsParams" where
  "ListCTransactionsParams_ForValues T now later v q =
     bind_err (ForValuesAllowOffset T now v q) (\<lambda>_.
     bind_err (ForValues T later v q) (\<lambda>p.
     Inr \<lparr>ct_ListParams = p, ct_CAddresses = c_addresses q ''address'',
          ct_CAddressesTo = c_addresses q ''toAddress'', ct_CAddressesFrom = c_addresses q ''fromAddress'',
          ct_Hashes = map with_0x (strs_of q ''hash''), ct_Sort = sort_of q,
          ct_BlockStart = last_number (strs_of q ''blockStart''), ct_BlockEnd = last_number (strs_of q ''blockEnd'')\<rparr>))"

definition ListCTransactionsParams_CacheKey :: "nodelib \<Rightarrow> ListCTransactionsParams \<Rightarrow> string list" where
  "ListCTransactionsParams_CacheKey L p =
     ListParams_CacheKey L (ct_ListParams p) @
     [CacheKey ''sort'' (TransactionSort_String (ct_Sort p))] @
     map (CacheKey ''address'') (ct_CAddresses p)"

definition ListCTransactionsParams_Apply ::
  "nodelib \<Rightarrow> ListCTransactionsParams \<Rightarrow> SelectBuilder \<Rightarrow> SelectBuilder" where
  "ListCTransactionsParams_Apply L p b = ApplyPk L (ct_ListParams p) ''cvm_transactions_txdata'' b ''hash'' False"

record ListCBlocksParams =
  cb_ListParams :: ListParams
  cb_TxLimit :: int
  cb_CAddresses :: "string list"
  cb_BlockStart :: "int option"
  cb_BlockEnd :: "int option"
  cb_TxID :: u64

text \<open>A number that counts only when it is the only value.\<close>

definition single_number :: "string list \<Rightarrow> int option" where
  "single_number strs = (case strs of [s] \<Rightarrow> read_decimal s | _ \<Rightarrow> None)"

definition ListCBlocksParams_ForValues ::
  "parselib \<Rightarrow> gotime \<Rightarrow> u8 \<Rightarrow> Values \<Rightarrow> goerr + ListCBlocksParams" where
  "ListCBlocksParams_ForValues T now version q =
     bind_err (ForValues T now version q) (\<lambda>p.
     bind_err (case strs_of q ''limit'' of _ # s # _ \<Rightarrow> Atoi s | _ \<Rightarrow> Inr 0) (\<lambda>txLimit.
     bind_err (case strs_of q ''transactionId'' of [s] \<Rightarrow> ParseInt 32 s | _ \<Rightarrow> Inr 0) (\<lambda>txID.
     Inr \<lparr>cb_ListParams = p, cb_TxLimit = txLimit, cb_CAddresses = c_addresses q ''address'',
          cb_BlockStart = single_number (strs_of q ''blockStart''),
          cb_BlockEnd = single_number (strs_of q ''blockEnd''), cb_TxID = of_int txID\<rparr>)))"

text \<open>\<^verbatim>\<open>%v\<close> of a big number that is absent.\<close>

definition show_big :: "int option \<Rightarrow> string" where
  "show_big n = (case n of None \<Rightarrow> ''<nil>'' | Some i \<Rightarrow> dec_int i)"

definition ListCBlocksParams_CacheKey :: "nodelib \<Rightarrow> ListCBlocksParams \<Rightarrow> string list" where
  "ListCBlocksParams_CacheKey L p =
     ListParams_CacheKey L (cb_ListParams p) @
     [CacheKey ''limit'' (dec_int (cb_TxLimit p)), CacheKey ''blockStart'' (show_big (cb_BlockStart p)),
      CacheKey ''blockEnd'' (show_big (cb_BlockEnd p))]"

subsection \<open>Assets, addresses, outputs, blocks\<close>

record ListAssetsParams =
  la_ListParams :: ListParams
  la_Alias :: string
  la_PathParamID :: string

definition ListAssetsParams_ForValues :: "parselib \<Rightarrow> gotime \<Rightarrow> u8 \<Rightarrow> Values \<Rightarrow> string \<Rightarrow> goerr + ListAssetsParams" where
  "ListAssetsParams_ForValues T now v q path =
     bind_err (ForValues T now v q) (\<lambda>p.
     Inr \<lparr>la_ListParams = p, la_Alias = GetQueryString q ''alias'' '''', la_PathParamID = path\<rparr>)"

definition ListAssetsParams_CacheKey :: "nodelib \<Rightarrow> ListAssetsParams \<Rightarrow> string list" where
  "ListAssetsParams_CacheKey L p =
     ListParams_CacheKey L (la_ListParams p) @
     [CacheKey ''alias'' (la_Alias p), CacheKey ''PathParamID'' (la_PathParamID p)]"

definition ListAssetsParams_Apply :: "nodelib \<Rightarrow> ListAssetsParams \<Rightarrow> SelectBuilder \<Rightarrow> SelectBuilder" where
  "ListAssetsParams_Apply L p b =
     (let query = lp_Query (la_ListParams p);
          b1 = Apply L ((la_ListParams p)\<lparr>lp_Query := []\<rparr>) ''avm_assets'' b;
          b2 = (if query \<noteq> []
                then Where (CondOr [CondLike ''avm_assets.alias'' (query @ ''%''),
                                    CondLike ''avm_assets.name'' (query @ ''%''),
                                    CondLike ''avm_assets.symbol'' (query @ ''%'')]) b1
                else b1)
      in if la_Alias p \<noteq> [] then Where (CondEq ''avm_assets.alias'' (la_Alias p)) b2 else b2)"

record ListAddressesParams =
  ad_ListParams :: ListParams
  ad_ChainIDs :: "string list"
  ad_Address :: "bytes option"

definition ListAddressesParams_ForValues ::
  "parselib \<Rightarrow> gotime \<Rightarrow> u8 \<Rightarrow> Values \<Rightarrow> goerr + ListAddressesParams" where
  "ListAddressesParams_ForValues T now v q =
     bind_err (ForValues T now v q) (\<lambda>p.
     bind_err (GetQueryAddress T q ''address'') (\<lambda>addr0.
     bind_err (if addr0 = None \<and> lp_Query p \<noteq> []
               then (case AddressFromString T (lp_Query p) of Inl err \<Rightarrow> Inl err | Inr a \<Rightarrow> Inr (Some a))
               else Inr addr0) (\<lambda>addr.
     Inr \<lparr>ad_ListParams = p, ad_ChainIDs = strs_of q ''chainID'', ad_Address = addr\<rparr>)))"

definition ListAddressesParams_CacheKey :: "nodelib \<Rightarrow> ListAddressesParams \<Rightarrow> string list" where
  "ListAddressesParams_CacheKey L p =
     ListParams_CacheKey L (ad_ListParams p) @
     (case ad_Address p of None \<Rightarrow> [] | Some a \<Rightarrow> [CacheKey ''address'' (ShortID_String L a)]) @
     [CacheKey ''chainID'' (Join (ad_ChainIDs p) ''|'')]"

definition ListAddressesParams_Apply ::
  "nodelib \<Rightarrow> ListAddressesParams \<Rightarrow> SelectBuilder \<Rightarrow> bool \<Rightarrow> SelectBuilder" where
  "ListAddressesParams_Apply L p b accumulateReader =
     (let (chain, address) = (if \<not> accumulateReader then (''avm_outputs.chain_id'', ''avm_output_addresses.address'')
            else (''accumulate_balances_received.chain_id'', ''accumulate_balances_received.address''));
          b1 = ApplyPk L (ad_ListParams p) ''avm_output_addresses'' b ''output_id'' accumulateReader;
          b2 = (if length (ad_ChainIDs p) \<noteq> 0 then Where (CondIn chain (ad_ChainIDs p)) b1 else b1)
      in case ad_Address p of None \<Rightarrow> b2 | Some a \<Rightarrow> Where (CondEq address (ShortID_String L a)) b2)"

record AddressChainsParams =
  ac_ListParams :: ListParams
  ac_Addresses :: "bytes list"

definition AddressChainsParams_ForValues ::
  "parselib \<Rightarrow> gotime \<Rightarrow> u8 \<Rightarrow> Values \<Rightarrow> goerr + AddressChainsParams" where
  "AddressChainsParams_ForValues T now v q =
     bind_err (ForValues T now v q) (\<lambda>p.
     bind_err (read_all (AddressFromString T) (strs_of q ''address'')) (\<lambda>addrs.
     Inr \<lparr>ac_ListParams = p, ac_Addresses = addrs\<rparr>))"

definition AddressChainsParams_CacheKey :: "nodelib \<Rightarrow> AddressChainsParams \<Rightarrow> string list" where
  "AddressChainsParams_CacheKey L p =
     ListParams_CacheKey L (ac_ListParams p) @
     map (\<lambda>a. CacheKey ''address'' (ShortID_String L a)) (ac_Addresses p)"

definition AddressChainsParams_Apply :: "nodelib \<Rightarrow> AddressChainsParams \<Rightarrow> SelectBuilder \<Rightarrow> SelectBuilder" where
  "AddressChainsParams_Apply L p b =
     (let b1 = Apply L (ac_ListParams p) ''address_chain'' b in
      if length (ac_Addresses p) = 0 then b1
      else Where (CondIn ''address_chain.address'' (map (ShortID_String L) (ac_Addresses p))) b1)"

record ListOutputsParams =
  lo_ListParams :: ListParams
  lo_ChainIDs :: "string list"
  lo_Addresses :: "bytes list"
  lo_Spent :: "bool option"

text \<open>The key \<^verbatim>\<open>spent\<close> with no value makes the index expression \<^verbatim>\<open>spentStrs[0]\<close> panic.\<close>

datatype outputs_result = OutputsPanic | OutputsError goerr | OutputsParams ListOutputsParams

definition ListOutputsParams_ForValues ::
  "parselib \<Rightarrow> gotime \<Rightarrow> u8 \<Rightarrow> Values \<Rightarrow> outputs_result" where
  "ListOutputsParams_ForValues T now v q =
     (case bind_err (ForValues T now v q) (\<lambda>p.
           bind_err (read_all (AddressFromString T) (strs_of q ''address'')) (\<lambda>addrs. Inr (p, addrs))) of
        Inl err \<Rightarrow> OutputsError err
      | Inr (p, addrs) \<Rightarrow>
          let r = \<lparr>lo_ListParams = p, lo_ChainIDs = strs_of q ''chainID'', lo_Addresses = addrs, lo_Spent = None\<rparr> in
          case q ''spent'' of
            None \<Rightarrow> OutputsParams r
          | Some [] \<Rightarrow> OutputsPanic
          | Some (s # _) \<Rightarrow>
              (case ParseBool s of Inl err \<Rightarrow> OutputsError err | Inr b \<Rightarrow> OutputsParams (r\<lparr>lo_Spent := Some b\<rparr>)))"

definition ListOutputsParams_CacheKey :: "nodelib \<Rightarrow> ListOutputsParams \<Rightarrow> string list" where
  "ListOutputsParams_CacheKey L p =
     ListParams_CacheKey L (lo_ListParams p) @
     [CacheKey ''chainID'' (Join (lo_ChainIDs p) ''|'')] @
     map (\<lambda>a. CacheKey ''address'' (ShortID_String L a)) (lo_Addresses p) @
     (case lo_Spent p of None \<Rightarrow> [] | Some b \<Rightarrow> [CacheKey ''spent'' (show_bool b)])"

definition ListOutputsParams_Apply :: "nodelib \<Rightarrow> ListOutputsParams \<Rightarrow> SelectBuilder \<Rightarrow> SelectBuilder" where
  "ListOutputsParams_Apply L p b =
     (let lp = lo_ListParams p;
          b1 = Apply L lp ''avm_outputs'' b;
          b2 = (case lo_Spent p of None \<Rightarrow> b1
                | Some True \<Rightarrow> Where (CondNotNull ''avm_outputs_redeeming.redeeming_transaction_id'') b1
                | Some False \<Rightarrow> Where (CondNull ''avm_outputs_redeeming.redeeming_transaction_id'') b1);
          b3 = (if lo_Addresses p \<noteq> []
                then Where (CondIn ''avm_output_addresses.address'' (map (ShortID_String L) (lo_Addresses p)))
                       (b2\<lparr>sb_joins := sb_joins b2 @
                          [(''avm_output_addresses'', ''avm_outputs.id = avm_output_addresses.output_id'')]\<rparr>)
                else b2);
          b4 = (if length (lo_ChainIDs p) > 0 then Where (CondEqList ''avm_outputs.chain_id'' (lo_ChainIDs p)) b3 else b3);
          b5 = (if lp_StartTimeProvided lp \<and> lp_StartTime lp \<noteq> zero_time
                then Where (CondSince ''avm_outputs.created_at'' (lp_StartTime lp)) b4 else b4)
      in if lp_EndTimeProvided lp \<and> lp_EndTime lp \<noteq> zero_time
         then Where (CondBefore ''avm_outputs.created_at'' (lp_EndTime lp)) b5 else b5)"

definition ListBlocksParams_Apply :: "nodelib \<Rightarrow> ListParams \<Rightarrow> SelectBuilder \<Rightarrow> SelectBuilder" where
  "ListBlocksParams_Apply L p b = Apply L p ''pvm_blocks'' b"

definition ForValueChainID :: "nodelib \<Rightarrow> bytes option \<Rightarrow> string list \<Rightarrow> string list" where
  "ForValueChainID L chainID chainIDs =
     (case chainID of None \<Rightarrow> chainIDs
      | Some i \<Rightarrow> if ID_String L i \<in> set chainIDs then chainIDs else ID_String L i # chainIDs)"

section \<open>Printing of keys\<close>

lemma dec_nat_no_minus: "dec_nat n \<noteq> CHR ''-'' # s"
proof
  assume "dec_nat n = CHR ''-'' # s"
  then have "CHR ''-'' \<in> set (dec_nat n)" by simp
  from dec_nat_digit [OF this] show False by simp
qed

lemma dec_int_inject [simp]: "dec_int a = dec_int b \<longleftrightarrow> a = b"
  using dec_nat_no_minus dec_nat_no_minus [THEN not_sym] by (auto simp: dec_int_def)

lemma show_bool_inject [simp]: "show_bool a = show_bool b \<longleftrightarrow> a = b"
  by (simp add: show_bool_def)

lemma CacheKey_inject [simp]: "CacheKey n v = CacheKey n v' \<longleftrightarrow> v = v'"
  by (simp add: CacheKey_def)

lemma CacheKey_id_limit [simp]: "CacheKey ''id'' v \<noteq> CacheKey ''limit'' v'"
  "CacheKey ''limit'' v' \<noteq> CacheKey ''id'' v"
  by (simp_all add: CacheKey_def)

text \<open>What equal keys of lists say about the parameters, whatever follows the keys.\<close>

lemma ListParams_key_eq:
  assumes "inj (ID_String L)" and "ListParams_CacheKey L p @ ks = ListParams_CacheKey L p' @ ks'"
  shows "lp_ID p = lp_ID p' \<and> lp_Limit p = lp_Limit p' \<and> lp_Offset p = lp_Offset p' \<and>
    unix_seconds (lp_StartTime p) = unix_seconds (lp_StartTime p') \<and>
    unix_seconds (lp_EndTime p) = unix_seconds (lp_EndTime p') \<and> lp_Query p = lp_Query p' \<and>
    lp_DisableCounting p = lp_DisableCounting p' \<and> ks = ks'"
  using assms by (auto simp: ListParams_CacheKey_def inj_eq split: option.splits)

lemma Round_second: "Round t mod second = 0"
  unfolding Round_def Let_def
proof (cases "t mod second + t mod second < second")
  case False
  have "t + (second - t mod second) = (t div second + 1) * second"
    by (simp add: algebra_simps minus_mod_eq_mult_div)
  then have "(t + (second - t mod second)) mod second = 0" by simp
  with False show "(if t mod second + t mod second < second then t - t mod second else t + (second - t mod second)) mod second = 0"
    by simp
qed (simp add: minus_mod_eq_mult_div)

lemma unix_seconds_inject: "t mod second = 0 \<Longrightarrow> t' mod second = 0 \<Longrightarrow> unix_seconds t = unix_seconds t' \<longleftrightarrow> t = t'"
  unfolding unix_seconds_def by (metis div_mult_mod_eq)

lemma bind_err_Inr: "bind_err r f = Inr y \<longleftrightarrow> (\<exists>x. r = Inr x \<and> f x = Inr y)"
  by (auto simp: bind_err_def split: sum.splits)

lemma forValues_fields:
  assumes "forValues T now v q allowOffset = Inr p"
  shows "\<exists>limit offset. GetQueryInt q ''limit'' PaginationMaxLimit = Inr limit \<and>
    GetQueryInt q ''offset'' PaginationDefaultOffset = Inr offset \<and>
    lp_Limit p = max 0 (min limit PaginationMaxLimit) \<and> lp_Offset p = max 0 offset \<and>
    (allowOffset \<or> offset \<le> 0) \<and> (2 \<le> v \<longrightarrow> lp_DisableCounting p) \<and>
    lp_StartTime p mod second = 0 \<and> lp_EndTime p mod second = 0"
proof -
  note defs = forValues_def bind_err_def Let_def
  obtain limit where l: "GetQueryInt q ''limit'' PaginationMaxLimit = Inr limit"
    using assms by (cases "GetQueryInt q ''limit'' PaginationMaxLimit") (auto simp: defs)
  obtain offset where o: "GetQueryInt q ''offset'' PaginationDefaultOffset = Inr offset"
    using assms l by (cases "GetQueryInt q ''offset'' PaginationDefaultOffset") (auto simp: defs)
  have allowed: "allowOffset \<or> offset \<le> 0"
    using assms l o by (cases "\<not> allowOffset \<and> 0 < offset") (auto simp: defs)
  then have on: "(\<not> allowOffset \<and> (if offset < 0 then 0 else offset) > 0) = False" by auto
  obtain i where i: "GetQueryID T q ''id'' = Inr i"
    using assms l o on by (cases "GetQueryID T q ''id''") (simp_all add: defs)
  obtain sp st where s: "GetQueryTime T q ''startTime'' = Inr (sp, st)"
    using assms l o on i by (cases "GetQueryTime T q ''startTime''") (simp_all add: defs, metis surj_pair)
  obtain ep et where e: "GetQueryTime T q ''endTime'' = Inr (ep, et)"
    using assms l o on i s by (cases "GetQueryTime T q ''endTime''") (simp_all add: defs, metis surj_pair)
  obtain d where d: "GetQueryBool q ''disableCount'' False = Inr d"
    using assms l o on i s e by (cases "GetQueryBool q ''disableCount'' False") (simp_all add: defs)
  have "0 \<le> PaginationMaxLimit" by (simp add: PaginationMaxLimit_def)
  then show ?thesis
    using assms l o on i s e d allowed by (auto simp: defs Round_second)
qed

section \<open>Properties\<close>

text \<open>C24: The bounds of a request.  Whatever the query string holds, when it is accepted the limit lies
  between 0 and 5000, the offset is not negative, and is zero unless the request allows one, times are
  whole seconds, and from version 2 on counting is disabled.  The select statement then has a limit,
  except when the query asks for a limit of zero or less.\<close>

theorem forValues_bounds:
  assumes "forValues T now v q allowOffset = Inr p"
  shows "0 \<le> lp_Limit p \<and> lp_Limit p \<le> 5000 \<and> 0 \<le> lp_Offset p \<and> (allowOffset \<or> lp_Offset p = 0) \<and>
    lp_StartTime p mod second = 0 \<and> lp_EndTime p mod second = 0 \<and> (v < 2 \<or> lp_DisableCounting p) \<and>
    (sb_limit (ApplyPk L p t \<lparr>sb_limit = None, sb_offset = None, sb_where = [], sb_joins = []\<rparr> k False) = None \<longleftrightarrow>
       (\<exists>s rest n. strs_of q ''limit'' = s # rest \<and> Atoi s = Inr n \<and> n \<le> 0))"
proof -
  obtain limit offset where f: "GetQueryInt q ''limit'' PaginationMaxLimit = Inr limit"
    "GetQueryInt q ''offset'' PaginationDefaultOffset = Inr offset"
    "lp_Limit p = max 0 (min limit PaginationMaxLimit)" "lp_Offset p = max 0 offset"
    "allowOffset \<or> offset \<le> 0" "2 \<le> v \<longrightarrow> lp_DisableCounting p"
    "lp_StartTime p mod second = 0" "lp_EndTime p mod second = 0"
    using forValues_fields [OF assms] by (elim exE conjE) (rule that)
  have "(\<exists>s rest n. strs_of q ''limit'' = s # rest \<and> Atoi s = Inr n \<and> n \<le> 0) \<longleftrightarrow> limit \<le> 0"
    using f(1) by (auto simp: GetQueryInt_def PaginationMaxLimit_def split: list.splits)
  moreover have "sb_limit (ApplyPk L p t \<lparr>sb_limit = None, sb_offset = None, sb_where = [], sb_joins = []\<rparr> k False) = None
      \<longleftrightarrow> lp_Limit p = 0"
    by (simp add: ApplyPk_def Let_def Limit_def Offset_def)
  moreover have "lp_Limit p = 0 \<longleftrightarrow> limit \<le> 0" using f(3) by (auto simp: PaginationMaxLimit_def)
  ultimately show ?thesis using f(3-8) by (auto simp: PaginationMaxLimit_def not_less)
qed

definition no_parselib :: parselib where
  "no_parselib = \<lparr>pl_FromString = (\<lambda>_. Inl ''id''), pl_ShortFromString = (\<lambda>_. Inl ''short''), pl_ParseBech32 = (\<lambda>_. Inl ''bech32''),
     pl_ToShortID = (\<lambda>_. Inl ''length''), pl_ParseRFC3339 = (\<lambda>_. Inl ''time''), pl_ParseDuration = (\<lambda>_. Inl ''duration'')\<rparr>"

definition plain_nodelib :: nodelib where
  "plain_nodelib = \<lparr>ComputeHash256Array = (\<lambda>b. b), ID_String = (\<lambda>b. b), ID_Prefix = (\<lambda>b n. b),
     ShortID_String = (\<lambda>b. b), RecoverPublicKey = (\<lambda>h s. Inl ''no key''),
     PublicKey_Address = (\<lambda>b. b), PublicKey_Bytes = (\<lambda>b. b), FormatBech32 = (\<lambda>h b. Inr b),
     Add64 = (\<lambda>a b. Inr (a + b)), Propagate = (\<lambda>e s. e)\<rparr>"

lemmas query_defs = strs_of_def GetQueryInt_def GetQueryBool_def GetQueryString_def GetQueryTime_def GetQueryID_def
  Atoi_def ParseInt_def read_decimal_def HasPrefix_def is_digit_def digits_value_def

lemma negative_limit_accepted:
  "\<exists>p. forValues no_parselib 0 2 [''limit'' \<mapsto> [''-3'']] True = Inr p \<and> lp_Limit p = 0"
  by (simp add: forValues_def bind_err_def query_defs Let_def PaginationMaxLimit_def)

theorem forValues_bounds_witness:
  "\<exists>p. forValues no_parselib 0 2 [''limit'' \<mapsto> [''-3'']] True = Inr p \<and> lp_DisableCounting p \<and>
     sb_limit (ApplyPk plain_nodelib p ''t'' \<lparr>sb_limit = None, sb_offset = None, sb_where = [], sb_joins = []\<rparr> ''id'' False) = None"
proof -
  obtain p where p: "forValues no_parselib 0 2 [''limit'' \<mapsto> [''-3'']] True = Inr p"
    using negative_limit_accepted by blast
  have "Atoi ''-3'' = Inr (- 3)" by (simp add: query_defs)
  then have "\<exists>s rest n. strs_of [''limit'' \<mapsto> [''-3'']] ''limit'' = s # rest \<and> Atoi s = Inr n \<and> n \<le> 0"
    by (intro exI [of _ "''-3''"] exI [of _ "[]"] exI [of _ "- 3"]) (simp add: strs_of_def)
  with forValues_bounds [OF p, of plain_nodelib "''t''" "''id''"] p show ?thesis by auto
qed

text \<open>Joined chain ids can be told apart when none is empty or contains the separator.\<close>

definition plain_id :: "string \<Rightarrow> bool" where
  "plain_id s \<longleftrightarrow> s \<noteq> [] \<and> CHR ''|'' \<notin> set s"

lemma Join_Cons: "Join (s # ss) sep = s @ (if ss = [] then [] else sep @ Join ss sep)"
  by (cases ss) simp_all

lemma Join_head:
  assumes "plain_id s"
  shows "takeWhile (\<lambda>c. c \<noteq> CHR ''|'') (Join (s # ss) ''|'') = s"
    and "dropWhile (\<lambda>c. c \<noteq> CHR ''|'') (Join (s # ss) ''|'') = (if ss = [] then [] else CHR ''|'' # Join ss ''|'')"
proof -
  have no: "\<And>c. c \<in> set s \<Longrightarrow> c \<noteq> CHR ''|''" using assms by (auto simp: plain_id_def)
  then show "takeWhile (\<lambda>c. c \<noteq> CHR ''|'') (Join (s # ss) ''|'') = s"
    by (cases "ss = []") (simp_all add: Join_Cons takeWhile_append2)
  show "dropWhile (\<lambda>c. c \<noteq> CHR ''|'') (Join (s # ss) ''|'') = (if ss = [] then [] else CHR ''|'' # Join ss ''|'')"
    using no by (cases "ss = []") (simp_all add: Join_Cons dropWhile_append2)
qed

lemma Join_inject:
  "list_all plain_id xs \<Longrightarrow> list_all plain_id ys \<Longrightarrow> Join xs ''|'' = Join ys ''|'' \<Longrightarrow> xs = ys"
proof (induction xs arbitrary: ys)
  case Nil
  then show ?case by (cases ys) (auto simp: plain_id_def Join_Cons)
next
  case (Cons x xs)
  then obtain y ys' where ys: "ys = y # ys'" by (cases ys) (auto simp: plain_id_def Join_Cons)
  have "x = y" using Join_head(1) [of x xs] Join_head(1) [of y ys'] Cons.prems ys by simp
  moreover have "(if xs = [] then [] else CHR ''|'' # Join xs ''|'') = (if ys' = [] then [] else CHR ''|'' # Join ys' ''|'')"
    using Join_head(2) [of x xs] Join_head(2) [of y ys'] Cons.prems ys by simp
  then have "xs = [] \<longleftrightarrow> ys' = []" "xs \<noteq> [] \<Longrightarrow> Join xs ''|'' = Join ys' ''|''" by (auto split: if_splits)
  ultimately show ?case using Cons ys by (cases "xs = []") auto
qed

lemma Apply_cong:
  assumes "lp_ID x = lp_ID y" "lp_Limit x = lp_Limit y" "lp_Offset x = lp_Offset y" "lp_Query x = lp_Query y"
  shows "ApplyPk L x t b k pk = ApplyPk L y t b k pk"
  unfolding ApplyPk_def assms ..

text \<open>C25: The cache key identifies the request.  For aggregates, for lists of assets and for the chains
  of addresses, two requests with the same cache key restrict the select statement in the same way,
  provided that ids and addresses print differently and chain ids are not empty and hold no
  separator.\<close>

theorem CacheKey_sound:
  assumes "inj (ID_String L)" and "inj (ShortID_String L)"
    and "AggregateParams_ForValues T now1 v1 q1 = Inr g1" and "AggregateParams_ForValues T now2 v2 q2 = Inr g2"
    and "list_all plain_id (ag_ChainIDs g1)" and "list_all plain_id (ag_ChainIDs g2)"
    and "AggregateParams_CacheKey L g1 = AggregateParams_CacheKey L g2"
    and "ListAssetsParams_CacheKey L p1 = ListAssetsParams_CacheKey L p2"
    and "AddressChainsParams_CacheKey L a1 = AddressChainsParams_CacheKey L a2"
  shows "AggregateParams_Apply L g1 b = AggregateParams_Apply L g2 b \<and>
    ListAssetsParams_Apply L p1 b = ListAssetsParams_Apply L p2 b \<and>
    AddressChainsParams_Apply L a1 b = AddressChainsParams_Apply L a2 b"
proof (intro conjI)
  note aggr = ListParams_key_eq [OF assms(1) assms(7) [unfolded AggregateParams_CacheKey_def]]
  have "lp_StartTime (ag_ListParams g) mod second = 0 \<and> lp_EndTime (ag_ListParams g) mod second = 0"
    if "AggregateParams_ForValues T now v q = Inr g" for now v q g
    using that by (auto simp: AggregateParams_ForValues_def ForValues_def bind_err_Inr dest: forValues_fields)
  then have times: "lp_StartTime (ag_ListParams g1) = lp_StartTime (ag_ListParams g2)"
    "lp_EndTime (ag_ListParams g1) = lp_EndTime (ag_ListParams g2)"
    using assms(3,4) aggr unix_seconds_inject by metis+
  have rest: "ag_AssetID g1 = ag_AssetID g2" "Join (ag_ChainIDs g1) ''|'' = Join (ag_ChainIDs g2) ''|''"
    using aggr assms(1) by (auto simp: inj_eq split: option.splits)
  show "AggregateParams_Apply L g1 b = AggregateParams_Apply L g2 b"
    unfolding AggregateParams_Apply_def times rest(1) Join_inject [OF assms(5,6) rest(2)] ..
  note assets = ListParams_key_eq [OF assms(1) assms(8) [unfolded ListAssetsParams_CacheKey_def]]
  have "Apply L ((la_ListParams p1)\<lparr>lp_Query := []\<rparr>) t b = Apply L ((la_ListParams p2)\<lparr>lp_Query := []\<rparr>) t b" for t
    unfolding Apply_def by (rule Apply_cong) (use assets in auto)
  with assets show "ListAssetsParams_Apply L p1 b = ListAssetsParams_Apply L p2 b"
    by (simp add: ListAssetsParams_Apply_def Let_def)
  note chains = ListParams_key_eq [OF assms(1) assms(9) [unfolded AddressChainsParams_CacheKey_def]]
  have "inj (\<lambda>a. CacheKey ''address'' (ShortID_String L a))" using assms(2) by (simp add: inj_def)
  then have "ac_Addresses a1 = ac_Addresses a2" using chains by (simp add: inj_map_eq_map)
  moreover have "Apply L (ac_ListParams a1) t b = Apply L (ac_ListParams a2) t b" for t
    unfolding Apply_def by (rule Apply_cong) (use chains in auto)
  ultimately show "AddressChainsParams_Apply L a1 b = AddressChainsParams_Apply L a2 b"
    by (simp add: AddressChainsParams_Apply_def Let_def)
qed

lemma plain_nodelib_inj: "inj (ID_String plain_nodelib)" "inj (ShortID_String plain_nodelib)"
  by (simp_all add: plain_nodelib_def inj_def)

text \<open>The parameters of a query that sets none of the common fields.\<close>

definition default_params :: "gotime \<Rightarrow> u8 \<Rightarrow> ListParams" where
  "default_params now v = \<lparr>lp_ID = None, lp_Query = [], lp_Limit = PaginationMaxLimit, lp_Offset = 0,
     lp_DisableCounting = (v \<ge> 2), lp_StartTimeProvided = False, lp_EndTimeProvided = False,
     lp_StartTime = Round zero_time, lp_EndTime = Round now\<rparr>"

lemma forValues_default:
  assumes "list_all (\<lambda>k. q k = None)
    [''limit'', ''offset'', ''id'', ''startTime'', ''endTime'', ''query'', ''disableCount'']"
  shows "forValues T now v q allowOffset = Inr (default_params now v)"
  using assms by (simp add: forValues_def bind_err_def query_defs Let_def PaginationMaxLimit_def
    PaginationDefaultOffset_def default_params_def)

theorem CacheKey_sound_witness:
  "\<exists>g1 g2. AggregateParams_ForValues no_parselib 0 2 [''chainID'' \<mapsto> [''11'', ''4'']] = Inr g1 \<and>
     AggregateParams_ForValues no_parselib 1 2 [''chainID'' \<mapsto> [''11'', ''4''], ''colour'' \<mapsto> [''red'']] = Inr g2 \<and>
     ag_ChainIDs g2 = [''11'', ''4''] \<and>
     AggregateParams_Apply plain_nodelib g1 \<lparr>sb_limit = None, sb_offset = None, sb_where = [], sb_joins = []\<rparr> = AggregateParams_Apply plain_nodelib g2 \<lparr>sb_limit = None, sb_offset = None, sb_where = [], sb_joins = []\<rparr>"
proof -
  define g where "g now = \<lparr>ag_ListParams = default_params now 2, ag_ChainIDs = [''11'', ''4''], ag_AssetID = None,
    ag_IntervalSize = 0\<rparr>" for now
  define a where "a = \<lparr>ac_ListParams = default_params 0 2, ac_Addresses = [[CHR ''q'']]\<rparr>"
  define p where "p = \<lparr>la_ListParams = default_params 0 2, la_Alias = ''gold'', la_PathParamID = []\<rparr>"
  have 1: "AggregateParams_ForValues no_parselib 0 2 [''chainID'' \<mapsto> [''11'', ''4'']] = Inr (g 0)"
    by (simp add: AggregateParams_ForValues_def ForValues_def forValues_default bind_err_def GetQueryID_def GetQueryString_def Let_def
      GetQueryInterval_def strs_of_def g_def)
  have 2: "AggregateParams_ForValues no_parselib 1 2 [''chainID'' \<mapsto> [''11'', ''4''], ''colour'' \<mapsto> [''red'']] = Inr (g 1)"
    by (simp add: AggregateParams_ForValues_def ForValues_def forValues_default bind_err_def GetQueryID_def GetQueryString_def Let_def
      GetQueryInterval_def strs_of_def g_def)
  have "default_params 0 2 = default_params 1 2" by (simp add: default_params_def Round_def Let_def second_def)
  then have same: "AggregateParams_CacheKey plain_nodelib (g 0) = AggregateParams_CacheKey plain_nodelib (g 1)"
    by (simp add: g_def)
  have "list_all plain_id (ag_ChainIDs (g n))" for n by (simp add: g_def plain_id_def)
  from CacheKey_sound [OF plain_nodelib_inj 1 2 this this same refl [of "ListAssetsParams_CacheKey plain_nodelib p"]
      refl [of "AddressChainsParams_CacheKey plain_nodelib a"]] 1 2
  show ?thesis by (auto simp: g_def)
qed

text \<open>C26: What the cache keys leave out.  Two lists of C-chain transactions to different addresses, two lists
  of transactions for different output types, and two lists of outputs for the chain \<^verbatim>\<open>a|b\<close> and for the
  chains \<^verbatim>\<open>a\<close> and \<^verbatim>\<open>b\<close> share a cache key although they ask for different rows.\<close>

theorem cache_key_collisions:
  "(\<exists>p1 p2. ListCTransactionsParams_ForValues T now later v [''toAddress'' \<mapsto> [''0xaa'']] = Inr p1 \<and>
      ListCTransactionsParams_ForValues T now later v [''toAddress'' \<mapsto> [''0xbb'']] = Inr p2 \<and>
      ListCTransactionsParams_CacheKey L p1 = ListCTransactionsParams_CacheKey L p2 \<and>
      ct_CAddressesTo p1 \<noteq> ct_CAddressesTo p2) \<and>
   (\<exists>p1 p2. ListTransactionsParams_ForValues T now v [''outputOutputType'' \<mapsto> [''7'']] = Inr p1 \<and>
      ListTransactionsParams_ForValues T now v [''outputOutputType'' \<mapsto> [''6'']] = Inr p2 \<and>
      ListTransactionsParams_CacheKey L p1 = ListTransactionsParams_CacheKey L p2 \<and>
      lt_OutputOutputTypes p1 \<noteq> lt_OutputOutputTypes p2) \<and>
   (\<exists>p1 p2. ListOutputsParams_ForValues T now v [''chainID'' \<mapsto> [''a|b'']] = OutputsParams p1 \<and>
      ListOutputsParams_ForValues T now v [''chainID'' \<mapsto> [''a'', ''b'']] = OutputsParams p2 \<and>
      ListOutputsParams_CacheKey L p1 = ListOutputsParams_CacheKey L p2 \<and>
      ListOutputsParams_Apply L p1 b \<noteq> ListOutputsParams_Apply L p2 b)"
proof (intro conjI)
  note common = ForValues_def ForValuesAllowOffset_def forValues_default bind_err_def Let_def
  show "\<exists>p1 p2. ListCTransactionsParams_ForValues T now later v [''toAddress'' \<mapsto> [''0xaa'']] = Inr p1 \<and>
      ListCTransactionsParams_ForValues T now later v [''toAddress'' \<mapsto> [''0xbb'']] = Inr p2 \<and>
      ListCTransactionsParams_CacheKey L p1 = ListCTransactionsParams_CacheKey L p2 \<and>
      ct_CAddressesTo p1 \<noteq> ct_CAddressesTo p2"
    by (simp add: common ListCTransactionsParams_ForValues_def ListCTransactionsParams_CacheKey_def c_addresses_def
      strs_of_def with_0x_def HasPrefix_def ToLower_def to_lower_def sort_of_def last_number_def)
  show "\<exists>p1 p2. ListTransactionsParams_ForValues T now v [''outputOutputType'' \<mapsto> [''7'']] = Inr p1 \<and>
      ListTransactionsParams_ForValues T now v [''outputOutputType'' \<mapsto> [''6'']] = Inr p2 \<and>
      ListTransactionsParams_CacheKey L p1 = ListTransactionsParams_CacheKey L p2 \<and>
      lt_OutputOutputTypes p1 \<noteq> lt_OutputOutputTypes p2"
    by (simp add: common ListTransactionsParams_ForValues_def ListTransactionsParams_CacheKey_def GetQueryID_def GetQueryString_def
      strs_of_def sort_of_def GetQueryBool_def ParseUint_def is_digit_def digits_value_def)
  show "\<exists>p1 p2. ListOutputsParams_ForValues T now v [''chainID'' \<mapsto> [''a|b'']] = OutputsParams p1 \<and>
      ListOutputsParams_ForValues T now v [''chainID'' \<mapsto> [''a'', ''b'']] = OutputsParams p2 \<and>
      ListOutputsParams_CacheKey L p1 = ListOutputsParams_CacheKey L p2 \<and>
      ListOutputsParams_Apply L p1 b \<noteq> ListOutputsParams_Apply L p2 b"
  proof -
    define p where "p chains = \<lparr>lo_ListParams = default_params now v, lo_ChainIDs = chains, lo_Addresses = [], lo_Spent = None\<rparr>"
      for chains
    have read: "ListOutputsParams_ForValues T now v [''chainID'' \<mapsto> chains] = OutputsParams (p chains)" for chains
      by (simp add: common ListOutputsParams_ForValues_def strs_of_def p_def)
    have "sb_where (ListOutputsParams_Apply L (p (c # chains)) b) =
        sb_where (Apply L (default_params now v) ''avm_outputs'' b) @ [CondEqList ''avm_outputs.chain_id'' (c # chains)]"
      for c chains
      by (simp add: ListOutputsParams_Apply_def Let_def p_def Where_def default_params_def)
    then have "sb_where (ListOutputsParams_Apply L (p [''a|b'']) b) \<noteq> sb_where (ListOutputsParams_Apply L (p [''a'', ''b'']) b)"
      by simp
    moreover have "ListOutputsParams_CacheKey L (p [''a|b'']) = ListOutputsParams_CacheKey L (p [''a'', ''b''])"
      by (simp add: ListOutputsParams_CacheKey_def p_def)
    ultimately show ?thesis using read by metis
  qed
qed

end
