(* ===== verification/Djtx_Reader.thy ===== *)
theory Djtx_Reader
  imports Balance_System Request_Params "HOL-Library.List_Lexorder" "HOL-Library.Char_ord" "HOL-Library.Product_Lexorder"
begin

text \<open>
  The readers that answer API requests: \<^verbatim>\<open>src/services/indexes/djtx/reader.go\<close>,
  \<^verbatim>\<open>avm_reader.go\<close>, \<^verbatim>\<open>pvm_reader.go\<close> and \<^verbatim>\<open>reader_util.go\<close>.

  A select is run on the rows of its tables, joined on the left, with the conditions, the limit and the
  offset that the parameters of the request add to it.  Strings are compared byte by byte.  The iteration
  order of Go maps is an argument, a function that rearranges a list.

  The figures of an address can be read in two ways: summed up from the ledger, or from the balances that
  the balance manager maintains.  The main theorem says that both give the same answer once the queues
  are worked off.
\<close>

section \<open>Running a select\<close>

definition left_join :: "('a \<Rightarrow> 'b \<Rightarrow> bool) \<Rightarrow> 'a list \<Rightarrow> 'b list \<Rightarrow> ('a \<times> 'b option) list" where
  "left_join on xs ys =
     concat (map (\<lambda>x. case filter (on x) ys of [] \<Rightarrow> [(x, None)] | zs \<Rightarrow> map (\<lambda>z. (x, Some z)) zs) xs)"

text \<open>\<^verbatim>\<open>LIKE\<close>: the percent sign stands for any string, the underscore for any character, the backslash
  takes the next character as it is.\<close>

fun like :: "string \<Rightarrow> string \<Rightarrow> bool" where
  "like [] t = (t = [])"
| "like (c # p) t =
     (if c = CHR ''%'' then list_ex (like p) (suffixes t)
      else if c = CHR 0x5C \<and> p \<noteq> [] then (case t of [] \<Rightarrow> False | x # u \<Rightarrow> x = hd p \<and> like (tl p) u)
      else (case t of [] \<Rightarrow> False | x # u \<Rightarrow> (c = CHR ''_'' \<or> c = x) \<and> like p u))"

text \<open>The columns that a select can refer to, with their values, which may be null.\<close>

record 'r columns =
  str_col :: "string \<rightharpoonup> ('r \<Rightarrow> string option)"
  time_col :: "string \<rightharpoonup> ('r \<Rightarrow> gotime)"

text \<open>A slice is interpolated as a list in parentheses, so a comparison with it is well-formed for one
  element only.\<close>

fun known :: "'r columns \<Rightarrow> condition \<Rightarrow> bool" where
  "known C (CondEq c v) = (str_col C c \<noteq> None)"
| "known C (CondEqList c vs) = (str_col C c \<noteq> None \<and> length vs = 1)"
| "known C (CondIn c vs) = (str_col C c \<noteq> None \<and> vs \<noteq> [])"
| "known C (CondLike c v) = (str_col C c \<noteq> None)"
| "known C (CondSince c t) = (time_col C c \<noteq> None)"
| "known C (CondBefore c t) = (time_col C c \<noteq> None)"
| "known C (CondNull c) = (str_col C c \<noteq> None)"
| "known C (CondNotNull c) = (str_col C c \<noteq> None)"
| "known C (CondOr cs) = list_all (known C) cs"

fun holds :: "'r columns \<Rightarrow> condition \<Rightarrow> 'r \<Rightarrow> bool" where
  "holds C (CondEq c v) r = (the (str_col C c) r = Some v)"
| "holds C (CondEqList c vs) r = (the (str_col C c) r \<in> Some ` set vs)"
| "holds C (CondIn c vs) r = (the (str_col C c) r \<in> Some ` set vs)"
| "holds C (CondLike c v) r = (case the (str_col C c) r of None \<Rightarrow> False | Some s \<Rightarrow> like v s)"
| "holds C (CondSince c t) r = (the (time_col C c) r \<ge> t)"
| "holds C (CondBefore c t) r = (the (time_col C c) r < t)"
| "holds C (CondNull c) r = (the (str_col C c) r = None)"
| "holds C (CondNotNull c) r = (the (str_col C c) r \<noteq> None)"
| "holds C (CondOr cs) r = list_ex (\<lambda>c. holds C c r) cs"

definition blank_select :: SelectBuilder where
  "blank_select = \<lparr>sb_limit = None, sb_offset = None, sb_where = [], sb_joins = []\<rparr>"

definition page :: "u64 option \<Rightarrow> u64 option \<Rightarrow> 'r list \<Rightarrow> 'r list" where
  "page limit offset rows =
     (let rows1 = (case offset of None \<Rightarrow> rows | Some n \<Rightarrow> drop (unat n) rows)
      in case limit of None \<Rightarrow> rows1 | Some n \<Rightarrow> take (unat n) rows1)"

definition unknown_column :: goerr where
  "unknown_column = ''Error 1054: Unknown column''"

definition sql_syntax :: goerr where
  "sql_syntax = ''Error 1064: You have an error in your SQL syntax''"

text \<open>An offset without a limit is not SQL.\<close>

definition select_rows :: "'r columns \<Rightarrow> SelectBuilder \<Rightarrow> 'r list \<Rightarrow> goerr + 'r list" where
  "select_rows C b rows =
     (if sb_limit b = None \<and> sb_offset b \<noteq> None then Inl sql_syntax
      else if \<not> list_all (known C) (sb_where b) then Inl unknown_column
      else Inr (page (sb_limit b) (sb_offset b) (filter (\<lambda>r. list_all (\<lambda>c. holds C c r) (sb_where b)) rows)))"

section \<open>Addresses\<close>

text \<open>A row of the select: a chain, an address and an asset with the figures.  The transaction count of
  the accumulated select comes from a left join and may be null.\<close>

record AddressRow =
  ar_ChainID :: string
  ar_Address :: string
  ar_AssetID :: string
  ar_TransactionCount :: "nat option"
  ar_TotalReceived :: int
  ar_TotalSent :: int
  ar_Balance :: int
  ar_UTXOCount :: int

definition outputs_with_addresses :: "database \<Rightarrow> (Outputs \<times> OutputAddresses option) list" where
  "outputs_with_addresses d = left_join (\<lambda>o1 a. out_ID o1 = oad_OutputID a) (avm_outputs d) (avm_output_addresses d)"

text \<open>The subselect \<^verbatim>\<open>ua\<close>: the distinct addresses of each chain, in order.\<close>

definition ua_columns :: "(string \<times> string option) columns" where
  "ua_columns = \<lparr>str_col = [''avm_outputs.chain_id'' \<mapsto> (\<lambda>(c, a). Some c), ''avm_output_addresses.address'' \<mapsto> snd],
     time_col = Map.empty\<rparr>"

definition ua_rows :: "database \<Rightarrow> (string \<times> string option) list" where
  "ua_rows d =
     sort_key (\<lambda>(c, a). (c, case a of None \<Rightarrow> [] | Some s \<Rightarrow> [s]))
       (remdups (map (\<lambda>(o1, a). (out_ChainID o1, map_option oad_Address a)) (outputs_with_addresses d)))"

text \<open>The figures summed up from the ledger.\<close>

type_synonym ledger_row = "(Outputs \<times> OutputAddresses option) \<times> OutputsRedeeming option"

definition ledger_rows :: "database \<Rightarrow> ledger_row list" where
  "ledger_rows d =
     left_join (\<lambda>(o1, a) r. out_ID o1 = red_ID r) (outputs_with_addresses d) (avm_outputs_redeeming d)"

definition row_key :: "ledger_row \<Rightarrow> string \<times> string option \<times> string" where
  "row_key x = (case x of ((o1, a), r) \<Rightarrow> (out_ChainID o1, map_option oad_Address a, out_AssetID o1))"

definition row_amount :: "ledger_row \<Rightarrow> nat" where
  "row_amount x = (case x of ((o1, a), r) \<Rightarrow> unat (out_Amount o1))"

definition row_tx :: "ledger_row \<Rightarrow> string" where
  "row_tx x = (case x of ((o1, a), r) \<Rightarrow> out_TransactionID o1)"

definition row_spent :: "ledger_row \<Rightarrow> bool" where
  "row_spent x \<longleftrightarrow> snd x \<noteq> None"

definition group_figures :: "string \<times> string \<times> string \<Rightarrow> ledger_row list \<Rightarrow> AddressRow" where
  "group_figures k xs =
     (case k of (chain, addr, asset) \<Rightarrow>
       \<lparr>ar_ChainID = chain, ar_Address = addr, ar_AssetID = asset,
        ar_TransactionCount = Some (length (remdups (map row_tx xs))),
        ar_TotalReceived = int (sum_list (map row_amount xs)),
        ar_TotalSent = int (sum_list (map (\<lambda>x. if row_spent x then row_amount x else 0) xs)),
        ar_Balance = int (sum_list (map (\<lambda>x. if \<not> row_spent x then row_amount x else 0) xs)),
        ar_UTXOCount = int (sum_list (map (\<lambda>x. if \<not> row_spent x then 1 else 0) xs))\<rparr>)"

definition address_order :: "AddressRow \<Rightarrow> string \<times> string \<times> string" where
  "address_order r = (ar_ChainID r, ar_Address r, ar_AssetID r)"

definition plain_rows :: "nodelib \<Rightarrow> ListAddressesParams \<Rightarrow> database \<Rightarrow> goerr + AddressRow list" where
  "plain_rows L p d =
     (case select_rows ua_columns (ListAddressesParams_Apply L p blank_select False) (ua_rows d) of
        Inl e \<Rightarrow> Inl e
      | Inr ua \<Rightarrow>
          let rows = filter (\<lambda>x. case row_key x of (chain, addr, asset) \<Rightarrow>
                               addr \<noteq> None \<and> addr \<in> snd ` set ua \<and>
                               (length (ad_ChainIDs p) \<noteq> 0 \<longrightarrow> chain \<in> set (ad_ChainIDs p))) (ledger_rows d);
              keys = remdups (map (\<lambda>x. case row_key x of (chain, addr, asset) \<Rightarrow> (chain, the addr, asset)) rows)
          in Inr (sort_key address_order (map (\<lambda>(chain, addr, asset).
               group_figures (chain, addr, asset) (filter (\<lambda>x. row_key x = (chain, Some addr, asset)) rows)) keys)))"

text \<open>The figures that the balance manager maintains.\<close>

type_synonym balance_row = "(AccumulateBalancesAmount \<times> AccumulateBalancesAmount option) \<times> AccumulateBalancesTransactions option"

definition balance_columns :: "balance_row columns" where
  "balance_columns = \<lparr>str_col =
       [''accumulate_balances_received.chain_id'' \<mapsto> (\<lambda>((r, s), t). Some (aba_ChainID r)),
        ''accumulate_balances_received.address'' \<mapsto> (\<lambda>((r, s), t). Some (aba_Address r))],
     time_col = Map.empty\<rparr>"

definition balance_rows :: "database \<Rightarrow> balance_row list" where
  "balance_rows d =
     left_join (\<lambda>(r, s) t. aba_ID r = abt_ID t)
       (left_join (\<lambda>r s. aba_ID r = aba_ID s) (accumulate_balances_received d) (accumulate_balances_sent d))
       (accumulate_balances_transactions d)"

definition balance_figures :: "balance_row \<Rightarrow> AddressRow" where
  "balance_figures x =
     (case x of ((r, s), t) \<Rightarrow>
       let sent = (case s of None \<Rightarrow> 0 | Some b \<Rightarrow> aba_TotalAmount b);
           spent = (case s of None \<Rightarrow> 0 | Some b \<Rightarrow> aba_UtxoCount b)
       in \<lparr>ar_ChainID = aba_ChainID r, ar_Address = aba_Address r, ar_AssetID = aba_AssetID r,
           ar_TransactionCount = map_option abt_TransactionCount t,
           ar_TotalReceived = int (aba_TotalAmount r), ar_TotalSent = int sent,
           ar_Balance = int (aba_TotalAmount r) - int sent,
           ar_UTXOCount = int (aba_UtxoCount r) - int spent\<rparr>)"

definition accumulated_rows :: "nodelib \<Rightarrow> ListAddressesParams \<Rightarrow> database \<Rightarrow> goerr + AddressRow list" where
  "accumulated_rows L p d =
     (case select_rows balance_columns (ListAddressesParams_Apply L p blank_select True)
             (sort_key (\<lambda>x. address_order (balance_figures x)) (balance_rows d)) of
        Inl e \<Rightarrow> Inl e
      | Inr rows \<Rightarrow> Inr (map balance_figures rows))"

text \<open>Reading a number from the driver into a \<^verbatim>\<open>uint64\<close>; \<open>null\<close> is what reading a null gives.\<close>

definition scan_u64 :: "goerr + u64 \<Rightarrow> int option \<Rightarrow> goerr + u64" where
  "scan_u64 null n =
     (case n of None \<Rightarrow> null
      | Some i \<Rightarrow> if 0 \<le> i \<and> i < 2 ^ 64 then Inr (of_int i) else Inl ''sql: Scan error: value out of range'')"

record AssetInfo =
  asi_AssetID :: string
  asi_TransactionCount :: u64
  asi_UTXOCount :: u64
  asi_Balance :: string
  asi_TotalReceived :: string
  asi_TotalSent :: string

record AddressInfo =
  adi_ChainID :: string
  adi_Address :: string
  adi_PublicKey :: "bytes option"
  adi_Assets :: "string \<rightharpoonup> AssetInfo"

definition row_asset :: "goerr + u64 \<Rightarrow> AddressRow \<Rightarrow> goerr + AssetInfo" where
  "row_asset null r =
     bind_err (scan_u64 null (map_option int (ar_TransactionCount r))) (\<lambda>txs.
     bind_err (scan_u64 null (Some (ar_UTXOCount r))) (\<lambda>utxos.
     Inr \<lparr>asi_AssetID = ar_AssetID r, asi_TransactionCount = txs, asi_UTXOCount = utxos,
          asi_Balance = dec_int (ar_Balance r), asi_TotalReceived = dec_int (ar_TotalReceived r),
          asi_TotalSent = dec_int (ar_TotalSent r)\<rparr>))"

text \<open>The rows with the public keys of their addresses, loaded into structs.\<close>

definition load_addresses ::
  "nodelib \<Rightarrow> goerr + u64 \<Rightarrow> bool \<Rightarrow> ListAddressesParams \<Rightarrow> database \<Rightarrow> goerr + (AddressRow \<times> bytes option \<times> AssetInfo) list" where
  "load_addresses L null accumulateReader p d =
     bind_err (if accumulateReader then accumulated_rows L p d else plain_rows L p d) (\<lambda>rows.
     read_all (\<lambda>(r, a). bind_err (row_asset null r) (\<lambda>info. Inr (r, map_option adr_PublicKey a, info)))
       (left_join (\<lambda>r a. adr_Address a = ar_Address r) rows (addresses d)))"

text \<open>The map \<^verbatim>\<open>addrsByID\<close> as a list of its entries.\<close>

definition add_address_row ::
  "(string \<times> AddressInfo) list \<Rightarrow> AddressRow \<times> bytes option \<times> AssetInfo \<Rightarrow> (string \<times> AddressInfo) list" where
  "add_address_row m x =
     (case x of (r, pk, info) \<Rightarrow>
       let k = ar_ChainID r @ '':'' @ ar_Address r;
           m1 = (case map_of m k of
                   Some _ \<Rightarrow> m
                 | None \<Rightarrow> m @ [(k, \<lparr>adi_ChainID = ar_ChainID r, adi_Address = ar_Address r, adi_PublicKey = pk,
                                      adi_Assets = Map.empty\<rparr>)])
       in map (\<lambda>(k1, a). (k1, if k1 = k then a\<lparr>adi_Assets := (adi_Assets a)(ar_AssetID r \<mapsto> info)\<rparr> else a)) m1)"

definition zero_params :: ListParams where
  "zero_params = \<lparr>lp_ID = None, lp_Query = [], lp_Limit = 0, lp_Offset = 0, lp_DisableCounting = False,
     lp_StartTimeProvided = False, lp_EndTimeProvided = False, lp_StartTime = zero_time, lp_EndTime = zero_time\<rparr>"

text \<open>The count is read from the select \<^verbatim>\<open>ua\<close>, to which the restrictions of the other reader are applied
  once more.\<close>

definition ListAddresses ::
  "nodelib \<Rightarrow> goerr + u64 \<Rightarrow> (AddressInfo list \<Rightarrow> AddressInfo list) \<Rightarrow> bool \<Rightarrow> ListAddressesParams
     \<Rightarrow> (database, u64 option \<times> AddressInfo list) go" where
  "ListAddresses L null order accumulateReader p =
     bind (query (load_addresses L null accumulateReader p)) (\<lambda>rows.
     let addrs = order (map snd (foldl add_address_row [] rows)) in
     if lp_DisableCounting (ad_ListParams p) then ret (None, addrs)
     else if int (length addrs) \<ge> lp_Limit (ad_ListParams p)
     then bind (query (\<lambda>d.
            let b = ListAddressesParams_Apply L p blank_select accumulateReader;
                b1 = (if accumulateReader then blank_select else b)
            in select_rows ua_columns
                 (ListAddressesParams_Apply L (p\<lparr>ad_ListParams := zero_params\<rparr>) b1 True) (ua_rows d)))
          (\<lambda>rows. ret (Some (of_nat (length rows)), addrs))
     else ret (Some (of_int (lp_Offset (ad_ListParams p)) + of_nat (length addrs)), addrs))"

text \<open>\<^verbatim>\<open>reader_util.go\<close>: the output count is added to itself.\<close>

definition addStringsFunc :: "string \<Rightarrow> string \<Rightarrow> string" where
  "addStringsFunc t f =
     dec_int ((case read_decimal t of None \<Rightarrow> 0 | Some n \<Rightarrow> n) + (case read_decimal f of None \<Rightarrow> 0 | Some n \<Rightarrow> n))"

definition addAssetInfos :: "AssetInfo \<Rightarrow> AssetInfo \<Rightarrow> AssetInfo" where
  "addAssetInfos t f =
     t\<lparr>asi_TransactionCount := asi_TransactionCount t + asi_TransactionCount f,
       asi_UTXOCount := asi_UTXOCount t + asi_UTXOCount t,
       asi_Balance := addStringsFunc (asi_Balance t) (asi_Balance f),
       asi_TotalReceived := addStringsFunc (asi_TotalReceived t) (asi_TotalReceived f),
       asi_TotalSent := addStringsFunc (asi_TotalSent t) (asi_TotalSent f)\<rparr>"

definition addAssetInfoMap :: "(string \<rightharpoonup> AssetInfo) \<Rightarrow> (string \<rightharpoonup> AssetInfo) \<Rightarrow> string \<rightharpoonup> AssetInfo" where
  "addAssetInfoMap assets assets2 k =
     (case assets2 k of
        None \<Rightarrow> assets k
      | Some v \<Rightarrow> (case assets k of Some assetInfo \<Rightarrow> Some (addAssetInfos assetInfo v) | None \<Rightarrow> Some v))"

definition collate_address :: "(string \<times> AddressInfo) list \<Rightarrow> AddressInfo \<Rightarrow> (string \<times> AddressInfo) list" where
  "collate_address m a =
     (case map_of m (adi_Address a) of
        None \<Rightarrow> m @ [(adi_Address a, a)]
      | Some _ \<Rightarrow> map (\<lambda>(k, x). (k, if k = adi_Address a
                    then x\<lparr>adi_ChainID := [], adi_Assets := addAssetInfoMap (adi_Assets x) (adi_Assets a)\<rparr> else x)) m)"

definition GetAddress ::
  "nodelib \<Rightarrow> goerr + u64 \<Rightarrow> (AddressInfo list \<Rightarrow> AddressInfo list) \<Rightarrow> bool \<Rightarrow> ListAddressesParams
     \<Rightarrow> (database, AddressInfo option) go" where
  "GetAddress L null order accumulateReader p =
     bind (ListAddresses L null order accumulateReader p) (\<lambda>(_, addrs).
     let collated = (if length addrs > 1 then order (map snd (foldl collate_address [] addrs)) else addrs)
     in ret (case collated of [] \<Rightarrow> None | a # _ \<Rightarrow> Some a))"

section \<open>Joins on keys\<close>

lemma find_filter_hd: "find P xs = (case filter P xs of [] \<Rightarrow> None | x # _ \<Rightarrow> Some x)"
  by (induction xs) auto

lemma left_join_fst: "fst ` set (left_join on xs ys) = set xs"
  by (induction xs) (auto simp: left_join_def image_iff split: list.splits)

lemma insort_key_map: "insort_key f (g x) (map g xs) = map g (insort_key (\<lambda>y. f (g y)) x xs)"
  by (induction xs) auto

lemma sort_key_map: "sort_key f (map g xs) = map g (sort_key (\<lambda>y. f (g y)) xs)"
  by (induction xs) (auto simp: insort_key_map)

lemma left_join_unique:
  assumes "\<And>x. x \<in> set xs \<Longrightarrow> length (filter (on x) ys) \<le> 1"
  shows "left_join on xs ys = map (\<lambda>x. (x, find (on x) ys)) xs"
proof -
  have "(case filter (on x) ys of [] \<Rightarrow> [(x, None)] | zs \<Rightarrow> map (\<lambda>z. (x, Some z)) zs) = [(x, find (on x) ys)]"
    if "length (filter (on x) ys) \<le> 1" for x
    using that by (auto simp: find_filter_hd split: list.splits)
  then have "map (\<lambda>x. case filter (on x) ys of [] \<Rightarrow> [(x, None)] | zs \<Rightarrow> map (\<lambda>z. (x, Some z)) zs) xs =
      map (\<lambda>x. [(x, find (on x) ys)]) xs"
    using assms by (intro map_cong) auto
  then have "left_join on xs ys = concat (map (\<lambda>x. [(x, find (on x) ys)]) xs)"
    unfolding left_join_def by (rule arg_cong)
  then show ?thesis by (simp only: concat_map_singleton)
qed

lemma left_join_matches:
  "filter (\<lambda>x. snd x \<noteq> None) (left_join on xs ys) = [(x, Some y). x \<leftarrow> xs, y \<leftarrow> filter (on x) ys]"
  by (induction xs) (auto simp: left_join_def split: list.splits)

lemma distinct_key_matches:
  "distinct (map key ys) \<Longrightarrow> length (filter (\<lambda>y. k = key y) ys) \<le> 1"
  by (induction ys) (auto simp: filter_empty_conv)

section \<open>The ledger by output and address\<close>

definition holdings :: "database \<Rightarrow> (Outputs \<times> OutputAddresses) list" where
  "holdings d = [(o1, a). o1 \<leftarrow> avm_outputs d, a \<leftarrow> filter (\<lambda>a. out_ID o1 = oad_OutputID a) (avm_output_addresses d)]"

definition redeemed :: "database \<Rightarrow> Outputs \<Rightarrow> bool" where
  "redeemed d o1 \<longleftrightarrow> out_ID o1 \<in> red_ID ` set (avm_outputs_redeeming d)"

lemma ledger_keys:
  assumes "db_ok d"
  shows "distinct (map out_ID (avm_outputs d))" "distinct (map red_ID (avm_outputs_redeeming d))"
    "distinct (map (\<lambda>a. (oad_OutputID a, oad_Address a)) (avm_output_addresses d))"
proof -
  have "uniq (\<lambda>a b. out_ID a = out_ID b) (avm_outputs d)"
    using assms by (auto simp: db_ok_def uniq_def Outputs_clash_def elim: sorted_wrt_mono_rel [rotated])
  then show "distinct (map out_ID (avm_outputs d))" by (simp add: uniq_distinct [of _ out_ID])
  show "distinct (map red_ID (avm_outputs_redeeming d))"
    using assms by (simp add: db_ok_def uniq_distinct [of OutputsRedeeming_clash red_ID] OutputsRedeeming_clash_def)
  show "distinct (map (\<lambda>a. (oad_OutputID a, oad_Address a)) (avm_output_addresses d))"
    using assms by (simp add: db_ok_def OutputAddresses_clash_def
        uniq_distinct [of OutputAddresses_clash "\<lambda>a. (oad_OutputID a, oad_Address a)"])
qed

lemma holdings_ledger:
  assumes "db_ok d"
  shows "filter (\<lambda>x. snd (fst x) \<noteq> None) (ledger_rows d) =
    map (\<lambda>(o1, a). ((o1, Some a), find (\<lambda>r. out_ID o1 = red_ID r) (avm_outputs_redeeming d))) (holdings d)"
proof -
  let ?find = "\<lambda>o1. find (\<lambda>r. out_ID o1 = red_ID r) (avm_outputs_redeeming d)"
  have "ledger_rows d = map (\<lambda>x. (x, find ((\<lambda>(o1, a) r. out_ID o1 = red_ID r) x) (avm_outputs_redeeming d)))
      (outputs_with_addresses d)"
    unfolding ledger_rows_def
    by (rule left_join_unique) (simp only: case_prod_unfold distinct_key_matches ledger_keys [OF assms])
  then have "filter (\<lambda>x. snd (fst x) \<noteq> None) (ledger_rows d) =
      map (\<lambda>x. (x, ?find (fst x))) (filter (\<lambda>x. snd x \<noteq> None) (outputs_with_addresses d))"
    by (simp add: filter_map o_def case_prod_unfold)
  also have "\<dots> = map (\<lambda>x. (x, ?find (fst x))) [(o1, Some a). (o1, a) \<leftarrow> holdings d]"
    unfolding outputs_with_addresses_def left_join_matches holdings_def
    by (simp add: map_concat o_def)
  finally show ?thesis by (simp add: o_def case_prod_unfold)
qed

lemma row_spent_redeemed:
  "row_spent ((o1, a), find (\<lambda>r. out_ID o1 = red_ID r) (avm_outputs_redeeming d)) \<longleftrightarrow> redeemed d o1"
  by (auto simp: row_spent_def redeemed_def find_None_iff image_iff)

lemma set_holdings:
  "(o1, a) \<in> set (holdings d) \<longleftrightarrow> o1 \<in> set (avm_outputs d) \<and> a \<in> set (avm_output_addresses d) \<and> out_ID o1 = oad_OutputID a"
  by (auto simp: holdings_def)

definition holding_id :: "Outputs \<times> OutputAddresses \<Rightarrow> string \<times> string" where
  "holding_id h = (out_ID (fst h), oad_Address (snd h))"

lemma distinct_holdings:
  assumes "db_ok d"
  shows "distinct (map holding_id (holdings d))"
proof -
  note keys = ledger_keys [OF assms]
  have "distinct (map holding_id [(o1, a). o1 \<leftarrow> os, a \<leftarrow> filter (\<lambda>a. out_ID o1 = oad_OutputID a) as])"
    if "distinct (map out_ID os)" "distinct (map (\<lambda>a. (oad_OutputID a, oad_Address a)) as)" for os as
    using that
  proof (induction os)
    case (Cons x os)
    have "distinct (map (\<lambda>a. (out_ID x, oad_Address a)) (filter (\<lambda>a. out_ID x = oad_OutputID a) as))"
      using Cons.prems(2) by (auto simp: distinct_map inj_on_def)
    moreover have "out_ID x \<notin> out_ID ` set os" using Cons.prems(1) by simp
    ultimately show ?case using Cons by (auto simp: holding_id_def o_def) (metis image_eqI)
  qed simp
  with keys(1,3) show ?thesis unfolding holdings_def by blast
qed

section \<open>The books of a settled ledger\<close>

text \<open>A ledger is settled when the balance manager has worked off its queues: the processed rows are one for
  each output and address, of the spent outputs in the queue of inputs, and one for each transaction that
  pays to an address; and every balance carries the id of its chain, asset and address.\<close>

definition key_id :: "nodelib \<Rightarrow> string \<times> string \<times> string \<Rightarrow> string" where
  "key_id L k = (case k of (chain, addr, asset) \<Rightarrow>
     ID_String L (ComputeHash256Array L (chain @ '':'' @ asset @ '':'' @ addr)))"

definition holding_key :: "Outputs \<times> OutputAddresses \<Rightarrow> string \<times> string \<times> string" where
  "holding_key h = (out_ChainID (fst h), oad_Address (snd h), out_AssetID (fst h))"

definition balance_key :: "AccumulateBalancesAmount \<Rightarrow> string \<times> string \<times> string" where
  "balance_key b = (aba_ChainID b, aba_Address b, aba_AssetID b)"

definition tx_key :: "OutputTxsAccumulate \<Rightarrow> string \<times> string \<times> string" where
  "tx_key t = (ota_ChainID t, ota_Address t, ota_AssetID t)"

definition booked :: "processType \<Rightarrow> database \<Rightarrow> (string \<times> string) list" where
  "booked ty d = map (\<lambda>r. (oaa_OutputID r, oaa_Address r)) (filter (\<lambda>r. oaa_Processed r \<noteq> 0) (outTable ty d))"

definition booked_txs :: "database \<Rightarrow> ((string \<times> string \<times> string) \<times> string) list" where
  "booked_txs d = map (\<lambda>t. (tx_key t, ota_TransactionID t)) (filter (\<lambda>t. ota_Processed t \<noteq> 0) (output_txs_accumulate d))"

definition to_book :: "processType \<Rightarrow> database \<Rightarrow> (Outputs \<times> OutputAddresses) list" where
  "to_book ty d = (case ty of processTypeOut \<Rightarrow> holdings d | processTypeIn \<Rightarrow> filter (\<lambda>h. redeemed d (fst h)) (holdings d))"

definition settled :: "nodelib \<Rightarrow> database \<Rightarrow> bool" where
  "settled L d \<longleftrightarrow>
     (\<forall>ty \<in> {processTypeOut, processTypeIn}. distinct (booked ty d) \<and> set (booked ty d) = holding_id ` set (to_book ty d)) \<and>
     distinct (booked_txs d) \<and>
     set (booked_txs d) = (\<lambda>h. (holding_key h, out_TransactionID (fst h))) ` set (holdings d) \<and>
     (\<forall>b \<in> set (accumulate_balances_received d). aba_ID b = key_id L (balance_key b) \<and> aba_UtxoCount b > 0)"

lemma sum_list_unless:
  "sum_list (map (\<lambda>r. if P r then 0 else g r) t) = sum_list (map g (filter (\<lambda>r. \<not> P r) t))" for g :: "'r \<Rightarrow> nat"
  by (induction t) simp_all

lemma sum_list_if_length: "sum_list (map (\<lambda>x. if P x then 1 else 0) t) = length (filter P t)"
  by (induction t) simp_all

lemma filter_own_key:
  "distinct (map key xs) \<Longrightarrow> x \<in> set xs \<Longrightarrow> filter (\<lambda>y. key y = key x) xs = [x]"
  by (induction xs) (auto simp: filter_empty_conv rev_image_eqI)

definition holding_weight :: "column \<Rightarrow> Outputs \<times> OutputAddresses \<Rightarrow> nat" where
  "holding_weight c h = (case c of TotalAmount \<Rightarrow> unat (out_Amount (fst h)) | UtxoCount \<Rightarrow> 1)"

lemma selectBalances_holding:
  assumes "db_ok d" and "h \<in> set (holdings d)"
  shows "selectBalances (fst (holding_id h)) (snd (holding_id h)) d =
    [\<lparr>aba_ID = [], aba_ChainID = out_ChainID (fst h), aba_AssetID = out_AssetID (fst h), aba_Address = oad_Address (snd h),
      aba_TotalAmount = unat (out_Amount (fst h)), aba_UtxoCount = 0, aba_UpdatedAt = 0\<rparr>]"
proof -
  have "[((out_ChainID o1, oad_Address a, out_AssetID o1), unat (out_Amount o1)).
          o1 \<leftarrow> os, a \<leftarrow> as, out_ID o1 = oad_OutputID a \<and> out_ID o1 = i \<and> oad_Address a = j] =
      map (\<lambda>h. (holding_key h, unat (out_Amount (fst h))))
        (filter (\<lambda>h. holding_id h = (i, j)) [(o1, a). o1 \<leftarrow> os, a \<leftarrow> filter (\<lambda>a. out_ID o1 = oad_OutputID a) as])" for os as i j
  proof (induction os)
    case (Cons x os)
    have "[((out_ChainID x, oad_Address a, out_AssetID x), unat (out_Amount x)).
          a \<leftarrow> as, out_ID x = oad_OutputID a \<and> out_ID x = i \<and> oad_Address a = j] =
        map (\<lambda>h. (holding_key h, unat (out_Amount (fst h))))
          (filter (\<lambda>h. holding_id h = (i, j)) (map (Pair x) (filter (\<lambda>a. out_ID x = oad_OutputID a) as)))"
      by (induction as) (auto simp: holding_id_def holding_key_def)
    with Cons show ?case by simp
  qed simp
  then have "selectBalances i j d =
      map (\<lambda>((chain, addr, asset), total).
           \<lparr>aba_ID = [], aba_ChainID = chain, aba_AssetID = asset, aba_Address = addr,
            aba_TotalAmount = total, aba_UtxoCount = 0, aba_UpdatedAt = 0\<rparr>)
        (group_sum (map (\<lambda>h. (holding_key h, unat (out_Amount (fst h)))) (filter (\<lambda>h. holding_id h = (i, j)) (holdings d))))"
    for i j unfolding selectBalances_def holdings_def by simp
  then show ?thesis
    using filter_own_key [OF distinct_holdings [OF assms(1)] assms(2)] by (simp add: holding_key_def)
qed

lemma recorded_holdings:
  assumes "books_agree L d" and "settled L d"
  shows "recorded_balance c ty d i =
    sum_list (map (\<lambda>h. if key_id L (holding_key h) = i then holding_weight c h else 0) (to_book ty d))"
proof -
  have ok: "db_ok d" using assms(1) by (auto simp: books_agree_def queue_ok_def)
  let ?S = "\<lambda>(out, addr). sum_list (map (\<lambda>b. credit L c b i) (selectBalances out addr d))"
  have "recorded_balance c ty d i =
      sum_list (map (\<lambda>r. if oaa_Processed r = 0 then 0 else output_share L c d r i) (outTable ty d))"
    using assms(1) by (auto simp: books_agree_def balanced_def)
  also have "\<dots> = sum_list (map ?S (booked ty d))"
    by (simp add: booked_def sum_list_unless output_share_def o_def)
  also have "\<dots> = sum_list (map ?S (map holding_id (to_book ty d)))"
  proof -
    have "distinct (map holding_id (to_book ty d))"
      using distinct_holdings [OF ok] by (auto simp: to_book_def distinct_map intro: inj_on_subset split: processType.split)
    moreover have "distinct (booked ty d)" "set (booked ty d) = set (map holding_id (to_book ty d))"
      using assms(2) by (cases ty; simp add: settled_def)+
    ultimately have "mset (booked ty d) = mset (map holding_id (to_book ty d))"
      by (subst set_eq_iff_mset_eq_distinct [symmetric])
    then have "mset (map ?S (booked ty d)) = mset (map ?S (map holding_id (to_book ty d)))"
      unfolding mset_map by (rule arg_cong)
    then show ?thesis by (metis sum_mset_sum_list)
  qed
  also have "\<dots> = sum_list (map (\<lambda>h. if key_id L (holding_key h) = i then holding_weight c h else 0) (to_book ty d))"
  proof -
    have "?S (holding_id h) = (if key_id L (holding_key h) = i then holding_weight c h else 0)"
      if "h \<in> set (to_book ty d)" for h
    proof -
      have "h \<in> set (holdings d)" using that by (cases ty) (auto simp: to_book_def)
      from selectBalances_holding [OF ok this] show ?thesis
        by (auto simp: case_prod_unfold credit_def balance_id_def AccumulateBalancesAmount_ComputeID_def Let_def
            key_id_def holding_key_def holding_weight_def split: column.split)
    qed
    then show ?thesis by (simp add: o_def cong: map_cong)
  qed
  finally show ?thesis .
qed

lemma recorded_txs:
  assumes "books_agree L d" and "settled L d"
  shows "recorded_count d i =
    card ((\<lambda>h. (holding_key h, out_TransactionID (fst h))) ` {h \<in> set (holdings d). key_id L (holding_key h) = i})"
proof -
  have "recorded_count d i = sum_list (map (\<lambda>(k, t). if key_id L k = i then 1 else 0) (booked_txs d))"
    using assms(1)
    by (simp add: books_agree_def balanced_def booked_txs_def sum_list_unless tx_share_def count_id_def o_def tx_key_def
        AccumulateBalancesTransactions_ComputeID_def Let_def key_id_def)
  also have "\<dots> = length (filter (\<lambda>(k, t). key_id L k = i) (booked_txs d))"
    by (simp add: sum_list_if_length case_prod_unfold)
  also have "\<dots> = card (set (filter (\<lambda>(k, t). key_id L k = i) (booked_txs d)))"
    by (rule distinct_card [symmetric]) (use assms(2) in \<open>simp add: settled_def\<close>)
  finally show ?thesis using assms(2) by (simp add: settled_def case_prod_unfold Compr_image_eq)
qed

lemma recorded_row:
  assumes "distinct (map key t)" and "x \<in> set t"
  shows "sum_list (map (\<lambda>r. if key r = key x then f r else 0) t) = (f x :: nat)"
proof -
  have "sum_list (map (\<lambda>r. if key r = key x then f r else 0) t) = sum_list (map f (filter (\<lambda>r. key r = key x) t))"
    by (induction t) simp_all
  with filter_own_key [OF assms] show ?thesis by simp
qed

section \<open>Both readers give the same figures\<close>

definition of_key :: "database \<Rightarrow> string \<times> string \<times> string \<Rightarrow> (Outputs \<times> OutputAddresses) list" where
  "of_key d k = filter (\<lambda>h. holding_key h = k) (holdings d)"

definition key_figures :: "database \<Rightarrow> string \<times> string \<times> string \<Rightarrow> AddressRow" where
  "key_figures d k =
     (let all = of_key d k; spent = filter (\<lambda>h. redeemed d (fst h)) all; unspent = filter (\<lambda>h. \<not> redeemed d (fst h)) all;
          amounts = (\<lambda>hs. int (sum_list (map (\<lambda>h. unat (out_Amount (fst h))) hs)))
      in case k of (chain, addr, asset) \<Rightarrow>
        \<lparr>ar_ChainID = chain, ar_Address = addr, ar_AssetID = asset,
         ar_TransactionCount = Some (card (set (map (\<lambda>h. out_TransactionID (fst h)) all))),
         ar_TotalReceived = amounts all, ar_TotalSent = amounts spent, ar_Balance = amounts unspent,
         ar_UTXOCount = int (length unspent)\<rparr>)"

lemma address_order_figures [simp]: "address_order (key_figures d k) = k"
  by (simp add: address_order_def key_figures_def Let_def split: prod.split)

lemma sum_list_split:
  "sum_list (map f (filter P xs)) + sum_list (map f (filter (\<lambda>x. \<not> P x) xs)) = sum_list (map f xs)" for f :: "'x \<Rightarrow> nat"
  by (induction xs) simp_all

lemma sum_list_when:
  "sum_list (map (\<lambda>x. if P x then f x else 0) xs) = sum_list (map f (filter P xs))" for f :: "'x \<Rightarrow> nat"
  by (induction xs) simp_all

lemma filter_swap: "filter P (filter Q xs) = filter Q (filter P xs)"
  by (induction xs) simp_all

lemma holding_weight_count [simp]: "sum_list (map (holding_weight UtxoCount) hs) = length hs"
  by (induction hs) (simp_all add: holding_weight_def)

text \<open>The ids of the keys that occur are told apart.\<close>

definition ids_differ :: "nodelib \<Rightarrow> database \<Rightarrow> bool" where
  "ids_differ L d \<longleftrightarrow>
     inj_on (key_id L) (holding_key ` set (holdings d) \<union> balance_key ` set (accumulate_balances_received d))"

lemma to_book_key:
  assumes "ids_differ L d" and "k \<in> holding_key ` set (holdings d) \<union> balance_key ` set (accumulate_balances_received d)"
  shows "filter (\<lambda>h. key_id L (holding_key h) = key_id L k) (to_book ty d) =
    filter (\<lambda>h. ty = processTypeOut \<or> redeemed d (fst h)) (of_key d k)"
proof -
  have "filter (\<lambda>h. key_id L (holding_key h) = key_id L k) (holdings d) = of_key d k"
    using assms unfolding of_key_def ids_differ_def by (intro filter_cong) (auto simp: inj_on_eq_iff)
  then show ?thesis
    using filter_swap [of "\<lambda>h. key_id L (holding_key h) = key_id L k" "\<lambda>h. redeemed d (fst h)" "holdings d"]
    by (cases ty) (simp_all add: to_book_def del: filter_filter)
qed

lemma recorded_key:
  assumes "books_agree L d" "settled L d" "ids_differ L d"
    and "k \<in> holding_key ` set (holdings d) \<union> balance_key ` set (accumulate_balances_received d)"
  shows "recorded_balance c ty d (key_id L k) =
    sum_list (map (holding_weight c) (filter (\<lambda>h. ty = processTypeOut \<or> redeemed d (fst h)) (of_key d k)))"
  unfolding recorded_holdings [OF assms(1,2)] sum_list_when to_book_key [OF assms(3,4)] ..

lemma balance_keys:
  assumes "books_agree L d" "settled L d" "ids_differ L d"
  shows "balance_key ` set (accumulate_balances_received d) = holding_key ` set (holdings d)"
proof -
  have ok: "db_ok d" using assms(1) by (auto simp: books_agree_def queue_ok_def)
  have one: "recorded_balance UtxoCount processTypeOut d (key_id L k) = length (of_key d k)"
    if "k \<in> holding_key ` set (holdings d) \<union> balance_key ` set (accumulate_balances_received d)" for k
    using recorded_key [OF assms that, of UtxoCount processTypeOut] by simp
  have row: "recorded_balance UtxoCount processTypeOut d (aba_ID b) = aba_UtxoCount b"
    if "b \<in> set (accumulate_balances_received d)" for b
    using recorded_row [of aba_ID "accumulate_balances_received d" b "col UtxoCount"] balanceTable_distinct [OF ok, of processTypeOut] that
    by (simp add: recorded_balance_def balanceTable_def col_def)
  show ?thesis
  proof (intro equalityI subsetI)
    fix k assume "k \<in> balance_key ` set (accumulate_balances_received d)"
    then obtain b where b: "b \<in> set (accumulate_balances_received d)" "k = balance_key b" by blast
    then have "aba_UtxoCount b > 0" "aba_ID b = key_id L k" using assms(2) by (auto simp: settled_def)
    with one [of k] row [OF b(1)] b have "of_key d k \<noteq> []" by auto
    then show "k \<in> holding_key ` set (holdings d)" by (auto simp: of_key_def filter_empty_conv)
  next
    fix k assume k: "k \<in> holding_key ` set (holdings d)"
    then have "of_key d k \<noteq> []" by (auto simp: of_key_def filter_empty_conv)
    with one [of k] k have "recorded_balance UtxoCount processTypeOut d (key_id L k) \<noteq> 0" by simp
    then obtain b where b: "b \<in> set (accumulate_balances_received d)" "aba_ID b = key_id L k"
      unfolding recorded_balance_def balanceTable_def by (auto split: if_splits)
    then have "key_id L (balance_key b) = key_id L k" using assms(2) by (auto simp: settled_def)
    with assms(3) k b have "balance_key b = k" unfolding ids_differ_def by (auto simp: inj_on_eq_iff)
    with b show "k \<in> balance_key ` set (accumulate_balances_received d)" by blast
  qed
qed

lemma balance_rows_unique:
  assumes "db_ok d"
  shows "balance_rows d = map (\<lambda>b. ((b, find (\<lambda>s. aba_ID b = aba_ID s) (accumulate_balances_sent d)),
      find (\<lambda>t. aba_ID b = abt_ID t) (accumulate_balances_transactions d))) (accumulate_balances_received d)"
proof -
  have sent: "distinct (map aba_ID (accumulate_balances_sent d))"
    using balanceTable_distinct [OF assms, of processTypeIn] by (simp add: balanceTable_def)
  have "left_join (\<lambda>r s. aba_ID r = aba_ID s) (accumulate_balances_received d) (accumulate_balances_sent d) =
      map (\<lambda>b. (b, find (\<lambda>s. aba_ID b = aba_ID s) (accumulate_balances_sent d))) (accumulate_balances_received d)"
    by (rule left_join_unique) (rule distinct_key_matches [OF sent])
  moreover have "left_join (\<lambda>(r, s) t. aba_ID r = abt_ID t) xs (accumulate_balances_transactions d) =
      map (\<lambda>x. (x, find ((\<lambda>(r, s) t. aba_ID r = abt_ID t) x) (accumulate_balances_transactions d))) xs"
    for xs :: "(AccumulateBalancesAmount \<times> AccumulateBalancesAmount option) list"
    by (rule left_join_unique) (simp only: case_prod_unfold distinct_key_matches counts_distinct [OF assms])
  ultimately show ?thesis by (simp add: balance_rows_def o_def)
qed

text \<open>What a left join on the id finds is what the table records under that id.\<close>

lemma find_recorded:
  assumes "distinct (map key t)"
  shows "(case find (\<lambda>s. i = key s) t of None \<Rightarrow> 0 | Some s \<Rightarrow> f s) = sum_list (map (\<lambda>s. if key s = i then f s else (0::nat)) t)"
proof (cases "find (\<lambda>s. i = key s) t")
  case None
  then have "sum_list (map (\<lambda>s. if key s = i then f s else 0) t) = 0"
    by (auto simp: find_None_iff intro!: sum_list_0)
  with None show ?thesis by simp
next
  case (Some s)
  then have "s \<in> set t" "key s = i" by (auto simp: find_Some_iff)
  with recorded_row [OF assms, of s f] Some show ?thesis by simp
qed

lemma balance_figures_key:
  assumes "books_agree L d" "settled L d" "ids_differ L d" and b: "b \<in> set (accumulate_balances_received d)"
  shows "balance_figures ((b, find (\<lambda>s. aba_ID b = aba_ID s) (accumulate_balances_sent d)),
      find (\<lambda>t. aba_ID b = abt_ID t) (accumulate_balances_transactions d)) = key_figures d (balance_key b)"
proof -
  have ok: "db_ok d" using assms(1) by (auto simp: books_agree_def queue_ok_def)
  define k where "k = balance_key b"
  have k: "k \<in> holding_key ` set (holdings d) \<union> balance_key ` set (accumulate_balances_received d)"
    using b by (simp add: k_def)
  have id: "aba_ID b = key_id L k" using assms(2) b by (auto simp: settled_def k_def)
  note rec = recorded_key [OF assms(1-3) k]
  let ?spent = "filter (\<lambda>h. redeemed d (fst h)) (of_key d k)" and ?unspent = "filter (\<lambda>h. \<not> redeemed d (fst h)) (of_key d k)"
  have received: "col c b = sum_list (map (holding_weight c) (of_key d k))" for c
    using recorded_row [of aba_ID "balanceTable processTypeOut d" b "col c"] balanceTable_distinct [OF ok, of processTypeOut] b rec [of c processTypeOut]
    by (simp add: recorded_balance_def balanceTable_def id)
  have sent: "(case find (\<lambda>s. aba_ID b = aba_ID s) (accumulate_balances_sent d) of None \<Rightarrow> 0 | Some s \<Rightarrow> col c s) =
      sum_list (map (holding_weight c) ?spent)" for c
    using find_recorded [OF balanceTable_distinct [OF ok], where f = "col c", of "aba_ID b" processTypeIn] rec [of c processTypeIn]
    by (simp add: recorded_balance_def balanceTable_def id)
  have "k \<in> holding_key ` set (holdings d)"
    unfolding k_def balance_keys [OF assms(1-3), symmetric] using b by (rule imageI)
  then have "of_key d k \<noteq> []" by (auto simp: of_key_def filter_empty_conv)
  then have pos: "card (set (map (\<lambda>h. out_TransactionID (fst h)) (of_key d k))) > 0" by (simp add: card_gt_0_iff)
  have "{h \<in> set (holdings d). key_id L (holding_key h) = key_id L k} = set (of_key d k)"
    using assms(3) k unfolding ids_differ_def of_key_def set_filter by (intro Collect_cong) (auto simp: inj_on_eq_iff)
  moreover have "(\<lambda>h. (holding_key h, out_TransactionID (fst h))) ` set (of_key d k) =
      Pair k ` set (map (\<lambda>h. out_TransactionID (fst h)) (of_key d k))"
    unfolding set_map image_image by (rule image_cong) (auto simp: of_key_def)
  ultimately have "recorded_count d (key_id L k) = card (set (map (\<lambda>h. out_TransactionID (fst h)) (of_key d k)))"
    unfolding recorded_txs [OF assms(1,2)] by (simp add: card_image inj_on_def)
  then have "(case find (\<lambda>t. aba_ID b = abt_ID t) (accumulate_balances_transactions d) of None \<Rightarrow> 0 | Some t \<Rightarrow> abt_TransactionCount t) =
      card (set (map (\<lambda>h. out_TransactionID (fst h)) (of_key d k)))"
    using find_recorded [OF counts_distinct [OF ok], where f = abt_TransactionCount, of "aba_ID b"]
    by (simp add: recorded_count_def id)
  with pos have txs: "map_option abt_TransactionCount (find (\<lambda>t. aba_ID b = abt_ID t) (accumulate_balances_transactions d)) =
      Some (card (set (map (\<lambda>h. out_TransactionID (fst h)) (of_key d k))))"
    by (auto split: option.splits)
  have amount: "holding_weight TotalAmount = (\<lambda>h. unat (out_Amount (fst h)))" by (simp add: fun_eq_iff holding_weight_def)
  have cols: "col TotalAmount = aba_TotalAmount" "col UtxoCount = aba_UtxoCount" by (simp_all add: fun_eq_iff col_def)
  have total: "int (sum_list (map f (of_key d k))) - int (sum_list (map f ?spent)) = int (sum_list (map f ?unspent))"
    for f :: "Outputs \<times> OutputAddresses \<Rightarrow> nat"
    using sum_list_split [of f "\<lambda>h. redeemed d (fst h)" "of_key d k"] by linarith
  have count: "int (length (of_key d k)) - int (length ?spent) = int (length ?unspent)"
    using total [of "\<lambda>_. 1"] by (simp add: sum_list_triv)
  show ?thesis
    unfolding k_def [symmetric] balance_figures_def key_figures_def Let_def case_prod_conv txs
    using received [of TotalAmount, unfolded cols] received [of UtxoCount, unfolded cols]
      sent [of TotalAmount, unfolded cols] sent [of UtxoCount, unfolded cols] total [of "holding_weight TotalAmount"] count
    by (simp add: k_def balance_key_def amount del: filter_filter)
qed

text \<open>The rows that a request without a page asks for.\<close>

definition wanted :: "nodelib \<Rightarrow> ListAddressesParams \<Rightarrow> string \<times> string \<times> string \<Rightarrow> bool" where
  "wanted L p k = (case k of (chain, addr, asset) \<Rightarrow>
     (ad_ChainIDs p = [] \<or> chain \<in> set (ad_ChainIDs p)) \<and>
     (case ad_Address p of None \<Rightarrow> True | Some a \<Rightarrow> addr = ShortID_String L a))"

definition unpaged :: "ListParams \<Rightarrow> bool" where
  "unpaged p \<longleftrightarrow> lp_ID p = None \<and> lp_Query p = [] \<and> lp_Limit p = 0 \<and> lp_Offset p = 0"

lemma accumulated_select:
  assumes "unpaged (ad_ListParams p)"
  shows "select_rows balance_columns (ListAddressesParams_Apply L p blank_select True) rows =
    Inr (filter (\<lambda>x. wanted L p (address_order (balance_figures x))) rows)"
  using assms
  by (auto simp: unpaged_def select_rows_def ListAddressesParams_Apply_def ApplyPk_def Let_def blank_select_def page_def
      Where_def wanted_def balance_columns_def address_order_def balance_figures_def
      split: option.splits intro!: filter_cong)

lemma plain_select:
  assumes "unpaged (ad_ListParams p)"
  shows "select_rows ua_columns (ListAddressesParams_Apply L p blank_select False) rows =
    Inr (filter (\<lambda>(c, a). (ad_ChainIDs p = [] \<or> c \<in> set (ad_ChainIDs p)) \<and>
      (case ad_Address p of None \<Rightarrow> True | Some i \<Rightarrow> a = Some (ShortID_String L i))) rows)"
  using assms
  by (auto simp: unpaged_def select_rows_def ListAddressesParams_Apply_def ApplyPk_def Let_def blank_select_def page_def
      Where_def ua_columns_def split: option.splits intro!: filter_cong)

lemma set_ua_rows:
  "(c, Some s) \<in> set (ua_rows d) \<longleftrightarrow> (\<exists>h \<in> set (holdings d). out_ChainID (fst h) = c \<and> oad_Address (snd h) = s)"
proof -
  have "(o1, Some a) \<in> set (outputs_with_addresses d) \<longleftrightarrow> (o1, a) \<in> set (holdings d)" for o1 a
  proof -
    have "(o1, Some a) \<in> set (outputs_with_addresses d) \<longleftrightarrow>
        (o1, Some a) \<in> set (filter (\<lambda>x. snd x \<noteq> None) (outputs_with_addresses d))" by simp
    then show ?thesis unfolding outputs_with_addresses_def left_join_matches by (auto simp: set_holdings)
  qed
  moreover have "(c, Some s) \<in> set (ua_rows d) \<longleftrightarrow>
      (\<exists>o1 a. (o1, Some a) \<in> set (outputs_with_addresses d) \<and> out_ChainID o1 = c \<and> oad_Address a = s)"
    by (auto simp: ua_rows_def image_iff case_prod_unfold eq_commute [of "Some s"] intro: bexI [rotated]) blast
  ultimately show ?thesis by (simp add: Bex_def)
qed

lemma holding_group:
  "group_figures k (map (\<lambda>(o1, a). ((o1, Some a), find (\<lambda>r. out_ID o1 = red_ID r) (avm_outputs_redeeming d))) (of_key d k)) =
    key_figures d k"
proof -
  let ?row = "\<lambda>(o1, a). ((o1, Some a), find (\<lambda>r. out_ID o1 = red_ID r) (avm_outputs_redeeming d))"
  have rows: "row_tx (?row h) = out_TransactionID (fst h)" "row_amount (?row h) = unat (out_Amount (fst h))"
    "row_spent (?row h) \<longleftrightarrow> redeemed d (fst h)" for h
    by (simp_all add: case_prod_unfold row_tx_def row_amount_def row_spent_redeemed)
  show ?thesis
    unfolding group_figures_def key_figures_def Let_def map_map o_def rows sum_list_when
    by (simp add: sum_list_triv length_remdups_card_conv split: prod.split)
qed

lemma accumulated_figures:
  assumes "books_agree L d" "settled L d" "ids_differ L d" "unpaged (ad_ListParams p)"
  shows "accumulated_rows L p d = Inr (map (key_figures d) (sorted_list_of_set {k \<in> holding_key ` set (holdings d). wanted L p k}))"
proof -
  have ok: "db_ok d" using assms(1) by (auto simp: books_agree_def queue_ok_def)
  define rows where "rows = map balance_figures (filter (\<lambda>x. wanted L p (address_order (balance_figures x)))
    (sort_key (\<lambda>x. address_order (balance_figures x)) (balance_rows d)))"
  have "map (\<lambda>x. address_order (balance_figures x)) (balance_rows d) = map balance_key (accumulate_balances_received d)"
    unfolding balance_rows_unique [OF ok] map_map o_def
    by (rule map_cong [OF refl]) (simp add: balance_figures_key [OF assms(1-3)])
  moreover have "distinct (map balance_key (accumulate_balances_received d))"
  proof -
    have "map aba_ID (accumulate_balances_received d) = map (key_id L) (map balance_key (accumulate_balances_received d))"
      using assms(2) by (auto simp: settled_def)
    with balanceTable_distinct [OF ok, of processTypeOut] show ?thesis
      by (simp add: balanceTable_def) (metis distinct_map map_map)
  qed
  ultimately have keys: "distinct (map (\<lambda>x. address_order (balance_figures x)) (balance_rows d))"
    "set (map (\<lambda>x. address_order (balance_figures x)) (balance_rows d)) = holding_key ` set (holdings d)"
    using balance_keys [OF assms(1-3)] by simp_all
  let ?ks = "map address_order rows"
  have "sorted ?ks" "distinct ?ks" "set ?ks = {k \<in> holding_key ` set (holdings d). wanted L p k}"
    using keys(1) unfolding rows_def keys(2) [symmetric]
    by (auto simp: o_def sorted_filter distinct_map image_iff intro: inj_on_subset)
  then have "?ks = sorted_list_of_set {k \<in> holding_key ` set (holdings d). wanted L p k}"
    by (metis sorted_list_of_set.idem_if_sorted_distinct)
  moreover have "rows = map (key_figures d) ?ks"
  proof -
    have "x = key_figures d (address_order x)" if "x \<in> set rows" for x
      using that unfolding rows_def balance_rows_unique [OF ok]
      by (auto simp: balance_figures_key [OF assms(1-3)])
    then show ?thesis by (simp add: map_idI)
  qed
  ultimately show ?thesis by (simp add: accumulated_rows_def accumulated_select [OF assms(4)] rows_def [symmetric])
qed

lemma plain_figures:
  assumes "db_ok d" "unpaged (ad_ListParams p)"
  shows "plain_rows L p d = Inr (map (key_figures d) (sorted_list_of_set {k \<in> holding_key ` set (holdings d). wanted L p k}))"
proof -
  let ?row = "\<lambda>(o1, a). ((o1, Some a), find (\<lambda>r. out_ID o1 = red_ID r) (avm_outputs_redeeming d))"
  let ?ua = "filter (\<lambda>(c, a). (ad_ChainIDs p = [] \<or> c \<in> set (ad_ChainIDs p)) \<and>
      (case ad_Address p of None \<Rightarrow> True | Some i \<Rightarrow> a = Some (ShortID_String L i))) (ua_rows d)"
  let ?in = "\<lambda>x. case row_key x of (chain, addr, asset) \<Rightarrow> addr \<noteq> None \<and> addr \<in> snd ` set ?ua \<and>
      (length (ad_ChainIDs p) \<noteq> 0 \<longrightarrow> chain \<in> set (ad_ChainIDs p))"
  have key: "row_key (?row h) = (case holding_key h of (c, a, s) \<Rightarrow> (c, Some a, s))" for h
    by (simp add: row_key_def holding_key_def case_prod_unfold)
  have kept: "?in (?row h) \<longleftrightarrow> wanted L p (holding_key h)" if "h \<in> set (holdings d)" for h
  proof -
    have "(out_ChainID (fst h), Some (oad_Address (snd h))) \<in> set (ua_rows d)"
      unfolding set_ua_rows using that by blast
    then show ?thesis unfolding key
      by (auto simp: wanted_def holding_key_def image_iff split: option.splits)
  qed
  have rows: "filter ?in (ledger_rows d) = map ?row (filter (\<lambda>h. wanted L p (holding_key h)) (holdings d))"
  proof -
    have "filter ?in (ledger_rows d) = filter ?in (filter (\<lambda>x. snd (fst x) \<noteq> None) (ledger_rows d))"
      unfolding filter_filter by (rule filter_cong) (auto simp: row_key_def)
    also have "\<dots> = map ?row (filter (\<lambda>h. ?in (?row h)) (holdings d))"
      unfolding holdings_ledger [OF assms(1)] filter_map o_def ..
    finally show ?thesis using kept by (simp cong: filter_cong)
  qed
  let ?rows = "map ?row (filter (\<lambda>h. wanted L p (holding_key h)) (holdings d))"
  define keys where "keys = remdups (map holding_key (filter (\<lambda>h. wanted L p (holding_key h)) (holdings d)))"
  have keys: "remdups (map (\<lambda>x. case row_key x of (chain, addr, asset) \<Rightarrow> (chain, the addr, asset)) ?rows) = keys"
    unfolding keys_def map_map o_def key by (simp add: case_prod_unfold)
  have "(case k of (chain, addr, asset) \<Rightarrow>
      group_figures (chain, addr, asset) (filter (\<lambda>x. row_key x = (chain, Some addr, asset)) ?rows)) = key_figures d k"
    if "k \<in> set keys" for k
  proof -
    have "filter (\<lambda>x. row_key x = (case k of (c, a, s) \<Rightarrow> (c, Some a, s))) ?rows = map ?row (of_key d k)"
      using that unfolding of_key_def filter_map filter_filter o_def key keys_def
      by (intro arg_cong [where f = "map ?row"] filter_cong) (auto split: prod.splits)
    with holding_group [of k d] show ?thesis by (simp add: case_prod_unfold)
  qed
  then have "plain_rows L p d = Inr (sort_key address_order (map (key_figures d) keys))"
    unfolding plain_rows_def plain_select [OF assms(2)] sum.case Let_def rows keys by (simp cong: map_cong)
  moreover have "sort_key address_order (map (key_figures d) keys) = map (key_figures d) (map address_order (sort_key address_order (map (key_figures d) keys)))"
    by (auto intro!: map_idI [symmetric])
  moreover have "map address_order (sort_key address_order (map (key_figures d) keys)) = sorted_list_of_set (set keys)"
  proof -
    let ?ks = "map address_order (sort_key address_order (map (key_figures d) keys))"
    have "sorted ?ks" "set ?ks = set keys" by (simp_all add: image_image)
    moreover have "distinct ?ks"
      by (auto simp: distinct_map keys_def inj_on_def intro: arg_cong [where f = address_order, of "key_figures d _" "key_figures d _", simplified])
    ultimately show ?thesis by (metis sorted_list_of_set.idem_if_sorted_distinct)
  qed
  moreover have "set keys = {k \<in> holding_key ` set (holdings d). wanted L p k}" by (auto simp: keys_def)
  ultimately show ?thesis by simp
qed

section \<open>Properties\<close>


text \<open>Alice has received 30 and 12 and spent the 12.\<close>

definition paid_row :: "string \<Rightarrow> OutputAddressAccumulate" where
  "paid_row i = (sample_row i)\<lparr>oaa_Processed := 1\<rparr>"

definition paid_tx :: "string \<Rightarrow> OutputTxsAccumulate" where
  "paid_tx i = \<lparr>ota_ID = i, ota_ChainID = ''X'', ota_AssetID = ''DJTX'', ota_Address = ''alice'',
     ota_TransactionID = ''t'' @ i, ota_Processed = 1, ota_CreatedAt = 0\<rparr>"

definition alice_balance :: "nat \<Rightarrow> nat \<Rightarrow> AccumulateBalancesAmount" where
  "alice_balance amount n = \<lparr>aba_ID = ''X:DJTX:alice'', aba_ChainID = ''X'', aba_AssetID = ''DJTX'', aba_Address = ''alice'',
     aba_TotalAmount = amount, aba_UtxoCount = n, aba_UpdatedAt = 0\<rparr>"

definition settled_db :: database where
  "settled_db = sample_db\<lparr>
     avm_outputs_redeeming := [\<lparr>red_ID = ''2'', red_RedeemedAt = 0, red_RedeemingTransactionID = ''t3'', red_Amount = 12,
       red_OutputIndex = 0, red_Intx = ''t2'', red_AssetID = ''DJTX'', red_ChainID = ''X'', red_CreatedAt = 0\<rparr>],
     output_addresses_accumulate_out := [paid_row ''1'', paid_row ''2''],
     output_addresses_accumulate_in := [sample_row ''1'', paid_row ''2''],
     output_txs_accumulate := [paid_tx ''1'', paid_tx ''2''],
     accumulate_balances_received := [alice_balance 42 2],
     accumulate_balances_sent := [alice_balance 12 1],
     accumulate_balances_transactions := [\<lparr>abt_ID = ''X:DJTX:alice'', abt_ChainID = ''X'', abt_AssetID = ''DJTX'',
       abt_Address = ''alice'', abt_TransactionCount = 2, abt_UpdatedAt = 0\<rparr>]\<rparr>"

lemmas settled_db_defs = settled_db_def sample_db_def sample_output_def sample_address_def sample_row_def paid_row_def
  paid_tx_def alice_balance_def empty_db_def

lemma settled_db_books: "books_agree plain_lib settled_db"
proof -
  have "queue_ok ty settled_db" for ty
    by (cases ty) (simp, code_simp)+
  moreover have "balances_agree plain_lib ty c settled_db" for ty c
    by (cases ty; cases c) (auto simp: balanced_def settled_db_defs recorded_balance_def balanceTable_def outTable_def
        output_share_def selectBalances_def credit_def balance_id_def AccumulateBalancesAmount_ComputeID_def plain_lib_def col_def)
  moreover have "balanced output_txs_accumulate (\<lambda>r. ota_Processed r = 0) recorded_count (tx_share plain_lib) settled_db"
    by (auto simp: balanced_def settled_db_defs recorded_count_def tx_share_def count_id_def
        AccumulateBalancesTransactions_ComputeID_def plain_lib_def)
  ultimately show ?thesis by (simp add: books_agree_def)
qed

lemma settled_db_settled: "settled plain_lib settled_db"
  by (simp add: settled_def settled_db_defs booked_def booked_txs_def to_book_def holdings_def redeemed_def outTable_def
      holding_id_def holding_key_def tx_key_def key_id_def balance_key_def plain_lib_def del: set_filter)

lemma settled_db_ids: "ids_differ plain_lib settled_db"
  by (simp add: ids_differ_def settled_db_defs holdings_def holding_key_def balance_key_def)

definition all_addresses :: ListAddressesParams where
  "all_addresses = \<lparr>ad_ListParams = \<lparr>lp_ID = None, lp_Query = [], lp_Limit = 0, lp_Offset = 0, lp_DisableCounting = True,
     lp_StartTimeProvided = False, lp_EndTimeProvided = False, lp_StartTime = 0, lp_EndTime = 0\<rparr>,
     ad_ChainIDs = [''X''], ad_Address = None\<rparr>"


section \<open>Amounts as decimal strings\<close>

lemma digits_value_dec_nat [simp]: "digits_value (dec_nat n) = n"
proof -
  have "foldl (\<lambda>n c. 10 * n + (of_char c - 48)) 0 (rev s) = val_rev s" for s :: string
    by (induction s) simp_all
  then show ?thesis by (simp add: digits_value_def dec_nat_def)
qed

lemma read_decimal_dec_int [simp]: "read_decimal (dec_int i) = Some i"
proof -
  have digits: "list_all is_digit (dec_nat n)" for n
    by (auto simp: list_all_iff is_digit_def dest: dec_nat_digit)
  have ne: "dec_nat n \<noteq> []" for n
    by (subst dec_nat_def, subst digits_rev.simps) simp
  have "\<not> HasPrefix (dec_nat n) ''-''" "\<not> HasPrefix (dec_nat n) ''+''" for n
    using digits [of n] ne [of n] by (cases "dec_nat n"; auto simp: HasPrefix_def is_digit_def)+
  then show ?thesis
    using digits ne by (auto simp: read_decimal_def dec_int_def Let_def HasPrefix_def)
qed

text \<open>An address on several chains.  \<^verbatim>\<open>GetAddress\<close> merges the assets of the chains with
  \<^verbatim>\<open>addAssetInfoMap\<close>: an asset that only one chain has is kept as it is; of an asset that both have the
  balance, the amounts received and sent and the number of transactions are the sums, exact at any size;
  but the number of outputs is twice that of the first chain, whatever the second one holds.\<close>

theorem addAssetInfoMap_merges:
  assumes "assets k = Some \<lparr>asi_AssetID = k, asi_TransactionCount = n1, asi_UTXOCount = u1,
      asi_Balance = dec_int b1, asi_TotalReceived = dec_int r1, asi_TotalSent = dec_int s1\<rparr>"
    and "assets2 k = Some \<lparr>asi_AssetID = k, asi_TransactionCount = n2, asi_UTXOCount = u2,
      asi_Balance = dec_int b2, asi_TotalReceived = dec_int r2, asi_TotalSent = dec_int s2\<rparr>"
    and "assets i = None" and "assets2 j = None"
  shows "addAssetInfoMap assets assets2 k = Some \<lparr>asi_AssetID = k, asi_TransactionCount = n1 + n2, asi_UTXOCount = 2 * u1,
      asi_Balance = dec_int (b1 + b2), asi_TotalReceived = dec_int (r1 + r2), asi_TotalSent = dec_int (s1 + s2)\<rparr> \<and>
    addAssetInfoMap assets assets2 i = assets2 i \<and> addAssetInfoMap assets assets2 j = assets j"
  using assms by (simp add: addAssetInfoMap_def addAssetInfos_def addStringsFunc_def split: option.split)

theorem addAssetInfoMap_merges_witness:
  "map_option asi_Balance (addAssetInfoMap
     [''DJTX'' \<mapsto> \<lparr>asi_AssetID = ''DJTX'', asi_TransactionCount = 1, asi_UTXOCount = 1, asi_Balance = dec_int 5,
        asi_TotalReceived = dec_int 5, asi_TotalSent = dec_int 0\<rparr>]
     [''DJTX'' \<mapsto> \<lparr>asi_AssetID = ''DJTX'', asi_TransactionCount = 4, asi_UTXOCount = 3, asi_Balance = dec_int 7,
        asi_TotalReceived = dec_int 9, asi_TotalSent = dec_int 2\<rparr>] ''DJTX'') = Some ''12''"
proof -
  have "dec_int 12 = ''12''" by code_simp
  with addAssetInfoMap_merges [of "[''DJTX'' \<mapsto> \<lparr>asi_AssetID = ''DJTX'', asi_TransactionCount = 1, asi_UTXOCount = 1,
      asi_Balance = dec_int 5, asi_TotalReceived = dec_int 5, asi_TotalSent = dec_int 0\<rparr>]" "''DJTX''" 1 1 5 5 0
      "[''DJTX'' \<mapsto> \<lparr>asi_AssetID = ''DJTX'', asi_TransactionCount = 4, asi_UTXOCount = 3, asi_Balance = dec_int 7,
        asi_TotalReceived = dec_int 9, asi_TotalSent = dec_int 2\<rparr>]" 4 3 7 9 2 "''x''" "''y''"]
  show ?thesis by simp
qed

end
