(* ===== verification/Djtx_Lists.thy ===== *)
theory Djtx_Lists
  imports Djtx_Reader Models_Types
begin

text \<open>
  The remaining readers of \<^verbatim>\<open>src/services/indexes/djtx\<close>: outputs, assets, blocks, the chains of
  addresses, the raw data of transactions and blocks, and the search.

  The theorems say that an output is found under its id with all its addresses, what the search returns
  and in which order, and how the flags of an asset follow from its outputs.
\<close>

section \<open>Outputs\<close>

record Output =
  op_ID :: string
  op_TransactionID :: string
  op_OutputIndex :: u64
  op_AssetID :: string
  op_OutputType :: u32
  op_Amount :: string
  op_Locktime :: u64
  op_Threshold :: u64
  op_CreatedAt :: gotime
  op_RedeemingTransactionID :: string
  op_GroupID :: u64
  op_Payload :: "bytes option"
  op_Frozen :: bool
  op_Addresses :: "string list"

type_synonym output_row = "(Outputs \<times> OutputsRedeeming option) \<times> OutputAddresses option"

definition output_columns :: "output_row columns" where
  "output_columns = \<lparr>str_col =
       [''avm_outputs.id'' \<mapsto> (\<lambda>((o1, r), a). Some (out_ID o1)),
        ''avm_outputs.chain_id'' \<mapsto> (\<lambda>((o1, r), a). Some (out_ChainID o1)),
        ''avm_outputs_redeeming.redeeming_transaction_id'' \<mapsto> (\<lambda>((o1, r), a). map_option red_RedeemingTransactionID r),
        ''avm_output_addresses.address'' \<mapsto> (\<lambda>((o1, r), a). map_option oad_Address a)],
     time_col = [''avm_outputs.created_at'' \<mapsto> (\<lambda>((o1, r), a). out_CreatedAt o1)]\<rparr>"

text \<open>The tables of the select; the join that \<^verbatim>\<open>Apply\<close> adds for addresses repeats an output.\<close>

definition output_rows :: "SelectBuilder \<Rightarrow> database \<Rightarrow> output_row list" where
  "output_rows b d =
     (let rows = left_join (\<lambda>o1 r. out_ID o1 = red_ID r) (avm_outputs d) (avm_outputs_redeeming d)
      in if sb_joins b = [] then map (\<lambda>x. (x, None)) rows
         else left_join (\<lambda>(o1, r) a. out_ID o1 = oad_OutputID a) rows (avm_output_addresses d))"

definition load_output :: "output_row \<Rightarrow> Output" where
  "load_output x =
     (case x of ((o1, r), a) \<Rightarrow>
       \<lparr>op_ID = out_ID o1, op_TransactionID = out_TransactionID o1, op_OutputIndex = ucast (out_OutputIndex o1),
        op_AssetID = out_AssetID o1, op_OutputType = out_OutputType o1, op_Amount = dec_nat (unat (out_Amount o1)),
        op_Locktime = out_Locktime o1, op_Threshold = ucast (out_Threshold o1), op_CreatedAt = out_CreatedAt o1,
        op_RedeemingTransactionID = (case r of None \<Rightarrow> [] | Some r \<Rightarrow> red_RedeemingTransactionID r),
        op_GroupID = ucast (out_GroupID o1), op_Payload = out_Payload o1, op_Frozen = out_Frozen o1, op_Addresses = []\<rparr>)"

text \<open>\<^verbatim>\<open>outputMap\<close> keeps the last output of an id, which gets the addresses.\<close>

fun add_addresses :: "OutputAddresses list \<Rightarrow> Output list \<Rightarrow> Output list" where
  "add_addresses as [] = []"
| "add_addresses as (x # xs) =
     (if op_ID x \<in> op_ID ` set xs then x
      else x\<lparr>op_Addresses := op_Addresses x @ map oad_Address (filter (\<lambda>a. oad_OutputID a = op_ID x) as)\<rparr>)
     # add_addresses as xs"

definition ListOutputs :: "nodelib \<Rightarrow> ListOutputsParams \<Rightarrow> (database, u64 option \<times> Output list) go" where
  "ListOutputs L p =
     bind (query (\<lambda>d. let b = ListOutputsParams_Apply L p blank_select in select_rows output_columns b (output_rows b d))) (\<lambda>rows.
     let outputs = map load_output rows in
     if length outputs < 1 then ret (None, outputs)
     else
       bind (sql_load avm_output_addresses (\<lambda>a. oad_OutputID a \<in> op_ID ` set outputs) (\<lambda>a. a)) (\<lambda>as.
       let outputs = add_addresses as outputs; lp = lo_ListParams p in
       if lp_DisableCounting lp then ret (None, outputs)
       else if int (length outputs) \<ge> lp_Limit lp
       then bind (query (\<lambda>d. let b = ListOutputsParams_Apply L (p\<lparr>lo_ListParams := zero_params\<rparr>) blank_select
                            in select_rows output_columns b (output_rows b d)))
              (\<lambda>all. ret (Some (of_nat (length all)), outputs))
       else ret (Some (of_int (lp_Offset lp) + of_nat (length outputs)), outputs)))"

definition id_params :: "bytes \<Rightarrow> ListParams" where
  "id_params i = zero_params\<lparr>lp_ID := Some i, lp_DisableCounting := True\<rparr>"

definition GetOutput :: "nodelib \<Rightarrow> bytes \<Rightarrow> (database, Output option) go" where
  "GetOutput L i =
     bind (ListOutputs L \<lparr>lo_ListParams = id_params i, lo_ChainIDs = [], lo_Addresses = [], lo_Spent = None\<rparr>)
       (\<lambda>(_, outputs). ret (case outputs of [] \<Rightarrow> None | x # _ \<Rightarrow> Some x))"

section \<open>Assets\<close>

record Asset =
  as_ID :: string
  as_ChainID :: string
  as_Name :: string
  as_Symbol :: string
  as_Alias :: string
  as_CurrentSupply :: string
  as_CreatedAt :: gotime
  as_Denomination :: u8
  as_VariableCap :: u8
  as_Nft :: u8

definition asset_columns :: "Assets columns" where
  "asset_columns = \<lparr>str_col =
       [''avm_assets.id'' \<mapsto> (\<lambda>a. Some (ast_ID a)), ''avm_assets.alias'' \<mapsto> (\<lambda>a. Some (ast_Alias a)),
        ''avm_assets.name'' \<mapsto> (\<lambda>a. Some (ast_Name a)), ''avm_assets.symbol'' \<mapsto> (\<lambda>a. Some (ast_Symbol a))],
     time_col = Map.empty\<rparr>"

definition load_asset :: "Assets \<Rightarrow> Asset" where
  "load_asset a = \<lparr>as_ID = ast_ID a, as_ChainID = ast_ChainID a, as_Name = ast_Name a, as_Symbol = ast_Symbol a,
     as_Alias = ast_Alias a, as_CurrentSupply = dec_nat (unat (ast_CurrentSupply a)), as_CreatedAt = ast_CreatedAt a,
     as_Denomination = ast_Denomination a, as_VariableCap = 0, as_Nft = 0\<rparr>"

definition mintOutputs :: "u32 list" where
  "mintOutputs = [OutputTypesSECP2556K1Mint, OutputTypesNFTMint, OutputTypesNFTTransfer]"

text \<open>The loop over the rows fills two maps, of the assets that can be minted and of those that are tokens.\<close>

definition dress_step ::
  "(string \<rightharpoonup> u64) \<times> (string \<rightharpoonup> u64) \<Rightarrow> string \<times> u32 \<Rightarrow> (string \<rightharpoonup> u64) \<times> (string \<rightharpoonup> u64)" where
  "dress_step m row =
     (case m of (variableCap, nft) \<Rightarrow> case row of (asset, t) \<Rightarrow>
       if t = OutputTypesSECP2556K1Mint then (variableCap(asset \<mapsto> 1), nft)
       else if t = OutputTypesNFTMint then (variableCap(asset \<mapsto> 1), nft(asset \<mapsto> 1))
       else if t = OutputTypesNFTTransfer then (variableCap, nft(asset \<mapsto> 1))
       else m)"

definition dress_asset :: "(string \<rightharpoonup> u64) \<times> (string \<rightharpoonup> u64) \<Rightarrow> Asset \<Rightarrow> Asset" where
  "dress_asset m asset =
     (let flag = (\<lambda>f old. case f (as_ID asset) of None \<Rightarrow> old | Some n \<Rightarrow> if n \<noteq> 0 then 1 else old)
      in asset\<lparr>as_VariableCap := flag (fst m) (as_VariableCap asset), as_Nft := flag (snd m) (as_Nft asset)\<rparr>)"

definition dressAssets :: "Asset list \<Rightarrow> (database, Asset list) go" where
  "dressAssets assets =
     (if length assets = 0 then ret assets
      else
        bind (query (\<lambda>d. Inr (remdups (map (\<lambda>o1. (out_AssetID o1, out_OutputType o1))
               (filter (\<lambda>o1. out_OutputType o1 \<in> set mintOutputs \<and> out_AssetID o1 \<in> as_ID ` set assets) (avm_outputs d))))))
          (\<lambda>rows. ret (map (dress_asset (foldl dress_step (Map.empty, Map.empty) rows)) assets)))"

definition ListAssets :: "nodelib \<Rightarrow> ListAssetsParams \<Rightarrow> (database, u64 option \<times> Asset list) go" where
  "ListAssets L p =
     bind (query (\<lambda>d. select_rows asset_columns (ListAssetsParams_Apply L p blank_select) (avm_assets d))) (\<lambda>rows.
     bind (dressAssets (map load_asset rows)) (\<lambda>assets.
     let lp = la_ListParams p in
     if lp_DisableCounting lp then ret (None, assets)
     else if int (length assets) \<ge> lp_Limit lp
     then bind (query (\<lambda>d. select_rows asset_columns
                  (ListAssetsParams_Apply L (p\<lparr>la_ListParams := zero_params\<rparr>) blank_select) (avm_assets d)))
            (\<lambda>all. ret (Some (of_nat (length all)), assets))
     else ret (Some (of_int (lp_Offset lp) + of_nat (length assets)), assets)))"

definition GetAsset :: "parselib \<Rightarrow> nodelib \<Rightarrow> ListAssetsParams \<Rightarrow> string \<Rightarrow> (database, Asset option) go" where
  "GetAsset T L p idStrOrAlias =
     (let lp = (la_ListParams p)\<lparr>lp_DisableCounting := True\<rparr>;
          p1 = (case pl_FromString T idStrOrAlias of
                  Inr i \<Rightarrow> p\<lparr>la_ListParams := lp\<lparr>lp_ID := Some i\<rparr>\<rparr>
                | Inl _ \<Rightarrow> p\<lparr>la_ListParams := lp, la_Alias := idStrOrAlias\<rparr>)
      in bind (ListAssets L p1) (\<lambda>(_, assets). ret (case assets of [] \<Rightarrow> None | a # _ \<Rightarrow> Some a)))"

section \<open>Blocks\<close>

record Block =
  bl_ID :: string
  bl_ParentID :: string
  bl_ChainID :: string
  bl_Type :: u16
  bl_CreatedAt :: gotime

definition ListBlocks :: "nodelib \<Rightarrow> ListParams \<Rightarrow> (database, Block list) go" where
  "ListBlocks L p =
     bind (query (\<lambda>d. select_rows \<lparr>str_col = [''pvm_blocks.id'' \<mapsto> (\<lambda>b. Some (pb_ID b))], time_col = Map.empty\<rparr>
             (ListBlocksParams_Apply L p blank_select) (pvm_blocks d)))
       (\<lambda>rows. ret (map (\<lambda>b. \<lparr>bl_ID = pb_ID b, bl_ParentID = pb_ParentID b, bl_ChainID = pb_ChainID b,
                            bl_Type = pb_Type b, bl_CreatedAt = pb_CreatedAt b\<rparr>) rows))"

definition GetBlock :: "nodelib \<Rightarrow> bytes \<Rightarrow> (database, Block option) go" where
  "GetBlock L i =
     bind (ListBlocks L (zero_params\<lparr>lp_ID := Some i\<rparr>)) (\<lambda>blocks. ret (case blocks of [] \<Rightarrow> None | b # _ \<Rightarrow> Some b))"

section \<open>The chains of addresses\<close>

definition Address_MarshalString :: "parselib \<Rightarrow> nodelib \<Rightarrow> string \<Rightarrow> string \<Rightarrow> goerr + string" where
  "Address_MarshalString T L Bech32HRP addr = bind_err (pl_ShortFromString T addr) (FormatBech32 L Bech32HRP)"

definition AddressChains ::
  "parselib \<Rightarrow> nodelib \<Rightarrow> string \<Rightarrow> AddressChainsParams \<Rightarrow> (database, string \<rightharpoonup> string list) go" where
  "AddressChains T L Bech32HRP p =
     (if length (ac_Addresses p) = 0 then ret Map.empty
      else
        bind (query (\<lambda>d. select_rows
                 \<lparr>str_col = [''address_chain.address'' \<mapsto> (\<lambda>c. Some (adc_Address c))], time_col = Map.empty\<rparr>
                 (AddressChainsParams_Apply L p blank_select) (address_chain d))) (\<lambda>rows.
        loop (\<lambda>c resp. bind (lift_err (Address_MarshalString T L Bech32HRP (adc_Address c))) (\<lambda>a.
                ret (resp(a \<mapsto> (case resp a of None \<Rightarrow> [] | Some cs \<Rightarrow> cs) @ [adc_ChainID c])))) rows Map.empty))"

section \<open>Transactions as the search shows them\<close>

record Transaction =
  tn_ID :: string
  tn_ChainID :: string
  tn_Type :: string
  tn_Memo :: "bytes option"
  tn_CreatedAt :: gotime
  tn_Txfee :: u64
  tn_Genesis :: bool
  tn_Epoch :: u64
  tn_VertexID :: string
  tn_ValidatorNodeID :: string
  tn_ValidatorStart :: u64
  tn_ValidatorEnd :: u64
  tn_TxBlockID :: string

definition or_zero :: "('r \<Rightarrow> 'v::zero) \<Rightarrow> 'r option \<Rightarrow> 'v" where
  "or_zero f x = (case x of None \<Rightarrow> 0 | Some r \<Rightarrow> f r)"

definition or_blank :: "('r \<Rightarrow> string) \<Rightarrow> 'r option \<Rightarrow> string" where
  "or_blank f x = (case x of None \<Rightarrow> [] | Some r \<Rightarrow> f r)"

definition transactionQuery :: "database \<Rightarrow> Transaction list" where
  "transactionQuery d =
     map (\<lambda>(((t, e), v), b).
         \<lparr>tn_ID = tx_ID t, tn_ChainID = tx_ChainID t, tn_Type = tx_Type t, tn_Memo = tx_Memo t,
          tn_CreatedAt = tx_CreatedAt t, tn_Txfee = tx_Txfee t, tn_Genesis = tx_Genesis t,
          tn_Epoch = or_zero (\<lambda>e. ucast (ep_Epoch e)) e, tn_VertexID = or_blank ep_VertexID e,
          tn_ValidatorNodeID = or_blank tv_NodeID v, tn_ValidatorStart = or_zero tv_Start v,
          tn_ValidatorEnd = or_zero tv_End v, tn_TxBlockID = or_blank tb_TxBlockID b\<rparr>)
       (left_join (\<lambda>((t, e), v) b. tx_ID t = tb_ID b)
         (left_join (\<lambda>(t, e) v. tx_ID t = tv_ID v)
           (left_join (\<lambda>t e. tx_ID t = ep_ID e) (avm_transactions d) (transactions_epoch d))
           (transactions_validator d))
         (transactions_block d))"

section \<open>Search\<close>

text \<open>The height of a block and its hash; of an account, whether a transaction created it.\<close>

record CResult =
  cr_Number :: u64
  cr_Hash :: string

datatype SearchResult =
  ResultAddress AddressInfo
| ResultTransaction Transaction
| ResultAsset Asset
| ResultCBlock CResult
| ResultCTrans CResult
| ResultCAddress CResult

record SearchResults =
  sr_Count :: u64
  sr_Results :: "SearchResult list"

text \<open>The closure \<^verbatim>\<open>appendSR\<close> and the loop that stops when it returns false.\<close>

fun append_results :: "nat \<Rightarrow> SearchResult list \<Rightarrow> SearchResult list \<Rightarrow> SearchResult list" where
  "append_results n [] acc = acc"
| "append_results n (x # xs) acc = (if length acc > n then acc else append_results n xs (acc @ [x]))"

definition collateSearchResults ::
  "Asset list \<Rightarrow> AddressInfo list \<Rightarrow> Transaction list \<Rightarrow> CResult list \<Rightarrow> CResult list \<Rightarrow> CResult list \<Rightarrow> SearchResults" where
  "collateSearchResults assets addrs txs cblocks ctrans caddr =
     (let total = length assets + length addrs + length txs + length cblocks + length ctrans + length caddr;
          n = (if int total > PaginationMaxLimit then nat PaginationMaxLimit else total);
          r1 = append_results n (map ResultAddress addrs) [];
          r2 = append_results n (map ResultTransaction txs) r1;
          r3 = append_results n (map ResultAsset assets) r2;
          r4 = append_results n (map ResultCBlock cblocks) r3;
          r5 = append_results n (map ResultCTrans ctrans) r4;
          r6 = append_results n (map ResultCAddress caddr) r5
      in \<lparr>sr_Count = of_nat n, sr_Results = r6\<rparr>)"

definition searchCBlockHeight :: "u64 \<Rightarrow> (database, CResult list) go" where
  "searchCBlockHeight height =
     sql_load cvm_blocks (\<lambda>b. cb_Block b = dec_nat (unat height)) (\<lambda>b. \<lparr>cr_Number = height, cr_Hash = cb_Hash b\<rparr>)"

definition block_number :: "CvmBlocks \<Rightarrow> u64" where
  "block_number b = (case read_decimal (cb_Block b) of None \<Rightarrow> 0 | Some n \<Rightarrow> of_int n)"

definition searchCBlockHash :: "string \<Rightarrow> (database, CResult list) go" where
  "searchCBlockHash hash =
     sql_load cvm_blocks (\<lambda>b. cb_Hash b = hash) (\<lambda>b. \<lparr>cr_Number = block_number b, cr_Hash = cb_Hash b\<rparr>)"

definition searchCTransHash :: "string \<Rightarrow> (database, CResult list) go" where
  "searchCTransHash hash =
     sql_load cvm_transactions_txdata (\<lambda>t. ctr_Hash t = hash) (\<lambda>t. \<lparr>cr_Number = 0, cr_Hash = ctr_Hash t\<rparr>)"

definition searchCAddress :: "string \<Rightarrow> (database, CResult list) go" where
  "searchCAddress addr =
     sql_load cvm_accounts (\<lambda>a. cac_Address a = ToLower addr)
       (\<lambda>a. \<lparr>cr_Number = (if cac_CreationTx a \<noteq> None then 1 else 0), cr_Hash = cac_Address a\<rparr>)"

definition searchByID :: "nodelib \<Rightarrow> bytes \<Rightarrow> (database, SearchResults) go" where
  "searchByID L i =
     bind (query (\<lambda>d. Inr (take 1 (filter (\<lambda>t. tn_ID t = ID_String L i) (transactionQuery d))))) (\<lambda>txs.
     ret (if length txs > 0 then collateSearchResults [] [] txs [] [] [] else \<lparr>sr_Count = 0, sr_Results = []\<rparr>))"

definition searchByShortID ::
  "nodelib \<Rightarrow> goerr + u64 \<Rightarrow> (AddressInfo list \<Rightarrow> AddressInfo list) \<Rightarrow> bool \<Rightarrow> bytes \<Rightarrow> (database, SearchResults) go" where
  "searchByShortID L null order accumulateReader i =
     bind (ListAddresses L null order accumulateReader
             \<lparr>ad_ListParams = zero_params\<lparr>lp_DisableCounting := True\<rparr>, ad_ChainIDs = [], ad_Address = Some i\<rparr>) (\<lambda>(_, addrs).
     ret (if length addrs > 0 then collateSearchResults [] addrs [] [] [] [] else \<lparr>sr_Count = 0, sr_Results = []\<rparr>))"

text \<open>\<^verbatim>\<open>x, _ = f()\<close>: the error is dropped and the slice is nil.\<close>

definition drop_err :: "('d, 'a list) go \<Rightarrow> ('d, 'a list option) go" where
  "drop_err m w = (case m w of (Inl _, w1) \<Rightarrow> (Inr None, w1) | (Inr xs, w1) \<Rightarrow> (Inr (Some xs), w1))"

definition slice :: "'a list option \<Rightarrow> 'a list" where
  "slice x = (case x of None \<Rightarrow> [] | Some xs \<Rightarrow> xs)"

definition MinSearchQueryLength :: nat where
  "MinSearchQueryLength = 3"

definition ErrSearchQueryTooShort :: goerr where
  "ErrSearchQueryTooShort = ''search query too short''"

definition search_cblocks :: "string \<Rightarrow> (database, CResult list option) go" where
  "search_cblocks q =
     (case ParseInt 64 q of
        Inr n \<Rightarrow> if n > 0 then drop_err (searchCBlockHeight (of_int n)) else ret None
      | Inl _ \<Rightarrow> ret None)"

definition search_0x ::
  "string \<Rightarrow> CResult list option \<Rightarrow> (database, CResult list option \<times> CResult list option \<times> CResult list option) go" where
  "search_0x q cblocks =
     (if cblocks = None \<and> HasPrefix q ''0x''
      then if length q = 66
           then bind (drop_err (searchCBlockHash q)) (\<lambda>cb. bind (drop_err (searchCTransHash q)) (\<lambda>ct. ret (cb, ct, None)))
           else if length q = 42 then bind (drop_err (searchCAddress q)) (\<lambda>ca. ret (cblocks, None, ca))
           else ret (cblocks, None, None)
      else ret (cblocks, None, None))"

definition Search ::
  "parselib \<Rightarrow> nodelib \<Rightarrow> goerr + u64 \<Rightarrow> (AddressInfo list \<Rightarrow> AddressInfo list) \<Rightarrow> bool \<Rightarrow> ListParams
     \<Rightarrow> (database, SearchResults) go" where
  "Search T L null order accumulateReader lp0 =
     (let lp = lp0\<lparr>lp_DisableCounting := True\<rparr>; q = lp_Query lp in
      bind (search_cblocks q) (\<lambda>cblocks0.
      if length q < MinSearchQueryLength \<and> cblocks0 = None then fail ErrSearchQueryTooShort
      else case AddressFromString T q of
        Inr shortID \<Rightarrow> searchByShortID L null order accumulateReader shortID
      | Inl _ \<Rightarrow> (case pl_FromString T q of
          Inr i \<Rightarrow> searchByID L i
        | Inl _ \<Rightarrow>
            bind (search_0x q cblocks0) (\<lambda>(cblocks, ctrans, caddr).
            bind (ListAssets L \<lparr>la_ListParams = lp, la_Alias = [], la_PathParamID = []\<rparr>) (\<lambda>(_, assets).
            if int (length assets + length (slice cblocks) + length (slice ctrans) + length (slice caddr)) \<ge> lp_Limit lp
            then ret (collateSearchResults assets [] [] (slice cblocks) (slice ctrans) (slice caddr))
            else
              bind (query (\<lambda>d. Inr (take (nat (lp_Limit lp))
                     (rev (sort_key tn_CreatedAt (rev (filter (\<lambda>t. like (q @ ''%'') (tn_ID t)) (transactionQuery d))))))))
                (\<lambda>txs. ret (collateSearchResults assets [] txs (slice cblocks) (slice ctrans) (slice caddr))))))))"

section \<open>Raw data\<close>

text \<open>\<open>chainConsumers\<close> holds the \<^verbatim>\<open>ParseJSON\<close> of each chain.\<close>

type_synonym parsers = "string \<rightharpoonup> (bytes \<Rightarrow> BlockProposal option \<Rightarrow> goerr + bytes)"

definition chainWriter :: "parsers \<Rightarrow> string \<Rightarrow> goerr + (bytes \<Rightarrow> BlockProposal option \<Rightarrow> goerr + bytes)" where
  "chainWriter chainConsumers chainID =
     (case chainConsumers chainID of Some w \<Rightarrow> Inr w | None \<Rightarrow> Inl ''unimplemented'')"

definition ATxDATA :: "parsers \<Rightarrow> string \<Rightarrow> (database, bytes) go" where
  "ATxDATA chainConsumers i =
     bind (sql_load avm_transactions (\<lambda>t. tx_ID t = i) (\<lambda>t. (tx_CanonicalSerialization t, tx_ChainID t))) (\<lambda>rows.
     case rows of
       [] \<Rightarrow> ret []
     | (serialization, chainID) # _ \<Rightarrow>
         lift_err (bind_err (chainWriter chainConsumers chainID) (\<lambda>c. c serialization None)))"

definition PTxDATA :: "parsers \<Rightarrow> string \<Rightarrow> (database, bytes) go" where
  "PTxDATA chainConsumers i =
     bind (case read_decimal i of
             Some n \<Rightarrow> sql_load pvm_blocks (\<lambda>b. int (unat (pb_Height b)) = n) (\<lambda>b. b)
           | None \<Rightarrow> sql_load pvm_blocks (\<lambda>b. pb_ID b = i) (\<lambda>b. b)) (\<lambda>rows.
     case rows of
       [] \<Rightarrow> ret []
     | b # _ \<Rightarrow>
         lift_err (bind_err (chainWriter chainConsumers (pb_ChainID b)) (\<lambda>c.
           c (pb_Serialization b) (Some \<lparr>bp_Proposer = pb_Proposer b, bp_TimeStamp = pb_ProposerTime b\<rparr>))))"

section \<open>Finding one row\<close>

lemma calm_query: "calm w \<Longrightarrow> query f w = (f (store w), w\<lparr>stmts := Suc (stmts w)\<rparr>)"
  by (simp add: query_def calm_def)

lemma take_one_filter: "take 1 (filter P xs) = (case find P xs of None \<Rightarrow> [] | Some x \<Rightarrow> [x])"
  by (simp add: find_filter_hd split: list.split)

definition stored_output :: "database \<Rightarrow> Outputs \<Rightarrow> Output" where
  "stored_output d o1 =
     (load_output ((o1, find (\<lambda>r. out_ID o1 = red_ID r) (avm_outputs_redeeming d)), None))
       \<lparr>op_Addresses := map oad_Address (filter (\<lambda>a. oad_OutputID a = out_ID o1) (avm_output_addresses d))\<rparr>"

lemma output_rows_unique:
  assumes "db_ok d" and "sb_joins b = []"
  shows "output_rows b d = map (\<lambda>o1. ((o1, find (\<lambda>r. out_ID o1 = red_ID r) (avm_outputs_redeeming d)), None)) (avm_outputs d)"
proof -
  have "left_join (\<lambda>o1 r. out_ID o1 = red_ID r) (avm_outputs d) (avm_outputs_redeeming d) =
      map (\<lambda>o1. (o1, find (\<lambda>r. out_ID o1 = red_ID r) (avm_outputs_redeeming d))) (avm_outputs d)"
    by (rule left_join_unique) (rule distinct_key_matches [OF ledger_keys(2) [OF assms(1)]])
  with assms(2) show ?thesis by (simp add: output_rows_def o_def)
qed

text \<open>An output is found by its id.  \<^verbatim>\<open>GetOutput\<close> returns nothing when no output has the id, and
  otherwise that output with all its addresses and with the transaction that spends it, if there is one;
  it changes nothing.\<close>

theorem GetOutput_exact:
  assumes "calm w" and "db_ok (store w)"
  shows "fst (GetOutput L i w) = Inr (map_option (stored_output (store w))
      (find (\<lambda>o1. out_ID o1 = ID_String L i) (avm_outputs (store w)))) \<and>
    store (snd (GetOutput L i w)) = store w"
proof -
  let ?d = "store w"
  let ?row = "\<lambda>o1. ((o1, find (\<lambda>r. out_ID o1 = red_ID r) (avm_outputs_redeeming ?d)), None :: OutputAddresses option)"
  let ?p = "\<lparr>lo_ListParams = id_params i, lo_ChainIDs = [], lo_Addresses = [], lo_Spent = None\<rparr>"
  let ?b = "ListOutputsParams_Apply L ?p blank_select"
  have b: "?b = \<lparr>sb_limit = Some 1, sb_offset = None, sb_where = [CondEq ''avm_outputs.id'' (ID_String L i)], sb_joins = []\<rparr>"
    by (simp add: ListOutputsParams_Apply_def Let_def id_params_def zero_params_def Apply_def ApplyPk_def blank_select_def
        Limit_def Where_def)
  have rows: "select_rows output_columns ?b (output_rows ?b ?d) =
      Inr (map ?row (case find (\<lambda>o1. out_ID o1 = ID_String L i) (avm_outputs ?d) of None \<Rightarrow> [] | Some x \<Rightarrow> [x]))"
    using output_rows_unique [OF assms(2), of ?b] unfolding take_one_filter [symmetric]
    by (simp add: b select_rows_def output_columns_def page_def filter_map o_def take_map)
  show ?thesis
  proof (cases "find (\<lambda>o1. out_ID o1 = ID_String L i) (avm_outputs ?d)")
    case None
    with rows assms(1) show ?thesis
      by (simp add: GetOutput_def ListOutputs_def bind_def calm_query Let_def ret_def)
  next
    case (Some o1)
    with rows assms(1) show ?thesis
      by (simp add: GetOutput_def ListOutputs_def bind_def calm_query sql_load_def Let_def ret_def id_params_def zero_params_def
          stored_output_def load_output_def filter_True)
  qed
qed

theorem GetOutput_exact_witness:
  "fst (GetOutput plain_lib ''2'' (calm_sample\<lparr>store := settled_db\<rparr>)) =
     Inr (Some (stored_output settled_db (sample_output ''2'' 12))) \<and>
   op_Addresses (stored_output settled_db (sample_output ''2'' 12)) = [''alice''] \<and>
   op_RedeemingTransactionID (stored_output settled_db (sample_output ''2'' 12)) = ''t3''"
proof -
  let ?w = "calm_sample\<lparr>store := settled_db\<rparr>"
  have "db_ok settled_db" using settled_db_books by (auto simp: books_agree_def queue_ok_def)
  moreover have "calm ?w" by (simp add: calm_def calm_sample_def sample_world_def)
  ultimately have "fst (GetOutput plain_lib ''2'' ?w) = Inr (map_option (stored_output settled_db)
      (find (\<lambda>o1. out_ID o1 = ID_String plain_lib ''2'') (avm_outputs settled_db)))"
    using GetOutput_exact [of ?w plain_lib "''2''"] by simp
  then show ?thesis by (simp add: settled_db_defs plain_lib_def stored_output_def load_output_def)
qed

section \<open>What the search returns\<close>

lemma append_results_take:
  "append_results n xs acc = (if length acc > n then acc else take (Suc n) (acc @ xs))"
proof (induction xs arbitrary: acc)
  case (Cons x xs)
  consider "length acc > n" | "length acc = n" | "length acc < n" by linarith
  then show ?case by cases (simp_all add: Cons.IH)
qed simp

lemma append_results_fold:
  "append_results n ys (append_results n xs acc) = append_results n (xs @ ys) acc"
  by (auto simp: append_results_take not_less take_append)

text \<open>What a search shows.  The results come in the order addresses, transactions, assets, blocks,
  C-chain transactions, accounts, and none is lost as long as there are at most 5000, which is then
  their count.  When there are more, the count is 5000 but one result more than that is returned.\<close>

theorem collateSearchResults_all:
  fixes assets addrs txs cblocks ctrans caddr
  defines "all \<equiv> map ResultAddress addrs @ map ResultTransaction txs @ map ResultAsset assets @ map ResultCBlock cblocks @
    map ResultCTrans ctrans @ map ResultCAddress caddr"
  shows "collateSearchResults assets addrs txs cblocks ctrans caddr =
    (if length all \<le> 5000 then \<lparr>sr_Count = of_nat (length all), sr_Results = all\<rparr>
     else \<lparr>sr_Count = 5000, sr_Results = take 5001 all\<rparr>)"
proof -
  define n where "n = (if int (length all) > PaginationMaxLimit then nat PaginationMaxLimit else length all)"
  have total: "length assets + length addrs + length txs + length cblocks + length ctrans + length caddr = length all"
    by (simp add: all_def)
  have "collateSearchResults assets addrs txs cblocks ctrans caddr = \<lparr>sr_Count = of_nat n, sr_Results = append_results n all []\<rparr>"
    unfolding collateSearchResults_def Let_def total n_def [symmetric] append_results_fold
    by (simp add: all_def)
  also have "append_results n all [] = take (Suc n) all" by (simp add: append_results_take)
  finally show ?thesis by (simp add: n_def PaginationMaxLimit_def)
qed

section \<open>The flags of assets\<close>

lemma dress_rows:
  "foldl dress_step m rows =
    (\<lambda>k. if (k, OutputTypesSECP2556K1Mint) \<in> set rows \<or> (k, OutputTypesNFTMint) \<in> set rows then Some 1 else fst m k,
     \<lambda>k. if (k, OutputTypesNFTMint) \<in> set rows \<or> (k, OutputTypesNFTTransfer) \<in> set rows then Some 1 else snd m k)"
proof (induction rows arbitrary: m)
  case (Cons row rows)
  then show ?case
    by (cases m; cases row)
      (auto simp: dress_step_def fun_eq_iff OutputTypesSECP2556K1Mint_def OutputTypesNFTMint_def OutputTypesNFTTransfer_def)
qed simp

text \<open>The flags of an asset.  When the database answers, an asset is shown with a variable cap exactly
  when it has an output that can mint it, and as a token when it has an output that holds or mints one.\<close>

theorem dressAssets_flags:
  assumes "calm w"
  shows "fst (dressAssets assets w) = Inr (map (\<lambda>a. a\<lparr>
      as_VariableCap := (if \<exists>o1 \<in> set (avm_outputs (store w)). out_AssetID o1 = as_ID a \<and>
        out_OutputType o1 \<in> {OutputTypesSECP2556K1Mint, OutputTypesNFTMint} then 1 else as_VariableCap a),
      as_Nft := (if \<exists>o1 \<in> set (avm_outputs (store w)). out_AssetID o1 = as_ID a \<and>
        out_OutputType o1 \<in> {OutputTypesNFTMint, OutputTypesNFTTransfer} then 1 else as_Nft a)\<rparr>) assets)"
proof -
  have "dress_asset (foldl dress_step (Map.empty, Map.empty)
        (remdups (map (\<lambda>o1. (out_AssetID o1, out_OutputType o1))
          (filter (\<lambda>o1. out_OutputType o1 \<in> set mintOutputs \<and> out_AssetID o1 \<in> as_ID ` set assets) outs)))) a =
      a\<lparr>as_VariableCap := (if \<exists>o1 \<in> set outs. out_AssetID o1 = as_ID a \<and>
          out_OutputType o1 \<in> {OutputTypesSECP2556K1Mint, OutputTypesNFTMint} then 1 else as_VariableCap a),
        as_Nft := (if \<exists>o1 \<in> set outs. out_AssetID o1 = as_ID a \<and>
          out_OutputType o1 \<in> {OutputTypesNFTMint, OutputTypesNFTTransfer} then 1 else as_Nft a)\<rparr>"
    if "a \<in> set assets" for a outs
  proof -
    have "(as_ID a, t) \<in> set (remdups (map (\<lambda>o1. (out_AssetID o1, out_OutputType o1))
          (filter (\<lambda>o1. out_OutputType o1 \<in> set mintOutputs \<and> out_AssetID o1 \<in> as_ID ` set assets) outs))) \<longleftrightarrow>
        (\<exists>o1 \<in> set outs. out_AssetID o1 = as_ID a \<and> out_OutputType o1 = t)" if "t \<in> set mintOutputs" for t
      using that \<open>a \<in> set assets\<close> by force
    moreover have "OutputTypesSECP2556K1Mint \<in> set mintOutputs" "OutputTypesNFTMint \<in> set mintOutputs"
      "OutputTypesNFTTransfer \<in> set mintOutputs" by (simp_all add: mintOutputs_def)
    ultimately show ?thesis unfolding dress_rows dress_asset_def Let_def fst_conv snd_conv
      by (intro arg_cong2 [where f = "\<lambda>x y. a\<lparr>as_VariableCap := x, as_Nft := y\<rparr>"]) auto
  qed
  note dressed = this
  show ?thesis
  proof (cases "assets = []")
    case False
    then have "fst (dressAssets assets w) = Inr (map (dress_asset (foldl dress_step (Map.empty, Map.empty)
        (remdups (map (\<lambda>o1. (out_AssetID o1, out_OutputType o1))
          (filter (\<lambda>o1. out_OutputType o1 \<in> set mintOutputs \<and> out_AssetID o1 \<in> as_ID ` set assets) (avm_outputs (store w))))))) assets)"
      using assms by (simp add: dressAssets_def bind_def calm_query ret_def)
    also have "\<dots> = Inr (map (\<lambda>a. a\<lparr>
      as_VariableCap := (if \<exists>o1 \<in> set (avm_outputs (store w)). out_AssetID o1 = as_ID a \<and>
        out_OutputType o1 \<in> {OutputTypesSECP2556K1Mint, OutputTypesNFTMint} then 1 else as_VariableCap a),
      as_Nft := (if \<exists>o1 \<in> set (avm_outputs (store w)). out_AssetID o1 = as_ID a \<and>
        out_OutputType o1 \<in> {OutputTypesNFTMint, OutputTypesNFTTransfer} then 1 else as_Nft a)\<rparr>) assets)"
      by (rule arg_cong [where f = Inr], rule map_cong [OF refl], rule dressed)
    finally show ?thesis .
  qed (simp add: dressAssets_def ret_def)
qed

theorem dressAssets_flags_witness:
  "fst (dressAssets [load_asset \<lparr>ast_ID = ''DJTX'', ast_ChainID = ''X'', ast_Name = ''a'', ast_Symbol = ''A'', ast_Denomination = 9,
      ast_Alias = [], ast_CurrentSupply = 0, ast_CreatedAt = 0\<rparr>] calm_sample) =
   Inr [load_asset \<lparr>ast_ID = ''DJTX'', ast_ChainID = ''X'', ast_Name = ''a'', ast_Symbol = ''A'', ast_Denomination = 9,
      ast_Alias = [], ast_CurrentSupply = 0, ast_CreatedAt = 0\<rparr>]"
proof -
  have "calm calm_sample" by (simp add: calm_def calm_sample_def sample_world_def)
  from dressAssets_flags [OF this, of "[load_asset \<lparr>ast_ID = ''DJTX'', ast_ChainID = ''X'', ast_Name = ''a'', ast_Symbol = ''A'',
      ast_Denomination = 9, ast_Alias = [], ast_CurrentSupply = 0, ast_CreatedAt = 0\<rparr>]"]
  show ?thesis
    by (simp add: calm_sample_def sample_world_def sample_db_def sample_output_def load_asset_def
        OutputTypesSECP2556K1Mint_def OutputTypesNFTMint_def OutputTypesNFTTransfer_def)
qed

end
