(* ===== verification/Aggregates_Cache.thy ===== *)
theory Aggregates_Cache
  imports Djtx_Lists
begin

text \<open>
  The cache of aggregated numbers: \<^verbatim>\<open>src/caching/aggregates_cache.go\<close>, the scheduler that fills it
  (\<^verbatim>\<open>StartCacheScheduler\<close> of \<^verbatim>\<open>src/servicesctrl\<close>), the readers \<^verbatim>\<open>Aggregate\<close> and
  \<^verbatim>\<open>TxfeeAggregate\<close>, and the merging of histograms of \<^verbatim>\<open>src/models/collections.go\<close>.

  The interval size is read from an empty query and is therefore zero, so the selects have no groups.
  The cast of a product of gas price and gas used to an unsigned number is an argument, since it follows
  the rules of decimal arithmetic of the database.  Writing to a map that was not created stops the program
  and is an error here.
\<close>

section \<open>The cache\<close>

record aggregatesCache =
  aggregateTransactionsMap :: "string \<rightharpoonup> (string \<rightharpoonup> u64)"
  aggregateFeesMap :: "string \<rightharpoonup> (string \<rightharpoonup> u64)"

definition NewAggregatesCache :: aggregatesCache where
  "NewAggregatesCache = \<lparr>aggregateTransactionsMap = Map.empty, aggregateFeesMap = Map.empty\<rparr>"

definition zero_periods :: "string \<rightharpoonup> u64" where
  "zero_periods = [''day'' \<mapsto> 0, ''week'' \<mapsto> 0, ''month'' \<mapsto> 0]"

definition InitCacheStorage :: "(string \<rightharpoonup> string) \<Rightarrow> aggregatesCache \<Rightarrow> aggregatesCache" where
  "InitCacheStorage vmTypes ac =
     \<lparr>aggregateTransactionsMap = (\<lambda>i. if i \<in> dom vmTypes then Some zero_periods else aggregateTransactionsMap ac i),
      aggregateFeesMap = (\<lambda>i. if i \<in> dom vmTypes then Some zero_periods else aggregateFeesMap ac i)\<rparr>"

definition nil_map_panic :: goerr where
  "nil_map_panic = ''panic: assignment to entry in nil map''"

text \<open>\<^verbatim>\<open>m[chainid][rangeKeyType] = v\<close>\<close>

definition set_entry ::
  "(string \<rightharpoonup> (string \<rightharpoonup> u64)) \<Rightarrow> string \<Rightarrow> string \<Rightarrow> u64 \<Rightarrow> goerr + (string \<rightharpoonup> (string \<rightharpoonup> u64))" where
  "set_entry m chainid rangeKeyType v =
     (case m chainid of None \<Rightarrow> Inl nil_map_panic | Some periods \<Rightarrow> Inr (m(chainid \<mapsto> periods(rangeKeyType \<mapsto> v))))"

section \<open>The selects\<close>

definition floor_second :: "gotime \<Rightarrow> gotime" where
  "floor_second t = (t div second) * second"

definition getFirstTransactionTime :: "string list \<Rightarrow> (database, gotime) go" where
  "getFirstTransactionTime chainIDs =
     query (\<lambda>d. let ts = map tx_CreatedAt (filter (\<lambda>t. length chainIDs > 0 \<longrightarrow> tx_ChainID t \<in> set chainIDs) (avm_transactions d))
                in Inr (if ts = [] then 0 else floor_second (Min (set ts))))"

record Aggregates =
  agg_TransactionVolume :: string
  agg_TransactionCount :: u64
  agg_AddressCount :: u64
  agg_AssetCount :: u64
  agg_OutputCount :: u64

text \<open>Outputs joined with their addresses: an output counts once for each address.\<close>

definition avm_aggregates :: "string list \<Rightarrow> gotime \<Rightarrow> gotime \<Rightarrow> database \<Rightarrow> Aggregates" where
  "avm_aggregates avmChains startTime endTime d =
     (let rows = filter (\<lambda>(o1, a). out_CreatedAt o1 \<ge> startTime \<and> out_CreatedAt o1 < endTime \<and> out_ChainID o1 \<in> set avmChains)
                   (outputs_with_addresses d)
      in \<lparr>agg_TransactionVolume = dec_nat (sum_list (map (\<lambda>(o1, a). unat (out_Amount o1)) rows)),
          agg_TransactionCount = of_nat (length (remdups (map (\<lambda>(o1, a). out_TransactionID o1) rows))),
          agg_AddressCount = of_nat (length (remdups (List.map_filter (\<lambda>(o1, a). map_option oad_Address a) rows))),
          agg_AssetCount = of_nat (length (remdups (map (\<lambda>(o1, a). out_AssetID o1) rows))),
          agg_OutputCount = of_nat (length rows)\<rparr>)"

definition number_of :: "string \<Rightarrow> u64" where
  "number_of s = (case read_decimal s of None \<Rightarrow> 0 | Some n \<Rightarrow> of_int n)"

definition first_block :: "gotime \<Rightarrow> gotime \<Rightarrow> database \<Rightarrow> u64" where
  "first_block startTime endTime d =
     (case sort_key (\<lambda>n. n) (map (\<lambda>b. number_of (cb_Block b))
             (filter (\<lambda>b. cb_CreatedAt b \<ge> startTime \<and> cb_CreatedAt b < endTime) (cvm_blocks d))) of
        [] \<Rightarrow> 0 | n # _ \<Rightarrow> n)"

definition last_cached_block :: "string \<Rightarrow> database \<Rightarrow> u64" where
  "last_cached_block chainid d =
     (case filter (\<lambda>c. lbc_ChainID c = chainid) (cam_last_block_cache d) of [] \<Rightarrow> 0 | c # _ \<Rightarrow> number_of (lbc_CurrentBlock c))"

text \<open>The corrections of the last block.\<close>

definition last_block :: "u64 \<Rightarrow> u64 \<Rightarrow> u64" where
  "last_block firstBlock lastBlock =
     (let l1 = (if lastBlock \<le> firstBlock then firstBlock else lastBlock)
      in if firstBlock \<le> 0 then firstBlock else l1)"

text \<open>The generated column \<^verbatim>\<open>block_idx\<close> and the bounds \<^verbatim>\<open>concat(?, '000')\<close>, \<^verbatim>\<open>concat(?, '999')\<close>.\<close>

definition block_idx :: "CvmTxdataRow \<Rightarrow> int" where
  "block_idx t = int (unat (number_of (ctr_Block t))) * 1000 + (999 - int (unat (ctr_Idx t)))"

definition in_blocks :: "u64 \<Rightarrow> u64 \<Rightarrow> CvmTxdataRow \<Rightarrow> bool" where
  "in_blocks firstBlock lastBlock t \<longleftrightarrow>
     int (unat firstBlock) * 1000 \<le> block_idx t \<and> block_idx t \<le> int (unat lastBlock) * 1000 + 999"

text \<open>The three selects that find the transactions of the C-chain; each can fail.\<close>

definition load_block_range :: "string \<Rightarrow> gotime \<Rightarrow> gotime \<Rightarrow> (database, u64 \<times> u64) go" where
  "load_block_range chainid startTime endTime =
     bind (query (\<lambda>d. Inr (first_block startTime endTime d))) (\<lambda>f.
     bind (query (\<lambda>d. Inr (last_cached_block chainid d))) (\<lambda>l. ret (f, last_block f l)))"

section \<open>Updating the cache\<close>

definition CVMName :: string where
  "CVMName = ''cvm''"

definition start_time :: "string \<Rightarrow> gotime \<Rightarrow> (database, gotime) go" where
  "start_time chainid startTime = (if startTime = zero_time then getFirstTransactionTime [chainid] else ret startTime)"

definition GetAggregatesAndUpdate ::
  "(string \<rightharpoonup> string) \<Rightarrow> string \<Rightarrow> gotime \<Rightarrow> gotime \<Rightarrow> string \<Rightarrow> aggregatesCache \<Rightarrow> (database, aggregatesCache) go" where
  "GetAggregatesAndUpdate vmTypes chainid startTime0 endTime rangeKeyType ac =
     bind (start_time chainid startTime0) (\<lambda>startTime.
     let avmChains = (case vmTypes chainid of Some vm \<Rightarrow> if vm = CVMName then [] else [chainid] | None \<Rightarrow> []);
         cvmChains = (case vmTypes chainid of Some vm \<Rightarrow> if vm = CVMName then [chainid] else [] | None \<Rightarrow> []) in
     bind (if length avmChains > 0
           then query (\<lambda>d. Inr [agg_TransactionCount (avm_aggregates avmChains startTime endTime d)])
           else ret []) (\<lambda>intervals.
     bind (if length cvmChains > 0
           then bind (load_block_range chainid startTime endTime) (\<lambda>(f, l).
                query (\<lambda>d. Inr (intervals @ [of_nat (length (filter (in_blocks f l) (cvm_transactions_txdata d)))])))
           else ret intervals) (\<lambda>intervals.
     bind (lift_err (set_entry (aggregateTransactionsMap ac) chainid rangeKeyType
             (case intervals of [] \<Rightarrow> 0 | n # _ \<Rightarrow> n)))
       (\<lambda>m. ret (ac\<lparr>aggregateTransactionsMap := m\<rparr>)))))"

definition sum_fees :: "database \<Rightarrow> string list \<Rightarrow> gotime \<Rightarrow> gotime \<Rightarrow> nat" where
  "sum_fees d chainIds startTime endTime =
     sum_list (map (\<lambda>t. unat (tx_Txfee t))
       (filter (\<lambda>t. tx_CreatedAt t \<ge> startTime \<and> tx_CreatedAt t < endTime \<and> tx_ChainID t \<in> set chainIds) (avm_transactions d)))"

text \<open>\<^verbatim>\<open>CAST(... AS UNSIGNED)\<close> stops at the largest number.\<close>

definition cast_unsigned :: "nat \<Rightarrow> u64" where
  "cast_unsigned n = of_nat (min n (2 ^ 64 - 1))"

text \<open>\<open>fee\<close> is what the database computes from gas price and gas used.  The total is the sum of 64-bit
  numbers; it replaces the fee of the first interval when there are transactions.\<close>

definition GetAggregatesFeesAndUpdate ::
  "(u64 \<Rightarrow> u64 \<Rightarrow> u64) \<Rightarrow> (string \<rightharpoonup> string) \<Rightarrow> string \<Rightarrow> gotime \<Rightarrow> gotime \<Rightarrow> string \<Rightarrow> aggregatesCache
     \<Rightarrow> (database, aggregatesCache) go" where
  "GetAggregatesFeesAndUpdate fee vmTypes chainid startTime0 endTime rangeKeyType ac =
     bind (start_time chainid startTime0) (\<lambda>startTime.
     let avmChains = (case vmTypes chainid of Some vm \<Rightarrow> if vm = CVMName then [] else [chainid] | None \<Rightarrow> []);
         cvmChains = (case vmTypes chainid of Some vm \<Rightarrow> if vm = CVMName then [chainid] else [] | None \<Rightarrow> []) in
     bind (if length avmChains > 0
           then query (\<lambda>d. Inr [cast_unsigned (sum_fees d [chainid] startTime endTime)])
           else ret []) (\<lambda>intervals.
     bind (if length cvmChains > 0
           then bind (load_block_range chainid startTime endTime) (\<lambda>(f, l).
                query (\<lambda>d. Inr (let fees = map (\<lambda>t. fee (ctr_GasPrice t) (ctr_GasUsed t))
                                            (filter (in_blocks f l) (cvm_transactions_txdata d));
                                    totalVolume = sum_list fees
                                in if length fees > 0 then (intervals @ [hd fees])[0 := totalVolume] else intervals)))
           else ret intervals) (\<lambda>intervals.
     bind (lift_err (set_entry (aggregateFeesMap ac) chainid rangeKeyType (case intervals of [] \<Rightarrow> 0 | n # _ \<Rightarrow> n)))
       (\<lambda>m. ret (ac\<lparr>aggregateFeesMap := m\<rparr>)))))"

text \<open>One round of the scheduler: three periods for each chain, the numbers and then the fees.\<close>

definition update_chain ::
  "(u64 \<Rightarrow> u64 \<Rightarrow> u64) \<Rightarrow> (string \<rightharpoonup> string) \<Rightarrow> (string \<times> gotime) list \<Rightarrow> gotime \<Rightarrow> string \<Rightarrow> aggregatesCache
     \<Rightarrow> (database, aggregatesCache) go" where
  "update_chain fee vmTypes periods toDate i =
     loop (\<lambda>(key, from) ac.
       bind (GetAggregatesAndUpdate vmTypes i from toDate key ac)
         (GetAggregatesFeesAndUpdate fee vmTypes i from toDate key)) periods"

definition scheduler_round ::
  "(u64 \<Rightarrow> u64 \<Rightarrow> u64) \<Rightarrow> (string \<rightharpoonup> string) \<Rightarrow> string list \<Rightarrow> gotime \<Rightarrow> gotime \<Rightarrow> gotime \<Rightarrow> gotime \<Rightarrow> aggregatesCache
     \<Rightarrow> (database, aggregatesCache) go" where
  "scheduler_round fee vmTypes configChains toDate yesterday prevWeek prevMonth =
     loop (update_chain fee vmTypes [(''day'', yesterday), (''week'', prevWeek), (''month'', prevMonth)] toDate) configChains"

section \<open>Reading the cache\<close>

text \<open>\<^verbatim>\<open>src/cfg/commonu.go\<close>.  The difference of two times saturates, and the number of days is cut off.\<close>

definition Sub :: "gotime \<Rightarrow> gotime \<Rightarrow> int" where
  "Sub a b = max (- (2 ^ 63)) (min (2 ^ 63 - 1) (a - b))"

definition whole_days :: "int \<Rightarrow> int" where
  "whole_days n = (if n < 0 then - ((- n) div (86400 * second)) else n div (86400 * second))"

definition GetDatepartBasedOnDateParams :: "gotime \<Rightarrow> gotime \<Rightarrow> string" where
  "GetDatepartBasedOnDateParams pStartTime pEndTime =
     (let differenceInDays = whole_days (Sub pEndTime pStartTime) in
      if differenceInDays \<le> 1 then ''day''
      else if differenceInDays > 1 \<and> differenceInDays \<le> 7 then ''week''
      else if differenceInDays > 7 then ''month''
      else [])"

definition index_panic :: goerr where
  "index_panic = ''runtime error: index out of range [0] with length 0''"

definition cached :: "(string \<rightharpoonup> (string \<rightharpoonup> u64)) \<Rightarrow> string \<Rightarrow> string \<Rightarrow> u64" where
  "cached m i key = (case m i of None \<Rightarrow> 0 | Some periods \<Rightarrow> (case periods key of None \<Rightarrow> 0 | Some n \<Rightarrow> n))"

text \<open>The number that the response shows with its start and end time; an empty list of chains makes
  \<^verbatim>\<open>params.ChainIDs[0]\<close> panic.\<close>

definition read_cache :: "(string \<rightharpoonup> (string \<rightharpoonup> u64)) \<Rightarrow> ListParams \<Rightarrow> string list \<Rightarrow> goerr + u64 \<times> gotime \<times> gotime" where
  "read_cache m lp chainIDs =
     (if m \<noteq> Map.empty
      then (case chainIDs of
              [] \<Rightarrow> Inl index_panic
            | i # _ \<Rightarrow> Inr (cached m i (GetDatepartBasedOnDateParams (lp_StartTime lp) (lp_EndTime lp)),
                          lp_StartTime lp, lp_EndTime lp))
      else Inr (0, lp_StartTime lp, lp_EndTime lp))"

definition TxfeeAggregate :: "aggregatesCache \<Rightarrow> TxfeeAggregateParams \<Rightarrow> goerr + u64 \<times> gotime \<times> gotime" where
  "TxfeeAggregate ac p = read_cache (aggregateFeesMap ac) (fa_ListParams p) (fa_ChainIDs p)"

definition Aggregate :: "aggregatesCache \<Rightarrow> AggregateParams \<Rightarrow> goerr + u64 \<times> gotime \<times> gotime" where
  "Aggregate ac p = read_cache (aggregateTransactionsMap ac) (ag_ListParams p) (ag_ChainIDs p)"

section \<open>Merging histograms\<close>

text \<open>\<^verbatim>\<open>MergeAggregates\<close> for any kind of element: \<open>eid\<close> is its id and \<open>mrg\<close> its \<^verbatim>\<open>Merge\<close>.  The index
  into the source is the rest of the list.\<close>

fun MergeAggregates :: "('a \<Rightarrow> int) \<Rightarrow> ('a \<Rightarrow> 'a \<Rightarrow> 'a) \<Rightarrow> 'a list \<Rightarrow> 'a list \<Rightarrow> 'a list" where
  "MergeAggregates eid mrg [] src = src"
| "MergeAggregates eid mrg (x # dst) src =
     takeWhile (\<lambda>s. eid s < eid x) src @
     (case dropWhile (\<lambda>s. eid s < eid x) src of
        [] \<Rightarrow> x # MergeAggregates eid mrg dst []
      | s # rest \<Rightarrow> if eid s = eid x then mrg x s # MergeAggregates eid mrg dst rest
                   else x # MergeAggregates eid mrg dst (s # rest))"

record TxfeeInterval =
  ti_IntervalID :: int
  ti_Txfee :: u64

definition TxfeeAggregates_Merge :: "TxfeeInterval \<Rightarrow> TxfeeInterval \<Rightarrow> TxfeeInterval" where
  "TxfeeAggregates_Merge a src = a\<lparr>ti_Txfee := ti_Txfee a + ti_Txfee src\<rparr>"

text \<open>\<^verbatim>\<open>TokenAmount\<close> is a string, so \<^verbatim>\<open>+=\<close> appends.\<close>

definition Aggregates_Merge :: "Aggregates \<Rightarrow> Aggregates \<Rightarrow> Aggregates" where
  "Aggregates_Merge a src =
     a\<lparr>agg_AddressCount := agg_AddressCount a + agg_AddressCount src,
       agg_AssetCount := max (agg_AssetCount a) (agg_AssetCount src),
       agg_OutputCount := agg_OutputCount a + agg_OutputCount src,
       agg_TransactionCount := agg_TransactionCount a + agg_TransactionCount src,
       agg_TransactionVolume := agg_TransactionVolume a @ agg_TransactionVolume src\<rparr>"

section \<open>What the scheduler stores\<close>

definition block_range :: "database \<Rightarrow> string \<Rightarrow> gotime \<Rightarrow> gotime \<Rightarrow> CvmTxdataRow list" where
  "block_range d i startTime endTime =
     (let f = first_block startTime endTime d
      in filter (\<lambda>t. f \<le> number_of (ctr_Block t) \<and> number_of (ctr_Block t) \<le> last_block f (last_cached_block i d))
           (cvm_transactions_txdata d))"

text \<open>The generated column orders the transactions by their blocks as long as no block has more than a thousand.\<close>

definition thousand :: "database \<Rightarrow> bool" where
  "thousand d \<longleftrightarrow> (\<forall>t \<in> set (cvm_transactions_txdata d). ctr_Idx t \<le> 999)"

lemma block_bounds:
  assumes "i \<le> 999"
  shows "int f * 1000 \<le> int b * 1000 + (999 - int i) \<and> int b * 1000 + (999 - int i) \<le> int l * 1000 + 999 \<longleftrightarrow> f \<le> b \<and> b \<le> l"
  using assms by linarith

lemma in_blocks_iff:
  assumes "ctr_Idx t \<le> 999"
  shows "in_blocks f l t \<longleftrightarrow> f \<le> number_of (ctr_Block t) \<and> number_of (ctr_Block t) \<le> l"
proof -
  have "unat (ctr_Idx t) \<le> 999" using assms by (simp add: word_le_nat_alt)
  then show ?thesis
    unfolding in_blocks_def block_idx_def word_le_nat_alt by (rule block_bounds)
qed

lemma filter_in_blocks:
  "thousand d \<Longrightarrow> filter (in_blocks f l) (cvm_transactions_txdata d) =
    filter (\<lambda>t. f \<le> number_of (ctr_Block t) \<and> number_of (ctr_Block t) \<le> l) (cvm_transactions_txdata d)"
  by (rule filter_cong) (auto simp: thousand_def in_blocks_iff)

text \<open>The number of transactions of a chain in a period, and their fees.\<close>

definition tx_number :: "database \<Rightarrow> (string \<rightharpoonup> string) \<Rightarrow> string \<Rightarrow> gotime \<Rightarrow> gotime \<Rightarrow> u64" where
  "tx_number d vmTypes i startTime endTime =
     (case vmTypes i of
        None \<Rightarrow> 0
      | Some vm \<Rightarrow>
          if vm = CVMName then of_nat (length (block_range d i startTime endTime))
          else of_nat (card (out_TransactionID ` {o1 \<in> set (avm_outputs d).
                 out_ChainID o1 = i \<and> startTime \<le> out_CreatedAt o1 \<and> out_CreatedAt o1 < endTime})))"

definition tx_fees :: "(u64 \<Rightarrow> u64 \<Rightarrow> u64) \<Rightarrow> database \<Rightarrow> (string \<rightharpoonup> string) \<Rightarrow> string \<Rightarrow> gotime \<Rightarrow> gotime \<Rightarrow> u64" where
  "tx_fees fee d vmTypes i startTime endTime =
     (case vmTypes i of
        None \<Rightarrow> 0
      | Some vm \<Rightarrow>
          if vm = CVMName then sum_list (map (\<lambda>t. fee (ctr_GasPrice t) (ctr_GasUsed t)) (block_range d i startTime endTime))
          else cast_unsigned (sum_fees d [i] startTime endTime))"

lemma avm_count:
  "agg_TransactionCount (avm_aggregates [i] startTime endTime d) =
    of_nat (card (out_TransactionID ` {o1 \<in> set (avm_outputs d).
      out_ChainID o1 = i \<and> startTime \<le> out_CreatedAt o1 \<and> out_CreatedAt o1 < endTime}))"
proof -
  have "set (map (\<lambda>(o1, a). out_TransactionID o1) (filter (\<lambda>(o1, a). out_CreatedAt o1 \<ge> startTime \<and> out_CreatedAt o1 < endTime \<and>
      out_ChainID o1 \<in> set [i]) (outputs_with_addresses d))) =
      out_TransactionID ` {o1 \<in> fst ` set (outputs_with_addresses d).
        out_ChainID o1 = i \<and> startTime \<le> out_CreatedAt o1 \<and> out_CreatedAt o1 < endTime}"
    by (auto simp: image_iff case_prod_unfold)
  then show ?thesis
    by (simp add: avm_aggregates_def Let_def length_remdups_card_conv left_join_fst outputs_with_addresses_def)
qed

lemma aggregates_update:
  assumes "calm w" and "thousand (store w)" and "startTime \<noteq> zero_time" and "aggregateTransactionsMap ac i = Some ps"
  shows "\<exists>k. GetAggregatesAndUpdate vmTypes i startTime endTime key ac w =
    (Inr (ac\<lparr>aggregateTransactionsMap := (aggregateTransactionsMap ac)(i \<mapsto> ps(key \<mapsto> tx_number (store w) vmTypes i startTime endTime))\<rparr>),
     w\<lparr>stmts := k\<rparr>)"
  using assms
  by (auto simp: GetAggregatesAndUpdate_def start_time_def bind_def ret_def Let_def calm_query load_block_range_def
      lift_err_def set_entry_def tx_number_def block_range_def avm_count filter_in_blocks split: option.split intro: exI [of _ "stmts w"])

lemma fees_update:
  assumes "calm w" and "thousand (store w)" and "startTime \<noteq> zero_time" and "aggregateFeesMap ac i = Some ps"
  shows "\<exists>k. GetAggregatesFeesAndUpdate fee vmTypes i startTime endTime key ac w =
    (Inr (ac\<lparr>aggregateFeesMap := (aggregateFeesMap ac)(i \<mapsto> ps(key \<mapsto> tx_fees fee (store w) vmTypes i startTime endTime))\<rparr>),
     w\<lparr>stmts := k\<rparr>)"
  using assms
  by (auto simp: GetAggregatesFeesAndUpdate_def start_time_def bind_def ret_def Let_def calm_query load_block_range_def
      lift_err_def set_entry_def tx_fees_def block_range_def filter_in_blocks split: option.split
      intro: exI [of _ "stmts w"])

text \<open>The entries of a chain after all periods.\<close>

definition chain_done ::
  "(u64 \<Rightarrow> u64 \<Rightarrow> u64) \<Rightarrow> database \<Rightarrow> (string \<rightharpoonup> string) \<Rightarrow> (string \<times> gotime) list \<Rightarrow> gotime \<Rightarrow> string \<Rightarrow> aggregatesCache \<Rightarrow> bool" where
  "chain_done fee d vmTypes periods toDate i ac \<longleftrightarrow>
     (\<forall>(key, from) \<in> set periods. cached (aggregateTransactionsMap ac) i key = tx_number d vmTypes i from toDate \<and>
        cached (aggregateFeesMap ac) i key = tx_fees fee d vmTypes i from toDate)"

definition has_chain :: "aggregatesCache \<Rightarrow> string \<Rightarrow> bool" where
  "has_chain ac i \<longleftrightarrow> i \<in> dom (aggregateTransactionsMap ac) \<and> i \<in> dom (aggregateFeesMap ac)"

lemma update_chain_done:
  assumes "calm w" and "thousand (store w)" and "has_chain ac i" and "\<forall>(key, from) \<in> set periods. from \<noteq> zero_time" and "distinct (map fst periods)"
  shows "\<exists>ac' k. update_chain fee vmTypes periods toDate i ac w = (Inr ac', w\<lparr>stmts := k\<rparr>) \<and>
    chain_done fee (store w) vmTypes periods toDate i ac' \<and> (\<forall>j. has_chain ac j \<longrightarrow> has_chain ac' j) \<and>
    (\<forall>j key. j \<noteq> i \<or> key \<notin> fst ` set periods \<longrightarrow>
      cached (aggregateTransactionsMap ac') j key = cached (aggregateTransactionsMap ac) j key \<and>
      cached (aggregateFeesMap ac') j key = cached (aggregateFeesMap ac) j key)"
  using assms
proof (induction periods arbitrary: ac w)
  case Nil
  then show ?case by (auto simp: update_chain_def ret_def chain_done_def intro: exI [of _ "stmts w"])
next
  case (Cons p periods)
  obtain key "from" where p: "p = (key, from)" by (cases p)
  obtain ps qs where m: "aggregateTransactionsMap ac i = Some ps" "aggregateFeesMap ac i = Some qs"
    using Cons.prems(3) by (auto simp: has_chain_def)
  let ?ac1 = "ac\<lparr>aggregateTransactionsMap := (aggregateTransactionsMap ac)(i \<mapsto> ps(key \<mapsto> tx_number (store w) vmTypes i from toDate))\<rparr>"
  let ?ac2 = "?ac1\<lparr>aggregateFeesMap := (aggregateFeesMap ac)(i \<mapsto> qs(key \<mapsto> tx_fees fee (store w) vmTypes i from toDate))\<rparr>"
  have z: "from \<noteq> zero_time" using Cons.prems(4) p by auto
  obtain k1 where 1: "GetAggregatesAndUpdate vmTypes i from toDate key ac w = (Inr ?ac1, w\<lparr>stmts := k1\<rparr>)"
    using aggregates_update [OF Cons.prems(1,2) z m(1)] by blast
  obtain k2 where 2: "GetAggregatesFeesAndUpdate fee vmTypes i from toDate key ?ac1 (w\<lparr>stmts := k1\<rparr>) = (Inr ?ac2, w\<lparr>stmts := k2\<rparr>)"
    using fees_update [of "w\<lparr>stmts := k1\<rparr>" "from" ?ac1 i qs] Cons.prems(1,2) z m(2) by fastforce
  have "update_chain fee vmTypes (p # periods) toDate i ac w = update_chain fee vmTypes periods toDate i ?ac2 (w\<lparr>stmts := k2\<rparr>)"
    using 1 2 by (simp add: update_chain_def p bind_def)
  moreover have "has_chain ?ac2 i" using m by (auto simp: has_chain_def)
  then obtain ac' k where rest: "update_chain fee vmTypes periods toDate i ?ac2 (w\<lparr>stmts := k2\<rparr>) = (Inr ac', w\<lparr>stmts := k\<rparr>)"
    "chain_done fee (store w) vmTypes periods toDate i ac'" "\<forall>j. has_chain ?ac2 j \<longrightarrow> has_chain ac' j"
    "\<forall>j key. j \<noteq> i \<or> key \<notin> fst ` set periods \<longrightarrow>
      cached (aggregateTransactionsMap ac') j key = cached (aggregateTransactionsMap ?ac2) j key \<and>
      cached (aggregateFeesMap ac') j key = cached (aggregateFeesMap ?ac2) j key"
    using Cons.IH [of "w\<lparr>stmts := k2\<rparr>" ?ac2] Cons.prems by fastforce
  moreover have "cached (aggregateTransactionsMap ac') i key = tx_number (store w) vmTypes i from toDate"
    "cached (aggregateFeesMap ac') i key = tx_fees fee (store w) vmTypes i from toDate"
    using rest(4) Cons.prems(5) p by (auto simp: cached_def)
  moreover have "has_chain ac j \<Longrightarrow> has_chain ?ac2 j" for j by (auto simp: has_chain_def)
  ultimately show ?case using p m by (auto simp: chain_done_def cached_def)
qed

lemma chain_done_cong:
  assumes "\<And>key. key \<in> fst ` set periods \<Longrightarrow>
      cached (aggregateTransactionsMap ac') i key = cached (aggregateTransactionsMap ac) i key \<and>
      cached (aggregateFeesMap ac') i key = cached (aggregateFeesMap ac) i key"
  shows "chain_done fee d vmTypes periods toDate i ac' = chain_done fee d vmTypes periods toDate i ac"
  unfolding chain_done_def using assms by (intro ball_cong) force+

lemma update_chains_done:
  assumes "calm w" and "thousand (store w)" and "\<forall>i \<in> set ids. has_chain ac i" and "\<forall>(key, from) \<in> set periods. from \<noteq> zero_time"
    and "distinct (map fst periods)"
  shows "\<exists>ac' k. loop (update_chain fee vmTypes periods toDate) ids ac w = (Inr ac', w\<lparr>stmts := k\<rparr>) \<and>
    (\<forall>i. i \<in> set ids \<or> chain_done fee (store w) vmTypes periods toDate i ac \<longrightarrow>
      chain_done fee (store w) vmTypes periods toDate i ac') \<and> (\<forall>j. has_chain ac j \<longrightarrow> has_chain ac' j)"
  using assms
proof (induction ids arbitrary: ac w)
  case Nil
  then show ?case by (auto simp: ret_def intro: exI [of _ "stmts w"])
next
  case (Cons i ids)
  let ?done = "chain_done fee (store w) vmTypes periods toDate"
  obtain ac1 k1 where 1: "update_chain fee vmTypes periods toDate i ac w = (Inr ac1, w\<lparr>stmts := k1\<rparr>)" "?done i ac1"
    "\<forall>j. has_chain ac j \<longrightarrow> has_chain ac1 j"
    "\<forall>j key. j \<noteq> i \<or> key \<notin> fst ` set periods \<longrightarrow>
      cached (aggregateTransactionsMap ac1) j key = cached (aggregateTransactionsMap ac) j key \<and>
      cached (aggregateFeesMap ac1) j key = cached (aggregateFeesMap ac) j key"
    using update_chain_done [OF Cons.prems(1,2) bspec [OF Cons.prems(3) list.set_intros(1)] Cons.prems(4,5), of fee vmTypes toDate]
    by (elim exE conjE) (rule that)
  have keep: "?done j ac \<Longrightarrow> ?done j ac1" for j
    using 1(2) chain_done_cong [of periods ac1 j ac fee "store w" vmTypes toDate] 1(4) by (cases "j = i") auto
  obtain ac' k where 2: "loop (update_chain fee vmTypes periods toDate) ids ac1 (w\<lparr>stmts := k1\<rparr>) = (Inr ac', w\<lparr>stmts := k\<rparr>)"
    "\<forall>j. j \<in> set ids \<or> ?done j ac1 \<longrightarrow> ?done j ac'" "\<forall>j. has_chain ac1 j \<longrightarrow> has_chain ac' j"
    using Cons.IH [of "w\<lparr>stmts := k1\<rparr>" ac1] Cons.prems 1(3) by fastforce
  show ?case using 1 2 keep by (auto simp: bind_def)
qed

lemma scheduler_cached:
  assumes "calm w" and "thousand (store w)" and "\<forall>i \<in> set ids. i \<in> dom vmTypes"
    and "yesterday \<noteq> zero_time" "prevWeek \<noteq> zero_time" "prevMonth \<noteq> zero_time"
  shows "\<exists>ac w'. scheduler_round fee vmTypes ids toDate yesterday prevWeek prevMonth (InitCacheStorage vmTypes NewAggregatesCache) w =
      (Inr ac, w') \<and> store w' = store w \<and>
    (\<forall>i \<in> set ids. aggregateTransactionsMap ac \<noteq> Map.empty \<and> aggregateFeesMap ac \<noteq> Map.empty \<and>
      chain_done fee (store w) vmTypes [(''day'', yesterday), (''week'', prevWeek), (''month'', prevMonth)] toDate i ac)"
proof -
  let ?ac0 = "InitCacheStorage vmTypes NewAggregatesCache"
  let ?periods = "[(''day'', yesterday), (''week'', prevWeek), (''month'', prevMonth)]"
  have init: "\<forall>i \<in> set ids. has_chain ?ac0 i"
    using assms(3) by (auto simp: has_chain_def InitCacheStorage_def)
  obtain ac k where run: "loop (update_chain fee vmTypes ?periods toDate) ids ?ac0 w = (Inr ac, w\<lparr>stmts := k\<rparr>)"
    "\<forall>i \<in> set ids. chain_done fee (store w) vmTypes ?periods toDate i ac" "\<forall>j. has_chain ?ac0 j \<longrightarrow> has_chain ac j"
    using update_chains_done [OF assms(1,2) init, of ?periods fee vmTypes toDate] assms(4-6) by auto
  have "has_chain ac i" if "i \<in> set ids" for i using run(3) init that by blast
  with run show ?thesis by (fastforce simp: scheduler_round_def has_chain_def)
qed

section \<open>Properties\<close>

text \<open>C32: The aggregates that are served.  When the database answers, a round of the scheduler succeeds for all
  chains that were initialised, and from then on \<^verbatim>\<open>Aggregate\<close> and \<^verbatim>\<open>TxfeeAggregate\<close> answer a
  request for one of these chains with the number of its transactions and with their fees in the period
  that fits the requested days: a day for up to one whole day, a week for up to seven, a month beyond.
  On the C-chain these are the transactions of the blocks from the first of the period to the last that is
  known, provided that no block has more than a thousand.\<close>

theorem scheduler_serves:
  assumes "calm w" and "thousand (store w)" and "\<forall>i \<in> set ids. i \<in> dom vmTypes"
    and "yesterday \<noteq> zero_time" "prevWeek \<noteq> zero_time" "prevMonth \<noteq> zero_time"
  shows "\<exists>ac w'. scheduler_round fee vmTypes ids toDate yesterday prevWeek prevMonth (InitCacheStorage vmTypes NewAggregatesCache) w =
      (Inr ac, w') \<and> store w' = store w \<and>
    (\<forall>i \<in> set ids. \<forall>lp n.
      let days = whole_days (Sub (lp_EndTime lp) (lp_StartTime lp));
          from = (if days \<le> 1 then yesterday else if days \<le> 7 then prevWeek else prevMonth) in
      Aggregate ac \<lparr>ag_ListParams = lp, ag_ChainIDs = [i], ag_AssetID = None, ag_IntervalSize = n\<rparr> =
        Inr (tx_number (store w) vmTypes i from toDate, lp_StartTime lp, lp_EndTime lp) \<and>
      TxfeeAggregate ac \<lparr>fa_ListParams = lp, fa_IntervalSize = n, fa_ChainIDs = [i]\<rparr> =
        Inr (tx_fees fee (store w) vmTypes i from toDate, lp_StartTime lp, lp_EndTime lp))"
proof -
  obtain ac w' where run: "scheduler_round fee vmTypes ids toDate yesterday prevWeek prevMonth (InitCacheStorage vmTypes NewAggregatesCache) w = (Inr ac, w')"
    "store w' = store w" and ids: "\<forall>i \<in> set ids. aggregateTransactionsMap ac \<noteq> Map.empty \<and> aggregateFeesMap ac \<noteq> Map.empty \<and>
      chain_done fee (store w) vmTypes [(''day'', yesterday), (''week'', prevWeek), (''month'', prevMonth)] toDate i ac"
    using scheduler_cached [OF assms, of fee toDate] by blast
  show ?thesis
    using run ids
    by (auto simp: Let_def Aggregate_def TxfeeAggregate_def read_cache_def chain_done_def GetDatepartBasedOnDateParams_def)
qed

definition busy_db :: database where
  "busy_db = settled_db\<lparr>avm_outputs := [(sample_output ''1'' 30)\<lparr>out_CreatedAt := 50\<rparr>, (sample_output ''2'' 12)\<lparr>out_CreatedAt := 60\<rparr>]\<rparr>"

theorem scheduler_serves_witness:
  "\<exists>ac w'. scheduler_round (\<lambda>p u. p * u) [''X'' \<mapsto> ''avm''] [''X''] 100 55 10 5
       (InitCacheStorage [''X'' \<mapsto> ''avm''] NewAggregatesCache) (calm_sample\<lparr>store := busy_db\<rparr>) = (Inr ac, w') \<and>
     Aggregate ac \<lparr>ag_ListParams = zero_params\<lparr>lp_StartTime := 0, lp_EndTime := 3 * 86400 * second\<rparr>, ag_ChainIDs = [''X''],
       ag_AssetID = None, ag_IntervalSize = 0\<rparr> = Inr (2, 0, 3 * 86400 * second)"
proof -
  let ?w = "calm_sample\<lparr>store := busy_db\<rparr>"
  let ?lp = "zero_params\<lparr>lp_StartTime := 0, lp_EndTime := 3 * 86400 * second\<rparr>"
  have calm: "calm ?w" "thousand (store ?w)"
    by (simp_all add: calm_def calm_sample_def sample_world_def busy_db_def thousand_def settled_db_defs)
  have days: "whole_days (Sub (lp_EndTime ?lp) (lp_StartTime ?lp)) = 3"
    by (simp add: whole_days_def Sub_def second_def)
  have number: "tx_number busy_db [''X'' \<mapsto> ''avm''] ''X'' 10 100 = 2"
    by code_simp
  obtain ac w' where run: "scheduler_round (\<lambda>p u. p * u) [''X'' \<mapsto> ''avm''] [''X''] 100 55 10 5
      (InitCacheStorage [''X'' \<mapsto> ''avm''] NewAggregatesCache) ?w = (Inr ac, w')"
    "\<forall>i \<in> set [''X'']. \<forall>lp n.
      let days = whole_days (Sub (lp_EndTime lp) (lp_StartTime lp));
          from = (if days \<le> 1 then 55 else if days \<le> 7 then 10 else 5) in
      Aggregate ac \<lparr>ag_ListParams = lp, ag_ChainIDs = [i], ag_AssetID = None, ag_IntervalSize = n\<rparr> =
        Inr (tx_number (store ?w) [''X'' \<mapsto> ''avm''] i from 100, lp_StartTime lp, lp_EndTime lp)"
    using scheduler_serves [OF calm, of "[''X'']" "[''X'' \<mapsto> ''avm'']" 55 10 5 "\<lambda>p u. p * u" 100]
    by (auto simp: zero_time_def Let_def)
  from run(2) have "Aggregate ac \<lparr>ag_ListParams = ?lp, ag_ChainIDs = [''X''], ag_AssetID = None, ag_IntervalSize = 0\<rparr> =
      Inr (tx_number busy_db [''X'' \<mapsto> ''avm''] ''X'' 10 100, lp_StartTime ?lp, lp_EndTime ?lp)"
    unfolding Let_def using days by simp
  with run(1) number show ?thesis by auto
qed

section \<open>Merging sorted histograms\<close>

definition by_id :: "('a \<Rightarrow> int) \<Rightarrow> 'a list \<Rightarrow> bool" where
  "by_id eid xs \<longleftrightarrow> sorted_wrt (<) (map eid xs)"

lemma split_sorted:
  assumes "by_id eid src"
  obtains as bs where "takeWhile (\<lambda>s. eid s < i) src = as" "dropWhile (\<lambda>s. eid s < i) src = bs" "src = as @ bs"
    "by_id eid as" "by_id eid bs" "\<forall>s \<in> set as. eid s < i" "\<forall>s \<in> set bs. i \<le> eid s"
proof
  let ?as = "takeWhile (\<lambda>s. eid s < i) src" and ?bs = "dropWhile (\<lambda>s. eid s < i) src"
  show "src = ?as @ ?bs" by simp
  with assms have parts: "by_id eid (?as @ ?bs)" by simp
  then show "by_id eid ?as" "by_id eid ?bs" unfolding by_id_def map_append sorted_wrt_append by blast+
  show "\<forall>s \<in> set ?as. eid s < i" by (auto dest: set_takeWhileD)
  show "\<forall>s \<in> set ?bs. i \<le> eid s"
  proof (cases ?bs)
    case (Cons b bs)
    then have "i \<le> eid b" using hd_dropWhile [of "\<lambda>s. eid s < i" src] by fastforce
    with Cons \<open>by_id eid ?bs\<close> show ?thesis by (auto simp: by_id_def)
  next
    case Nil
    show ?thesis unfolding Nil by simp
  qed
qed simp_all

lemma MergeAggregates_ids:
  assumes "\<And>x y. eid (mrg x y) = eid x"
  shows "eid ` set (MergeAggregates eid mrg dst src) = eid ` set dst \<union> eid ` set src"
proof (induction dst arbitrary: src)
  case (Cons x dst)
  obtain as bs where s: "takeWhile (\<lambda>s. eid s < eid x) src = as" "dropWhile (\<lambda>s. eid s < eid x) src = bs" "src = as @ bs"
    by (metis takeWhile_dropWhile_id)
  show ?case unfolding MergeAggregates.simps s(1,2) unfolding s(3)
    by (cases bs) (auto simp: Cons assms image_Un)
qed simp

lemma find_append: "find P (xs @ ys) = (case find P xs of None \<Rightarrow> find P ys | Some x \<Rightarrow> Some x)"
  by (induction xs) simp_all

lemma find_id_None: "find (\<lambda>x. eid x = i) xs = None \<longleftrightarrow> i \<notin> eid ` set xs"
  by (auto simp: find_None_iff)

text \<open>Merging histograms.  When both lists have their intervals in ascending order, the merged list has
  them in ascending order too; an interval of both lists appears once, merged, and every other one appears
  unchanged.\<close>

theorem MergeAggregates_merges:
  assumes "by_id eid dst" "by_id eid src" "\<And>x y. eid (mrg x y) = eid x"
  shows "by_id eid (MergeAggregates eid mrg dst src) \<and>
    (\<forall>i. find (\<lambda>x. eid x = i) (MergeAggregates eid mrg dst src) =
      (case find (\<lambda>x. eid x = i) dst of
         None \<Rightarrow> find (\<lambda>x. eid x = i) src
       | Some x \<Rightarrow> (case find (\<lambda>x. eid x = i) src of None \<Rightarrow> Some x | Some s \<Rightarrow> Some (mrg x s))))"
  using assms(1,2)
proof (induction dst arbitrary: src)
  case (Cons x dst)
  have dst: "by_id eid dst" "\<forall>y \<in> set dst. eid x < eid y" using Cons.prems(1) by (auto simp: by_id_def)
  obtain as bs where s: "takeWhile (\<lambda>s. eid s < eid x) src = as" "dropWhile (\<lambda>s. eid s < eid x) src = bs" "src = as @ bs"
    "by_id eid as" "by_id eid bs" "\<forall>s \<in> set as. eid s < eid x" "\<forall>s \<in> set bs. eid x \<le> eid s"
    using split_sorted [OF Cons.prems(2)] by blast
  let ?M = "MergeAggregates eid mrg dst"
  obtain y rest where step: "MergeAggregates eid mrg (x # dst) src = as @ y # ?M rest" "eid y = eid x" "by_id eid rest"
    "\<forall>s \<in> set rest. eid x < eid s"
    "bs = rest \<and> y = x \<or> (\<exists>b. bs = b # rest \<and> eid b = eid x \<and> y = mrg x b)"
  proof (cases bs)
    case Nil
    then show ?thesis using that [of x "[]"] unfolding MergeAggregates.simps s(1,2) by (simp add: by_id_def)
  next
    case (Cons b rest)
    then show ?thesis
    proof (cases "eid b = eid x")
      case True
      with Cons s(5) assms(3) show ?thesis using that [of "mrg x b" rest] unfolding MergeAggregates.simps s(1,2) by (auto simp: by_id_def)
    next
      case False
      with Cons s(5,7) have "\<forall>s \<in> set bs. eid x < eid s" by (fastforce simp: by_id_def)
      with Cons False s(5) show ?thesis using that [of x bs] unfolding MergeAggregates.simps s(1,2) by auto
    qed
  qed
  note IH = Cons.IH [OF dst(1) step(3)]
  have ids: "\<forall>z \<in> set (?M rest). eid x < eid z"
    using MergeAggregates_ids [of eid mrg dst rest, OF assms(3)] dst(2) step(4) by (metis (no_types, lifting) Un_iff image_iff)
  have "by_id eid (as @ y # ?M rest)"
    using IH s(4,6) ids step(2) by (fastforce simp: by_id_def sorted_wrt_append)
  moreover have "find (\<lambda>z. eid z = i) (as @ y # ?M rest) =
      (case find (\<lambda>z. eid z = i) (x # dst) of
         None \<Rightarrow> find (\<lambda>z. eid z = i) src
       | Some z \<Rightarrow> (case find (\<lambda>z. eid z = i) src of None \<Rightarrow> Some z | Some s \<Rightarrow> Some (mrg z s)))" for i
  proof (cases "i \<le> eid x")
    case True
    then have "find (\<lambda>z. eid z = i) dst = None" using dst(2) by (force simp: find_None_iff)
    moreover have "i < eid x \<Longrightarrow> find (\<lambda>z. eid z = i) bs = None" "i < eid x \<Longrightarrow> find (\<lambda>z. eid z = i) (?M rest) = None"
      using s(7) ids by (force simp: find_None_iff)+
    moreover have "i = eid x \<Longrightarrow> find (\<lambda>z. eid z = i) as = None" "i = eid x \<Longrightarrow> find (\<lambda>z. eid z = i) rest = None"
      using s(6) step(4) by (force simp: find_None_iff)+
    ultimately show ?thesis using True step(2,5) unfolding s(3) find_append
      by (cases "i = eid x") (auto split: option.split)
  next
    case False
    then have "find (\<lambda>z. eid z = i) as = None" using s(6) by (force simp: find_None_iff)
    moreover have "find (\<lambda>z. eid z = i) bs = find (\<lambda>z. eid z = i) rest" using step(5) False by auto
    ultimately show ?thesis using False step(2) IH unfolding s(3) find_append by (auto split: option.split)
  qed
  ultimately show ?case unfolding step(1) by blast
qed simp

theorem MergeAggregates_merges_witness:
  "by_id ti_IntervalID (MergeAggregates ti_IntervalID TxfeeAggregates_Merge
     [\<lparr>ti_IntervalID = 1, ti_Txfee = 5\<rparr>, \<lparr>ti_IntervalID = 4, ti_Txfee = 2\<rparr>]
     [\<lparr>ti_IntervalID = 0, ti_Txfee = 1\<rparr>, \<lparr>ti_IntervalID = 4, ti_Txfee = 3\<rparr>]) \<and>
   find (\<lambda>x. ti_IntervalID x = 4) (MergeAggregates ti_IntervalID TxfeeAggregates_Merge
     [\<lparr>ti_IntervalID = 1, ti_Txfee = 5\<rparr>, \<lparr>ti_IntervalID = 4, ti_Txfee = 2\<rparr>]
     [\<lparr>ti_IntervalID = 0, ti_Txfee = 1\<rparr>, \<lparr>ti_IntervalID = 4, ti_Txfee = 3\<rparr>]) = Some \<lparr>ti_IntervalID = 4, ti_Txfee = 5\<rparr>"
proof -
  let ?dst = "[\<lparr>ti_IntervalID = 1, ti_Txfee = 5\<rparr>, \<lparr>ti_IntervalID = 4, ti_Txfee = 2\<rparr>]"
  let ?src = "[\<lparr>ti_IntervalID = 0, ti_Txfee = 1\<rparr>, \<lparr>ti_IntervalID = 4, ti_Txfee = 3\<rparr>]"
  have "by_id ti_IntervalID ?dst" "by_id ti_IntervalID ?src" by (simp_all add: by_id_def)
  moreover have "ti_IntervalID (TxfeeAggregates_Merge x y) = ti_IntervalID x" for x y by (simp add: TxfeeAggregates_Merge_def)
  ultimately show ?thesis
    using MergeAggregates_merges [of ti_IntervalID ?dst ?src TxfeeAggregates_Merge] by (simp add: TxfeeAggregates_Merge_def)
qed

end
