(* ===== verification/Api_Server.thy ===== *)
theory Api_Server
  imports Aggregates_Cache Utils_Containers
begin

text \<open>
  The HTTP API: the handlers of \<^verbatim>\<open>src/api/v2.go\<close>, the context with the cached responses
  (\<^verbatim>\<open>src/api/context.go\<close>, \<^verbatim>\<open>src/api/utils.go\<close>), and the cache behind it
  (\<^verbatim>\<open>src/caching/cache.go\<close>, \<^verbatim>\<open>src/caching/delay_cache.go\<close>, \<^verbatim>\<open>src/utils/worker.go\<close>).

  A handler reads the request and either rejects it or names the reader that answers it, with the key
  under which the answer is cached and its time to live; metrics have no effect on it.  What a reader
  answers, as JSON, is an argument of \<open>WriteCacheable\<close>.  Answers are not put into the cache at once but
  queued for a worker.  The step relation \<open>api_step\<close> interleaves requests, the worker and the sweep of
  expired items.
\<close>

section \<open>The cache\<close>

definition KeyFromParts :: "string list \<Rightarrow> string" where
  "KeyFromParts parts = Join parts ''|''"

definition caching_CacheKey :: "u32 \<Rightarrow> string list \<Rightarrow> string" where
  "caching_CacheKey networkID parts = KeyFromParts (dec_nat (unat networkID) # parts)"

definition ErrNotFound_cache :: goerr where
  "ErrNotFound_cache = ''not found''"

definition cacheContainer_Get :: "(string \<Rightarrow> u8) \<Rightarrow> gotime \<Rightarrow> string \<Rightarrow> bucket list \<Rightarrow> goerr + bytes" where
  "cacheContainer_Get chk now key m = (case LCache_Get chk now key m of None \<Rightarrow> Inl ErrNotFound_cache | Some v \<Rightarrow> Inr v)"

definition cacheContainer_Set :: "(string \<Rightarrow> u8) \<Rightarrow> gotime \<Rightarrow> string \<Rightarrow> bytes \<Rightarrow> int \<Rightarrow> bucket list \<Rightarrow> bucket list" where
  "cacheContainer_Set chk now key b ttl m = LCache_Put chk now key b ttl m"

record CacheJob =
  cj_Key :: string
  cj_Body :: bytes
  cj_TTL :: int

definition WorkerQueueSize :: nat where
  "WorkerQueueSize = 10"

record DelayCache =
  dc_Cache :: "bucket list"
  dc_jobCh :: "CacheJob list"

definition NewDelayCache :: "bucket list \<Rightarrow> DelayCache" where
  "NewDelayCache cache = \<lparr>dc_Cache = cache, dc_jobCh = []\<rparr>"

text \<open>A job that finds the channel full is dropped.\<close>

definition TryEnque :: "CacheJob \<Rightarrow> DelayCache \<Rightarrow> DelayCache" where
  "TryEnque job dc = (if length (dc_jobCh dc) < WorkerQueueSize then dc\<lparr>dc_jobCh := dc_jobCh dc @ [job]\<rparr> else dc)"

definition Processor :: "(string \<Rightarrow> u8) \<Rightarrow> gotime \<Rightarrow> CacheJob \<Rightarrow> DelayCache \<Rightarrow> DelayCache" where
  "Processor chk now j dc = dc\<lparr>dc_Cache := cacheContainer_Set chk now (cj_Key j) (cj_Body j) (cj_TTL j) (dc_Cache dc)\<rparr>"

section \<open>Readers and responses\<close>

text \<open>The reader that a handler calls, with its parameters.\<close>

datatype reader_call =
  CallSearch ListParams
| CallTxfeeAggregate TxfeeAggregateParams
| CallAggregate AggregateParams
| CallListTransactions ListTransactionsParams
| CallGetTransaction bytes
| CallListCTransactions ListCTransactionsParams
| CallListCBlocks ListCBlocksParams
| CallListAddresses ListAddressesParams
| CallGetAddress ListAddressesParams
| CallAddressChains AddressChainsParams
| CallListOutputs ListOutputsParams
| CallGetOutput bytes
| CallListAssets ListAssetsParams
| CallGetAsset ListAssetsParams string
| CallListBlocks ListParams
| CallGetBlock bytes

record Cacheable =
  cc_Key :: "string list"
  cc_CacheableFn :: reader_call
  cc_TTL :: int

datatype response = Response nat bytes | ErrorResponse nat goerr

definition ErrCacheableFnFailed :: goerr where
  "ErrCacheableFnFailed = ''failed to load resource''"

text \<open>\<open>answer\<close> is what the reader returns, marshalled; it is used only when the cache has nothing.\<close>

definition WriteCacheable ::
  "(string \<Rightarrow> u8) \<Rightarrow> u32 \<Rightarrow> gotime \<Rightarrow> Cacheable \<Rightarrow> goerr + bytes \<Rightarrow> DelayCache \<Rightarrow> response \<times> DelayCache" where
  "WriteCacheable chk networkID now cacheable answer dc =
     (let key = caching_CacheKey networkID (cc_Key cacheable) in
      case cacheContainer_Get chk now key (dc_Cache dc) of
        Inr resp \<Rightarrow> (Response 200 resp, dc)
      | Inl _ \<Rightarrow>
          (case answer of
             Inr resp \<Rightarrow> (Response 200 resp, TryEnque \<lparr>cj_Key = key, cj_Body = resp, cj_TTL = cc_TTL cacheable\<rparr> dc)
           | Inl _ \<Rightarrow> (ErrorResponse 500 ErrCacheableFnFailed, dc)))"

definition cacheKeyForID :: "string \<Rightarrow> string \<Rightarrow> string list" where
  "cacheKeyForID name i = [''djtx'', name, CacheKey ''id'' i]"

definition cacheKeyForParams :: "string \<Rightarrow> string list \<Rightarrow> string list" where
  "cacheKeyForParams name pkey = [''djtx'', name] @ pkey"

section \<open>Handlers\<close>

definition DefaultLimit :: int where
  "DefaultLimit = 1000"

definition DefaultOffsetLimit :: int where
  "DefaultOffsetLimit = 10000"

record V2Context =
  v2_version :: u8
  v2_chainID :: "bytes option"

text \<open>The middleware of \<^verbatim>\<open>AddV2Routes\<close>.\<close>

definition v2_middleware :: "bytes option \<Rightarrow> V2Context" where
  "v2_middleware chainID = \<lparr>v2_version = (if chainID \<noteq> None then 1 else 2), v2_chainID = chainID\<rparr>"

text \<open>A handler ends with an error response or with a cacheable.\<close>

datatype handled = BadRequest goerr | Handled Cacheable | HandlerPanic

definition handle :: "goerr + Cacheable \<Rightarrow> handled" where
  "handle r = (case r of Inl err \<Rightarrow> BadRequest err | Inr c \<Rightarrow> Handled c)"

definition V2_Search :: "parselib \<Rightarrow> nodelib \<Rightarrow> gotime \<Rightarrow> V2Context \<Rightarrow> Values \<Rightarrow> handled" where
  "V2_Search T L now c q =
     handle (bind_err (ForValues T now (v2_version c) q) (\<lambda>p.
       Inr \<lparr>cc_Key = cacheKeyForParams ''search'' (ListParams_CacheKey L p), cc_CacheableFn = CallSearch p, cc_TTL = 0\<rparr>))"

definition V2_TxfeeAggregate :: "parselib \<Rightarrow> nodelib \<Rightarrow> gotime \<Rightarrow> V2Context \<Rightarrow> Values \<Rightarrow> handled" where
  "V2_TxfeeAggregate T L now c q =
     handle (bind_err (TxfeeAggregateParams_ForValues T now (v2_version c) q) (\<lambda>p0.
       let p = p0\<lparr>fa_ChainIDs := ForValueChainID L (v2_chainID c) (fa_ChainIDs p0)\<rparr> in
       Inr \<lparr>cc_Key = cacheKeyForParams ''aggregate_txfee'' (TxfeeAggregateParams_CacheKey L p),
            cc_CacheableFn = CallTxfeeAggregate p, cc_TTL = 0\<rparr>))"

definition V2_Aggregate :: "parselib \<Rightarrow> nodelib \<Rightarrow> gotime \<Rightarrow> V2Context \<Rightarrow> Values \<Rightarrow> handled" where
  "V2_Aggregate T L now c q =
     handle (bind_err (AggregateParams_ForValues T now (v2_version c) q) (\<lambda>p0.
       let p = p0\<lparr>ag_ChainIDs := ForValueChainID L (v2_chainID c) (ag_ChainIDs p0)\<rparr> in
       Inr \<lparr>cc_Key = cacheKeyForParams ''aggregate'' (AggregateParams_CacheKey L p),
            cc_CacheableFn = CallAggregate p, cc_TTL = 0\<rparr>))"

definition V2_ListTransactions :: "parselib \<Rightarrow> nodelib \<Rightarrow> gotime \<Rightarrow> V2Context \<Rightarrow> Values \<Rightarrow> handled" where
  "V2_ListTransactions T L now c q =
     handle (bind_err (ListTransactionsParams_ForValues T now (v2_version c) q) (\<lambda>p0.
       let p = p0\<lparr>lt_ChainIDs := ForValueChainID L (v2_chainID c) (lt_ChainIDs p0)\<rparr> in
       if lp_Offset (lt_ListParams p) > DefaultOffsetLimit then Inl ''invalid offset''
       else Inr \<lparr>cc_Key = cacheKeyForParams ''list_transactions'' (ListTransactionsParams_CacheKey L p),
                 cc_CacheableFn = CallListTransactions p, cc_TTL = 5 * second\<rparr>))"

text \<open>\<^verbatim>\<open>mergeValues\<close> appends the values of the query to those of the body.\<close>

definition mergeValues :: "Values \<Rightarrow> Values \<Rightarrow> Values" where
  "mergeValues a b k =
     (case b k of None \<Rightarrow> a k | Some v \<Rightarrow> (case a k of Some u \<Rightarrow> Some (u @ v) | None \<Rightarrow> Some v))"

text \<open>\<open>body\<close> is what has been read of the body, \<open>unmarshal\<close> is \<^verbatim>\<open>json.Unmarshal\<close>.\<close>

definition ParseGetJSON :: "(string \<Rightarrow> goerr + Values) \<Rightarrow> (goerr + string) option \<Rightarrow> Values \<Rightarrow> goerr + Values" where
  "ParseGetJSON unmarshal body q =
     (case body of
        None \<Rightarrow> Inr q
      | Some (Inl err) \<Rightarrow> Inl err
      | Some (Inr s) \<Rightarrow>
          if length s > 0 then bind_err (unmarshal s) (\<lambda>qdata. Inr (mergeValues qdata q)) else Inr q)"

definition V2_ListTransactionsPost ::
  "parselib \<Rightarrow> nodelib \<Rightarrow> (string \<Rightarrow> goerr + Values) \<Rightarrow> gotime \<Rightarrow> V2Context \<Rightarrow> (goerr + string) option \<Rightarrow> Values \<Rightarrow> handled" where
  "V2_ListTransactionsPost T L unmarshal now c body q =
     (case ParseGetJSON unmarshal body q of
        Inl err \<Rightarrow> BadRequest err
      | Inr q1 \<Rightarrow> V2_ListTransactions T L now c q1)"

definition V2_GetTransaction :: "parselib \<Rightarrow> string \<Rightarrow> handled" where
  "V2_GetTransaction T pathID =
     handle (bind_err (pl_FromString T pathID) (\<lambda>i.
       Inr \<lparr>cc_Key = cacheKeyForID ''get_transaction'' pathID, cc_CacheableFn = CallGetTransaction i, cc_TTL = 5 * second\<rparr>))"

definition V2_ListCTransactions :: "parselib \<Rightarrow> nodelib \<Rightarrow> gotime \<Rightarrow> gotime \<Rightarrow> V2Context \<Rightarrow> Values \<Rightarrow> handled" where
  "V2_ListCTransactions T L now later c q =
     handle (bind_err (ListCTransactionsParams_ForValues T now later (v2_version c) q) (\<lambda>p.
       if lp_Offset (ct_ListParams p) > DefaultOffsetLimit then Inl ''invalid offset''
       else Inr \<lparr>cc_Key = cacheKeyForParams ''list_ctransactions'' (ListCTransactionsParams_CacheKey L p),
                 cc_CacheableFn = CallListCTransactions p, cc_TTL = 5 * second\<rparr>))"

definition V2_ListCBlocks :: "parselib \<Rightarrow> nodelib \<Rightarrow> gotime \<Rightarrow> V2Context \<Rightarrow> Values \<Rightarrow> handled" where
  "V2_ListCBlocks T L now c q =
     handle (bind_err (ListCBlocksParams_ForValues T now (v2_version c) q) (\<lambda>p.
       if lp_Limit (cb_ListParams p) > DefaultLimit then Inl ''invalid block limit''
       else if cb_TxLimit p > DefaultLimit then Inl ''invalid tx limit''
       else if lp_Offset (cb_ListParams p) > DefaultOffsetLimit then Inl ''invalid block offset''
       else Inr \<lparr>cc_Key = cacheKeyForParams ''list_cblocks'' (ListCBlocksParams_CacheKey L p),
                 cc_CacheableFn = CallListCBlocks p, cc_TTL = 5 * second\<rparr>))"

definition V2_ListAddresses :: "parselib \<Rightarrow> nodelib \<Rightarrow> gotime \<Rightarrow> V2Context \<Rightarrow> Values \<Rightarrow> handled" where
  "V2_ListAddresses T L now c q =
     handle (bind_err (ListAddressesParams_ForValues T now (v2_version c) q) (\<lambda>p0.
       let p = p0\<lparr>ad_ChainIDs := ForValueChainID L (v2_chainID c) (ad_ChainIDs p0),
                  ad_ListParams := (ad_ListParams p0)\<lparr>lp_DisableCounting := True\<rparr>\<rparr> in
       Inr \<lparr>cc_Key = cacheKeyForParams ''list_addresses'' (ListAddressesParams_CacheKey L p),
            cc_CacheableFn = CallListAddresses p, cc_TTL = 5 * second\<rparr>))"

definition V2_GetAddress :: "parselib \<Rightarrow> nodelib \<Rightarrow> gotime \<Rightarrow> V2Context \<Rightarrow> Values \<Rightarrow> string \<Rightarrow> handled" where
  "V2_GetAddress T L now c q pathID =
     handle (bind_err (ListAddressesParams_ForValues T now (v2_version c) q) (\<lambda>p0.
       bind_err (AddressFromString T pathID) (\<lambda>i.
       let p = p0\<lparr>ad_Address := Some i, ad_ListParams := (ad_ListParams p0)\<lparr>lp_DisableCounting := True\<rparr>,
                  ad_ChainIDs := ForValueChainID L (v2_chainID c) (ad_ChainIDs p0)\<rparr> in
       Inr \<lparr>cc_Key = cacheKeyForParams ''get_address'' (ListAddressesParams_CacheKey L p),
            cc_CacheableFn = CallGetAddress p, cc_TTL = 1 * second\<rparr>)))"

definition V2_AddressChains :: "parselib \<Rightarrow> nodelib \<Rightarrow> gotime \<Rightarrow> V2Context \<Rightarrow> Values \<Rightarrow> handled" where
  "V2_AddressChains T L now c q =
     handle (bind_err (AddressChainsParams_ForValues T now (v2_version c) q) (\<lambda>p.
       Inr \<lparr>cc_Key = cacheKeyForParams ''address_chains'' (AddressChainsParams_CacheKey L p),
            cc_CacheableFn = CallAddressChains p, cc_TTL = 5 * second\<rparr>))"

definition V2_AddressChainsPost ::
  "parselib \<Rightarrow> nodelib \<Rightarrow> (string \<Rightarrow> goerr + Values) \<Rightarrow> gotime \<Rightarrow> V2Context \<Rightarrow> (goerr + string) option \<Rightarrow> Values \<Rightarrow> handled" where
  "V2_AddressChainsPost T L unmarshal now c body q =
     (case ParseGetJSON unmarshal body q of
        Inl err \<Rightarrow> BadRequest err
      | Inr q1 \<Rightarrow> V2_AddressChains T L now c q1)"

definition V2_ListOutputs :: "parselib \<Rightarrow> nodelib \<Rightarrow> gotime \<Rightarrow> V2Context \<Rightarrow> Values \<Rightarrow> handled" where
  "V2_ListOutputs T L now c q =
     (case ListOutputsParams_ForValues T now (v2_version c) q of
        OutputsPanic \<Rightarrow> HandlerPanic
      | OutputsError err \<Rightarrow> BadRequest err
      | OutputsParams p0 \<Rightarrow>
          let p = p0\<lparr>lo_ChainIDs := ForValueChainID L (v2_chainID c) (lo_ChainIDs p0)\<rparr> in
          Handled \<lparr>cc_Key = cacheKeyForParams ''list_outputs'' (ListOutputsParams_CacheKey L p),
                   cc_CacheableFn = CallListOutputs p, cc_TTL = 5 * second\<rparr>)"

definition V2_GetOutput :: "parselib \<Rightarrow> string \<Rightarrow> handled" where
  "V2_GetOutput T pathID =
     handle (bind_err (pl_FromString T pathID) (\<lambda>i.
       Inr \<lparr>cc_Key = cacheKeyForID ''get_output'' pathID, cc_CacheableFn = CallGetOutput i, cc_TTL = 0\<rparr>))"

definition V2_ListAssets :: "parselib \<Rightarrow> nodelib \<Rightarrow> gotime \<Rightarrow> V2Context \<Rightarrow> Values \<Rightarrow> handled" where
  "V2_ListAssets T L now c q =
     handle (bind_err (ListAssetsParams_ForValues T now (v2_version c) q []) (\<lambda>p.
       Inr \<lparr>cc_Key = cacheKeyForParams ''list_assets'' (ListAssetsParams_CacheKey L p), cc_CacheableFn = CallListAssets p, cc_TTL = 0\<rparr>))"

definition V2_GetAsset :: "parselib \<Rightarrow> nodelib \<Rightarrow> gotime \<Rightarrow> V2Context \<Rightarrow> Values \<Rightarrow> string \<Rightarrow> handled" where
  "V2_GetAsset T L now c q pathID =
     handle (bind_err (ListAssetsParams_ForValues T now (v2_version c) q pathID) (\<lambda>p.
       Inr \<lparr>cc_Key = cacheKeyForParams ''get_asset'' (ListAssetsParams_CacheKey L p),
            cc_CacheableFn = CallGetAsset p pathID, cc_TTL = 0\<rparr>))"

definition V2_ListBlocks :: "parselib \<Rightarrow> nodelib \<Rightarrow> gotime \<Rightarrow> V2Context \<Rightarrow> Values \<Rightarrow> handled" where
  "V2_ListBlocks T L now c q =
     handle (bind_err (ForValues T now (v2_version c) q) (\<lambda>p.
       Inr \<lparr>cc_Key = cacheKeyForParams ''list_blocks'' (ListParams_CacheKey L p), cc_CacheableFn = CallListBlocks p, cc_TTL = 5 * second\<rparr>))"

definition V2_GetBlock :: "parselib \<Rightarrow> string \<Rightarrow> handled" where
  "V2_GetBlock T pathID =
     handle (bind_err (pl_FromString T pathID) (\<lambda>i.
       Inr \<lparr>cc_Key = cacheKeyForID ''get_block'' pathID, cc_CacheableFn = CallGetBlock i, cc_TTL = 0\<rparr>))"

section \<open>Requests, the worker and the sweep\<close>

text \<open>\<open>api_busy\<close> is the job that the one thread of the worker has taken from the channel and not finished.  The
  history records every run of a reader with the full key, the answer and the time.\<close>

record api_state =
  api_clock :: gotime
  api_cache :: DelayCache
  api_busy :: "CacheJob option"
  api_history :: "(string \<times> bytes \<times> gotime) list"

definition api_init :: "gotime \<Rightarrow> api_state" where
  "api_init now = \<lparr>api_clock = now, api_cache = NewDelayCache NewTTLMap, api_busy = None, api_history = []\<rparr>"

definition ran :: "(string \<Rightarrow> u8) \<Rightarrow> u32 \<Rightarrow> gotime \<Rightarrow> Cacheable \<Rightarrow> goerr + bytes \<Rightarrow> DelayCache \<Rightarrow> (string \<times> bytes \<times> gotime) list" where
  "ran chk networkID now c answer dc =
     (let key = caching_CacheKey networkID (cc_Key c) in
      case (cacheContainer_Get chk now key (dc_Cache dc), answer) of (Inl _, Inr b) \<Rightarrow> [(key, b, now)] | _ \<Rightarrow> [])"

inductive api_step :: "(string \<Rightarrow> u8) \<Rightarrow> u32 \<Rightarrow> api_state \<Rightarrow> api_state \<Rightarrow> bool"
  for chk networkID where
  request: "api_clock s \<le> now \<Longrightarrow> WriteCacheable chk networkID now c answer (api_cache s) = (r, dc) \<Longrightarrow>
     api_step chk networkID s \<lparr>api_clock = now, api_cache = dc, api_busy = api_busy s,
       api_history = api_history s @ ran chk networkID now c answer (api_cache s)\<rparr>"
| takes: "dc_jobCh (api_cache s) = j # js \<Longrightarrow> api_busy s = None \<Longrightarrow>
     api_step chk networkID s (s\<lparr>api_cache := (api_cache s)\<lparr>dc_jobCh := js\<rparr>, api_busy := Some j\<rparr>)"
| works: "api_clock s \<le> now \<Longrightarrow> api_busy s = Some j \<Longrightarrow>
     api_step chk networkID s (s\<lparr>api_clock := now, api_cache := Processor chk now j (api_cache s), api_busy := None\<rparr>)"
| sweeps: "api_clock s \<le> now \<Longrightarrow> now \<le> later \<Longrightarrow>
     api_step chk networkID s (s\<lparr>api_clock := later,
       api_cache := (api_cache s)\<lparr>dc_Cache := sweep now later (dc_Cache (api_cache s))\<rparr>\<rparr>)"

text \<open>What is cached or queued under a key was answered under that key.\<close>

definition answered :: "api_state \<Rightarrow> string \<Rightarrow> bytes \<Rightarrow> bool" where
  "answered s k b \<longleftrightarrow> (\<exists>t. (k, b, t) \<in> set (api_history s) \<and> t \<le> api_clock s)"

definition api_inv :: "api_state \<Rightarrow> bool" where
  "api_inv s \<longleftrightarrow> length (dc_Cache (api_cache s)) = 256 \<and>
     (\<forall>m \<in> set (dc_Cache (api_cache s)). \<forall>k i. m k = Some i \<longrightarrow> answered s k (it_value i)) \<and>
     (\<forall>j \<in> set (dc_jobCh (api_cache s)) \<union> set_option (api_busy s). answered s (cj_Key j) (cj_Body j)) \<and>
     length (dc_jobCh (api_cache s)) \<le> WorkerQueueSize"

lemma answered_mono:
  "answered s k b \<Longrightarrow> set (api_history s) \<subseteq> set (api_history s') \<Longrightarrow> api_clock s \<le> api_clock s' \<Longrightarrow> answered s' k b"
  by (fastforce simp: answered_def)

lemma bucket_in: "length m = 256 \<Longrightarrow> m ! unat (x :: u8) \<in> set m"
  using unsigned_less [of x, where 'a = nat] by simp

lemma api_step_inv:
  assumes "api_step chk networkID s s'" and "api_inv s"
  shows "api_inv s'"
  using assms
proof (induction rule: api_step.induct)
  case (request s now c answer r dc)
  let ?s' = "\<lparr>api_clock = now, api_cache = dc, api_busy = api_busy s, api_history = api_history s @ ran chk networkID now c answer (api_cache s)\<rparr>"
  have mono: "answered s k b \<Longrightarrow> answered ?s' k b" for k b
    using request.hyps(1) by (auto intro: answered_mono)
  have "answered ?s' (caching_CacheKey networkID (cc_Key c)) b"
    if "cacheContainer_Get chk now (caching_CacheKey networkID (cc_Key c)) (dc_Cache (api_cache s)) = Inl e" "answer = Inr b" for b e
    using that by (auto simp: answered_def ran_def Let_def)
  with request.hyps(2) request.prems mono show ?case
    by (auto simp: api_inv_def WriteCacheable_def TryEnque_def Let_def split: sum.splits if_splits)
next
  case (takes s j js)
  then show ?case by (auto simp: api_inv_def answered_def)
next
  case (works s now j)
  let ?s' = "s\<lparr>api_clock := now, api_cache := Processor chk now j (api_cache s), api_busy := None\<rparr>"
  have mono: "answered s k b \<Longrightarrow> answered ?s' k b" for k b
    using works.hyps(1) by (auto intro: answered_mono)
  have "answered ?s' k (it_value i)"
    if "m \<in> set (LCache_Put chk now (cj_Key j) (cj_Body j) (cj_TTL j) (dc_Cache (api_cache s)))" "m k = Some i" for m k i
    using that works.prems works.hyps(2) mono bucket_in [of "dc_Cache (api_cache s)" "chk (cj_Key j)"]
    by (auto simp: api_inv_def LCache_Put_def Let_def split: option.splits if_splits dest!: set_update_subset_insert [THEN subsetD])
  then show ?case
    using works.prems works.hyps(2) mono
    by (auto simp: api_inv_def Processor_def cacheContainer_Set_def LCache_Put_def Let_def)
next
  case (sweeps s now later)
  let ?s' = "s\<lparr>api_clock := later, api_cache := (api_cache s)\<lparr>dc_Cache := sweep now later (dc_Cache (api_cache s))\<rparr>\<rparr>"
  have mono: "answered s k b \<Longrightarrow> answered ?s' k b" for k b
    using sweeps.hyps by (auto intro: answered_mono)
  show ?case
    using sweeps.prems mono by (auto simp: api_inv_def sweep_def sweep_bucket_def split: option.splits if_splits)
qed

lemma api_reachable_inv:
  assumes "(api_step chk networkID)\<^sup>*\<^sup>* (api_init t0) s"
  shows "api_inv s"
  using assms
proof (induction rule: rtranclp_induct)
  case base
  show ?case by (simp add: api_inv_def api_init_def NewDelayCache_def NewTTLMap_def)
next
  case (step s s')
  then show ?case by (blast intro: api_step_inv)
qed

section \<open>Properties\<close>

text \<open>C39: Cached responses are coherent.  In every interleaving of requests, the worker and the sweep, a
  response with a body is either what the reader answers now, or what a reader answered earlier for the
  same network and the same key; the response is an error exactly when nothing valid is cached and the
  reader fails, and never more than ten answers wait to be cached.\<close>

theorem WriteCacheable_coherent:
  assumes "(api_step chk networkID)\<^sup>*\<^sup>* (api_init t0) s"
    and "WriteCacheable chk networkID now c answer (api_cache s) = (r, dc)"
  shows "(case r of
            Response code b \<Rightarrow> code = 200 \<and> (answer = Inr b \<or> answered s (caching_CacheKey networkID (cc_Key c)) b)
          | ErrorResponse code e \<Rightarrow> code = 500 \<and> e = ErrCacheableFnFailed \<and> isl answer \<and> dc = api_cache s) \<and>
    length (dc_jobCh dc) \<le> 10"
proof -
  let ?k = "caching_CacheKey networkID (cc_Key c)"
  have inv: "api_inv s" using assms(1) by (rule api_reachable_inv)
  then have "answered s ?k b" if "cacheContainer_Get chk now ?k (dc_Cache (api_cache s)) = Inr b" for b
    using that bucket_in [of "dc_Cache (api_cache s)" "chk ?k"]
    by (auto simp: cacheContainer_Get_def LCache_Get_def api_inv_def split: option.splits if_splits)
  with assms(2) inv show ?thesis
    by (auto simp: WriteCacheable_def TryEnque_def api_inv_def WorkerQueueSize_def Let_def
        split: sum.splits if_splits)
qed

text \<open>A request that finds nothing valid, and the worker's turn after it.\<close>

definition miss_and_work ::
  "(string \<Rightarrow> u8) \<Rightarrow> u32 \<Rightarrow> gotime \<Rightarrow> Cacheable \<Rightarrow> bytes \<Rightarrow> api_state \<Rightarrow> api_state" where
  "miss_and_work chk networkID now c b s =
     (let k = caching_CacheKey networkID (cc_Key c) in
      \<lparr>api_clock = now,
       api_cache = \<lparr>dc_Cache = LCache_Put chk now k b (cc_TTL c) (dc_Cache (api_cache s)), dc_jobCh = []\<rparr>,
       api_busy = None, api_history = api_history s @ [(k, b, now)]\<rparr>)"

lemma miss_and_work_steps:
  assumes "api_clock s \<le> now" and "dc_jobCh (api_cache s) = []" and "api_busy s = None"
    and "LCache_Get chk now (caching_CacheKey networkID (cc_Key c)) (dc_Cache (api_cache s)) = None"
  shows "(api_step chk networkID)\<^sup>*\<^sup>* s (miss_and_work chk networkID now c b s)"
proof -
  let ?k = "caching_CacheKey networkID (cc_Key c)"
  let ?j = "\<lparr>cj_Key = ?k, cj_Body = b, cj_TTL = cc_TTL c\<rparr>"
  let ?h = "api_history s @ [(?k, b, now)]"
  let ?s1 = "\<lparr>api_clock = now, api_cache = (api_cache s)\<lparr>dc_jobCh := [?j]\<rparr>, api_busy = None, api_history = ?h\<rparr>"
  let ?s2 = "\<lparr>api_clock = now, api_cache = api_cache s, api_busy = Some ?j, api_history = ?h\<rparr>"
  have miss: "cacheContainer_Get chk now ?k (dc_Cache (api_cache s)) = Inl ErrNotFound_cache"
    using assms(4) by (simp add: cacheContainer_Get_def)
  have "WriteCacheable chk networkID now c (Inr b) (api_cache s) = (Response 200 b, (api_cache s)\<lparr>dc_jobCh := [?j]\<rparr>)"
    using miss assms(2) by (simp add: WriteCacheable_def TryEnque_def WorkerQueueSize_def Let_def)
  from api_step.request [OF assms(1) this] have "api_step chk networkID s ?s1"
    using miss assms(3) by (simp add: ran_def Let_def)
  moreover have "api_step chk networkID ?s1 ?s2"
    using api_step.takes [of ?s1 ?j "[]" chk networkID] assms(2) by (cases "api_cache s") simp
  moreover have "api_step chk networkID ?s2 (miss_and_work chk networkID now c b s)"
    using api_step.works [of ?s2 now ?j chk networkID] assms(2)
    by (cases "api_cache s") (simp add: miss_and_work_def Processor_def cacheContainer_Set_def Let_def)
  ultimately show ?thesis by (meson converse_rtranclp_into_rtranclp rtranclp.rtrancl_refl)
qed

lemma put_twice_get:
  assumes "length m = 256" and "(m ! unat (chk k)) k = None" and "0 \<le> ttl"
  shows "LCache_Get chk now k m = None"
    and "LCache_Get chk (t0 + ttl + 1) k (LCache_Put chk t0 k v ttl m) = None"
    and "t \<le> t1 + ttl \<Longrightarrow>
      LCache_Get chk t k (LCache_Put chk t1 k w ttl (LCache_Put chk t0 k v ttl m)) = Some v"
  using assms chk_bound [of chk k]
  by (auto simp: LCache_Get_def LCache_Put_def expired_def Let_def)

text \<open>C40: A cached answer can outlive its time to live.  Whatever the endpoint, when an answer has expired but
  is not yet swept, the next request is answered afresh, yet the worker that stores the fresh answer
  only prolongs the old one, so that all requests for another time to live get the old answer back.\<close>

theorem WriteCacheable_stale:
  assumes "0 \<le> cc_TTL c"
  shows "\<exists>s. (api_step chk networkID)\<^sup>*\<^sup>* (api_init t0) s \<and>
    map (\<lambda>(k, b, t). (b, t)) (api_history s) = [(old, t0), (new, t0 + cc_TTL c + 1)] \<and>
    (\<forall>t answer. t0 + cc_TTL c + 1 \<le> t \<and> t \<le> t0 + cc_TTL c + 1 + cc_TTL c \<longrightarrow>
       WriteCacheable chk networkID t c answer (api_cache s) = (Response 200 old, api_cache s))"
proof -
  let ?k = "caching_CacheKey networkID (cc_Key c)" and ?t1 = "t0 + cc_TTL c + 1"
  let ?s1 = "miss_and_work chk networkID t0 c old (api_init t0)"
  let ?s2 = "miss_and_work chk networkID ?t1 c new ?s1"
  note get = put_twice_get [of NewTTLMap chk ?k "cc_TTL c"]
  have new: "length NewTTLMap = 256" "(NewTTLMap ! unat (chk ?k)) ?k = None"
    using chk_bound [of chk ?k] by (simp_all add: NewTTLMap_def)
  have "(api_step chk networkID)\<^sup>*\<^sup>* (api_init t0) ?s1"
    using get(1) [OF new assms] by (intro miss_and_work_steps) (simp_all add: api_init_def NewDelayCache_def)
  moreover have "(api_step chk networkID)\<^sup>*\<^sup>* ?s1 ?s2"
    using get(2) [OF new assms] assms
    by (intro miss_and_work_steps) (simp_all add: miss_and_work_def api_init_def NewDelayCache_def Let_def)
  moreover have "map (\<lambda>(k, b, t). (b, t)) (api_history ?s2) = [(old, t0), (new, ?t1)]"
    by (simp add: miss_and_work_def api_init_def Let_def)
  moreover have "WriteCacheable chk networkID t c answer (api_cache ?s2) = (Response 200 old, api_cache ?s2)"
    if "t \<le> ?t1 + cc_TTL c" for t answer
    using get(3) [OF new assms that]
    by (simp add: WriteCacheable_def cacheContainer_Get_def miss_and_work_def api_init_def NewDelayCache_def Let_def)
  ultimately show ?thesis by (meson rtranclp_trans)
qed

text \<open>A cacheable for the witnesses.\<close>

definition tx_cacheable :: Cacheable where
  "tx_cacheable = \<lparr>cc_Key = cacheKeyForID ''get_transaction'' ''tx1'', cc_CacheableFn = CallGetTransaction ''tx1'', cc_TTL = 5\<rparr>"

theorem WriteCacheable_coherent_witness:
  "\<exists>s dc. (api_step (\<lambda>_. 7) 5)\<^sup>*\<^sup>* (api_init 100) s \<and>
     WriteCacheable (\<lambda>_. 7) 5 103 tx_cacheable (Inr ''new'') (api_cache s) = (Response 200 ''old'', dc) \<and>
     answered s (caching_CacheKey 5 (cc_Key tx_cacheable)) ''old''"
proof -
  let ?s = "miss_and_work (\<lambda>_. 7) 5 100 tx_cacheable ''old'' (api_init 100)"
  have r: "(api_step (\<lambda>_. 7) 5)\<^sup>*\<^sup>* (api_init 100) ?s"
    by (rule miss_and_work_steps) (simp_all add: api_init_def NewDelayCache_def NewTTLMap_def LCache_Get_def)
  have w: "WriteCacheable (\<lambda>_. 7) 5 103 tx_cacheable (Inr ''new'') (api_cache ?s) = (Response 200 ''old'', api_cache ?s)"
    by (simp add: WriteCacheable_def cacheContainer_Get_def LCache_Get_def LCache_Put_def expired_def miss_and_work_def
        api_init_def NewDelayCache_def NewTTLMap_def tx_cacheable_def Let_def)
  from WriteCacheable_coherent [OF r w] r w show ?thesis by auto
qed

theorem WriteCacheable_stale_witness:
  "\<exists>s. (api_step (\<lambda>_. 7) 5)\<^sup>*\<^sup>* (api_init 100) s \<and>
    map (\<lambda>(k, b, t). (b, t)) (api_history s) = [(''old'', 100), (''new'', 106)] \<and>
    WriteCacheable (\<lambda>_. 7) 5 111 tx_cacheable (Inr ''newer'') (api_cache s) = (Response 200 ''old'', api_cache s)"
  using WriteCacheable_stale [of tx_cacheable "\<lambda>_. 7" 5 100 "''old''" "''new''"]
  by (fastforce simp: tx_cacheable_def)

text \<open>What the handlers let through.  A list of transactions reaches the reader only with a limit
  between 0 and 5000 and an offset between 0 and 10000, on the path of one chain always with that
  chain among its chain ids, with counting disabled from version 2 on, and cached for five seconds.\<close>

theorem V2_ListTransactions_bounds:
  assumes "V2_ListTransactions T L now (v2_middleware chainID) q = Handled c"
  shows "\<exists>p. cc_CacheableFn c = CallListTransactions p \<and> cc_TTL c = 5 * second \<and>
    cc_Key c = [''djtx'', ''list_transactions''] @ ListTransactionsParams_CacheKey L p \<and>
    0 \<le> lp_Limit (lt_ListParams p) \<and> lp_Limit (lt_ListParams p) \<le> 5000 \<and>
    0 \<le> lp_Offset (lt_ListParams p) \<and> lp_Offset (lt_ListParams p) \<le> 10000 \<and>
    (case chainID of None \<Rightarrow> lt_ChainIDs p = strs_of q ''chainID'' \<and> lp_DisableCounting (lt_ListParams p)
     | Some i \<Rightarrow> ID_String L i \<in> set (lt_ChainIDs p) \<and> set (lt_ChainIDs p) = insert (ID_String L i) (set (strs_of q ''chainID'')))"
proof -
  define v where "v = v2_version (v2_middleware chainID)"
  obtain p0 lp where p0: "ListTransactionsParams_ForValues T now v q = Inr p0"
    and lp: "forValues T now v q True = Inr lp" "lt_ListParams p0 = lp" "lt_ChainIDs p0 = strs_of q ''chainID''"
    and c: "\<not> lp_Offset lp > DefaultOffsetLimit"
      "c = \<lparr>cc_Key = cacheKeyForParams ''list_transactions''
              (ListTransactionsParams_CacheKey L (p0\<lparr>lt_ChainIDs := ForValueChainID L chainID (lt_ChainIDs p0)\<rparr>)),
            cc_CacheableFn = CallListTransactions (p0\<lparr>lt_ChainIDs := ForValueChainID L chainID (lt_ChainIDs p0)\<rparr>),
            cc_TTL = 5 * second\<rparr>"
    using assms
    by (auto simp: V2_ListTransactions_def handle_def bind_err_Inr v_def v2_middleware_def Let_def
        ListTransactionsParams_ForValues_def ForValuesAllowOffset_def split: sum.splits if_splits)
  have "lp_DisableCounting lp" if "chainID = None"
    using forValues_fields [OF lp(1)] that by (auto simp: v_def v2_middleware_def)
  moreover have "0 \<le> lp_Limit lp" "lp_Limit lp \<le> 5000" "0 \<le> lp_Offset lp"
    using forValues_fields [OF lp(1)] by (auto simp: PaginationMaxLimit_def)
  ultimately show ?thesis
    using c lp(2,3) by (auto simp: cacheKeyForParams_def ForValueChainID_def DefaultOffsetLimit_def split: option.splits)
qed

theorem V2_ListTransactions_bounds_witness:
  "\<exists>c p. V2_ListTransactions no_parselib plain_nodelib 0 (v2_middleware (Some ''P'')) [''chainID'' \<mapsto> [''X'']] = Handled c \<and>
     cc_CacheableFn c = CallListTransactions p \<and> lp_Limit (lt_ListParams p) \<le> 5000 \<and> ''P'' \<in> set (lt_ChainIDs p)"
proof -
  have "\<exists>c. V2_ListTransactions no_parselib plain_nodelib 0 (v2_middleware (Some ''P'')) [''chainID'' \<mapsto> [''X'']] = Handled c"
    by (simp add: V2_ListTransactions_def ListTransactionsParams_ForValues_def ForValuesAllowOffset_def forValues_default
        bind_err_def query_defs handle_def Let_def default_params_def DefaultOffsetLimit_def)
  then obtain c where c: "V2_ListTransactions no_parselib plain_nodelib 0 (v2_middleware (Some ''P'')) [''chainID'' \<mapsto> [''X'']] = Handled c" ..
  from V2_ListTransactions_bounds [OF c] c show ?thesis by (auto simp: plain_nodelib_def)
qed

text \<open>Requests that cannot succeed.  A list of C-chain blocks without a limit is always rejected, since the
  limit it gets is above the bound that the handler allows, and on \<^verbatim>\<open>/v2\<close> an aggregate without a chain is accepted
  but makes the reader panic as soon as the cache of the aggregates is filled.\<close>

theorem V2_missing_parameters:
  assumes "strs_of q ''limit'' = []" and "strs_of q ''chainID'' = []" and "aggregateTransactionsMap ac \<noteq> Map.empty"
    and "aggregateFeesMap ac \<noteq> Map.empty"
  shows "(\<exists>e. V2_ListCBlocks T L now ctx q = BadRequest e) \<and>
    (case V2_Aggregate T L now (v2_middleware None) q of
       Handled c \<Rightarrow> (\<exists>p. cc_CacheableFn c = CallAggregate p \<and> Aggregate ac p = Inl index_panic)
     | BadRequest e \<Rightarrow> isl (AggregateParams_ForValues T now 2 q) | HandlerPanic \<Rightarrow> False) \<and>
    (case V2_TxfeeAggregate T L now (v2_middleware None) q of
       Handled c \<Rightarrow> (\<exists>p. cc_CacheableFn c = CallTxfeeAggregate p \<and> TxfeeAggregate ac p = Inl index_panic)
     | BadRequest e \<Rightarrow> isl (TxfeeAggregateParams_ForValues T now 2 q) | HandlerPanic \<Rightarrow> False)"
proof -
  have "lp_Limit lp = 5000" if "forValues T now v q b = Inr lp" for v b lp
    using forValues_fields [OF that] assms(1) by (auto simp: GetQueryInt_def PaginationMaxLimit_def)
  then have "\<exists>e. V2_ListCBlocks T L now ctx q = BadRequest e"
    by (auto simp: V2_ListCBlocks_def handle_def ListCBlocksParams_ForValues_def ForValues_def bind_err_def DefaultLimit_def
        split: sum.split list.split)
  moreover have "ag_ChainIDs p = []" if "AggregateParams_ForValues T now 2 q = Inr p" for p
    using that assms(2) by (auto simp: AggregateParams_ForValues_def bind_err_Inr)
  moreover have "fa_ChainIDs p = []" if "TxfeeAggregateParams_ForValues T now 2 q = Inr p" for p
    using that assms(2) by (auto simp: TxfeeAggregateParams_ForValues_def bind_err_Inr)
  ultimately show ?thesis
    using assms(3,4)
    by (auto simp: V2_Aggregate_def V2_TxfeeAggregate_def handle_def bind_err_def v2_middleware_def ForValueChainID_def
        Aggregate_def TxfeeAggregate_def read_cache_def Let_def split: sum.split)
qed

theorem V2_missing_parameters_witness:
  "\<exists>ac e c p. V2_ListCBlocks no_parselib plain_nodelib 0 (v2_middleware None) Map.empty = BadRequest e \<and>
     V2_Aggregate no_parselib plain_nodelib 0 (v2_middleware None) Map.empty = Handled c \<and>
     cc_CacheableFn c = CallAggregate p \<and> Aggregate ac p = Inl index_panic"
proof -
  let ?ac = "InitCacheStorage [''X'' \<mapsto> ''avm''] NewAggregatesCache"
  have "\<not> isl (AggregateParams_ForValues no_parselib 0 2 Map.empty)"
    by (simp add: AggregateParams_ForValues_def ForValues_def forValues_default bind_err_def GetQueryID_def GetQueryString_def
        GetQueryInterval_def strs_of_def Let_def)
  moreover have "aggregateTransactionsMap ?ac \<noteq> Map.empty" "aggregateFeesMap ?ac \<noteq> Map.empty"
    by (auto simp: InitCacheStorage_def fun_eq_iff intro!: exI [of _ "''X''"])
  moreover have "strs_of Map.empty k = []" for k by (simp add: strs_of_def)
  ultimately show ?thesis
    using V2_missing_parameters [of Map.empty ?ac no_parselib plain_nodelib 0 "v2_middleware None"]
    by (auto split: handled.splits)
qed

end
