(* ===== verification/Djtx_Transactions.thy ===== *)
theory Djtx_Transactions
  imports Djtx_Lists "HOL-Library.AList"
begin

text \<open>
  Lists of transactions: \<^verbatim>\<open>src/services/indexes/djtx/reader_list_txs.go\<close> and the list of cached
  transactions of \<^verbatim>\<open>reader_aggregate_processor.go\<close>.

  A list is selected from the ledger, or taken from the cached transactions when the request allows it.
  It is then dressed: each transaction gets its inputs and outputs with their addresses, the totals
  per asset, its reward and its proposer.  Maps of Go that are iterated are lists of entries; the order of
  the iteration is an argument.  The parameters keep the query string (\<^verbatim>\<open>ListParams.Values\<close>); it is
  passed along as a list of entries in the order in which it is iterated.

  The theorems say what a page holds, what the inputs, outputs and totals of a transaction are, that the
  cached transactions answer like the database, and where following the link to the next page leads.
\<close>

section \<open>Cached transactions\<close>

record Input_Credentials =
  ic_Address :: string
  ic_PublicKey :: "bytes option"
  ic_Signature :: bytes

record TxOutput = Output +
  op_Stake :: bool
  op_Stakeableout :: bool
  op_Genesisutxo :: bool
  op_StakeLocktime :: u64
  op_CAddresses :: "string list"
  op_ChainID :: string
  op_InChainID :: string
  op_OutChainID :: string
  op_Block :: string
  op_Nonce :: u64
  op_RewardUtxo :: bool

record TxInput =
  in_Output :: TxOutput
  in_Creds :: "Input_Credentials list"

record DressedTransaction = Transaction +
  tn_Inputs :: "TxInput list"
  tn_Outputs :: "TxOutput list"
  tn_InputTotals :: "string \<rightharpoonup> string"
  tn_OutputTotals :: "string \<rightharpoonup> string"
  tn_Rewarded :: bool
  tn_RewardedTime :: "gotime option"
  tn_Proposer :: "BlockProposal option"

text \<open>A row of the select, before it is dressed.\<close>

definition undressed :: "Transaction \<Rightarrow> DressedTransaction" where
  "undressed t = Transaction.extend t
     \<lparr>tn_Inputs = [], tn_Outputs = [], tn_InputTotals = Map.empty, tn_OutputTotals = Map.empty,
      tn_Rewarded = False, tn_RewardedTime = None, tn_Proposer = None\<rparr>"

text \<open>\<^verbatim>\<open>nil\<close> is \<open>None\<close>.\<close>

record ReaderAggregateTxList =
  al_Txs :: "DressedTransaction list option"
  al_TxsMap :: "(string \<rightharpoonup> DressedTransaction) option"
  al_TxsByChain :: "(string \<rightharpoonup> DressedTransaction list) option"

definition new_TxList :: ReaderAggregateTxList where
  "new_TxList = \<lparr>al_Txs = None, al_TxsMap = None, al_TxsByChain = None\<rparr>"

definition IsProcessed :: "ReaderAggregateTxList \<Rightarrow> bool" where
  "IsProcessed t \<longleftrightarrow> al_Txs t \<noteq> None"

definition TxList_Get :: "string \<Rightarrow> ReaderAggregateTxList \<Rightarrow> DressedTransaction option" where
  "TxList_Get tx t = (case al_TxsMap t of None \<Rightarrow> None | Some m \<Rightarrow> m tx)"

definition set_step ::
  "DressedTransaction \<Rightarrow> (string \<rightharpoonup> DressedTransaction) \<times> (string \<rightharpoonup> DressedTransaction list)
     \<Rightarrow> (string \<rightharpoonup> DressedTransaction) \<times> (string \<rightharpoonup> DressedTransaction list)" where
  "set_step tx m =
     ((fst m)(tn_ID tx \<mapsto> tx),
      (snd m)(tn_ChainID tx \<mapsto> (case snd m (tn_ChainID tx) of None \<Rightarrow> [] | Some l \<Rightarrow> l) @ [tx]))"

definition TxList_Set :: "DressedTransaction list option \<Rightarrow> ReaderAggregateTxList" where
  "TxList_Set txs =
     (case txs of
        None \<Rightarrow> \<lparr>al_Txs = None, al_TxsMap = None, al_TxsByChain = None\<rparr>
      | Some l \<Rightarrow> let m = fold set_step l (Map.empty, Map.empty)
                  in \<lparr>al_Txs = Some l, al_TxsMap = Some (fst m), al_TxsByChain = Some (snd m)\<rparr>)"

text \<open>A negative limit would make the slice expression panic; \<^verbatim>\<open>forValues\<close> excludes it.\<close>

definition FindTxs :: "string list \<Rightarrow> int \<Rightarrow> ReaderAggregateTxList \<Rightarrow> DressedTransaction list option" where
  "FindTxs chainIDs limit t =
     (case chainIDs of
        [] \<Rightarrow> (case al_Txs t of None \<Rightarrow> None
              | Some l \<Rightarrow> if limit \<le> int (length l) then Some (take (nat limit) l) else None)
      | [i] \<Rightarrow> (case al_TxsByChain t of None \<Rightarrow> None
              | Some m \<Rightarrow> (case m i of None \<Rightarrow> None
                  | Some l \<Rightarrow> if limit \<le> int (length l) then Some (take (nat limit) l) else None))
      | _ \<Rightarrow> None)"

section \<open>Selecting transactions\<close>

definition assetCheck :: "nodelib \<Rightarrow> ListTransactionsParams \<Rightarrow> bytes \<Rightarrow> Outputs \<Rightarrow> bool" where
  "assetCheck L p asset o1 \<longleftrightarrow> out_AssetID o1 = ID_String L asset \<and>
     (lt_OutputOutputTypes p = [] \<or> ucast (out_OutputType o1) \<in> set (lt_OutputOutputTypes p)) \<and>
     (lt_OutputGroupIDs p = [] \<or> ucast (out_GroupID o1) \<in> set (lt_OutputGroupIDs p))"

text \<open>The union of the transactions that pay to one of the addresses and of those that spend from one;
  the asset restricts the first ones only.\<close>

definition union_q :: "nodelib \<Rightarrow> ListTransactionsParams \<Rightarrow> database \<Rightarrow> string list" where
  "union_q L p d =
     (let addrs = map (ShortID_String L) (lt_Addresses p) in
      map (\<lambda>(o1, a). out_TransactionID o1)
        (filter (\<lambda>(o1, a). (case a of None \<Rightarrow> False | Some a \<Rightarrow> oad_Address a \<in> set addrs) \<and>
             (case lt_AssetID p of None \<Rightarrow> True | Some asset \<Rightarrow> assetCheck L p asset o1))
          (left_join (\<lambda>o1 a. out_ID o1 = oad_OutputID a) (avm_outputs d) (avm_output_addresses d))) @
      map (\<lambda>(r, a). red_RedeemingTransactionID r)
        (filter (\<lambda>(r, a). case a of None \<Rightarrow> False | Some a \<Rightarrow> oad_Address a \<in> set addrs)
          (left_join (\<lambda>r a. red_ID r = oad_OutputID a) (avm_outputs_redeeming d) (avm_output_addresses d))))"

text \<open>The conditions on a row of \<^verbatim>\<open>avm_transactions\<close>, given by its id, chain and time.\<close>

definition tx_wanted :: "nodelib \<Rightarrow> ListTransactionsParams \<Rightarrow> database \<Rightarrow> string \<times> string \<times> gotime \<Rightarrow> bool" where
  "tx_wanted L p d x =
     (case x of (i, chain, created) \<Rightarrow>
       let lp = lt_ListParams p in
       (case lp_ID lp of None \<Rightarrow> True | Some k \<Rightarrow> i = ID_String L k) \<and>
       (lp_Query lp = [] \<or> like (lp_Query lp @ ''%'') i) \<and>
       (lp_StartTimeProvided lp \<and> lp_StartTime lp \<noteq> zero_time \<longrightarrow> created \<ge> lp_StartTime lp) \<and>
       (lp_EndTimeProvided lp \<and> lp_EndTime lp \<noteq> zero_time \<longrightarrow> created < lp_EndTime lp) \<and>
       (lt_ChainIDs p \<noteq> [] \<longrightarrow> chain \<in> set (lt_ChainIDs p)) \<and>
       (lt_Addresses p \<noteq> [] \<longrightarrow> i \<in> set (union_q L p d)))"

text \<open>\<open>cols\<close> gives the id, chain and time of a row of the base statement.  Without addresses, an asset
  joins the outputs and repeats a row for each of them.\<close>

definition listTxsQuery ::
  "nodelib \<Rightarrow> ListTransactionsParams \<Rightarrow> database \<Rightarrow> ('r \<Rightarrow> string \<times> string \<times> gotime) \<Rightarrow> 'r list \<Rightarrow> 'r list" where
  "listTxsQuery L p d cols rows =
     (let wanted = filter (\<lambda>r. tx_wanted L p d (cols r)) rows in
      case lt_AssetID p of
        Some asset \<Rightarrow>
          if lt_Addresses p = []
          then concat (map (\<lambda>r. map (\<lambda>_. r)
                 (filter (\<lambda>o1. fst (cols r) = out_TransactionID o1 \<and> assetCheck L p asset o1) (avm_outputs d))) wanted)
          else wanted
      | None \<Rightarrow> wanted)"

text \<open>Rows with the same time and chain stay in the order of the table.\<close>

definition applySort :: "ListTransactionsParams \<Rightarrow> ('r \<Rightarrow> string \<times> string \<times> gotime) \<Rightarrow> 'r list \<Rightarrow> 'r list" where
  "applySort p cols rows =
     (let key = (\<lambda>r. case cols r of (i, chain, created) \<Rightarrow> (created, chain)) in
      if lp_Query (lt_ListParams p) \<noteq> [] then rows
      else if lt_Sort p = TransactionSortTimestampDesc then rev (sort_key key (rev rows))
      else sort_key key rows)"

definition tx_cols :: "Transactions \<Rightarrow> string \<times> string \<times> gotime" where
  "tx_cols t = (tx_ID t, tx_ChainID t, tx_CreatedAt t)"

definition tn_cols :: "Transaction \<Rightarrow> string \<times> string \<times> gotime" where
  "tn_cols t = (tn_ID t, tn_ChainID t, tn_CreatedAt t)"

text \<open>The ids of a page.\<close>

definition builderBase :: "nodelib \<Rightarrow> ListTransactionsParams \<Rightarrow> database \<Rightarrow> goerr + string list" where
  "builderBase L p d =
     (let lp = lt_ListParams p;
          limit = (if lp_Limit lp \<noteq> 0 then Some (of_int (lp_Limit lp)) else None);
          offset = (if lp_Offset lp \<noteq> 0 then Some (of_int (lp_Offset lp)) else None)
      in if limit = None \<and> offset \<noteq> None then Inl sql_syntax
         else Inr (map tx_ID (page limit offset (applySort p tx_cols (listTxsQuery L p d tx_cols (avm_transactions d))))))"

text \<open>The loop over the rows of the select with an asset: the first ids fill the offset, the next ones are
  the page.\<close>

fun scan_txs :: "int \<Rightarrow> int \<Rightarrow> Transaction list \<Rightarrow> string list \<Rightarrow> Transaction list \<Rightarrow> Transaction list" where
  "scan_txs offset limit [] txsmoffset txs = txs"
| "scan_txs offset limit (tx # rest) txsmoffset txs =
     (if offset > 0 \<and> int (length txsmoffset) < offset
      then scan_txs offset limit rest (List.insert (tn_ID tx) txsmoffset) txs
      else if tn_ID tx \<in> set txsmoffset then scan_txs offset limit rest txsmoffset txs
      else let txs1 = (if tn_ID tx \<in> tn_ID ` set txs then txs else txs @ [tx]) in
           if limit > 0 \<and> int (length txs1) \<ge> limit then txs1
           else scan_txs offset limit rest txsmoffset txs1)"

type_synonym entries = "(string \<times> string list) list"

record ReaderTxCache =
  rc_IsAggregateCache :: bool
  rc_txDesc :: ReaderAggregateTxList
  rc_txAsc :: ReaderAggregateTxList

definition listTxFromCache :: "nodelib \<Rightarrow> ReaderTxCache \<Rightarrow> entries \<Rightarrow> ListTransactionsParams \<Rightarrow> DressedTransaction option" where
  "listTxFromCache L rc vals p =
     (if \<not> rc_IsAggregateCache rc \<or> length vals \<noteq> 0 then None
      else case lp_ID (lt_ListParams p) of
        None \<Rightarrow> None
      | Some i \<Rightarrow> (case TxList_Get (ID_String L i) (rc_txDesc rc) of
            Some tx \<Rightarrow> Some tx
          | None \<Rightarrow> TxList_Get (ID_String L i) (rc_txAsc rc)))"

definition listTxsFromCache :: "ReaderTxCache \<Rightarrow> entries \<Rightarrow> ListTransactionsParams \<Rightarrow> DressedTransaction list option" where
  "listTxsFromCache rc vals p =
     (let lp = lt_ListParams p;
          l = (if lt_Sort p = TransactionSortTimestampDesc then rc_txDesc rc else rc_txAsc rc)
      in if \<not> rc_IsAggregateCache rc \<or> lp_Limit lp = 0 \<or> lp_Offset lp \<noteq> 0 then None
         else if \<not> IsProcessed l then None
         else if list_ex (\<lambda>(key, _). key \<notin> {''sort'', ''limit'', ''offset'', ''disableCount'', ''chainID''}) vals then None
         else FindTxs (lt_ChainIDs p) (lp_Limit lp) l)"

text \<open>The transactions, and whether they are dressed.\<close>

definition listTxs ::
  "nodelib \<Rightarrow> ReaderTxCache \<Rightarrow> entries \<Rightarrow> ListTransactionsParams \<Rightarrow> (database, DressedTransaction list \<times> bool) go" where
  "listTxs L rc vals p =
     (let lp = lt_ListParams p in
      case (if lp_ID lp \<noteq> None then listTxFromCache L rc vals p else None) of
        Some tx \<Rightarrow> ret ([tx], True)
      | None \<Rightarrow>
          if lt_Addresses p \<noteq> [] \<or> lt_AssetID p = None
          then (case listTxsFromCache rc vals p of
                  Some txs \<Rightarrow> ret (txs, True)
                | None \<Rightarrow>
                    bind (query (\<lambda>d. bind_err (builderBase L p d) (\<lambda>ids.
                        Inr (applySort p tn_cols (concat (map (\<lambda>t. map (\<lambda>_. t) (filter (\<lambda>i. i = tn_ID t) ids)) (transactionQuery d)))))))
                      (\<lambda>txs. ret (map undressed txs, False)))
          else bind (query (\<lambda>d. Inr (take 100000 (applySort p tn_cols (listTxsQuery L p d tn_cols (transactionQuery d))))))
                 (\<lambda>rows. ret (map undressed (scan_txs (lp_Offset lp) (lp_Limit lp) rows [] []), False)))"

section \<open>Dressing\<close>

record compositeRecord =
  cmp_Output :: TxOutput
  cmp_OutputID :: string
  cmp_Address :: string
  cmp_Signature :: "bytes option"
  cmp_PublicKey :: "bytes option"

text \<open>The columns of \<^verbatim>\<open>selectOutputs\<close>: the first ones are those of the table that is selected from.\<close>

definition composite ::
  "string \<times> string \<times> u32 \<times> string \<times> u64 \<times> gotime \<times> string \<Rightarrow> Outputs option \<Rightarrow> OutputsRedeeming option \<Rightarrow>
   OutputAddresses option \<Rightarrow> TransactionsRewardsOwnersOutputs option \<Rightarrow> Addresses option \<Rightarrow> compositeRecord" where
  "composite t o1 r a rew adr =
     (case t of (i, tx, idx, asset, amount, created, chain) \<Rightarrow>
       \<lparr>cmp_Output =
          \<lparr>op_ID = i, op_TransactionID = tx, op_OutputIndex = ucast idx, op_AssetID = asset,
           op_OutputType = or_zero out_OutputType o1, op_Amount = dec_nat (unat amount), op_Locktime = or_zero out_Locktime o1,
           op_Threshold = or_zero (\<lambda>x. ucast (out_Threshold x)) o1, op_CreatedAt = created,
           op_RedeemingTransactionID = or_blank red_RedeemingTransactionID r, op_GroupID = or_zero (\<lambda>x. ucast (out_GroupID x)) o1,
           op_Payload = Some (or_blank (\<lambda>x. case out_Payload x of None \<Rightarrow> [] | Some b \<Rightarrow> b) o1),
           op_Frozen = (case o1 of None \<Rightarrow> False | Some x \<Rightarrow> out_Frozen x), op_Addresses = [],
           op_Stake = (case o1 of None \<Rightarrow> False | Some x \<Rightarrow> out_Stake x),
           op_Stakeableout = (case o1 of None \<Rightarrow> False | Some x \<Rightarrow> out_Stakeableout x),
           op_Genesisutxo = (case o1 of None \<Rightarrow> False | Some x \<Rightarrow> out_Genesisutxo x),
           op_StakeLocktime = or_zero out_StakeLocktime o1, op_CAddresses = [], op_ChainID = chain,
           op_InChainID = or_blank red_ChainID r, op_OutChainID = or_blank out_ChainID o1, op_Block = [], op_Nonce = 0,
           op_RewardUtxo = (rew \<noteq> None)\<rparr>,
        cmp_OutputID = or_blank oad_OutputID a, cmp_Address = or_blank oad_Address a,
        cmp_Signature = (case a of None \<Rightarrow> None | Some x \<Rightarrow> oad_RedeemingSignature x),
        cmp_PublicKey = map_option adr_PublicKey adr\<rparr>)"

text \<open>The common joins of both forms.\<close>

definition with_addresses ::
  "('b \<Rightarrow> string) \<Rightarrow> database \<Rightarrow> 'b list \<Rightarrow>
     ((('b \<times> OutputAddresses option) \<times> TransactionsRewardsOwnersOutputs option) \<times> Addresses option) list" where
  "with_addresses ident d rows =
     left_join (\<lambda>((b, a), rew) adr. case a of None \<Rightarrow> False | Some x \<Rightarrow> adr_Address adr = oad_Address x)
       (left_join (\<lambda>(b, a) rew. ident b = roo_ID rew)
         (left_join (\<lambda>b a. ident b = oad_OutputID a) rows (avm_output_addresses d))
         (transactions_rewards_owners_outputs d))
       (addresses d)"

definition selectOutputs :: "bool \<Rightarrow> database \<Rightarrow> compositeRecord list" where
  "selectOutputs redeem d =
     (if \<not> redeem
      then map (\<lambda>((((o1, r), a), rew), adr).
             composite (out_ID o1, out_TransactionID o1, out_OutputIndex o1, out_AssetID o1, out_Amount o1, out_CreatedAt o1,
               out_ChainID o1) (Some o1) r a rew adr)
             (with_addresses (\<lambda>(o1, r). out_ID o1) d
               (left_join (\<lambda>o1 r. out_ID o1 = red_ID r) (avm_outputs d) (avm_outputs_redeeming d)))
      else map (\<lambda>((((r, o1), a), rew), adr).
             composite (red_ID r, red_Intx r, red_OutputIndex r, red_AssetID r, red_Amount r, red_CreatedAt r,
               red_ChainID r) o1 (Some r) a rew adr)
             (with_addresses (\<lambda>(r, o1). red_ID r) d
               (left_join (\<lambda>r o1. red_ID r = out_ID o1) (avm_outputs_redeeming d) (avm_outputs d))))"

definition collectInsAndOuts :: "string list \<Rightarrow> (database, compositeRecord list) go" where
  "collectInsAndOuts txIDs =
     bind (query (\<lambda>d.
       let s1_0 = map out_ID (filter (\<lambda>o1. out_TransactionID o1 \<in> set txIDs) (avm_outputs d));
           s1_1 = map red_ID (filter (\<lambda>r. red_RedeemingTransactionID r \<in> set txIDs) (avm_outputs_redeeming d))
       in Inr (filter (\<lambda>c. op_ID (cmp_Output c) \<in> set (s1_0 @ s1_1)) (selectOutputs False d)))) (\<lambda>outputs.
     bind (query (\<lambda>d.
       let s2 = [out_ID o1. r \<leftarrow> filter (\<lambda>r. red_RedeemingTransactionID r \<in> set txIDs) (avm_outputs_redeeming d),
                            o1 \<leftarrow> filter (\<lambda>o1. out_ID o1 = red_ID r) (avm_outputs d)]
       in Inr (filter (\<lambda>c. op_RedeemingTransactionID (cmp_Output c) \<in> set txIDs \<and> op_ID (cmp_Output c) \<notin> set s2)
                 (selectOutputs True d)))) (\<lambda>outputs2.
     ret (outputs @ outputs2)))"

text \<open>The maps that the outputs are collected into, per transaction.\<close>

record collected =
  outputAddrs :: "string \<Rightarrow> string list"
  inputsMap :: "string \<Rightarrow> (string \<times> TxInput) list"
  outputsMap :: "string \<Rightarrow> (string \<times> TxOutput) list"
  inputTotalsMap :: "string \<Rightarrow> (string \<times> int) list"
  outputTotalsMap :: "string \<Rightarrow> (string \<times> int) list"

definition no_records :: collected where
  "no_records = \<lparr>outputAddrs = (\<lambda>_. []), inputsMap = (\<lambda>_. []), outputsMap = (\<lambda>_. []),
     inputTotalsMap = (\<lambda>_. []), outputTotalsMap = (\<lambda>_. [])\<rparr>"

definition addToBigIntMap :: "string \<Rightarrow> int \<Rightarrow> (string \<times> int) list \<Rightarrow> (string \<times> int) list" where
  "addToBigIntMap assetID amt m = AList.update assetID (amt + (case map_of m assetID of None \<Rightarrow> 0 | Some n \<Rightarrow> n)) m"

definition collect_record :: "compositeRecord \<Rightarrow> collected \<Rightarrow> goerr + collected" where
  "collect_record c m =
     (let x = cmp_Output c; tx = op_TransactionID x; by_tx = op_RedeemingTransactionID x in
      case read_decimal (op_Amount x) of
        None \<Rightarrow> Inl ''invalid amount''
      | Some amt \<Rightarrow>
          Inr \<lparr>outputAddrs = (outputAddrs m)(op_ID x := List.insert (cmp_Address c) (outputAddrs m (op_ID x))),
               inputsMap = (inputsMap m)(by_tx := AList.update (op_ID x) \<lparr>in_Output = x, in_Creds = []\<rparr> (inputsMap m by_tx)),
               outputsMap = (outputsMap m)(tx := AList.update (op_ID x) x (outputsMap m tx)),
               inputTotalsMap = (inputTotalsMap m)(by_tx := addToBigIntMap (op_AssetID x) amt (inputTotalsMap m by_tx)),
               outputTotalsMap = (outputTotalsMap m)(tx := addToBigIntMap (op_AssetID x) amt (outputTotalsMap m tx))\<rparr>)"

fun collect_records :: "compositeRecord list \<Rightarrow> collected \<Rightarrow> goerr + collected" where
  "collect_records [] m = Inr m"
| "collect_records (c # cs) m = bind_err (collect_record c m) (collect_records cs)"

text \<open>The addresses of an output, without the blank one of an output that is not known yet.  The records
  share their outputs with the maps, so the maps get them too; \<open>order\<close> is the order of the iteration.\<close>

definition address_list :: "(string list \<Rightarrow> string list) \<Rightarrow> collected \<Rightarrow> TxOutput \<Rightarrow> TxOutput" where
  "address_list order m x = x\<lparr>op_Addresses := filter (\<lambda>a. a \<noteq> []) (order (outputAddrs m (op_ID x)))\<rparr>"

definition creds_of :: "compositeRecord list \<Rightarrow> string \<Rightarrow> string \<Rightarrow> Input_Credentials list" where
  "creds_of outputs by_tx i =
     [\<lparr>ic_Address = cmp_Address c, ic_PublicKey = cmp_PublicKey c, ic_Signature = s\<rparr>.
        c \<leftarrow> filter (\<lambda>c. op_RedeemingTransactionID (cmp_Output c) = by_tx \<and> cmp_OutputID c = i) outputs,
        s \<leftarrow> (case cmp_Signature c of None \<Rightarrow> [] | Some s \<Rightarrow> if s = [] then [] else [s])]"

definition add_address_lists :: "(string list \<Rightarrow> string list) \<Rightarrow> compositeRecord list \<Rightarrow> collected \<Rightarrow> collected" where
  "add_address_lists order outputs m =
     m\<lparr>inputsMap := (\<lambda>tx. map (\<lambda>(i, x). (i, \<lparr>in_Output = address_list order m (in_Output x),
                                              in_Creds = in_Creds x @ creds_of outputs tx i\<rparr>)) (inputsMap m tx)),
       outputsMap := (\<lambda>tx. map (\<lambda>(i, x). (i, address_list order m x)) (outputsMap m tx))\<rparr>"

subsection \<open>C-chain addresses, proposers and rewards\<close>

definition mapOutput :: "CvmAddresses \<times> CvmTransactionsAtomic \<Rightarrow> TxOutput" where
  "mapOutput x =
     (case x of (a, t) \<Rightarrow>
       \<lparr>op_ID = cad_ID a, op_TransactionID = cad_TransactionID a, op_OutputIndex = cad_Idx a, op_AssetID = cad_AssetID a,
        op_OutputType = (if cat_Type t = CChainExport then OutputTypesAtomicExportTx
                         else if cat_Type t = CChainImport then OutputTypesAtomicImportTx else 0),
        op_Amount = dec_nat (unat (cad_Amount a)), op_Locktime = 0, op_Threshold = 0, op_CreatedAt = cad_CreatedAt a,
        op_RedeemingTransactionID = [], op_GroupID = 0, op_Payload = None, op_Frozen = False, op_Addresses = [],
        op_Stake = False, op_Stakeableout = False, op_Genesisutxo = False, op_StakeLocktime = 0,
        op_CAddresses = [cad_Address a], op_ChainID = cat_ChainID t, op_InChainID = [], op_OutChainID = [],
        op_Block = cat_Block t, op_Nonce = cad_Nonce a, op_RewardUtxo = False\<rparr>)"

definition cvm_rows :: "string list \<Rightarrow> database \<Rightarrow> (CvmAddresses \<times> CvmTransactionsAtomic) list" where
  "cvm_rows txIDs d =
     [(a, t). a \<leftarrow> filter (\<lambda>a. cad_TransactionID a \<in> set txIDs) (cvm_addresses d),
              t \<leftarrow> filter (\<lambda>t. cad_TransactionID a = cat_TransactionID t) (cvm_transactions_atomic d)]"

definition of_type :: "u16 \<Rightarrow> (CvmAddresses \<times> CvmTransactionsAtomic) list \<Rightarrow> string \<Rightarrow> TxOutput list" where
  "of_type ty rows tx = map mapOutput (filter (\<lambda>(a, t). cad_Type a = ty \<and> cad_TransactionID a = tx) rows)"

definition collectCvmTransactions ::
  "string list \<Rightarrow> (database, (string \<Rightarrow> TxOutput list) \<times> (string \<Rightarrow> TxOutput list)) go" where
  "collectCvmTransactions txIDs =
     bind (query (\<lambda>d. Inr (cvm_rows txIDs d))) (\<lambda>rows. ret (of_type CChainIn rows, of_type CchainOut rows))"

definition newBlockProposal :: "PvmBlocks \<Rightarrow> BlockProposal" where
  "newBlockProposal b = \<lparr>bp_Proposer = pb_Proposer b, bp_TimeStamp = pb_ProposerTime b\<rparr>"

definition resolveProposers :: "string list \<Rightarrow> (database, string \<rightharpoonup> BlockProposal) go" where
  "resolveProposers blockIds =
     (if blockIds = [] then ret Map.empty
      else bind (sql_load pvm_blocks (\<lambda>b. pb_ID b \<in> set blockIds) (\<lambda>b. b)) (\<lambda>blocks.
             ret (fold (\<lambda>b m. m(pb_ID b \<mapsto> newBlockProposal b)) blocks Map.empty)))"

text \<open>The block that decides on a reward is a child of the block that proposes it.\<close>

definition resolveRewarded :: "string list \<Rightarrow> (database, string \<rightharpoonup> u16 \<times> gotime) go" where
  "resolveRewarded txIDs =
     bind (query (\<lambda>d. Inr
       [(rw_Txid r, pb_Type b, pb_CreatedAt b). r \<leftarrow> filter (\<lambda>r. rw_Txid r \<in> set txIDs) (rewards d),
          b \<leftarrow> filter (\<lambda>b. rw_BlockID r = pb_ParentID b \<and> pb_Type b \<in> {BlockTypeAbort, BlockTypeCommit}) (pvm_blocks d)]))
       (\<lambda>rows. ret (fold (\<lambda>(i, ty, t) m. m(i \<mapsto> (ty, t))) rows Map.empty))"

subsection \<open>Putting a transaction together\<close>

text \<open>The orders in which the maps are iterated.\<close>

record map_orders =
  mo_addresses :: "string list \<Rightarrow> string list"
  mo_inputs :: "TxInput list \<Rightarrow> TxInput list"
  mo_outputs :: "TxOutput list \<Rightarrow> TxOutput list"

definition show_totals :: "(string \<times> int) list \<Rightarrow> string \<rightharpoonup> string" where
  "show_totals m = map_option dec_int \<circ> map_of m"

definition dressTransactionsTx ::
  "nodelib \<Rightarrow> map_orders \<Rightarrow> bool \<Rightarrow> bytes option \<Rightarrow> bytes \<Rightarrow> collected \<Rightarrow> (string \<rightharpoonup> u16 \<times> gotime) \<Rightarrow>
   (string \<Rightarrow> TxOutput list) \<Rightarrow> (string \<Rightarrow> TxOutput list) \<Rightarrow> DressedTransaction \<Rightarrow> DressedTransaction" where
  "dressTransactionsTx L ord disableGenesis txID djtxAssetID m rewardsTypes cvmins cvmouts tx =
     (let i = tn_ID tx in
      if disableGenesis \<and> txID = None \<and> i = ID_String L djtxAssetID then tx
      else let tx1 = tx\<lparr>tn_Inputs := tn_Inputs tx @ mo_inputs ord (map snd (inputsMap m i)) @
                          map (\<lambda>x. \<lparr>in_Output = x, in_Creds = []\<rparr>) (cvmins i),
                        tn_Outputs := tn_Outputs tx @ mo_outputs ord (map snd (outputsMap m i)) @ cvmouts i,
                        tn_InputTotals := show_totals (inputTotalsMap m i),
                        tn_OutputTotals := show_totals (outputTotalsMap m i)\<rparr>
           in case rewardsTypes i of
                None \<Rightarrow> tx1
              | Some (ty, t) \<Rightarrow> tx1\<lparr>tn_Rewarded := (ty = BlockTypeCommit), tn_RewardedTime := Some t\<rparr>)"

definition dressTransactions ::
  "nodelib \<Rightarrow> map_orders \<Rightarrow> bytes \<Rightarrow> bytes option \<Rightarrow> bool \<Rightarrow> DressedTransaction list \<Rightarrow> (database, DressedTransaction list) go" where
  "dressTransactions L ord djtxAssetID txID disableGenesis txs =
     (if txs = [] then ret txs
      else
        let txs1 = map (\<lambda>tx. tx\<lparr>tn_Memo := Some (case tn_Memo tx of None \<Rightarrow> [] | Some b \<Rightarrow> b)\<rparr>) txs;
            txIDs = map tn_ID txs;
            blockTxIds = remdups (filter (\<lambda>b. b \<noteq> []) (map tn_TxBlockID txs))
        in
        bind (resolveProposers blockTxIds) (\<lambda>proposers.
        let txs2 = map (\<lambda>tx. case proposers (tn_TxBlockID tx) of None \<Rightarrow> tx | Some b \<Rightarrow> tx\<lparr>tn_Proposer := Some b\<rparr>) txs1 in
        bind (resolveRewarded txIDs) (\<lambda>rewardsTypes.
        bind (collectInsAndOuts txIDs) (\<lambda>outputs.
        bind (lift_err (collect_records outputs no_records)) (\<lambda>m.
        bind (collectCvmTransactions txIDs) (\<lambda>(cvmins, cvmouts).
        ret (map (dressTransactionsTx L ord disableGenesis txID djtxAssetID (add_address_lists (mo_addresses ord) outputs m)
                    rewardsTypes cvmins cvmouts) txs2)))))))"

section \<open>ListTransactions\<close>

record TransactionList =
  tl_Count :: "u64 option"
  tl_Transactions :: "DressedTransaction list"
  tl_StartTime :: gotime
  tl_EndTime :: gotime
  tl_Next :: "string option"

definition next_entry :: "ListTransactionsParams \<Rightarrow> string \<Rightarrow> string \<times> string list \<Rightarrow> string" where
  "next_entry p next e =
     (case e of (k, vs) \<Rightarrow>
       let each_value = foldl (\<lambda>s v. s @ ''&'' @ k @ ''='' @ v) next vs in
       if k = ''limit'' then next @ ''&limit='' @ dec_int (lp_Limit (lt_ListParams p))
       else if k = ''startTime'' then (if lt_Sort p = TransactionSortTimestampDesc then each_value else next)
       else if k = ''endTime'' then (if lt_Sort p = TransactionSortTimestampAsc then each_value else next)
       else if k = ''offset'' \<or> k = ''sort'' then next
       else each_value)"

definition transactionProcessNext :: "DressedTransaction list \<Rightarrow> entries \<Rightarrow> ListTransactionsParams \<Rightarrow> string option" where
  "transactionProcessNext txs vals p =
     (if txs = [] \<or> int (length txs) < lp_Limit (lt_ListParams p) then None
      else let lasttxCreated = tn_CreatedAt (last txs);
               start = (if lt_Sort p = TransactionSortTimestampAsc
                        then ''startTime='' @ dec_int (unix_seconds (lasttxCreated + second))
                        else if lt_Sort p = TransactionSortTimestampDesc
                        then ''endTime='' @ dec_int (unix_seconds lasttxCreated) else [])
           in Some (foldl (next_entry p) start vals @ ''&sort='' @ TransactionSort_String (lt_Sort p)))"

definition ListTransactions ::
  "nodelib \<Rightarrow> map_orders \<Rightarrow> ReaderTxCache \<Rightarrow> bytes \<Rightarrow> entries \<Rightarrow> ListTransactionsParams \<Rightarrow> (database, TransactionList) go" where
  "ListTransactions L ord rc djtxAssetID vals p =
     (let lp = lt_ListParams p in
      bind (listTxs L rc vals p) (\<lambda>(txs0, dressed).
      bind (if dressed then ret txs0 else dressTransactions L ord djtxAssetID (lp_ID lp) (lt_DisableGenesis p) txs0) (\<lambda>txs.
      let n = of_int (lp_Offset lp) + of_nat (length txs) in
      ret \<lparr>tl_Count = (if lp_DisableCounting lp then None
                       else Some (if int (length txs) \<ge> lp_Limit lp then n + 1 else n)),
           tl_Transactions = txs, tl_StartTime = lp_StartTime lp, tl_EndTime = lp_EndTime lp,
           tl_Next = transactionProcessNext txs vals p\<rparr>)))"

definition GetTransaction ::
  "nodelib \<Rightarrow> map_orders \<Rightarrow> ReaderTxCache \<Rightarrow> bytes \<Rightarrow> bytes \<Rightarrow> (database, DressedTransaction option) go" where
  "GetTransaction L ord rc djtxAssetID i =
     bind (ListTransactions L ord rc djtxAssetID []
       \<lparr>lt_ListParams = id_params i, lt_ChainIDs = [], lt_Addresses = [], lt_AssetID = None, lt_OutputOutputTypes = [],
        lt_OutputGroupIDs = [], lt_DisableGenesis = False, lt_Sort = TransactionSortTimestampAsc\<rparr>)
       (\<lambda>l. ret (case tl_Transactions l of [] \<Rightarrow> None | tx # _ \<Rightarrow> Some tx))"

section \<open>Pages of a list with an asset\<close>

text \<open>The first row of each transaction.\<close>

fun first_rows :: "Transaction list \<Rightarrow> Transaction list" where
  "first_rows [] = []"
| "first_rows (x # xs) = x # filter (\<lambda>y. tn_ID y \<noteq> tn_ID x) (first_rows xs)"

definition up_to :: "int \<Rightarrow> 'a list \<Rightarrow> 'a list" where
  "up_to limit xs = (if limit > 0 then take (nat limit) xs else xs)"

lemma filter_insert_id:
  "filter (\<lambda>y. tn_ID y \<notin> set (List.insert (tn_ID x) ids)) xs =
     filter (\<lambda>y. tn_ID y \<notin> set ids) (filter (\<lambda>y. tn_ID y \<noteq> tn_ID x) xs)"
  by (simp add: filter_filter conj_commute cong: filter_cong)

text \<open>Once the offset is filled.\<close>

lemma scan_txs_page:
  assumes "\<not> (offset > 0 \<and> int (length skip) < offset)" and "limit > 0 \<Longrightarrow> int (length txs) < limit"
  shows "scan_txs offset limit rows skip txs =
    up_to limit (txs @ filter (\<lambda>y. tn_ID y \<notin> set skip \<union> tn_ID ` set txs) (first_rows rows))"
  using assms(2)
proof (induction rows arbitrary: txs)
  case Nil
  then show ?case by (auto simp: up_to_def)
next
  case (Cons x rows)
  let ?new = "tn_ID x \<notin> set skip \<and> tn_ID x \<notin> tn_ID ` set txs"
  have step: "filter (\<lambda>y. tn_ID y \<notin> set skip \<union> tn_ID ` set txs) (first_rows (x # rows)) =
      (if ?new then x # filter (\<lambda>y. tn_ID y \<notin> set skip \<union> tn_ID ` set (txs @ [x])) (first_rows rows)
       else filter (\<lambda>y. tn_ID y \<notin> set skip \<union> tn_ID ` set txs) (first_rows rows))"
    by (auto simp: filter_filter intro!: filter_cong)
  show ?case
  proof (cases ?new)
    case True
    show ?thesis
    proof (cases "limit > 0 \<and> int (length (txs @ [x])) \<ge> limit")
      case True
      then have "nat limit = length (txs @ [x])" using Cons.prems by simp
      moreover have "scan_txs offset limit (x # rows) skip txs = txs @ [x]"
        using assms(1) True \<open>?new\<close> by (auto simp: Let_def)
      ultimately show ?thesis using \<open>?new\<close> True step by (simp add: up_to_def)
    next
      case False
      then have "scan_txs offset limit (x # rows) skip txs = scan_txs offset limit rows skip (txs @ [x])"
        using assms(1) \<open>?new\<close> by (auto simp: Let_def)
      also have "\<dots> = up_to limit ((txs @ [x]) @ filter (\<lambda>y. tn_ID y \<notin> set skip \<union> tn_ID ` set (txs @ [x])) (first_rows rows))"
        using False by (intro Cons.IH) simp
      finally show ?thesis using step \<open>?new\<close> by simp
    qed
  next
    case False
    then have "scan_txs offset limit (x # rows) skip txs = scan_txs offset limit rows skip txs"
      using assms(1) Cons.prems by (auto simp: Let_def)
    also have "\<dots> = up_to limit (txs @ filter (\<lambda>y. tn_ID y \<notin> set skip \<union> tn_ID ` set txs) (first_rows rows))"
      by (rule Cons.IH) (rule Cons.prems)
    finally show ?thesis unfolding step using False by (auto simp del: first_rows.simps scan_txs.simps)
  qed
qed

lemma scan_txs_offset:
  assumes "int (length skip) \<le> offset" and "0 \<le> offset"
  shows "scan_txs offset limit rows skip [] =
    up_to limit (drop (nat offset - length skip) (filter (\<lambda>y. tn_ID y \<notin> set skip) (first_rows rows)))"
  using assms(1)
proof (induction rows arbitrary: skip)
  case Nil
  show ?case by (simp add: up_to_def)
next
  case (Cons x rows)
  show ?case
  proof (cases "int (length skip) < offset")
    case True
    have more: "int (length (List.insert (tn_ID x) skip)) \<le> offset" using True by (simp add: List.insert_def)
    have "scan_txs offset limit (x # rows) skip [] = scan_txs offset limit rows (List.insert (tn_ID x) skip) []"
      using True assms(2) by simp
    also have "\<dots> = up_to limit (drop (nat offset - length (List.insert (tn_ID x) skip))
        (filter (\<lambda>y. tn_ID y \<notin> set (List.insert (tn_ID x) skip)) (first_rows rows)))"
      by (rule Cons.IH [OF more])
    finally show ?thesis
      using True unfolding filter_insert_id by (auto simp: List.insert_def Suc_diff_Suc filter_filter drop_Cons' intro!: arg_cong [where f = "up_to limit"])
  next
    case False
    then have "nat offset = length skip" using Cons.prems by simp
    with False show ?thesis using scan_txs_page [of offset skip limit "[]" "x # rows"] by simp
  qed
qed

lemma scan_txs_pages: "0 \<le> offset \<Longrightarrow> scan_txs offset limit rows [] [] = up_to limit (drop (nat offset) (first_rows rows))"
  using scan_txs_offset [of "[]" offset limit rows] by simp

section \<open>The records of an output\<close>

definition join_opts :: "('a \<Rightarrow> 'b \<Rightarrow> bool) \<Rightarrow> 'a \<Rightarrow> 'b list \<Rightarrow> 'b option list" where
  "join_opts on x ys = (case filter (on x) ys of [] \<Rightarrow> [None] | zs \<Rightarrow> map Some zs)"

lemma left_join_opts: "left_join on xs ys = concat (map (\<lambda>x. map (Pair x) (join_opts on x ys)) xs)"
proof -
  have "(case filter (on x) ys of [] \<Rightarrow> [(x, None)] | zs \<Rightarrow> map (\<lambda>z. (x, Some z)) zs) = map (Pair x) (join_opts on x ys)" for x
    by (simp add: join_opts_def split: list.split)
  then show ?thesis by (simp add: left_join_def)
qed

lemma join_keys:
  assumes "db_ok d"
  shows "distinct (map adr_Address (addresses d))" "distinct (map roo_ID (transactions_rewards_owners_outputs d))"
    "distinct (map tx_ID (avm_transactions d))" "distinct (map ep_ID (transactions_epoch d))"
    "distinct (map tv_ID (transactions_validator d))" "distinct (map tb_ID (transactions_block d))"
  using assms
  by (simp_all add: db_ok_def uniq_distinct [of Addresses_clash adr_Address] uniq_distinct [of TransactionsEpoch_clash ep_ID]
      uniq_distinct [of TransactionsRewardsOwnersOutputs_clash roo_ID] uniq_distinct [of Transactions_clash tx_ID]
      uniq_distinct [of TransactionsValidator_clash tv_ID] uniq_distinct [of TransactionsBlock_clash tb_ID]
      Addresses_clash_def TransactionsRewardsOwnersOutputs_clash_def Transactions_clash_def TransactionsEpoch_clash_def
      TransactionsValidator_clash_def TransactionsBlock_clash_def)

text \<open>An output with the transaction that spends it, as it is loaded, and the records of an output.\<close>

definition spender :: "database \<Rightarrow> Outputs \<Rightarrow> OutputsRedeeming option" where
  "spender d o1 = find (\<lambda>r. out_ID o1 = red_ID r) (avm_outputs_redeeming d)"

definition record_of :: "database \<Rightarrow> Outputs \<Rightarrow> OutputAddresses option \<Rightarrow> compositeRecord" where
  "record_of d o1 a = composite (out_ID o1, out_TransactionID o1, out_OutputIndex o1, out_AssetID o1, out_Amount o1,
     out_CreatedAt o1, out_ChainID o1) (Some o1) (spender d o1) a
     (find (\<lambda>rew. out_ID o1 = roo_ID rew) (transactions_rewards_owners_outputs d))
     (find (\<lambda>adr. case a of None \<Rightarrow> False | Some x \<Rightarrow> adr_Address adr = oad_Address x) (addresses d))"

definition address_rows :: "database \<Rightarrow> Outputs \<Rightarrow> OutputAddresses list" where
  "address_rows d o1 = filter (\<lambda>a. out_ID o1 = oad_OutputID a) (avm_output_addresses d)"

definition records_of :: "database \<Rightarrow> Outputs \<Rightarrow> compositeRecord list" where
  "records_of d o1 = map (record_of d o1) (case address_rows d o1 of [] \<Rightarrow> [None] | as \<Rightarrow> map Some as)"

lemma with_addresses_unique:
  assumes "db_ok d"
  shows "with_addresses ident d rows =
    map (\<lambda>(b, a). (((b, a), find (\<lambda>rew. ident b = roo_ID rew) (transactions_rewards_owners_outputs d)),
       find (\<lambda>adr. case a of None \<Rightarrow> False | Some x \<Rightarrow> adr_Address adr = oad_Address x) (addresses d)))
      (left_join (\<lambda>b a. ident b = oad_OutputID a) rows (avm_output_addresses d))"
proof -
  have one: "length (filter (\<lambda>adr. case a of None \<Rightarrow> False | Some x \<Rightarrow> adr_Address adr = oad_Address x) (addresses d)) \<le> 1" for a
    using distinct_key_matches [OF join_keys(1) [OF assms]] by (cases a) (simp_all add: eq_commute [of _ "oad_Address _"])
  have j1: "left_join (\<lambda>(b, a) rew. ident b = roo_ID rew) xs (transactions_rewards_owners_outputs d) =
      map (\<lambda>x. (x, find ((\<lambda>(b, a) rew. ident b = roo_ID rew) x) (transactions_rewards_owners_outputs d))) xs" for xs
    by (rule left_join_unique) (simp only: case_prod_unfold distinct_key_matches join_keys(2) [OF assms])
  have j2: "left_join (\<lambda>((b, a), rew) adr. case a of None \<Rightarrow> False | Some x \<Rightarrow> adr_Address adr = oad_Address x) ys (addresses d) =
      map (\<lambda>y. (y, find ((\<lambda>((b, a), rew) adr. case a of None \<Rightarrow> False | Some x \<Rightarrow> adr_Address adr = oad_Address x) y) (addresses d))) ys" for ys
    by (rule left_join_unique) (simp only: case_prod_unfold one)
  show ?thesis unfolding with_addresses_def j1 j2 by (simp add: o_def case_prod_unfold)
qed

lemma selectOutputs_records:
  assumes "db_ok d"
  shows "selectOutputs False d = concat (map (records_of d) (avm_outputs d))"
proof -
  have base: "left_join (\<lambda>o1 r. out_ID o1 = red_ID r) (avm_outputs d) (avm_outputs_redeeming d) =
      map (\<lambda>o1. (o1, spender d o1)) (avm_outputs d)"
    unfolding spender_def by (rule left_join_unique) (rule distinct_key_matches [OF ledger_keys(2) [OF assms]])
  have opts: "join_opts (\<lambda>b a. out_ID (fst b) = oad_OutputID a) (o1, r) (avm_output_addresses d) =
      (case address_rows d o1 of [] \<Rightarrow> [None] | as \<Rightarrow> map Some as)" for o1 and r :: "OutputsRedeeming option"
    by (simp add: join_opts_def address_rows_def)
  show ?thesis
    unfolding selectOutputs_def with_addresses_unique [OF assms] left_join_opts [of _ _ "avm_output_addresses d"] base
    by (simp add: map_concat o_def opts records_of_def [abs_def] record_of_def [abs_def] case_prod_unfold)
qed

lemma record_of_simps [simp]:
  "op_ID (cmp_Output (record_of d o1 a)) = out_ID o1"
  "op_TransactionID (cmp_Output (record_of d o1 a)) = out_TransactionID o1"
  "op_AssetID (cmp_Output (record_of d o1 a)) = out_AssetID o1"
  "op_Amount (cmp_Output (record_of d o1 a)) = dec_int (uint (out_Amount o1))"
  "op_RedeemingTransactionID (cmp_Output (record_of d o1 a)) = or_blank red_RedeemingTransactionID (spender d o1)"
  "op_Addresses (cmp_Output (record_of d o1 a)) = []"
  "cmp_Address (record_of d o1 a) = or_blank oad_Address a"
  by (simp_all add: record_of_def composite_def dec_int_def)

lemma record_of_output: "cmp_Output (record_of d o1 a) = cmp_Output (record_of d o1 None)"
  by (simp add: record_of_def composite_def)

section \<open>Dressing one transaction\<close>

text \<open>Collecting, entry by entry: each entry of the maps comes from the records that belong to it.\<close>

definition amount_of :: "compositeRecord \<Rightarrow> int" where
  "amount_of c = the (read_decimal (op_Amount (cmp_Output c)))"

definition put_output :: "compositeRecord \<Rightarrow> (string \<times> TxOutput) list \<Rightarrow> (string \<times> TxOutput) list" where
  "put_output c = AList.update (op_ID (cmp_Output c)) (cmp_Output c)"

definition put_input :: "compositeRecord \<Rightarrow> (string \<times> TxInput) list \<Rightarrow> (string \<times> TxInput) list" where
  "put_input c = AList.update (op_ID (cmp_Output c)) \<lparr>in_Output = cmp_Output c, in_Creds = []\<rparr>"

definition put_total :: "compositeRecord \<Rightarrow> (string \<times> int) list \<Rightarrow> (string \<times> int) list" where
  "put_total c = addToBigIntMap (op_AssetID (cmp_Output c)) (amount_of c)"

definition tx_of :: "compositeRecord \<Rightarrow> string" where
  "tx_of c = op_TransactionID (cmp_Output c)"

definition spent_by :: "compositeRecord \<Rightarrow> string" where
  "spent_by c = op_RedeemingTransactionID (cmp_Output c)"

definition id_of :: "compositeRecord \<Rightarrow> string" where
  "id_of c = op_ID (cmp_Output c)"

definition maps_of :: "compositeRecord list \<Rightarrow> collected" where
  "maps_of cs = \<lparr>outputAddrs = (\<lambda>i. fold (\<lambda>c. List.insert (cmp_Address c)) (filter (\<lambda>c. id_of c = i) cs) []),
     inputsMap = (\<lambda>tx. fold put_input (filter (\<lambda>c. spent_by c = tx) cs) []),
     outputsMap = (\<lambda>tx. fold put_output (filter (\<lambda>c. tx_of c = tx) cs) []),
     inputTotalsMap = (\<lambda>tx. fold put_total (filter (\<lambda>c. spent_by c = tx) cs) []),
     outputTotalsMap = (\<lambda>tx. fold put_total (filter (\<lambda>c. tx_of c = tx) cs) [])\<rparr>"

lemma collect_records_snoc:
  assumes "read_decimal (op_Amount (cmp_Output c)) \<noteq> None"
  shows "collect_record c (maps_of cs) = Inr (maps_of (cs @ [c]))"
  using assms
  by (auto simp: collect_record_def maps_of_def Let_def fun_eq_iff put_input_def put_output_def put_total_def amount_of_def
      id_of_def tx_of_def spent_by_def)

lemma collect_records_maps:
  assumes "\<forall>c \<in> set cs. read_decimal (op_Amount (cmp_Output c)) \<noteq> None"
  shows "collect_records cs (maps_of bs) = Inr (maps_of (bs @ cs))"
  using assms
proof (induction cs arbitrary: bs)
  case (Cons c cs)
  then show ?case using Cons.IH [of "bs @ [c]"] by (simp add: collect_records_snoc bind_err_def)
qed simp

lemma collect_no_records:
  assumes "\<forall>c \<in> set cs. read_decimal (op_Amount (cmp_Output c)) \<noteq> None"
  shows "collect_records cs no_records = Inr (maps_of cs)"
proof -
  have "no_records = maps_of []" by (simp add: no_records_def maps_of_def)
  with collect_records_maps [OF assms, of "[]"] show ?thesis by simp
qed

text \<open>Every spent output is recorded.\<close>

definition spent_known :: "database \<Rightarrow> bool" where
  "spent_known d \<longleftrightarrow> red_ID ` set (avm_outputs_redeeming d) \<subseteq> out_ID ` set (avm_outputs d)"

text \<open>The maps over all outputs, and a transaction dressed with them.\<close>

definition all_maps :: "map_orders \<Rightarrow> database \<Rightarrow> collected" where
  "all_maps ord d = (let cs = selectOutputs False d in add_address_lists (mo_addresses ord) cs (maps_of cs))"

definition reward_of :: "database \<Rightarrow> string \<Rightarrow> (u16 \<times> gotime) option" where
  "reward_of d = map_of (rev
     [(rw_Txid r, pb_Type b, pb_CreatedAt b). r \<leftarrow> rewards d,
        b \<leftarrow> filter (\<lambda>b. rw_BlockID r = pb_ParentID b \<and> pb_Type b \<in> {BlockTypeAbort, BlockTypeCommit}) (pvm_blocks d)])"

definition proposer_of :: "database \<Rightarrow> string \<Rightarrow> BlockProposal option" where
  "proposer_of d b = (if b = [] then None
     else map_of (rev (map (\<lambda>b. (pb_ID b, newBlockProposal b)) (pvm_blocks d))) b)"

definition dress_one ::
  "nodelib \<Rightarrow> map_orders \<Rightarrow> bool \<Rightarrow> bytes option \<Rightarrow> bytes \<Rightarrow> database \<Rightarrow> DressedTransaction \<Rightarrow> DressedTransaction" where
  "dress_one L ord disableGenesis txID djtxAssetID d tx =
     dressTransactionsTx L ord disableGenesis txID djtxAssetID (all_maps ord d) (reward_of d)
       (\<lambda>i. of_type CChainIn (cvm_rows [i] d) i) (\<lambda>i. of_type CchainOut (cvm_rows [i] d) i)
       (let tx1 = tx\<lparr>tn_Memo := Some (case tn_Memo tx of None \<Rightarrow> [] | Some b \<Rightarrow> b)\<rparr>
        in case proposer_of d (tn_TxBlockID tx) of None \<Rightarrow> tx1 | Some b \<Rightarrow> tx1\<lparr>tn_Proposer := Some b\<rparr>)"

lemma fold_put: "fold (\<lambda>r m. m(f r \<mapsto> g r)) rows m = m ++ map_of (rev (map (\<lambda>r. (f r, g r)) rows))"
  by (induction rows arbitrary: m) (simp_all add: map_add_assoc [symmetric])

lemma map_of_filter_key: "P i \<Longrightarrow> map_of (filter (\<lambda>e. P (fst e)) xs) i = map_of xs i"
  by (induction xs) auto

lemma filter_concat_map: "filter P (concat (map f xs)) = concat (map (\<lambda>x. filter P (f x)) xs)"
  by (induction xs) auto

lemma concat_map_filter: "concat (map f (filter P xs)) = concat (map (\<lambda>x. if P x then f x else []) xs)"
  by (induction xs) auto

lemma of_type_local: "i \<in> set txIDs \<Longrightarrow> of_type ty (cvm_rows txIDs d) i = of_type ty (cvm_rows [i] d) i"
  unfolding of_type_def cvm_rows_def filter_concat_map concat_map_filter
  by (intro arg_cong [where f = "map mapOutput"] arg_cong [where f = concat] map_cong) (auto simp: filter_empty_conv)

lemma resolveProposers_calm:
  assumes "calm w"
  shows "\<exists>f w'. resolveProposers blockIds w = (Inr f, w') \<and> calm w' \<and> store w' = store w \<and>
    (\<forall>b. b \<in> set blockIds \<longrightarrow> f b = map_of (rev (map (\<lambda>b. (pb_ID b, newBlockProposal b)) (pvm_blocks (store w)))) b) \<and>
    (\<forall>b. b \<notin> set blockIds \<longrightarrow> f b = None)"
proof -
  let ?all = "map (\<lambda>b. (pb_ID b, newBlockProposal b)) (pvm_blocks (store w))"
  let ?f = "map_of (filter (\<lambda>e. fst e \<in> set blockIds) (rev ?all))"
  have "?f b = None" if "b \<notin> set blockIds" for b using that by (auto simp: map_of_eq_None_iff)
  moreover have "?f b = map_of (rev ?all) b" if "b \<in> set blockIds" for b
    by (rule map_of_filter_key [of "\<lambda>k. k \<in> set blockIds"]) (rule that)
  moreover have "\<exists>w'. resolveProposers blockIds w = (Inr ?f, w') \<and> calm w' \<and> store w' = store w"
    using assms by (auto simp: resolveProposers_def sql_load_def bind_def calm_query ret_def fold_put rev_filter [symmetric]
      rev_map [symmetric] filter_map o_def)
  ultimately show ?thesis by blast
qed

lemma resolveRewarded_calm:
  assumes "calm w"
  shows "\<exists>f w'. resolveRewarded txIDs w = (Inr f, w') \<and> calm w' \<and> store w' = store w \<and>
    (\<forall>i \<in> set txIDs. f i = reward_of (store w) i)"
proof -
  let ?all = "[(rw_Txid r, pb_Type b, pb_CreatedAt b). r \<leftarrow> rewards (store w),
        b \<leftarrow> filter (\<lambda>b. rw_BlockID r = pb_ParentID b \<and> pb_Type b \<in> {BlockTypeAbort, BlockTypeCommit}) (pvm_blocks (store w))]"
  let ?f = "map_of (filter (\<lambda>e. fst e \<in> set txIDs) (rev ?all))"
  have "?f i = reward_of (store w) i" if "i \<in> set txIDs" for i
    unfolding reward_of_def by (rule map_of_filter_key [of "\<lambda>k. k \<in> set txIDs"]) (rule that)
  moreover have "filter (\<lambda>e. fst e \<in> set txIDs) ?all = [(rw_Txid r, pb_Type b, pb_CreatedAt b). r \<leftarrow> filter (\<lambda>r. rw_Txid r \<in> set txIDs) (rewards (store w)),
        b \<leftarrow> filter (\<lambda>b. rw_BlockID r = pb_ParentID b \<and> pb_Type b \<in> {BlockTypeAbort, BlockTypeCommit}) (pvm_blocks (store w))]"
    unfolding filter_concat_map concat_map_filter by (intro arg_cong [where f = concat] map_cong) (auto simp: filter_map o_def)
  then have "\<exists>w'. resolveRewarded txIDs w = (Inr ?f, w') \<and> calm w' \<and> store w' = store w"
    using assms by (simp add: fold_put [of fst snd] resolveRewarded_def bind_def calm_query ret_def rev_filter [symmetric] case_prod_unfold)
  ultimately show ?thesis by blast
qed

lemma left_join_row: "x \<in> set (left_join on xs ys) \<Longrightarrow> fst x \<in> set xs"
  using left_join_fst [of on xs ys] by blast

lemma with_addresses_fst: "x \<in> set (with_addresses ident d rows) \<Longrightarrow> fst (fst (fst x)) \<in> set rows"
  unfolding with_addresses_def by (drule left_join_row)+

lemma selectOutputs_redeem:
  assumes "c \<in> set (selectOutputs True d)"
  shows "\<exists>r \<in> set (avm_outputs_redeeming d). id_of c = red_ID r \<and> spent_by c = red_RedeemingTransactionID r"
proof -
  obtain r o1 a rew adr where c: "c = composite (red_ID r, red_Intx r, red_OutputIndex r, red_AssetID r, red_Amount r,
      red_CreatedAt r, red_ChainID r) o1 (Some r) a rew adr"
    and row: "((((r, o1), a), rew), adr) \<in> set (with_addresses (\<lambda>(r, o1). red_ID r) d
      (left_join (\<lambda>r o1. red_ID r = out_ID o1) (avm_outputs_redeeming d) (avm_outputs d)))"
    using assms by (auto simp: selectOutputs_def)
  have "r \<in> set (avm_outputs_redeeming d)"
    using left_join_row [OF with_addresses_fst [OF row]] by simp
  with c show ?thesis by (auto simp: composite_def id_of_def spent_by_def or_blank_def)
qed

text \<open>The records that belong to one of the transactions.\<close>

definition records_for :: "string list \<Rightarrow> database \<Rightarrow> compositeRecord list" where
  "records_for txIDs d = filter (\<lambda>c. id_of c \<in> {out_ID o1 |o1. o1 \<in> set (avm_outputs d) \<and> out_TransactionID o1 \<in> set txIDs} \<union>
     {red_ID r |r. r \<in> set (avm_outputs_redeeming d) \<and> red_RedeemingTransactionID r \<in> set txIDs}) (selectOutputs False d)"

lemma collectInsAndOuts_calm:
  assumes "calm w" and "spent_known (store w)"
  shows "\<exists>w'. collectInsAndOuts txIDs w = (Inr (records_for txIDs (store w)), w') \<and> calm w' \<and> store w' = store w"
proof -
  let ?d = "store w"
  let ?s2 = "[out_ID o1. r \<leftarrow> filter (\<lambda>r. red_RedeemingTransactionID r \<in> set txIDs) (avm_outputs_redeeming ?d),
                         o1 \<leftarrow> filter (\<lambda>o1. out_ID o1 = red_ID r) (avm_outputs ?d)]"
  have "filter (\<lambda>c. op_RedeemingTransactionID (cmp_Output c) \<in> set txIDs \<and> op_ID (cmp_Output c) \<notin> set ?s2) (selectOutputs True ?d) = []"
  proof (unfold filter_empty_conv, intro ballI notI)
    fix c assume c: "c \<in> set (selectOutputs True ?d)"
      "op_RedeemingTransactionID (cmp_Output c) \<in> set txIDs \<and> op_ID (cmp_Output c) \<notin> set ?s2"
    from selectOutputs_redeem [OF c(1)] obtain r where r: "r \<in> set (avm_outputs_redeeming ?d)"
      "op_ID (cmp_Output c) = red_ID r" "op_RedeemingTransactionID (cmp_Output c) = red_RedeemingTransactionID r"
      unfolding id_of_def spent_by_def by blast
    moreover from r(1) assms(2) obtain o1 where "o1 \<in> set (avm_outputs ?d)" "red_ID r = out_ID o1"
      by (auto simp: spent_known_def)
    ultimately show False using c(2) by auto
  qed
  moreover have "filter (\<lambda>c. op_ID (cmp_Output c) \<in> set (map out_ID (filter (\<lambda>o1. out_TransactionID o1 \<in> set txIDs) (avm_outputs ?d)) @
      map red_ID (filter (\<lambda>r. red_RedeemingTransactionID r \<in> set txIDs) (avm_outputs_redeeming ?d)))) (selectOutputs False ?d) =
      records_for txIDs ?d"
    unfolding records_for_def id_of_def by (intro filter_cong) auto
  ultimately show ?thesis
    using assms(1) by (simp add: collectInsAndOuts_def bind_def calm_query ret_def Let_def)
qed

lemma record_parts:
  assumes "db_ok d" and "c \<in> set (selectOutputs False d)"
  shows "\<exists>o1 a. o1 \<in> set (avm_outputs d) \<and> c = record_of d o1 a \<and>
     (case a of None \<Rightarrow> address_rows d o1 = [] | Some x \<Rightarrow> x \<in> set (address_rows d o1))"
proof -
  obtain o1 where o1: "o1 \<in> set (avm_outputs d)" "c \<in> set (records_of d o1)"
    using assms by (auto simp: selectOutputs_records)
  show ?thesis
  proof (cases "address_rows d o1")
    case Nil
    with o1 show ?thesis by (intro exI [of _ o1] exI [of _ None]) (simp add: records_of_def)
  next
    case (Cons a as)
    with o1(2) obtain x where "x \<in> set (address_rows d o1)" "c = record_of d o1 (Some x)"
      by (auto simp: records_of_def)
    with o1(1) show ?thesis by (intro exI [of _ o1] exI [of _ "Some x"]) simp
  qed
qed

lemma spender_Some: "spender d o1 = Some r \<Longrightarrow> r \<in> set (avm_outputs_redeeming d) \<and> out_ID o1 = red_ID r"
  by (auto simp: spender_def find_Some_iff)

lemma records_for_local:
  assumes "db_ok d" and "i \<in> set txIDs"
  shows "filter (\<lambda>c. tx_of c = i) (records_for txIDs d) = filter (\<lambda>c. tx_of c = i) (selectOutputs False d)"
    and "i \<noteq> [] \<Longrightarrow> filter (\<lambda>c. spent_by c = i) (records_for txIDs d) = filter (\<lambda>c. spent_by c = i) (selectOutputs False d)"
proof -
  note part = record_parts [OF assms(1)]
  show "filter (\<lambda>c. tx_of c = i) (records_for txIDs d) = filter (\<lambda>c. tx_of c = i) (selectOutputs False d)"
    unfolding records_for_def filter_filter
    by (rule filter_cong [OF refl], drule part) (use assms(2) in \<open>auto simp: tx_of_def id_of_def\<close>)
  have "\<exists>r. r \<in> set (avm_outputs_redeeming d) \<and> red_RedeemingTransactionID r \<in> set txIDs \<and> id_of c = red_ID r"
    if "c \<in> set (selectOutputs False d)" "spent_by c = i" "i \<noteq> []" for c
    using part [OF that(1)] that(2,3) assms(2)
    by (auto simp: spent_by_def id_of_def or_blank_def dest!: spender_Some split: option.splits)
  then show "filter (\<lambda>c. spent_by c = i) (records_for txIDs d) = filter (\<lambda>c. spent_by c = i) (selectOutputs False d)" if "i \<noteq> []"
    unfolding records_for_def filter_filter using that by (intro filter_cong refl) blast
qed

text \<open>An entry of the maps does not depend on the other transactions of the list.\<close>

lemma set_AList_update: "set (AList.update k v m) \<subseteq> insert (k, v) (set m)"
  by (induction m) auto

lemma fold_update_values:
  "e \<in> set (fold (\<lambda>c. AList.update (k c) (v c)) cs m) \<Longrightarrow> e \<in> set m \<or> (\<exists>c \<in> set cs. e = (k c, v c))"
proof (induction cs arbitrary: m)
  case (Cons c cs)
  then show ?case using set_AList_update [of "k c" "v c" m] by fastforce
qed simp

lemma maps_local:
  fixes order
  assumes "db_ok d" and "i \<in> set txIDs" and "i \<noteq> []"
  defines "here \<equiv> add_address_lists order (records_for txIDs d) (maps_of (records_for txIDs d))"
    and "full \<equiv> add_address_lists order (selectOutputs False d) (maps_of (selectOutputs False d))"
  shows "inputsMap here i = inputsMap full i" "outputsMap here i = outputsMap full i"
    "inputTotalsMap here i = inputTotalsMap full i" "outputTotalsMap here i = outputTotalsMap full i"
proof -
  let ?cs = "records_for txIDs d" and ?all = "selectOutputs False d"
  note loc = records_for_local(1) [OF assms(1,2)] records_for_local(2) [OF assms(1,2,3)]
  have "outputAddrs (maps_of ?cs) k = outputAddrs (maps_of ?all) k" if "k \<in> id_of ` set ?cs" for k
  proof -
    have "filter (\<lambda>c. id_of c = k) ?cs = filter (\<lambda>c. id_of c = k) ?all"
      using that unfolding records_for_def filter_filter by (intro filter_cong refl) auto
    then show ?thesis by (simp add: maps_of_def)
  qed
  then have addrs: "address_list order (maps_of ?cs) x = address_list order (maps_of ?all) x" if "op_ID x \<in> id_of ` set ?cs" for x
    using that by (simp add: address_list_def)
  have split: "filter (\<lambda>c. op_RedeemingTransactionID (cmp_Output c) = i \<and> cmp_OutputID c = k) xs =
      filter (\<lambda>c. cmp_OutputID c = k) (filter (\<lambda>c. spent_by c = i) xs)" for xs k
    by (simp add: spent_by_def conj_commute)
  have creds: "creds_of ?cs i k = creds_of ?all i k" for k unfolding creds_of_def split loc(2) ..
  have ins: "inputsMap (maps_of ?cs) i = inputsMap (maps_of ?all) i" and
    outs: "outputsMap (maps_of ?cs) i = outputsMap (maps_of ?all) i"
    using loc by (simp_all add: maps_of_def)
  have "op_ID (in_Output x) \<in> id_of ` set ?cs" if "(k, x) \<in> set (inputsMap (maps_of ?cs) i)" for k x
    using that by (auto simp: maps_of_def put_input_def [abs_def] id_of_def dest!: fold_update_values)
  then show "inputsMap here i = inputsMap full i"
    by (auto simp: here_def full_def add_address_lists_def ins [symmetric] creds addrs)
  have "op_ID x \<in> id_of ` set ?cs" if "(k, x) \<in> set (outputsMap (maps_of ?cs) i)" for k x
    using that by (auto simp: maps_of_def put_output_def [abs_def] id_of_def dest!: fold_update_values)
  then show "outputsMap here i = outputsMap full i"
    by (auto simp: here_def full_def add_address_lists_def outs [symmetric] addrs)
  show "inputTotalsMap here i = inputTotalsMap full i" "outputTotalsMap here i = outputTotalsMap full i"
    using loc by (simp_all add: here_def full_def add_address_lists_def maps_of_def)
qed

lemma records_decimal:
  assumes "db_ok d"
  shows "\<forall>c \<in> set (records_for txIDs d). read_decimal (op_Amount (cmp_Output c)) \<noteq> None"
  using record_parts [OF assms] by (fastforce simp: records_for_def)

lemma dressTransactionsTx_cong:
  assumes "inputsMap m (tn_ID tx) = inputsMap m' (tn_ID tx)" "outputsMap m (tn_ID tx) = outputsMap m' (tn_ID tx)"
    "inputTotalsMap m (tn_ID tx) = inputTotalsMap m' (tn_ID tx)" "outputTotalsMap m (tn_ID tx) = outputTotalsMap m' (tn_ID tx)"
    "rw (tn_ID tx) = rw' (tn_ID tx)" "ins (tn_ID tx) = ins' (tn_ID tx)" "outs (tn_ID tx) = outs' (tn_ID tx)"
  shows "dressTransactionsTx L ord dg txID asset m rw ins outs tx = dressTransactionsTx L ord dg txID asset m' rw' ins' outs' tx"
  unfolding dressTransactionsTx_def Let_def assms ..

lemma dressTransactions_calm:
  assumes "calm w" and "db_ok (store w)" and "spent_known (store w)" and "[] \<notin> tn_ID ` set txs"
  shows "\<exists>w'. dressTransactions L ord asset txID dg txs w = (Inr (map (dress_one L ord dg txID asset (store w)) txs), w') \<and>
    calm w' \<and> store w' = store w"
proof (cases "txs = []")
  case True
  with assms(1) show ?thesis by (simp add: dressTransactions_def ret_def)
next
  case False
  let ?d = "store w" and ?ids = "map tn_ID txs"
  let ?blocks = "remdups (filter (\<lambda>b. b \<noteq> []) (map tn_TxBlockID txs))"
  obtain f w1 where f: "resolveProposers ?blocks w = (Inr f, w1)" "calm w1" "store w1 = ?d"
    "\<forall>b. b \<in> set ?blocks \<longrightarrow> f b = map_of (rev (map (\<lambda>b. (pb_ID b, newBlockProposal b)) (pvm_blocks ?d))) b"
    "\<forall>b. b \<notin> set ?blocks \<longrightarrow> f b = None"
    using resolveProposers_calm [OF assms(1)] by blast
  obtain g w2 where g: "resolveRewarded ?ids w1 = (Inr g, w2)" "calm w2" "store w2 = ?d" "\<forall>i \<in> set ?ids. g i = reward_of ?d i"
    using resolveRewarded_calm [OF f(2)] f(3) by metis
  obtain w3 where c: "collectInsAndOuts ?ids w2 = (Inr (records_for ?ids ?d), w3)" "calm w3" "store w3 = ?d"
    using collectInsAndOuts_calm [OF g(2)] assms(3) g(3) by metis
  define cs where "cs = records_for ?ids ?d"
  note maps = collect_no_records [OF records_decimal [OF assms(2)], of ?ids, folded cs_def]
  have "f (tn_TxBlockID tx) = proposer_of ?d (tn_TxBlockID tx)" if "tx \<in> set txs" for tx
    using f(4,5) that by (auto simp: proposer_of_def)
  moreover note loc = maps_local [OF assms(2), of _ ?ids "mo_addresses ord", folded cs_def]
  have "dressTransactionsTx L ord dg txID asset (add_address_lists (mo_addresses ord) cs (maps_of cs)) g
      (of_type CChainIn (cvm_rows ?ids ?d)) (of_type CchainOut (cvm_rows ?ids ?d)) x =
    dressTransactionsTx L ord dg txID asset (all_maps ord ?d) (reward_of ?d)
      (\<lambda>i. of_type CChainIn (cvm_rows [i] ?d) i) (\<lambda>i. of_type CchainOut (cvm_rows [i] ?d) i) x"
    if "tn_ID x \<in> set ?ids" for x
  proof -
    have ne: "tn_ID x \<noteq> []" using that assms(4) by auto
    show ?thesis
      unfolding all_maps_def Let_def
      by (rule dressTransactionsTx_cong) (simp_all only: loc [OF that ne] g(4) [rule_format, OF that] of_type_local [OF that])
  qed
  ultimately show ?thesis
    using False f(1) g(1) c maps unfolding cs_def
    by (auto simp: dressTransactions_def bind_def Let_def lift_err_def ret_def collectCvmTransactions_def calm_query dress_one_def
        split: option.splits)
qed

section \<open>Inputs, outputs and totals\<close>

lemma update_new: "k \<notin> fst ` set m \<Longrightarrow> AList.update k v m = m @ [(k, v)]"
  by (induction m) auto

lemma fold_same:
  assumes "k \<notin> fst ` set m" and "cs \<noteq> []" and "\<forall>c \<in> set cs. key c = k \<and> val c = v"
  shows "fold (\<lambda>c. AList.update (key c) (val c)) cs m = m @ [(k, v)]"
proof -
  have again: "AList.update k v (m @ [(k, v)]) = m @ [(k, v)]" using assms(1) by (induction m) auto
  have "fold (\<lambda>c. AList.update (key c) (val c)) ds (m @ [(k, v)]) = m @ [(k, v)]" if "set ds \<subseteq> set cs" for ds
    using that assms(3) by (induction ds) (auto simp: again)
  from this [of "tl cs"] assms show ?thesis by (cases cs) (auto simp: update_new)
qed

text \<open>Outputs whose records follow each other give one entry each.\<close>

lemma fold_records:
  assumes "distinct (map out_ID os)" and "out_ID ` set os \<inter> fst ` set m = {}"
    and "\<And>d o1 a. val (record_of d o1 a) = v d o1"
  shows "fold (\<lambda>c. AList.update (op_ID (cmp_Output c)) (val c)) (concat (map (records_of d) os)) m =
    m @ map (\<lambda>o1. (out_ID o1, v d o1)) os"
  using assms(1,2)
proof (induction os arbitrary: m)
  case (Cons o1 os)
  have "fold (\<lambda>c. AList.update (op_ID (cmp_Output c)) (val c)) (records_of d o1) m = m @ [(out_ID o1, v d o1)]"
    using Cons.prems by (intro fold_same) (auto simp: records_of_def assms(3) split: list.splits)
  with Cons.IH [of "m @ [(out_ID o1, v d o1)]"] Cons.prems show ?case by auto
qed simp

definition base_output :: "database \<Rightarrow> Outputs \<Rightarrow> TxOutput" where
  "base_output d o1 = cmp_Output (record_of d o1 None)"

definition paid :: "database \<Rightarrow> string \<Rightarrow> Outputs list" where
  "paid d i = filter (\<lambda>o1. out_TransactionID o1 = i) (avm_outputs d)"

definition spent :: "database \<Rightarrow> string \<Rightarrow> Outputs list" where
  "spent d i = filter (\<lambda>o1. or_blank red_RedeemingTransactionID (spender d o1) = i) (avm_outputs d)"

lemma filter_records:
  assumes "\<And>o1 a. P (record_of d o1 a) \<longleftrightarrow> Q o1"
  shows "filter P (concat (map (records_of d) os)) = concat (map (records_of d) (filter Q os))"
proof -
  have "filter P (records_of d o1) = (if Q o1 then records_of d o1 else [])" for o1
    using assms by (auto simp: records_of_def filter_empty_conv intro!: filter_True)
  then show ?thesis by (simp add: filter_concat_map concat_map_filter)
qed

lemma records_by_tx:
  assumes "db_ok d"
  shows "filter (\<lambda>c. tx_of c = i) (selectOutputs False d) = concat (map (records_of d) (paid d i))"
    "filter (\<lambda>c. spent_by c = i) (selectOutputs False d) = concat (map (records_of d) (spent d i))"
    "filter (\<lambda>c. id_of c = i) (selectOutputs False d) = concat (map (records_of d) (filter (\<lambda>o1. out_ID o1 = i) (avm_outputs d)))"
  unfolding selectOutputs_records [OF assms] paid_def spent_def
  by (rule filter_records, simp add: tx_of_def spent_by_def id_of_def)+

lemma maps_entries:
  assumes "db_ok d"
  shows "outputsMap (maps_of (selectOutputs False d)) i = map (\<lambda>o1. (out_ID o1, base_output d o1)) (paid d i)"
    "inputsMap (maps_of (selectOutputs False d)) i =
      map (\<lambda>o1. (out_ID o1, \<lparr>in_Output = base_output d o1, in_Creds = []\<rparr>)) (spent d i)"
proof -
  have dist: "distinct (map out_ID (paid d i))" "distinct (map out_ID (spent d i))"
    using ledger_keys(1) [OF assms] by (simp_all add: paid_def spent_def distinct_map_filter)
  have "cmp_Output (record_of d o1 a) = base_output d o1" for d o1 a
    unfolding base_output_def by (rule record_of_output)
  with fold_records [OF dist(1), of "[]" cmp_Output base_output]
    fold_records [OF dist(2), of "[]" "\<lambda>c. \<lparr>in_Output = cmp_Output c, in_Creds = []\<rparr>" "\<lambda>d o1. \<lparr>in_Output = base_output d o1, in_Creds = []\<rparr>"]
  show "outputsMap (maps_of (selectOutputs False d)) i = map (\<lambda>o1. (out_ID o1, base_output d o1)) (paid d i)"
    "inputsMap (maps_of (selectOutputs False d)) i =
      map (\<lambda>o1. (out_ID o1, \<lparr>in_Output = base_output d o1, in_Creds = []\<rparr>)) (spent d i)"
    by (simp_all add: maps_of_def put_output_def [abs_def] put_input_def [abs_def] records_by_tx [OF assms])
qed

lemma fold_put_total:
  "map_of (fold put_total cs m) a =
     (if \<exists>c \<in> set cs. op_AssetID (cmp_Output c) = a
      then Some ((case map_of m a of None \<Rightarrow> 0 | Some n \<Rightarrow> n) + sum_list (map amount_of (filter (\<lambda>c. op_AssetID (cmp_Output c) = a) cs)))
      else map_of m a)"
proof (induction cs arbitrary: m)
  case (Cons c cs)
  have "map_of (put_total c m) a = (if op_AssetID (cmp_Output c) = a
      then Some ((case map_of m a of None \<Rightarrow> 0 | Some n \<Rightarrow> n) + amount_of c) else map_of m a)"
    by (auto simp: put_total_def addToBigIntMap_def update_conv')
  with Cons.IH [of "put_total c m"] show ?case by (auto simp: filter_empty_conv)
qed simp

lemma sum_records:
  "sum_list (map amount_of (filter (\<lambda>c. op_AssetID (cmp_Output c) = a) (concat (map (records_of d) os)))) =
     (\<Sum>o1\<leftarrow>filter (\<lambda>o1. out_AssetID o1 = a) os. max 1 (int (length (address_rows d o1))) * uint (out_Amount o1))"
proof -
  have "sum_list (map amount_of (records_of d o1)) = max 1 (int (length (address_rows d o1))) * uint (out_Amount o1)" for o1
    by (auto simp: records_of_def amount_of_def o_def sum_list_triv split: list.split)
  moreover have "filter (\<lambda>c. op_AssetID (cmp_Output c) = a) (concat (map (records_of d) os)) =
      concat (map (records_of d) (filter (\<lambda>o1. out_AssetID o1 = a) os))"
    by (rule filter_records) simp
  moreover have "sum_list (concat xss) = sum_list (map sum_list xss)" for xss :: "int list list"
    by (induction xss) auto
  ultimately show ?thesis by (simp add: map_concat o_def)
qed

text \<open>What a transaction shows of an output, and what the ledger holds of it.\<close>

definition view :: "TxOutput \<Rightarrow> string \<times> string \<times> string \<times> string \<times> string set" where
  "view x = (op_ID x, op_AssetID x, op_Amount x, op_RedeemingTransactionID x, set (op_Addresses x))"

definition ledger_view :: "database \<Rightarrow> Outputs \<Rightarrow> string \<times> string \<times> string \<times> string \<times> string set" where
  "ledger_view d o1 = (out_ID o1, out_AssetID o1, dec_int (uint (out_Amount o1)), or_blank red_RedeemingTransactionID (spender d o1),
     oad_Address ` set (address_rows d o1) - {[]})"

text \<open>The totals count an output once for each of its addresses.\<close>

definition totals :: "database \<Rightarrow> Outputs list \<Rightarrow> string \<rightharpoonup> string" where
  "totals d os a = (if a \<in> out_AssetID ` set os
     then Some (dec_int (\<Sum>o1\<leftarrow>filter (\<lambda>o1. out_AssetID o1 = a) os. max 1 (int (length (address_rows d o1))) * uint (out_Amount o1)))
     else None)"

lemma show_totals_records: "show_totals (fold put_total (concat (map (records_of d) os)) []) = totals d os"
proof
  fix a
  have "(\<lambda>c. op_AssetID (cmp_Output c)) ` set (records_of d o1) = {out_AssetID o1}" for o1
    by (auto simp: records_of_def image_image split: list.split)
  then have e: "(\<lambda>c. op_AssetID (cmp_Output c)) ` set (concat (map (records_of d) os)) = out_AssetID ` set os"
    by (induction os) (simp_all add: image_Un)
  have "(\<exists>c \<in> set (concat (map (records_of d) os)). op_AssetID (cmp_Output c) = a) \<longleftrightarrow> a \<in> out_AssetID ` set os"
    unfolding e [symmetric] by auto
  then show "show_totals (fold put_total (concat (map (records_of d) os)) []) a = totals d os a"
    using sum_records [of a d os] by (simp add: show_totals_def fold_put_total totals_def)
qed

lemma fold_insert_set: "set (fold (\<lambda>c. List.insert (f c)) cs xs) = set xs \<union> f ` set cs"
  by (induction cs arbitrary: xs) auto

lemma outputAddrs_set:
  assumes "db_ok d" and "o1 \<in> set (avm_outputs d)"
  shows "set (outputAddrs (maps_of (selectOutputs False d)) (out_ID o1)) - {[]} = oad_Address ` set (address_rows d o1) - {[]}"
proof -
  have "filter (\<lambda>o2. out_ID o2 = out_ID o1) (avm_outputs d) = [o1]"
    by (rule filter_own_key [OF ledger_keys(1) [OF assms(1)] assms(2)])
  then show ?thesis
    by (auto simp: maps_of_def records_by_tx [OF assms(1)] fold_insert_set records_of_def or_blank_def image_image split: list.split)
qed

lemma shown_output:
  assumes "db_ok d" and "o1 \<in> set (avm_outputs d)" and "\<And>xs. set (order xs) = set xs"
  shows "view (address_list order (maps_of (selectOutputs False d)) (base_output d o1)) = ledger_view d o1"
proof -
  have "set (filter (\<lambda>a. a \<noteq> []) xs) = set xs - {[]}" for xs :: "string list" by auto
  with outputAddrs_set [OF assms(1,2)] show ?thesis
    by (simp add: view_def ledger_view_def address_list_def base_output_def assms(3) del: set_filter)
qed

lemma dress_one_parts:
  fixes L txID asset
  assumes "db_ok d" and "\<And>xs. set (mo_addresses ord xs) = set xs" and "\<And>xs. mset (mo_inputs ord xs) = mset xs"
    and "\<And>xs. mset (mo_outputs ord xs) = mset xs" and "tn_Inputs tx = []" and "tn_Outputs tx = []"
  defines "i \<equiv> tn_ID tx" and "tx' \<equiv> dress_one L ord False txID asset d tx"
  shows "mset (map view (tn_Outputs tx')) = mset (map (ledger_view d) (paid d i)) + mset (map view (of_type CchainOut (cvm_rows [i] d) i))"
    "mset (map (\<lambda>x. view (in_Output x)) (tn_Inputs tx')) =
      mset (map (ledger_view d) (spent d i)) + mset (map view (of_type CChainIn (cvm_rows [i] d) i))"
    "tn_OutputTotals tx' = totals d (paid d i)" "tn_InputTotals tx' = totals d (spent d i)" "tn_ID tx' = i"
proof -
  let ?m = "maps_of (selectOutputs False d)"
  have outs: "map (\<lambda>o1. view (address_list (mo_addresses ord) ?m (base_output d o1))) (paid d i) = map (ledger_view d) (paid d i)"
    and ins: "map (\<lambda>o1. view (address_list (mo_addresses ord) ?m (base_output d o1))) (spent d i) = map (ledger_view d) (spent d i)"
    using shown_output [OF assms(1) _ assms(2)] by (simp_all add: paid_def spent_def)
  have tx': "tn_Outputs tx' = mo_outputs ord (map snd (outputsMap (all_maps ord d) i)) @ of_type CchainOut (cvm_rows [i] d) i"
    "tn_Inputs tx' = mo_inputs ord (map snd (inputsMap (all_maps ord d) i)) @
       map (\<lambda>x. \<lparr>in_Output = x, in_Creds = []\<rparr>) (of_type CChainIn (cvm_rows [i] d) i)"
    "tn_OutputTotals tx' = show_totals (outputTotalsMap (all_maps ord d) i)"
    "tn_InputTotals tx' = show_totals (inputTotalsMap (all_maps ord d) i)" "tn_ID tx' = i"
    using assms(5,6) by (auto simp: tx'_def i_def dress_one_def dressTransactionsTx_def Let_def split: option.split)
  show "tn_ID tx' = i" by (fact tx'(5))
  show "tn_OutputTotals tx' = totals d (paid d i)" "tn_InputTotals tx' = totals d (spent d i)"
    unfolding tx' by (simp_all add: all_maps_def add_address_lists_def maps_of_def Let_def records_by_tx [OF assms(1)] show_totals_records)
  have "mset (map view (mo_outputs ord xs)) = image_mset view (mset xs)" for xs by (simp add: assms(4))
  then show "mset (map view (tn_Outputs tx')) = mset (map (ledger_view d) (paid d i)) + mset (map view (of_type CchainOut (cvm_rows [i] d) i))"
    unfolding tx'(1) outs [symmetric]
    by (simp add: all_maps_def add_address_lists_def Let_def maps_entries [OF assms(1)] o_def case_prod_unfold image_mset.compositionality)
  have "mset (map (\<lambda>x. view (in_Output x)) (mo_inputs ord xs)) = image_mset (\<lambda>x. view (in_Output x)) (mset xs)" for xs by (simp add: assms(3))
  then show "mset (map (\<lambda>x. view (in_Output x)) (tn_Inputs tx')) =
      mset (map (ledger_view d) (spent d i)) + mset (map view (of_type CChainIn (cvm_rows [i] d) i))"
    unfolding tx'(2) ins [symmetric]
    by (simp add: all_maps_def add_address_lists_def Let_def maps_entries [OF assms(1)] o_def case_prod_unfold image_mset.compositionality)
qed

section \<open>Properties\<close>

text \<open>C28: What a transaction shows.  When every spent output is recorded, dressing returns each transaction with
  exactly the outputs it made and the outputs it spends, each with its asset, amount, addresses and
  spending transaction, and with its atomic C-chain addresses; its totals are the sums per asset in which an output
  counts once for each of its addresses.\<close>

theorem dressTransactions_exact:
  assumes "calm w" and "db_ok (store w)" and "spent_known (store w)" and "[] \<notin> tn_ID ` set txs"
    and "\<forall>tx \<in> set txs. tn_Inputs tx = [] \<and> tn_Outputs tx = []"
    and "\<And>xs. set (mo_addresses ord xs) = set xs" and "\<And>xs. mset (mo_inputs ord xs) = mset xs" and "\<And>xs. mset (mo_outputs ord xs) = mset xs"
  shows "\<exists>txs' w'. dressTransactions L ord asset txID False txs w = (Inr txs', w') \<and> store w' = store w \<and>
    list_all2 (\<lambda>tx tx'. let i = tn_ID tx; d = store w in tn_ID tx' = i \<and>
      mset (map view (tn_Outputs tx')) = mset (map (ledger_view d) (paid d i)) + mset (map view (of_type CchainOut (cvm_rows [i] d) i)) \<and>
      mset (map (\<lambda>x. view (in_Output x)) (tn_Inputs tx')) =
        mset (map (ledger_view d) (spent d i)) + mset (map view (of_type CChainIn (cvm_rows [i] d) i)) \<and>
      tn_OutputTotals tx' = totals d (paid d i) \<and> tn_InputTotals tx' = totals d (spent d i)) txs txs'"
proof -
  obtain w' where w': "dressTransactions L ord asset txID False txs w = (Inr (map (dress_one L ord False txID asset (store w)) txs), w')"
    "store w' = store w"
    using dressTransactions_calm [OF assms(1-4)] by blast
  show ?thesis
    by (intro exI [of _ "map (dress_one L ord False txID asset (store w)) txs"] exI [of _ w'] conjI w')
      (use assms(5) in \<open>simp add: list_all2_map2 list_all2_same Let_def dress_one_parts [OF assms(2,6,7,8)] del: mset_map\<close>)
qed

definition sample_tx :: "string \<Rightarrow> gotime \<Rightarrow> Transactions" where
  "sample_tx i t = \<lparr>tx_ID = i, tx_ChainID = ''X'', tx_Type = ''base'', tx_Memo = None, tx_CanonicalSerialization = [],
     tx_Txfee = 0, tx_NetworkID = 1, tx_Genesis = False, tx_Status = 0, tx_CreatedAt = t\<rparr>"

text \<open>An output that belongs to two addresses and is spent.\<close>

definition joint_db :: database where
  "joint_db = empty_db\<lparr>avm_transactions := [sample_tx ''t1'' 0, sample_tx ''t2'' 7], avm_outputs := [sample_output ''1'' 30],
     avm_output_addresses := [sample_address ''1'', (sample_address ''1'')\<lparr>oad_Address := ''bob''\<rparr>],
     avm_outputs_redeeming := [\<lparr>red_ID = ''1'', red_RedeemedAt = 0, red_RedeemingTransactionID = ''t2'', red_Amount = 30,
       red_OutputIndex = 0, red_Intx = ''t1'', red_AssetID = ''DJTX'', red_ChainID = ''X'', red_CreatedAt = 0\<rparr>]\<rparr>"

lemmas joint_db_defs = joint_db_def sample_tx_def sample_output_def sample_address_def empty_db_def

lemma joint_db_ok: "db_ok joint_db" "spent_known joint_db"
  by (simp_all add: db_ok_def spent_known_def joint_db_defs uniq_def Transactions_clash_def Outputs_clash_def OutputAddresses_clash_def)

definition go_order :: map_orders where
  "go_order = \<lparr>mo_addresses = rev, mo_inputs = rev, mo_outputs = rev\<rparr>"

theorem dressTransactions_exact_witness:
  "\<exists>tx1 tx2 w'. dressTransactions plain_lib go_order ''DJTX'' None False (map undressed (transactionQuery joint_db))
      (calm_sample\<lparr>store := joint_db\<rparr>) = (Inr [tx1, tx2], w') \<and>
    mset (map view (tn_Outputs tx1)) = {#(''1'', ''DJTX'', ''30'', ''t2'', {''alice'', ''bob''})#} \<and>
    tn_OutputTotals tx1 ''DJTX'' = Some ''60'' \<and> tn_InputTotals tx2 ''DJTX'' = Some ''60''"
proof -
  let ?w = "calm_sample\<lparr>store := joint_db\<rparr>" and ?txs = "map undressed (transactionQuery joint_db)"
  have q: "map tn_ID (transactionQuery joint_db) = [''t1'', ''t2'']"
    by (simp add: transactionQuery_def left_join_def joint_db_defs)
  then have ids: "map tn_ID ?txs = [''t1'', ''t2'']" by (simp add: undressed_def Transaction.defs o_def)
  have calm: "calm ?w" "db_ok (store ?w)" "spent_known (store ?w)" by (simp_all add: calm_sample_def calm_def joint_db_ok)
  have bare: "\<forall>tx \<in> set ?txs. tn_Inputs tx = [] \<and> tn_Outputs tx = []" by (simp add: undressed_def Transaction.defs)
  have ne: "[] \<notin> tn_ID ` set ?txs" using arg_cong [OF ids, of set] by (simp add: image_image)
  have ord: "\<And>xs. set (mo_addresses go_order xs) = set xs" "\<And>xs. mset (mo_inputs go_order xs) = mset xs"
    "\<And>xs. mset (mo_outputs go_order xs) = mset xs" by (simp_all add: go_order_def)
  obtain u1 u2 where u: "?txs = [u1, u2]" "tn_ID u1 = ''t1''" "tn_ID u2 = ''t2''"
    using ids by (auto simp: map_eq_Cons_conv)
  have cvm: "of_type ty (cvm_rows [i] joint_db) i = []" for ty i by (simp add: of_type_def cvm_rows_def joint_db_defs)
  have dec: "dec_int 30 = ''30''" "dec_int 60 = ''60''" by code_simp+
  have facts: "map (ledger_view joint_db) (paid joint_db ''t1'') = [(''1'', ''DJTX'', ''30'', ''t2'', {''alice'', ''bob''})]"
    "totals joint_db (paid joint_db ''t1'') ''DJTX'' = Some ''60''" "totals joint_db (spent joint_db ''t2'') ''DJTX'' = Some ''60''"
    by (auto simp: ledger_view_def paid_def spent_def totals_def spender_def address_rows_def or_blank_def joint_db_defs dec)
  from dressTransactions_exact [OF calm ne bare ord, of plain_lib "''DJTX''" None] u facts cvm
  show ?thesis by (fastforce simp: list_all2_Cons1 Let_def)
qed

lemma set_applySort: "set (applySort p cols rows) = set rows"
  by (simp add: applySort_def Let_def)

lemma first_rows_subset: "set (first_rows xs) \<subseteq> set xs"
  by (induction xs) auto

text \<open>C30: Pages of the transactions of an asset.  The select gives a row for each output of the asset; the page is
  nevertheless the requested slice of the distinct transactions among the first 100000 rows, in their order, no transaction occurs
  twice, and each has an output of the asset that meets the restrictions on type and group.\<close>

theorem listTxs_asset_page:
  assumes "calm w" and "lt_AssetID p = Some asset" and "lt_Addresses p = []" and "lp_ID (lt_ListParams p) = None"
    and "0 \<le> lp_Offset (lt_ListParams p)"
  shows "\<exists>txs. fst (listTxs L rc vals p w) = Inr (map undressed txs, False) \<and>
    txs = up_to (lp_Limit (lt_ListParams p)) (drop (nat (lp_Offset (lt_ListParams p))) (first_rows
      (take 100000 (applySort p tn_cols (listTxsQuery L p (store w) tn_cols (transactionQuery (store w))))))) \<and>
    distinct (map tn_ID txs) \<and>
    (\<forall>tx \<in> set txs. \<exists>o1 \<in> set (avm_outputs (store w)). out_TransactionID o1 = tn_ID tx \<and> assetCheck L p asset o1)"
proof -
  let ?q = "listTxsQuery L p (store w) tn_cols (transactionQuery (store w))"
  let ?rows = "take 100000 (applySort p tn_cols ?q)"
  let ?txs = "up_to (lp_Limit (lt_ListParams p)) (drop (nat (lp_Offset (lt_ListParams p))) (first_rows ?rows))"
  have "distinct (map tn_ID (first_rows xs))" for xs
    by (induction xs) (auto simp: distinct_map_filter)
  then have "distinct (map tn_ID ?txs)"
    by (simp add: up_to_def take_map [symmetric] drop_map [symmetric])
  moreover have "set ?txs \<subseteq> set ?q"
  proof -
    have "set ?txs \<subseteq> set (first_rows ?rows)" by (auto simp: up_to_def dest: in_set_takeD in_set_dropD)
    also have "\<dots> \<subseteq> set ?rows" by (rule first_rows_subset)
    also have "\<dots> \<subseteq> set ?q" using set_take_subset [of 100000 "applySort p tn_cols ?q"] by (simp only: set_applySort)
    finally show ?thesis .
  qed
  moreover have "\<exists>o1 \<in> set (avm_outputs (store w)). out_TransactionID o1 = tn_ID tx \<and> assetCheck L p asset o1" if "tx \<in> set ?q" for tx
    using that assms(2,3) by (auto simp: listTxsQuery_def Let_def tn_cols_def)
  moreover have "fst (listTxs L rc vals p w) = Inr (map undressed ?txs, False)"
    using assms by (simp add: listTxs_def Let_def bind_def calm_query ret_def scan_txs_pages)
  ultimately show ?thesis by (intro exI [of _ ?txs]) blast
qed

definition asset_request :: ListTransactionsParams where
  "asset_request = \<lparr>lt_ListParams = zero_params\<lparr>lp_Limit := 1, lp_Offset := 0\<rparr>, lt_ChainIDs = [], lt_Addresses = [],
     lt_AssetID = Some ''DJTX'', lt_OutputOutputTypes = [7], lt_OutputGroupIDs = [], lt_DisableGenesis = False,
     lt_Sort = TransactionSortTimestampDesc\<rparr>"

theorem listTxs_asset_page_witness:
  "\<exists>tx. fst (listTxs plain_lib \<lparr>rc_IsAggregateCache = False, rc_txDesc = new_TxList, rc_txAsc = new_TxList\<rparr> [] asset_request
      (calm_sample\<lparr>store := joint_db\<rparr>)) = Inr ([undressed tx], False) \<and> tn_ID tx = ''t1''"
proof -
  let ?w = "calm_sample\<lparr>store := joint_db\<rparr>" and ?rc = "\<lparr>rc_IsAggregateCache = False, rc_txDesc = new_TxList, rc_txAsc = new_TxList\<rparr>"
  have calm: "calm ?w" by (simp add: calm_sample_def calm_def)
  have req: "lt_AssetID asset_request = Some ''DJTX''" "lt_Addresses asset_request = []" "lp_ID (lt_ListParams asset_request) = None"
    "0 \<le> lp_Offset (lt_ListParams asset_request)" by (simp_all add: asset_request_def zero_params_def)
  have "map tn_ID (up_to (lp_Limit (lt_ListParams asset_request)) (drop (nat (lp_Offset (lt_ListParams asset_request))) (first_rows
      (take 100000 (applySort asset_request tn_cols (listTxsQuery plain_lib asset_request joint_db tn_cols (transactionQuery joint_db))))))) = [''t1'']"
    by (simp add: up_to_def applySort_def listTxsQuery_def tx_wanted_def asset_request_def zero_params_def transactionQuery_def left_join_def
        tn_cols_def assetCheck_def plain_lib_def joint_db_defs Let_def)
  with listTxs_asset_page [OF calm req, of plain_lib ?rc "[]"] show ?thesis by (auto simp: map_eq_Cons_conv)
qed

text \<open>The request that a link to the next page makes, in ascending order.\<close>

definition follow :: "ListTransactionsParams \<Rightarrow> gotime \<Rightarrow> ListTransactionsParams" where
  "follow p t = p\<lparr>lt_ListParams := (lt_ListParams p)\<lparr>lp_StartTime := t, lp_StartTimeProvided := True\<rparr>\<rparr>"

lemma foldl_next_entry: "\<exists>rest. foldl (next_entry p) start vals = start @ rest"
proof (induction vals arbitrary: start)
  case (Cons e vals)
  obtain k vs where e: "e = (k, vs)" by (cases e)
  have "\<exists>rest. foldl (\<lambda>s v. s @ ''&'' @ k @ ''='' @ v) s vs = s @ rest" for s
    by (induction vs arbitrary: s) (auto, metis append.assoc)
  then obtain r where r: "foldl (\<lambda>s v. s @ ''&'' @ k @ ''='' @ v) start vs = start @ r" by blast
  have "\<exists>rest. next_entry p start e = start @ rest"
    unfolding next_entry_def e prod.case r Let_def by simp
  then obtain r1 where r1: "next_entry p start e = start @ r1" ..
  obtain r2 where "foldl (next_entry p) (start @ r1) vals = (start @ r1) @ r2" using Cons.IH by blast
  with r1 show ?case by simp
qed simp

text \<open>C31: Where the link to the next page leads.  In ascending order it asks for the transactions from the second after
  the last transaction of the page on: the next request selects exactly the wanted transactions from that time on,
  so no transaction is shown again, while those in the rest of the second of the last one are skipped.\<close>

theorem next_page_from_next_second:
  assumes "transactionProcessNext txs vals p = Some next" and "lt_Sort p = TransactionSortTimestampAsc"
    and "\<forall>tx \<in> set txs. tn_CreatedAt tx \<le> tn_CreatedAt (last txs)"
    and "tx_wanted L p d (tn_ID (last txs), tn_ChainID (last txs), tn_CreatedAt (last txs))"
    and "0 \<le> tn_CreatedAt (last txs)" and "tn_CreatedAt (last txs) < 2 ^ 62"
  shows "\<exists>n rest. next = ''startTime='' @ dec_int n @ rest \<and>
    (\<forall>T q. strs_of q ''startTime'' = [dec_int n] \<longrightarrow> GetQueryTime T q ''startTime'' = Inr (True, n * second)) \<and>
    Round (n * second) = n * second \<and> n * second = (tn_CreatedAt (last txs) div second + 1) * second \<and>
    (\<forall>tx \<in> set txs. tn_CreatedAt tx < n * second) \<and>
    (\<forall>i chain t. tx_wanted L (follow p (n * second)) d (i, chain, t) \<longleftrightarrow> tx_wanted L p d (i, chain, t) \<and> n * second \<le> t)"
proof -
  let ?t = "tn_CreatedAt (last txs)"
  define n where "n = ?t div second + 1"
  have n: "unix_seconds (?t + second) = n" by (simp add: unix_seconds_def n_def second_def)
  have lt: "?t < n * second" using pos_mod_bound [of second ?t] div_mult_mod_eq [of ?t second] by (simp add: n_def second_def algebra_simps)
  have pos: "1 \<le> n" using assms(5) by (simp add: n_def second_def pos_imp_zdiv_nonneg_iff)
  have "?t div second \<le> ?t" using assms(5) by (simp add: second_def)
  then have fits: "n < 2 ^ 63" using assms(6) by (simp add: n_def)
  obtain rest where "next = ''startTime='' @ dec_int n @ rest"
    using assms(1,2) n foldl_next_entry [of p "''startTime='' @ dec_int n" vals]
    by (auto simp: transactionProcessNext_def Let_def split: if_splits)
  moreover have "GetQueryTime T q ''startTime'' = Inr (True, n * second)" if "strs_of q ''startTime'' = [dec_int n]" for T q
    using that pos fits by (simp add: GetQueryTime_def Atoi_def ParseInt_def)
  moreover have "Round (n * second) = n * second" by (simp add: Round_def second_def)
  moreover have "n * second = (?t div second + 1) * second" by (simp add: n_def)
  moreover have "\<forall>tx \<in> set txs. tn_CreatedAt tx < n * second" using assms(3) lt by fastforce
  moreover have "tx_wanted L (follow p (n * second)) d (i, chain, t) \<longleftrightarrow> tx_wanted L p d (i, chain, t) \<and> n * second \<le> t" for i chain t
  proof -
    have same: "assetCheck L (follow p (n * second)) = assetCheck L p" "lt_Addresses (follow p (n * second)) = lt_Addresses p"
      "lt_AssetID (follow p (n * second)) = lt_AssetID p" by (simp_all add: fun_eq_iff assetCheck_def follow_def)
    have "union_q L (follow p (n * second)) d = union_q L p d" unfolding union_q_def same ..
    moreover have "n * second \<noteq> zero_time" using pos by (simp add: zero_time_def second_def)
    moreover have "lp_StartTime (lt_ListParams p) \<le> ?t"
      if "lp_StartTimeProvided (lt_ListParams p)" "lp_StartTime (lt_ListParams p) \<noteq> zero_time"
      using assms(4) that by (simp add: tx_wanted_def Let_def)
    ultimately show ?thesis using lt by (auto simp: tx_wanted_def follow_def Let_def)
  qed
  ultimately show ?thesis by blast
qed

definition first_page :: ListTransactionsParams where
  "first_page = \<lparr>lt_ListParams = zero_params\<lparr>lp_Limit := 1\<rparr>, lt_ChainIDs = [], lt_Addresses = [], lt_AssetID = None,
     lt_OutputOutputTypes = [], lt_OutputGroupIDs = [], lt_DisableGenesis = False, lt_Sort = TransactionSortTimestampAsc\<rparr>"

text \<open>The second transaction, seven nanoseconds after the first one, is on no page of length one.\<close>

theorem next_page_from_next_second_witness:
  "\<exists>t1 n rest. take 1 (transactionQuery joint_db) = [t1] \<and>
     transactionProcessNext [undressed t1] [] first_page = Some (''startTime='' @ dec_int n @ rest) \<and>
     tx_wanted plain_lib first_page joint_db (''t2'', ''X'', 7) \<and>
     \<not> tx_wanted plain_lib (follow first_page (n * second)) joint_db (''t2'', ''X'', 7)"
proof -
  obtain t1 where t1: "take 1 (transactionQuery joint_db) = [t1]" "tn_CreatedAt t1 = 0"
    by (simp add: transactionQuery_def left_join_def joint_db_defs)
  let ?txs = "[undressed t1]"
  have created: "tn_CreatedAt (last ?txs) = 0" using t1(2) by (simp add: undressed_def Transaction.defs)
  have wanted: "tx_wanted plain_lib first_page joint_db (i, c, t)" for i c t
    by (simp add: tx_wanted_def first_page_def zero_params_def)
  obtain link where link: "transactionProcessNext ?txs [] first_page = Some link"
    by (simp add: transactionProcessNext_def first_page_def zero_params_def)
  have "lt_Sort first_page = TransactionSortTimestampAsc" by (simp add: first_page_def)
  moreover have "\<forall>tx \<in> set ?txs. tn_CreatedAt tx \<le> tn_CreatedAt (last ?txs)" by simp
  moreover have "0 \<le> tn_CreatedAt (last ?txs)" "tn_CreatedAt (last ?txs) < 2 ^ 62" unfolding created by simp_all
  ultimately obtain n rest where "link = ''startTime='' @ dec_int n @ rest" "n * second = (0 div second + 1) * second"
    "\<forall>i chain t. tx_wanted plain_lib (follow first_page (n * second)) joint_db (i, chain, t) \<longleftrightarrow>
         tx_wanted plain_lib first_page joint_db (i, chain, t) \<and> n * second \<le> t"
    using next_page_from_next_second [OF link _ _ wanted] unfolding created by blast
  with t1(1) link wanted show ?thesis by (intro exI [of _ t1] exI [of _ n] exI [of _ rest]) (auto simp: second_def)
qed

section \<open>The cached transactions\<close>

definition load_txs :: "nodelib \<Rightarrow> map_orders \<Rightarrow> bytes \<Rightarrow> (database, DressedTransaction list) go" where
  "load_txs L ord djtxAssetID =
     bind (query (\<lambda>d. Inr (take 5000 (sort_key (\<lambda>t. (tn_CreatedAt t, tn_ChainID t)) (transactionQuery d)))))
       (\<lambda>txs. dressTransactions L ord djtxAssetID None False (map undressed txs))"

text \<open>One run of \<^verbatim>\<open>processorTxAscFetch\<close>: an error, or an empty ledger, empties the cache.\<close>

definition runTx ::
  "nodelib \<Rightarrow> map_orders \<Rightarrow> bytes \<Rightarrow> 'a ReaderTxCache_scheme \<Rightarrow> database world \<Rightarrow> 'a ReaderTxCache_scheme \<times> database world" where
  "runTx L ord djtxAssetID rc w =
     (case load_txs L ord djtxAssetID w of
        (Inl _, w1) \<Rightarrow> (rc\<lparr>rc_txAsc := TxList_Set None\<rparr>, w1)
      | (Inr txs, w1) \<Rightarrow> (rc\<lparr>rc_txAsc := TxList_Set (if txs = [] then None else Some txs)\<rparr>, w1))"

lemma filter_subseq:
  "subseq ys zs \<Longrightarrow> distinct (map f zs) \<Longrightarrow> filter (\<lambda>t. f t \<in> f ` set ys) zs = ys"
proof (induction rule: list_emb.induct)
  case (list_emb_Cons xs ys y)
  have "set xs \<subseteq> set ys" using list_emb_set [OF list_emb_Cons.hyps] by blast
  then have "f y \<notin> f ` set xs" using list_emb_Cons.prems by auto
  with list_emb_Cons show ?case by simp
next
  case (list_emb_Cons2 x y xs ys)
  then have "filter (\<lambda>t. f t \<in> f ` set (x # xs)) ys = filter (\<lambda>t. f t \<in> f ` set xs) ys"
    by (intro filter_cong refl) (auto simp: image_iff)
  with list_emb_Cons2 show ?case by simp
qed simp

text \<open>A row of \<^verbatim>\<open>transactionQuery\<close> for each transaction.\<close>

definition tx_row :: "database \<Rightarrow> Transactions \<Rightarrow> Transaction" where
  "tx_row d t =
     (let e = find (\<lambda>e. tx_ID t = ep_ID e) (transactions_epoch d); v = find (\<lambda>v. tx_ID t = tv_ID v) (transactions_validator d);
          b = find (\<lambda>b. tx_ID t = tb_ID b) (transactions_block d)
      in \<lparr>tn_ID = tx_ID t, tn_ChainID = tx_ChainID t, tn_Type = tx_Type t, tn_Memo = tx_Memo t,
          tn_CreatedAt = tx_CreatedAt t, tn_Txfee = tx_Txfee t, tn_Genesis = tx_Genesis t,
          tn_Epoch = or_zero (\<lambda>e. ucast (ep_Epoch e)) e, tn_VertexID = or_blank ep_VertexID e,
          tn_ValidatorNodeID = or_blank tv_NodeID v, tn_ValidatorStart = or_zero tv_Start v,
          tn_ValidatorEnd = or_zero tv_End v, tn_TxBlockID = or_blank tb_TxBlockID b\<rparr>)"

lemma transactionQuery_rows:
  assumes "db_ok d"
  shows "transactionQuery d = map (tx_row d) (avm_transactions d)"
proof -
  have j1: "left_join (\<lambda>t e. tx_ID t = ep_ID e) xs (transactions_epoch d) =
      map (\<lambda>x. (x, find (\<lambda>e. tx_ID x = ep_ID e) (transactions_epoch d))) xs" for xs
    by (rule left_join_unique) (rule distinct_key_matches [OF join_keys(4) [OF assms]])
  have j2: "left_join (\<lambda>(t, e) v. tx_ID t = tv_ID v) xs (transactions_validator d) =
      map (\<lambda>x. (x, find ((\<lambda>(t, e) v. tx_ID t = tv_ID v) x) (transactions_validator d))) xs"
    for xs :: "(Transactions \<times> TransactionsEpoch option) list"
    by (rule left_join_unique) (simp only: case_prod_unfold distinct_key_matches join_keys(5) [OF assms])
  have j3: "left_join (\<lambda>((t, e), v) b. tx_ID t = tb_ID b) xs (transactions_block d) =
      map (\<lambda>x. (x, find ((\<lambda>((t, e), v) b. tx_ID t = tb_ID b) x) (transactions_block d))) xs"
    for xs :: "((Transactions \<times> TransactionsEpoch option) \<times> TransactionsValidator option) list"
    by (rule left_join_unique) (simp only: case_prod_unfold distinct_key_matches join_keys(6) [OF assms])
  show ?thesis
    unfolding transactionQuery_def j1 j2 j3 by (simp add: tx_row_def Let_def o_def)
qed

lemma tx_row_simps [simp]:
  "tn_ID (tx_row d t) = tx_ID t" "tn_ChainID (tx_row d t) = tx_ChainID t" "tn_CreatedAt (tx_row d t) = tx_CreatedAt t"
  by (simp_all add: tx_row_def Let_def)

text \<open>The page that the database gives for a request with no restriction but chains.\<close>

definition plain_request :: "ListTransactionsParams \<Rightarrow> bool" where
  "plain_request p \<longleftrightarrow> lp_ID (lt_ListParams p) = None \<and> lp_Query (lt_ListParams p) = [] \<and> lp_Offset (lt_ListParams p) = 0 \<and>
     \<not> lp_StartTimeProvided (lt_ListParams p) \<and> \<not> lp_EndTimeProvided (lt_ListParams p) \<and> lt_Addresses p = [] \<and>
     lt_AssetID p = None \<and> \<not> lt_DisableGenesis p \<and> lt_Sort p = TransactionSortTimestampAsc"

definition in_order :: "database \<Rightarrow> Transaction list" where
  "in_order d = sort_key (\<lambda>t. (tn_CreatedAt t, tn_ChainID t)) (transactionQuery d)"

definition on_chains :: "string list \<Rightarrow> Transaction \<Rightarrow> bool" where
  "on_chains cs t \<longleftrightarrow> (cs \<noteq> [] \<longrightarrow> tn_ChainID t \<in> set cs)"

lemma join_ids:
  assumes "distinct ids"
  shows "concat (map (\<lambda>t. map (\<lambda>_. t) (filter (\<lambda>i. i = f t) ids)) zs) = filter (\<lambda>t. f t \<in> set ids) zs"
proof -
  have "map (\<lambda>_. t) (filter (\<lambda>i. i = f t) ids) = (if f t \<in> set ids then [t] else [])" for t
    using assms by (induction ids) (auto simp: filter_empty_conv)
  then show ?thesis by (induction zs) auto
qed

lemma set_in_order: "db_ok d \<Longrightarrow> set (in_order d) = tx_row d ` set (avm_transactions d)"
  by (simp add: in_order_def transactionQuery_rows)

lemma select_page:
  assumes "db_ok d" and "plain_request p" and "0 < lp_Limit (lt_ListParams p)" and "lp_Limit (lt_ListParams p) \<le> 5000"
  shows "bind_err (builderBase L p d) (\<lambda>ids. Inr (applySort p tn_cols
      (concat (map (\<lambda>t. map (\<lambda>_. t) (filter (\<lambda>i. i = tn_ID t) ids)) (transactionQuery d))))) =
    Inr (take (nat (lp_Limit (lt_ListParams p))) (filter (on_chains (lt_ChainIDs p)) (in_order d)))"
proof -
  let ?n = "nat (lp_Limit (lt_ListParams p))" and ?xs = "avm_transactions d"
  let ?k = "\<lambda>t. (tx_CreatedAt t, tx_ChainID t)" and ?W = "\<lambda>t. lt_ChainIDs p \<noteq> [] \<longrightarrow> tx_ChainID t \<in> set (lt_ChainIDs p)"
  let ?ys = "take ?n (filter ?W (sort_key ?k ?xs))"
  have asc: "TransactionSortTimestampAsc \<noteq> TransactionSortTimestampDesc"
    by (simp add: TransactionSortTimestampAsc_def TransactionSortTimestampDesc_def)
  have "unat (of_int (lp_Limit (lt_ListParams p)) :: u64) = ?n"
    using assms(3,4) by (simp add: unsigned_of_int take_bit_int_eq_self)
  then have base: "builderBase L p d = Inr (map tx_ID ?ys)"
    using assms(2,3) asc
    by (auto simp: builderBase_def plain_request_def applySort_def listTxsQuery_def tx_wanted_def tx_cols_def page_def Let_def filter_sort)
  have dist: "distinct (map tx_ID (sort_key ?k ?xs))"
    using join_keys(3) [OF assms(1)] by (simp add: distinct_map)
  have sub: "subseq ?ys (sort_key ?k ?xs)"
    by (meson subseq_filter_left subseq_order.trans prefix_imp_subseq take_is_prefix)
  have "distinct (map tx_ID ?ys)" using dist by (simp add: distinct_map_filter take_map [symmetric])
  then have "concat (map (\<lambda>t. map (\<lambda>_. t) (filter (\<lambda>i. i = tn_ID t) (map tx_ID ?ys))) (transactionQuery d)) =
      map (tx_row d) (filter (\<lambda>t. tx_ID t \<in> tx_ID ` set ?ys) ?xs)"
    unfolding join_ids [OF \<open>distinct (map tx_ID ?ys)\<close>] transactionQuery_rows [OF assms(1)] by (simp add: filter_map o_def)
  moreover have "applySort p tn_cols (map (tx_row d) zs) = map (tx_row d) (sort_key ?k zs)" for zs
    using assms(2) asc by (simp add: applySort_def plain_request_def sort_key_map tn_cols_def Let_def)
  moreover have "sort_key ?k (filter (\<lambda>t. tx_ID t \<in> tx_ID ` set ?ys) ?xs) = ?ys"
    using filter_subseq [OF sub dist] by (simp only: filter_sort)
  moreover have "map (tx_row d) ?ys = take ?n (filter (on_chains (lt_ChainIDs p)) (in_order d))"
    by (simp add: in_order_def transactionQuery_rows [OF assms(1)] sort_key_map filter_map o_def on_chains_def take_map)
  ultimately show ?thesis by (simp add: base bind_err_def)
qed

text \<open>What the cache holds after a run, and what it finds.\<close>

lemma fold_set_step:
  "snd (fold set_step l m) i =
     (if filter (\<lambda>tx. tn_ChainID tx = i) l = [] then snd m i
      else Some ((case snd m i of None \<Rightarrow> [] | Some xs \<Rightarrow> xs) @ filter (\<lambda>tx. tn_ChainID tx = i) l))"
proof (induction l arbitrary: m)
  case (Cons tx l)
  then show ?case using Cons.IH [of "set_step tx m"] by (auto simp: set_step_def)
qed simp

lemma FindTxs_Set:
  assumes "FindTxs cs n (TxList_Set (Some l)) = Some txs" and "0 < n"
  shows "nat n \<le> length (filter (\<lambda>tx. cs \<noteq> [] \<longrightarrow> tn_ChainID tx \<in> set cs) l) \<and>
    txs = take (nat n) (filter (\<lambda>tx. cs \<noteq> [] \<longrightarrow> tn_ChainID tx \<in> set cs) l)"
proof -
  consider "cs = []" | i where "cs = [i]" using assms(1) by (auto simp: FindTxs_def split: list.splits)
  then show ?thesis
  proof cases
    case 1
    with assms show ?thesis by (auto simp: FindTxs_def TxList_Set_def Let_def split: if_splits)
  next
    case (2 i)
    with assms show ?thesis
      using fold_set_step [of l "(Map.empty, Map.empty)" i]
      by (auto simp: FindTxs_def TxList_Set_def Let_def split: if_splits option.splits)
  qed
qed

lemma take_filter_take:
  assumes "n \<le> length (filter P (take m xs))"
  shows "take n (filter P (take m xs)) = take n (filter P xs)"
proof -
  have "filter P xs = filter P (take m xs) @ filter P (drop m xs)"
    by (metis append_take_drop_id filter_append)
  with assms show ?thesis by simp
qed

lemma dress_one_cols [simp]:
  "tn_ID (dress_one L ord dg txID asset d tx) = tn_ID tx" "tn_ChainID (dress_one L ord dg txID asset d tx) = tn_ChainID tx"
  by (auto simp: dress_one_def dressTransactionsTx_def Let_def split: option.split)

lemma undressed_cols [simp]: "tn_ID (undressed t) = tn_ID t" "tn_ChainID (undressed t) = tn_ChainID t"
  by (simp_all add: undressed_def Transaction.defs)

lemma runTx_calm:
  fixes L ord asset and rc :: "'a ReaderTxCache_scheme"
  assumes "calm w" and "db_ok (store w)" and "spent_known (store w)" and "[] \<notin> tx_ID ` set (avm_transactions (store w))"
  defines "l \<equiv> map (\<lambda>t. dress_one L ord False None asset (store w) (undressed t)) (take 5000 (in_order (store w)))"
  shows "fst (runTx L ord asset rc w) = rc\<lparr>rc_txAsc := TxList_Set (if l = [] then None else Some l)\<rparr>"
proof -
  let ?txs = "map undressed (take 5000 (in_order (store w)))" and ?w = "w\<lparr>stmts := Suc (stmts w)\<rparr>"
  have "[] \<notin> tn_ID ` set ?txs"
    using assms(4) by (auto simp: set_in_order [OF assms(2)] dest!: in_set_takeD)
  with assms(1-3) obtain w' where "dressTransactions L ord asset None False ?txs ?w =
      (Inr (map (dress_one L ord False None asset (store ?w)) ?txs), w')"
    using dressTransactions_calm [of ?w ?txs L ord asset None False] by auto
  then show ?thesis
    using assms(1) by (simp add: runTx_def load_txs_def bind_def calm_query in_order_def [symmetric] l_def o_def)
qed

text \<open>A query string with the keys that the cache allows asks for nothing but a page of some chains.\<close>

lemma cached_request:
  assumes "ListTransactionsParams_ForValues T now v (map_of vals) = Inr p0"
    and "\<not> list_ex (\<lambda>(key, _). key \<notin> {''sort'', ''limit'', ''offset'', ''disableCount'', ''chainID''}) vals"
    and "lp_Offset (lt_ListParams p0) = 0" and "lt_Sort p0 = TransactionSortTimestampAsc"
  shows "plain_request (p0\<lparr>lt_ChainIDs := cs\<rparr>)" "0 \<le> lp_Limit (lt_ListParams p0)" "lp_Limit (lt_ListParams p0) \<le> 5000"
proof -
  have none: "strs_of (map_of vals) k = []" if "k \<notin> {''sort'', ''limit'', ''offset'', ''disableCount'', ''chainID''}" for k
    using that assms(2) by (auto simp: strs_of_def list_ex_iff split: option.split dest!: map_of_SomeD)
  have keys: "strs_of (map_of vals) ''assetID'' = []" "strs_of (map_of vals) ''outputOutputType'' = []" "strs_of (map_of vals) ''outputGroupId'' = []"
    "strs_of (map_of vals) ''address'' = []" "strs_of (map_of vals) ''disableGenesis'' = []" "strs_of (map_of vals) ''id'' = []"
    "strs_of (map_of vals) ''startTime'' = []" "strs_of (map_of vals) ''endTime'' = []" "strs_of (map_of vals) ''query'' = []"
    by (simp_all add: none)
  obtain lp where lp: "forValues T now v (map_of vals) True = Inr lp" "lt_ListParams p0 = lp"
    "lt_Addresses p0 = []" "lt_AssetID p0 = None" "\<not> lt_DisableGenesis p0"
    using assms(1) by (auto simp: ListTransactionsParams_ForValues_def ForValuesAllowOffset_def bind_err_Inr GetQueryID_def GetQueryString_def
        GetQueryBool_def keys)
  let ?q = "map_of vals"
  have gets: "GetQueryID T ?q ''id'' = Inr None" "GetQueryString ?q ''query'' [] = []" "GetQueryTime T ?q ''startTime'' = Inr (False, zero_time)"
    "GetQueryTime T ?q ''endTime'' = Inr (False, zero_time)"
    by (simp_all add: GetQueryID_def GetQueryString_def GetQueryTime_def keys)
  obtain limit where l: "GetQueryInt ?q ''limit'' PaginationMaxLimit = Inr limit"
    using lp(1) by (cases "GetQueryInt ?q ''limit'' PaginationMaxLimit") (auto simp: forValues_def bind_err_def)
  obtain offset where o: "GetQueryInt ?q ''offset'' PaginationDefaultOffset = Inr offset"
    using lp(1) l by (cases "GetQueryInt ?q ''offset'' PaginationDefaultOffset") (auto simp: forValues_def bind_err_def)
  obtain dis where "GetQueryBool ?q ''disableCount'' False = Inr dis"
    using lp(1) l o gets by (cases "GetQueryBool ?q ''disableCount'' False") (auto simp: forValues_def bind_err_def)
  with lp(1) l o gets have "lp_ID lp = None" "lp_Query lp = []" "\<not> lp_StartTimeProvided lp" "\<not> lp_EndTimeProvided lp"
    by (auto simp: forValues_def bind_err_def Let_def)
  with lp assms(3,4) show "plain_request (p0\<lparr>lt_ChainIDs := cs\<rparr>)" by (simp add: plain_request_def)
  show "0 \<le> lp_Limit (lt_ListParams p0)" "lp_Limit (lt_ListParams p0) \<le> 5000"
    using forValues_fields [OF lp(1)] lp(2) by (auto simp: PaginationMaxLimit_def)
qed

text \<open>C29: The cached transactions answer like the database.  After a run of the processor on a database, a request
  that the cache answers gets exactly the response, transactions with all their parts, count and next link, that it gets
  from that database without the cache.\<close>

theorem cached_page_agrees:
  assumes "calm w0" and "db_ok (store w0)" and "spent_known (store w0)" and "[] \<notin> tx_ID ` set (avm_transactions (store w0))"
    and "ListTransactionsParams_ForValues T now v (map_of vals) = Inr p0" and "p = p0\<lparr>lt_ChainIDs := ForValueChainID L chainID (lt_ChainIDs p0)\<rparr>"
    and "lt_Sort p0 = TransactionSortTimestampAsc" and "rc = fst (runTx L ord asset rc0 w0)"
    and "listTxsFromCache rc vals p = Some txs" and "calm w" and "store w = store w0"
  shows "fst (ListTransactions L ord rc asset vals p w) =
      fst (ListTransactions L ord (rc\<lparr>rc_IsAggregateCache := False\<rparr>) asset vals p w)"
proof -
  let ?d = "store w0" and ?n = "nat (lp_Limit (lt_ListParams p))"
  let ?dress = "\<lambda>t. dress_one L ord False None asset ?d (undressed t)"
  let ?P = "on_chains (lt_ChainIDs p)"
  let ?page = "take ?n (filter ?P (in_order ?d))"
  let ?l = "map ?dress (take 5000 (in_order ?d))"
  have hit: "\<not> list_ex (\<lambda>(key, _). key \<notin> {''sort'', ''limit'', ''offset'', ''disableCount'', ''chainID''}) vals"
    "lp_Limit (lt_ListParams p) \<noteq> 0" "lp_Offset (lt_ListParams p) = 0" "FindTxs (lt_ChainIDs p) (lp_Limit (lt_ListParams p)) (rc_txAsc rc) = Some txs"
    using assms(6,7,9) by (auto simp: listTxsFromCache_def TransactionSortTimestampAsc_def TransactionSortTimestampDesc_def Let_def split: if_splits)
  have p: "plain_request p" "0 < lp_Limit (lt_ListParams p)" "lp_Limit (lt_ListParams p) \<le> 5000"
    using cached_request(1) [OF assms(5) hit(1) _ assms(7), where cs = "ForValueChainID L chainID (lt_ChainIDs p0)"]
      cached_request(2,3) [OF assms(5) hit(1) _ assms(7)] hit(2,3) assms(6) by auto
  have rc: "rc = rc0\<lparr>rc_txAsc := TxList_Set (if ?l = [] then None else Some ?l)\<rparr>"
    using runTx_calm [OF assms(1-4), where rc = rc0] assms(8) by simp
  then have "?l \<noteq> []" using hit(4) by (auto simp: FindTxs_def TxList_Set_def split: list.splits)
  with rc hit(4) have "FindTxs (lt_ChainIDs p) (lp_Limit (lt_ListParams p)) (TxList_Set (Some ?l)) = Some txs" by simp
  from FindTxs_Set [OF this p(2)]
  have "?n \<le> length (filter ?P (take 5000 (in_order ?d)))" "txs = map ?dress (take ?n (filter ?P (take 5000 (in_order ?d))))"
    by (simp_all add: filter_map o_def take_map on_chains_def [abs_def])
  then have txs: "txs = map ?dress ?page" by (simp add: take_filter_take)
  have cached: "listTxs L rc vals p w = (Inr (txs, True), w)"
    using assms(9) p(1) by (simp add: listTxs_def plain_request_def ret_def Let_def)
  let ?w = "w\<lparr>stmts := Suc (stmts w)\<rparr>"
  have off: "listTxs L (rc\<lparr>rc_IsAggregateCache := False\<rparr>) vals p w = (Inr (map undressed ?page, False), ?w)"
    using p(1) assms(10,11) select_page [OF assms(2) p]
    by (simp add: listTxs_def plain_request_def listTxsFromCache_def bind_def calm_query ret_def Let_def)
  have "[] \<notin> tn_ID ` set (map undressed ?page)"
    using assms(4) by (auto simp: set_in_order [OF assms(2)] dest!: in_set_takeD)
  with assms(2,3,10,11) obtain w' where "dressTransactions L ord asset None False (map undressed ?page) ?w = (Inr txs, w')"
    using dressTransactions_calm [of ?w "map undressed ?page" L ord asset None False] by (auto simp: txs o_def)
  with p(1) cached off show ?thesis
    by (simp add: ListTransactions_def bind_def ret_def plain_request_def Let_def)
qed

theorem cached_page_agrees_witness:
  "\<exists>p rc txs. listTxsFromCache rc [(''limit'', [''1''])] p = Some txs \<and> map tn_ID txs = [''t1''] \<and>
     fst (ListTransactions plain_lib go_order rc ''DJTX'' [(''limit'', [''1''])] p (calm_sample\<lparr>store := joint_db\<rparr>)) =
     fst (ListTransactions plain_lib go_order (rc\<lparr>rc_IsAggregateCache := False\<rparr>) ''DJTX'' [(''limit'', [''1''])] p (calm_sample\<lparr>store := joint_db\<rparr>))"
proof -
  let ?vals = "[(''limit'', [''1''])]" and ?w = "calm_sample\<lparr>store := joint_db\<rparr>"
  let ?start = "\<lparr>rc_IsAggregateCache = True, rc_txDesc = new_TxList, rc_txAsc = new_TxList\<rparr>"
  let ?rc = "fst (runTx plain_lib go_order ''DJTX'' ?start ?w)"
  have w: "calm ?w" "db_ok (store ?w)" "spent_known (store ?w)" "[] \<notin> tx_ID ` set (avm_transactions (store ?w))"
    by (simp_all add: calm_sample_def calm_def joint_db_ok) (simp add: joint_db_defs)
  obtain p0 where p0: "ListTransactionsParams_ForValues no_parselib 0 2 (map_of ?vals) = Inr p0" "lt_ChainIDs p0 = []"
    "lp_Limit (lt_ListParams p0) = 1" "lp_Offset (lt_ListParams p0) = 0" "lt_Sort p0 = TransactionSortTimestampAsc"
    by (simp add: ListTransactionsParams_ForValues_def ForValuesAllowOffset_def forValues_def bind_err_def query_defs PaginationMaxLimit_def
        PaginationDefaultOffset_def sort_of_def TransactionSortDefault_def Let_def)
  let ?p = "p0\<lparr>lt_ChainIDs := ForValueChainID plain_lib None (lt_ChainIDs p0)\<rparr>"
  have ids: "map tn_ID (in_order joint_db) = [''t1'', ''t2'']"
    by (simp add: in_order_def transactionQuery_def left_join_def joint_db_defs)
  let ?l = "map (\<lambda>t. dress_one plain_lib go_order False None ''DJTX'' joint_db (undressed t)) (take 5000 (in_order joint_db))"
  have l: "map tn_ID ?l = [''t1'', ''t2'']" using ids by (simp add: o_def take_map [symmetric])
  have at: "store ?w = joint_db" by simp
  have rc: "?rc = ?start\<lparr>rc_txAsc := TxList_Set (if ?l = [] then None else Some ?l)\<rparr>"
    using runTx_calm [OF w, where L = plain_lib and ord = go_order and asset = "''DJTX''" and rc = ?start]
    unfolding at .
  have "?l \<noteq> []" "length ?l = 2" using arg_cong [OF l, of length] by auto
  then have hit: "listTxsFromCache ?rc ?vals ?p = Some (take 1 ?l)"
    using p0 by (simp add: rc listTxsFromCache_def IsProcessed_def FindTxs_def TxList_Set_def ForValueChainID_def
        TransactionSortTimestampAsc_def TransactionSortTimestampDesc_def Let_def)
  moreover have "map tn_ID (take 1 ?l) = [''t1'']" using arg_cong [OF l, of "take 1"] by (simp add: take_map)
  ultimately show ?thesis
    using cached_page_agrees [OF w p0(1) refl p0(5) refl hit w(1) refl]
    by (intro exI [of _ ?p] exI [of _ ?rc] exI [of _ "take 1 ?l"] conjI)
qed

end
