(* ===== verification/Aggregate_Processor.thy ===== *)
theory Aggregate_Processor
  imports Djtx_Transactions Aggregates_Cache
begin

text \<open>
  The processors that keep aggregated numbers ready:
  \<^verbatim>\<open>src/services/indexes/djtx/reader_aggregate_processor.go\<close> without its list of transactions, and the handlers
  of \<^verbatim>\<open>src/api/v2.go\<close> that show the numbers.

  A processor runs once when it is started and then on the ticks of a clock; it remembers the time of its
  next run.  The cache of aggregates that a run reads is an argument, and so are the order in which a Go map
  is iterated and the order in which \<^verbatim>\<open>sort.Slice\<close> leaves equal elements.  The step relation
  \<open>agg_step\<close> interleaves the ticks of all processors with changes of the database and of the cache.
\<close>

section \<open>What is kept\<close>

record ChainCounts =
  chc_ChainID :: string
  chc_Total :: string

type_synonym AggregatesHistogram = "u64 \<times> gotime \<times> gotime"  \<comment> \<open>the number of transactions, start and end\<close>

record AssetAggregate =
  aa_Aggregate :: AggregatesHistogram
  aa_Asset :: bytes

record ReaderAggregate = ReaderTxCache +
  ra_assetm :: "(bytes \<times> Asset) list"
  ra_assetl :: "Asset list"
  ra_aggr :: "bytes \<rightharpoonup> AggregatesHistogram"
  ra_aggrl :: "AssetAggregate list"
  ra_addressCountl :: "ChainCounts list"
  ra_txCountl :: "ChainCounts list"
  ra_a1m :: "AggregatesHistogram option"
  ra_a1h :: "AggregatesHistogram option"
  ra_a24h :: "AggregatesHistogram option"
  ra_a7d :: "AggregatesHistogram option"
  ra_a30d :: "AggregatesHistogram option"

definition new_ReaderAggregate :: "bool \<Rightarrow> ReaderAggregate" where
  "new_ReaderAggregate isAggregateCache =
     \<lparr>rc_IsAggregateCache = isAggregateCache, rc_txDesc = new_TxList, rc_txAsc = new_TxList,
      ra_assetm = [], ra_assetl = [], ra_aggr = Map.empty, ra_aggrl = [], ra_addressCountl = [], ra_txCountl = [],
      ra_a1m = None, ra_a1h = None, ra_a24h = None, ra_a7d = None, ra_a30d = None\<rparr>"

definition CacheAddressCounts :: "ReaderAggregate \<Rightarrow> ChainCounts list" where
  "CacheAddressCounts ra = ra_addressCountl ra"

definition CacheTxCounts :: "ReaderAggregate \<Rightarrow> ChainCounts list" where
  "CacheTxCounts ra = ra_txCountl ra"

definition CacheAssets :: "ReaderAggregate \<Rightarrow> Asset list" where
  "CacheAssets ra = ra_assetl ra"

definition CacheAssetAggregates :: "ReaderAggregate \<Rightarrow> AssetAggregate list" where
  "CacheAssetAggregates ra = ra_aggrl ra"

definition CacheAggregates :: "string \<Rightarrow> ReaderAggregate \<Rightarrow> AggregatesHistogram option" where
  "CacheAggregates tag ra =
     (if tag = ''1m'' then ra_a1m ra
      else if tag = ''1h'' then ra_a1h ra
      else if tag = ''24h'' then ra_a24h ra
      else if tag = ''7d'' then ra_a7d ra
      else if tag = ''30d'' then ra_a30d ra
      else None)"

section \<open>Times\<close>

definition minute :: int where
  "minute = 60 * second"

definition hour :: int where
  "hour = 60 * minute"

text \<open>\<^verbatim>\<open>t.Truncate(d)\<close>: down to a multiple of \<open>d\<close> since the zero time.\<close>

definition Truncate :: "gotime \<Rightarrow> int \<Rightarrow> gotime" where
  "Truncate t d = zero_time + ((t - zero_time) div d) * d"

section \<open>Numbers of addresses and transactions\<close>

definition count_by_chain :: "string list \<Rightarrow> ChainCounts list" where
  "count_by_chain vals = map (\<lambda>c. \<lparr>chc_ChainID = c, chc_Total = dec_nat (length (filter (\<lambda>x. x = c) vals))\<rparr>) (remdups vals)"

definition prune_counts :: "(string \<rightharpoonup> 'c) \<Rightarrow> ChainCounts list \<Rightarrow> ChainCounts list" where
  "prune_counts confChains l = filter (\<lambda>c. chc_ChainID c \<in> dom confChains) l"

text \<open>An error of the select is logged and changes nothing.\<close>

definition addressCounts ::
  "(string \<rightharpoonup> 'c) \<Rightarrow> ReaderAggregate \<Rightarrow> database world \<Rightarrow> ReaderAggregate \<times> database world" where
  "addressCounts confChains ra w =
     (case query (\<lambda>d. Inr (count_by_chain (map adc_ChainID (address_chain d)))) w of
        (Inl _, w1) \<Rightarrow> (ra, w1)
      | (Inr l, w1) \<Rightarrow> (ra\<lparr>ra_addressCountl := prune_counts confChains l\<rparr>, w1))"

definition txCounts ::
  "(string \<rightharpoonup> 'c) \<Rightarrow> ReaderAggregate \<Rightarrow> database world \<Rightarrow> ReaderAggregate \<times> database world" where
  "txCounts confChains ra w =
     (case query (\<lambda>d. Inr (count_by_chain (map tx_ChainID (avm_transactions d)))) w of
        (Inl _, w1) \<Rightarrow> (ra, w1)
      | (Inr l, w1) \<Rightarrow> (ra\<lparr>ra_txCountl := prune_counts confChains l\<rparr>, w1))"

section \<open>Assets\<close>

text \<open>The assets of recent outputs, with most transactions first, and the newest assets.\<close>

definition recent_assets :: "gotime \<Rightarrow> string \<Rightarrow> database \<Rightarrow> string list" where
  "recent_assets since djtx d =
     (let rows = filter (\<lambda>o1. out_CreatedAt o1 > since \<and> out_AssetID o1 \<noteq> djtx) (avm_outputs d);
          tamt = (\<lambda>a. length (remdups (map out_TransactionID (filter (\<lambda>o1. out_AssetID o1 = a) rows))))
      in rev (sort_key tamt (rev (remdups (map out_AssetID rows)))))"

definition newest_assets :: "database \<Rightarrow> string list" where
  "newest_assets d = map ast_ID (take (nat PaginationMaxLimit) (rev (sort_key ast_CreatedAt (rev (avm_assets d)))))"

definition fetchAssets ::
  "nodelib \<Rightarrow> bytes \<Rightarrow> gotime \<Rightarrow> int \<Rightarrow> (database, string list \<times> string list) go" where
  "fetchAssets L djtxAssetID runTm runDuration =
     bind (query (\<lambda>d. Inr (recent_assets (runTm - runDuration) (ID_String L djtxAssetID) d))) (\<lambda>assetsFound.
     bind (query (\<lambda>d. Inr (newest_assets d))) (\<lambda>addlAssetsFound.
     ret (ID_String L djtxAssetID # assetsFound, addlAssetsFound)))"

definition asset_params :: "bytes \<Rightarrow> ListAssetsParams" where
  "asset_params i = \<lparr>la_ListParams = id_params i, la_Alias = [], la_PathParamID = []\<rparr>"

text \<open>The last asset of the list stays in the map.\<close>

definition put_assets :: "bytes \<Rightarrow> Asset list \<Rightarrow> (bytes \<times> Asset) list \<Rightarrow> (bytes \<times> Asset) list" where
  "put_assets i lassets m = fold (AList.update i) lassets m"

record asset_run =
  ar_aggrMap :: "bytes \<rightharpoonup> AggregatesHistogram"
  ar_assetMap :: "(bytes \<times> Asset) list"
  ar_aggrList :: "AssetAggregate list"

definition aggregate_asset ::
  "parselib \<Rightarrow> nodelib \<Rightarrow> aggregatesCache \<Rightarrow> bytes \<Rightarrow> gotime \<Rightarrow> gotime \<Rightarrow> int \<Rightarrow> string \<Rightarrow> asset_run \<Rightarrow> (database, asset_run) go" where
  "aggregate_asset T L ac xChainID now runTm runDuration asset s =
     bind (lift_err (AggregateParams_ForValues T now 1 Map.empty)) (\<lambda>p0.
     let lp = (ag_ListParams p0)\<lparr>lp_EndTime := runTm, lp_StartTime := runTm - runDuration\<rparr>;
         p = p0\<lparr>ag_ListParams := lp, ag_ChainIDs := ag_ChainIDs p0 @ [ID_String L xChainID]\<rparr> in
     bind (lift_err (pl_FromString T asset)) (\<lambda>i.
     bind (lift_err (Aggregate ac (p\<lparr>ag_AssetID := Some i\<rparr>))) (\<lambda>aggr.
     bind (ListAssets L (asset_params i)) (\<lambda>(_, lassets).
     ret \<lparr>ar_aggrMap = (ar_aggrMap s)(i \<mapsto> aggr), ar_assetMap = put_assets i lassets (ar_assetMap s),
          ar_aggrList = ar_aggrList s @ [\<lparr>aa_Aggregate = aggr, aa_Asset = i\<rparr>]\<rparr>))))"

definition add_asset ::
  "parselib \<Rightarrow> nodelib \<Rightarrow> string \<Rightarrow> (bytes \<times> Asset) list \<Rightarrow> (database, (bytes \<times> Asset) list) go" where
  "add_asset T L asset assetMap =
     bind (lift_err (pl_FromString T asset)) (\<lambda>i.
     if map_of assetMap i \<noteq> None then ret assetMap
     else bind (ListAssets L (asset_params i)) (\<lambda>(_, lassets). ret (put_assets i lassets assetMap)))"

text \<open>\<open>order\<close> is the order in which the map of assets is iterated; \<open>perm\<close> is the order in which
  \<^verbatim>\<open>sort.Slice\<close> leaves aggregates with the same number of transactions.\<close>

definition collect_assets ::
  "parselib \<Rightarrow> nodelib \<Rightarrow> aggregatesCache \<Rightarrow> bytes \<Rightarrow> bytes \<Rightarrow> gotime \<Rightarrow> gotime \<Rightarrow> int \<Rightarrow> (database, asset_run) go" where
  "collect_assets T L ac djtxAssetID xChainID now runTm runDuration =
     bind (fetchAssets L djtxAssetID runTm runDuration) (\<lambda>(assets, addlAssetsFound).
     bind (loop (aggregate_asset T L ac xChainID now runTm runDuration) assets
             \<lparr>ar_aggrMap = Map.empty, ar_assetMap = [], ar_aggrList = []\<rparr>) (\<lambda>s.
     bind (loop (add_asset T L) addlAssetsFound (ar_assetMap s)) (\<lambda>m. ret (s\<lparr>ar_assetMap := m\<rparr>))))"

definition sort_aggregates :: "(AssetAggregate list \<Rightarrow> AssetAggregate list) \<Rightarrow> AssetAggregate list \<Rightarrow> AssetAggregate list" where
  "sort_aggregates perm l = rev (sort_key (\<lambda>a. fst (aa_Aggregate a)) (rev (perm l)))"

text \<open>One run of \<^verbatim>\<open>aggregateProcessorAssetAggr\<close>, with the time of the next one.\<close>

definition run_assets ::
  "parselib \<Rightarrow> nodelib \<Rightarrow> (Asset list \<Rightarrow> Asset list) \<Rightarrow> (AssetAggregate list \<Rightarrow> AssetAggregate list) \<Rightarrow> (string \<rightharpoonup> 'c) \<Rightarrow>
   aggregatesCache \<Rightarrow> bytes \<Rightarrow> bytes \<Rightarrow> gotime \<Rightarrow> gotime \<Rightarrow> ReaderAggregate \<Rightarrow> database world \<Rightarrow>
   (ReaderAggregate \<times> gotime) \<times> database world" where
  "run_assets T L order perm confChains ac djtxAssetID xChainID now timeaggr ra w =
     (case addressCounts confChains ra w of (ra1, w1) \<Rightarrow>
      case txCounts confChains ra1 w1 of (ra2, w2) \<Rightarrow>
      case collect_assets T L ac djtxAssetID xChainID now timeaggr (24 * hour) w2 of
        (Inl _, w3) \<Rightarrow> ((ra2, timeaggr), w3)
      | (Inr s, w3) \<Rightarrow>
          ((ra2\<lparr>ra_assetm := ar_assetMap s, ra_assetl := order (map snd (ar_assetMap s)),
                ra_aggr := ar_aggrMap s, ra_aggrl := sort_aggregates perm (ar_aggrList s)\<rparr>,
            Truncate (timeaggr + 5 * minute) (5 * minute)), w3))"

definition run_txs ::
  "nodelib \<Rightarrow> map_orders \<Rightarrow> bytes \<Rightarrow> gotime \<Rightarrow> ReaderAggregate \<Rightarrow> database world \<Rightarrow> (ReaderAggregate \<times> gotime) \<times> database world" where
  "run_txs L ord djtxAssetID timeaggr ra w =
     (case runTx L ord djtxAssetID ra w of (ra1, w1) \<Rightarrow>
        ((ra1, case fst (load_txs L ord djtxAssetID w) of
                 Inl _ \<Rightarrow> timeaggr
               | Inr _ \<Rightarrow> Truncate (timeaggr + 10 * minute) (10 * minute)), w1))"

section \<open>Aggregates of a period\<close>

text \<open>The query string of \<^verbatim>\<open>processAggregate\<close> has the interval only.\<close>

definition processAggregate ::
  "parselib \<Rightarrow> nodelib \<Rightarrow> aggregatesCache \<Rightarrow> bytes \<Rightarrow> gotime \<Rightarrow> gotime \<Rightarrow> string \<Rightarrow> int \<Rightarrow> goerr + AggregatesHistogram" where
  "processAggregate T L ac xChainID now runTm intervalSize deltaTime =
     bind_err (AggregateParams_ForValues T now 1 [''intervalSize'' \<mapsto> [intervalSize]]) (\<lambda>p.
     let lp = (ag_ListParams p)\<lparr>lp_EndTime := runTm, lp_StartTime := runTm + deltaTime\<rparr>
     in Aggregate ac (p\<lparr>ag_ListParams := lp, ag_ChainIDs := ag_ChainIDs p @ [ID_String L xChainID]\<rparr>))"

section \<open>The processors together\<close>

datatype tag = Tag1m | Tag1h | Tag24h | Tag7d | Tag30d

fun set_tag :: "tag \<Rightarrow> AggregatesHistogram \<Rightarrow> ReaderAggregate \<Rightarrow> ReaderAggregate" where
  "set_tag Tag1m agg ra = ra\<lparr>ra_a1m := Some agg\<rparr>"
| "set_tag Tag1h agg ra = ra\<lparr>ra_a1h := Some agg\<rparr>"
| "set_tag Tag24h agg ra = ra\<lparr>ra_a24h := Some agg\<rparr>"
| "set_tag Tag7d agg ra = ra\<lparr>ra_a7d := Some agg\<rparr>"
| "set_tag Tag30d agg ra = ra\<lparr>ra_a30d := Some agg\<rparr>"

record processor_env =
  pe_parse :: parselib
  pe_lib :: nodelib
  pe_orders :: map_orders
  pe_assetOrder :: "Asset list \<Rightarrow> Asset list"
  pe_sliceOrder :: "AssetAggregate list \<Rightarrow> AssetAggregate list"
  pe_Chains :: "string \<rightharpoonup> string"
  pe_DjtxAssetID :: bytes
  pe_XChainID :: bytes

text \<open>The state: what is kept, the cache of aggregates, the database, and for each processor the time of its
  next run, nothing before its first one, and the time of its last tick.\<close>

record aggregator =
  ag_reader :: ReaderAggregate
  ag_cache :: aggregatesCache
  ag_world :: "database world"
  ag_next :: "tag \<Rightarrow> gotime option"
  ag_last :: "tag \<Rightarrow> gotime"
  ag_nextAssets :: "gotime option"
  ag_nextTxs :: "gotime option"

text \<open>One run of a processor at the time that it had set, with the time of the next run.\<close>

definition run_tag ::
  "processor_env \<Rightarrow> tag \<Rightarrow> string \<Rightarrow> int \<Rightarrow> int \<Rightarrow> gotime \<Rightarrow> gotime \<Rightarrow> aggregator \<Rightarrow> aggregator" where
  "run_tag E k intervalSize deltaTime every now runTm s =
     (case processAggregate (pe_parse E) (pe_lib E) (ag_cache s) (pe_XChainID E) now runTm intervalSize deltaTime of
        Inl _ \<Rightarrow> s\<lparr>ag_next := (ag_next s)(k \<mapsto> runTm)\<rparr>
      | Inr agg \<Rightarrow> s\<lparr>ag_reader := set_tag k agg (ag_reader s),
                    ag_next := (ag_next s)(k \<mapsto> Truncate (runTm + every) every)\<rparr>)"

text \<open>A goroutine runs once before its loop and then on a tick after the time of the next run.\<close>

definition first_run :: "gotime \<Rightarrow> int \<Rightarrow> gotime" where
  "first_run now every = Truncate (Truncate now minute) every"

definition on_tick :: "(gotime \<Rightarrow> 's \<Rightarrow> 's) \<Rightarrow> int \<Rightarrow> gotime \<Rightarrow> gotime option \<Rightarrow> 's \<Rightarrow> 's" where
  "on_tick run every tnow timeaggr s =
     (case timeaggr of
        None \<Rightarrow> run (first_run tnow every) s
      | Some t \<Rightarrow> if tnow > t then run t s else s)"

definition interval_processor :: "processor_env \<Rightarrow> tag \<Rightarrow> string \<Rightarrow> int \<Rightarrow> int \<Rightarrow> gotime \<Rightarrow> aggregator \<Rightarrow> aggregator" where
  "interval_processor E k intervalSize deltaTime every tnow s =
     (on_tick (run_tag E k intervalSize deltaTime every tnow) every tnow (ag_next s k) s)
       \<lparr>ag_last := (ag_last s)(k := tnow)\<rparr>"

definition aggregateProcessor1m :: "processor_env \<Rightarrow> gotime \<Rightarrow> aggregator \<Rightarrow> aggregator" where
  "aggregateProcessor1m E = interval_processor E Tag1m ''1s'' (- minute) minute"

definition aggregateProcessor1h :: "processor_env \<Rightarrow> gotime \<Rightarrow> aggregator \<Rightarrow> aggregator" where
  "aggregateProcessor1h E = interval_processor E Tag1h ''5m'' (- hour) (5 * minute)"

definition aggregateProcessor24h :: "processor_env \<Rightarrow> gotime \<Rightarrow> aggregator \<Rightarrow> aggregator" where
  "aggregateProcessor24h E = interval_processor E Tag24h ''hour'' (- (24 * hour)) (15 * minute)"

definition aggregateProcessor7d :: "processor_env \<Rightarrow> gotime \<Rightarrow> aggregator \<Rightarrow> aggregator" where
  "aggregateProcessor7d E = interval_processor E Tag7d ''day'' (- (7 * 24 * hour)) (30 * minute)"

definition aggregateProcessor30d :: "processor_env \<Rightarrow> gotime \<Rightarrow> aggregator \<Rightarrow> aggregator" where
  "aggregateProcessor30d E = interval_processor E Tag30d ''day'' (- (30 * 24 * hour)) (30 * minute)"

definition aggregateProcessorAssetAggr :: "processor_env \<Rightarrow> gotime \<Rightarrow> aggregator \<Rightarrow> aggregator" where
  "aggregateProcessorAssetAggr E tnow s =
     on_tick (\<lambda>runTm s.
       case run_assets (pe_parse E) (pe_lib E) (pe_assetOrder E) (pe_sliceOrder E) (pe_Chains E) (ag_cache s)
              (pe_DjtxAssetID E) (pe_XChainID E) tnow runTm (ag_reader s) (ag_world s) of
         ((ra, t), w) \<Rightarrow> s\<lparr>ag_reader := ra, ag_nextAssets := Some t, ag_world := w\<rparr>) (5 * minute) tnow (ag_nextAssets s) s"

definition processorTxAscFetch :: "processor_env \<Rightarrow> gotime \<Rightarrow> aggregator \<Rightarrow> aggregator" where
  "processorTxAscFetch E tnow s =
     on_tick (\<lambda>timeaggr s.
       case run_txs (pe_lib E) (pe_orders E) (pe_DjtxAssetID E) timeaggr (ag_reader s) (ag_world s) of
         ((ra, t), w) \<Rightarrow> s\<lparr>ag_reader := ra, ag_nextTxs := Some t, ag_world := w\<rparr>) (10 * minute) tnow (ag_nextTxs s) s"

text \<open>The constants of the five processors once more, for the statements below.\<close>

fun tag_name :: "tag \<Rightarrow> string" where
  "tag_name Tag1m = ''1m''"
| "tag_name Tag1h = ''1h''"
| "tag_name Tag24h = ''24h''"
| "tag_name Tag7d = ''7d''"
| "tag_name Tag30d = ''30d''"

fun covers :: "tag \<Rightarrow> int" where
  "covers Tag1m = minute"
| "covers Tag1h = hour"
| "covers Tag24h = 24 * hour"
| "covers Tag7d = 7 * 24 * hour"
| "covers Tag30d = 30 * 24 * hour"

fun every :: "tag \<Rightarrow> int" where
  "every Tag1m = minute"
| "every Tag1h = 5 * minute"
| "every Tag24h = 15 * minute"
| "every Tag7d = 30 * minute"
| "every Tag30d = 30 * minute"

fun processor_of :: "tag \<Rightarrow> processor_env \<Rightarrow> gotime \<Rightarrow> aggregator \<Rightarrow> aggregator" where
  "processor_of Tag1m = aggregateProcessor1m"
| "processor_of Tag1h = aggregateProcessor1h"
| "processor_of Tag24h = aggregateProcessor24h"
| "processor_of Tag7d = aggregateProcessor7d"
| "processor_of Tag30d = aggregateProcessor30d"

text \<open>The clock ticks every second; it is enough that no more than the time between two runs passes between
  two ticks that a processor handles.  The database and the cache of aggregates change at any time.\<close>

definition on_time :: "aggregator \<Rightarrow> tag \<Rightarrow> gotime \<Rightarrow> bool" where
  "on_time s k tnow \<longleftrightarrow> (ag_next s k \<noteq> None \<longrightarrow> ag_last s k \<le> tnow \<and> tnow \<le> ag_last s k + every k)"

inductive agg_step :: "processor_env \<Rightarrow> aggregator \<Rightarrow> aggregator \<Rightarrow> bool" for E where
  agg_interval: "on_time s k tnow \<Longrightarrow> agg_step E s (processor_of k E tnow s)"
| agg_assets: "agg_step E s (aggregateProcessorAssetAggr E tnow s)"
| agg_txs: "agg_step E s (processorTxAscFetch E tnow s)"
| agg_scheduler: "agg_step E s (s\<lparr>ag_cache := ac\<rparr>)"
| agg_database: "agg_step E s (s\<lparr>ag_world := w\<rparr>)"

text \<open>\<^verbatim>\<open>aggregateProcessor\<close> opens a connection for each of the seven goroutines and starts them, when the program is
  configured to keep the numbers; \<open>DatabaseRO n\<close> is the result of opening the n-th.  Nothing runs when one fails.\<close>

definition aggregateProcessor :: "bool \<Rightarrow> (nat \<Rightarrow> goerr + 'c) \<Rightarrow> goerr + 'c list" where
  "aggregateProcessor isAggregateCache DatabaseRO = (if isAggregateCache then read_all DatabaseRO [0..<7] else Inr [])"

definition started :: "aggregatesCache \<Rightarrow> database world \<Rightarrow> aggregator" where
  "started ac w = \<lparr>ag_reader = new_ReaderAggregate True, ag_cache = ac, ag_world = w, ag_next = (\<lambda>_. None), ag_last = (\<lambda>_. 0),
     ag_nextAssets = None, ag_nextTxs = None\<rparr>"

section \<open>Freshness\<close>

lemma minute_pos: "0 < minute"
  by (simp add: minute_def second_def)

lemma every_pos: "0 < every k"
  using minute_pos by (cases k) auto

lemma every_minutes: "\<exists>n > 0. every k = minute * n"
  by (cases k) (auto intro: exI [of _ 1] exI [of _ 5] exI [of _ 15] exI [of _ 30])

lemma Truncate_le: "0 < d \<Longrightarrow> Truncate t d \<le> t"
  using pos_mod_sign [of d "t - zero_time"] div_mult_mod_eq [of "t - zero_time" d] unfolding Truncate_def by linarith

lemma Truncate_gt: "0 < d \<Longrightarrow> t < Truncate t d + d"
  using pos_mod_bound [of d "t - zero_time"] div_mult_mod_eq [of "t - zero_time" d] unfolding Truncate_def by linarith

lemma Truncate_dvd: "d dvd Truncate t d - zero_time"
  by (simp add: Truncate_def)

lemma Truncate_next: "0 < d \<Longrightarrow> d dvd t - zero_time \<Longrightarrow> Truncate (t + d) d = t + d"
  by (auto simp: Truncate_def elim!: dvdE) (simp add: algebra_simps div_add_self1)

lemma Truncate_twice: "0 < m \<Longrightarrow> 0 < n \<Longrightarrow> Truncate (Truncate t m) (m * n) = Truncate t (m * n)"
  by (simp add: Truncate_def zdiv_zmult2_eq)

lemma first_run_every: "first_run now (every k) = Truncate now (every k)"
  using every_minutes [of k] minute_pos by (auto simp: first_run_def Truncate_twice)

lemma processor_of_interval:
  "\<exists>i. processor_of k E = interval_processor E k i (- covers k) (every k) \<and> i \<in> {''1s'', ''5m'', ''hour'', ''day''}"
  by (cases k) (auto simp: aggregateProcessor1m_def aggregateProcessor1h_def aggregateProcessor24h_def aggregateProcessor7d_def
      aggregateProcessor30d_def)

definition durations :: "parselib \<Rightarrow> bool" where
  "durations T \<longleftrightarrow> pl_ParseDuration T ''1s'' = Inr second \<and> pl_ParseDuration T ''5m'' = Inr (5 * minute)"

text \<open>The number of transactions that a run finds in the cache.\<close>

definition cached_number :: "aggregatesCache \<Rightarrow> string \<Rightarrow> string \<Rightarrow> u64" where
  "cached_number ac i period = (if aggregateTransactionsMap ac = Map.empty then 0 else cached (aggregateTransactionsMap ac) i period)"

lemma interval_params:
  assumes "\<And>k. k \<noteq> ''intervalSize'' \<Longrightarrow> q k = None" and "GetQueryInterval T q ''intervalSize'' = Inr d"
  shows "\<exists>lp. AggregateParams_ForValues T now 1 q = Inr \<lparr>ag_ListParams = lp, ag_ChainIDs = [], ag_AssetID = None, ag_IntervalSize = d\<rparr>"
proof -
  have "strs_of q k = []" if "k \<noteq> ''intervalSize''" for k using assms(1) [OF that] by (simp add: strs_of_def)
  then have keys: "strs_of q ''limit'' = []" "strs_of q ''offset'' = []" "strs_of q ''id'' = []" "strs_of q ''startTime'' = []"
    "strs_of q ''endTime'' = []" "strs_of q ''query'' = []" "strs_of q ''disableCount'' = []" "strs_of q ''assetID'' = []" "strs_of q ''chainID'' = []"
    by simp_all
  show ?thesis
    unfolding AggregateParams_ForValues_def ForValues_def forValues_def GetQueryInt_def GetQueryBool_def GetQueryTime_def
      GetQueryID_def GetQueryString_def keys assms(2)
    by (simp add: bind_err_def PaginationDefaultOffset_def PaginationMaxLimit_def)
qed

lemma GetQueryInterval_processors:
  assumes "durations T" and "i \<in> {''1s'', ''5m'', ''hour'', ''day''}"
  shows "\<exists>d. GetQueryInterval T [''intervalSize'' \<mapsto> [i]] ''intervalSize'' = Inr d"
  using assms by (elim insertE emptyE) (simp_all add: GetQueryInterval_def IntervalNames_def strs_of_def durations_def)

lemma processAggregate_result:
  assumes "durations T" and "i \<in> {''1s'', ''5m'', ''hour'', ''day''}"
  shows "processAggregate T L ac x now runTm i (- n) =
    Inr (cached_number ac (ID_String L x) (GetDatepartBasedOnDateParams (runTm - n) runTm), runTm - n, runTm)"
proof -
  obtain d where "GetQueryInterval T [''intervalSize'' \<mapsto> [i]] ''intervalSize'' = Inr d"
    using GetQueryInterval_processors [OF assms] by blast
  then obtain lp where "AggregateParams_ForValues T now 1 [''intervalSize'' \<mapsto> [i]] =
      Inr \<lparr>ag_ListParams = lp, ag_ChainIDs = [], ag_AssetID = None, ag_IntervalSize = d\<rparr>"
    using interval_params [of "[''intervalSize'' \<mapsto> [i]]" T d now] by fastforce
  then show ?thesis
    by (simp add: processAggregate_def bind_err_def Aggregate_def read_cache_def cached_number_def)
qed

lemma CacheAggregates_set_tag:
  "CacheAggregates (tag_name j) (set_tag k agg ra) = (if j = k then Some agg else CacheAggregates (tag_name j) ra)"
  by (cases j; cases k) (simp_all add: CacheAggregates_def)

text \<open>What holds of a processor at every moment.\<close>

definition fresh :: "tag \<Rightarrow> aggregator \<Rightarrow> bool" where
  "fresh k s \<longleftrightarrow>
     (case ag_next s k of
        None \<Rightarrow> CacheAggregates (tag_name k) (ag_reader s) = None
      | Some t \<Rightarrow> every k dvd t - zero_time \<and> ag_last s k \<le> t \<and> t \<le> ag_last s k + every k \<and>
          (\<exists>n. CacheAggregates (tag_name k) (ag_reader s) = Some (n, t - every k - covers k, t - every k)))"

lemma fresh_started: "fresh k (started ac w)"
  by (cases k) (simp_all add: fresh_def started_def new_ReaderAggregate_def CacheAggregates_def)

lemma fresh_run:
  assumes "durations (pe_parse E)" and "i \<in> {''1s'', ''5m'', ''hour'', ''day''}" and "every k dvd t - zero_time" and "t \<le> tnow"
    and "tnow \<le> t + every k"
  shows "fresh k ((run_tag E k i (- covers k) (every k) tnow t s)\<lparr>ag_last := (ag_last s)(k := tnow)\<rparr>)"
proof -
  have "every k dvd (t - zero_time) + every k" using assms(3) by (rule dvd_add [OF _ dvd_refl])
  then have "every k dvd t + every k - zero_time" by (simp add: algebra_simps)
  with assms(4,5) Truncate_next [OF every_pos assms(3)] show ?thesis
    by (simp add: run_tag_def processAggregate_result [OF assms(1,2)] fresh_def CacheAggregates_set_tag)
qed

lemma run_tag_other:
  "j \<noteq> k \<Longrightarrow> fresh j ((run_tag E k i n m tnow t s)\<lparr>ag_last := (ag_last s)(k := tnow)\<rparr>) = fresh j s"
  by (cases "ag_next s j") (simp_all add: run_tag_def fresh_def CacheAggregates_set_tag split: sum.split)

lemma fresh_interval:
  assumes "durations (pe_parse E)" and "on_time s k tnow" and "\<And>j. fresh j s"
  shows "fresh j (processor_of k E tnow s)"
proof -
  obtain i where p: "processor_of k E = interval_processor E k i (- covers k) (every k)" and i: "i \<in> {''1s'', ''5m'', ''hour'', ''day''}"
    using processor_of_interval by blast
  note defs = p interval_processor_def on_tick_def
  show ?thesis
  proof (cases "ag_next s k")
    case None
    have "fresh k ((run_tag E k i (- covers k) (every k) tnow (Truncate tnow (every k)) s)\<lparr>ag_last := (ag_last s)(k := tnow)\<rparr>)"
      using Truncate_le [OF every_pos, of tnow k] Truncate_gt [OF every_pos, of tnow k]
      by (intro fresh_run [OF assms(1) i] Truncate_dvd) auto
    with None assms(3) [of j] show ?thesis
      by (cases "j = k") (simp_all add: defs first_run_every run_tag_other)
  next
    case (Some t)
    have t: "every k dvd t - zero_time" "ag_last s k \<le> t" "t \<le> ag_last s k + every k" "tnow \<le> t + every k" "ag_last s k \<le> tnow"
      using assms(2) assms(3) [of k] Some by (auto simp: fresh_def on_time_def)
    show ?thesis
    proof (cases "tnow > t")
      case True
      with t have "fresh k ((run_tag E k i (- covers k) (every k) tnow t s)\<lparr>ag_last := (ag_last s)(k := tnow)\<rparr>)"
        by (intro fresh_run [OF assms(1) i]) auto
      with True Some assms(3) [of j] show ?thesis by (cases "j = k") (simp_all add: defs run_tag_other)
    next
      case False
      with Some t assms(3) [of j] show ?thesis by (cases "ag_next s j") (auto simp: defs fresh_def)
    qed
  qed
qed

text \<open>The other steps keep the histograms.\<close>

lemma CacheAggregates_update [simp]:
  "CacheAggregates tg (ra\<lparr>ra_addressCountl := a\<rparr>) = CacheAggregates tg ra"
  "CacheAggregates tg (ra\<lparr>ra_txCountl := b\<rparr>) = CacheAggregates tg ra"
  "CacheAggregates tg (ra\<lparr>ra_assetm := c, ra_assetl := d, ra_aggr := e, ra_aggrl := f\<rparr>) = CacheAggregates tg ra"
  "CacheAggregates tg (ra\<lparr>rc_txAsc := g\<rparr>) = CacheAggregates tg ra"
  by (simp_all add: CacheAggregates_def)

lemma CacheAggregates_counts:
  "CacheAggregates tg (fst (addressCounts cs ra w)) = CacheAggregates tg ra"
  "CacheAggregates tg (fst (txCounts cs ra w)) = CacheAggregates tg ra"
  by (simp_all add: addressCounts_def txCounts_def split: prod.split sum.split)

lemma CacheAggregates_run_assets:
  "CacheAggregates tg (fst (fst (run_assets T L order perm cs ac djtx x now t ra w))) = CacheAggregates tg ra"
  using CacheAggregates_counts(1) [of tg cs ra w] CacheAggregates_counts(2) [of tg cs]
  by (auto simp: run_assets_def split: prod.split sum.split) (metis fst_conv)+

lemma CacheAggregates_run_txs:
  "CacheAggregates tg (fst (fst (run_txs L ord djtx t ra w))) = CacheAggregates tg ra"
  by (simp add: run_txs_def runTx_def split: prod.split sum.split)

lemma fresh_cong:
  assumes "CacheAggregates (tag_name j) (ag_reader s') = CacheAggregates (tag_name j) (ag_reader s)"
    and "ag_next s' = ag_next s" and "ag_last s' = ag_last s"
  shows "fresh j s' = fresh j s"
  using assms by (cases "ag_next s j") (simp_all add: fresh_def)

lemma on_tick_cases: "on_tick run n tnow t s = s \<or> (\<exists>u. on_tick run n tnow t s = run u s)"
  by (cases t) (auto simp: on_tick_def)

lemma fresh_assets: "fresh j (aggregateProcessorAssetAggr E tnow s) = fresh j s"
proof (rule fresh_cong)
  show "CacheAggregates (tag_name j) (ag_reader (aggregateProcessorAssetAggr E tnow s)) = CacheAggregates (tag_name j) (ag_reader s)"
    unfolding aggregateProcessorAssetAggr_def
    by (rule disjE [OF on_tick_cases]; (elim exE)?; erule ssubst) (simp_all add: CacheAggregates_run_assets split_beta)
qed (simp_all add: aggregateProcessorAssetAggr_def on_tick_def split_beta split: option.split)

lemma fresh_txs: "fresh j (processorTxAscFetch E tnow s) = fresh j s"
proof (rule fresh_cong)
  show "CacheAggregates (tag_name j) (ag_reader (processorTxAscFetch E tnow s)) = CacheAggregates (tag_name j) (ag_reader s)"
    unfolding processorTxAscFetch_def
    by (rule disjE [OF on_tick_cases]; (elim exE)?; erule ssubst) (simp_all add: CacheAggregates_run_txs split_beta)
qed (simp_all add: processorTxAscFetch_def on_tick_def split_beta split: option.split)

lemma fresh_step:
  assumes "agg_step E s s'" and "durations (pe_parse E)" and "\<And>j. fresh j s"
  shows "fresh j s'"
  using assms(1)
proof cases
  case (agg_interval k tnow)
  with fresh_interval [OF assms(2) _ assms(3)] show ?thesis by simp
next
  case (agg_scheduler ac)
  then have "fresh j s' = fresh j s" by (intro fresh_cong) simp_all
  with assms(3) show ?thesis by simp
next
  case (agg_database w)
  then have "fresh j s' = fresh j s" by (intro fresh_cong) simp_all
  with assms(3) show ?thesis by simp
qed (use assms(3) [of j] in \<open>simp_all add: fresh_assets fresh_txs\<close>)

lemma fresh_reachable:
  assumes "(agg_step E)\<^sup>*\<^sup>* (started ac w) s" and "durations (pe_parse E)"
  shows "fresh k s"
  using assms(1)
proof (induction arbitrary: k rule: rtranclp_induct)
  case base
  then show ?case by (rule fresh_started)
next
  case (step s1 s2)
  then show ?case using fresh_step [OF step.hyps(2) assms(2)] by blast
qed

section \<open>Properties\<close>

text \<open>C33: How old a served histogram is.  Whatever the processors, the scheduler and the database do, once the
  processor of a period has handled its first tick, \<^verbatim>\<open>CacheAggregates\<close> shows a histogram of exactly that period.
  It ends on a multiple of the time between two runs, not after the last tick of the processor, and at most that time before it.\<close>

theorem histograms_fresh:
  assumes "(agg_step E)\<^sup>*\<^sup>* (started ac w) s" and "durations (pe_parse E)" and "ag_next s k \<noteq> None"
  shows "\<exists>n e. CacheAggregates (tag_name k) (ag_reader s) = Some (n, e - covers k, e) \<and> every k dvd e - zero_time \<and>
     ag_last s k - every k \<le> e \<and> e \<le> ag_last s k"
proof -
  obtain t where "ag_next s k = Some t" using assms(3) by blast
  with fresh_reachable [OF assms(1,2), of k] obtain n where
    t: "every k dvd t - zero_time" "ag_last s k \<le> t" "t \<le> ag_last s k + every k"
    "CacheAggregates (tag_name k) (ag_reader s) = Some (n, t - every k - covers k, t - every k)"
    by (auto simp: fresh_def)
  have "every k dvd (t - zero_time) - every k" using t(1) by (rule dvd_diff [OF _ dvd_refl])
  then have "every k dvd (t - every k) - zero_time" by (simp add: algebra_simps)
  with t show ?thesis by (intro exI [of _ n] exI [of _ "t - every k"]) auto
qed

definition small_parselib :: parselib where
  "small_parselib = \<lparr>pl_FromString = Inr, pl_ShortFromString = Inr, pl_ParseBech32 = Inr, pl_ToShortID = Inr,
     pl_ParseRFC3339 = (\<lambda>s. Inl (syntax_error s)),
     pl_ParseDuration = (\<lambda>s. if s = ''1s'' then Inr second else if s = ''5m'' then Inr (5 * minute) else Inl (syntax_error s))\<rparr>"

lemma small_parselib_durations: "durations small_parselib"
  by (simp add: durations_def small_parselib_def)

definition small_env :: processor_env where
  "small_env = \<lparr>pe_parse = small_parselib, pe_lib = plain_lib, pe_orders = go_order, pe_assetOrder = (\<lambda>l. l), pe_sliceOrder = rev,
     pe_Chains = [''X'' \<mapsto> ''avm''], pe_DjtxAssetID = ''DJTX'', pe_XChainID = ''X''\<rparr>"

theorem histograms_fresh_witness:
  "\<exists>n e. CacheAggregates ''1m'' (ag_reader (aggregateProcessor1m small_env (61 * second)
       (aggregateProcessor1m small_env (second + 7) (started NewAggregatesCache calm_sample)))) = Some (n, e - minute, e) \<and>
     second \<le> e \<and> e \<le> 61 * second"
proof -
  let ?s0 = "started NewAggregatesCache calm_sample" and ?s1 = "\<lambda>s. aggregateProcessor1m small_env (second + 7) s"
    and ?s2 = "\<lambda>s. aggregateProcessor1m small_env (61 * second) s"
  have "agg_step small_env ?s0 (processor_of Tag1m small_env (second + 7) ?s0)"
    by (rule agg_interval) (simp add: on_time_def started_def)
  moreover have "agg_step small_env (?s1 ?s0) (processor_of Tag1m small_env (61 * second) (?s1 ?s0))"
    by (rule agg_interval)
      (simp add: on_time_def aggregateProcessor1m_def interval_processor_def second_def minute_def)
  ultimately have steps: "(agg_step small_env)\<^sup>*\<^sup>* ?s0 (?s2 (?s1 ?s0))" by simp
  have "ag_next (?s2 (?s1 ?s0)) Tag1m \<noteq> None"
    by (simp add: aggregateProcessor1m_def interval_processor_def on_tick_def run_tag_def split: option.split sum.split)
  moreover have "ag_last (?s2 (?s1 ?s0)) Tag1m = 61 * second" by (simp add: aggregateProcessor1m_def interval_processor_def)
  ultimately show ?thesis
    using histograms_fresh [OF steps, of Tag1m] small_parselib_durations
    by (fastforce simp: small_env_def minute_def)
qed

subsection \<open>Which number is shown\<close>

lemma datepart_covers:
  "GetDatepartBasedOnDateParams (t - covers k) t =
     (case k of Tag7d \<Rightarrow> ''week'' | Tag30d \<Rightarrow> ''month'' | _ \<Rightarrow> ''day'')"
  by (cases k) (simp_all add: GetDatepartBasedOnDateParams_def Sub_def whole_days_def hour_def minute_def second_def)

lemma processor_run:
  assumes "durations (pe_parse E)" and "ag_next s k = Some t" and "t < tnow"
  shows "CacheAggregates (tag_name k) (ag_reader (processor_of k E tnow s)) =
    Some (cached_number (ag_cache s) (ID_String (pe_lib E) (pe_XChainID E))
      (case k of Tag7d \<Rightarrow> ''week'' | Tag30d \<Rightarrow> ''month'' | _ \<Rightarrow> ''day''), t - covers k, t)"
proof -
  obtain i where p: "processor_of k E = interval_processor E k i (- covers k) (every k)" and i: "i \<in> {''1s'', ''5m'', ''hour'', ''day''}"
    using processor_of_interval by blast
  show ?thesis
    using assms(2,3)
    by (simp add: p interval_processor_def on_tick_def run_tag_def processAggregate_result [OF assms(1) i] CacheAggregates_set_tag
        datepart_covers)
qed

text \<open>C34: The number in a histogram.  After a round of the scheduler, a run of the processor of a minute, of an hour or
  of a day shows the number of transactions of the whole last day, under the start and end of its own period; the
  processors of seven and thirty days show the week and the month.\<close>

theorem short_periods_show_a_day:
  assumes "calm w" and "thousand (store w)" and "\<forall>i \<in> set ids. i \<in> dom vmTypes" and "ID_String (pe_lib E) (pe_XChainID E) \<in> set ids"
    and "yesterday \<noteq> zero_time" "prevWeek \<noteq> zero_time" "prevMonth \<noteq> zero_time"
    and "scheduler_round fee vmTypes ids toDate yesterday prevWeek prevMonth (InitCacheStorage vmTypes NewAggregatesCache) w = (Inr (ag_cache s), w')"
    and "durations (pe_parse E)" and "ag_next s k = Some t" and "t < tnow"
  shows "CacheAggregates (tag_name k) (ag_reader (processor_of k E tnow s)) =
    Some (tx_number (store w) vmTypes (ID_String (pe_lib E) (pe_XChainID E))
      (case k of Tag7d \<Rightarrow> prevWeek | Tag30d \<Rightarrow> prevMonth | _ \<Rightarrow> yesterday) toDate, t - covers k, t)"
proof -
  let ?x = "ID_String (pe_lib E) (pe_XChainID E)"
  have "aggregateTransactionsMap (ag_cache s) \<noteq> Map.empty"
    and "chain_done fee (store w) vmTypes [(''day'', yesterday), (''week'', prevWeek), (''month'', prevMonth)] toDate ?x (ag_cache s)"
    using scheduler_cached [OF assms(1-3,5-7), of fee toDate] assms(4,8) by auto
  with processor_run [OF assms(9-11)] show ?thesis
    by (cases k) (simp_all add: cached_number_def chain_done_def)
qed

theorem short_periods_show_a_day_witness:
  "\<exists>s. CacheAggregates ''1m'' (ag_reader (aggregateProcessor1m small_env 200 s)) = Some (1, 100 - minute, 100) \<and>
     tx_number busy_db [''X'' \<mapsto> ''avm''] ''X'' 55 100 = 1"
proof -
  let ?w = "calm_sample\<lparr>store := busy_db\<rparr>" and ?vm = "[''X'' \<mapsto> ''avm'']"
  have calm: "calm ?w" "thousand (store ?w)"
    by (simp_all add: calm_def calm_sample_def sample_world_def busy_db_def thousand_def settled_db_defs)
  have dates: "(55::gotime) \<noteq> zero_time" "(10::gotime) \<noteq> zero_time" "(5::gotime) \<noteq> zero_time" by (simp_all add: zero_time_def)
  have ids: "\<forall>i \<in> set [''X'']. i \<in> dom ?vm" by simp
  obtain ac w' where run: "scheduler_round (\<lambda>p u. p * u) ?vm [''X''] 100 55 10 5 (InitCacheStorage ?vm NewAggregatesCache) ?w = (Inr ac, w')"
    using scheduler_cached [OF calm ids dates, of "\<lambda>p u. p * u" 100] by blast
  let ?s = "(started ac ?w)\<lparr>ag_next := (\<lambda>_. Some 100)\<rparr>"
  have x: "ID_String (pe_lib small_env) (pe_XChainID small_env) = ''X''" by (simp add: small_env_def plain_lib_def)
  have "tx_number busy_db ?vm ''X'' 55 100 = 1" by code_simp
  moreover have "CacheAggregates (tag_name Tag1m) (ag_reader (processor_of Tag1m small_env 200 ?s)) =
      Some (tx_number (store ?w) ?vm (ID_String (pe_lib small_env) (pe_XChainID small_env)) 55 100, 100 - covers Tag1m, 100)"
    using short_periods_show_a_day [OF calm ids _ dates, of small_env "\<lambda>p u. p * u" 100 ?s w' Tag1m 100 200] run small_parselib_durations
    by (simp add: x started_def small_env_def plain_lib_def)
  ultimately show ?thesis by (intro exI [of _ ?s]) (simp add: x)
qed

subsection \<open>Numbers of chains\<close>

lemma counts_exact:
  "set (prune_counts cs (count_by_chain vals)) =
     {\<lparr>chc_ChainID = c, chc_Total = dec_nat (length (filter (\<lambda>x. x = c) vals))\<rparr> | c. c \<in> set vals \<and> c \<in> dom cs}"
  "distinct (map chc_ChainID (prune_counts cs (count_by_chain vals)))"
  by (auto simp: prune_counts_def count_by_chain_def filter_map o_def)

lemma counts_calm:
  assumes "calm w"
  shows "addressCounts cs ra w = (ra\<lparr>ra_addressCountl := prune_counts cs (count_by_chain (map adc_ChainID (address_chain (store w))))\<rparr>,
      w\<lparr>stmts := Suc (stmts w)\<rparr>)"
    and "txCounts cs ra w = (ra\<lparr>ra_txCountl := prune_counts cs (count_by_chain (map tx_ChainID (avm_transactions (store w))))\<rparr>,
      w\<lparr>stmts := Suc (stmts w)\<rparr>)"
  using assms by (simp_all add: addressCounts_def txCounts_def calm_query)

subsection \<open>Aggregates of assets\<close>

lemma ListAssets_calm:
  assumes "calm w"
  shows "\<exists>l k. ListAssets L (asset_params i) w = (Inr (None, l), w\<lparr>stmts := k\<rparr>)"
  using assms
  by (auto simp: ListAssets_def bind_def calm_query select_rows_def ListAssetsParams_Apply_def Apply_def ApplyPk_def Let_def asset_params_def
      id_params_def zero_params_def blank_select_def Limit_def Where_def asset_columns_def dressAssets_def ret_def
      intro: exI [of _ "stmts w"])

text \<open>The histogram that every asset gets.\<close>

definition day_histogram :: "nodelib \<Rightarrow> aggregatesCache \<Rightarrow> bytes \<Rightarrow> gotime \<Rightarrow> AggregatesHistogram" where
  "day_histogram L ac x t = (cached_number ac (ID_String L x) ''day'', t - 24 * hour, t)"

lemma aggregate_asset_calm:
  assumes "calm w" and "pl_FromString T a = Inr i"
  shows "\<exists>s' k. aggregate_asset T L ac x now t (24 * hour) a s w = (Inr s', w\<lparr>stmts := k\<rparr>) \<and>
    ar_aggrList s' = ar_aggrList s @ [\<lparr>aa_Aggregate = day_histogram L ac x t, aa_Asset = i\<rparr>]"
proof -
  obtain lp where lp: "AggregateParams_ForValues T now 1 Map.empty = Inr \<lparr>ag_ListParams = lp, ag_ChainIDs = [], ag_AssetID = None, ag_IntervalSize = 0\<rparr>"
    using interval_params [of Map.empty T 0 now] by (auto simp: GetQueryInterval_def strs_of_def)
  obtain l k where "ListAssets L (asset_params i) w = (Inr (None, l), w\<lparr>stmts := k\<rparr>)" using ListAssets_calm [OF assms(1)] by blast
  moreover have "GetDatepartBasedOnDateParams (t - 24 * hour) t = ''day''" using datepart_covers [of t Tag24h] by simp
  ultimately show ?thesis
    using assms(2) lp
    by (auto simp: aggregate_asset_def lift_err_def bind_def ret_def Aggregate_def read_cache_def cached_number_def day_histogram_def
        Let_def intro: exI [of _ k])
qed

lemma aggregate_assets_calm:
  assumes "calm w" and "\<forall>a \<in> set assets. pl_FromString T a = Inr (f a)"
  shows "\<exists>s' k. loop (aggregate_asset T L ac x now t (24 * hour)) assets s w = (Inr s', w\<lparr>stmts := k\<rparr>) \<and>
    ar_aggrList s' = ar_aggrList s @ map (\<lambda>a. \<lparr>aa_Aggregate = day_histogram L ac x t, aa_Asset = f a\<rparr>) assets"
  using assms
proof (induction assets arbitrary: s w)
  case Nil
  then show ?case by (auto simp: ret_def intro: exI [of _ "stmts w"])
next
  case (Cons a assets)
  obtain s1 k where 1: "aggregate_asset T L ac x now t (24 * hour) a s w = (Inr s1, w\<lparr>stmts := k\<rparr>)"
    "ar_aggrList s1 = ar_aggrList s @ [\<lparr>aa_Aggregate = day_histogram L ac x t, aa_Asset = f a\<rparr>]"
    using aggregate_asset_calm [of w T a "f a" L ac x now t s] Cons.prems by auto
  have "calm (w\<lparr>stmts := k\<rparr>)" using Cons.prems(1) by simp
  with Cons.IH [of "w\<lparr>stmts := k\<rparr>" s1] Cons.prems 1 show ?case by (fastforce simp: bind_def)
qed

lemma add_assets_calm:
  assumes "calm w" and "\<forall>a \<in> set assets. pl_FromString T a = Inr (f a)"
  shows "\<exists>m' k. loop (add_asset T L) assets m w = (Inr m', w\<lparr>stmts := k\<rparr>)"
  using assms
proof (induction assets arbitrary: m w)
  case Nil
  then show ?case by (auto simp: ret_def intro: exI [of _ "stmts w"])
next
  case (Cons a assets)
  have "\<exists>m1 k. add_asset T L a m w = (Inr m1, w\<lparr>stmts := k\<rparr>)"
    using ListAssets_calm [OF Cons.prems(1), of L "f a"] Cons.prems(2)
    by (auto simp: add_asset_def lift_err_def bind_def ret_def intro: exI [of _ "stmts w"])
  then obtain m1 k where 1: "add_asset T L a m w = (Inr m1, w\<lparr>stmts := k\<rparr>)" by blast
  have "calm (w\<lparr>stmts := k\<rparr>)" using Cons.prems(1) by simp
  with Cons.IH [of "w\<lparr>stmts := k\<rparr>" m1] Cons.prems 1 show ?case by (fastforce simp: bind_def)
qed

lemma set_recent_assets:
  "set (recent_assets since djtx d) = {out_AssetID o1 | o1. o1 \<in> set (avm_outputs d) \<and> out_CreatedAt o1 > since} - {djtx}"
  "distinct (recent_assets since djtx d)"
  by (auto simp: recent_assets_def Let_def)

lemma set_newest_assets: "set (newest_assets d) \<subseteq> ast_ID ` set (avm_assets d)"
  by (auto simp: newest_assets_def dest!: in_set_takeD)

text \<open>Every id that is stored can be read back.\<close>

definition ids_readable :: "parselib \<Rightarrow> nodelib \<Rightarrow> bytes \<Rightarrow> database \<Rightarrow> (string \<Rightarrow> bytes) \<Rightarrow> bool" where
  "ids_readable T L djtx d f \<longleftrightarrow>
     (\<forall>a \<in> insert (ID_String L djtx) (out_AssetID ` set (avm_outputs d) \<union> ast_ID ` set (avm_assets d)).
        pl_FromString T a = Inr (f a) \<and> ID_String L (f a) = a)"

lemma collect_assets_calm:
  assumes "calm w" and "ids_readable T L djtx (store w) f"
  shows "\<exists>s k. collect_assets T L ac djtx x now t (24 * hour) w = (Inr s, w\<lparr>stmts := k\<rparr>) \<and>
    ar_aggrList s = map (\<lambda>a. \<lparr>aa_Aggregate = day_histogram L ac x t, aa_Asset = f a\<rparr>)
      (ID_String L djtx # recent_assets (t - 24 * hour) (ID_String L djtx) (store w))"
proof -
  let ?assets = "ID_String L djtx # recent_assets (t - 24 * hour) (ID_String L djtx) (store w)" and ?w = "w\<lparr>stmts := Suc (Suc (stmts w))\<rparr>"
  have "calm ?w" using assms(1) by simp
  moreover have "\<forall>a \<in> set ?assets. pl_FromString T a = Inr (f a)"
    using assms(2) by (auto simp: ids_readable_def set_recent_assets)
  ultimately obtain s k where 1: "loop (aggregate_asset T L ac x now t (24 * hour)) ?assets \<lparr>ar_aggrMap = Map.empty, ar_assetMap = [], ar_aggrList = []\<rparr> ?w =
      (Inr s, w\<lparr>stmts := k\<rparr>)" "ar_aggrList s = map (\<lambda>a. \<lparr>aa_Aggregate = day_histogram L ac x t, aa_Asset = f a\<rparr>) ?assets"
    using aggregate_assets_calm [of ?w ?assets T f L ac x now t "\<lparr>ar_aggrMap = Map.empty, ar_assetMap = [], ar_aggrList = []\<rparr>"] by fastforce
  have "\<forall>a \<in> set (newest_assets (store w)). pl_FromString T a = Inr (f a)"
    using assms(2) set_newest_assets [of "store w"] by (auto simp: ids_readable_def)
  then obtain m k' where "loop (add_asset T L) (newest_assets (store w)) (ar_assetMap s) (w\<lparr>stmts := k\<rparr>) = (Inr m, w\<lparr>stmts := k'\<rparr>)"
    using add_assets_calm [of "w\<lparr>stmts := k\<rparr>" "newest_assets (store w)" T f L] assms(1) by fastforce
  with 1 assms(1) show ?thesis
    by (auto simp: collect_assets_def fetchAssets_def bind_def calm_query ret_def intro: exI [of _ k'])
qed

lemma run_assets_calm:
  assumes "calm w" and "ids_readable T L djtx (store w) f"
  shows "\<exists>ra' k. run_assets T L order perm cs ac djtx x now t ra w = ((ra', Truncate (t + 5 * minute) (5 * minute)), w\<lparr>stmts := k\<rparr>) \<and>
    CacheAddressCounts ra' = prune_counts cs (count_by_chain (map adc_ChainID (address_chain (store w)))) \<and>
    CacheTxCounts ra' = prune_counts cs (count_by_chain (map tx_ChainID (avm_transactions (store w)))) \<and>
    CacheAssetAggregates ra' = sort_aggregates perm (map (\<lambda>a. \<lparr>aa_Aggregate = day_histogram L ac x t, aa_Asset = f a\<rparr>)
      (ID_String L djtx # recent_assets (t - 24 * hour) (ID_String L djtx) (store w)))"
proof -
  let ?w1 = "w\<lparr>stmts := Suc (stmts w)\<rparr>" and ?w2 = "w\<lparr>stmts := Suc (Suc (stmts w))\<rparr>"
  have calm: "calm ?w1" "calm ?w2" using assms(1) by simp_all
  obtain s k where "collect_assets T L ac djtx x now t (24 * hour) ?w2 = (Inr s, w\<lparr>stmts := k\<rparr>)"
    "ar_aggrList s = map (\<lambda>a. \<lparr>aa_Aggregate = day_histogram L ac x t, aa_Asset = f a\<rparr>)
      (ID_String L djtx # recent_assets (t - 24 * hour) (ID_String L djtx) (store w))"
    using collect_assets_calm [OF calm(2), of T L djtx f ac x now t] assms(2) by auto
  with counts_calm(1) [OF assms(1), of cs ra] counts_calm(2) [OF calm(1), of cs]
  show ?thesis
    by (auto simp: run_assets_def CacheAddressCounts_def CacheTxCounts_def CacheAssetAggregates_def)
qed

lemma map_Asset_distinct:
  assumes "ids_readable T L djtx d f"
  shows "distinct (map f (ID_String L djtx # recent_assets since (ID_String L djtx) d))"
proof -
  let ?l = "ID_String L djtx # recent_assets since (ID_String L djtx) d"
  have "inj_on f (set ?l)"
    using assms by (intro inj_on_inverseI [where g = "ID_String L"]) (auto simp: ids_readable_def set_recent_assets)
  then show ?thesis
    unfolding distinct_map by (simp add: set_recent_assets)
qed

text \<open>C35: The aggregates of assets.  When the database answers and the stored ids can be read, a run finds the native asset and
  every asset with an output of the last day, each once; but all of them are shown with the same histogram, that of the whole X-chain.\<close>

theorem asset_aggregates_alike:
  assumes "calm w" and "ids_readable T L djtx (store w) f" and "\<And>l. mset (perm l) = mset l"
    and "run_assets T L order perm cs ac djtx x now t ra w = ((ra', t'), w')"
  shows "t' = Truncate (t + 5 * minute) (5 * minute) \<and> store w' = store w \<and>
    distinct (map aa_Asset (CacheAssetAggregates ra')) \<and>
    aa_Asset ` set (CacheAssetAggregates ra') =
      f ` insert (ID_String L djtx) {out_AssetID o1 | o1. o1 \<in> set (avm_outputs (store w)) \<and> out_CreatedAt o1 > t - 24 * hour} \<and>
    (\<forall>a \<in> set (CacheAssetAggregates ra'). aa_Aggregate a = (cached_number ac (ID_String L x) ''day'', t - 24 * hour, t))"
proof -
  let ?ids = "ID_String L djtx # recent_assets (t - 24 * hour) (ID_String L djtx) (store w)"
  let ?l = "map (\<lambda>a. \<lparr>aa_Aggregate = day_histogram L ac x t, aa_Asset = f a\<rparr>) ?ids"
  have run: "t' = Truncate (t + 5 * minute) (5 * minute)" "store w' = store w" "CacheAssetAggregates ra' = sort_aggregates perm ?l"
    using run_assets_calm [OF assms(1,2), of order perm cs ac x now t ra] assms(4) by auto
  then have m: "mset (CacheAssetAggregates ra') = mset ?l" by (simp add: sort_aggregates_def assms(3))
  have "mset (map aa_Asset (CacheAssetAggregates ra')) = mset (map aa_Asset ?l)" using m by (metis mset_map)
  then have "mset (map aa_Asset (CacheAssetAggregates ra')) = mset (map f ?ids)" by (simp add: o_def)
  then have "distinct (map aa_Asset (CacheAssetAggregates ra'))"
    using map_Asset_distinct [OF assms(2), of "t - 24 * hour"] mset_eq_imp_distinct_iff by blast
  moreover have l: "set (CacheAssetAggregates ra') = set ?l" using m by (rule mset_eq_setD)
  have ids: "set ?ids = insert (ID_String L djtx) {out_AssetID o1 | o1. o1 \<in> set (avm_outputs (store w)) \<and> out_CreatedAt o1 > t - 24 * hour}"
    by (auto simp: set_recent_assets)
  have "aa_Asset ` set (CacheAssetAggregates ra') = f ` set ?ids" unfolding l by (simp add: image_image)
  moreover have "\<forall>a \<in> set (CacheAssetAggregates ra'). aa_Aggregate a = (cached_number ac (ID_String L x) ''day'', t - 24 * hour, t)"
    unfolding l by (simp add: day_histogram_def)
  ultimately show ?thesis using run(1,2) unfolding ids by blast
qed

definition token_db :: database where
  "token_db = busy_db\<lparr>avm_outputs := [sample_output ''1'' 30, (sample_output ''2'' 12)\<lparr>out_AssetID := ''GOLD''\<rparr>],
     avm_transactions := [sample_tx ''t1'' 1, sample_tx ''t2'' 2]\<rparr>"

theorem asset_aggregates_alike_witness:
  "\<exists>ra t w. run_assets small_parselib plain_lib (\<lambda>l. l) rev [''X'' \<mapsto> ''avm''] NewAggregatesCache ''DJTX'' ''X'' 9 8
       (new_ReaderAggregate True) (calm_sample\<lparr>store := token_db\<rparr>) = ((ra, t), w) \<and>
     aa_Asset ` set (CacheAssetAggregates ra) = {''DJTX'', ''GOLD''} \<and>
     (\<forall>a \<in> set (CacheAssetAggregates ra). aa_Aggregate a = (0, 8 - 24 * hour, 8))"
proof -
  let ?w = "calm_sample\<lparr>store := token_db\<rparr>"
  have w: "calm ?w" "ids_readable small_parselib plain_lib ''DJTX'' (store ?w) (\<lambda>a. a)"
    by (simp_all add: calm_sample_def calm_def ids_readable_def small_parselib_def plain_lib_def)
  obtain ra t w' where run: "run_assets small_parselib plain_lib (\<lambda>l. l) rev [''X'' \<mapsto> ''avm''] NewAggregatesCache ''DJTX'' ''X'' 9 8
      (new_ReaderAggregate True) ?w = ((ra, t), w')"
    by (metis surj_pair)
  have "{out_AssetID o1 | o1. o1 \<in> set (avm_outputs token_db) \<and> out_CreatedAt o1 > 8 - 24 * hour} =
      out_AssetID ` set (filter (\<lambda>o1. out_CreatedAt o1 > 8 - 24 * hour) (avm_outputs token_db))" by auto
  also have "\<dots> = {''DJTX'', ''GOLD''}"
    by (simp add: token_db_def sample_output_def hour_def minute_def second_def)
  finally have "{out_AssetID o1 | o1. o1 \<in> set (avm_outputs token_db) \<and> out_CreatedAt o1 > 8 - 24 * hour} = {''DJTX'', ''GOLD''}" .
  with asset_aggregates_alike [OF w _ run] run show ?thesis
    by (intro exI [of _ ra] exI [of _ t] exI [of _ w']) (simp add: plain_lib_def cached_number_def NewAggregatesCache_def)
qed

text \<open>The numbers of chains.  After a run that the database answers, \<^verbatim>\<open>CacheTxCounts\<close> has one entry for each configured chain with
  transactions, with their number, and \<^verbatim>\<open>CacheAddressCounts\<close> one for each configured chain with addresses.\<close>

theorem chain_counts_exact:
  assumes "calm w" and "ids_readable T L djtx (store w) f"
    and "run_assets T L order perm cs ac djtx x now t ra w = ((ra', t'), w')"
  shows "set (CacheTxCounts ra') = {\<lparr>chc_ChainID = c, chc_Total = dec_nat (length (filter (\<lambda>r. tx_ChainID r = c) (avm_transactions (store w))))\<rparr> | c.
       c \<in> tx_ChainID ` set (avm_transactions (store w)) \<and> c \<in> dom cs} \<and> distinct (map chc_ChainID (CacheTxCounts ra')) \<and>
    set (CacheAddressCounts ra') = {\<lparr>chc_ChainID = c, chc_Total = dec_nat (length (filter (\<lambda>r. adc_ChainID r = c) (address_chain (store w))))\<rparr> | c.
       c \<in> adc_ChainID ` set (address_chain (store w)) \<and> c \<in> dom cs} \<and> distinct (map chc_ChainID (CacheAddressCounts ra'))"
proof -
  have "CacheAddressCounts ra' = prune_counts cs (count_by_chain (map adc_ChainID (address_chain (store w))))"
    "CacheTxCounts ra' = prune_counts cs (count_by_chain (map tx_ChainID (avm_transactions (store w))))"
    using run_assets_calm [OF assms(1,2), of order perm cs ac x now t ra] assms(3) by auto
  then show ?thesis by (simp add: counts_exact filter_map o_def)
qed

theorem chain_counts_exact_witness:
  "\<exists>ra t w. run_assets small_parselib plain_lib (\<lambda>l. l) rev [''X'' \<mapsto> ''avm''] NewAggregatesCache ''DJTX'' ''X'' 9 8
       (new_ReaderAggregate True) (calm_sample\<lparr>store := token_db\<rparr>) = ((ra, t), w) \<and>
     set (CacheTxCounts ra) = {\<lparr>chc_ChainID = ''X'', chc_Total = ''2''\<rparr>}"
proof -
  let ?w = "calm_sample\<lparr>store := token_db\<rparr>"
  have w: "calm ?w" "ids_readable small_parselib plain_lib ''DJTX'' (store ?w) (\<lambda>a. a)"
    by (simp_all add: calm_sample_def calm_def ids_readable_def small_parselib_def plain_lib_def)
  obtain ra t w' where run: "run_assets small_parselib plain_lib (\<lambda>l. l) rev [''X'' \<mapsto> ''avm''] NewAggregatesCache ''DJTX'' ''X'' 9 8
      (new_ReaderAggregate True) ?w = ((ra, t), w')"
    by (metis surj_pair)
  have "dec_nat (Suc (Suc 0)) = ''2''" by code_simp
  with chain_counts_exact [OF w run] run show ?thesis
    by (intro exI [of _ ra] exI [of _ t] exI [of _ w']) (auto simp: token_db_def sample_tx_def)
qed

end
