(* ===== verification/Cchain_Reader.thy ===== *)
theory Cchain_Reader
  imports Aggregates_Cache Cvm_Writer
begin

text \<open>
  The lists of the C-chain: \<^verbatim>\<open>src/services/indexes/djtx/reader_list_ctrans.go\<close>,
  \<^verbatim>\<open>reader_list_cblocks.go\<close> and \<^verbatim>\<open>CTxDATA\<close> of \<^verbatim>\<open>reader.go\<close>.

  Ethereum transactions and headers are read by the node's library; the readers are arguments, gathered in
  \<open>ethlib\<close>, and so is what the driver makes of a null.  The columns of the table of transactions are those of the
  migrations up to \<^verbatim>\<open>049\<close>: migration \<^verbatim>\<open>047\<close> has replaced \<^verbatim>\<open>from_addr\<close> and \<^verbatim>\<open>to_addr\<close>
  by the ids of accounts.
\<close>

section \<open>Transactions\<close>

text \<open>What \<^verbatim>\<open>types.Transaction\<close> of the node gives.\<close>

record ethTransaction =
  tr_Type :: u8
  tr_Hash :: string
  tr_Nonce :: u64
  tr_GasPrice :: "int option"
  tr_Gas :: u64
  tr_GasFeeCap :: "int option"
  tr_GasTipCap :: "int option"
  tr_To :: "bytes option"
  tr_Value :: "int option"
  tr_Data :: "nat list"
  tr_V :: "int option"
  tr_R :: "int option"
  tr_S :: "int option"

record CBlockHeaderBase =
  bh_Hash :: string
  bh_Coinbase :: string
  bh_Difficulty :: string
  bh_Number :: string
  bh_GasLimit :: string
  bh_GasUsed :: string
  bh_Time :: string
  bh_BaseFee :: string
  bh_ExtDataGasUsed :: string
  bh_BlockGasCost :: string
  bh_EvmTx :: i16
  bh_AtomicTx :: i16

record CTransactionDataBase =
  tb_Type :: string
  tb_Block :: string
  tb_Index :: string
  tb_Hash :: string
  tb_Nonce :: string
  tb_GasPrice :: string
  tb_GasFeeCap :: string
  tb_GasTipCap :: string
  tb_Gas :: string
  tb_Amount :: string
  tb_From :: string
  tb_To :: string
  tb_CreatedAt :: string
  tb_Status :: string
  tb_GasUsed :: string
  tb_EffectiveGasPrice :: string

record ethlib =
  el_Transaction :: "bytes \<Rightarrow> goerr + ethTransaction"
  el_Receipt :: "bytes \<Rightarrow> goerr + receipt_fields"
  el_Header :: "bytes \<Rightarrow> goerr + bytes"
  el_BlockHeaderBase :: "bytes \<Rightarrow> goerr + CBlockHeaderBase"
  el_TransactionDataBase :: "bytes \<Rightarrow> goerr + CTransactionDataBase"
  el_Hex :: "bytes \<Rightarrow> string"

record CTransactionData =
  cd_Type :: int
  cd_Block :: string
  cd_Hash :: string
  cd_CreatedAt :: gotime
  cd_Nonce :: u64
  cd_GasPrice :: "string option"
  cd_GasFeeCap :: "string option"
  cd_GasTipCap :: "string option"
  cd_GasLimit :: u64
  cd_Amount :: "string option"
  cd_Payload :: "string option"
  cd_FromAddr :: string
  cd_ToAddr :: string
  cd_V :: "string option"
  cd_R :: "string option"
  cd_S :: "string option"
  cd_Receipt :: "ExtendedReceipt option"

record CTransactionList =
  cl_Transactions :: "CTransactionData list"
  cl_StartTime :: gotime
  cl_EndTime :: gotime

definition toCTransactionData :: "ethlib \<Rightarrow> ethTransaction \<Rightarrow> CTransactionData" where
  "toCTransactionData B t =
     \<lparr>cd_Type = int (unat (tr_Type t)), cd_Block = [], cd_Hash = with_0x (tr_Hash t), cd_CreatedAt = zero_time, cd_Nonce = tr_Nonce t,
      cd_GasPrice = (if tr_Type t = 0 then map_option dec_int (tr_GasPrice t) else None),
      cd_GasFeeCap = (if tr_Type t > 0 then map_option dec_int (tr_GasFeeCap t) else None),
      cd_GasTipCap = (if tr_Type t > 0 then map_option dec_int (tr_GasTipCap t) else None),
      cd_GasLimit = tr_Gas t, cd_Amount = map_option dec_int (tr_Value t),
      cd_Payload = (if tr_Data t \<noteq> [] then Some (''0x'' @ hex_EncodeToString (tr_Data t)) else None),
      cd_FromAddr = [], cd_ToAddr = (case tr_To t of None \<Rightarrow> [] | Some a \<Rightarrow> CommonAddressHexRepair (el_Hex B) (Some a)),
      cd_V = map_option dec_int (tr_V t), cd_R = map_option dec_int (tr_R t), cd_S = map_option dec_int (tr_S t),
      cd_Receipt = None\<rparr>"

subsection \<open>The filter\<close>

text \<open>The columns of \<^verbatim>\<open>cvm_transactions_txdata\<close> that hold strings.\<close>

definition txdata_columns :: "string \<rightharpoonup> (CvmTxdataRow \<Rightarrow> string)" where
  "txdata_columns = map_of [(''hash'', ctr_Hash), (''block'', ctr_Block)]"

definition createdatefilter :: "ListCTransactionsParams \<Rightarrow> CvmTxdataRow \<Rightarrow> bool" where
  "createdatefilter p r \<longleftrightarrow>
     (let lp = ct_ListParams p in
      (lp_StartTimeProvided lp \<and> lp_StartTime lp \<noteq> zero_time \<longrightarrow> ctr_CreatedAt r \<ge> lp_StartTime lp) \<and>
      (lp_EndTimeProvided lp \<and> lp_EndTime lp \<noteq> zero_time \<longrightarrow> ctr_CreatedAt r < lp_EndTime lp))"

definition blockfilter :: "ListCTransactionsParams \<Rightarrow> CvmTxdataRow \<Rightarrow> bool" where
  "blockfilter p r \<longleftrightarrow>
     (case ct_BlockStart p of None \<Rightarrow> True | Some n \<Rightarrow> block_idx r \<ge> n * 1000) \<and>
     (case ct_BlockEnd p of None \<Rightarrow> True | Some n \<Rightarrow> block_idx r < (n + 1) * 1000)"

text \<open>The subselect of the hashes with an address in a column.\<close>

definition hashes_by :: "string \<Rightarrow> string list \<Rightarrow> ListCTransactionsParams \<Rightarrow> database \<Rightarrow> goerr + string list" where
  "hashes_by col_name addrs p d =
     (case txdata_columns col_name of
        None \<Rightarrow> Inl unknown_column
      | Some f \<Rightarrow> Inr (map ctr_Hash (filter (\<lambda>r. f r \<in> set addrs \<and> blockfilter p r \<and> createdatefilter p r) (cvm_transactions_txdata d))))"

definition listCTransFilter :: "ListCTransactionsParams \<Rightarrow> database \<Rightarrow> goerr + (CvmTxdataRow \<Rightarrow> bool)" where
  "listCTransFilter p d =
     bind_err (if ct_CAddressesTo p \<noteq> [] then bind_err (hashes_by ''to_addr'' (ct_CAddressesTo p) p d) (\<lambda>l. Inr (Some l)) else Inr None) (\<lambda>to_sq.
     bind_err (if ct_CAddressesFrom p \<noteq> [] then bind_err (hashes_by ''from_addr'' (ct_CAddressesFrom p) p d) (\<lambda>l. Inr (Some l)) else Inr None) (\<lambda>from_sq.
     bind_err (if ct_CAddresses p \<noteq> []
               then bind_err (hashes_by ''from_addr'' (ct_CAddresses p) p d) (\<lambda>l1.
                    bind_err (hashes_by ''to_addr'' (ct_CAddresses p) p d) (\<lambda>l2. Inr (Some (l1 @ l2)))) else Inr None) (\<lambda>to_from_sq.
     Inr (\<lambda>r. (\<forall>sq \<in> {to_sq, from_sq, to_from_sq}. case sq of None \<Rightarrow> True | Some l \<Rightarrow> ctr_Hash r \<in> set l) \<and> blockfilter p r))))"

text \<open>A row with the address of its sender; the newest come first.\<close>

definition txdata_rows :: "database \<Rightarrow> (CvmTxdataRow \<times> CvmAccount option) list" where
  "txdata_rows d = left_join (\<lambda>t a. ctr_IdFromAddr t = cac_ID a) (cvm_transactions_txdata d) (cvm_accounts d)"

definition scan_addr :: "goerr + string \<Rightarrow> CvmAccount option \<Rightarrow> goerr + string" where
  "scan_addr null a = (case a of None \<Rightarrow> null | Some x \<Rightarrow> Inr (cac_Address x))"

definition select_ctransactions ::
  "nodelib \<Rightarrow> goerr + string \<Rightarrow> ListCTransactionsParams \<Rightarrow> database \<Rightarrow> goerr + (CvmTxdataRow \<times> string) list" where
  "select_ctransactions L null p d =
     bind_err (listCTransFilter p d) (\<lambda>wanted.
     let b = ListCTransactionsParams_Apply L p blank_select;
         rows = filter (\<lambda>(r, a). wanted r \<and> (ct_Hashes p \<noteq> [] \<longrightarrow> ctr_Hash r \<in> set (ct_Hashes p))) (txdata_rows d)
     in if sb_limit b = None \<and> sb_offset b \<noteq> None then Inl sql_syntax
        else read_all (\<lambda>(r, a). bind_err (scan_addr null a) (\<lambda>s. Inr (r, s)))
               (page (sb_limit b) (sb_offset b) (rev (sort_key (\<lambda>(r, a). ctr_CreatedAt r) (rev rows)))))"

definition load_ctransaction :: "ethlib \<Rightarrow> CvmTxdataRow \<times> string \<Rightarrow> goerr + CTransactionData" where
  "load_ctransaction B x =
     (case x of (r, fromAddr) \<Rightarrow>
       bind_err (el_Transaction B (ctr_Serialization r)) (\<lambda>tr.
       bind_err (UnmarshalJSON (el_Receipt B) zero_receipt (ctr_Receipt r)) (\<lambda>receipt.
       Inr ((toCTransactionData B tr)\<lparr>cd_Block := ctr_Block r, cd_CreatedAt := ctr_CreatedAt r, cd_FromAddr := fromAddr,
              cd_Receipt := Some receipt\<rparr>))))"

definition ListCTransactions ::
  "nodelib \<Rightarrow> ethlib \<Rightarrow> goerr + string \<Rightarrow> ListCTransactionsParams \<Rightarrow> (database, CTransactionList) go" where
  "ListCTransactions L B null p =
     bind (query (select_ctransactions L null p)) (\<lambda>dataList.
     bind (lift_err (read_all (load_ctransaction B) dataList)) (\<lambda>trItems.
     ret \<lparr>cl_Transactions = trItems, cl_StartTime = lp_StartTime (ct_ListParams p), cl_EndTime = lp_EndTime (ct_ListParams p)\<rparr>))"

subsection \<open>CTxDATA\<close>

text \<open>\<open>max_block\<close> is what the driver loads into a \<^verbatim>\<open>big.Int\<close> for the largest block; \<open>marshal\<close> is the JSON of hash,
  header and transactions.\<close>

definition CTxDATA ::
  "nodelib \<Rightarrow> ethlib \<Rightarrow> goerr + string \<Rightarrow> (database \<Rightarrow> goerr + int) \<Rightarrow> (string \<Rightarrow> bytes \<Rightarrow> CTransactionData list \<Rightarrow> goerr + bytes) \<Rightarrow>
   string \<Rightarrow> (database, bytes) go" where
  "CTxDATA L B null max_block marshal i =
     bind (case read_decimal i of Some n \<Rightarrow> ret n | None \<Rightarrow> query max_block) (\<lambda>idInt.
     bind (QueryCvmBlock \<lparr>cb_Block = dec_int idInt, cb_Hash = [], cb_ChainID = [], cb_EvmTx = 0, cb_AtomicTx = 0, cb_Serialization = [],
             cb_CreatedAt = zero_time, cb_Proposer = [], cb_ProposerTime = None\<rparr>) (\<lambda>cvmBlock.
     bind (lift_err (el_Header B (cb_Serialization cvmBlock))) (\<lambda>header.
     bind (ListCTransactions L B null
             \<lparr>ct_ListParams = zero_params, ct_CAddresses = [], ct_CAddressesTo = [], ct_CAddressesFrom = [], ct_Hashes = [],
              ct_Sort = TransactionSortTimestampAsc, ct_BlockStart = Some idInt, ct_BlockEnd = Some idInt\<rparr>) (\<lambda>l.
     lift_err (marshal (cb_Hash cvmBlock) header (cl_Transactions l))))))"

section \<open>Blocks\<close>

record CBlockList =
  bl_Blocks :: "CBlockHeaderBase list"
  bl_Transactions :: "CTransactionDataBase list"

fun hex_nat :: "nat \<Rightarrow> string" where
  "hex_nat n = (if n < 16 then [hex_digit n] else hex_nat (n div 16) @ [hex_digit (n mod 16)])"

declare hex_nat.simps [simp del]

definition fmtHex :: "u64 \<Rightarrow> string" where
  "fmtHex n = ''0x'' @ hex_nat (unat n)"

definition times_filter :: "ListParams \<Rightarrow> gotime \<Rightarrow> bool" where
  "times_filter lp t \<longleftrightarrow>
     (lp_StartTimeProvided lp \<longrightarrow> t \<ge> lp_StartTime lp) \<and> (lp_EndTimeProvided lp \<longrightarrow> t < lp_EndTime lp)"

text \<open>The direction and the bound of both selects: towards older rows from the start, towards newer ones from the end.\<close>

definition from_cursor :: "u64 option \<Rightarrow> u64 option \<Rightarrow> ('r \<Rightarrow> nat) \<Rightarrow> 'r list \<Rightarrow> 'r list" where
  "from_cursor start_at end_at key rows =
     (case start_at of
        Some n \<Rightarrow> rev (sort_key key (rev (filter (\<lambda>r. key r \<le> unat n) rows)))
      | None \<Rightarrow>
          (case end_at of
             Some n \<Rightarrow> sort_key key (filter (\<lambda>r. key r \<ge> unat n) rows)
           | None \<Rightarrow> rev (sort_key key (rev rows))))"

definition list_headers :: "ethlib \<Rightarrow> ListCBlocksParams \<Rightarrow> (database, CBlockHeaderBase list) go" where
  "list_headers B p =
     (let lp = cb_ListParams p in
      bind (query (\<lambda>d. Inr (take (unat (of_int (lp_Limit lp) :: u64))
             (from_cursor (map_option of_int (cb_BlockStart p)) (map_option of_int (cb_BlockEnd p)) (\<lambda>b. unat (number_of (cb_Block b)))
               (filter (\<lambda>b. times_filter lp (cb_CreatedAt b)) (cvm_blocks d)))))) (\<lambda>blockList.
      lift_err (read_all (\<lambda>b. bind_err (el_BlockHeaderBase B (cb_Serialization b)) (\<lambda>h.
        Inr (h\<lparr>bh_EvmTx := cb_EvmTx b, bh_AtomicTx := cb_AtomicTx b\<rparr>))) blockList)))"

text \<open>The addresses are pasted into the text of the select.  \<open>raw\<close> is what the database makes of that text when
  one of them has a quote or a backslash.\<close>

definition account_ids ::
  "(string \<Rightarrow> database \<Rightarrow> goerr + u64 list) \<Rightarrow> string list \<Rightarrow> database \<Rightarrow> goerr + u64 list" where
  "account_ids raw addrs d =
     (if list_ex (\<lambda>a. Contains a [CHR 0x27] \<or> Contains a [CHR 0x5C]) addrs
      then raw ([CHR 0x27] @ Join addrs ([CHR 0x27] @ '','' @ [CHR 0x27]) @ [CHR 0x27]) d
      else Inr (map cac_ID (filter (\<lambda>a. cac_Address a \<in> set addrs) (cvm_accounts d))))"

definition tx_cursor :: "int option \<Rightarrow> u64 \<Rightarrow> u64 option" where
  "tx_cursor block txID = map_option (\<lambda>n. of_int n * 1000 + 999 - txID) block"

definition load_base :: "ethlib \<Rightarrow> CvmTxdataRow \<times> string \<Rightarrow> goerr + CTransactionDataBase" where
  "load_base B x =
     (case x of (r, fromAddr) \<Rightarrow>
       bind_err (el_TransactionDataBase B (ctr_Serialization r)) (\<lambda>t.
       Inr (t\<lparr>tb_Block := fmtHex (number_of (ctr_Block r)), tb_Index := fmtHex (ctr_Idx r),
              tb_CreatedAt := fmtHex (of_int (unix_seconds (ctr_CreatedAt r))), tb_From := fromAddr,
              tb_Status := fmtHex (ucast (ctr_Status r)), tb_GasUsed := fmtHex (ctr_GasUsed r),
              tb_EffectiveGasPrice := fmtHex (ctr_GasPrice r)\<rparr>)))"

definition select_bases ::
  "(string \<Rightarrow> database \<Rightarrow> goerr + u64 list) \<Rightarrow> goerr + string \<Rightarrow> ListCBlocksParams \<Rightarrow> database \<Rightarrow> goerr + (CvmTxdataRow \<times> string) list" where
  "select_bases raw null p d =
     bind_err (if cb_CAddresses p \<noteq> [] then bind_err (account_ids raw (cb_CAddresses p) d) (\<lambda>l. Inr (Some l)) else Inr None) (\<lambda>sub.
     read_all (\<lambda>(r, a). bind_err (scan_addr null a) (\<lambda>s. Inr (r, s)))
       (take (unat (of_int (cb_TxLimit p) :: u64))
         (from_cursor (tx_cursor (cb_BlockStart p) (cb_TxID p)) (tx_cursor (cb_BlockEnd p) (cb_TxID p)) (\<lambda>(r, a). nat (block_idx r))
           (filter (\<lambda>(r, a). times_filter (cb_ListParams p) (ctr_CreatedAt r) \<and>
               (case sub of None \<Rightarrow> True | Some ids \<Rightarrow> ctr_IdFromAddr r \<in> set ids \<or> ctr_IdToAddr r \<in> set ids)) (txdata_rows d)))))"

definition ListCBlocks ::
  "ethlib \<Rightarrow> (string \<Rightarrow> database \<Rightarrow> goerr + u64 list) \<Rightarrow> goerr + string \<Rightarrow> ListCBlocksParams \<Rightarrow> (database, CBlockList) go" where
  "ListCBlocks B raw null p =
     bind (if lp_Limit (cb_ListParams p) > 0 then list_headers B p else ret []) (\<lambda>blocks.
     bind (if cb_TxLimit p > 0
           then bind (query (select_bases raw null p)) (\<lambda>txList. lift_err (read_all (load_base B) txList))
           else ret []) (\<lambda>txs.
     ret \<lparr>bl_Blocks = blocks, bl_Transactions = txs\<rparr>))"

section \<open>Orders\<close>

text \<open>A descending order is the ascending one of the negated key, and equal keys keep their places.\<close>

lemma sort_key_desc:
  fixes key :: "'r \<Rightarrow> int"
  shows "rev (sort_key key (rev xs)) = sort_key (\<lambda>x. - key x) xs"
proof (rule properties_for_sort_key [symmetric])
  show "mset (rev (sort_key key (rev xs))) = mset xs" by simp
  show "filter (\<lambda>x. - key k = - key x) (rev (sort_key key (rev xs))) = filter (\<lambda>x. - key k = - key x) xs" for k
    using arg_cong [OF sort_key_stable [of key "key k" "rev xs"], of rev] by (simp add: rev_filter [symmetric] eq_commute [of "key k"])
  have "sorted (rev (map (\<lambda>x. - key x) (sort_key key (rev xs))))"
    using sorted_sort_key [of key "rev xs"] by (simp add: sorted_wrt_rev sorted_wrt_map)
  then show "sorted (map (\<lambda>x. - key x) (rev (sort_key key (rev xs))))" by (simp add: rev_map)
qed

lemma insort_key_cong:
  "(\<And>y. y \<in> set ys \<Longrightarrow> f x \<le> f y \<longleftrightarrow> g x \<le> g y) \<Longrightarrow> insort_key f x ys = insort_key g x ys"
  by (induction ys) auto

lemma sort_key_order_cong:
  "(\<And>x y. x \<in> set xs \<Longrightarrow> y \<in> set xs \<Longrightarrow> f x \<le> f y \<longleftrightarrow> g x \<le> g y) \<Longrightarrow> sort_key f xs = sort_key g xs"
proof (induction xs)
  case (Cons x xs)
  then have "sort_key f xs = sort_key g xs" by simp
  moreover have "insort_key f x (sort_key g xs) = insort_key g x (sort_key g xs)"
    using Cons.prems by (intro insort_key_cong) auto
  ultimately show ?case by simp
qed simp

lemma read_all_list:
  "(\<And>x. x \<in> set xs \<Longrightarrow> \<exists>y. f x = Inr y) \<Longrightarrow> \<exists>ys. read_all f xs = Inr ys \<and> list_all2 (\<lambda>x y. f x = Inr y) xs ys"
proof (induction xs)
  case (Cons x xs)
  from Cons.prems [of x] obtain y where "f x = Inr y" by auto
  moreover obtain ys where "read_all f xs = Inr ys" "list_all2 (\<lambda>x y. f x = Inr y) xs ys" using Cons by auto
  ultimately show ?case by auto
qed simp

lemma read_all_map: "(\<And>x. x \<in> set xs \<Longrightarrow> f x = Inr (g x)) \<Longrightarrow> read_all f xs = Inr (map g xs)"
  by (induction xs) auto

section \<open>Lists by address\<close>

text \<open>C38: A list of transactions of an address always fails.  The filter compares the columns \<^verbatim>\<open>to_addr\<close> and \<^verbatim>\<open>from_addr\<close>, which
  the table does not have: with an address, or one to send to or from, \<^verbatim>\<open>ListCTransactions\<close> returns an error whatever the
  database holds, and an unknown column is that error when the driver answers.\<close>

theorem ListCTransactions_by_address_fails:
  assumes "ct_CAddresses p \<noteq> [] \<or> ct_CAddressesTo p \<noteq> [] \<or> ct_CAddressesFrom p \<noteq> []"
  shows "(\<exists>e. fst (ListCTransactions L B null p w) = Inl e) \<and> (calm w \<longrightarrow> fst (ListCTransactions L B null p w) = Inl unknown_column)"
proof -
  have "listCTransFilter p d = Inl unknown_column" for d
    using assms by (auto simp: listCTransFilter_def hashes_by_def txdata_columns_def bind_err_def)
  then have "select_ctransactions L null p = (\<lambda>d. Inl unknown_column)" by (simp add: fun_eq_iff select_ctransactions_def bind_err_def)
  then show ?thesis
    by (auto simp: ListCTransactions_def bind_def query_def calm_def Let_def split: option.split)
qed

definition by_address :: ListCTransactionsParams where
  "by_address = \<lparr>ct_ListParams = zero_params, ct_CAddresses = [''0xa''], ct_CAddressesTo = [], ct_CAddressesFrom = [], ct_Hashes = [],
     ct_Sort = TransactionSortTimestampAsc, ct_BlockStart = None, ct_BlockEnd = None\<rparr>"

definition no_ethlib :: ethlib where
  "no_ethlib = \<lparr>el_Transaction = (\<lambda>b. Inr \<lparr>tr_Type = 0, tr_Hash = b, tr_Nonce = 0, tr_GasPrice = None, tr_Gas = 0, tr_GasFeeCap = None,
       tr_GasTipCap = None, tr_To = None, tr_Value = None, tr_Data = [], tr_V = None, tr_R = None, tr_S = None\<rparr>),
     el_Receipt = (\<lambda>b. Inr \<lparr>rf_Type = None, rf_PostState = None, rf_Status = None, rf_CumulativeGasUsed = Some 0, rf_Bloom = Some [],
       rf_Logs = Some [], rf_TxHash = Some [], rf_ContractAddress = None, rf_GasUsed = Some 0, rf_BlockHash = None, rf_BlockNumber = None,
       rf_TransactionIndex = None, rf_EffectiveGasPrice = None\<rparr>),
     el_Header = Inr,
     el_BlockHeaderBase = (\<lambda>b. Inr \<lparr>bh_Hash = b, bh_Coinbase = [], bh_Difficulty = [], bh_Number = [], bh_GasLimit = [], bh_GasUsed = [],
       bh_Time = [], bh_BaseFee = [], bh_ExtDataGasUsed = [], bh_BlockGasCost = [], bh_EvmTx = 0, bh_AtomicTx = 0\<rparr>),
     el_TransactionDataBase = (\<lambda>b. Inr \<lparr>tb_Type = [], tb_Block = [], tb_Index = [], tb_Hash = b, tb_Nonce = [], tb_GasPrice = [],
       tb_GasFeeCap = [], tb_GasTipCap = [], tb_Gas = [], tb_Amount = [], tb_From = [], tb_To = [], tb_CreatedAt = [], tb_Status = [],
       tb_GasUsed = [], tb_EffectiveGasPrice = []\<rparr>),
     el_Hex = (\<lambda>b. b)\<rparr>"

theorem ListCTransactions_by_address_fails_witness:
  "fst (ListCTransactions plain_lib no_ethlib (Inr []) by_address calm_sample) = Inl unknown_column"
proof -
  have "calm calm_sample" by (simp add: calm_def calm_sample_def sample_world_def)
  then show ?thesis
    using ListCTransactions_by_address_fails [of by_address plain_lib no_ethlib "Inr []" calm_sample] by (simp add: by_address_def)
qed

section \<open>The transactions of a block\<close>

text \<open>The account of the sender of a row.\<close>

definition sender :: "database \<Rightarrow> CvmTxdataRow \<Rightarrow> string" where
  "sender d r = (case find (\<lambda>a. ctr_IdFromAddr r = cac_ID a) (cvm_accounts d) of None \<Rightarrow> [] | Some a \<Rightarrow> cac_Address a)"

definition senders_known :: "database \<Rightarrow> bool" where
  "senders_known d \<longleftrightarrow> distinct (map cac_ID (cvm_accounts d)) \<and>
     (\<forall>r \<in> set (cvm_transactions_txdata d). ctr_IdFromAddr r \<in> cac_ID ` set (cvm_accounts d))"

lemma distinct_map_filter: "distinct (map f ys) \<Longrightarrow> length (filter (\<lambda>y. k = f y) ys) \<le> 1"
  by (induction ys) (auto simp: filter_empty_conv)

lemma txdata_rows_known:
  assumes "senders_known d"
  shows "txdata_rows d = map (\<lambda>r. (r, find (\<lambda>a. ctr_IdFromAddr r = cac_ID a) (cvm_accounts d))) (cvm_transactions_txdata d)"
  unfolding txdata_rows_def using assms
  by (intro left_join_unique distinct_map_filter) (simp add: senders_known_def)

lemma scan_sender:
  assumes "senders_known d" and "r \<in> set (cvm_transactions_txdata d)"
  shows "scan_addr null (find (\<lambda>a. ctr_IdFromAddr r = cac_ID a) (cvm_accounts d)) = Inr (sender d r)"
proof -
  have "find (\<lambda>a. ctr_IdFromAddr r = cac_ID a) (cvm_accounts d) \<noteq> None"
    using assms by (auto simp: senders_known_def find_None_iff)
  then show ?thesis by (auto simp: scan_addr_def sender_def)
qed

text \<open>Reading the rows of a select that was made of the rows of the table.\<close>

lemma read_senders:
  assumes "senders_known d" and "set rows \<subseteq> set (cvm_transactions_txdata d)"
  shows "read_all (\<lambda>(r, a). bind_err (scan_addr null a) (\<lambda>s. Inr (r, s)))
      (map (\<lambda>r. (r, find (\<lambda>a. ctr_IdFromAddr r = cac_ID a) (cvm_accounts d))) rows) = Inr (map (\<lambda>r. (r, sender d r)) rows)"
  using assms(2) by (induction rows) (auto simp: scan_sender [OF assms(1)] bind_err_def)

lemma idx_range:
  fixes n m :: int
  assumes "i \<le> 999"
  shows "n * 1000 \<le> int b * 1000 + (999 - int i) \<and> int b * 1000 + (999 - int i) < (m + 1) * 1000 \<longleftrightarrow> n \<le> int b \<and> int b \<le> m"
proof -
  have "n * 1000 \<le> int b * 1000 + (999 - int i) \<longleftrightarrow> n \<le> int b"
  proof (cases "n \<le> int b")
    case False
    then have "int b + 1 \<le> n" by simp
    with assms show ?thesis by linarith
  qed (use assms in linarith)
  moreover have "int b * 1000 + (999 - int i) < (m + 1) * 1000 \<longleftrightarrow> int b \<le> m"
  proof (cases "int b \<le> m")
    case False
    then have "(m + 1) * 1000 \<le> int b * 1000" by simp
    moreover have "int i \<le> 999" using assms by simp
    ultimately have "\<not> int b * 1000 + (999 - int i) < (m + 1) * 1000" by linarith
    with False show ?thesis by simp
  next
    case True
    then have "int b * 1000 \<le> m * 1000" by simp
    then have "int b * 1000 + (999 - int i) < (m + 1) * 1000" unfolding distrib_right by linarith
    with True show ?thesis by simp
  qed
  ultimately show ?thesis by simp
qed

lemma block_idx_range:
  assumes "thousand d" and "r \<in> set (cvm_transactions_txdata d)"
  shows "n * 1000 \<le> block_idx r \<and> block_idx r < (m + 1) * 1000 \<longleftrightarrow>
    n \<le> int (unat (number_of (ctr_Block r))) \<and> int (unat (number_of (ctr_Block r))) \<le> m"
proof -
  have "ctr_Idx r \<le> 999" using assms by (auto simp: thousand_def)
  then have "unat (ctr_Idx r) \<le> 999" by (simp add: word_le_nat_alt)
  then show ?thesis unfolding block_idx_def by (rule idx_range)
qed

text \<open>The request of \<^verbatim>\<open>CTxDATA\<close>, and in general a range of blocks without a limit.\<close>

definition block_request :: "int \<Rightarrow> int \<Rightarrow> ListCTransactionsParams" where
  "block_request n m = \<lparr>ct_ListParams = zero_params, ct_CAddresses = [], ct_CAddressesTo = [], ct_CAddressesFrom = [], ct_Hashes = [],
     ct_Sort = TransactionSortTimestampAsc, ct_BlockStart = Some n, ct_BlockEnd = Some m\<rparr>"

definition rows_of_blocks :: "int \<Rightarrow> int \<Rightarrow> database \<Rightarrow> CvmTxdataRow list" where
  "rows_of_blocks n m d = sort_key (\<lambda>r. - ctr_CreatedAt r)
     (filter (\<lambda>r. n \<le> int (unat (number_of (ctr_Block r))) \<and> int (unat (number_of (ctr_Block r))) \<le> m) (cvm_transactions_txdata d))"

lemma select_blocks:
  assumes "senders_known d" and "thousand d"
  shows "select_ctransactions L null (block_request n m) d = Inr (map (\<lambda>r. (r, sender d r)) (rows_of_blocks n m d))"
proof -
  let ?p = "block_request n m"
  have "listCTransFilter ?p d = Inr (blockfilter ?p)"
    by (simp add: listCTransFilter_def block_request_def bind_err_def)
  moreover have "blockfilter ?p r \<longleftrightarrow> n \<le> int (unat (number_of (ctr_Block r))) \<and> int (unat (number_of (ctr_Block r))) \<le> m"
    if "r \<in> set (cvm_transactions_txdata d)" for r
    using block_idx_range [OF assms(2) that, of n m] by (simp add: blockfilter_def block_request_def)
  then have "filter (blockfilter ?p) (cvm_transactions_txdata d) = filter (\<lambda>r. n \<le> int (unat (number_of (ctr_Block r))) \<and>
      int (unat (number_of (ctr_Block r))) \<le> m) (cvm_transactions_txdata d)"
    by (rule filter_cong [OF refl])
  moreover have "read_all (\<lambda>(r, a). bind_err (scan_addr null a) (\<lambda>s. Inr (r, s)))
      (map (\<lambda>r. (r, find (\<lambda>a. ctr_IdFromAddr r = cac_ID a) (cvm_accounts d))) (rows_of_blocks n m d)) =
      Inr (map (\<lambda>r. (r, sender d r)) (rows_of_blocks n m d))"
    by (rule read_senders [OF assms(1)]) (auto simp: rows_of_blocks_def)
  ultimately show ?thesis
    unfolding select_ctransactions_def txdata_rows_known [OF assms(1)]
    by (simp add: bind_err_def Let_def filter_map o_def sort_key_desc sort_key_map rows_of_blocks_def block_request_def
        ListCTransactionsParams_Apply_def ApplyPk_def zero_params_def blank_select_def page_def)
qed

lemma ListCTransactions_blocks:
  assumes "calm w" and "senders_known (store w)" and "thousand (store w)"
    and "\<And>r. r \<in> set (rows_of_blocks n m (store w)) \<Longrightarrow> \<exists>t. load_ctransaction B (r, sender (store w) r) = Inr t"
  shows "\<exists>ts k. ListCTransactions L B null (block_request n m) w =
      (Inr \<lparr>cl_Transactions = ts, cl_StartTime = zero_time, cl_EndTime = zero_time\<rparr>, w\<lparr>stmts := k\<rparr>) \<and>
    list_all2 (\<lambda>r t. load_ctransaction B (r, sender (store w) r) = Inr t) (rows_of_blocks n m (store w)) ts"
proof -
  let ?rows = "map (\<lambda>r. (r, sender (store w) r)) (rows_of_blocks n m (store w))"
  obtain ts where ts: "read_all (load_ctransaction B) ?rows = Inr ts" "list_all2 (\<lambda>x t. load_ctransaction B x = Inr t) ?rows ts"
    using read_all_list [of ?rows "load_ctransaction B"] assms(4) by fastforce
  have "ct_ListParams (block_request n m) = zero_params" by (simp add: block_request_def)
  with ts assms(1) select_blocks [OF assms(2,3)] show ?thesis
    by (intro exI [of _ ts] exI [of _ "Suc (stmts w)"])
      (simp add: ListCTransactions_def bind_def calm_query lift_err_def ret_def list_all2_map1 zero_params_def)
qed

text \<open>C36: The export of a block.  When the block and its transactions can be read, no block has more than a thousand transactions and
  the account of every sender is known, \<^verbatim>\<open>CTxDATA\<close> of a block number exports the hash and the header of the block and exactly its
  transactions, newest first, each with its block, time, sender and receipt.\<close>

theorem CTxDATA_block_exact:
  assumes "calm w" and "senders_known (store w)" and "thousand (store w)" and "read_decimal i = Some n"
    and "find (\<lambda>b. cb_Block b = dec_int n) (cvm_blocks (store w)) = Some blk" and "el_Header B (cb_Serialization blk) = Inr header"
    and "\<And>r. r \<in> set (rows_of_blocks n n (store w)) \<Longrightarrow> \<exists>t. load_ctransaction B (r, sender (store w) r) = Inr t"
  shows "\<exists>ts. fst (CTxDATA L B null max_block marshal i w) = marshal (cb_Hash blk) header ts \<and>
    list_all2 (\<lambda>r t. load_ctransaction B (r, sender (store w) r) = Inr t) (rows_of_blocks n n (store w)) ts"
proof -
  let ?w = "w\<lparr>stmts := Suc (stmts w)\<rparr>"
  obtain ts k where ts: "ListCTransactions L B null (block_request n n) ?w =
      (Inr \<lparr>cl_Transactions = ts, cl_StartTime = zero_time, cl_EndTime = zero_time\<rparr>, ?w\<lparr>stmts := k\<rparr>)"
    "list_all2 (\<lambda>r t. load_ctransaction B (r, sender (store w) r) = Inr t) (rows_of_blocks n n (store w)) ts"
    using ListCTransactions_blocks [of ?w n n B L null] assms(1-3,7) by auto
  obtain bs where "filter (\<lambda>b. cb_Block b = dec_int n) (cvm_blocks (store w)) = blk # bs"
    using assms(5) by (auto simp: find_filter_hd split: list.splits)
  with ts assms(1,4,6) show ?thesis
    by (intro exI [of _ ts])
      (simp add: CTxDATA_def bind_def ret_def QueryCvmBlock_def sql_load_one_def calm_query lift_err_def block_request_def fail_def split: sum.split)
qed

definition sample_txdata :: "string \<Rightarrow> string \<Rightarrow> u64 \<Rightarrow> CvmTxdataRow" where
  "sample_txdata h b i = \<lparr>ctr_Hash = h, ctr_Block = b, ctr_Idx = i, ctr_IdFromAddr = 1, ctr_IdToAddr = 1, ctr_Nonce = 0, ctr_Amount = 0,
     ctr_Status = 1, ctr_GasUsed = 0, ctr_GasPrice = 0, ctr_Serialization = h, ctr_Receipt = [], ctr_CreatedAt = 5\<rparr>"

definition chain_db :: database where
  "chain_db = sample_db\<lparr>cvm_blocks := [\<lparr>cb_Block = ''7'', cb_Hash = ''h7'', cb_ChainID = ''C'', cb_EvmTx = 2, cb_AtomicTx = 0,
       cb_Serialization = ''head'', cb_CreatedAt = 5, cb_Proposer = [], cb_ProposerTime = None\<rparr>],
     cvm_accounts := [\<lparr>cac_ID = 1, cac_Address = ''0xa'', cac_TxCount = 3, cac_CreationTx = None\<rparr>],
     cvm_transactions_txdata := [sample_txdata ''a'' ''7'' 0, sample_txdata ''b'' ''6'' 0, sample_txdata ''c'' ''7'' 1]\<rparr>"

lemma chain_db_ok: "senders_known chain_db" "thousand chain_db"
  by (simp_all add: chain_db_def senders_known_def thousand_def sample_txdata_def)

lemma no_ethlib_reads: "\<exists>t. load_ctransaction no_ethlib x = Inr t" "\<exists>t. load_base no_ethlib x = Inr t"
  by (simp_all add: load_ctransaction_def load_base_def no_ethlib_def UnmarshalJSON_def bind_err_def split_beta)

theorem CTxDATA_block_exact_witness:
  "\<exists>ts :: CTransactionData list. fst (CTxDATA plain_lib no_ethlib (Inl ''null'') (\<lambda>d. Inr 0) (\<lambda>h header ts. Inr (h @ header @ concat (map cd_Hash ts))) ''7''
       (calm_sample\<lparr>store := chain_db\<rparr>)) = Inr (''h7'' @ ''head'' @ concat (map cd_Hash ts)) \<and> length ts = 2"
proof -
  let ?w = "calm_sample\<lparr>store := chain_db\<rparr>"
  have w: "calm ?w" "senders_known (store ?w)" "thousand (store ?w)"
    by (simp_all add: calm_def calm_sample_def sample_world_def chain_db_ok)
  have n: "read_decimal ''7'' = Some 7" by code_simp
  have blk: "find (\<lambda>b. cb_Block b = dec_int 7) (cvm_blocks (store ?w)) = Some (hd (cvm_blocks chain_db))"
  proof -
    have "dec_int 7 = ''7''" by code_simp
    then show ?thesis by (simp add: chain_db_def)
  qed
  have rows: "length (rows_of_blocks 7 7 (store ?w)) = 2"
  proof -
    have "number_of ''7'' = 7" "number_of ''6'' = 6" by code_simp+
    then show ?thesis by (simp add: rows_of_blocks_def chain_db_def sample_txdata_def)
  qed
  have "el_Header no_ethlib (cb_Serialization (hd (cvm_blocks chain_db))) = Inr ''head''" by (simp add: no_ethlib_def chain_db_def)
  from CTxDATA_block_exact [OF w n blk this no_ethlib_reads(1), of plain_lib "Inl ''null''" "\<lambda>d. Inr 0" "\<lambda>h header ts. Inr (h @ header @ concat (map cd_Hash ts))"]
  obtain ts where "fst (CTxDATA plain_lib no_ethlib (Inl ''null'') (\<lambda>d. Inr 0) (\<lambda>h header ts. Inr (h @ header @ concat (map cd_Hash ts))) ''7'' ?w) =
      Inr (cb_Hash (hd (cvm_blocks chain_db)) @ ''head'' @ concat (map cd_Hash ts))" 
    "list_all2 (\<lambda>r t. load_ctransaction no_ethlib (r, sender (store ?w) r) = Inr t) (rows_of_blocks 7 7 (store ?w)) ts" by blast
  moreover from this(2) have "length ts = 2" using rows by (simp add: list_all2_lengthD [symmetric])
  moreover have "cb_Hash (hd (cvm_blocks chain_db)) = ''h7''" by (simp add: chain_db_def)
  ultimately show ?thesis by auto
qed

section \<open>Pages of blocks\<close>

text \<open>The position of a transaction in the list: newer blocks first, and within a block the order of the block.\<close>

definition position :: "CvmTxdataRow \<Rightarrow> int \<times> int" where
  "position r = (- int (unat (number_of (ctr_Block r))), int (unat (ctr_Idx r)))"

lemma idx_order:
  fixes b c :: int
  assumes "i \<le> 999" "j \<le> 999"
  shows "c * 1000 + (999 - int j) \<le> b * 1000 + (999 - int i) \<longleftrightarrow> (- b, int i) \<le> (- c, int j)"
proof (cases "b = c")
  case False
  then consider "b + 1 \<le> c" | "c + 1 \<le> b" by linarith
  then show ?thesis
  proof cases
    case 1
    then have "\<not> c * 1000 + (999 - int j) \<le> b * 1000 + (999 - int i)" using assms by linarith
    with 1 show ?thesis by simp
  next
    case 2
    then have "c * 1000 + (999 - int j) \<le> b * 1000 + (999 - int i)" using assms by linarith
    with 2 show ?thesis by simp
  qed
qed auto

lemma block_idx_position:
  assumes "ctr_Idx r \<le> 999" and "ctr_Idx s \<le> 999"
  shows "block_idx s \<le> block_idx r \<longleftrightarrow> position r \<le> position s"
proof -
  have "unat (ctr_Idx r) \<le> 999" "unat (ctr_Idx s) \<le> 999" using assms by (simp_all add: word_le_nat_alt)
  then show ?thesis unfolding block_idx_def position_def by (rule idx_order)
qed

lemma sort_key_nat_desc: "rev (sort_key key (rev xs)) = sort_key (\<lambda>x. - int (key x)) xs"
proof -
  have "sort_key key (rev xs) = sort_key (\<lambda>x. int (key x)) (rev xs)" by (rule sort_key_order_cong) simp
  then show ?thesis by (simp add: sort_key_desc)
qed

lemma unat_of_int: "0 \<le> z \<Longrightarrow> z < 2 ^ 64 \<Longrightarrow> unat (of_int z :: u64) = nat z"
  by (simp add: unat_eq_nat_uint uint_word_of_int_eq take_bit_int_eq_self)

lemma tx_cursor_value:
  assumes "0 \<le> b" and "b * 1000 + 999 < 2 ^ 64" and "i \<le> 999"
  shows "\<exists>n. tx_cursor (Some b) i = Some n \<and> int (unat n) = b * 1000 + (999 - int (unat i))"
proof -
  let ?z = "b * 1000 + (999 - int (unat i))"
  have "unat i \<le> 999" using assms(3) by (simp add: word_le_nat_alt)
  then have "0 \<le> ?z" "?z < 2 ^ 64" using assms(1,2) by linarith+
  then have "unat (of_int ?z :: u64) = nat ?z" by (rule unat_of_int)
  moreover have "of_int ?z = (of_int b * 1000 + 999 - i :: u64)" by simp
  ultimately have "int (unat (of_int b * 1000 + 999 - i :: u64)) = ?z" using \<open>0 \<le> ?z\<close> by (simp only: int_nat_eq if_True)
  moreover have "tx_cursor (Some b) i = Some (of_int b * 1000 + 999 - i)" by (simp add: tx_cursor_def)
  ultimately show ?thesis by blast
qed

text \<open>A request for the transactions from a position on.\<close>

definition page_from :: "int \<Rightarrow> ListCBlocksParams \<Rightarrow> bool" where
  "page_from b p \<longleftrightarrow> cb_BlockStart p = Some b \<and> 0 \<le> b \<and> b * 1000 + 999 < 2 ^ 64 \<and> cb_TxID p \<le> 999 \<and> cb_CAddresses p = [] \<and>
     \<not> lp_StartTimeProvided (cb_ListParams p) \<and> \<not> lp_EndTimeProvided (cb_ListParams p) \<and> 0 < cb_TxLimit p \<and> cb_TxLimit p < 2 ^ 64"

definition rows_from :: "int \<Rightarrow> u64 \<Rightarrow> database \<Rightarrow> CvmTxdataRow list" where
  "rows_from b i d = sort_key position (filter (\<lambda>r. (- b, int (unat i)) \<le> position r) (cvm_transactions_txdata d))"

lemma cursor_rows:
  assumes "thousand d" and "int (unat n) = b * 1000 + (999 - int (unat i))" and "i \<le> 999"
  shows "from_cursor (Some n) e (\<lambda>r. nat (block_idx r)) (cvm_transactions_txdata d) = rows_from b i d"
proof -
  have idx: "unat (ctr_Idx r) \<le> 999" if "r \<in> set (cvm_transactions_txdata d)" for r
    using assms(1) that by (auto simp: thousand_def word_le_nat_alt)
  have pos: "0 \<le> block_idx r" if "r \<in> set (cvm_transactions_txdata d)" for r
    using idx [OF that] unfolding block_idx_def by linarith
  have "unat i \<le> 999" using assms(3) by (simp add: word_le_nat_alt)
  then have cursor: "nat (block_idx r) \<le> unat n \<longleftrightarrow> (- b, int (unat i)) \<le> position r" if "r \<in> set (cvm_transactions_txdata d)" for r
    using idx_order [of "unat i" "unat (ctr_Idx r)" "int (unat (number_of (ctr_Block r)))" b] idx [OF that] pos [OF that] assms(2)
    by (simp add: nat_le_iff block_idx_def position_def)
  have "filter (\<lambda>r. nat (block_idx r) \<le> unat n) (cvm_transactions_txdata d) = filter (\<lambda>r. (- b, int (unat i)) \<le> position r) (cvm_transactions_txdata d)"
    by (rule filter_cong [OF refl cursor])
  moreover have "sort_key (\<lambda>r. - int (nat (block_idx r))) rows = sort_key position rows" if "set rows \<subseteq> set (cvm_transactions_txdata d)" for rows
  proof (rule sort_key_order_cong)
    fix r s assume rs: "r \<in> set rows" "s \<in> set rows"
    then have "ctr_Idx r \<le> 999" "ctr_Idx s \<le> 999" using assms(1) that by (auto simp: thousand_def)
    moreover have "0 \<le> block_idx r" "0 \<le> block_idx s" using rs that pos by auto
    ultimately show "- int (nat (block_idx r)) \<le> - int (nat (block_idx s)) \<longleftrightarrow> position r \<le> position s"
      by (simp add: block_idx_position)
  qed
  ultimately show ?thesis by (simp add: from_cursor_def sort_key_nat_desc rows_from_def)
qed

lemma from_cursor_map: "from_cursor a e key (map f rows) = map f (from_cursor a e (\<lambda>r. key (f r)) rows)"
  by (simp add: from_cursor_def filter_map o_def rev_map sort_key_map split: option.split)

lemma set_from_cursor: "set (from_cursor a e key rows) \<subseteq> set rows"
  by (auto simp: from_cursor_def split: option.split)

lemma select_bases_from:
  assumes "senders_known d" and "thousand d" and "page_from b p"
  shows "select_bases raw null p d = Inr (map (\<lambda>r. (r, sender d r)) (take (nat (cb_TxLimit p)) (rows_from b (cb_TxID p) d)))"
proof -
  obtain n where n: "tx_cursor (Some b) (cb_TxID p) = Some n" "int (unat n) = b * 1000 + (999 - int (unat (cb_TxID p)))"
    using tx_cursor_value [of b "cb_TxID p"] assms(3) by (auto simp: page_from_def)
  have rows: "from_cursor (Some n) e (\<lambda>r. nat (block_idx r)) (cvm_transactions_txdata d) = rows_from b (cb_TxID p) d" for e
    using cursor_rows [OF assms(2) n(2)] assms(3) by (simp add: page_from_def)
  have "set (take (nat (cb_TxLimit p)) (rows_from b (cb_TxID p) d)) \<subseteq> set (cvm_transactions_txdata d)"
    by (auto simp: rows_from_def dest!: in_set_takeD)
  with rows n(1) assms(3) read_senders [OF assms(1)] show ?thesis
    by (simp add: select_bases_def bind_err_def page_from_def times_filter_def txdata_rows_known [OF assms(1)] from_cursor_map
        take_map unat_of_int split_beta)
qed

text \<open>C37: Pages of C-chain transactions.  When no block has more than a thousand transactions, a request with a block and an index lists
  exactly the transactions from that position on: the rest of the block from the index, in the order of the block, and then the
  transactions of older blocks, up to the limit.  A client that asks for the position after the last one it has seen misses none and sees
  none twice.\<close>

theorem ListCBlocks_page:
  assumes "calm w" and "senders_known (store w)" and "thousand (store w)" and "page_from b p" and "lp_Limit (cb_ListParams p) \<le> 0"
    and "\<And>r. r \<in> set (cvm_transactions_txdata (store w)) \<Longrightarrow> \<exists>t. load_base B (r, sender (store w) r) = Inr t"
  shows "\<exists>ts. fst (ListCBlocks B raw null p w) = Inr \<lparr>bl_Blocks = [], bl_Transactions = ts\<rparr> \<and>
    list_all2 (\<lambda>r t. load_base B (r, sender (store w) r) = Inr t)
      (take (nat (cb_TxLimit p)) (sort_key position
        (filter (\<lambda>r. (- b, int (unat (cb_TxID p))) \<le> position r) (cvm_transactions_txdata (store w))))) ts"
proof -
  let ?rows = "take (nat (cb_TxLimit p)) (rows_from b (cb_TxID p) (store w))"
  let ?pairs = "map (\<lambda>r. (r, sender (store w) r)) ?rows"
  have "\<exists>t. load_base B x = Inr t" if "x \<in> set ?pairs" for x
    using that assms(6) by (auto simp: rows_from_def dest!: in_set_takeD)
  then obtain ts where ts: "read_all (load_base B) ?pairs = Inr ts" "list_all2 (\<lambda>x t. load_base B x = Inr t) ?pairs ts"
    using read_all_list [of ?pairs "load_base B"] by blast
  have "0 < cb_TxLimit p" using assms(4) by (simp add: page_from_def)
  with ts assms(1,5) select_bases_from [OF assms(2-4)]
  have "fst (ListCBlocks B raw null p w) = Inr \<lparr>bl_Blocks = [], bl_Transactions = ts\<rparr>"
    by (simp add: ListCBlocks_def bind_def ret_def calm_query lift_err_def)
  with ts(2) show ?thesis by (intro exI [of _ ts]) (simp add: list_all2_map1 rows_from_def)
qed

definition from_seven :: ListCBlocksParams where
  "from_seven = \<lparr>cb_ListParams = zero_params, cb_TxLimit = 2, cb_CAddresses = [], cb_BlockStart = Some 7, cb_BlockEnd = None, cb_TxID = 1\<rparr>"

lemma base_hash: "load_base no_ethlib (r, s) = Inr t \<Longrightarrow> tb_Hash t = ctr_Serialization r"
  by (auto simp: load_base_def no_ethlib_def bind_err_def)

theorem ListCBlocks_page_witness:
  "\<exists>ts. fst (ListCBlocks no_ethlib (\<lambda>s d. Inl s) (Inl ''null'') from_seven (calm_sample\<lparr>store := chain_db\<rparr>)) =
     Inr \<lparr>bl_Blocks = [], bl_Transactions = ts\<rparr> \<and> map tb_Hash ts = [''c'', ''b'']"
proof -
  let ?w = "calm_sample\<lparr>store := chain_db\<rparr>"
  have w: "calm ?w" "senders_known (store ?w)" "thousand (store ?w)"
    by (simp_all add: calm_def calm_sample_def sample_world_def chain_db_ok)
  have p: "page_from 7 from_seven" "lp_Limit (cb_ListParams from_seven) \<le> 0"
    by (simp_all add: page_from_def from_seven_def zero_params_def)
  have nums: "number_of ''7'' = 7" "number_of ''6'' = 6" by code_simp+
  have rows: "take (nat (cb_TxLimit from_seven)) (sort_key position
      (filter (\<lambda>r. (- 7, int (unat (cb_TxID from_seven))) \<le> position r) (cvm_transactions_txdata (store ?w)))) =
      [sample_txdata ''c'' ''7'' 1, sample_txdata ''b'' ''6'' 0]"
    by (simp add: chain_db_def sample_txdata_def from_seven_def position_def nums)
  from ListCBlocks_page [OF w p no_ethlib_reads(2), of "\<lambda>s d. Inl s" "Inl ''null''"]
  obtain ts where "fst (ListCBlocks no_ethlib (\<lambda>s d. Inl s) (Inl ''null'') from_seven ?w) = Inr \<lparr>bl_Blocks = [], bl_Transactions = ts\<rparr>"
    "list_all2 (\<lambda>r t. load_base no_ethlib (r, sender (store ?w) r) = Inr t) [sample_txdata ''c'' ''7'' 1, sample_txdata ''b'' ''6'' 0] ts"
    unfolding rows by blast
  moreover from this(2) have "map tb_Hash ts = [''c'', ''b'']"
    by (auto simp: list_all2_Cons1 sample_txdata_def dest!: base_hash)
  ultimately show ?thesis by (intro exI [of _ ts] conjI)
qed

end
