(* ===== verification/Api_Data.thy ===== *)
theory Api_Data
  imports Api_Server Aggregate_Processor Cchain_Reader
begin

text \<open>
  The handlers of \<^verbatim>\<open>src/api/v2.go\<close> that answer without the cache of responses: the serialized transactions of the
  three chains and the numbers that the processors of \<open>Aggregate_Processor\<close> keep.  \<open>marshal\<close> stands for the JSON encoder, which
  can fail.  Their errors are answered with status 400 and the text of the error.
\<close>

section \<open>Serialized transactions\<close>

record TxDataParam =
  td_ListParams :: ListParams
  td_ID :: string

definition TxDataParam_ForValues :: "parselib \<Rightarrow> gotime \<Rightarrow> u8 \<Rightarrow> Values \<Rightarrow> goerr + TxDataParam" where
  "TxDataParam_ForValues T now v q = bind_err (ForValues T now v q) (\<lambda>lp. Inr \<lparr>td_ListParams = lp, td_ID = []\<rparr>)"

definition TxDataParam_CacheKey :: "nodelib \<Rightarrow> TxDataParam \<Rightarrow> string list" where
  "TxDataParam_CacheKey L p = ListParams_CacheKey L (td_ListParams p)"

definition respond :: "goerr + bytes \<Rightarrow> response" where
  "respond r = (case r of Inl err \<Rightarrow> ErrorResponse 400 err | Inr b \<Rightarrow> Response 200 b)"

text \<open>The handler reads the query string, sets the id of the path and calls the reader.\<close>

definition tx_data ::
  "parselib \<Rightarrow> gotime \<Rightarrow> V2Context \<Rightarrow> Values \<Rightarrow> string \<Rightarrow> (string \<Rightarrow> (database, bytes) go) \<Rightarrow> database world \<Rightarrow> response \<times> database world" where
  "tx_data T now c q i reader w =
     (case TxDataParam_ForValues T now (v2_version c) q of
        Inl err \<Rightarrow> (ErrorResponse 400 err, w)
      | Inr p0 \<Rightarrow> let p = p0\<lparr>td_ID := i\<rparr> in (case reader (td_ID p) w of (r, w1) \<Rightarrow> (respond r, w1)))"

definition V2_ATxData ::
  "parselib \<Rightarrow> gotime \<Rightarrow> V2Context \<Rightarrow> parsers \<Rightarrow> Values \<Rightarrow> string \<Rightarrow> database world \<Rightarrow> response \<times> database world" where
  "V2_ATxData T now c chainConsumers q i = tx_data T now c q i (ATxDATA chainConsumers)"

definition V2_PTxData ::
  "parselib \<Rightarrow> gotime \<Rightarrow> V2Context \<Rightarrow> parsers \<Rightarrow> Values \<Rightarrow> string \<Rightarrow> database world \<Rightarrow> response \<times> database world" where
  "V2_PTxData T now c chainConsumers q i = tx_data T now c q i (PTxDATA chainConsumers)"

definition V2_CTxData ::
  "parselib \<Rightarrow> gotime \<Rightarrow> V2Context \<Rightarrow> nodelib \<Rightarrow> ethlib \<Rightarrow> goerr + string \<Rightarrow> (database \<Rightarrow> goerr + int) \<Rightarrow>
   (string \<Rightarrow> bytes \<Rightarrow> CTransactionData list \<Rightarrow> goerr + bytes) \<Rightarrow> Values \<Rightarrow> string \<Rightarrow> database world \<Rightarrow> response \<times> database world" where
  "V2_CTxData T now c L B null max_block marshal q i = tx_data T now c q i (CTxDATA L B null max_block marshal)"

section \<open>Numbers that are kept\<close>

definition V2_CacheAddressCounts :: "(ChainCounts list \<Rightarrow> goerr + bytes) \<Rightarrow> ReaderAggregate \<Rightarrow> response" where
  "V2_CacheAddressCounts marshal ra = respond (marshal (CacheAddressCounts ra))"

definition V2_CacheTxCounts :: "(ChainCounts list \<Rightarrow> goerr + bytes) \<Rightarrow> ReaderAggregate \<Rightarrow> response" where
  "V2_CacheTxCounts marshal ra = respond (marshal (CacheTxCounts ra))"

definition V2_CacheAssets :: "(Asset list \<Rightarrow> goerr + bytes) \<Rightarrow> ReaderAggregate \<Rightarrow> response" where
  "V2_CacheAssets marshal ra = respond (marshal (CacheAssets ra))"

definition V2_CacheAssetAggregates :: "(AssetAggregate list \<Rightarrow> goerr + bytes) \<Rightarrow> ReaderAggregate \<Rightarrow> response" where
  "V2_CacheAssetAggregates marshal ra = respond (marshal (CacheAssetAggregates ra))"

definition V2_CacheAggregates :: "(AggregatesHistogram option \<Rightarrow> goerr + bytes) \<Rightarrow> string \<Rightarrow> ReaderAggregate \<Rightarrow> response" where
  "V2_CacheAggregates marshal i ra = respond (marshal (CacheAggregates i ra))"

text \<open>An unknown period is not an error: the handler answers with the encoding of \<^verbatim>\<open>nil\<close>, as before the first run of a processor.\<close>

lemma V2_CacheAggregates_unknown:
  assumes "i \<notin> range tag_name"
  shows "V2_CacheAggregates marshal i ra = V2_CacheAggregates marshal i' (new_ReaderAggregate b)"
proof -
  have "CacheAggregates i ra = None"
    using assms rangeI [of tag_name Tag1m] rangeI [of tag_name Tag1h] rangeI [of tag_name Tag24h] rangeI [of tag_name Tag7d]
      rangeI [of tag_name Tag30d] by (auto simp: CacheAggregates_def)
  moreover have "CacheAggregates i' (new_ReaderAggregate b) = None" by (simp add: CacheAggregates_def new_ReaderAggregate_def)
  ultimately show ?thesis by (simp add: V2_CacheAggregates_def)
qed

end
