(* ===== verification/Spec2Isabelle.thy ===== *)
theory Spec2Isabelle
  imports Balance_System Rewards_Handler Stream_System Api_Data
begin

text \<open>
  A verification of the indexer \<^verbatim>\<open>mages\<close> (Magellan): the program follows the three chains of a node, writes what it
  finds into a relational database, accumulates balances, and answers queries over HTTP.  File names below are relative to
  \<^verbatim>\<open>src/\<close>.

  \<^bold>\<open>How the parts interact.\<close>
  A producer per chain and index (\<^verbatim>\<open>stream/producer_chain.go\<close>) fetches containers from the node, stores each in the
  table \<^verbatim>\<open>tx_pool\<close> and then moves its position in \<^verbatim>\<open>node_index\<close>.  The consumers (\<^verbatim>\<open>stream/consumer_db.go\<close>,
  \<^verbatim>\<open>stream/consumers/indexer.go\<close>) take rows of \<^verbatim>\<open>tx_pool\<close> from a queue, hand the container to the indexer of its
  chain in one database transaction, and remove the row.  The indexers (\<^verbatim>\<open>services/indexes/avm\<close>, \<^verbatim>\<open>pvm\<close>, \<^verbatim>\<open>cvm\<close>)
  write blocks and transactions, with a shared writer for inputs, outputs, addresses and fees (\<^verbatim>\<open>services/indexes/djtx/writer.go\<close>).
  All writes go through \<^verbatim>\<open>db/dbmodel.go\<close>.  The balance manager (\<^verbatim>\<open>balance/balance_manager.go\<close>) adds new rows of the
  ledger to accumulated balances; the rewards handler (\<^verbatim>\<open>services/rewards\<close>) records the outputs of staking rewards once a day.
  The API (\<^verbatim>\<open>api/v2.go\<close>) reads the parameters of a request (\<^verbatim>\<open>services/indexes/params\<close>), calls a reader
  (\<^verbatim>\<open>services/indexes/djtx/reader*.go\<close>) and caches the response (\<^verbatim>\<open>caching/\<close>, \<^verbatim>\<open>utils/ttlmapcache.go\<close>); a
  scheduler and a set of processors keep aggregated numbers ready.

  \<^bold>\<open>Conventions.\<close>
  \<open>Magellan_Prelude\<close> has the effects: a computation \<open>('d, 'a) go\<close> maps a \<open>world\<close> to an error or a value and the new world.  A world
  holds the store, the clock, and a function that says which statement fails with which driver error; theorems that do not assume
  \<open>calm\<close> hold for every pattern of failures.  Errors are strings, as the program classifies them by their text.  Machine integers are
  words; times are nanoseconds.  \<open>Sql_Engine\<close> has the statements on tables with keys, and \<open>Db_Schema\<close> the tables and the invariant
  \<open>db_ok\<close> that keys are unique.  Relations between worlds compose by the rules \<open>steps_intros\<close>, partial correctness by
  \<open>valid_intros\<close>, total correctness by \<open>succeeds_intros\<close>.  Code outside the repository is an argument: \<open>nodelib\<close>,
  \<open>parselib\<close>, \<open>cvmlib\<close> and \<open>ethlib\<close> collect the functions of the node and of the parsers; the JSON encoder, the order in which a
  Go map is iterated, and the reading of a null are arguments of the definitions that use them.

  \<^bold>\<open>Theories and what they show.\<close>

  \<^item> \<open>Db_Persist\<close> (\<^verbatim>\<open>db/dbmodel.go\<close>): every operation of the interface \<^verbatim>\<open>Persist\<close>.  \<open>Db_Replay\<close>: no table ever
    holds a key twice, replaying inserts changes nothing, the ledger only grows without updates, written rows are read back.
  \<^item> \<open>Models_Types\<close> (\<^verbatim>\<open>models/\<close>): constants, names, proposals and amounts.
  \<^item> \<open>Djtx_Writer\<close>: \<^verbatim>\<open>InsertTransaction\<close> and all it calls.  Success means that everything is recorded; the fee is exact;
    it succeeds when the driver answers and the sums fit.
  \<^item> \<open>Avm_Writer\<close>, \<open>Pvm_Writer\<close>, \<open>Cvm_Writer\<close>: \<^verbatim>\<open>Consume\<close> and \<^verbatim>\<open>Bootstrap\<close> of the chains.  A block is
    indexed completely or the database is as before; what the rows of blocks, accounts and caches hold.
  \<^item> \<open>Balance_Manager\<close>: the handlers, batches and retry loops.  \<open>Balance_System\<close>: workers and writers interleaved; in every reachable
    state the balances are the sums of the processed rows, and the code of a worker is a run of that system.
  \<^item> \<open>Rewards_Handler\<close>: a reward is marked only when it is settled.
  \<^item> \<open>Utils_Containers\<close>: the list of seen keys refines a bounded list; the cache with expiry; counters; the retry sleeper.
  \<^item> \<open>Stream_Pipeline\<close>, \<open>Stream_Consumers\<close>, \<open>Stream_System\<close>: producers and consumers, and the step relation that interleaves them with
    errors and restarts.  No container below the stored position is lost; the code of both sides is a run of the relation.
  \<^item> \<open>Request_Params\<close>: query strings, cache keys and the restriction of selects, with bounds, soundness of keys and their collisions.
  \<^item> \<open>Djtx_Reader\<close>, \<open>Djtx_Lists\<close>, \<open>Djtx_Transactions\<close>, \<open>Cchain_Reader\<close>: the readers.  Both kinds of address lists agree; pages, links,
    totals and the cached transactions of the lists of transactions; exports and pages of the C-chain.
  \<^item> \<open>Aggregates_Cache\<close>, \<open>Aggregate_Processor\<close>: what the scheduler and the processors keep, how old it is, and which number it shows.
  \<^item> \<open>Api_Server\<close>, \<open>Api_Data\<close>: the handlers and the cached responses; in every interleaving a response is the fresh answer or one given
    for the same key.
  \<^item> This theory: a transaction that is written is shown by the reader.

  The interfaces are locales.  \<open>world_rel\<close> and \<open>store_rel\<close> are relations that all statements respect; they are interpreted for key
  uniqueness, growth of the ledger and the environment.  \<open>sql_table\<close> has the laws of insert, update and load, interpreted for each table.
  \<open>queue\<close> is the contract between the balance manager and its queues of unprocessed rows, \<open>index_consumer\<close> that between the stream and
  an indexer, interpreted for the three chains, and \<open>recent_keys\<close> what the stream relies on in the list of seen keys.

  \<^bold>\<open>Loops and bounds.\<close>
  Loops over lists are structural.  The retry loops and the event loop of the balance manager may run for ever: they are partial functions
  with the value \<open>None\<close> for that, and termination theorems say that they return once the driver stops reporting errors.  No definition
  has fuel.  The bounds are those of the code: 5000 rows for a page and for the cached
  transactions, 100000 rows for a list by asset, 5 rows for a batch (the code sends 6), 10 jobs in the queue of responses.

  \<^bold>\<open>Not modelled.\<close>
  Listeners, routes and middleware of the third-party router (\<^verbatim>\<open>api/server.go\<close>, \<^verbatim>\<open>api/index.go\<close>); command line and configuration files
  (\<^verbatim>\<open>cmds/magelland\<close>, \<^verbatim>\<open>cfg/cfg.go\<close>); connections and metrics (\<^verbatim>\<open>utils/db.go\<close>, \<^verbatim>\<open>connections.go\<close>,
  \<^verbatim>\<open>prometheus.go\<close>); the stand-in for tests (\<^verbatim>\<open>db/dbmodel_mock.go\<close>); the client \<^verbatim>\<open>rpc/api.go\<close>; logging, timeouts and
  JSON.  They keep no state that the modelled code reads, or belong to third-party libraries.  Parsing of containers belongs to the node.
  The daily ticker of the rewards handler is not modelled, only its work.
\<close>

section \<open>From the writer to the reader\<close>

text \<open>The page of a request for one id.\<close>

lemma select_one:
  fixes L i
  assumes "db_ok d" and "t \<in> set (avm_transactions d)" and "tx_ID t = ID_String L i"
  defines "p \<equiv> \<lparr>lt_ListParams = id_params i, lt_ChainIDs = [], lt_Addresses = [], lt_AssetID = None, lt_OutputOutputTypes = [],
        lt_OutputGroupIDs = [], lt_DisableGenesis = False, lt_Sort = TransactionSortTimestampAsc\<rparr>"
  shows "bind_err (builderBase L p d) (\<lambda>ids. Inr (applySort p tn_cols
      (concat (map (\<lambda>t. map (\<lambda>_. t) (filter (\<lambda>i. i = tn_ID t) ids)) (transactionQuery d))))) = Inr [tx_row d t]"
proof -
  have one: "filter (\<lambda>s. tx_ID s = tx_ID t) (avm_transactions d) = [t]"
    by (rule filter_own_key [OF join_keys(3) [OF assms(1)] assms(2)])
  then have "builderBase L p d = Inr [tx_ID t]"
    using assms(3)
    by (simp add: builderBase_def p_def id_params_def zero_params_def listTxsQuery_def tx_wanted_def tx_cols_def applySort_def page_def
        TransactionSortTimestampAsc_def TransactionSortTimestampDesc_def Let_def)
  moreover have "concat (map (\<lambda>s. map (\<lambda>_. s) (filter (\<lambda>j. j = tn_ID s) [tx_ID t])) (map (tx_row d) xs)) =
      map (tx_row d) (filter (\<lambda>s. tx_ID s = tx_ID t) xs)" for xs
    by (induction xs) auto
  ultimately show ?thesis
    using one by (simp add: bind_err_def transactionQuery_rows [OF assms(1)] applySort_def p_def id_params_def zero_params_def
        TransactionSortTimestampAsc_def TransactionSortTimestampDesc_def Let_def)
qed

lemma GetTransaction_calm:
  assumes "calm w" and "db_ok (store w)" and "spent_known (store w)" and "ID_String L i \<noteq> []" and "\<not> rc_IsAggregateCache rc"
    and "t \<in> set (avm_transactions (store w))" and "tx_ID t = ID_String L i"
  shows "fst (GetTransaction L ord rc asset i w) =
    Inr (Some (dress_one L ord False (Some i) asset (store w) (undressed (tx_row (store w) t))))"
proof -
  let ?w = "w\<lparr>stmts := Suc (stmts w)\<rparr>" and ?txs = "[undressed (tx_row (store w) t)]"
  have "[] \<notin> tn_ID ` set ?txs" using assms(4,7) by simp
  with assms(1-3) obtain w' where "dressTransactions L ord asset (Some i) False ?txs ?w =
      (Inr (map (dress_one L ord False (Some i) asset (store w)) ?txs), w')"
    using dressTransactions_calm [of ?w ?txs L ord asset "Some i" False] by auto
  with assms(1,5) select_one [OF assms(2,6,7)] show ?thesis
    by (simp add: GetTransaction_def ListTransactions_def listTxs_def listTxFromCache_def listTxsFromCache_def bind_def ret_def calm_query
        id_params_def zero_params_def Let_def)
qed

text \<open>C5: What is indexed is shown.  When an X- or P-chain transaction is written without error, with updates off and a driver that does
  not invent duplicates, and no other transaction owns one of its output ids, then \<^verbatim>\<open>GetTransaction\<close> finds it by its id, and each
  of its outputs, those of the base transaction and the additional ones, is among the outputs that are shown, with the asset, the amount,
  the addresses and the spending transaction of the ledger.\<close>

theorem indexed_transaction_shown:
  assumes "\<not> PerformUpdates G" and "honest w0" and "db_ok (store w0)"
    and "InsertTransaction G L wr ctx txBytes txID unsignedBytes baseTx creds txType addIns addOuts addlOutTxfee genesis w0 = (Inr (), w1)"
    and "spent_known (store w1)" and "ID_String L txID \<noteq> []"
    and "\<forall>o1 \<in> set (avm_outputs (store w1)). \<forall>k < length (all_outs baseTx addOuts).
      out_ID o1 = ID_String L (ID_Prefix L txID (ucast (of_nat k :: u32))) \<longrightarrow> out_TransactionID o1 = ID_String L txID"
    and "calm w2" and "store w2 = store w1" and "\<not> rc_IsAggregateCache rc"
    and "\<And>xs. set (mo_addresses ord xs) = set xs" and "\<And>xs. mset (mo_inputs ord xs) = mset xs" and "\<And>xs. mset (mo_outputs ord xs) = mset xs"
  shows "\<exists>tx. fst (GetTransaction L ord rc asset txID w2) = Inr (Some tx) \<and> tn_ID tx = ID_String L txID \<and>
    (\<forall>k < length (all_outs baseTx addOuts). \<exists>o1 \<in> set (avm_outputs (store w1)).
      (out_ID o1 = ID_String L (ID_Prefix L txID (ucast (of_nat k :: u32))) \<or> out_OutputIndex o1 = of_nat k) \<and>
      out_TransactionID o1 = ID_String L txID \<and> ledger_view (store w1) o1 \<in> view ` set (tn_Outputs tx))"
proof -
  let ?d = "store w1" and ?i = "ID_String L txID"
  have ok: "db_ok ?d"
    using stepsD [OF InsertTransaction_tame [of G L wr ctx txBytes txID unsignedBytes baseTx creds txType addIns addOuts addlOutTxfee genesis], of w0]
      assms(3,4) by (simp add: tame_def keeps_ok_def)
  have rec: "recorded_tx L txID ?d" "\<forall>k < length (all_outs baseTx addOuts). recorded_out L txID (of_nat k) ?d"
    using validD [OF InsertTransaction_recorded [OF assms(1)] assms(4,2)] by (auto simp: recorded_all_def)
  obtain t where t: "t \<in> set (avm_transactions ?d)" "tx_ID t = ?i" using rec(1) by (auto simp: recorded_tx_def list_ex_iff)
  let ?raw = "undressed (tx_row ?d t)" and ?tx = "dress_one L ord False (Some txID) asset ?d (undressed (tx_row ?d t))"
  have none: "tn_Inputs ?raw = []" "tn_Outputs ?raw = []" by (simp_all add: undressed_def Transaction.defs)
  have parts: "mset (map view (tn_Outputs ?tx)) = mset (map (ledger_view ?d) (paid ?d ?i)) + mset (map view (of_type CchainOut (cvm_rows [?i] ?d) ?i))"
    "tn_ID ?tx = ?i"
    using dress_one_parts(1,5) [OF ok assms(11-13) none, where L = L and txID = "Some txID" and asset = asset] t(2) by simp_all
  have shown: "ledger_view ?d o1 \<in> view ` set (tn_Outputs ?tx)" if "o1 \<in> set (avm_outputs ?d)" "out_TransactionID o1 = ?i" for o1
  proof -
    have "ledger_view ?d o1 \<in># mset (map (ledger_view ?d) (paid ?d ?i))" using that by (auto simp: paid_def)
    then have "ledger_view ?d o1 \<in># mset (map view (tn_Outputs ?tx))" unfolding parts(1) by simp
    then show ?thesis by auto
  qed
  have "\<exists>o1 \<in> set (avm_outputs ?d). (out_ID o1 = ID_String L (ID_Prefix L txID (ucast (of_nat k :: u32))) \<or> out_OutputIndex o1 = of_nat k) \<and>
      out_TransactionID o1 = ?i \<and> ledger_view ?d o1 \<in> view ` set (tn_Outputs ?tx)" if "k < length (all_outs baseTx addOuts)" for k
    using rec(2) that assms(7) shown unfolding recorded_out_def list_ex_iff by metis
  moreover have "fst (GetTransaction L ord rc asset txID w2) = Inr (Some ?tx)"
    using GetTransaction_calm [of w2 L txID rc t ord asset] assms(5,6,8-10) ok t by simp
  ultimately show ?thesis using parts(2) by blast
qed

definition burn_tx :: BaseTx where
  "burn_tx = \<lparr>bt_NetworkID = 1, bt_Ins = [],
     bt_Outs = [\<lparr>tout_AssetID = ''DJTX'', tout_Out = SecpTransferOutput
                  \<lparr>to_Amt = 90, to_Owners = \<lparr>oo_Locktime = 0, oo_Threshold = 0, oo_Addrs = []\<rparr>\<rparr>\<rparr>], bt_Memo = None\<rparr>"

definition burn_run :: "(database, unit) go" where
  "burn_run = InsertTransaction example_globals example_lib
     \<lparr>dw_chainID = ''X'', dw_djtxAssetID = ''DJTX''\<rparr> \<lparr>ctx_Time = 5, ctx_ChainID = ''X''\<rparr>
     ''bytes'' ''tx'' ''unsigned'' burn_tx [] TransactionTypeBase None None 0 True"

lemma burn_runs:
  "\<exists>w1. burn_run example_world = (Inr (), w1) \<and> avm_outputs_redeeming (store w1) = [] \<and>
    map (\<lambda>o1. (out_ID o1, out_TransactionID o1)) (avm_outputs (store w1)) = [(''0tx'', ''tx'')]"
proof -
  have "dec_nat 0 = ''0''" by code_simp
  then show ?thesis
    by (simp add: burn_run_def burn_tx_def InsertTransaction_def ins_loop_def outs_loop_def bind_def andThen_def ret_def InsertTransactionOuts_def
        ProcessStateOut_def InsertOutput_def InsertOutputs_def InsertTransactionBase_def InsertTransactions_def upsert_def ignore_dup_def
        sql_insert_def exec_def lift_err_def example_lib_def example_globals_def example_world_def empty_db_def Let_def)
qed

theorem indexed_transaction_shown_witness:
  "\<exists>w1 tx. burn_run example_world = (Inr (), w1) \<and>
     fst (GetTransaction example_lib go_order \<lparr>rc_IsAggregateCache = False, rc_txDesc = new_TxList, rc_txAsc = new_TxList\<rparr> ''DJTX'' ''tx''
       (example_world\<lparr>store := store w1\<rparr>)) = Inr (Some tx) \<and> tn_ID tx = ''tx'' \<and> tn_Outputs tx \<noteq> []"
proof -
  let ?rc = "\<lparr>rc_IsAggregateCache = False, rc_txDesc = new_TxList, rc_txAsc = new_TxList\<rparr>"
  obtain w1 where w1: "burn_run example_world = (Inr (), w1)" "avm_outputs_redeeming (store w1) = []"
    "map (\<lambda>o1. (out_ID o1, out_TransactionID o1)) (avm_outputs (store w1)) = [(''0tx'', ''tx'')]"
    using burn_runs by (elim exE conjE) (rule that)
  let ?w2 = "example_world\<lparr>store := store w1\<rparr>"
  have upd: "\<not> PerformUpdates example_globals" by (simp add: example_globals_def)
  have known: "spent_known (store w1)" by (simp add: spent_known_def w1(2))
  have name: "ID_String example_lib ''tx'' \<noteq> []" by (simp add: example_lib_def)
  have own: "\<forall>o1 \<in> set (avm_outputs (store w1)). \<forall>k < length (all_outs burn_tx None).
      out_ID o1 = ID_String example_lib (ID_Prefix example_lib ''tx'' (ucast (of_nat k :: u32))) \<longrightarrow> out_TransactionID o1 = ID_String example_lib ''tx''"
    using w1(3) by (auto simp: example_lib_def)
  have calm: "calm ?w2" "store ?w2 = store w1" by (simp_all add: example_world_def calm_def)
  have "\<not> rc_IsAggregateCache ?rc" by simp
  from indexed_transaction_shown [OF upd example_world_ready(2,4) w1(1) [unfolded burn_run_def] known name own calm this, of go_order "''DJTX''"]
  obtain tx where "fst (GetTransaction example_lib go_order ?rc ''DJTX'' ''tx'' ?w2) = Inr (Some tx)" "tn_ID tx = ''tx''"
    "\<exists>o1. ledger_view (store w1) o1 \<in> view ` set (tn_Outputs tx)"
    by (auto simp: go_order_def example_lib_def all_outs_def burn_tx_def)
  with w1(1) show ?thesis by (intro exI [of _ w1] exI [of _ tx]) auto
qed

end
